(* ===== verification/Platform_Prelude.thy ===== *)
theory Platform_Prelude
  imports Main "HOL-Library.AList" "HOL-Library.Char_ord" "HOL-Library.List_Lexorder"
    "HOL-Library.Product_Lexorder" "HOL-Library.Multiset"
begin

text \<open>
  What the component theories share: Python dictionaries (insertion ordered, so association
  lists with in-place update), fallible results, the string operations of the source
  (\<^verbatim>\<open>split\<close>, \<^verbatim>\<open>partition\<close>, \<^verbatim>\<open>startswith\<close>, \<^verbatim>\<open>isdigit\<close>, \<^verbatim>\<open>int\<close>), the total order that Python's
  tuples and strings have (lexicographic), and generic lemmas on them. Strings are sequences of
  ASCII characters.
\<close>

section \<open>Collections of the development\<close>

named_theorems dict_simps \<open>rewriting of dictionary reads after writes\<close>
named_theorems result_simps \<open>unfolding of the result combinators\<close>
named_theorems inv_intros \<open>operations preserve the component invariants\<close>

section \<open>Dictionaries\<close>

text \<open>
  A Python dictionary keeps its insertion order: writing an existing key keeps the key's place,
  writing a new one appends it.
\<close>

type_synonym ('k, 'v) dict = "('k \<times> 'v) list"

abbreviation dict_get :: "('k, 'v) dict \<Rightarrow> 'k \<Rightarrow> 'v option" where
  "dict_get \<equiv> map_of"

abbreviation dict_set :: "('k, 'v) dict \<Rightarrow> 'k \<Rightarrow> 'v \<Rightarrow> ('k, 'v) dict" where
  "dict_set d k v \<equiv> AList.update k v d"

abbreviation dict_pop :: "('k, 'v) dict \<Rightarrow> 'k \<Rightarrow> ('k, 'v) dict" where
  "dict_pop d k \<equiv> AList.delete k d"

abbreviation dict_keys :: "('k, 'v) dict \<Rightarrow> 'k list" where
  "dict_keys d \<equiv> map fst d"

abbreviation dict_values :: "('k, 'v) dict \<Rightarrow> 'v list" where
  "dict_values d \<equiv> map snd d"

abbreviation dict_wf :: "('k, 'v) dict \<Rightarrow> bool" where
  "dict_wf d \<equiv> distinct (dict_keys d)"

definition get_default :: "('k, 'v) dict \<Rightarrow> 'k \<Rightarrow> 'v \<Rightarrow> 'v" where
  "get_default d k v = (case dict_get d k of None \<Rightarrow> v | Some w \<Rightarrow> w)"

lemma dict_get_set [dict_simps, simp]:
  "dict_get (dict_set d k v) k' = (if k' = k then Some v else dict_get d k')"
  by (simp add: update_conv')

lemma dict_get_pop [dict_simps, simp]:
  "dict_get (dict_pop d k) k' = (if k' = k then None else dict_get d k')"
  by (simp add: delete_conv')

lemma dict_wf_set [inv_intros, simp]: "dict_wf d \<Longrightarrow> dict_wf (dict_set d k v)"
  by (rule distinct_update)

lemma dict_wf_pop [inv_intros, simp]: "dict_wf d \<Longrightarrow> dict_wf (dict_pop d k)"
  by (rule distinct_delete)

lemma get_default_set [dict_simps, simp]:
  "get_default (dict_set d k v) k' w = (if k' = k then v else get_default d k' w)"
  by (simp add: get_default_def)

lemma dict_keys_set: "set (dict_keys (dict_set d k v)) = insert k (set (dict_keys d))"
  by (induction d) auto

lemma dict_set_new: "k \<notin> set (dict_keys d) \<Longrightarrow> dict_set d k v = d @ [(k, v)]"
  by (induction d) auto

lemma dict_set_values: "x \<in> set (dict_values (dict_set d k v)) \<Longrightarrow> x = v \<or> x \<in> set (dict_values d)"
  by (induction d) (auto split: if_splits)

lemma dict_set_entry: "p \<in> set (dict_set d k v) \<Longrightarrow> p = (k, v) \<or> p \<in> set d"
  by (induction d) (auto split: if_splits)

lemma dict_get_in_values: "dict_get d k = Some v \<Longrightarrow> v \<in> set (dict_values d)"
  by (force dest: map_of_SomeD)

lemma dict_get_key: "dict_get d k = Some v \<Longrightarrow> k \<in> fst ` set d"
  by (force dest: map_of_SomeD)

lemma dict_get_filter_key: "P k \<Longrightarrow> dict_get (filter (\<lambda>(j, b). P j) d) k = dict_get d k"
  by (induction d) auto

lemma dict_get_iff: "dict_wf d \<Longrightarrow> (dict_get d k = Some v) = ((k, v) \<in> set d)"
  by (simp add: map_of_eq_Some_iff)

section \<open>Results\<close>

text \<open>A call that may raise returns \<open>Inl\<close> of the exception or \<open>Inr\<close> of its value.\<close>

definition rbind :: "'e + 'a \<Rightarrow> ('a \<Rightarrow> 'e + 'b) \<Rightarrow> 'e + 'b" where
  "rbind r f = (case r of Inl e \<Rightarrow> Inl e | Inr x \<Rightarrow> f x)"

lemma rbind_simps [result_simps, simp]:
  "rbind (Inl e) f = Inl e"
  "rbind (Inr x) f = f x"
  by (simp_all add: rbind_def)

lemma rbind_Inr: "(rbind r f = Inr y) = (\<exists>x. r = Inr x \<and> f x = Inr y)"
  by (cases r) auto

lemma rbind_Inl: "(rbind r f = Inl e) = (r = Inl e \<or> (\<exists>x. r = Inr x \<and> f x = Inl e))"
  by (cases r) auto

lemma case_list_Inr:
  "((case xs of [] \<Rightarrow> Inl e | x # ys \<Rightarrow> f x ys) = Inr b) = (\<exists>x ys. xs = x # ys \<and> f x ys = Inr b)"
  by (cases xs) auto

lemma case_option_Inr:
  "((case x of None \<Rightarrow> Inl e | Some y \<Rightarrow> f y) = Inr b) = (\<exists>y. x = Some y \<and> f y = Inr b)"
  by (cases x) auto

lemma if_Inr:
  "((if c then Inl e else r) = Inr b) = (\<not> c \<and> r = Inr b)"
  "((if c then r else Inl e) = Inr b) = (c \<and> r = Inr b)"
  by auto

lemmas result_Inr = rbind_Inr case_list_Inr case_option_Inr if_Inr

lemma rbind_cong [fundef_cong]:
  "r = r' \<Longrightarrow> (\<And>x. r' = Inr x \<Longrightarrow> f x = g x) \<Longrightarrow> rbind r f = rbind r' g"
  by (cases r') auto

text \<open>\<^verbatim>\<open>except E as exc: raise F(exc)\<close>.\<close>

definition rerr :: "('d \<Rightarrow> 'e) \<Rightarrow> 'd + 'a \<Rightarrow> 'e + 'a" where
  "rerr f r = (case r of Inl e \<Rightarrow> Inl (f e) | Inr x \<Rightarrow> Inr x)"

lemma rerr_simps [result_simps, simp]:
  "rerr f (Inl e) = Inl (f e)"
  "rerr f (Inr x) = Inr x"
  by (simp_all add: rerr_def)

lemma rerr_Inr [simp]: "(rerr f r = Inr x) = (r = Inr x)"
  by (cases r) auto

lemma rerr_Inl: "(rerr f r = Inl e) = (\<exists>d. r = Inl d \<and> e = f d)"
  by (cases r) auto

definition is_ok :: "'e + 'a \<Rightarrow> bool" where
  "is_ok r = (case r of Inl _ \<Rightarrow> False | Inr _ \<Rightarrow> True)"

lemma is_ok_simps [simp]: "is_ok (Inr x)" "\<not> is_ok (Inl e)"
  by (simp_all add: is_ok_def)

lemma is_ok_iff: "is_ok r = (\<exists>x. r = Inr x)"
  by (cases r) auto

text \<open>
  A call that also changes state returns the state beside its result: what it had written before
  it raised stays written.
\<close>

type_synonym ('s, 'e, 'a) st = "'s \<Rightarrow> ('e + 'a) \<times> 's"

definition sret :: "'a \<Rightarrow> ('s, 'e, 'a) st" where
  "sret x s = (Inr x, s)"

definition sraise :: "'e \<Rightarrow> ('s, 'e, 'a) st" where
  "sraise e s = (Inl e, s)"

definition slift :: "'e + 'a \<Rightarrow> ('s, 'e, 'a) st" where
  "slift r s = (r, s)"

definition sread :: "('s \<Rightarrow> 'a) \<Rightarrow> ('s, 'e, 'a) st" where
  "sread f s = (Inr (f s), s)"

definition smodify :: "('s \<Rightarrow> 's) \<Rightarrow> ('s, 'e, unit) st" where
  "smodify f s = (Inr (), f s)"

definition sbind :: "('s, 'e, 'a) st \<Rightarrow> ('a \<Rightarrow> ('s, 'e, 'b) st) \<Rightarrow> ('s, 'e, 'b) st" where
  "sbind m f s = (case m s of (Inl e, s') \<Rightarrow> (Inl e, s') | (Inr x, s') \<Rightarrow> f x s')"

text \<open>\<^verbatim>\<open>try: m except e: h(e)\<close>.\<close>

definition scatch :: "('s, 'd, 'a) st \<Rightarrow> ('d \<Rightarrow> ('s, 'e, 'a) st) \<Rightarrow> ('s, 'e, 'a) st" where
  "scatch m h s = (case m s of (Inl e, s') \<Rightarrow> h e s' | (Inr x, s') \<Rightarrow> (Inr x, s'))"

fun smap :: "('x \<Rightarrow> ('s, 'e, 'a) st) \<Rightarrow> 'x list \<Rightarrow> ('s, 'e, 'a list) st" where
  "smap f [] = sret []"
| "smap f (x # xs) = sbind (f x) (\<lambda>y. sbind (smap f xs) (\<lambda>ys. sret (y # ys)))"

lemmas st_defs = sret_def sraise_def slift_def sread_def smodify_def

lemma sbind_Inr:
  "(sbind m f s = (Inr y, t)) = (\<exists>x u. m s = (Inr x, u) \<and> f x u = (Inr y, t))"
  by (auto simp: sbind_def split: prod.splits sum.splits)

lemma sbind_Inl:
  "(sbind m f s = (Inl e, t)) = (m s = (Inl e, t) \<or> (\<exists>x u. m s = (Inr x, u) \<and> f x u = (Inl e, t)))"
  by (auto simp: sbind_def split: prod.splits sum.splits)

lemma sbind_sret [simp]: "sbind (sret x) f s = f x s"
  by (simp add: sbind_def st_defs)

lemma sbind_sraise [simp]: "sbind (sraise e) f s = (Inl e, s)"
  by (simp add: sbind_def st_defs)

lemma sbind_sread [simp]: "sbind (sread g) f s = f (g s) s"
  by (simp add: sbind_def st_defs)

lemma sbind_smodify [simp]: "sbind (smodify g) f s = f () (g s)"
  by (simp add: sbind_def st_defs)

lemma sbind_slift [simp]:
  "sbind (slift (Inr x)) f s = f x s"
  "sbind (slift (Inl e)) f s = (Inl e, s)"
  by (simp_all add: sbind_def st_defs)

section \<open>Strings\<close>

fun split_on :: "char \<Rightarrow> string \<Rightarrow> string list" where
  "split_on c [] = [[]]"
| "split_on c (x # xs) =
     (if x = c then [] # split_on c xs
      else (case split_on c xs of [] \<Rightarrow> [[x]] | y # ys \<Rightarrow> (x # y) # ys))"

fun join_on :: "char \<Rightarrow> string list \<Rightarrow> string" where
  "join_on c [] = []"
| "join_on c [x] = x"
| "join_on c (x # y # ys) = x @ c # join_on c (y # ys)"

lemma split_on_nonempty [simp]: "split_on c s \<noteq> []"
  by (induction s) (auto split: list.splits)

lemma split_on_plain: "c \<notin> set s \<Longrightarrow> split_on c s = [s]"
  by (induction s) auto

lemma split_on_append: "c \<notin> set s \<Longrightarrow> split_on c (s @ c # t) = s # split_on c t"
  by (induction s) auto

lemma split_on_join:
  "xs \<noteq> [] \<Longrightarrow> \<forall>x \<in> set xs. c \<notin> set x \<Longrightarrow> split_on c (join_on c xs) = xs"
  by (induction c xs rule: join_on.induct) (auto simp: split_on_plain split_on_append)

lemma join_on_split: "join_on c (split_on c s) = s"
proof (induction s)
  case Nil
  then show ?case by simp
next
  case (Cons x xs)
  obtain y ys where y: "split_on c xs = y # ys"
    by (cases "split_on c xs") auto
  with Cons.IH show ?case
    by (cases ys) auto
qed

lemma split_on_parts: "p \<in> set (split_on c s) \<Longrightarrow> c \<notin> set p"
proof (induction s arbitrary: p)
  case Nil
  then show ?case by simp
next
  case (Cons x xs)
  then show ?case by (fastforce split: list.splits if_splits)
qed

text \<open>\<^verbatim>\<open>s.partition(c)\<close>: the text before the first \<open>c\<close>, whether \<open>c\<close> was found, the text after it.\<close>

fun partition_on :: "char \<Rightarrow> string \<Rightarrow> string \<times> bool \<times> string" where
  "partition_on c [] = ([], False, [])"
| "partition_on c (x # xs) =
     (if x = c then ([], True, xs)
      else (case partition_on c xs of (b, f, a) \<Rightarrow> (x # b, f, a)))"

lemma partition_on_absent: "c \<notin> set s \<Longrightarrow> partition_on c s = (s, False, [])"
  by (induction s) auto

lemma partition_on_append: "c \<notin> set s \<Longrightarrow> partition_on c (s @ c # t) = (s, True, t)"
  by (induction s) auto

lemma partition_on_found: "partition_on c s = (b, True, a) \<Longrightarrow> s = b @ c # a \<and> c \<notin> set b"
  by (induction s arbitrary: b) (auto split: if_splits prod.splits)

lemma partition_on_nosep: "partition_on c s = (b, False, a) \<Longrightarrow> s = b \<and> a = []"
  by (induction s arbitrary: b) (auto split: if_splits prod.splits)

definition starts_with :: "string \<Rightarrow> string \<Rightarrow> bool" where
  "starts_with p s = (take (length p) s = p)"

lemma starts_with_append [simp]: "starts_with p (p @ s)"
  by (simp add: starts_with_def)

lemma starts_with_ex: "starts_with p s = (\<exists>t. s = p @ t)"
  unfolding starts_with_def by (metis append_eq_conv_conj)

section \<open>Decimal numerals\<close>

definition is_digit :: "char \<Rightarrow> bool" where
  "is_digit c = (48 \<le> (of_char c :: nat) \<and> (of_char c :: nat) \<le> 57)"

definition digit_val :: "char \<Rightarrow> nat" where
  "digit_val c = of_char c - 48"

text \<open>\<^verbatim>\<open>s.isdigit()\<close>: non-empty and all digits. \<^verbatim>\<open>int(s)\<close> on such a string; \<^verbatim>\<open>str(n)\<close>.\<close>

definition all_digits :: "string \<Rightarrow> bool" where
  "all_digits s = (s \<noteq> [] \<and> list_all is_digit s)"

definition int_of_str :: "string \<Rightarrow> nat" where
  "int_of_str s = foldl (\<lambda>a c. 10 * a + digit_val c) 0 s"

definition digit_char :: "nat \<Rightarrow> char" where
  "digit_char d = char_of (48 + d)"

fun str_of_nat :: "nat \<Rightarrow> string" where
  "str_of_nat n = (if n < 10 then [digit_char n] else str_of_nat (n div 10) @ [digit_char (n mod 10)])"

declare str_of_nat.simps [simp del]

lemma digit_val_char: "d < 10 \<Longrightarrow> digit_val (digit_char d) = d"
  by (simp add: digit_val_def digit_char_def)

lemma is_digit_char: "d < 10 \<Longrightarrow> is_digit (digit_char d)"
  by (simp add: is_digit_def digit_char_def)

lemma int_of_str_snoc: "int_of_str (s @ [c]) = 10 * int_of_str s + digit_val c"
  by (simp add: int_of_str_def)

lemma int_of_str_of_nat [simp]: "int_of_str (str_of_nat n) = n"
proof (induction n rule: str_of_nat.induct)
  case (1 n)
  show ?case
  proof (cases "n < 10")
    case True
    then show ?thesis
      by (subst str_of_nat.simps) (simp add: int_of_str_def digit_val_char)
  next
    case False
    with "1.IH" show ?thesis
      by (subst str_of_nat.simps) (simp add: int_of_str_snoc digit_val_char)
  qed
qed

lemma all_digits_str_of_nat [simp]: "all_digits (str_of_nat n)"
proof (induction n rule: str_of_nat.induct)
  case (1 n)
  then show ?case
    by (subst str_of_nat.simps) (auto simp: all_digits_def is_digit_char)
qed

lemma all_digits_no_char: "all_digits s \<Longrightarrow> \<not> is_digit c \<Longrightarrow> c \<notin> set s"
  by (auto simp: all_digits_def list_all_iff)

lemma dot_not_digit [simp]: "\<not> is_digit CHR ''.''"
  by (simp add: is_digit_def)

section \<open>Sorting\<close>

text \<open>
  \<^verbatim>\<open>sorted(xs, key=k)\<close> is the stable \<^const>\<open>sort_key\<close>. Where the keys are distinct the result does
  not depend on the order of the input.
\<close>

lemma filter_key_le_one:
  "distinct (map k zs) \<Longrightarrow> length (filter (\<lambda>x. k v = k x) zs) \<le> 1"
  by (induction zs) (auto simp: filter_empty_conv)

lemma mset_eq_le_one: "mset us = mset vs \<Longrightarrow> length vs \<le> 1 \<Longrightarrow> us = vs"
  by (cases vs) auto

lemma sort_key_perm_unique:
  assumes d: "distinct (map k xs)" and m: "mset xs = mset ys"
  shows "sort_key k xs = sort_key k ys"
proof (rule properties_for_sort_key)
  show "mset (sort_key k ys) = mset xs" by (simp add: m)
  show "sorted (map k (sort_key k ys))" by simp
  fix v
  have ms: "mset (filter (\<lambda>x. k v = k x) (sort_key k ys)) = mset (filter (\<lambda>x. k v = k x) xs)"
    by (simp add: m)
  have "length (filter (\<lambda>x. k v = k x) xs) \<le> 1"
    using d by (rule filter_key_le_one)
  with ms show "filter (\<lambda>x. k v = k x) (sort_key k ys) = filter (\<lambda>x. k v = k x) xs"
    by (rule mset_eq_le_one)
qed

section \<open>White space\<close>

text \<open>\<^verbatim>\<open>s.strip()\<close> and \<^verbatim>\<open>s.split()\<close> over the ASCII white space of \<^verbatim>\<open>str\<close>.\<close>

definition is_space :: "char \<Rightarrow> bool" where
  "is_space c = (let n = (of_char c :: nat) in 9 \<le> n \<and> n \<le> 13 \<or> 28 \<le> n \<and> n \<le> 32)"

definition py_strip :: "string \<Rightarrow> string" where
  "py_strip s = rev (dropWhile is_space (rev (dropWhile is_space s)))"

function py_split :: "string \<Rightarrow> string list" where
  "py_split [] = []"
| "py_split (c # cs) =
     (if is_space c then py_split cs
      else (c # takeWhile (\<lambda>x. \<not> is_space x) cs) # py_split (dropWhile (\<lambda>x. \<not> is_space x) cs))"
  by pat_completeness auto
termination
  by (relation "measure length") (auto simp: le_imp_less_Suc length_dropWhile_le)

lemma dropWhile_id: "(s \<noteq> [] \<Longrightarrow> \<not> P (hd s)) \<Longrightarrow> dropWhile P s = s"
  by (cases s) auto

lemma py_strip_id:
  "(s \<noteq> [] \<Longrightarrow> \<not> is_space (hd s)) \<Longrightarrow> (s \<noteq> [] \<Longrightarrow> \<not> is_space (last s)) \<Longrightarrow> py_strip s = s"
  by (cases "s = []") (simp_all add: py_strip_def dropWhile_id hd_rev)

lemma py_strip_plain: "list_all (\<lambda>c. \<not> is_space c) s \<Longrightarrow> py_strip s = s"
  by (rule py_strip_id) (auto simp: list_all_iff)

lemma py_split_words: "w \<in> set (py_split s) \<Longrightarrow> w \<noteq> [] \<and> list_all (\<lambda>c. \<not> is_space c) w"
proof (induction s rule: py_split.induct)
  case (2 c cs)
  show ?case
  proof (cases "is_space c")
    case False
    have "list_all (\<lambda>x. \<not> is_space x) (takeWhile (\<lambda>x. \<not> is_space x) cs)"
      by (auto simp: list_all_iff dest: set_takeWhileD)
    with False "2.IH"(2) "2.prems" show ?thesis by auto
  qed (use 2 in simp)
qed simp

end
