(* ===== verification/Hub_Store.thy ===== *)
theory Hub_Store
  imports Platform_Prelude
begin

text \<open>
  Hub's content-addressed artifact registry: the OCI image-layout primitives of
  \<^verbatim>\<open>hub/registry/_oci.py\<close> and the class \<^verbatim>\<open>Registry\<close> of \<^verbatim>\<open>hub/registry/_store.py\<close> (publish, resolve,
  pull, referrers, listing, integrity, garbage collection). The layout directory is a record of
  its two parts, the blob files by name and the index. SHA-256 and JSON are the \<open>codec\<close>
  parameter; bytes are a type variable.
\<close>

section \<open>OCI primitives\<close>

definition MEDIA_MANIFEST :: string where
  "MEDIA_MANIFEST = ''application/vnd.oci.image.manifest.v1+json''"

definition MEDIA_EMPTY :: string where
  "MEDIA_EMPTY = ''application/vnd.oci.empty.v1+json''"

definition ARTIFACT_KINDS :: "string list" where
  "ARTIFACT_KINDS =
    [''policy'', ''world'', ''asset'', ''surrogate'', ''plugin'', ''schema'', ''design'', ''campaign'']"

definition REF_ANNOTATION :: string where
  "REF_ANNOTATION = ''org.opencontainers.image.ref.name''"

datatype hub_error =
    UnsupportedAlgorithm string
  | MalformedDigest string
  | BlobKeyError string
  | BadManifestJson string
  | IntegrityError string string
  | UnknownArtifactKind string
  | ArtifactExistsError string
  | ArtifactNotFound string
  | MalformedReference string
  | NoLayers string

definition artifact_media_type :: "string \<Rightarrow> hub_error + string" where
  "artifact_media_type kind =
    (if kind \<notin> set ARTIFACT_KINDS then Inl (UnknownArtifactKind kind)
     else Inr (''application/vnd.astro-mine.'' @ kind @ ''.v1''))"

definition ends_with :: "string \<Rightarrow> string \<Rightarrow> bool" where
  "ends_with suffix s = (length suffix \<le> length s \<and> drop (length s - length suffix) s = suffix)"

definition artifact_kind_of :: "string option \<Rightarrow> string option" where
  "artifact_kind_of media_type =
    (case media_type of
       None \<Rightarrow> None
     | Some mt \<Rightarrow>
         if mt = [] then None
         else let prefix = ''application/vnd.astro-mine.''; suffix = ''.v1''
              in if \<not> (starts_with prefix mt \<and> ends_with suffix mt) then None
                 else let kind = take (length mt - length suffix - length prefix) (drop (length prefix) mt)
                      in if kind \<in> set ARTIFACT_KINDS then Some kind else None)"

record descriptor =
  media_type :: string
  digest :: string
  dsize :: nat
  artifact_type :: "string option"
  annotations :: "(string, string) dict"

record image_manifest =
  im_artifact_type :: string
  im_config :: descriptor
  im_layers :: "descriptor list"
  im_subject :: "string option"
  im_annotations :: "(string, string) dict"

record 'b blob =
  blob_media :: string
  blob_data :: 'b

record 'b codec =
  hexdigest :: "'b \<Rightarrow> string"
  byte_len :: "'b \<Rightarrow> nat"
  dumps :: "image_manifest \<Rightarrow> 'b"
  loads :: "'b \<Rightarrow> image_manifest option"
  empty_config :: 'b

record 'b layout =
  blobs :: "(string, 'b) dict"
  index :: "descriptor list"

definition sha256_digest :: "string \<Rightarrow> string" where
  "sha256_digest h = ''sha256:'' @ h"

definition content_hash :: "'b codec \<Rightarrow> 'b \<Rightarrow> string" where
  "content_hash cd data = sha256_digest (hexdigest cd data)"

definition blob_descriptor :: "'b codec \<Rightarrow> 'b blob \<Rightarrow> descriptor" where
  "blob_descriptor cd b =
    \<lparr>media_type = blob_media b, digest = content_hash cd (blob_data b),
     dsize = byte_len cd (blob_data b), artifact_type = None, annotations = []\<rparr>"

text \<open>The file name of a digest under \<^verbatim>\<open>blobs/sha256\<close>.\<close>

definition blob_path :: "string \<Rightarrow> hub_error + string" where
  "blob_path dg =
    (case partition_on CHR '':'' dg of
       (algorithm, _, hexpart) \<Rightarrow>
         if algorithm \<noteq> ''sha256'' then Inl (UnsupportedAlgorithm algorithm)
         else if hexpart = [] then Inl (MalformedDigest dg)
         else Inr hexpart)"

definition put_blob :: "'b codec \<Rightarrow> 'b blob \<Rightarrow> ('b layout, hub_error, descriptor) st" where
  "put_blob cd b =
    sbind (slift (blob_path (content_hash cd (blob_data b)))) (\<lambda>path.
    sbind (smodify (\<lambda>lay.
        if dict_get (blobs lay) path = None
        then lay\<lparr>blobs := dict_set (blobs lay) path (blob_data b)\<rparr> else lay)) (\<lambda>_.
    sret (blob_descriptor cd b)))"

definition has_blob :: "'b layout \<Rightarrow> string \<Rightarrow> hub_error + bool" where
  "has_blob lay dg = rbind (blob_path dg) (\<lambda>path. Inr (dict_get (blobs lay) path \<noteq> None))"

definition read_blob :: "'b layout \<Rightarrow> string \<Rightarrow> hub_error + 'b" where
  "read_blob lay dg =
    rbind (blob_path dg) (\<lambda>path.
      case dict_get (blobs lay) path of None \<Rightarrow> Inl (BlobKeyError dg) | Some b \<Rightarrow> Inr b)"

definition verify_blob :: "'b codec \<Rightarrow> 'b layout \<Rightarrow> string \<Rightarrow> hub_error + unit" where
  "verify_blob cd lay dg =
    rbind (read_blob lay dg) (\<lambda>b.
      if content_hash cd b \<noteq> dg then Inl (IntegrityError dg (content_hash cd b)) else Inr ())"

definition canonical_manifest :: "'b codec \<Rightarrow> image_manifest \<Rightarrow> 'b blob" where
  "canonical_manifest cd m = \<lparr>blob_media = MEDIA_MANIFEST, blob_data = dumps cd m\<rparr>"

section \<open>The registry\<close>

record published_artifact =
  pa_name :: string
  pa_version :: string
  pa_reference :: string
  pa_digest :: string

definition parse_reference :: "string \<Rightarrow> hub_error + string \<times> string \<times> string option" where
  "parse_reference reference =
    (if starts_with ''sha256:'' reference then Inr ([], [], Some reference)
     else if CHR ''@'' \<in> set reference then
       (case partition_on CHR ''@'' reference of
          (name, _, dg) \<Rightarrow>
            if name = [] \<or> \<not> starts_with ''sha256:'' dg then Inl (MalformedReference reference)
            else Inr (name, [], Some dg))
     else
       (case partition_on CHR '':'' reference of
          (name, sep, version) \<Rightarrow>
            if \<not> sep \<or> name = [] \<or> version = [] then Inl (MalformedReference reference)
            else Inr (name, version, None)))"

definition tag_of :: "descriptor \<Rightarrow> string option" where
  "tag_of e = dict_get (annotations e) REF_ANNOTATION"

definition publish ::
    "'b codec \<Rightarrow> string \<Rightarrow> string \<Rightarrow> string \<Rightarrow> 'b blob \<Rightarrow> 'b blob list \<Rightarrow> (string, string) dict
      \<Rightarrow> ('b layout, hub_error, published_artifact) st" where
  "publish cd name version kind config layers annots =
    (let reference = name @ '':'' @ version in
     sbind (sread index) (\<lambda>entries.
     if \<exists>e \<in> set entries. tag_of e = Some reference
     then sraise (ArtifactExistsError reference)
     else
       sbind (put_blob cd config) (\<lambda>config_desc.
       sbind (smap (put_blob cd) layers) (\<lambda>layer_descs.
       sbind (slift (artifact_media_type kind)) (\<lambda>at.
       sbind (put_blob cd (canonical_manifest cd
           \<lparr>im_artifact_type = at, im_config = config_desc, im_layers = layer_descs,
            im_subject = None, im_annotations = annots\<rparr>)) (\<lambda>manifest_desc.
       sbind (smodify (\<lambda>lay. lay\<lparr>index := index lay
           @ [manifest_desc\<lparr>artifact_type := Some at, annotations := [(REF_ANNOTATION, reference)]\<rparr>]\<rparr>)) (\<lambda>_.
       sret \<lparr>pa_name = name, pa_version = version, pa_reference = reference,
             pa_digest = digest manifest_desc\<rparr>)))))))"

fun find_tag :: "descriptor list \<Rightarrow> string \<Rightarrow> descriptor option" where
  "find_tag [] target = None"
| "find_tag (e # es) target = (if tag_of e = Some target then Some e else find_tag es target)"

definition hub_resolve :: "'b codec \<Rightarrow> 'b layout \<Rightarrow> string \<Rightarrow> hub_error + descriptor" where
  "hub_resolve cd lay reference =
    rbind (parse_reference reference) (\<lambda>(name, version, dgo).
      case dgo of
        Some dg \<Rightarrow>
          rbind (has_blob lay dg) (\<lambda>present.
            if \<not> present then Inl (ArtifactNotFound reference)
            else rbind (read_blob lay dg) (\<lambda>b.
              Inr \<lparr>media_type = MEDIA_MANIFEST, digest = dg, dsize = byte_len cd b,
                   artifact_type = None, annotations = []\<rparr>))
      | None \<Rightarrow>
          (case find_tag (index lay) (name @ '':'' @ version) of
             None \<Rightarrow> Inl (ArtifactNotFound reference)
           | Some e \<Rightarrow> Inr e))"

definition read_manifest :: "'b codec \<Rightarrow> 'b layout \<Rightarrow> string \<Rightarrow> hub_error + image_manifest" where
  "read_manifest cd lay dg =
    rbind (read_blob lay dg) (\<lambda>b.
      case loads cd b of None \<Rightarrow> Inl (BadManifestJson dg) | Some m \<Rightarrow> Inr m)"

definition read_config :: "'b codec \<Rightarrow> 'b layout \<Rightarrow> string \<Rightarrow> hub_error + 'b" where
  "read_config cd lay dg =
    rbind (read_manifest cd lay dg) (\<lambda>m. read_blob lay (digest (im_config m)))"

definition attach ::
    "'b codec \<Rightarrow> string \<Rightarrow> string \<Rightarrow> 'b blob \<Rightarrow> (string, string) dict
      \<Rightarrow> ('b layout, hub_error, descriptor) st" where
  "attach cd subject at b annots =
    sbind (\<lambda>lay. slift (has_blob lay subject) lay) (\<lambda>present.
    if \<not> present then sraise (ArtifactNotFound subject)
    else
      sbind (put_blob cd \<lparr>blob_media = MEDIA_EMPTY, blob_data = empty_config cd\<rparr>) (\<lambda>empty.
      sbind (put_blob cd b) (\<lambda>blob_desc.
      sbind (put_blob cd (canonical_manifest cd
          \<lparr>im_artifact_type = at, im_config = empty, im_layers = [blob_desc],
           im_subject = Some subject, im_annotations = annots\<rparr>)) (\<lambda>referrer_desc.
      sbind (smodify (\<lambda>lay. lay\<lparr>index := index lay @ [referrer_desc\<lparr>artifact_type := Some at\<rparr>]\<rparr>)) (\<lambda>_.
      sret referrer_desc)))))"

fun referrers_from ::
    "(string \<Rightarrow> hub_error + image_manifest) \<Rightarrow> descriptor list \<Rightarrow> string \<Rightarrow> string option
      \<Rightarrow> hub_error + descriptor list" where
  "referrers_from rd [] subject at = Inr []"
| "referrers_from rd (e # es) subject at =
    rbind (rd (digest e)) (\<lambda>m.
    rbind (referrers_from rd es subject at) (\<lambda>found.
      if im_subject m \<noteq> Some subject then Inr found
      else if at \<noteq> None \<and> at \<noteq> Some (im_artifact_type m) then Inr found
      else Inr (e # found)))"

definition referrers ::
    "'b codec \<Rightarrow> 'b layout \<Rightarrow> string \<Rightarrow> string option \<Rightarrow> hub_error + descriptor list" where
  "referrers cd lay subject at = referrers_from (read_manifest cd lay) (index lay) subject at"

definition references :: "'b layout \<Rightarrow> string list" where
  "references lay = sort (List.map_filter tag_of (index lay))"

definition versions :: "'b layout \<Rightarrow> string \<Rightarrow> string list" where
  "versions lay name =
    (let prefix = name @ '':''
     in sort (map (drop (length prefix)) (filter (starts_with prefix) (references lay))))"

fun verify_blobs :: "'b codec \<Rightarrow> 'b layout \<Rightarrow> descriptor list \<Rightarrow> hub_error + unit" where
  "verify_blobs cd lay [] = Inr ()"
| "verify_blobs cd lay (d # ds) =
    rbind (verify_blob cd lay (digest d)) (\<lambda>_. verify_blobs cd lay ds)"

definition verify :: "'b codec \<Rightarrow> 'b layout \<Rightarrow> string \<Rightarrow> hub_error + unit" where
  "verify cd lay dg =
    rbind (verify_blob cd lay dg) (\<lambda>_.
    rbind (read_manifest cd lay dg) (\<lambda>m. verify_blobs cd lay (im_config m # im_layers m)))"

text \<open>
  The mark phase of \<^verbatim>\<open>garbage_collect\<close>: the worklist is a stack (its top first), \<open>processed\<close> the
  manifests already visited, \<open>reachable\<close> the digests to keep.
\<close>

definition manifest_blobs :: "image_manifest \<Rightarrow> string list" where
  "manifest_blobs m = digest (im_config m) # map digest (im_layers m)"

lemma referrers_from_subset: "referrers_from rd es s at = Inr rs \<Longrightarrow> set rs \<subseteq> set es"
  by (induction es arbitrary: rs) (auto simp: rbind_Inr split: if_splits)

function gc_mark ::
    "(string \<Rightarrow> hub_error + image_manifest) \<Rightarrow> descriptor list \<Rightarrow> string list \<Rightarrow> string list
      \<Rightarrow> string list \<Rightarrow> hub_error + string list" where
  "gc_mark rd entries [] processed reachable = Inr reachable"
| "gc_mark rd entries (md # worklist) processed reachable =
    (if md \<in> set processed then gc_mark rd entries worklist processed reachable
     else
       rbind (rd md) (\<lambda>m.
       rbind (referrers_from rd entries md None) (\<lambda>rs.
         gc_mark rd entries (rev (map digest rs) @ worklist) (md # processed)
           (manifest_blobs m @ md # reachable))))"
  by pat_completeness auto
termination
proof (relation "measures [\<lambda>(rd, es, wl, pr, re). card ((digest ` set es \<union> set wl) - set pr),
    \<lambda>(rd, es, wl, pr, re). length wl]", goal_cases)
  case 1
  then show ?case by simp
next
  case (2 rd es md wl pr re)
  have "(digest ` set es \<union> set wl) - set pr \<subseteq> (digest ` set es \<union> set (md # wl)) - set pr"
    by auto
  then have "card ((digest ` set es \<union> set wl) - set pr)
      \<le> card ((digest ` set es \<union> set (md # wl)) - set pr)"
    by (intro card_mono) auto
  then show ?case by (auto simp: order.order_iff_strict)
next
  case (3 rd es md wl pr re m rs)
  have "set rs \<subseteq> set es" using 3(3) by (rule referrers_from_subset)
  then have "(digest ` set es \<union> set (rev (map digest rs) @ wl)) - set (md # pr)
      \<subset> (digest ` set es \<union> set (md # wl)) - set pr"
    using 3(1) by auto
  then have "card ((digest ` set es \<union> set (rev (map digest rs) @ wl)) - set (md # pr))
      < card ((digest ` set es \<union> set (md # wl)) - set pr)"
    by (intro psubset_card_mono) auto
  then show ?case by simp
qed

definition gc_seeds :: "descriptor list \<Rightarrow> string list \<Rightarrow> string list" where
  "gc_seeds entries keep =
    map digest (filter (\<lambda>e. tag_of e \<noteq> None \<and> tag_of e \<noteq> Some []) entries)
      @ filter (\<lambda>d. d \<in> digest ` set entries) keep"

definition garbage_collect ::
    "'b codec \<Rightarrow> string list \<Rightarrow> ('b layout, hub_error, string list) st" where
  "garbage_collect cd keep =
    sbind (\<lambda>lay. slift (gc_mark (read_manifest cd lay) (index lay)
        (rev (gc_seeds (index lay) keep)) [] keep) lay) (\<lambda>reachable.
    sbind (sread (\<lambda>lay. filter (\<lambda>d. d \<notin> set reachable)
        (map sha256_digest (dict_keys (blobs lay))))) (\<lambda>reclaimed.
    sbind (smodify (\<lambda>lay. lay\<lparr>
        blobs := filter (\<lambda>(h, b). sha256_digest h \<notin> set reclaimed) (blobs lay),
        index := (if reclaimed = [] then index lay
                  else filter (\<lambda>e. digest e \<notin> set reclaimed) (index lay))\<rparr>)) (\<lambda>_.
    sret (sort reclaimed))))"

section \<open>Blobs\<close>

lemma blob_path_ok: "(blob_path dg = Inr h) = (dg = sha256_digest h \<and> h \<noteq> [])"
proof -
  have "partition_on CHR '':'' (''sha256:'' @ h) = (''sha256'', True, h)" for h
    using partition_on_append [of "CHR '':''" "''sha256''" h] by simp
  moreover have "partition_on CHR '':'' dg = (''sha256'', sep, h) \<Longrightarrow> h \<noteq> [] \<Longrightarrow> dg = ''sha256:'' @ h" for sep
    using partition_on_found [of "CHR '':''" dg "''sha256''" h] partition_on_nosep [of "CHR '':''" dg]
    by (cases sep) auto
  ultimately show ?thesis
    by (auto simp: blob_path_def sha256_digest_def split: prod.splits if_splits)
qed

lemma sha256_digest_inj [simp]: "(sha256_digest h = sha256_digest k) = (h = k)"
  by (simp add: sha256_digest_def)

lemma blob_path_hash [simp]:
  "hexdigest cd b \<noteq> [] \<Longrightarrow> blob_path (content_hash cd b) = Inr (hexdigest cd b)"
  by (simp add: blob_path_ok content_hash_def)

text \<open>The digests of a working SHA-256 are never empty.\<close>

definition digests_ok :: "'b codec \<Rightarrow> bool" where
  "digests_ok cd = (\<forall>b. hexdigest cd b \<noteq> [])"

text \<open>The directory is content addressed: each file is named by its bytes' digest.\<close>

definition layout_wf :: "'b codec \<Rightarrow> 'b layout \<Rightarrow> bool" where
  "layout_wf cd lay = (dict_wf (blobs lay) \<and> (\<forall>(h, b) \<in> set (blobs lay). h = hexdigest cd b))"

text \<open>\<open>grows lay lay'\<close>: nothing stored in \<open>lay\<close> is lost or overwritten in \<open>lay'\<close>.\<close>

definition grows :: "'b layout \<Rightarrow> 'b layout \<Rightarrow> bool" where
  "grows lay lay' =
    ((\<forall>h b. dict_get (blobs lay) h = Some b \<longrightarrow> dict_get (blobs lay') h = Some b)
     \<and> (\<exists>es. index lay' = index lay @ es))"

lemma grows_refl [simp]: "grows lay lay"
  by (simp add: grows_def)

lemma grows_trans: "grows a b \<Longrightarrow> grows b c \<Longrightarrow> grows a c"
  by (fastforce simp: grows_def)

definition put_layout :: "'b codec \<Rightarrow> 'b blob \<Rightarrow> 'b layout \<Rightarrow> 'b layout" where
  "put_layout cd b lay =
    (if dict_get (blobs lay) (hexdigest cd (blob_data b)) = None
     then lay\<lparr>blobs := dict_set (blobs lay) (hexdigest cd (blob_data b)) (blob_data b)\<rparr> else lay)"

lemma put_blob_eq:
  "digests_ok cd \<Longrightarrow> put_blob cd b lay = (Inr (blob_descriptor cd b), put_layout cd b lay)"
  by (simp add: put_blob_def digests_ok_def put_layout_def sret_def)

lemma smap_put_blob_eq:
  "digests_ok cd \<Longrightarrow>
    smap (put_blob cd) bs lay = (Inr (map (blob_descriptor cd) bs), fold (put_layout cd) bs lay)"
  by (induction bs arbitrary: lay) (simp_all add: sret_def sbind_def put_blob_eq)

lemma put_layout_index [simp]: "index (put_layout cd b lay) = index lay"
  by (simp add: put_layout_def)

lemma put_layout_wf [inv_intros]: "layout_wf cd lay \<Longrightarrow> layout_wf cd (put_layout cd b lay)"
  by (auto simp: layout_wf_def put_layout_def map_of_eq_None_iff dict_set_new)

lemma put_layout_grows: "grows lay (put_layout cd b lay)"
  by (auto simp: grows_def put_layout_def)

lemma put_layout_get:
  assumes "layout_wf cd lay"
    and "inj_on (hexdigest cd) (insert (blob_data b) (set (dict_values (blobs lay))))"
  shows "dict_get (blobs (put_layout cd b lay)) (hexdigest cd (blob_data b)) = Some (blob_data b)"
proof (cases "dict_get (blobs lay) (hexdigest cd (blob_data b))")
  case None
  then show ?thesis by (simp add: put_layout_def)
next
  case (Some b')
  then have "(hexdigest cd (blob_data b), b') \<in> set (blobs lay)"
    by (rule map_of_SomeD)
  then have "hexdigest cd b' = hexdigest cd (blob_data b)" and "b' \<in> set (dict_values (blobs lay))"
    using assms(1) by (force simp: layout_wf_def)+
  then have "b' = blob_data b"
    by (intro inj_onD [OF assms(2)]) auto
  with Some show ?thesis by (simp add: put_layout_def)
qed

lemma put_layout_values:
  "set (dict_values (blobs (put_layout cd b lay))) \<subseteq> insert (blob_data b) (set (dict_values (blobs lay)))"
  by (auto simp: put_layout_def simp del: set_map dest: dict_set_values)

lemma fold_put_index [simp]: "index (fold (put_layout cd) bs lay) = index lay"
  by (induction bs arbitrary: lay) simp_all

lemma fold_put_wf [inv_intros]: "layout_wf cd lay \<Longrightarrow> layout_wf cd (fold (put_layout cd) bs lay)"
  by (induction bs arbitrary: lay) (simp_all add: put_layout_wf)

lemma fold_put_grows: "grows lay (fold (put_layout cd) bs lay)"
proof (induction bs arbitrary: lay)
  case Nil
  show ?case by simp
next
  case (Cons b bs)
  show ?case
    using grows_trans [OF put_layout_grows Cons.IH] by simp
qed

lemma fold_put_get:
  assumes "layout_wf cd lay"
    and "inj_on (hexdigest cd) (blob_data ` set bs \<union> set (dict_values (blobs lay)))"
    and "b \<in> set bs"
  shows "dict_get (blobs (fold (put_layout cd) bs lay)) (hexdigest cd (blob_data b)) = Some (blob_data b)"
  using assms
proof (induction bs arbitrary: lay)
  case Nil
  then show ?case by simp
next
  case (Cons c cs)
  let ?lay = "put_layout cd c lay"
  have wf: "layout_wf cd ?lay"
    using Cons.prems(1) by (rule put_layout_wf)
  have vals: "set (dict_values (blobs ?lay)) \<subseteq> insert (blob_data c) (set (dict_values (blobs lay)))"
    by (rule put_layout_values)
  show ?case
  proof (cases "b \<in> set cs")
    case True
    have "inj_on (hexdigest cd) (blob_data ` set cs \<union> set (dict_values (blobs ?lay)))"
      by (rule inj_on_subset [OF Cons.prems(2)]) (use vals in auto)
    then show ?thesis
      using Cons.IH [OF wf _ True] by simp
  next
    case False
    with Cons.prems(3) have b: "b = c" by simp
    have "inj_on (hexdigest cd) (insert (blob_data c) (set (dict_values (blobs lay))))"
      by (rule inj_on_subset [OF Cons.prems(2)]) auto
    then have "dict_get (blobs ?lay) (hexdigest cd (blob_data c)) = Some (blob_data c)"
      by (rule put_layout_get [OF Cons.prems(1)])
    then show ?thesis
      using fold_put_grows [of ?lay cd cs] by (simp add: b grows_def)
  qed
qed

section \<open>Publishing and resolving\<close>

definition manifest_of ::
    "'b codec \<Rightarrow> string \<Rightarrow> 'b blob \<Rightarrow> 'b blob list \<Rightarrow> (string, string) dict \<Rightarrow> image_manifest" where
  "manifest_of cd at config layers annots =
    \<lparr>im_artifact_type = at, im_config = blob_descriptor cd config,
     im_layers = map (blob_descriptor cd) layers, im_subject = None, im_annotations = annots\<rparr>"

definition tag_used :: "'b layout \<Rightarrow> string \<Rightarrow> bool" where
  "tag_used lay reference = (\<exists>e \<in> set (index lay). tag_of e = Some reference)"

lemma publish_eq:
  assumes "digests_ok cd"
  shows "publish cd name version kind config layers annots lay =
    (let reference = name @ '':'' @ version in
     if tag_used lay reference then (Inl (ArtifactExistsError reference), lay)
     else (case artifact_media_type kind of
       Inl e \<Rightarrow> (Inl e, fold (put_layout cd) (config # layers) lay)
     | Inr at \<Rightarrow>
         let m = canonical_manifest cd (manifest_of cd at config layers annots)
         in (Inr \<lparr>pa_name = name, pa_version = version, pa_reference = reference,
                   pa_digest = content_hash cd (blob_data m)\<rparr>,
             (fold (put_layout cd) (config # layers @ [m]) lay)
               \<lparr>index := index lay @ [(blob_descriptor cd m)\<lparr>artifact_type := Some at,
                   annotations := [(REF_ANNOTATION, reference)]\<rparr>]\<rparr>)))"
proof (cases "artifact_media_type kind")
  case (Inl e)
  then show ?thesis
    by (simp add: publish_def tag_used_def Let_def sbind_def sread_def sraise_def slift_def
        put_blob_eq [OF assms] smap_put_blob_eq [OF assms])
next
  case (Inr at)
  then show ?thesis
    by (simp add: publish_def tag_used_def Let_def sbind_def st_defs manifest_of_def
        put_blob_eq [OF assms] smap_put_blob_eq [OF assms] canonical_manifest_def blob_descriptor_def)
qed

lemma publish_grows:
  "digests_ok cd \<Longrightarrow> publish cd name version kind config layers annots lay = (r, lay') \<Longrightarrow> grows lay lay'"
  using fold_put_grows [of lay cd "config # layers"]
    fold_put_grows [of lay cd "config # layers @ [m]" for m]
  by (fastforce simp: publish_eq Let_def grows_def split: if_splits sum.splits)

lemma layout_wf_index [simp]: "layout_wf cd (lay\<lparr>index := es\<rparr>) = layout_wf cd lay"
  by (simp add: layout_wf_def)

lemma publish_wf [inv_intros]:
  "digests_ok cd \<Longrightarrow> layout_wf cd lay \<Longrightarrow>
    publish cd name version kind config layers annots lay = (r, lay') \<Longrightarrow> layout_wf cd lay'"
  by (auto simp: publish_eq Let_def put_layout_wf fold_put_wf split: if_splits sum.splits)

lemma attach_eq:
  assumes "digests_ok cd"
  shows "attach cd subject at b annots lay =
    (case has_blob lay subject of
       Inl e \<Rightarrow> (Inl e, lay)
     | Inr present \<Rightarrow>
         if \<not> present then (Inl (ArtifactNotFound subject), lay)
         else let empty = \<lparr>blob_media = MEDIA_EMPTY, blob_data = empty_config cd\<rparr>;
                  m = canonical_manifest cd \<lparr>im_artifact_type = at, im_config = blob_descriptor cd empty,
                        im_layers = [blob_descriptor cd b], im_subject = Some subject,
                        im_annotations = annots\<rparr>
              in (Inr (blob_descriptor cd m),
                  (fold (put_layout cd) [empty, b, m] lay)
                    \<lparr>index := index lay @ [(blob_descriptor cd m)\<lparr>artifact_type := Some at\<rparr>]\<rparr>))"
  by (cases "has_blob lay subject")
    (simp_all add: attach_def Let_def sbind_def st_defs put_blob_eq [OF assms])

lemma attach_grows:
  assumes "digests_ok cd" and "attach cd subject at b annots lay = (r, lay')"
  shows "grows lay lay'"
  using assms fold_put_grows [of lay cd "[x, b, m]" for x m]
  by (fastforce simp: attach_eq Let_def grows_def split: if_splits sum.splits)

lemma attach_wf [inv_intros]:
  "digests_ok cd \<Longrightarrow> layout_wf cd lay \<Longrightarrow> attach cd subject at b annots lay = (r, lay') \<Longrightarrow>
    layout_wf cd lay'"
  by (auto simp: attach_eq Let_def put_layout_wf split: if_splits sum.splits)

lemma find_tag_append:
  "find_tag (es @ fs) t = (case find_tag es t of None \<Rightarrow> find_tag fs t | Some e \<Rightarrow> Some e)"
  by (induction es) auto

lemma find_tag_None: "(find_tag es t = None) = (\<forall>e \<in> set es. tag_of e \<noteq> Some t)"
  by (induction es) auto

lemma find_tag_Some: "find_tag es t = Some e \<Longrightarrow> e \<in> set es \<and> tag_of e = Some t"
  by (induction es) (auto split: if_splits)

lemma read_blob_ok:
  "(read_blob lay dg = Inr b) = (\<exists>h. blob_path dg = Inr h \<and> dict_get (blobs lay) h = Some b)"
  by (auto simp: read_blob_def rbind_Inr split: option.splits)

lemma has_blob_ok: "(has_blob lay dg = Inr True) = (\<exists>b. read_blob lay dg = Inr b)"
  by (auto simp: has_blob_def rbind_Inr read_blob_ok)

lemma read_blob_grows: "grows lay lay' \<Longrightarrow> read_blob lay dg = Inr b \<Longrightarrow> read_blob lay' dg = Inr b"
  by (auto simp: read_blob_ok grows_def)

lemma read_manifest_grows:
  "grows lay lay' \<Longrightarrow> read_manifest cd lay dg = Inr m \<Longrightarrow> read_manifest cd lay' dg = Inr m"
  by (auto simp: read_manifest_def rbind_Inr dest: read_blob_grows)

lemma read_config_grows:
  "grows lay lay' \<Longrightarrow> read_config cd lay dg = Inr b \<Longrightarrow> read_config cd lay' dg = Inr b"
  by (auto simp: read_config_def rbind_Inr dest: read_blob_grows read_manifest_grows)

text \<open>The two forms of a reference.\<close>

definition digest_descriptor :: "'b codec \<Rightarrow> string \<Rightarrow> 'b \<Rightarrow> descriptor" where
  "digest_descriptor cd dg b =
    \<lparr>media_type = MEDIA_MANIFEST, digest = dg, dsize = byte_len cd b, artifact_type = None,
     annotations = []\<rparr>"

lemma hub_resolve_digest:
  "parse_reference ref = Inr (n, v, Some dg) \<Longrightarrow>
    (hub_resolve cd lay ref = Inr d) = (\<exists>b. read_blob lay dg = Inr b \<and> d = digest_descriptor cd dg b)"
  by (auto simp: hub_resolve_def rbind_Inr has_blob_def read_blob_ok digest_descriptor_def)

lemma hub_resolve_tag:
  "parse_reference ref = Inr (n, v, None) \<Longrightarrow>
    (hub_resolve cd lay ref = Inr d) = (find_tag (index lay) (n @ '':'' @ v) = Some d)"
  by (auto simp: hub_resolve_def split: option.splits)

lemma hub_resolve_parsed:
  "hub_resolve cd lay ref = Inr d \<Longrightarrow> \<exists>n v o'. parse_reference ref = Inr (n, v, o')"
  by (auto simp: hub_resolve_def rbind_Inr)

lemma find_tag_grows:
  "grows lay lay' \<Longrightarrow> find_tag (index lay) t = Some e \<Longrightarrow> find_tag (index lay') t = Some e"
  by (auto simp: grows_def find_tag_append)

lemma hub_resolve_grows:
  assumes "grows lay lay'" and "hub_resolve cd lay ref = Inr d"
  shows "hub_resolve cd lay' ref = Inr d"
proof -
  obtain n v o' where p: "parse_reference ref = Inr (n, v, o')"
    using hub_resolve_parsed [OF assms(2)] by blast
  show ?thesis
  proof (cases o')
    case None
    then show ?thesis
      using assms p by (simp add: hub_resolve_tag find_tag_grows)
  next
    case (Some dg)
    then show ?thesis
      using assms p by (auto simp: hub_resolve_digest dest: read_blob_grows)
  qed
qed

section \<open>Garbage collection\<close>

text \<open>
  What must survive: the seeds (tagged manifests, kept manifests) and, transitively, the
  manifests that refer to one that survives.
\<close>

inductive gc_reach ::
    "(string \<Rightarrow> hub_error + image_manifest) \<Rightarrow> descriptor list \<Rightarrow> string set \<Rightarrow> string \<Rightarrow> bool"
  for rd entries seeds where
  seed: "d \<in> seeds \<Longrightarrow> gc_reach rd entries seeds d"
| referrer: "gc_reach rd entries seeds d \<Longrightarrow> e \<in> set entries \<Longrightarrow> rd (digest e) = Inr m \<Longrightarrow>
    im_subject m = Some d \<Longrightarrow> gc_reach rd entries seeds (digest e)"

definition gc_live ::
    "(string \<Rightarrow> hub_error + image_manifest) \<Rightarrow> descriptor list \<Rightarrow> string set \<Rightarrow> string set" where
  "gc_live rd entries seeds =
    {x. \<exists>d. gc_reach rd entries seeds d \<and> (x = d \<or> (\<exists>m. rd d = Inr m \<and> x \<in> set (manifest_blobs m)))}"

lemma referrers_from_all:
  "referrers_from rd es s None = Inr rs \<Longrightarrow>
    set rs = {e \<in> set es. \<exists>m. rd (digest e) = Inr m \<and> im_subject m = Some s}"
  by (induction es arbitrary: rs) (auto simp: rbind_Inr split: if_splits)

lemma referrers_from_total:
  "\<forall>e \<in> set es. is_ok (rd (digest e)) \<Longrightarrow> \<exists>rs. referrers_from rd es s at = Inr rs"
  by (induction es) (auto simp: is_ok_iff split: if_splits)

lemma gc_mark_Cons:
  "md \<notin> set pr \<Longrightarrow> (gc_mark rd es (md # wl) pr re = Inr R) =
    (\<exists>m rs. rd md = Inr m \<and> referrers_from rd es md None = Inr rs
      \<and> gc_mark rd es (rev (map digest rs) @ wl) (md # pr) (manifest_blobs m @ md # re) = Inr R)"
  by (auto simp: rbind_Inr)

declare gc_mark.simps(2) [simp del]

lemma gc_mark_skip: "md \<in> set pr \<Longrightarrow> gc_mark rd es (md # wl) pr re = gc_mark rd es wl pr re"
  by (simp add: gc_mark.simps(2))

text \<open>Nothing but live digests is marked.\<close>

lemma gc_mark_sound:
  assumes "gc_mark rd es wl pr re = Inr R"
    and "\<forall>d \<in> set wl. gc_reach rd es S d"
    and "set re \<subseteq> K \<union> gc_live rd es S"
  shows "set R \<subseteq> K \<union> gc_live rd es S"
  using assms
proof (induction rd es wl pr re rule: gc_mark.induct)
  case (1 rd es pr re)
  then show ?case by simp
next
  case (2 rd es md wl pr re)
  show ?case
  proof (cases "md \<in> set pr")
    case True
    with 2 show ?thesis by (simp add: gc_mark_skip)
  next
    case False
    then obtain m rs where m: "rd md = Inr m" and rs: "referrers_from rd es md None = Inr rs"
      and R: "gc_mark rd es (rev (map digest rs) @ wl) (md # pr) (manifest_blobs m @ md # re) = Inr R"
      using "2.prems"(1) by (auto simp: gc_mark_Cons)
    have md: "gc_reach rd es S md" using "2.prems"(2) by simp
    show ?thesis
    proof (rule "2.IH"(2) [OF False m rs R])
      show "\<forall>d \<in> set (rev (map digest rs) @ wl). gc_reach rd es S d"
        using "2.prems"(2) referrers_from_all [OF rs] gc_reach.referrer [OF md] by auto
      show "set (manifest_blobs m @ md # re) \<subseteq> K \<union> gc_live rd es S"
        using "2.prems"(3) md m by (auto simp: gc_live_def)
    qed
  qed
qed

text \<open>Every live digest is marked: the processed manifests end up closed under referrers.\<close>

definition marked ::
    "(string \<Rightarrow> hub_error + image_manifest) \<Rightarrow> string list \<Rightarrow> string set \<Rightarrow> bool" where
  "marked rd R P = (\<forall>d \<in> P. d \<in> set R \<and> (\<forall>m. rd d = Inr m \<longrightarrow> set (manifest_blobs m) \<subseteq> set R))"

definition referrers_in ::
    "(string \<Rightarrow> hub_error + image_manifest) \<Rightarrow> descriptor list \<Rightarrow> string set \<Rightarrow> string set \<Rightarrow> bool" where
  "referrers_in rd es P Q =
    (\<forall>d \<in> P. \<forall>e \<in> set es. \<forall>m. rd (digest e) = Inr m \<longrightarrow> im_subject m = Some d \<longrightarrow> digest e \<in> Q)"

lemma gc_mark_complete:
  assumes "gc_mark rd es wl pr re = Inr R"
    and "referrers_in rd es (set pr) (set pr \<union> set wl)"
    and "marked rd re (set pr)"
  shows "set re \<subseteq> set R \<and> (\<exists>P. set pr \<union> set wl \<subseteq> P \<and> referrers_in rd es P P \<and> marked rd R P)"
  using assms
proof (induction rd es wl pr re rule: gc_mark.induct)
  case (1 rd es pr re)
  then show ?case by auto
next
  case (2 rd es md wl pr re)
  show ?case
  proof (cases "md \<in> set pr")
    case True
    have "referrers_in rd es (set pr) (set pr \<union> set wl)"
      using "2.prems"(2) True by (simp add: insert_absorb)
    with 2 True show ?thesis by (simp add: gc_mark_skip insert_absorb)
  next
    case False
    then obtain m rs where m: "rd md = Inr m" and rs: "referrers_from rd es md None = Inr rs"
      and R: "gc_mark rd es (rev (map digest rs) @ wl) (md # pr) (manifest_blobs m @ md # re) = Inr R"
      using "2.prems"(1) by (auto simp: gc_mark_Cons)
    have new: "digest e \<in> digest ` set rs"
      if "e \<in> set es" "rd (digest e) = Inr m'" "im_subject m' = Some md" for e m'
      using that by (auto simp: referrers_from_all [OF rs])
    have "set (manifest_blobs m @ md # re) \<subseteq> set R
        \<and> (\<exists>P. set (md # pr) \<union> set (rev (map digest rs) @ wl) \<subseteq> P \<and> referrers_in rd es P P \<and> marked rd R P)"
    proof (rule "2.IH"(2) [OF False m rs R])
      show "referrers_in rd es (set (md # pr)) (set (md # pr) \<union> set (rev (map digest rs) @ wl))"
        using "2.prems"(2) new by (auto simp: referrers_in_def)
      show "marked rd (manifest_blobs m @ md # re) (set (md # pr))"
        using "2.prems"(3) m by (auto simp: marked_def)
    qed
    then show ?thesis by auto
  qed
qed

lemma gc_reach_closed:
  "gc_reach rd es S d \<Longrightarrow> S \<subseteq> P \<Longrightarrow> referrers_in rd es P P \<Longrightarrow> d \<in> P"
  by (induction rule: gc_reach.induct) (auto simp: referrers_in_def)

lemma gc_mark_exact:
  assumes "gc_mark rd es wl [] re = Inr R"
  shows "set R = set re \<union> gc_live rd es (set wl)"
proof
  show "set R \<subseteq> set re \<union> gc_live rd es (set wl)"
    by (rule gc_mark_sound [OF assms]) (auto intro: gc_reach.seed)
  obtain P where "set re \<subseteq> set R" and P: "set wl \<subseteq> P" "referrers_in rd es P P" "marked rd R P"
    using gc_mark_complete [OF assms] by (auto simp: referrers_in_def marked_def)
  moreover have "gc_live rd es (set wl) \<subseteq> set R"
    using P gc_reach_closed [OF _ P(1,2)] by (fastforce simp: gc_live_def marked_def)
  ultimately show "set re \<union> gc_live rd es (set wl) \<subseteq> set R" by simp
qed

lemma gc_mark_total:
  assumes "\<forall>e \<in> set es. is_ok (rd (digest e))" and "set wl \<subseteq> digest ` set es"
  shows "\<exists>R. gc_mark rd es wl pr re = Inr R"
  using assms
proof (induction rd es wl pr re rule: gc_mark.induct)
  case (1 rd es pr re)
  then show ?case by simp
next
  case (2 rd es md wl pr re)
  show ?case
  proof (cases "md \<in> set pr")
    case True
    with 2 show ?thesis by (simp add: gc_mark_skip)
  next
    case False
    obtain m where m: "rd md = Inr m" using "2.prems" by (auto simp: is_ok_iff)
    obtain rs where rs: "referrers_from rd es md None = Inr rs"
      using referrers_from_total "2.prems"(1) by blast
    have "set (rev (map digest rs) @ wl) \<subseteq> digest ` set es"
      using "2.prems"(2) referrers_from_subset [OF rs] by auto
    then obtain R where
      "gc_mark rd es (rev (map digest rs) @ wl) (md # pr) (manifest_blobs m @ md # re) = Inr R"
      using "2.IH"(2) [OF False m rs] "2.prems"(1) by blast
    with False m rs show ?thesis by (auto simp: gc_mark_Cons)
  qed
qed

text \<open>The sweep: what is kept and what goes.\<close>

definition live_digests :: "'b codec \<Rightarrow> 'b layout \<Rightarrow> string list \<Rightarrow> string set" where
  "live_digests cd lay keep =
    set keep \<union> gc_live (read_manifest cd lay) (index lay) (set (gc_seeds (index lay) keep))"

definition stored_digests :: "'b layout \<Rightarrow> string list" where
  "stored_digests lay = map sha256_digest (dict_keys (blobs lay))"

lemma gc_seeds_subset: "set (gc_seeds es keep) \<subseteq> digest ` set es"
  by (auto simp: gc_seeds_def)

lemma garbage_collect_ok:
  assumes "garbage_collect cd keep lay = (Inr out, lay')"
  shows "out = sort (filter (\<lambda>d. d \<notin> live_digests cd lay keep) (stored_digests lay))"
    and "blobs lay' = filter (\<lambda>(h, b). sha256_digest h \<in> live_digests cd lay keep) (blobs lay)"
    and "index lay' = filter (\<lambda>e. digest e \<in> live_digests cd lay keep
           \<or> digest e \<notin> set (stored_digests lay)) (index lay)"
proof -
  let ?rd = "read_manifest cd lay"
  obtain R where R: "gc_mark ?rd (index lay) (rev (gc_seeds (index lay) keep)) [] keep = Inr R"
    using assms by (auto simp: garbage_collect_def sbind_Inr slift_def)
  have set_R: "set R = live_digests cd lay keep"
    using gc_mark_exact [OF R] by (simp add: live_digests_def)
  let ?rec = "filter (\<lambda>d. d \<notin> live_digests cd lay keep) (stored_digests lay)"
  have eq: "garbage_collect cd keep lay = (Inr (sort ?rec),
      lay\<lparr>blobs := filter (\<lambda>(h, b). sha256_digest h \<notin> set ?rec) (blobs lay),
          index := (if ?rec = [] then index lay else filter (\<lambda>e. digest e \<notin> set ?rec) (index lay))\<rparr>)"
    unfolding garbage_collect_def sbind_def st_defs R prod.case sum.case set_R stored_digests_def [symmetric]
    by simp
  show "out = sort ?rec"
    using assms eq by simp
  have stored: "(h, b) \<in> set (blobs lay) \<Longrightarrow> sha256_digest h \<in> set (stored_digests lay)" for h b
    by (force simp: stored_digests_def)
  have "blobs lay' = filter (\<lambda>(h, b). sha256_digest h \<notin> set ?rec) (blobs lay)"
    using assms eq by auto
  then show "blobs lay' = filter (\<lambda>(h, b). sha256_digest h \<in> live_digests cd lay keep) (blobs lay)"
    using stored by (auto intro!: filter_cong)
  have "index lay' = filter (\<lambda>e. digest e \<notin> set ?rec) (index lay)"
    using assms eq by (auto simp: filter_empty_conv intro!: filter_True [symmetric] split: if_splits)
  then show "index lay' = filter (\<lambda>e. digest e \<in> live_digests cd lay keep
      \<or> digest e \<notin> set (stored_digests lay)) (index lay)"
    by (auto intro!: filter_cong)
qed

lemma garbage_collect_total:
  assumes "\<forall>e \<in> set (index lay). is_ok (read_manifest cd lay (digest e))"
  shows "\<exists>out lay'. garbage_collect cd keep lay = (Inr out, lay')"
proof -
  have "set (rev (gc_seeds (index lay) keep)) \<subseteq> digest ` set (index lay)"
    using gc_seeds_subset by simp
  then obtain R where
    "gc_mark (read_manifest cd lay) (index lay) (rev (gc_seeds (index lay) keep)) [] keep = Inr R"
    using gc_mark_total [OF assms] by blast
  then show ?thesis
    by (simp add: garbage_collect_def sbind_def st_defs)
qed

lemma garbage_collect_error: "garbage_collect cd keep lay = (Inl e, lay') \<Longrightarrow> lay' = lay"
  by (auto simp: garbage_collect_def sbind_def st_defs split: sum.splits prod.splits)

section \<open>The contract\<close>

lemma parse_reference_tag:
  assumes "name \<noteq> []" and "version \<noteq> []" and "CHR '':'' \<notin> set name"
    and "CHR ''@'' \<notin> set (name @ version)" and "name \<noteq> ''sha256''"
  shows "parse_reference (name @ '':'' @ version) = Inr (name, version, None)"
proof -
  have "\<not> starts_with ''sha256:'' (name @ '':'' @ version)"
  proof
    assume "starts_with ''sha256:'' (name @ '':'' @ version)"
    then obtain t where "name @ CHR '':'' # version = ''sha256'' @ CHR '':'' # t"
      by (auto simp: starts_with_ex)
    then have "name = ''sha256''"
      using partition_on_append [OF assms(3), of version]
        partition_on_append [of "CHR '':''" "''sha256''" t] by simp
    with assms(5) show False by simp
  qed
  then show ?thesis
    using assms partition_on_append [OF assms(3), of version] by (simp add: parse_reference_def)
qed

text \<open>Every index entry's manifest can be read back.\<close>

definition entries_readable :: "'b codec \<Rightarrow> 'b layout \<Rightarrow> bool" where
  "entries_readable cd lay = (\<forall>e \<in> set (index lay). is_ok (read_manifest cd lay (digest e)))"

text \<open>JSON parses back what it printed.\<close>

definition json_ok :: "'b codec \<Rightarrow> bool" where
  "json_ok cd = (\<forall>m. loads cd (dumps cd m) = Some m)"

definition new_bytes :: "'b codec \<Rightarrow> string \<Rightarrow> 'b blob \<Rightarrow> 'b blob list \<Rightarrow> (string, string) dict \<Rightarrow> 'b set" where
  "new_bytes cd at config layers annots =
    blob_data ` set (config # layers @ [canonical_manifest cd (manifest_of cd at config layers annots)])"

lemma read_blob_put:
  assumes "digests_ok cd" and "layout_wf cd lay" and "b \<in> set bs"
    and "inj_on (hexdigest cd) (blob_data ` set bs \<union> set (dict_values (blobs lay)))"
  shows "read_blob (fold (put_layout cd) bs lay) (content_hash cd (blob_data b)) = Inr (blob_data b)"
  using assms by (auto simp: read_blob_ok digests_ok_def intro: fold_put_get)

lemma read_blob_index [simp]: "read_blob (lay\<lparr>index := es\<rparr>) dg = read_blob lay dg"
  by (simp add: read_blob_def)

lemma read_manifest_index [simp]: "read_manifest cd (lay\<lparr>index := es\<rparr>) dg = read_manifest cd lay dg"
  by (simp add: read_manifest_def)

lemma blob_descriptor_digest [simp]: "digest (blob_descriptor cd b) = content_hash cd (blob_data b)"
  by (simp add: blob_descriptor_def)

lemma content_hash_verify:
  "read_blob lay (content_hash cd b) = Inr b \<Longrightarrow> verify_blob cd lay (content_hash cd b) = Inr ()"
  by (simp add: verify_blob_def)

lemma verify_blobs_ok:
  "(verify_blobs cd lay ds = Inr ()) = (\<forall>d \<in> set ds. verify_blob cd lay (digest d) = Inr ())"
  by (induction ds) (auto simp: rbind_Inr)

lemma find_tag_fresh:
  "\<not> tag_used lay t \<Longrightarrow> tag_of e = Some t \<Longrightarrow> find_tag (index lay @ [e]) t = Some e"
  by (auto simp: find_tag_append tag_used_def find_tag_None split: option.splits dest: find_tag_Some)

lemma publish_delivers:
  assumes ok: "digests_ok cd" "json_ok cd" and wf: "layout_wf cd lay"
    and kind: "artifact_media_type kind = Inr at"
    and fresh: "\<not> tag_used lay (name @ '':'' @ version)"
    and inj: "inj_on (hexdigest cd)
      (new_bytes cd at config layers annots \<union> set (dict_values (blobs lay)))"
    and pub: "publish cd name version kind config layers annots lay = (r, lay')"
  shows "\<exists>pa. r = Inr pa \<and> pa_reference pa = name @ '':'' @ version
    \<and> read_manifest cd lay' (pa_digest pa) = Inr (manifest_of cd at config layers annots)
    \<and> read_config cd lay' (pa_digest pa) = Inr (blob_data config)
    \<and> pa_digest pa = content_hash cd (dumps cd (manifest_of cd at config layers annots))
    \<and> (\<forall>b \<in> set layers. read_blob lay' (content_hash cd (blob_data b)) = Inr (blob_data b))
    \<and> verify cd lay' (pa_digest pa) = Inr ()
    \<and> (\<exists>e. find_tag (index lay') (name @ '':'' @ version) = Some e \<and> digest e = pa_digest pa)"
proof -
  let ?m = "canonical_manifest cd (manifest_of cd at config layers annots)"
  let ?bs = "config # layers @ [?m]"
  let ?lay = "fold (put_layout cd) ?bs lay"
  have stored: "read_blob ?lay (content_hash cd (blob_data b)) = Inr (blob_data b)" if "b \<in> set ?bs" for b
    by (rule read_blob_put [OF ok(1) wf that]) (use inj in \<open>simp only: new_bytes_def\<close>)
  have bs: "read_blob lay' (content_hash cd (blob_data b)) = Inr (blob_data b)" if "b \<in> set ?bs" for b
    using pub fresh kind stored [OF that] by (auto simp: publish_eq [OF ok(1)] Let_def)
  have m: "blob_data ?m = dumps cd (manifest_of cd at config layers annots)"
    by (simp add: canonical_manifest_def)
  have man: "read_manifest cd lay' (content_hash cd (blob_data ?m))
      = Inr (manifest_of cd at config layers annots)"
    using bs [of ?m] ok(2) by (simp add: read_manifest_def m json_ok_def)
  have "verify cd lay' (content_hash cd (blob_data ?m)) = Inr ()"
    using man bs by (auto simp: verify_def content_hash_verify verify_blobs_ok rbind_Inr manifest_of_def)
  moreover have "read_config cd lay' (content_hash cd (blob_data ?m)) = Inr (blob_data config)"
    using man bs [of config] by (simp add: read_config_def) (simp add: manifest_of_def)
  ultimately show ?thesis
    using pub fresh kind man bs m
    by (auto simp: publish_eq [OF ok(1)] Let_def find_tag_fresh tag_of_def)
qed

lemma publish_readable:
  assumes ok: "digests_ok cd" "json_ok cd" and wf: "layout_wf cd lay" "entries_readable cd lay"
    and inj: "\<And>at. inj_on (hexdigest cd)
      (new_bytes cd at config layers annots \<union> set (dict_values (blobs lay)))"
    and pub: "publish cd name version kind config layers annots lay = (r, lay')"
  shows "entries_readable cd lay'"
proof -
  have old: "is_ok (read_manifest cd lay' (digest e))" if "e \<in> set (index lay)" for e
    using wf(2) that read_manifest_grows [OF publish_grows [OF ok(1) pub]]
    by (auto simp: entries_readable_def is_ok_iff)
  show ?thesis
  proof (cases "tag_used lay (name @ '':'' @ version) \<or> (\<exists>e. artifact_media_type kind = Inl e)")
    case True
    then have "index lay' = index lay"
      using pub by (auto simp: publish_eq [OF ok(1)] Let_def split: if_splits sum.splits)
    with old show ?thesis by (simp add: entries_readable_def)
  next
    case False
    then obtain at where at: "artifact_media_type kind = Inr at"
      by (cases "artifact_media_type kind") auto
    have "index lay' = index lay @ [(blob_descriptor cd (canonical_manifest cd
        (manifest_of cd at config layers annots)))\<lparr>artifact_type := Some at,
          annotations := [(REF_ANNOTATION, name @ '':'' @ version)]\<rparr>]"
      using pub False at by (auto simp: publish_eq [OF ok(1)] Let_def)
    moreover obtain pa where "r = Inr pa" "is_ok (read_manifest cd lay' (pa_digest pa))"
      using publish_delivers [OF ok wf(1) at _ inj pub] False by auto
    moreover have "pa_digest pa = content_hash cd (blob_data (canonical_manifest cd
        (manifest_of cd at config layers annots)))"
      using pub False at \<open>r = Inr pa\<close> by (auto simp: publish_eq [OF ok(1)] Let_def)
    ultimately show ?thesis
      using old by (auto simp: entries_readable_def)
  qed
qed

lemma gc_read_live:
  assumes "garbage_collect cd keep lay = (Inr out, lay')" and "dg \<in> live_digests cd lay keep"
  shows "read_blob lay' dg = read_blob lay dg"
proof (cases "blob_path dg")
  case (Inl e)
  then show ?thesis by (simp add: read_blob_def)
next
  case (Inr h)
  then have dg: "dg = sha256_digest h" by (simp add: blob_path_ok)
  have "dict_get (blobs lay') h = dict_get (blobs lay) h"
    unfolding garbage_collect_ok(2) [OF assms(1)]
    by (rule dict_get_filter_key) (use assms(2) dg in simp)
  then show ?thesis
    by (simp add: read_blob_def Inr)
qed

lemma gc_live_entry:
  assumes "e \<in> set (index lay)" and "tag_of e = Some t" and "t \<noteq> []"
  shows "digest e \<in> live_digests cd lay keep"
    and "read_manifest cd lay (digest e) = Inr m \<Longrightarrow> set (manifest_blobs m) \<subseteq> live_digests cd lay keep"
proof -
  have "digest e \<in> set (gc_seeds (index lay) keep)"
    using assms by (auto simp: gc_seeds_def)
  then have r: "gc_reach (read_manifest cd lay) (index lay) (set (gc_seeds (index lay) keep)) (digest e)"
    by (rule gc_reach.seed)
  show "digest e \<in> live_digests cd lay keep"
    using r by (auto simp: live_digests_def gc_live_def)
  show "set (manifest_blobs m) \<subseteq> live_digests cd lay keep"
    if "read_manifest cd lay (digest e) = Inr m"
    using r that by (auto simp: live_digests_def gc_live_def)
qed

lemma gc_index_live:
  assumes "garbage_collect cd keep lay = (Inr out, lay')" and "entries_readable cd lay"
    and "e \<in> set (index lay')"
  shows "e \<in> set (index lay)" and "digest e \<in> live_digests cd lay keep"
proof -
  have i: "e \<in> set (index lay)"
    and l: "digest e \<in> live_digests cd lay keep \<or> digest e \<notin> set (stored_digests lay)"
    using assms(3) garbage_collect_ok(3) [OF assms(1)] by auto
  have "digest e \<in> set (stored_digests lay)"
    using assms(2) i by (force simp: entries_readable_def is_ok_iff read_manifest_def rbind_Inr
        read_blob_ok blob_path_ok stored_digests_def dest: dict_get_key)
  with i l show "e \<in> set (index lay)" and "digest e \<in> live_digests cd lay keep" by auto
qed

lemma gc_readable:
  assumes "garbage_collect cd keep lay = (Inr out, lay')" and "entries_readable cd lay"
  shows "entries_readable cd lay'"
  using gc_index_live [OF assms] gc_read_live [OF assms(1)] assms(2)
  by (simp add: entries_readable_def read_manifest_def)

lemma gc_wf [inv_intros]:
  "garbage_collect cd keep lay = (Inr out, lay') \<Longrightarrow> layout_wf cd lay \<Longrightarrow> layout_wf cd lay'"
  using garbage_collect_ok(2) [of cd keep lay out lay']
  by (auto simp: layout_wf_def distinct_map inj_on_def)

section \<open>Properties\<close>

lemma publish_exists:
  "tag_used lay (name @ '':'' @ version) \<Longrightarrow>
    publish cd name version kind config layers annots lay
      = (Inl (ArtifactExistsError (name @ '':'' @ version)), lay)"
  by (simp add: publish_def tag_used_def Let_def sraise_def)

text \<open>A concrete codec, for the witnesses: blobs are manifests or strings.\<close>

definition demo_codec :: "(image_manifest + string) codec" where
  "demo_codec =
    \<lparr>hexdigest = (\<lambda>b. case b of Inl _ \<Rightarrow> ''m'' | Inr s \<Rightarrow> ''s'' @ s),
     byte_len = (\<lambda>b. case b of Inl _ \<Rightarrow> 1 | Inr s \<Rightarrow> length s),
     dumps = Inl, loads = (\<lambda>b. case b of Inl m \<Rightarrow> Some m | Inr _ \<Rightarrow> None),
     empty_config = Inr ''{}''\<rparr>"

definition empty_layout :: "'b layout" where
  "empty_layout = \<lparr>blobs = [], index = []\<rparr>"

definition demo_config :: "(image_manifest + string) blob" where
  "demo_config = \<lparr>blob_media = ''c'', blob_data = Inr ''cfg''\<rparr>"

lemma demo_codec_ok: "digests_ok demo_codec" "json_ok demo_codec"
  by (auto simp: digests_ok_def json_ok_def demo_codec_def split: sum.splits)

lemma empty_layout_ok: "layout_wf cd empty_layout" "entries_readable cd empty_layout"
  by (simp_all add: layout_wf_def entries_readable_def empty_layout_def)

definition demo_layout :: "(image_manifest + string) layout" where
  "demo_layout = snd (publish demo_codec ''rover'' ''1.0.0'' ''asset'' demo_config [] [] empty_layout)"

text \<open>
  C30: Publishing under a fresh tag succeeds for a known kind and delivers: the tag resolves to the
  returned digest, which is the hash of the image manifest of what was published (its kind, its
  config, all its layers in order, its annotations, no subject); pulling that digest gives back this
  manifest, the config bytes, and for each layer descriptor of the manifest the bytes of that layer,
  all verified against their content addresses. Digests are taken to be well-formed and free of
  collisions among the bytes published and stored, JSON to parse back what it printed, and the name
  and the version to form a tag.
\<close>

theorem publish_then_pull:
  assumes "digests_ok cd" and "json_ok cd" and "layout_wf cd lay"
    and "kind \<in> set ARTIFACT_KINDS" and "\<not> tag_used lay (name @ '':'' @ version)"
    and "inj_on (hexdigest cd)
      (new_bytes cd (''application/vnd.astro-mine.'' @ kind @ ''.v1'') config layers annots
        \<union> set (dict_values (blobs lay)))"
    and "name \<noteq> []" and "version \<noteq> []" and "CHR '':'' \<notin> set name"
    and "CHR ''@'' \<notin> set (name @ version)" and "name \<noteq> ''sha256''"
  shows "\<exists>pa lay' d. publish cd name version kind config layers annots lay = (Inr pa, lay')
    \<and> hub_resolve cd lay' (name @ '':'' @ version) = Inr d \<and> digest d = pa_digest pa
    \<and> digest d = content_hash cd (dumps cd
        \<lparr>im_artifact_type = ''application/vnd.astro-mine.'' @ kind @ ''.v1'', im_config = blob_descriptor cd config,
         im_layers = map (blob_descriptor cd) layers, im_subject = None, im_annotations = annots\<rparr>)
    \<and> read_manifest cd lay' (digest d) = Inr
        \<lparr>im_artifact_type = ''application/vnd.astro-mine.'' @ kind @ ''.v1'', im_config = blob_descriptor cd config,
         im_layers = map (blob_descriptor cd) layers, im_subject = None, im_annotations = annots\<rparr>
    \<and> read_config cd lay' (digest d) = Inr (blob_data config)
    \<and> map (\<lambda>l. read_blob lay' (digest l)) (map (blob_descriptor cd) layers) = map (\<lambda>b. Inr (blob_data b)) layers
    \<and> verify cd lay' (digest d) = Inr () \<and> layout_wf cd lay'"
proof -
  obtain r lay' where pub: "publish cd name version kind config layers annots lay = (r, lay')"
    by (cases "publish cd name version kind config layers annots lay") auto
  have at: "artifact_media_type kind = Inr (''application/vnd.astro-mine.'' @ kind @ ''.v1'')"
    using assms(4) by (simp add: artifact_media_type_def)
  show ?thesis
    using publish_delivers [OF assms(1,2,3) at assms(5,6) pub] publish_wf [OF assms(1,3) pub] pub
      hub_resolve_tag [OF parse_reference_tag [OF assms(7-11)]]
    by (fastforce simp: manifest_of_def)
qed

definition demo_layer :: "(image_manifest + string) blob" where
  "demo_layer = \<lparr>blob_media = ''l'', blob_data = Inr ''mesh''\<rparr>"

theorem publish_then_pull_witness:
  "\<exists>pa lay' d. publish demo_codec ''rover'' ''1.0.0'' ''asset'' demo_config [demo_layer] [] empty_layout
      = (Inr pa, lay')
    \<and> hub_resolve demo_codec lay' (''rover'' @ '':'' @ ''1.0.0'') = Inr d \<and> digest d = pa_digest pa
    \<and> digest d = content_hash demo_codec (dumps demo_codec
        \<lparr>im_artifact_type = ''application/vnd.astro-mine.'' @ ''asset'' @ ''.v1'',
         im_config = blob_descriptor demo_codec demo_config,
         im_layers = map (blob_descriptor demo_codec) [demo_layer], im_subject = None, im_annotations = []\<rparr>)
    \<and> read_manifest demo_codec lay' (digest d) = Inr
        \<lparr>im_artifact_type = ''application/vnd.astro-mine.'' @ ''asset'' @ ''.v1'',
         im_config = blob_descriptor demo_codec demo_config,
         im_layers = map (blob_descriptor demo_codec) [demo_layer], im_subject = None, im_annotations = []\<rparr>
    \<and> read_config demo_codec lay' (digest d) = Inr (blob_data demo_config)
    \<and> map (\<lambda>l. read_blob lay' (digest l)) (map (blob_descriptor demo_codec) [demo_layer])
        = map (\<lambda>b. Inr (blob_data b)) [demo_layer]
    \<and> verify demo_codec lay' (digest d) = Inr () \<and> layout_wf demo_codec lay'"
  by (rule publish_then_pull [OF demo_codec_ok empty_layout_ok(1)])
    (auto simp: demo_layer_def ARTIFACT_KINDS_def tag_used_def empty_layout_def new_bytes_def inj_on_def demo_codec_def
      demo_config_def canonical_manifest_def split: sum.splits)

text \<open>
  C34: A published reference is immutable: whatever a later publish does, and whether it succeeds or
  raises, every reference that resolved before resolves to the same descriptor and pulls the same
  config, and a publish to an existing tag is refused with the registry unchanged.
\<close>

theorem published_reference_immutable:
  assumes "digests_ok cd"
    and "publish cd name version kind config layers annots lay = (r, lay')"
  shows "(\<forall>ref d. hub_resolve cd lay ref = Inr d \<longrightarrow> hub_resolve cd lay' ref = Inr d)
    \<and> (\<forall>dg b. read_config cd lay dg = Inr b \<longrightarrow> read_config cd lay' dg = Inr b)
    \<and> (tag_used lay (name @ '':'' @ version) \<longrightarrow>
        r = Inl (ArtifactExistsError (name @ '':'' @ version)) \<and> lay' = lay)"
proof (intro conjI allI impI)
  note grown = publish_grows [OF assms]
  show "hub_resolve cd lay' ref = Inr d" if "hub_resolve cd lay ref = Inr d" for ref d
    using grown that by (rule hub_resolve_grows)
  show "read_config cd lay' dg = Inr b" if "read_config cd lay dg = Inr b" for dg b
    using grown that by (rule read_config_grows)
  assume "tag_used lay (name @ '':'' @ version)"
  from publish_exists [OF this] assms(2)
  show "r = Inl (ArtifactExistsError (name @ '':'' @ version))" and "lay' = lay"
    by simp_all
qed

theorem published_reference_immutable_witness:
  "hub_resolve demo_codec demo_layout ''rover:1.0.0'' =
      hub_resolve demo_codec (snd (publish demo_codec ''rover'' ''1.1.0'' ''asset'' demo_config [] [] demo_layout))
        ''rover:1.0.0''"
proof -
  have "is_ok (hub_resolve demo_codec demo_layout ''rover:1.0.0'')"
    unfolding demo_layout_def by code_simp
  then have d: "\<exists>d. hub_resolve demo_codec demo_layout ''rover:1.0.0'' = Inr d"
    by (simp add: is_ok_iff)
  show ?thesis
    using published_reference_immutable [where cd = demo_codec and name = "''rover''" and version = "''1.1.0''"
      and kind = "''asset''" and config = demo_config and layers = "[]" and annots = "[]"
      and lay = demo_layout, OF demo_codec_ok(1) prod.collapse [symmetric]] d
    by auto
qed

text \<open>
  Garbage collection never reclaims what is pinned: every tagged artifact keeps its index entry,
  its manifest, its config and its layers, and every explicitly kept digest keeps its bytes.
\<close>

theorem gc_never_reclaims_pinned:
  assumes "garbage_collect cd keep lay = (Inr out, lay')"
  shows "(\<forall>e \<in> set (index lay). \<forall>t m. tag_of e = Some t \<longrightarrow> t \<noteq> [] \<longrightarrow>
        read_manifest cd lay (digest e) = Inr m \<longrightarrow>
          e \<in> set (index lay') \<and> (\<forall>dg \<in> set (digest e # manifest_blobs m). read_blob lay' dg = read_blob lay dg))
    \<and> (\<forall>dg \<in> set keep. read_blob lay' dg = read_blob lay dg)"
proof (intro conjI ballI allI impI)
  fix e t m
  assume e: "e \<in> set (index lay)" "tag_of e = Some t" "t \<noteq> []"
    and m: "read_manifest cd lay (digest e) = Inr m"
  note live = gc_live_entry [where cd = cd and keep = keep, OF e]
  show "e \<in> set (index lay')"
    using e(1) live(1) garbage_collect_ok(3) [OF assms] by simp
  fix dg
  assume "dg \<in> set (digest e # manifest_blobs m)"
  then show "read_blob lay' dg = read_blob lay dg"
    using live(1) live(2) [OF m] gc_read_live [OF assms] by auto
next
  fix dg
  assume "dg \<in> set keep"
  then show "read_blob lay' dg = read_blob lay dg"
    by (intro gc_read_live [OF assms]) (simp add: live_digests_def)
qed

theorem gc_never_reclaims_pinned_witness:
  "\<exists>out lay'. garbage_collect demo_codec [''sha256:scfg''] demo_layout = (Inr out, lay')
    \<and> read_blob lay' ''sha256:scfg'' = read_blob demo_layout ''sha256:scfg''"
proof -
  have "is_ok (fst (garbage_collect demo_codec [''sha256:scfg''] demo_layout))"
    unfolding demo_layout_def by code_simp
  then have "\<exists>out lay'. garbage_collect demo_codec [''sha256:scfg''] demo_layout = (Inr out, lay')"
    by (cases "garbage_collect demo_codec [''sha256:scfg''] demo_layout") (auto simp: is_ok_iff)
  then show ?thesis
    using gc_never_reclaims_pinned by fastforce
qed

text \<open>
  On a layout whose index entries are readable, garbage collection terminates without an error,
  reclaims exactly the stored digests that no seed, kept digest or referrer chain reaches, returns
  them sorted, and leaves a layout whose index entries are readable again.
\<close>

theorem gc_reclaims_exactly_garbage:
  assumes "entries_readable cd lay"
  shows "\<exists>lay'. garbage_collect cd keep lay
      = (Inr (sort (filter (\<lambda>d. d \<notin> live_digests cd lay keep) (stored_digests lay))), lay')
    \<and> stored_digests lay' = filter (\<lambda>d. d \<in> live_digests cd lay keep) (stored_digests lay)
    \<and> entries_readable cd lay'"
proof -
  obtain out lay' where gc: "garbage_collect cd keep lay = (Inr out, lay')"
    using garbage_collect_total assms unfolding entries_readable_def by blast
  have "stored_digests lay' = filter (\<lambda>d. d \<in> live_digests cd lay keep) (stored_digests lay)"
    unfolding stored_digests_def garbage_collect_ok(2) [OF gc]
    by (simp add: filter_map o_def case_prod_unfold)
  then show ?thesis
    using gc garbage_collect_ok(1) [OF gc] gc_readable [OF gc assms] by auto
qed

theorem gc_reclaims_exactly_garbage_witness:
  "\<exists>lay'. garbage_collect demo_codec [] demo_layout
      = (Inr (sort (filter (\<lambda>d. d \<notin> live_digests demo_codec demo_layout [])
            (stored_digests demo_layout))), lay')
    \<and> stored_digests lay' = filter (\<lambda>d. d \<in> live_digests demo_codec demo_layout [])
        (stored_digests demo_layout)
    \<and> entries_readable demo_codec lay'"
proof (rule gc_reclaims_exactly_garbage)
  show "entries_readable demo_codec demo_layout"
    unfolding entries_readable_def demo_layout_def by code_simp
qed

end
