(* ===== verification/Core_Compat.thy ===== *)
theory Core_Compat
  imports Platform_Prelude
begin

text \<open>
  Interface version negotiation, \<^verbatim>\<open>core/compat/__init__.py\<close>: the interface versions this build
  publishes, parsing of \<^verbatim>\<open>MAJOR.MINOR.PATCH\<close>, the per-interface compatibility rule and the gate
  that collects every problem. The registry (theory Plugin\_Registry) and Hub's resolver
  (theory Hub\_Resolve) build on it.
\<close>

section \<open>Definitions\<close>

datatype compat_problem =
    UnknownInterface string
  | VersionMismatch string string string

text \<open>The exceptions: \<^verbatim>\<open>ValueError\<close> of a malformed version, and \<^verbatim>\<open>IncompatibleCoreInterface\<close>.\<close>

datatype compat_error =
    BadVersion string
  | IncompatibleCoreInterface "compat_problem list"

type_synonym semver = "nat \<times> nat \<times> nat"

definition CORE_INTERFACE_VERSIONS :: "(string, string) dict" where
  "CORE_INTERFACE_VERSIONS =
    [(''sadf'', ''0.1.0''), (''messages'', ''0.1.0''), (''objective'', ''0.1.0''),
     (''env'', ''0.1.0''), (''policy'', ''0.1.0''), (''registry'', ''0.1.0''),
     (''resource_field'', ''0.1.0''), (''world_provider'', ''0.1.0''), (''mission'', ''0.1.0'')]"

definition parse_version :: "string \<Rightarrow> compat_error + semver" where
  "parse_version version =
    (case split_on CHR ''.'' version of
       [a, b, c] \<Rightarrow>
         if all_digits a \<and> all_digits b \<and> all_digits c
         then Inr (int_of_str a, int_of_str b, int_of_str c)
         else Inl (BadVersion version)
     | _ \<Rightarrow> Inl (BadVersion version))"

definition check_compatible :: "string \<Rightarrow> string \<Rightarrow> compat_error + bool" where
  "check_compatible required provided =
    rbind (parse_version required) (\<lambda>(r_major, r_minor, _).
    rbind (parse_version provided) (\<lambda>(p_major, p_minor, _).
      if r_major \<noteq> p_major then Inr False
      else if r_major = 0 then Inr (p_minor = r_minor)
      else Inr (r_minor \<le> p_minor)))"

text \<open>
  \<^verbatim>\<open>dict(provided or CORE_INTERFACE_VERSIONS)\<close>: an empty mapping is falsy, so it falls back too.
\<close>

definition available_interfaces :: "(string, string) dict option \<Rightarrow> (string, string) dict" where
  "available_interfaces provided =
    (case provided of
       None \<Rightarrow> CORE_INTERFACE_VERSIONS
     | Some d \<Rightarrow> if d = [] then CORE_INTERFACE_VERSIONS else d)"

fun compat_problems ::
    "(string, string) dict \<Rightarrow> (string, string) dict \<Rightarrow> compat_error + compat_problem list" where
  "compat_problems available [] = Inr []"
| "compat_problems available ((interface, required) # claimed) =
    (case dict_get available interface of
       None \<Rightarrow>
         rbind (compat_problems available claimed) (\<lambda>ps. Inr (UnknownInterface interface # ps))
     | Some p \<Rightarrow>
         rbind (check_compatible required p) (\<lambda>ok.
         rbind (compat_problems available claimed) (\<lambda>ps.
           Inr (if ok then ps else VersionMismatch interface required p # ps))))"

definition assert_core_compatible ::
    "(string, string) dict \<Rightarrow> (string, string) dict option \<Rightarrow> compat_error + unit" where
  "assert_core_compatible claimed provided =
    rbind (compat_problems (available_interfaces provided) claimed) (\<lambda>ps.
      if ps \<noteq> [] then Inl (IncompatibleCoreInterface ps) else Inr ())"

section \<open>Lemmas\<close>

text \<open>A version string printed from its parts parses back to them.\<close>

definition render_version :: "semver \<Rightarrow> string" where
  "render_version v =
    (case v of (a, b, c) \<Rightarrow> join_on CHR ''.'' [str_of_nat a, str_of_nat b, str_of_nat c])"

lemma no_dot_str_of_nat: "CHR ''.'' \<notin> set (str_of_nat n)"
  by (rule all_digits_no_char) simp_all

lemma parse_render: "parse_version (render_version v) = Inr v"
proof -
  obtain a b c where v: "v = (a, b, c)" by (cases v)
  have "split_on CHR ''.'' (render_version v) = [str_of_nat a, str_of_nat b, str_of_nat c]"
    by (simp only: v render_version_def prod.case) (rule split_on_join, auto simp: no_dot_str_of_nat)
  then show ?thesis
    by (simp add: parse_version_def v)
qed

lemma parse_version_ok_parts:
  "parse_version s = Inr (a, b, c) \<Longrightarrow>
    \<exists>x y z. s = join_on CHR ''.'' [x, y, z] \<and> all_digits x \<and> all_digits y \<and> all_digits z
      \<and> a = int_of_str x \<and> b = int_of_str y \<and> c = int_of_str z"
  using join_on_split [of "CHR ''.''" s]
  by (auto simp: parse_version_def split: list.splits if_splits)

lemma parse_version_error: "parse_version s = Inl e \<Longrightarrow> e = BadVersion s"
  by (auto simp: parse_version_def split: list.splits if_splits)

text \<open>The rule itself, on parsed versions.\<close>

fun semver_satisfies :: "semver \<Rightarrow> semver \<Rightarrow> bool" where
  "semver_satisfies (r_major, r_minor, _) (p_major, p_minor, _) =
    (r_major = p_major \<and> (if r_major = 0 then p_minor = r_minor else r_minor \<le> p_minor))"

lemma check_compatible_parsed:
  "parse_version r = Inr rv \<Longrightarrow> parse_version p = Inr pv \<Longrightarrow>
    check_compatible r p = Inr (semver_satisfies rv pv)"
  by (cases rv; cases pv) (simp add: check_compatible_def)

lemma check_compatible_bad_required:
  "parse_version r = Inl e \<Longrightarrow> check_compatible r p = Inl e"
  by (simp add: check_compatible_def)

lemma check_compatible_bad_provided:
  "parse_version r = Inr rv \<Longrightarrow> parse_version p = Inl e \<Longrightarrow> check_compatible r p = Inl e"
  by (cases rv) (simp add: check_compatible_def)

lemmas check_compatible_cases =
  check_compatible_parsed check_compatible_bad_required check_compatible_bad_provided

lemma check_compatible_Inr:
  "(check_compatible r p = Inr b) =
    (\<exists>rv pv. parse_version r = Inr rv \<and> parse_version p = Inr pv \<and> b = semver_satisfies rv pv)"
  by (cases "parse_version r"; cases "parse_version p") (auto simp: check_compatible_cases)

lemma check_compatible_error:
  "check_compatible r p = Inl e \<Longrightarrow> e = BadVersion r \<or> e = BadVersion p"
  by (cases "parse_version r"; cases "parse_version p")
    (auto simp: check_compatible_cases dest: parse_version_error)

lemma semver_satisfies_refl [simp]: "semver_satisfies v v"
  by (cases v) simp

lemma semver_satisfies_trans:
  "semver_satisfies u v \<Longrightarrow> semver_satisfies v w \<Longrightarrow> semver_satisfies u w"
  by (cases u; cases v; cases w) (auto split: if_splits)

text \<open>The loop over the claims: one problem per claim that is unknown or not satisfied.\<close>

lemma compat_problems_none:
  "(compat_problems av claimed = Inr []) =
    (\<forall>(i, r) \<in> set claimed. \<exists>p. dict_get av i = Some p \<and> check_compatible r p = Inr True)"
  by (induction claimed) (auto simp: rbind_Inr split: option.splits prod.splits)

definition claim_problem :: "(string, string) dict \<Rightarrow> string \<times> string \<Rightarrow> compat_problem list" where
  "claim_problem av c =
    (case c of (i, r) \<Rightarrow>
       case dict_get av i of
         None \<Rightarrow> [UnknownInterface i]
       | Some p \<Rightarrow> if check_compatible r p = Inr True then [] else [VersionMismatch i r p])"

lemma compat_problems_ok:
  "compat_problems av claimed = Inr ps \<Longrightarrow> ps = concat (map (claim_problem av) claimed)"
  by (induction claimed arbitrary: ps)
    (auto simp: rbind_Inr claim_problem_def split: option.splits if_splits)

lemma assert_ok_iff:
  "(assert_core_compatible claimed provided = Inr ()) =
    (\<forall>(i, r) \<in> set claimed. \<exists>p. dict_get (available_interfaces provided) i = Some p
       \<and> check_compatible r p = Inr True)"
  by (auto simp: assert_core_compatible_def rbind_Inr compat_problems_none [symmetric])

lemma assert_ok_is_ok:
  "is_ok (assert_core_compatible claimed provided) = (assert_core_compatible claimed provided = Inr ())"
  by (simp add: is_ok_iff)

section \<open>Properties\<close>

text \<open>
  The compatibility gate is exact: over well-formed versions it accepts a claim set if every
  claimed interface is provided at a satisfying version, and otherwise raises with precisely the
  unknown and mismatched interfaces, in the order of the claims.
\<close>

theorem core_gate_exact:
  assumes "\<forall>(i, r) \<in> set claimed. is_ok (parse_version r)"
    and "\<forall>(i, p) \<in> set (available_interfaces provided). is_ok (parse_version p)"
  shows "assert_core_compatible claimed provided =
    (let ps = concat (map (claim_problem (available_interfaces provided)) claimed)
     in if ps = [] then Inr () else Inl (IncompatibleCoreInterface ps))"
proof -
  let ?av = "available_interfaces provided"
  have "\<exists>ps. compat_problems ?av claimed = Inr ps"
    using assms(1)
  proof (induction claimed)
    case Nil
    show ?case by simp
  next
    case (Cons c cs)
    obtain i r where c: "c = (i, r)" by (cases c)
    with Cons obtain ps where ps: "compat_problems ?av cs = Inr ps" by auto
    have "is_ok (parse_version p)" if "dict_get ?av i = Some p" for p
      using assms(2) map_of_SomeD [OF that] by auto
    with Cons.prems c ps show ?case
      by (auto simp: is_ok_iff check_compatible_parsed split: option.splits)
  qed
  then obtain ps where ps: "compat_problems ?av claimed = Inr ps" by blast
  from compat_problems_ok [OF ps] show ?thesis
    unfolding assert_core_compatible_def ps Let_def by simp
qed

theorem core_gate_exact_witness:
  "assert_core_compatible [(''env'', ''0.1.7''), (''evn'', ''0.1.0'')] None =
    Inl (IncompatibleCoreInterface [UnknownInterface ''evn''])"
proof -
  have "assert_core_compatible [(''env'', ''0.1.7''), (''evn'', ''0.1.0'')] None =
    (let ps = concat (map (claim_problem (available_interfaces None)) [(''env'', ''0.1.7''), (''evn'', ''0.1.0'')])
     in if ps = [] then Inr () else Inl (IncompatibleCoreInterface ps))"
    by (rule core_gate_exact) code_simp+
  also have "\<dots> = Inl (IncompatibleCoreInterface [UnknownInterface ''evn''])"
    by code_simp
  finally show ?thesis .
qed

text \<open>
  Negotiation is a preorder on versions: a version satisfies itself, and if \<open>b\<close> serves consumers
  of \<open>a\<close> and \<open>c\<close> serves consumers of \<open>b\<close>, then \<open>c\<close> serves consumers of \<open>a\<close>; so an additive chain of
  upgrades never breaks the first consumer.
\<close>

theorem check_compatible_preorder:
  assumes "is_ok (parse_version v)"
    and "check_compatible a b = Inr True" and "check_compatible b c = Inr True"
  shows "check_compatible v v = Inr True \<and> check_compatible a c = Inr True"
  using assms unfolding is_ok_iff check_compatible_Inr
  by (metis Inr_inject semver_satisfies_refl semver_satisfies_trans)

theorem check_compatible_preorder_witness:
  "check_compatible ''0.1.0'' ''0.1.0'' = Inr True \<and> check_compatible ''1.2.0'' ''1.10.3'' = Inr True"
  by (rule check_compatible_preorder [where b = "''1.4.9''"]) code_simp+

text \<open>
  Parsing inverts printing: every version triple printed as \<open>MAJOR.MINOR.PATCH\<close> parses back to
  itself, and a string that parses is three dot-separated digit runs whose values are the triple.
\<close>

theorem parse_version_roundtrip:
  "parse_version (render_version v) = Inr v
   \<and> (parse_version s = Inr (a, b, c) \<longrightarrow>
      (\<exists>x y z. s = join_on CHR ''.'' [x, y, z] \<and> all_digits x \<and> all_digits y \<and> all_digits z
        \<and> a = int_of_str x \<and> b = int_of_str y \<and> c = int_of_str z))"
  using parse_render parse_version_ok_parts by blast

theorem parse_version_roundtrip_witness:
  "parse_version (render_version (0, 1, 12)) = Inr (0, 1, 12) \<and> parse_version ''0.1.12'' = Inr (0, 1, 12)"
proof -
  have "parse_version ''0.1.12'' = Inr (0, 1, 12)" by code_simp
  with parse_version_roundtrip [of "(0, 1, 12)" "''0.1.12''" 0 1 12] show ?thesis by blast
qed

end
