(* ===== verification/Json_Values.thy ===== *)
theory Json_Values
  imports Complex_Main Platform_Prelude
begin

text \<open>
  JSON documents as the values \<^verbatim>\<open>json.loads\<close> returns, with the reads the source makes of them
  (\<^verbatim>\<open>isinstance\<close>, \<^verbatim>\<open>dict.get\<close>). Numbers are exact rationals.
\<close>

datatype json =
    JNull
  | JBool bool
  | JNum rat
  | JStr string
  | JList "json list"
  | JObj "(string \<times> json) list"

text \<open>\<^verbatim>\<open>entry.get(key)\<close>: an absent key and a null are the same \<^verbatim>\<open>None\<close>.\<close>

definition json_get :: "(string, json) dict \<Rightarrow> string \<Rightarrow> json" where
  "json_get d k = (case dict_get d k of None \<Rightarrow> JNull | Some v \<Rightarrow> v)"

fun strings_of :: "json list \<Rightarrow> string list option" where
  "strings_of [] = Some []"
| "strings_of (JStr s # js) = map_option ((#) s) (strings_of js)"
| "strings_of _ = None"

lemma strings_of_map [simp]: "strings_of (map JStr ss) = Some ss"
  by (induction ss) simp_all

lemma json_get_simps [simp]:
  "json_get [] k = JNull"
  "json_get ((j, v) # d) k = (if j = k then v else json_get d k)"
  by (auto simp: json_get_def)

text \<open>Python's equality of JSON values: objects do not depend on their order, \<^verbatim>\<open>True == 1\<close>.\<close>

primrec json_norm :: "json \<Rightarrow> json" where
  "json_norm JNull = JNull"
| "json_norm (JBool b) = JNum (if b then 1 else 0)"
| "json_norm (JNum n) = JNum n"
| "json_norm (JStr s) = JStr s"
| "json_norm (JList js) = JList (map json_norm js)"
| "json_norm (JObj d) = JObj (sort_key fst (map (map_prod id json_norm) d))"

definition json_same :: "json \<Rightarrow> json \<Rightarrow> bool" where
  "json_same a b = (json_norm a = json_norm b)"

lemma map_of_filter_key: "map_of (filter (\<lambda>p. fst p = k) l) k = map_of l k"
  by (induction l) auto

lemma map_of_sort_key: "map_of (sort_key fst d) k = map_of d k"
  using map_of_filter_key [of k d] map_of_filter_key [of k "sort_key fst d"] sort_key_stable [of fst k d]
  by simp

lemma map_of_norm: "map_of (map (map_prod id json_norm) d) k = map_option json_norm (map_of d k)"
  by (induction d) auto

lemma json_norm_JStr [simp]: "(json_norm j = JStr s) = (j = JStr s)"
  by (cases j) auto

lemma json_same_JObj: "json_same j (JObj d) \<Longrightarrow> \<exists>d'. j = JObj d'"
  by (cases j) (auto simp: json_same_def)

lemma json_same_refl [simp]: "json_same j j"
  by (simp add: json_same_def)

lemma json_same_get:
  assumes "json_same (JObj d') (JObj d)" and "json_get d k = JStr s"
  shows "json_get d' k = JStr s"
proof -
  have "map_option json_norm (map_of d' k) = map_option json_norm (map_of d k)"
    using assms(1) unfolding json_same_def json_norm.simps json.inject
    by (metis map_of_norm map_of_sort_key)
  then show ?thesis
    using assms(2) by (auto simp: json_get_def split: option.splits)
qed

text \<open>Documents whose numbers are integers, which JSON text represents exactly.\<close>

primrec json_plain :: "json \<Rightarrow> bool" where
  "json_plain JNull = True"
| "json_plain (JBool b) = True"
| "json_plain (JNum n) = (snd (quotient_of n) = 1)"
| "json_plain (JStr s) = True"
| "json_plain (JList js) = list_all (\<lambda>b. b) (map json_plain js)"
| "json_plain (JObj d) = list_all (\<lambda>(k, b). b) (map (map_prod id json_plain) d)"

end
