(* ===== verification/Plugin_Registry.thy ===== *)
theory Plugin_Registry
  imports Core_Compat Json_Values
begin

text \<open>
  The plugin registry: the manifest model of \<^verbatim>\<open>core/registry/model.py\<close>, its closed vocabularies
  (\<^verbatim>\<open>core/registry/enums.py\<close>, \<^verbatim>\<open>core/sadf/enums.py\<close>), the semantic gate of \<^verbatim>\<open>core/registry/loader.py\<close>
  and the class \<^verbatim>\<open>PluginRegistry\<close> of \<^verbatim>\<open>core/registry/registry.py\<close> with its load-time gates. The
  JSON-Schema validator (a third-party package) is the parameter \<open>schema_ok\<close>; the host's
  cryptographic verifier is a field of the registry, as in the code.
\<close>

section \<open>Vocabularies\<close>

datatype CapabilityTag =
    MOBILITY_WHEELED | MOBILITY_TRACKED | MOBILITY_LEGGED
  | MOBILITY_HOP | MOBILITY_ORBITER | MOBILITY_ROCKET
  | PROPULSION_CHEMICAL | PROPULSION_CRYO_CHEMICAL | PROPULSION_ELECTRIC_ION
  | PROPULSION_COLD_GAS | PROPULSION_SOLAR_SAIL | EXCAVATION_BUCKET
  | EXCAVATION_AUGER | EXCAVATION_SCOOP | EXCAVATION_DRILL
  | SAMPLE_COLLECTION_DRILL | SAMPLE_COLLECTION_SCOOP | SAMPLE_COLLECTION_AUGER
  | SAMPLE_COLLECTION_PNEUMATIC | SAMPLE_COLLECTION_CAPTURE_BAG | MANIPULATION_ARM
  | MANIPULATION_GRIPPER | PROSPECTING_NEUTRON | PROSPECTING_NIR
  | PROSPECTING_GPR | PROSPECTING_MASS_SPEC | PROSPECTING_DRILL_ASSAY
  | SENSING_IMAGING | SENSING_RANGING | SENSING_LIDAR
  | SENSING_IMU | SENSING_ODOMETRY | SENSING_CONTACT
  | SENSING_ALTIMETRY | SENSING_THERMAL | COMMS_RELAY
  | COMMS_DIRECT_TO_EARTH | COMMS_DSN | COMMS_DTN
  | ISRU_THERMAL_EXTRACTION | ISRU_ELECTROLYSIS | ISRU_PURIFICATION
  | ISRU_STORAGE | POWER_GENERATION | POWER_STORAGE
  | POWER_DISTRIBUTION | ANCHORING_ANCHOR | ANCHORING_HARPOON
  | ANCHORING_TOUCH_AND_GO | ANCHORING_CAPTURE_BAG | RETURN_SAMPLE_CANISTER
  | RETURN_BULK_HAULER | EARTH_INTERFACE_BALLISTIC_CAPSULE | STAGING
  | REUSABLE | CARRIER_DISPENSER | OPERATIONAL_TARGETING
  | GROUND_TRUTH_ACCESS | COMMS_LIVE_MISSION_LINK_PREDICTION

text \<open>The members' values.\<close>

primrec tag_value :: "CapabilityTag \<Rightarrow> string" where
  "tag_value MOBILITY_WHEELED = ''mobility.wheeled''"
| "tag_value MOBILITY_TRACKED = ''mobility.tracked''"
| "tag_value MOBILITY_LEGGED = ''mobility.legged''"
| "tag_value MOBILITY_HOP = ''mobility.hop''"
| "tag_value MOBILITY_ORBITER = ''mobility.orbiter''"
| "tag_value MOBILITY_ROCKET = ''mobility.rocket''"
| "tag_value PROPULSION_CHEMICAL = ''propulsion.chemical''"
| "tag_value PROPULSION_CRYO_CHEMICAL = ''propulsion.cryo_chemical''"
| "tag_value PROPULSION_ELECTRIC_ION = ''propulsion.electric_ion''"
| "tag_value PROPULSION_COLD_GAS = ''propulsion.cold_gas''"
| "tag_value PROPULSION_SOLAR_SAIL = ''propulsion.solar_sail''"
| "tag_value EXCAVATION_BUCKET = ''excavation.bucket''"
| "tag_value EXCAVATION_AUGER = ''excavation.auger''"
| "tag_value EXCAVATION_SCOOP = ''excavation.scoop''"
| "tag_value EXCAVATION_DRILL = ''excavation.drill''"
| "tag_value SAMPLE_COLLECTION_DRILL = ''sample_collection.drill''"
| "tag_value SAMPLE_COLLECTION_SCOOP = ''sample_collection.scoop''"
| "tag_value SAMPLE_COLLECTION_AUGER = ''sample_collection.auger''"
| "tag_value SAMPLE_COLLECTION_PNEUMATIC = ''sample_collection.pneumatic''"
| "tag_value SAMPLE_COLLECTION_CAPTURE_BAG = ''sample_collection.capture_bag''"
| "tag_value MANIPULATION_ARM = ''manipulation.arm''"
| "tag_value MANIPULATION_GRIPPER = ''manipulation.gripper''"
| "tag_value PROSPECTING_NEUTRON = ''prospecting.neutron''"
| "tag_value PROSPECTING_NIR = ''prospecting.nir''"
| "tag_value PROSPECTING_GPR = ''prospecting.gpr''"
| "tag_value PROSPECTING_MASS_SPEC = ''prospecting.mass_spec''"
| "tag_value PROSPECTING_DRILL_ASSAY = ''prospecting.drill_assay''"
| "tag_value SENSING_IMAGING = ''sensing.imaging''"
| "tag_value SENSING_RANGING = ''sensing.ranging''"
| "tag_value SENSING_LIDAR = ''sensing.lidar''"
| "tag_value SENSING_IMU = ''sensing.imu''"
| "tag_value SENSING_ODOMETRY = ''sensing.odometry''"
| "tag_value SENSING_CONTACT = ''sensing.contact''"
| "tag_value SENSING_ALTIMETRY = ''sensing.altimetry''"
| "tag_value SENSING_THERMAL = ''sensing.thermal''"
| "tag_value COMMS_RELAY = ''comms.relay''"
| "tag_value COMMS_DIRECT_TO_EARTH = ''comms.direct_to_earth''"
| "tag_value COMMS_DSN = ''comms.dsn''"
| "tag_value COMMS_DTN = ''comms.dtn''"
| "tag_value ISRU_THERMAL_EXTRACTION = ''isru.thermal_extraction''"
| "tag_value ISRU_ELECTROLYSIS = ''isru.electrolysis''"
| "tag_value ISRU_PURIFICATION = ''isru.purification''"
| "tag_value ISRU_STORAGE = ''isru.storage''"
| "tag_value POWER_GENERATION = ''power.generation''"
| "tag_value POWER_STORAGE = ''power.storage''"
| "tag_value POWER_DISTRIBUTION = ''power.distribution''"
| "tag_value ANCHORING_ANCHOR = ''anchoring.anchor''"
| "tag_value ANCHORING_HARPOON = ''anchoring.harpoon''"
| "tag_value ANCHORING_TOUCH_AND_GO = ''anchoring.touch_and_go''"
| "tag_value ANCHORING_CAPTURE_BAG = ''anchoring.capture_bag''"
| "tag_value RETURN_SAMPLE_CANISTER = ''return.sample_canister''"
| "tag_value RETURN_BULK_HAULER = ''return.bulk_hauler''"
| "tag_value EARTH_INTERFACE_BALLISTIC_CAPSULE = ''earth_interface.ballistic_capsule''"
| "tag_value STAGING = ''staging''"
| "tag_value REUSABLE = ''reusable''"
| "tag_value CARRIER_DISPENSER = ''carrier.dispenser''"
| "tag_value OPERATIONAL_TARGETING = ''operational_targeting''"
| "tag_value GROUND_TRUTH_ACCESS = ''ground_truth_access''"
| "tag_value COMMS_LIVE_MISSION_LINK_PREDICTION = ''comms.live_mission_link_prediction''"

definition GATED_CAPABILITY_TAGS :: "CapabilityTag list" where
  "GATED_CAPABILITY_TAGS =
    [OPERATIONAL_TARGETING, GROUND_TRUTH_ACCESS, COMMS_LIVE_MISSION_LINK_PREDICTION]"

datatype PluginKind =
    REGIME_ENGINE | SENSOR_MODEL | COUPLING_SCHEME
  | WORLD_PROVIDER | BODY_PACK | FIELD_MODEL
  | RESOURCE_FIELD_BACKEND | OBSERVATION_MODEL | PRIOR_RECIPE | INFO_GAIN_OBJECTIVE
  | COMMS_MODEL | ASSET | POLICY | METRIC | DESIGN | CAMPAIGN

primrec kind_value :: "PluginKind \<Rightarrow> string" where
  "kind_value REGIME_ENGINE = ''regime_engine''"
| "kind_value SENSOR_MODEL = ''sensor_model''"
| "kind_value COUPLING_SCHEME = ''coupling_scheme''"
| "kind_value WORLD_PROVIDER = ''world_provider''"
| "kind_value BODY_PACK = ''body_pack''"
| "kind_value FIELD_MODEL = ''field_model''"
| "kind_value RESOURCE_FIELD_BACKEND = ''resource_field_backend''"
| "kind_value OBSERVATION_MODEL = ''observation_model''"
| "kind_value PRIOR_RECIPE = ''prior_recipe''"
| "kind_value INFO_GAIN_OBJECTIVE = ''info_gain_objective''"
| "kind_value COMMS_MODEL = ''comms_model''"
| "kind_value ASSET = ''asset''"
| "kind_value POLICY = ''policy''"
| "kind_value METRIC = ''metric''"
| "kind_value DESIGN = ''design''"
| "kind_value CAMPAIGN = ''campaign''"

datatype Regime =
    LAUNCH_ASCENT | INTERPLANETARY_TRANSIT | PROXIMITY_ORBIT | SURFACE | ASCENT_RETURN | EARTH_INTERFACE

datatype DeterminismClass = BIT_EXACT | TOLERANCE

datatype SignatureScheme = SIGSTORE_COSIGN | UNSIGNED

datatype SignatureKind = COSIGN_SIGNATURE | SLSA_PROVENANCE | SBOM

section \<open>The manifest\<close>

record manifest_provenance =
  input_hashes :: "string list"
  code_version :: "string option"
  toolchain_version :: "string option"
  env_lockfile :: "string option"
  prov_seed :: "int option"
  source_content_hashes :: "(string, string) dict"
  builder_version :: "string option"
  prov_digest :: "string option"

record signature =
  sig_scheme :: SignatureScheme
  sig_kind :: SignatureKind
  sig_value :: "string option"
  sig_payload :: "string option"
  sig_certificate :: "string option"
  sig_digest :: "string option"

record plugin_manifest =
  pm_name :: string
  pm_version :: string
  pm_kind :: PluginKind
  pm_core_interfaces :: "(string, string) dict"
  pm_inputs :: "string list"
  pm_outputs :: "string list"
  pm_capability_tags :: "CapabilityTag list"
  pm_determinism_class :: "DeterminismClass option"
  pm_regimes :: "Regime list"
  pm_description :: "string option"
  pm_license :: "string option"
  pm_provenance :: "manifest_provenance option"
  pm_signature :: "signature option"
  pm_signatures :: "signature list"
  pm_attributes :: "(string, json) dict"

definition all_signatures :: "plugin_manifest \<Rightarrow> signature list" where
  "all_signatures m =
    (case pm_signature m of None \<Rightarrow> [] | Some s \<Rightarrow> [s]) @ pm_signatures m"

text \<open>
  \<^verbatim>\<open>PluginManifest.satisfies\<close>: the interfaces are checked in order, the first failure answers
  \<^verbatim>\<open>False\<close>; a malformed version raises.
\<close>

fun interfaces_satisfied ::
    "(string, string) dict \<Rightarrow> (string, string) dict \<Rightarrow> compat_error + bool" where
  "interfaces_satisfied declared [] = Inr True"
| "interfaces_satisfied declared ((name, required) # rest) =
    (case dict_get declared name of
       None \<Rightarrow> Inr False
     | Some d \<Rightarrow>
         rbind (check_compatible required d) (\<lambda>ok.
           if ok then interfaces_satisfied declared rest else Inr False))"

definition manifest_satisfies ::
    "plugin_manifest \<Rightarrow> (string, string) dict \<Rightarrow> string list \<Rightarrow> compat_error + bool" where
  "manifest_satisfies m interfaces capability_tags =
    rbind (interfaces_satisfied (pm_core_interfaces m) interfaces) (\<lambda>ok.
      Inr (ok \<and> list_all (\<lambda>t. t \<in> tag_value ` set (pm_capability_tags m)) capability_tags))"

record catalog_record =
  cr_name :: string
  cr_version :: string
  cr_kind :: PluginKind
  cr_core_interface_versions :: "(string \<times> string) list"
  cr_capability_tags :: "CapabilityTag list"
  cr_inputs :: "string list"
  cr_outputs :: "string list"
  cr_license :: "string option"
  cr_provenance :: "manifest_provenance option"
  cr_signatures :: "signature list"

definition to_catalog_record :: "plugin_manifest \<Rightarrow> catalog_record" where
  "to_catalog_record m =
    \<lparr>cr_name = pm_name m, cr_version = pm_version m, cr_kind = pm_kind m,
     cr_core_interface_versions = sort (pm_core_interfaces m),
     cr_capability_tags = pm_capability_tags m, cr_inputs = pm_inputs m,
     cr_outputs = pm_outputs m, cr_license = pm_license m,
     cr_provenance = pm_provenance m, cr_signatures = all_signatures m\<rparr>"

section \<open>The semantic gate\<close>

datatype 'x registry_error =
    SchemaInvalid
  | GatedTags "CapabilityTag list"
  | BadInterfaceVersion string string
  | IncompatibleManifest "compat_problem list"
  | ProvidedVersionError string
  | UnsignedManifest
  | VerifierRaised 'x
  | AlreadyRegistered string
  | NotRegistered string

fun check_interface_versions :: "(string, string) dict \<Rightarrow> 'x registry_error + unit" where
  "check_interface_versions [] = Inr ()"
| "check_interface_versions ((interface, version) # rest) =
    (case parse_version version of
       Inl _ \<Rightarrow> Inl (BadInterfaceVersion interface version)
     | Inr _ \<Rightarrow> check_interface_versions rest)"

definition check_semantics :: "plugin_manifest \<Rightarrow> 'x registry_error + unit" where
  "check_semantics m =
    (let gated = filter (\<lambda>c. c \<in> set GATED_CAPABILITY_TAGS) (pm_capability_tags m)
     in if gated \<noteq> [] then Inl (GatedTags gated)
        else check_interface_versions (pm_core_interfaces m))"

text \<open>\<^verbatim>\<open>validate_manifest\<close> on a typed document: the schema first, then the semantic checks.\<close>

definition validate_manifest ::
    "(plugin_manifest \<Rightarrow> bool) \<Rightarrow> plugin_manifest \<Rightarrow> 'x registry_error + unit" where
  "validate_manifest schema_ok m =
    (if \<not> schema_ok m then Inl SchemaInvalid else check_semantics m)"

section \<open>The registry\<close>

record 'x registry =
  reg_provided :: "(string, string) dict option"
  reg_require_signature :: bool
  reg_verifier :: "(plugin_manifest \<Rightarrow> 'x option) option"
  reg_by_name :: "(string, plugin_manifest) dict"

definition registry_init ::
    "(string, string) dict option \<Rightarrow> bool \<Rightarrow> (plugin_manifest \<Rightarrow> 'x option) option \<Rightarrow> 'x registry" where
  "registry_init provided require_signature verifier =
    \<lparr>reg_provided = provided, reg_require_signature = require_signature,
     reg_verifier = verifier, reg_by_name = []\<rparr>"

definition negotiate :: "'x registry \<Rightarrow> plugin_manifest \<Rightarrow> 'x registry_error + unit" where
  "negotiate reg m =
    (case assert_core_compatible (pm_core_interfaces m) (reg_provided reg) of
       Inr u \<Rightarrow> Inr u
     | Inl (IncompatibleCoreInterface ps) \<Rightarrow> Inl (IncompatibleManifest ps)
     | Inl (BadVersion v) \<Rightarrow> Inl (ProvidedVersionError v))"

definition unsigned :: "plugin_manifest \<Rightarrow> bool" where
  "unsigned m = (case pm_signature m of None \<Rightarrow> True | Some s \<Rightarrow> sig_scheme s = UNSIGNED)"

definition check_signature :: "'x registry \<Rightarrow> plugin_manifest \<Rightarrow> 'x registry_error + unit" where
  "check_signature reg m =
    (if reg_require_signature reg \<and> unsigned m then Inl UnsignedManifest
     else (case reg_verifier reg of
             None \<Rightarrow> Inr ()
           | Some verifier \<Rightarrow>
               if pm_signature m = None then Inr ()
               else (case verifier m of None \<Rightarrow> Inr () | Some x \<Rightarrow> Inl (VerifierRaised x))))"

text \<open>\<^verbatim>\<open>PluginRegistry.register\<close>: every gate, then the name; the store is written last.\<close>

definition register ::
    "(plugin_manifest \<Rightarrow> bool) \<Rightarrow> 'x registry \<Rightarrow> plugin_manifest
      \<Rightarrow> 'x registry_error + plugin_manifest \<times> 'x registry" where
  "register schema_ok reg m =
    rbind (validate_manifest schema_ok m) (\<lambda>_.
    rbind (negotiate reg m) (\<lambda>_.
    rbind (check_signature reg m) (\<lambda>_.
      if pm_name m \<in> set (dict_keys (reg_by_name reg)) then Inl (AlreadyRegistered (pm_name m))
      else Inr (m, reg\<lparr>reg_by_name := dict_set (reg_by_name reg) (pm_name m) m\<rparr>))))"

definition registry_resolve :: "'x registry \<Rightarrow> string \<Rightarrow> 'x registry_error + plugin_manifest" where
  "registry_resolve reg name =
    (case dict_get (reg_by_name reg) name of
       None \<Rightarrow> Inl (NotRegistered name)
     | Some m \<Rightarrow> Inr m)"

definition by_kind :: "'x registry \<Rightarrow> PluginKind \<Rightarrow> plugin_manifest list" where
  "by_kind reg kind = filter (\<lambda>m. pm_kind m = kind) (dict_values (reg_by_name reg))"

definition registry_manifests :: "'x registry \<Rightarrow> plugin_manifest list" where
  "registry_manifests reg = dict_values (reg_by_name reg)"

section \<open>Lemmas\<close>

lemma interfaces_satisfied_true:
  "(interfaces_satisfied declared ifs = Inr True) =
    (\<forall>(n, r) \<in> set ifs. \<exists>d. dict_get declared n = Some d \<and> check_compatible r d = Inr True)"
  by (induction ifs) (auto simp: rbind_Inr split: option.splits if_splits)

lemma manifest_satisfies_true:
  "(manifest_satisfies m ifs tags = Inr True) =
    ((\<forall>(n, r) \<in> set ifs. \<exists>d. dict_get (pm_core_interfaces m) n = Some d
        \<and> check_compatible r d = Inr True)
     \<and> set tags \<subseteq> tag_value ` set (pm_capability_tags m))"
  by (auto simp: manifest_satisfies_def rbind_Inr interfaces_satisfied_true [symmetric] list_all_iff)

lemma check_interface_versions_ok:
  "(check_interface_versions ifs = Inr ()) = (\<forall>(i, v) \<in> set ifs. is_ok (parse_version v))"
  by (induction ifs rule: check_interface_versions.induct) (auto split: sum.splits simp: is_ok_iff)

definition gated :: "plugin_manifest \<Rightarrow> bool" where
  "gated m = (set (pm_capability_tags m) \<inter> set GATED_CAPABILITY_TAGS \<noteq> {})"

lemma check_semantics_ok:
  "(check_semantics m = Inr ()) =
    (\<not> gated m \<and> (\<forall>(i, v) \<in> set (pm_core_interfaces m). is_ok (parse_version v)))"
  by (auto simp: check_semantics_def gated_def Let_def filter_empty_conv check_interface_versions_ok)

lemma negotiate_ok:
  "(negotiate reg m = Inr ()) =
    (assert_core_compatible (pm_core_interfaces m) (reg_provided reg) = Inr ())"
  by (auto simp: negotiate_def split: sum.splits compat_error.splits)

definition verified_by :: "(plugin_manifest \<Rightarrow> 'x option) option \<Rightarrow> plugin_manifest \<Rightarrow> bool" where
  "verified_by v m =
    (case v of None \<Rightarrow> True | Some f \<Rightarrow> pm_signature m = None \<or> f m = None)"

lemma check_signature_ok:
  "(check_signature reg m = Inr ()) =
    ((reg_require_signature reg \<longrightarrow> \<not> unsigned m) \<and> verified_by (reg_verifier reg) m)"
  by (auto simp: check_signature_def verified_by_def split: option.splits)

text \<open>What a manifest in the store has passed.\<close>

definition admissible :: "(plugin_manifest \<Rightarrow> bool) \<Rightarrow> 'x registry \<Rightarrow> plugin_manifest \<Rightarrow> bool" where
  "admissible schema_ok reg m =
    (schema_ok m \<and> \<not> gated m
     \<and> assert_core_compatible (pm_core_interfaces m) (reg_provided reg) = Inr ()
     \<and> (reg_require_signature reg \<longrightarrow> \<not> unsigned m)
     \<and> verified_by (reg_verifier reg) m)"

lemma assert_ok_parses:
  "assert_core_compatible claimed provided = Inr () \<Longrightarrow> (i, v) \<in> set claimed \<Longrightarrow> is_ok (parse_version v)"
  by (fastforce simp: assert_ok_iff check_compatible_Inr is_ok_iff)

lemma validate_manifest_ok:
  "(validate_manifest schema_ok m = Inr ()) =
    (schema_ok m \<and> \<not> gated m \<and> (\<forall>(i, v) \<in> set (pm_core_interfaces m). is_ok (parse_version v)))"
  by (simp add: validate_manifest_def check_semantics_ok)

lemma register_ok:
  "(register schema_ok reg m = Inr (m', reg')) =
    (admissible schema_ok reg m \<and> pm_name m \<notin> set (dict_keys (reg_by_name reg)) \<and> m' = m
     \<and> reg' = reg\<lparr>reg_by_name := reg_by_name reg @ [(pm_name m, m)]\<rparr>)"
  by (auto simp: register_def rbind_Inr validate_manifest_ok negotiate_ok check_signature_ok
      admissible_def dict_set_new dest: assert_ok_parses)

text \<open>The registry's invariant, and the states its operations reach.\<close>

definition registry_inv :: "(plugin_manifest \<Rightarrow> bool) \<Rightarrow> 'x registry \<Rightarrow> bool" where
  "registry_inv schema_ok reg =
    (dict_wf (reg_by_name reg)
     \<and> (\<forall>(n, m) \<in> set (reg_by_name reg). n = pm_name m \<and> admissible schema_ok reg m))"

lemma registry_inv_init [inv_intros]: "registry_inv schema_ok (registry_init p r v)"
  by (simp add: registry_inv_def registry_init_def)

lemma admissible_by_name [simp]:
  "admissible schema_ok (reg\<lparr>reg_by_name := d\<rparr>) m = admissible schema_ok reg m"
  by (simp add: admissible_def)

lemma registry_inv_register [inv_intros]:
  "registry_inv schema_ok reg \<Longrightarrow> register schema_ok reg m = Inr (m', reg') \<Longrightarrow> registry_inv schema_ok reg'"
  by (auto simp: register_ok registry_inv_def)

text \<open>A run registers manifests one after the other; a refused one leaves the registry as it was.\<close>

fun register_all :: "(plugin_manifest \<Rightarrow> bool) \<Rightarrow> 'x registry \<Rightarrow> plugin_manifest list \<Rightarrow> 'x registry" where
  "register_all schema_ok reg [] = reg"
| "register_all schema_ok reg (m # ms) =
    (case register schema_ok reg m of
       Inl _ \<Rightarrow> register_all schema_ok reg ms
     | Inr (_, reg') \<Rightarrow> register_all schema_ok reg' ms)"

lemma registry_inv_register_all [inv_intros]:
  "registry_inv schema_ok reg \<Longrightarrow> registry_inv schema_ok (register_all schema_ok reg ms)"
  by (induction ms arbitrary: reg) (auto split: sum.splits intro: registry_inv_register)

lemma register_config:
  "register schema_ok reg m = Inr (m', reg') \<Longrightarrow>
    reg_provided reg' = reg_provided reg \<and> reg_require_signature reg' = reg_require_signature reg
    \<and> reg_verifier reg' = reg_verifier reg"
  by (auto simp: register_ok)

lemma register_all_config:
  "reg_provided (register_all schema_ok reg ms) = reg_provided reg
   \<and> reg_require_signature (register_all schema_ok reg ms) = reg_require_signature reg
   \<and> reg_verifier (register_all schema_ok reg ms) = reg_verifier reg"
  by (induction ms arbitrary: reg) (auto split: sum.splits dest: register_config)

lemma admissible_config:
  "reg_provided r = reg_provided s \<Longrightarrow> reg_require_signature r = reg_require_signature s \<Longrightarrow>
   reg_verifier r = reg_verifier s \<Longrightarrow> admissible schema_ok r m = admissible schema_ok s m"
  by (simp add: admissible_def)

lemma registry_resolve_ok:
  "registry_inv schema_ok reg \<Longrightarrow> registry_resolve reg n = Inr m \<Longrightarrow>
    pm_name m = n \<and> admissible schema_ok reg m"
  by (force simp: registry_inv_def registry_resolve_def split: option.splits dest: map_of_SomeD)

lemma register_resolve:
  "register schema_ok reg m = Inr (m', reg') \<Longrightarrow> registry_resolve reg' (pm_name m) = Inr m"
  by (auto simp: register_ok registry_resolve_def map_add_def split: option.splits dest: dict_get_key)

lemma register_resolve_other:
  "register schema_ok reg m = Inr (m', reg') \<Longrightarrow> n \<noteq> pm_name m \<Longrightarrow>
    registry_resolve reg' n = registry_resolve reg n"
  by (auto simp: register_ok registry_resolve_def map_add_def split: option.splits)

section \<open>Properties\<close>

definition demo_manifest :: plugin_manifest where
  "demo_manifest =
    \<lparr>pm_name = ''lawnmower'', pm_version = ''1.0.0'', pm_kind = POLICY,
     pm_core_interfaces = [(''policy'', ''0.1.0'')], pm_inputs = [], pm_outputs = [],
     pm_capability_tags = [MOBILITY_WHEELED], pm_determinism_class = None, pm_regimes = [],
     pm_description = None, pm_license = None, pm_provenance = None,
     pm_signature = Some \<lparr>sig_scheme = SIGSTORE_COSIGN, sig_kind = COSIGN_SIGNATURE, sig_value = None,
       sig_payload = None, sig_certificate = None, sig_digest = None\<rparr>,
     pm_signatures = [], pm_attributes = []\<rparr>"

text \<open>
  C35: Every load is gated: whatever sequence of manifests is offered to a registry, a plugin it
  later resolves has the asked name, is schema valid, declares no gated capability tag, claims only
  Core interfaces this Core satisfies, and, where signatures are required, is signed and passed the
  host's verifier.
\<close>

theorem resolved_plugin_passed_every_gate:
  assumes "registry_resolve (register_all schema_ok (registry_init provided require_sig verifier) ms) n
      = Inr m"
  shows "pm_name m = n \<and> schema_ok m
    \<and> set (pm_capability_tags m) \<inter> set GATED_CAPABILITY_TAGS = {}
    \<and> assert_core_compatible (pm_core_interfaces m) provided = Inr ()
    \<and> (require_sig \<longrightarrow> \<not> unsigned m) \<and> verified_by verifier m"
proof -
  let ?reg = "register_all schema_ok (registry_init provided require_sig verifier) ms"
  have "registry_inv schema_ok ?reg"
    by (intro registry_inv_register_all registry_inv_init)
  from registry_resolve_ok [OF this assms]
  show ?thesis
    using register_all_config [of schema_ok "registry_init provided require_sig verifier" ms]
    by (auto simp: admissible_def gated_def registry_init_def)
qed

definition demo_registry :: "unit registry" where
  "demo_registry = registry_init None True None"

definition demo_lookup :: "unit registry_error + plugin_manifest" where
  "demo_lookup = registry_resolve (register_all (\<lambda>_. True) demo_registry [demo_manifest]) ''lawnmower''"

theorem resolved_plugin_passed_every_gate_witness:
  "demo_lookup = Inr demo_manifest
   \<and> set (pm_capability_tags demo_manifest) \<inter> set GATED_CAPABILITY_TAGS = {}"
proof -
  have "demo_lookup = Inr demo_manifest"
    by code_simp
  with resolved_plugin_passed_every_gate [of "\<lambda>_. True" None True "None :: (plugin_manifest \<Rightarrow> unit option) option"
      "[demo_manifest]" "''lawnmower''" demo_manifest]
  show ?thesis by (simp add: demo_lookup_def demo_registry_def)
qed

text \<open>
  Registration is all or nothing: it succeeds exactly for an admissible manifest with an unused
  name, then that name resolves to the manifest and every other name resolves as before; nothing
  else changes.
\<close>

theorem register_functional:
  "(register schema_ok reg m = Inr (m', reg')) =
    (admissible schema_ok reg m \<and> pm_name m \<notin> set (dict_keys (reg_by_name reg)) \<and> m' = m
     \<and> reg' = reg\<lparr>reg_by_name := reg_by_name reg @ [(pm_name m, m)]\<rparr>
     \<and> registry_resolve reg' (pm_name m) = (Inr m :: 'x registry_error + plugin_manifest)
     \<and> (\<forall>n. n \<noteq> pm_name m \<longrightarrow> registry_resolve reg' n = registry_resolve (reg :: 'x registry) n))"
  using register_resolve [of schema_ok reg m m' reg'] register_resolve_other [of schema_ok reg m m' reg']
  unfolding register_ok by blast

theorem register_functional_witness:
  "register (\<lambda>_. True) demo_registry demo_manifest
    = Inr (demo_manifest, demo_registry\<lparr>reg_by_name := [(''lawnmower'', demo_manifest)]\<rparr>)"
proof -
  let ?reg = demo_registry
  have "admissible (\<lambda>_. True) ?reg demo_manifest"
    by code_simp
  then show ?thesis
    unfolding register_functional
    by (auto simp: demo_registry_def registry_init_def demo_manifest_def registry_resolve_def)
qed

text \<open>
  The signature gate reads only the singular \<^verbatim>\<open>signature\<close> block: a manifest that carries its
  attestations in the plural \<^verbatim>\<open>signatures\<close> list alone is never registered where a signature is
  required, and where it is not required the verifier does not see it.
\<close>

theorem plural_signatures_not_honoured:
  assumes "pm_signature m = None"
  shows "(reg_require_signature reg \<longrightarrow> \<not> is_ok (register schema_ok reg m))
    \<and> (\<not> reg_require_signature reg \<longrightarrow> check_signature reg m = Inr ())"
  using assms
  by (auto simp: is_ok_iff register_ok admissible_def unsigned_def check_signature_ok verified_by_def
      split: option.splits)

theorem plural_signatures_not_honoured_witness:
  "\<not> is_ok (register (\<lambda>_. True) demo_registry
      (demo_manifest\<lparr>pm_signature := None,
         pm_signatures := [\<lparr>sig_scheme = SIGSTORE_COSIGN, sig_kind = COSIGN_SIGNATURE, sig_value = None,
           sig_payload = None, sig_certificate = None, sig_digest = None\<rparr>]\<rparr>))"
  using plural_signatures_not_honoured [of "demo_manifest\<lparr>pm_signature := None,
      pm_signatures := [\<lparr>sig_scheme = SIGSTORE_COSIGN, sig_kind = COSIGN_SIGNATURE, sig_value = None,
        sig_payload = None, sig_certificate = None, sig_digest = None\<rparr>]\<rparr>"
      "demo_registry" "\<lambda>_. True"]
  by (simp add: demo_registry_def registry_init_def)

end
