(* ===== verification/Hub_Names.thy ===== *)
theory Hub_Names
  imports Platform_Prelude
begin

text \<open>
  The artifact-name rule of \<^verbatim>\<open>hub/registry/_names.py\<close>: the kebab-case pattern and the version
  suffix as matchers, the validator and the suggestion it makes.
\<close>

section \<open>The rule\<close>

definition is_lower :: "char \<Rightarrow> bool" where
  "is_lower c = (97 \<le> (of_char c :: nat) \<and> (of_char c :: nat) \<le> 122)"

definition is_name_char :: "char \<Rightarrow> bool" where
  "is_name_char c = (is_lower c \<or> is_digit c)"

text \<open>\<^verbatim>\<open>[a-z0-9]*(-[a-z0-9]+)*\<close>, then the whole pattern.\<close>

fun kebab_tail :: "string \<Rightarrow> bool" where
  "kebab_tail [] = True"
| "kebab_tail [c] = is_name_char c"
| "kebab_tail (c # d # cs) =
    (if is_name_char c then kebab_tail (d # cs)
     else c = CHR ''-'' \<and> is_name_char d \<and> kebab_tail cs)"

definition ARTIFACT_NAME_PATTERN :: "string \<Rightarrow> bool" where
  "ARTIFACT_NAME_PATTERN name =
    (case name of [] \<Rightarrow> False | c # cs \<Rightarrow> is_lower c \<and> kebab_tail cs)"

text \<open>\<^verbatim>\<open>-v\d+$\<close>, searched from the end: the text before the suffix, if there is one.\<close>

definition version_suffix :: "string \<Rightarrow> string option" where
  "version_suffix name =
    (let r = rev name; digits = takeWhile is_digit r; rest = dropWhile is_digit r
     in if digits \<noteq> [] \<and> starts_with ''v-'' rest then Some (rev (drop 2 rest)) else None)"

definition is_valid_artifact_name :: "string \<Rightarrow> bool" where
  "is_valid_artifact_name name = (ARTIFACT_NAME_PATTERN name \<and> version_suffix name = None)"

definition to_lower :: "char \<Rightarrow> char" where
  "to_lower c = (if 65 \<le> (of_char c :: nat) \<and> (of_char c :: nat) \<le> 90 then char_of (of_char c + 32 :: nat) else c)"

text \<open>\<^verbatim>\<open>s.rsplit(c, 1)[-1]\<close>.\<close>

definition after_last :: "char \<Rightarrow> string \<Rightarrow> string" where
  "after_last c s = last (split_on c s)"

text \<open>\<^verbatim>\<open>re.sub(r"-{2,}", "-", s)\<close>.\<close>

fun collapse :: "string \<Rightarrow> string" where
  "collapse (c # d # cs) =
    (if c = CHR ''-'' \<and> d = CHR ''-'' then collapse (d # cs) else c # collapse (d # cs))"
| "collapse s = s"

text \<open>\<^verbatim>\<open>re.sub(r"-v\d+$", "", s)\<close>; the dollar also matches before a final newline.\<close>

definition drop_version :: "string \<Rightarrow> string" where
  "drop_version s =
    (case version_suffix s of
       Some p \<Rightarrow> p
     | None \<Rightarrow>
         if s \<noteq> [] \<and> of_char (last s) = (10::nat) then
           (case version_suffix (butlast s) of Some p \<Rightarrow> p @ [last s] | None \<Rightarrow> s)
         else s)"

definition strip_hyphens :: "string \<Rightarrow> string" where
  "strip_hyphens s =
    rev (dropWhile (\<lambda>c. c = CHR ''-'') (rev (dropWhile (\<lambda>c. c = CHR ''-'') s)))"

definition suggest :: "string \<Rightarrow> string option" where
  "suggest name =
    (let candidate = map to_lower name;
         candidate = (if CHR ''.'' \<in> set candidate then after_last CHR ''.'' candidate else candidate);
         candidate = (if CHR ''/'' \<in> set candidate then after_last CHR ''/'' candidate else candidate);
         candidate = map (\<lambda>c. if c = CHR ''_'' then CHR ''-'' else c) candidate;
         candidate = drop_version candidate;
         candidate = map (\<lambda>c. if is_name_char c \<or> c = CHR ''-'' then c else CHR ''-'') candidate;
         candidate = collapse (strip_hyphens candidate)
     in if candidate \<noteq> [] \<and> is_valid_artifact_name candidate then Some candidate else None)"

datatype name_error =
    CarriesVersion string "string option"
  | NotKebab string "string option"

definition validate_artifact_name :: "string \<Rightarrow> name_error + string" where
  "validate_artifact_name name =
    (if is_valid_artifact_name name then Inr name
     else
       let suggestion = suggest name;
           detail = (case suggestion of None \<Rightarrow> None | Some s \<Rightarrow> if s \<noteq> name then Some s else None)
       in if ARTIFACT_NAME_PATTERN name then Inl (CarriesVersion name detail)
          else Inl (NotKebab name detail))"

section \<open>The pattern by segments\<close>

lemma hyphen_not_name_char [simp]: "\<not> is_name_char CHR ''-''"
  by (simp add: is_name_char_def is_lower_def is_digit_def)

lemma split_on_Cons [simp]:
  "split_on h (c # cs) =
    (if c = h then [] # split_on h cs else (c # hd (split_on h cs)) # tl (split_on h cs))"
  by (cases "split_on h cs") auto

declare split_on.simps(2) [simp del]

definition segment_ok :: "string \<Rightarrow> bool" where
  "segment_ok s = (s \<noteq> [] \<and> list_all is_name_char s)"

lemma kebab_tail_segments:
  "kebab_tail s = (list_all is_name_char (hd (split_on CHR ''-'' s))
     \<and> list_all segment_ok (tl (split_on CHR ''-'' s)))"
proof (induction s rule: kebab_tail.induct)
  case 1
  show ?case by simp
next
  case (2 c)
  then show ?case by (cases "c = CHR ''-''") (auto simp: segment_ok_def)
next
  case (3 c d cs)
  then show ?case
    by (cases "is_name_char c"; cases "d = CHR ''-''"; cases "c = CHR ''-''")
      (auto simp: segment_ok_def neq_Nil_conv [of "split_on CHR ''-'' cs"])
qed

lemma lower_name_char: "is_lower c \<Longrightarrow> is_name_char c"
  by (simp add: is_name_char_def)

lemma pattern_segments:
  "ARTIFACT_NAME_PATTERN s = (list_all segment_ok (split_on CHR ''-'' s) \<and> s \<noteq> [] \<and> is_lower (hd s))"
proof (cases s)
  case Nil
  then show ?thesis by (simp add: ARTIFACT_NAME_PATTERN_def)
next
  case (Cons c cs)
  show ?thesis
  proof (cases "c = CHR ''-''")
    case True
    then show ?thesis by (simp add: Cons ARTIFACT_NAME_PATTERN_def is_lower_def)
  next
    case False
    then show ?thesis
      using lower_name_char [of c]
      by (auto simp: Cons ARTIFACT_NAME_PATTERN_def kebab_tail_segments segment_ok_def)
  qed
qed

section \<open>The version suffix\<close>

lemma version_suffix_Some:
  "(version_suffix s = Some p) = (\<exists>ds. s = p @ ''-v'' @ ds \<and> ds \<noteq> [] \<and> list_all is_digit ds)"
proof
  assume a: "version_suffix s = Some p"
  let ?r = "rev s"
  have ne: "takeWhile is_digit ?r \<noteq> []" and sw: "starts_with ''v-'' (dropWhile is_digit ?r)"
    and p: "p = rev (drop 2 (dropWhile is_digit ?r))"
    using a by (auto simp: version_suffix_def Let_def split: if_splits)
  obtain t where t: "dropWhile is_digit ?r = ''v-'' @ t"
    using sw by (auto simp: starts_with_ex)
  have "?r = takeWhile is_digit ?r @ ''v-'' @ t"
    using takeWhile_dropWhile_id [of is_digit ?r] t by simp
  then have "s = rev (takeWhile is_digit ?r @ ''v-'' @ t)" by (metis rev_rev_ident)
  then have "s = p @ ''-v'' @ rev (takeWhile is_digit ?r)" using p t by simp
  moreover have "list_all is_digit (rev (takeWhile is_digit ?r))"
    by (auto simp: list_all_iff dest: set_takeWhileD)
  ultimately show "\<exists>ds. s = p @ ''-v'' @ ds \<and> ds \<noteq> [] \<and> list_all is_digit ds"
    using ne by auto
next
  assume "\<exists>ds. s = p @ ''-v'' @ ds \<and> ds \<noteq> [] \<and> list_all is_digit ds"
  then obtain ds where s: "s = p @ ''-v'' @ ds" "ds \<noteq> []" "list_all is_digit ds" by blast
  have v: "\<not> is_digit CHR ''v''" by (simp add: is_digit_def)
  have "takeWhile is_digit (rev ds @ ''v-'' @ rev p) = rev ds"
    using s(3) v by (subst takeWhile_append2) (auto simp: list_all_iff)
  moreover have "dropWhile is_digit (rev ds @ ''v-'' @ rev p) = ''v-'' @ rev p"
    using s(3) v by (subst dropWhile_append2) (auto simp: list_all_iff)
  ultimately show "version_suffix s = Some p"
    using s(1,2) by (simp add: version_suffix_def starts_with_def)
qed

lemma split_on_last: "c \<notin> set t \<Longrightarrow> split_on c (s @ c # t) = split_on c s @ [t]"
  by (induction s) (auto simp: split_on_plain split: list.splits)

text \<open>A segment of the form \<^verbatim>\<open>v\<close> and digits.\<close>

definition version_segment :: "string \<Rightarrow> bool" where
  "version_segment s = (\<exists>ds. s = CHR ''v'' # ds \<and> ds \<noteq> [] \<and> list_all is_digit ds)"

lemma version_suffix_segments:
  "(version_suffix s \<noteq> None) =
    (length (split_on CHR ''-'' s) \<ge> 2 \<and> version_segment (last (split_on CHR ''-'' s)))"
proof
  assume "version_suffix s \<noteq> None"
  then obtain p ds where s: "s = p @ ''-v'' @ ds" "ds \<noteq> []" "list_all is_digit ds"
    using version_suffix_Some by blast
  have "CHR ''-'' \<notin> set ds"
    using s(3) by (auto simp: list_all_iff is_digit_def)
  then have "split_on CHR ''-'' s = split_on CHR ''-'' p @ [CHR ''v'' # ds]"
    using split_on_last [of "CHR ''-''" "CHR ''v'' # ds" p] by (simp add: s(1))
  then show "length (split_on CHR ''-'' s) \<ge> 2 \<and> version_segment (last (split_on CHR ''-'' s))"
    using s(2,3) by (cases "split_on CHR ''-'' p") (auto simp: version_segment_def)
next
  assume a: "length (split_on CHR ''-'' s) \<ge> 2 \<and> version_segment (last (split_on CHR ''-'' s))"
  let ?l = "split_on CHR ''-'' s"
  have l: "?l = butlast ?l @ [last ?l]" "butlast ?l \<noteq> []"
    using a by (auto simp flip: length_greater_0_conv)
  have "join_on c (xs @ [y]) = join_on c xs @ c # y" if "xs \<noteq> []" for c xs and y :: string
    using that by (induction c xs rule: join_on.induct) auto
  then have "s = join_on CHR ''-'' (butlast ?l) @ CHR ''-'' # last ?l"
    using l by (metis join_on_split)
  then show "version_suffix s \<noteq> None"
    using a version_suffix_Some [of s "join_on CHR ''-'' (butlast ?l)"]
    by (auto simp: version_segment_def)
qed

section \<open>Suggestions\<close>

lemma name_char_not:
  "is_name_char c \<Longrightarrow> c \<noteq> CHR ''.'' \<and> c \<noteq> CHR ''/'' \<and> c \<noteq> CHR ''_'' \<and> to_lower c = c
    \<and> of_char c \<noteq> (10::nat)"
  by (auto simp: is_name_char_def is_lower_def is_digit_def to_lower_def)

lemma pattern_chars: "ARTIFACT_NAME_PATTERN s \<Longrightarrow> c \<in> set s \<Longrightarrow> is_name_char c \<or> c = CHR ''-''"
proof (cases s)
  case (Cons x xs)
  have "kebab_tail xs \<Longrightarrow> c \<in> set xs \<Longrightarrow> is_name_char c \<or> c = CHR ''-''"
    by (induction xs rule: kebab_tail.induct) (auto split: if_splits)
  then show "ARTIFACT_NAME_PATTERN s \<Longrightarrow> c \<in> set s \<Longrightarrow> is_name_char c \<or> c = CHR ''-''"
    using lower_name_char by (auto simp: Cons ARTIFACT_NAME_PATTERN_def)
qed simp

lemma kebab_collapse: "is_name_char c \<Longrightarrow> kebab_tail cs \<Longrightarrow> collapse (c # cs) = c # cs"
proof (induction cs arbitrary: c rule: kebab_tail.induct)
  case 1
  then show ?case by simp
next
  case (2 d)
  then show ?case by (auto simp: is_name_char_def is_lower_def is_digit_def)
next
  case (3 d e es)
  show ?case
  proof (cases "is_name_char d")
    case True
    with 3 have "collapse (d # e # es) = d # e # es" by simp
    with True show ?thesis
      using 3(3) hyphen_not_name_char by (metis collapse.simps(1))
  next
    case False
    with 3 have "d = CHR ''-''" "is_name_char e" "kebab_tail es" by simp_all
    moreover from this 3(2) False have "collapse (e # es) = e # es" by simp
    ultimately show ?thesis
      using 3(3) hyphen_not_name_char by (metis collapse.simps(1))
  qed
qed

lemma kebab_last: "is_name_char c \<Longrightarrow> kebab_tail cs \<Longrightarrow> is_name_char (last (c # cs))"
  by (induction cs arbitrary: c rule: kebab_tail.induct) (auto split: if_splits)

lemma suggest_valid:
  assumes v: "is_valid_artifact_name s"
  shows "suggest s = Some s"
proof -
  obtain c cs where s: "s = c # cs" and c: "is_lower c" "is_name_char c" and t: "kebab_tail cs"
    using v lower_name_char by (auto simp: is_valid_artifact_name_def ARTIFACT_NAME_PATTERN_def split: list.splits)
  have ch: "x \<in> set s \<Longrightarrow> is_name_char x \<or> x = CHR ''-''" for x
    using v pattern_chars by (auto simp: is_valid_artifact_name_def)
  have chars: "x \<noteq> CHR ''.'' \<and> x \<noteq> CHR ''/'' \<and> x \<noteq> CHR ''_'' \<and> to_lower x = x \<and> of_char x \<noteq> (10::nat)"
    if "x \<in> set s" for x
    using ch [OF that] name_char_not [of x] by (auto simp: to_lower_def)
  have m: "map to_lower s = s" "map (\<lambda>c. if c = CHR ''_'' then CHR ''-'' else c) s = s"
    "map (\<lambda>c. if is_name_char c \<or> c = CHR ''-'' then c else CHR ''-'') s = s"
    using chars ch by (auto intro!: map_idI)
  have n: "CHR ''.'' \<notin> set s" "CHR ''/'' \<notin> set s"
    using chars by blast+
  have "s \<noteq> []" by (simp add: s)
  then have "of_char (last s) \<noteq> (10::nat)"
    using chars last_in_set by blast
  then have d: "drop_version s = s"
    using v by (simp add: drop_version_def is_valid_artifact_name_def)
  have l: "last s \<noteq> CHR ''-''"
    using kebab_last [OF c(2) t] by (auto simp: s)
  have "dropWhile (\<lambda>c. c = CHR ''-'') s = s"
    using c by (auto simp: s is_lower_def)
  moreover have "dropWhile (\<lambda>c. c = CHR ''-'') (rev s) = rev s"
    using l hd_rev [of s] by (simp add: dropWhile_eq_self_iff)
  ultimately have st: "strip_hyphens s = s"
    by (simp add: strip_hyphens_def)
  have "collapse s = s"
    using kebab_collapse [OF c(2) t] by (simp add: s)
  then show ?thesis
    using v \<open>s \<noteq> []\<close> by (simp add: suggest_def m n d st Let_def)
qed

section \<open>Properties\<close>

text \<open>
  The name rule means what it says: a name is valid exactly when it splits at its hyphens into
  non-empty segments of lowercase letters and digits, it starts with a letter, and it does not end
  in a separate version segment (a \<^verbatim>\<open>v\<close> and digits); a valid name is returned unchanged, any other is
  refused, and a name the suggester proposes in the refusal is itself valid and a different one. The
  suggester leaves every valid name alone.
\<close>

theorem artifact_name_rule:
  "(validate_artifact_name s = Inr t) =
      (t = s \<and> s \<noteq> [] \<and> is_lower (hd s) \<and> list_all segment_ok (split_on CHR ''-'' s)
        \<and> \<not> (length (split_on CHR ''-'' s) \<ge> 2 \<and> version_segment (last (split_on CHR ''-'' s))))
   \<and> (validate_artifact_name s = Inl (CarriesVersion s (Some u)) \<or> validate_artifact_name s = Inl (NotKebab s (Some u))
        \<longrightarrow> is_valid_artifact_name u \<and> u \<noteq> s)
   \<and> (is_valid_artifact_name s \<longrightarrow> suggest s = Some s)"
proof -
  have "(validate_artifact_name s = Inr t) = (t = s \<and> is_valid_artifact_name s)"
    by (auto simp: validate_artifact_name_def Let_def)
  moreover have "suggest s = Some u \<Longrightarrow> is_valid_artifact_name u"
    by (auto simp: suggest_def Let_def split: if_splits)
  then have "validate_artifact_name s = Inl (CarriesVersion s (Some u)) \<or> validate_artifact_name s = Inl (NotKebab s (Some u))
      \<Longrightarrow> is_valid_artifact_name u \<and> u \<noteq> s"
    by (auto simp: validate_artifact_name_def Let_def split: if_splits option.splits)
  ultimately show ?thesis
    using version_suffix_segments [of s] suggest_valid [of s]
    by (auto simp: is_valid_artifact_name_def pattern_segments)
qed

theorem artifact_name_rule_witness:
  "validate_artifact_name ''water-ice-v1'' = Inl (CarriesVersion ''water-ice-v1'' (Some ''water-ice''))
    \<and> is_valid_artifact_name ''water-ice''"
proof -
  have "validate_artifact_name ''water-ice-v1'' = Inl (CarriesVersion ''water-ice-v1'' (Some ''water-ice''))"
    by code_simp
  with artifact_name_rule [of "''water-ice-v1''" _ "''water-ice''"] show ?thesis by blast
qed

end
