(* ===== verification/Hub_Catalog.thy ===== *)
theory Hub_Catalog
  imports Plugin_Registry Hub_Names
begin

text \<open>
  Discovery: the catalog of \<^verbatim>\<open>hub/index/_catalog.py\<close> with its ingestion (\<^verbatim>\<open>_ingest.py\<close>), search
  (\<^verbatim>\<open>hub/search/_search.py\<close> over \<^verbatim>\<open>hub/_embed.py\<close>) on the in-memory backend, and resolution
  (\<^verbatim>\<open>hub/resolve/_resolve.py\<close>). The embedding provider is the protocol's parameter with rational
  vectors; the \<^verbatim>\<open>packaging\<close> library's version order and specifiers are the \<open>packaging\<close> parameter.
\<close>

section \<open>The catalog\<close>

record catalog_entry =
  ce_manifest :: plugin_manifest
  ce_digest :: string
  ce_publisher :: string
  ce_namespace :: string
  ce_artifact_kind :: "string option"
  ce_downloads :: nat
  ce_deprecated :: bool
  ce_yanked :: bool
  ce_embedding :: "rat list"
  ce_embedding_provider :: string

definition entry_name :: "catalog_entry \<Rightarrow> string" where
  "entry_name e = pm_name (ce_manifest e)"

definition entry_version :: "catalog_entry \<Rightarrow> string" where
  "entry_version e = pm_version (ce_manifest e)"

definition entry_reference :: "catalog_entry \<Rightarrow> string" where
  "entry_reference e = pm_name (ce_manifest e) @ '':'' @ pm_version (ce_manifest e)"

definition entry_kind :: "catalog_entry \<Rightarrow> string" where
  "entry_kind e = kind_value (pm_kind (ce_manifest e))"

definition entry_tags :: "catalog_entry \<Rightarrow> string list" where
  "entry_tags e = map tag_value (pm_capability_tags (ce_manifest e))"

definition entry_satisfies ::
    "catalog_entry \<Rightarrow> (string, string) dict \<Rightarrow> string list \<Rightarrow> compat_error + bool" where
  "entry_satisfies e interfaces capability_tags = manifest_satisfies (ce_manifest e) interfaces capability_tags"

text \<open>\<^verbatim>\<open>InMemoryCatalog\<close>: the entries by reference.\<close>

type_synonym memory_catalog = "(string, catalog_entry) dict"

definition catalog_add :: "memory_catalog \<Rightarrow> catalog_entry \<Rightarrow> memory_catalog" where
  "catalog_add cat e = dict_set cat (entry_reference e) e"

definition catalog_get :: "memory_catalog \<Rightarrow> string \<Rightarrow> catalog_entry option" where
  "catalog_get cat reference = dict_get cat reference"

definition catalog_all :: "memory_catalog \<Rightarrow> catalog_entry list" where
  "catalog_all cat = dict_values cat"

section \<open>Text\<close>

text \<open>The maximal runs of lowercase letters and digits.\<close>

fun name_runs :: "string \<Rightarrow> string list" where
  "name_runs [] = [[]]"
| "name_runs (c # cs) =
    (if is_name_char c then (case name_runs cs of [] \<Rightarrow> [[c]] | t # ts \<Rightarrow> (c # t) # ts)
     else [] # name_runs cs)"

definition tokenize :: "string \<Rightarrow> string list" where
  "tokenize text = filter (\<lambda>t. t \<noteq> []) (name_runs (map to_lower text))"

definition cosine :: "rat list \<Rightarrow> rat list \<Rightarrow> rat" where
  "cosine a b =
    (if a = [] \<or> b = [] \<or> length a \<noteq> length b then 0
     else sum_list (map (\<lambda>(x, y). x * y) (zip a b)))"

definition index_document :: "plugin_manifest \<Rightarrow> string" where
  "index_document m =
    join_on CHR '' '' (filter (\<lambda>p. p \<noteq> [])
      ([pm_name m, case pm_description m of None \<Rightarrow> [] | Some d \<Rightarrow> d]
        @ map tag_value (pm_capability_tags m) @ pm_inputs m @ pm_outputs m))"

record provider =
  provider_name :: string
  embed_text :: "string \<Rightarrow> rat list"

text \<open>
  The constructor of the entry: its \<^verbatim>\<open>digest\<close> and \<^verbatim>\<open>publisher\<close> have \<^verbatim>\<open>min_length=1\<close>, so an empty one
  raises pydantic's \<^verbatim>\<open>ValidationError\<close>, which names every field that fails.
\<close>

datatype entry_error = EmptyFields "string list"

definition make_entry ::
    "plugin_manifest \<Rightarrow> string \<Rightarrow> string \<Rightarrow> string \<Rightarrow> string option \<Rightarrow> provider \<Rightarrow> entry_error + catalog_entry" where
  "make_entry m dg publisher namespace kind backend =
    (let empty = map fst (filter (\<lambda>(f, v). v = []) [(''digest'', dg), (''publisher'', publisher)])
     in if empty \<noteq> [] then Inl (EmptyFields empty)
        else Inr \<lparr>ce_manifest = m, ce_digest = dg, ce_publisher = publisher, ce_namespace = namespace,
              ce_artifact_kind = kind, ce_downloads = 0, ce_deprecated = False, ce_yanked = False,
              ce_embedding = embed_text backend (index_document m),
              ce_embedding_provider = provider_name backend\<rparr>)"

definition ingest ::
    "memory_catalog \<Rightarrow> plugin_manifest \<Rightarrow> string \<Rightarrow> string \<Rightarrow> string \<Rightarrow> string option \<Rightarrow> provider
      \<Rightarrow> entry_error + memory_catalog \<times> catalog_entry" where
  "ingest cat m dg publisher namespace kind backend =
    rbind (make_entry m dg publisher namespace kind backend) (\<lambda>e. Inr (catalog_add cat e, e))"

lemma make_entry_Inr:
  "(\<exists>e. make_entry m dg publisher namespace kind backend = Inr e) = (dg \<noteq> [] \<and> publisher \<noteq> [])"
  by (auto simp: make_entry_def Let_def)

section \<open>Search\<close>

record search_query =
  q_text :: "string option"
  q_semantic :: "string option"
  q_kind :: "string option"
  q_artifact_kind :: "string option"
  q_license :: "string option"
  q_namespace :: "string option"
  q_interfaces :: "(string, string) dict option"
  q_capability_tags :: "string list option"
  q_include_deprecated :: bool
  q_include_yanked :: bool
  q_use_semantic :: bool
  q_limit :: int

definition facet_match :: "catalog_entry \<Rightarrow> search_query \<Rightarrow> bool" where
  "facet_match e q =
    (if ce_yanked e \<and> \<not> q_include_yanked q then False
     else if ce_deprecated e \<and> \<not> q_include_deprecated q then False
     else if q_kind q \<noteq> None \<and> Some (entry_kind e) \<noteq> q_kind q then False
     else if q_artifact_kind q \<noteq> None \<and> ce_artifact_kind e \<noteq> q_artifact_kind q then False
     else if q_license q \<noteq> None \<and> pm_license (ce_manifest e) \<noteq> q_license q then False
     else \<not> (q_namespace q \<noteq> None \<and> Some (ce_namespace e) \<noteq> q_namespace q))"

definition or_empty :: "'a list option \<Rightarrow> 'a list" where
  "or_empty o' = (case o' of None \<Rightarrow> [] | Some xs \<Rightarrow> xs)"

definition capability_match :: "catalog_entry \<Rightarrow> search_query \<Rightarrow> compat_error + bool" where
  "capability_match e q =
    (if or_empty (q_interfaces q) = [] \<and> or_empty (q_capability_tags q) = [] then Inr True
     else entry_satisfies e (or_empty (q_interfaces q)) (or_empty (q_capability_tags q)))"

definition full_text_match :: "catalog_entry \<Rightarrow> search_query \<Rightarrow> bool" where
  "full_text_match e q =
    (if or_empty (q_text q) = [] then True
     else list_all (\<lambda>t. t \<in> set (tokenize (index_document (ce_manifest e)))) (tokenize (or_empty (q_text q))))"

definition lexical_score :: "catalog_entry \<Rightarrow> string list \<Rightarrow> rat" where
  "lexical_score e terms =
    (if terms = [] then 0
     else rat_of_nat (length (filter (\<lambda>t. t \<in> set (tokenize (index_document (ce_manifest e)))) terms))
       / rat_of_nat (length terms))"

fun candidates :: "catalog_entry list \<Rightarrow> search_query \<Rightarrow> compat_error + catalog_entry list" where
  "candidates [] q = Inr []"
| "candidates (e # es) q =
    rbind (if facet_match e q
           then rbind (capability_match e q) (\<lambda>ok. Inr (ok \<and> full_text_match e q))
           else Inr False) (\<lambda>keep.
    rbind (candidates es q) (\<lambda>cs. Inr (if keep then e # cs else cs)))"

text \<open>\<^verbatim>\<open>xs[:limit]\<close>; a negative limit drops from the end.\<close>

definition take_limit :: "int \<Rightarrow> 'a list \<Rightarrow> 'a list" where
  "take_limit limit xs =
    (if 0 \<le> limit then take (nat limit) xs else take (length xs - nat (- limit)) xs)"

definition rank_order :: "(catalog_entry \<times> rat) list \<Rightarrow> (catalog_entry \<times> rat) list" where
  "rank_order scored = sort_key (\<lambda>(e, s). (- s, entry_reference e)) scored"

definition search_catalog ::
    "memory_catalog \<Rightarrow> search_query \<Rightarrow> provider \<Rightarrow> compat_error + (catalog_entry \<times> rat) list" where
  "search_catalog cat q backend =
    rbind (candidates (catalog_all cat) q) (\<lambda>cs.
      let vector = (if or_empty (q_semantic q) \<noteq> [] \<and> q_use_semantic q
                    then Some (embed_text backend (or_empty (q_semantic q))) else None);
          scored = (case vector of None \<Rightarrow> [] | Some v \<Rightarrow> map (\<lambda>e. (e, cosine v (ce_embedding e))) cs);
          terms = tokenize (or_empty (q_text q) @ '' '' @ or_empty (q_semantic q))
      in if list_ex (\<lambda>(e, s). s > 0) scored then Inr (take_limit (q_limit q) (rank_order scored))
         else Inr (take_limit (q_limit q) (rank_order (map (\<lambda>e. (e, lexical_score e terms)) cs))))"

section \<open>Resolution\<close>

record 'v packaging =
  pep440_version :: "string \<Rightarrow> 'v option"
  pep440_specifier :: "string \<Rightarrow> ('v \<Rightarrow> bool \<Rightarrow> bool) option"

record resolution_request =
  rq_name :: string
  rq_version_spec :: string
  rq_interfaces :: "(string, string) dict option"
  rq_capability_tags :: "string list"
  rq_provided_interfaces :: "(string, string) dict option"
  rq_include_prereleases :: bool

record resolved_artifact =
  ra_reference :: string
  ra_digest :: string
  ra_version :: string

datatype resolution_error =
    UnresolvableRequest "compat_problem list"
  | InvalidSpecifier string
  | NothingResolves string string
  | MalformedVersion string

text \<open>
  Only \<^verbatim>\<open>IncompatibleCoreInterface\<close> is caught: the \<^verbatim>\<open>ValueError\<close> of a malformed interface version
  leaves \<^verbatim>\<open>resolve\<close> (here \<open>MalformedVersion\<close>).
\<close>

definition provided_of :: "resolution_request \<Rightarrow> (string, string) dict" where
  "provided_of rq = (case rq_provided_interfaces rq of None \<Rightarrow> CORE_INTERFACE_VERSIONS | Some d \<Rightarrow> d)"

definition entry_matches ::
    "'v packaging \<Rightarrow> resolution_request \<Rightarrow> ('v \<Rightarrow> bool \<Rightarrow> bool) \<Rightarrow> catalog_entry
      \<Rightarrow> resolution_error + 'v option" where
  "entry_matches pk rq spec e =
    (if entry_name e \<noteq> rq_name rq \<or> ce_yanked e then Inr None
     else case pep440_version pk (entry_version e) of
       None \<Rightarrow> Inr None
     | Some v \<Rightarrow>
         if \<not> spec v (rq_include_prereleases rq) then Inr None
         else case assert_core_compatible (pm_core_interfaces (ce_manifest e)) (Some (provided_of rq)) of
           Inl (IncompatibleCoreInterface _) \<Rightarrow> Inr None
         | Inl (BadVersion x) \<Rightarrow> Inl (MalformedVersion x)
         | Inr _ \<Rightarrow>
             (case entry_satisfies e (or_empty (rq_interfaces rq)) (rq_capability_tags rq) of
                Inl (BadVersion x) \<Rightarrow> Inl (MalformedVersion x)
              | Inl (IncompatibleCoreInterface ps) \<Rightarrow> Inl (UnresolvableRequest ps)
              | Inr ok \<Rightarrow> Inr (if ok then Some v else None)))"

fun resolution_matches ::
    "(catalog_entry \<Rightarrow> resolution_error + 'v option) \<Rightarrow> catalog_entry list
      \<Rightarrow> resolution_error + ('v \<times> catalog_entry) list" where
  "resolution_matches m [] = Inr []"
| "resolution_matches m (e # es) =
    rbind (m e) (\<lambda>vo.
    rbind (resolution_matches m es) (\<lambda>rest.
      Inr (case vo of None \<Rightarrow> rest | Some v \<Rightarrow> (v, e) # rest)))"

text \<open>\<^verbatim>\<open>sort(reverse=True)\<close> keeps the order of equal keys, so it sorts the reversed list and reverses.\<close>

definition best_first :: "('v::linorder \<times> catalog_entry) list \<Rightarrow> ('v \<times> catalog_entry) list" where
  "best_first ms = rev (sort_key (\<lambda>(v, e). (v, entry_reference e)) (rev ms))"

definition check_request :: "resolution_request \<Rightarrow> resolution_error + unit" where
  "check_request rq =
    (if or_empty (rq_interfaces rq) = [] then Inr ()
     else case assert_core_compatible (or_empty (rq_interfaces rq)) (Some (provided_of rq)) of
       Inl (IncompatibleCoreInterface ps) \<Rightarrow> Inl (UnresolvableRequest ps)
     | Inl (BadVersion x) \<Rightarrow> Inl (MalformedVersion x)
     | Inr _ \<Rightarrow> Inr ())"

definition pin :: "catalog_entry \<Rightarrow> resolved_artifact" where
  "pin e = \<lparr>ra_reference = entry_reference e, ra_digest = ce_digest e, ra_version = entry_version e\<rparr>"

definition resolve_request ::
    "'v::linorder packaging \<Rightarrow> catalog_entry list \<Rightarrow> resolution_request
      \<Rightarrow> resolution_error + resolved_artifact" where
  "resolve_request pk entries rq =
    rbind (check_request rq) (\<lambda>_.
      case pep440_specifier pk (rq_version_spec rq) of
        None \<Rightarrow> Inl (InvalidSpecifier (rq_version_spec rq))
      | Some spec \<Rightarrow>
          rbind (resolution_matches (entry_matches pk rq spec) entries) (\<lambda>ms.
            case best_first ms of
              [] \<Rightarrow> Inl (NothingResolves (rq_name rq) (rq_version_spec rq))
            | (v, best) # _ \<Rightarrow> Inr (pin best)))"

section \<open>Resolution lemmas\<close>

definition match_key :: "'v \<times> catalog_entry \<Rightarrow> 'v \<times> string" where
  "match_key m = (fst m, entry_reference (snd m))"

lemma best_first_key: "best_first ms = rev (sort_key match_key (rev ms))"
proof -
  have "(\<lambda>(v, e). (v, entry_reference e)) = (match_key :: 'a \<times> catalog_entry \<Rightarrow> 'a \<times> string)"
    by (auto simp: match_key_def)
  then show ?thesis by (simp add: best_first_def)
qed

lemma set_best_first [simp]: "set (best_first ms) = set ms"
  by (simp add: best_first_key)

lemma best_first_Nil [simp]: "(best_first ms = []) = (ms = [])"
  using set_best_first [of ms] by (metis set_empty)

lemma best_first_empty [simp]: "best_first [] = []"
  by (simp add: best_first_key)

lemma best_first_max:
  assumes "best_first ms = b # bs" and "m \<in> set ms"
  shows "match_key m \<le> match_key b"
proof -
  have "sorted (map match_key (rev (best_first ms)))"
    by (simp add: best_first_key)
  then have "sorted (map match_key (rev bs) @ [match_key b])"
    by (simp add: assms(1))
  moreover have "m \<in> set (b # bs)"
    using assms by (metis set_best_first)
  ultimately show ?thesis
    by (auto simp: sorted_append)
qed

lemma best_first_perm:
  assumes "mset ms = mset ns" and "distinct (map match_key ms)"
  shows "best_first ms = best_first ns"
proof -
  have "sort_key match_key (rev ms) = sort_key match_key (rev ns)"
    by (rule sort_key_perm_unique) (use assms in \<open>simp_all flip: rev_map\<close>)
  then show ?thesis by (simp add: best_first_key)
qed

text \<open>What makes an entry a match.\<close>

definition candidate ::
    "'v packaging \<Rightarrow> resolution_request \<Rightarrow> ('v \<Rightarrow> bool \<Rightarrow> bool) \<Rightarrow> catalog_entry \<Rightarrow> 'v \<Rightarrow> bool" where
  "candidate pk rq spec e v =
    (entry_name e = rq_name rq \<and> \<not> ce_yanked e \<and> pep440_version pk (entry_version e) = Some v
     \<and> spec v (rq_include_prereleases rq)
     \<and> assert_core_compatible (pm_core_interfaces (ce_manifest e)) (Some (provided_of rq)) = Inr ()
     \<and> entry_satisfies e (or_empty (rq_interfaces rq)) (rq_capability_tags rq) = Inr True)"

lemma entry_matches_Some: "(entry_matches pk rq spec e = Inr (Some v)) = candidate pk rq spec e v"
  by (auto simp: entry_matches_def candidate_def split: option.splits sum.splits compat_error.splits if_splits)

lemma resolution_matches_eq:
  "(resolution_matches m es = Inr ms) =
    (list_all (\<lambda>e. is_ok (m e)) es
     \<and> ms = concat (map (\<lambda>e. case m e of Inr (Some v) \<Rightarrow> [(v, e)] | _ \<Rightarrow> []) es))"
  by (induction es arbitrary: ms) (auto simp: rbind_Inr is_ok_iff split: option.splits)

lemma resolution_matches_set:
  "resolution_matches m es = Inr ms \<Longrightarrow> ((v, e) \<in> set ms) = (e \<in> set es \<and> m e = Inr (Some v))"
  by (auto simp: resolution_matches_eq split: sum.splits option.splits)

lemma resolution_matches_refs:
  "resolution_matches m es = Inr ms \<Longrightarrow> distinct (map entry_reference es) \<Longrightarrow> distinct (map match_key ms)"
proof (induction es arbitrary: ms)
  case Nil
  then show ?case by simp
next
  case (Cons e es)
  obtain vo rest where r: "m e = Inr vo" "resolution_matches m es = Inr rest"
    and ms: "ms = (case vo of None \<Rightarrow> rest | Some v \<Rightarrow> (v, e) # rest)"
    using Cons.prems(1) by (auto simp: rbind_Inr)
  have "entry_reference (snd p) \<in> entry_reference ` set es" if "p \<in> set rest" for p
    using resolution_matches_set [OF r(2), of "fst p" "snd p"] that by auto
  then have "match_key (v, e) \<notin> match_key ` set rest" for v
    using Cons.prems(2) by (auto simp: match_key_def)
  moreover have "distinct (map match_key rest)"
    using Cons.IH [OF r(2)] Cons.prems(2) by simp
  ultimately show ?case
    by (auto simp: ms split: option.splits)
qed

lemma resolution_matches_perm:
  assumes "resolution_matches m es = Inr ms" and "mset es = mset es'"
  obtains ms' where "resolution_matches m es' = Inr ms'" and "mset ms = mset ms'"
proof -
  let ?f = "\<lambda>e. case m e of Inr (Some v) \<Rightarrow> [(v, e)] | _ \<Rightarrow> []"
  have "set es = set es'" using assms(2) by (rule mset_eq_setD)
  then have "resolution_matches m es' = Inr (concat (map ?f es'))"
    using assms(1) by (auto simp: resolution_matches_eq list_all_iff)
  moreover have "mset (concat (map ?f xs)) = (\<Sum>e\<in>#mset xs. mset (?f e))" for xs
    by (induction xs) simp_all
  then have "mset (concat (map ?f es)) = mset (concat (map ?f es'))"
    using assms(2) by simp
  then have "mset ms = mset (concat (map ?f es'))"
    using assms(1) unfolding resolution_matches_eq by simp
  ultimately show ?thesis by (rule that)
qed

lemma pin_best_Inr:
  "((case best_first ms of [] \<Rightarrow> Inl x | (v, best) # _ \<Rightarrow> Inr (pin best)) = Inr ra) =
    (\<exists>v e rest. best_first ms = (v, e) # rest \<and> ra = pin e)"
  by (cases "best_first ms") auto

lemma resolve_request_Inr:
  "(resolve_request pk entries rq = Inr ra) =
    (check_request rq = Inr () \<and> (\<exists>spec ms v e rest. pep440_specifier pk (rq_version_spec rq) = Some spec
      \<and> resolution_matches (entry_matches pk rq spec) entries = Inr ms
      \<and> best_first ms = (v, e) # rest
      \<and> ra = pin e))"
  by (cases "pep440_specifier pk (rq_version_spec rq)") (auto simp: resolve_request_def rbind_Inr pin_best_Inr)

lemma resolve_request_sound:
  assumes "resolve_request pk entries rq = Inr ra"
  obtains spec e v where "pep440_specifier pk (rq_version_spec rq) = Some spec" and "e \<in> set entries"
    and "candidate pk rq spec e v"
    and "ra = pin e"
    and "\<And>e' v'. e' \<in> set entries \<Longrightarrow> candidate pk rq spec e' v' \<Longrightarrow>
      (v', entry_reference e') \<le> (v, entry_reference e)"
proof -
  obtain spec ms v e rest where s: "pep440_specifier pk (rq_version_spec rq) = Some spec"
    and ms: "resolution_matches (entry_matches pk rq spec) entries = Inr ms"
    and b: "best_first ms = (v, e) # rest"
    and ra: "ra = pin e"
    using assms unfolding resolve_request_Inr by blast
  have "(v, e) \<in> set ms" using b set_best_first [of ms] by auto
  then have e: "e \<in> set entries" "candidate pk rq spec e v"
    using resolution_matches_set [OF ms] by (auto simp: entry_matches_Some)
  have "(v', entry_reference e') \<le> (v, entry_reference e)"
    if "e' \<in> set entries" "candidate pk rq spec e' v'" for e' v'
  proof -
    have "(v', e') \<in> set ms"
      using resolution_matches_set [OF ms] that by (simp add: entry_matches_Some)
    from best_first_max [OF b this] show ?thesis by (simp add: match_key_def)
  qed
  with s e ra that show ?thesis by blast
qed

text \<open>A catalog in which no candidate's declared versions are malformed.\<close>

definition entries_sound ::
    "'v packaging \<Rightarrow> resolution_request \<Rightarrow> catalog_entry list \<Rightarrow> bool" where
  "entries_sound pk rq entries =
    list_all (\<lambda>e. case pep440_specifier pk (rq_version_spec rq) of
       None \<Rightarrow> True | Some spec \<Rightarrow> is_ok (entry_matches pk rq spec e)) entries"

lemma resolve_request_none:
  assumes "entries_sound pk rq entries" and "check_request rq = Inr ()"
    and "pep440_specifier pk (rq_version_spec rq) = Some spec"
  shows "(resolve_request pk entries rq = Inl (NothingResolves (rq_name rq) (rq_version_spec rq)))
      = (\<forall>e \<in> set entries. \<forall>v. \<not> candidate pk rq spec e v)"
    and "resolve_request pk entries rq = Inl err \<Longrightarrow> err = NothingResolves (rq_name rq) (rq_version_spec rq)"
proof -
  obtain ms where ms: "resolution_matches (entry_matches pk rq spec) entries = Inr ms"
    using assms(1,3) by (auto simp: resolution_matches_eq entries_sound_def)
  have m: "(ms = []) = (\<forall>e \<in> set entries. \<forall>v. \<not> candidate pk rq spec e v)"
    using resolution_matches_set [OF ms] by (cases ms) (auto simp: entry_matches_Some)
  have r: "resolve_request pk entries rq = (case best_first ms of
      [] \<Rightarrow> Inl (NothingResolves (rq_name rq) (rq_version_spec rq))
    | (v, best) # _ \<Rightarrow> Inr (pin best))"
    by (simp add: resolve_request_def assms(2,3) ms)
  show "(resolve_request pk entries rq = Inl (NothingResolves (rq_name rq) (rq_version_spec rq)))
      = (\<forall>e \<in> set entries. \<forall>v. \<not> candidate pk rq spec e v)"
    using best_first_Nil [of ms] unfolding r m [symmetric] by (cases "best_first ms") auto
  show "resolve_request pk entries rq = Inl err \<Longrightarrow> err = NothingResolves (rq_name rq) (rq_version_spec rq)"
    unfolding r by (cases "best_first ms") auto
qed

lemma resolve_request_perm:
  assumes m: "mset entries = mset entries'" and d: "distinct (map entry_reference entries)"
    and r: "resolve_request pk entries rq = Inr ra"
  shows "resolve_request pk entries' rq = Inr ra"
proof -
  obtain spec ms v e rest where c: "check_request rq = Inr ()"
    and s: "pep440_specifier pk (rq_version_spec rq) = Some spec"
    and ms: "resolution_matches (entry_matches pk rq spec) entries = Inr ms"
    and b: "best_first ms = (v, e) # rest"
    and ra: "ra = pin e"
    using r unfolding resolve_request_Inr by blast
  obtain ms' where ms': "resolution_matches (entry_matches pk rq spec) entries' = Inr ms'"
      and "mset ms = mset ms'"
    using resolution_matches_perm [OF ms m] by blast
  then have "best_first ms' = best_first ms"
    using best_first_perm resolution_matches_refs [OF ms d] by metis
  with c s ms' b ra show ?thesis
    unfolding resolve_request_Inr by auto
qed

section \<open>Search lemmas\<close>

definition query_match :: "search_query \<Rightarrow> catalog_entry \<Rightarrow> bool" where
  "query_match q e = (facet_match e q \<and> capability_match e q = Inr True \<and> full_text_match e q)"

lemma candidates_Inr:
  "(candidates es q = Inr cs) =
    (list_all (\<lambda>e. facet_match e q \<longrightarrow> is_ok (capability_match e q)) es \<and> cs = filter (query_match q) es)"
proof (induction es arbitrary: cs)
  case Nil
  then show ?case by auto
next
  case (Cons e es)
  then show ?case
    by (cases "facet_match e q"; cases "capability_match e q") (auto simp: rbind_Inr query_match_def)
qed

definition rank_key :: "catalog_entry \<times> rat \<Rightarrow> rat \<times> string" where
  "rank_key p = (- snd p, entry_reference (fst p))"

lemma rank_order_key: "rank_order scored = sort_key rank_key scored"
proof -
  have "(\<lambda>(e, s). (- s, entry_reference e)) = rank_key"
    by (auto simp: rank_key_def)
  then show ?thesis by (simp add: rank_order_def)
qed

text \<open>The two rankings, each a score of the candidate alone.\<close>

definition ranking :: "catalog_entry list \<Rightarrow> search_query \<Rightarrow> provider \<Rightarrow> catalog_entry \<Rightarrow> rat" where
  "ranking cs q backend =
    (let v = embed_text backend (or_empty (q_semantic q))
     in if or_empty (q_semantic q) \<noteq> [] \<and> q_use_semantic q \<and> (\<exists>e \<in> set cs. cosine v (ce_embedding e) > 0)
        then (\<lambda>e. cosine v (ce_embedding e))
        else (\<lambda>e. lexical_score e (tokenize (or_empty (q_text q) @ '' '' @ or_empty (q_semantic q)))))"

lemma search_catalog_Inr:
  "(search_catalog cat q backend = Inr rs) =
    (\<exists>cs. candidates (catalog_all cat) q = Inr cs
      \<and> rs = take_limit (q_limit q) (rank_order (map (\<lambda>e. (e, ranking cs q backend e)) cs)))"
  by (auto simp: search_catalog_def rbind_Inr ranking_def Let_def list_ex_iff)

lemma set_take_limit: "set (take_limit l xs) \<subseteq> set xs"
  by (auto simp: take_limit_def dest: in_set_takeD)

lemma sorted_take_limit: "sorted (map f xs) \<Longrightarrow> sorted (map f (take_limit l xs))"
  by (simp add: take_limit_def take_map [symmetric] sorted_wrt_take)

lemma take_limit_all: "int (length xs) \<le> l \<Longrightarrow> take_limit l xs = xs"
  by (simp add: take_limit_def)

section \<open>The catalog interface\<close>

text \<open>
  What resolution and search rely on of a catalog backend: adding replaces the entry of its
  reference and touches no other, and listing returns each indexed entry once.
\<close>

locale catalog_backend =
  fixes inv :: "'c \<Rightarrow> bool"
    and add :: "'c \<Rightarrow> catalog_entry \<Rightarrow> 'c"
    and get :: "'c \<Rightarrow> string \<Rightarrow> catalog_entry option"
    and all :: "'c \<Rightarrow> catalog_entry list"
  assumes inv_add: "inv c \<Longrightarrow> inv (add c e)"
    and get_add: "inv c \<Longrightarrow> get (add c e) r = (if r = entry_reference e then Some e else get c r)"
    and all_get: "inv c \<Longrightarrow> e \<in> set (all c) \<longleftrightarrow> get c (entry_reference e) = Some e"
    and get_reference: "inv c \<Longrightarrow> get c r = Some e \<Longrightarrow> entry_reference e = r"
    and distinct_all: "inv c \<Longrightarrow> distinct (map entry_reference (all c))"
begin

lemma all_of_content:
  assumes "inv c" and "inv d" and "\<And>r. get c r = get d r"
  shows "mset (all c) = mset (all d)"
proof -
  have "set (all c) = set (all d)"
    using assms by (auto simp: all_get)
  moreover have "distinct (all c)" "distinct (all d)"
    using distinct_all [OF assms(1)] distinct_all [OF assms(2)] by (simp_all add: distinct_map)
  ultimately show ?thesis by (simp add: set_eq_iff_mset_eq_distinct)
qed

lemma resolve_of_content:
  assumes "inv c" and "inv d" and "\<And>r. get c r = get d r" and "resolve_request pk (all c) rq = Inr ra"
  shows "resolve_request pk (all d) rq = Inr ra"
  using all_of_content [OF assms(1-3)] distinct_all [OF assms(1)] assms(4) by (rule resolve_request_perm)

lemma resolved_is_indexed:
  assumes "inv c" and "resolve_request pk (all c) rq = Inr ra"
  obtains e where "get c (ra_reference ra) = Some e" and "ra_digest ra = ce_digest e"
    and "ra_version ra = entry_version e" and "\<not> ce_yanked e" and "entry_name e = rq_name rq"
proof (rule resolve_request_sound [OF assms(2)])
  fix spec e v
  assume "e \<in> set (all c)" and "candidate pk rq spec e v" and "ra = pin e"
  then show thesis
    using all_get [OF assms(1), of e] by (intro that [of e]) (auto simp: pin_def candidate_def)
qed

lemma yanked_entry_unresolved:
  assumes "inv c" and "get c r = Some e" and "resolve_request pk (all (add c (e\<lparr>ce_yanked := True\<rparr>))) rq = Inr ra"
  shows "ra_reference ra \<noteq> r"
proof
  assume r: "ra_reference ra = r"
  have ref: "entry_reference (e\<lparr>ce_yanked := True\<rparr>) = r"
    using get_reference [OF assms(1,2)] by (simp add: entry_reference_def)
  obtain e' where "get (add c (e\<lparr>ce_yanked := True\<rparr>)) (ra_reference ra) = Some e'" and "\<not> ce_yanked e'"
    by (rule resolved_is_indexed [OF inv_add [OF assms(1)] assms(3)]) blast
  then show False
    by (auto simp: get_add [OF assms(1)] r ref)
qed

end

text \<open>The in-memory catalog implements the interface.\<close>

definition catalog_inv :: "memory_catalog \<Rightarrow> bool" where
  "catalog_inv cat = (dict_wf cat \<and> (\<forall>(r, e) \<in> set cat. r = entry_reference e))"

lemma catalog_inv_empty [inv_intros]: "catalog_inv []"
  by (simp add: catalog_inv_def)

interpretation memory: catalog_backend catalog_inv catalog_add catalog_get catalog_all
proof
  fix c :: memory_catalog and e r
  assume c: "catalog_inv c"
  show "catalog_inv (catalog_add c e)"
    using c by (auto simp: catalog_inv_def catalog_add_def dest: dict_set_entry)
  show "catalog_get (catalog_add c e) r = (if r = entry_reference e then Some e else catalog_get c r)"
    by (simp add: catalog_get_def catalog_add_def)
  show "e \<in> set (catalog_all c) \<longleftrightarrow> catalog_get c (entry_reference e) = Some e"
    using c by (force simp: catalog_inv_def catalog_all_def catalog_get_def map_of_eq_Some_iff)
  show "catalog_get c r = Some e \<Longrightarrow> entry_reference e = r"
    using c by (force simp: catalog_inv_def catalog_get_def dest: map_of_SomeD)
  have "map entry_reference (catalog_all c) = dict_keys c"
    using c by (auto simp: catalog_inv_def catalog_all_def)
  then show "distinct (map entry_reference (catalog_all c))"
    using c by (simp add: catalog_inv_def)
qed

section \<open>Properties\<close>

text \<open>A version order for the witnesses: dotted triples, every specifier admits everything.\<close>

definition demo_packaging :: "semver packaging" where
  "demo_packaging =
    \<lparr>pep440_version = (\<lambda>s. case parse_version s of Inl _ \<Rightarrow> None | Inr v \<Rightarrow> Some v),
     pep440_specifier = (\<lambda>_. Some (\<lambda>_ _. True))\<rparr>"

definition demo_entry :: "string \<Rightarrow> catalog_entry" where
  "demo_entry version =
    \<lparr>ce_manifest = demo_manifest\<lparr>pm_version := version\<rparr>, ce_digest = ''sha256:'' @ version,
     ce_publisher = ''local'', ce_namespace = ''open'', ce_artifact_kind = None, ce_downloads = 0,
     ce_deprecated = False, ce_yanked = False, ce_embedding = [], ce_embedding_provider = ''none''\<rparr>"

definition demo_request :: resolution_request where
  "demo_request =
    \<lparr>rq_name = ''lawnmower'', rq_version_spec = '''', rq_interfaces = None, rq_capability_tags = [],
     rq_provided_interfaces = None, rq_include_prereleases = False\<rparr>"

definition demo_catalog :: memory_catalog where
  "demo_catalog = catalog_add (catalog_add [] (demo_entry ''1.10.0'')) (demo_entry ''1.9.0'')"

text \<open>
  Resolution is exact. For a well-formed request over a catalog without malformed versions it
  pins the highest candidate, that is an unyanked entry of the name whose version meets the
  specifier, that runs on this Core and satisfies the interfaces and tags, ties broken by reference;
  and it raises exactly when there is no candidate.
\<close>

theorem resolution_pins_highest_candidate:
  assumes "entries_sound pk rq entries" and "check_request rq = Inr ()"
    and "pep440_specifier pk (rq_version_spec rq) = Some spec"
  shows "(\<exists>e \<in> set entries. \<exists>v. candidate pk rq spec e v \<and> resolve_request pk entries rq = Inr (pin e)
        \<and> (\<forall>e' \<in> set entries. \<forall>v'. candidate pk rq spec e' v' \<longrightarrow>
              (v', entry_reference e') \<le> (v, entry_reference e)))
    \<or> ((\<forall>e \<in> set entries. \<forall>v. \<not> candidate pk rq spec e v)
        \<and> resolve_request pk entries rq = Inl (NothingResolves (rq_name rq) (rq_version_spec rq)))"
proof (cases "resolve_request pk entries rq")
  case (Inl err)
  then show ?thesis
    using resolve_request_none [OF assms] by simp
next
  case (Inr ra)
  show ?thesis
    by (rule resolve_request_sound [OF Inr]) (use assms(3) Inr in auto)
qed

theorem resolution_pins_highest_candidate_witness:
  "resolve_request demo_packaging (catalog_all demo_catalog) demo_request = Inr (pin (demo_entry ''1.10.0''))"
proof -
  let ?spec = "\<lambda>_ _. True"
  have sound: "entries_sound demo_packaging demo_request (catalog_all demo_catalog)"
    and req: "check_request demo_request = Inr ()"
    and some: "is_ok (resolve_request demo_packaging (catalog_all demo_catalog) demo_request)"
    by code_simp+
  have spec: "pep440_specifier demo_packaging (rq_version_spec demo_request) = Some ?spec"
    by (simp add: demo_packaging_def)
  have all: "set (catalog_all demo_catalog) = {demo_entry ''1.10.0'', demo_entry ''1.9.0''}"
    by (auto simp: catalog_all_def demo_catalog_def catalog_add_def entry_reference_def demo_entry_def
        demo_manifest_def)
  have "entry_matches demo_packaging demo_request ?spec (demo_entry ''1.10.0'') = Inr (Some (1, 10, 0))"
    "entry_matches demo_packaging demo_request ?spec (demo_entry ''1.9.0'') = Inr (Some (1, 9, 0))"
    by code_simp+
  then have c: "candidate demo_packaging demo_request ?spec (demo_entry ''1.10.0'') v = (v = (1, 10, 0))"
    "candidate demo_packaging demo_request ?spec (demo_entry ''1.9.0'') v = (v = (1, 9, 0))" for v
    by (auto simp flip: entry_matches_Some)
  show ?thesis
    using resolution_pins_highest_candidate [OF sound req spec] some unfolding all
    by (auto simp: c less_eq_prod_def)
qed

text \<open>
  Resolution depends on what is indexed, not on how it came to be: two catalogs that hold the
  same entry under every reference, in whatever order the entries were added or replaced, resolve
  every request to the same pinned artifact, and that artifact is indexed under its reference with
  that digest.
\<close>

theorem resolution_deterministic:
  assumes "catalog_inv c" and "catalog_inv d" and "\<And>r. catalog_get c r = catalog_get d r"
    and "resolve_request pk (catalog_all c) rq = Inr ra"
  shows "resolve_request pk (catalog_all d) rq = Inr ra
    \<and> (\<exists>e. catalog_get d (ra_reference ra) = Some e \<and> ce_digest e = ra_digest ra \<and> \<not> ce_yanked e)"
proof
  show r: "resolve_request pk (catalog_all d) rq = Inr ra"
    by (rule memory.resolve_of_content [OF assms])
  show "\<exists>e. catalog_get d (ra_reference ra) = Some e \<and> ce_digest e = ra_digest ra \<and> \<not> ce_yanked e"
    by (rule memory.resolved_is_indexed [OF assms(2) r]) auto
qed

definition demo_catalog_reordered :: memory_catalog where
  "demo_catalog_reordered = catalog_add (catalog_add [] (demo_entry ''1.9.0'')) (demo_entry ''1.10.0'')"

lemma demo_catalog_inv: "catalog_inv demo_catalog" "catalog_inv demo_catalog_reordered"
  unfolding demo_catalog_def demo_catalog_reordered_def
  by (intro memory.inv_add catalog_inv_empty)+

lemma demo_entry_reference: "entry_reference (demo_entry v) = ''lawnmower:'' @ v"
  by (simp add: entry_reference_def demo_entry_def demo_manifest_def)

theorem resolution_deterministic_witness:
  "resolve_request demo_packaging (catalog_all demo_catalog_reordered) demo_request
    = resolve_request demo_packaging (catalog_all demo_catalog) demo_request"
proof -
  have "is_ok (resolve_request demo_packaging (catalog_all demo_catalog) demo_request)"
    by code_simp
  then obtain ra where ra: "resolve_request demo_packaging (catalog_all demo_catalog) demo_request = Inr ra"
    unfolding is_ok_iff by blast
  have "catalog_get demo_catalog r = catalog_get demo_catalog_reordered r" for r
    by (simp add: demo_catalog_def demo_catalog_reordered_def catalog_get_def catalog_add_def
        demo_entry_reference)
  from resolution_deterministic [OF demo_catalog_inv this ra] ra show ?thesis by simp
qed

text \<open>
  A search returns only what was asked for, best first: each result is indexed and matches the
  facets (no yanked and no deprecated entry unless the query includes them), the capability
  constraints and the full text, the results are ordered by descending score and then by reference,
  there are at most \<^verbatim>\<open>limit\<close> of them, and when the limit allows for it every matching entry is there.
\<close>

theorem search_results_sound_and_ranked:
  assumes "search_catalog cat q backend = Inr rs" and "0 \<le> q_limit q"
  shows "(\<forall>(e, s) \<in> set rs. e \<in> set (catalog_all cat) \<and> query_match q e
        \<and> (ce_yanked e \<longrightarrow> q_include_yanked q) \<and> (ce_deprecated e \<longrightarrow> q_include_deprecated q))
    \<and> sorted (map rank_key rs) \<and> int (length rs) \<le> q_limit q
    \<and> (int (length (filter (query_match q) (catalog_all cat))) \<le> q_limit q \<longrightarrow>
        mset (map fst rs) = mset (filter (query_match q) (catalog_all cat)))"
proof -
  let ?cs = "filter (query_match q) (catalog_all cat)"
  let ?scored = "map (\<lambda>e. (e, ranking ?cs q backend e)) ?cs"
  have rs: "rs = take_limit (q_limit q) (rank_order ?scored)"
    using assms(1) unfolding search_catalog_Inr candidates_Inr by blast
  have "set rs \<subseteq> set ?scored"
    using set_take_limit [of "q_limit q" "rank_order ?scored"] by (simp add: rs rank_order_key)
  then have sound: "\<forall>(e, s) \<in> set rs. e \<in> set (catalog_all cat) \<and> query_match q e"
    by auto
  have "sorted (map rank_key rs)"
    unfolding rs by (rule sorted_take_limit) (simp add: rank_order_key)
  moreover have "int (length rs) \<le> q_limit q"
    using assms(2) by (simp add: rs take_limit_def)
  moreover have "mset (map fst rs) = mset ?cs" if "int (length ?cs) \<le> q_limit q"
  proof -
    have "rs = rank_order ?scored"
      unfolding rs by (rule take_limit_all) (use that in \<open>simp add: rank_order_key\<close>)
    then have "mset rs = mset ?scored"
      by (simp add: rank_order_key)
    then have "mset (map fst rs) = mset (map fst ?scored)"
      by (metis mset_map)
    then show ?thesis by (simp add: o_def)
  qed
  moreover have "\<forall>(e, s) \<in> set rs. (ce_yanked e \<longrightarrow> q_include_yanked q)
      \<and> (ce_deprecated e \<longrightarrow> q_include_deprecated q)"
    using sound by (fastforce simp: query_match_def facet_match_def split: if_splits)
  ultimately show ?thesis
    using sound by fast
qed

definition demo_query :: search_query where
  "demo_query =
    \<lparr>q_text = Some ''Lawnmower'', q_semantic = None, q_kind = Some ''policy'', q_artifact_kind = None,
     q_license = None, q_namespace = None, q_interfaces = Some [(''policy'', ''0.1.0'')],
     q_capability_tags = None, q_include_deprecated = False, q_include_yanked = False,
     q_use_semantic = True, q_limit = 20\<rparr>"

definition demo_provider :: provider where
  "demo_provider = \<lparr>provider_name = ''none'', embed_text = (\<lambda>_. [])\<rparr>"

definition demo_results :: "compat_error + (catalog_entry \<times> rat) list" where
  "demo_results = search_catalog demo_catalog demo_query demo_provider"

theorem search_results_sound_and_ranked_witness:
  "\<exists>rs. demo_results = Inr rs \<and> length rs = 2 \<and> sorted (map rank_key rs)"
proof -
  have n: "length (filter (query_match demo_query) (catalog_all demo_catalog)) = 2"
    and ok: "is_ok (candidates (catalog_all demo_catalog) demo_query)"
    by code_simp+
  from ok obtain rs where rs: "demo_results = Inr rs"
    unfolding is_ok_iff demo_results_def search_catalog_Inr by blast
  have l: "q_limit demo_query = 20" by (simp add: demo_query_def)
  from search_results_sound_and_ranked [OF rs [unfolded demo_results_def]] n
  have m: "sorted (map rank_key rs)"
    "mset (map fst rs) = mset (filter (query_match demo_query) (catalog_all demo_catalog))"
    by (simp_all add: l)
  from m(2) have "length rs = 2"
    using n by (metis length_map size_mset)
  with rs m(1) show ?thesis by blast
qed

end
