(* ===== verification/Seal_Trust.thy ===== *)
theory Seal_Trust
  imports Plugin_Registry
begin

text \<open>
  Seal's signing layer: the trust root of \<^verbatim>\<open>seal/_trust.py\<close> (which signers count, when, and for
  which kinds) and the signature check of \<^verbatim>\<open>seal/_signing.py\<close>. The \<^verbatim>\<open>cryptography\<close> package (key
  loading, DER, ECDSA) is the \<open>crypto\<close> parameter; base64 is translated. Bytes are character
  sequences, moments are integers (microseconds of UTC).
\<close>

section \<open>Byte strings\<close>

definition is_bspace :: "char \<Rightarrow> bool" where
  "is_bspace c = (of_char c \<in> {9::nat, 10, 11, 12, 13, 32})"

definition strip_with :: "(char \<Rightarrow> bool) \<Rightarrow> string \<Rightarrow> string" where
  "strip_with p s = rev (dropWhile p (rev (dropWhile p s)))"

fun split_lines :: "string \<Rightarrow> string list" where
  "split_lines [] = []"
| "split_lines (c # cs) =
    (if of_char c = (13::nat) then
       (case cs of
          d # ds \<Rightarrow> if of_char d = (10::nat) then [] # split_lines ds else [] # split_lines cs
        | [] \<Rightarrow> [[]])
     else if of_char c = (10::nat) then [] # split_lines cs
     else (case split_lines cs of [] \<Rightarrow> [[c]] | l # ls \<Rightarrow> (c # l) # ls))"

definition newline :: char where
  "newline = char_of (10::nat)"

text \<open>\<^verbatim>\<open>base64.b64encode\<close> and \<^verbatim>\<open>base64.b64decode\<close> (which skips foreign characters).\<close>

definition b64_alphabet :: string where
  "b64_alphabet = ''ABCDEFGHIJKLMNOPQRSTUVWXYZabcdefghijklmnopqrstuvwxyz0123456789+/''"

definition b64_char :: "nat \<Rightarrow> char" where
  "b64_char n = b64_alphabet ! n"

fun index_of :: "'a \<Rightarrow> 'a list \<Rightarrow> nat option" where
  "index_of x [] = None"
| "index_of x (y # ys) = (if x = y then Some 0 else map_option Suc (index_of x ys))"

definition b64_value :: "char \<Rightarrow> nat option" where
  "b64_value c = index_of c b64_alphabet"

fun b64encode :: "string \<Rightarrow> string" where
  "b64encode [] = []"
| "b64encode [a] =
    (let x = of_char a :: nat
     in [b64_char (x div 4), b64_char ((x mod 4) * 16), CHR ''='', CHR ''=''])"
| "b64encode [a, b] =
    (let x = of_char a :: nat; y = of_char b :: nat
     in [b64_char (x div 4), b64_char ((x mod 4) * 16 + y div 16), b64_char ((y mod 16) * 4), CHR ''=''])"
| "b64encode (a # b # c # rest) =
    (let x = of_char a :: nat; y = of_char b :: nat; z = of_char c :: nat
     in b64_char (x div 4) # b64_char ((x mod 4) * 16 + y div 16)
          # b64_char ((y mod 16) * 4 + z div 64) # b64_char (z mod 64) # b64encode rest)"

text \<open>
  The decoder's registers: the position in the quad, the bits left over, the run of padding; \<open>None\<close>
  is \<^verbatim>\<open>binascii.Error\<close>.
\<close>

fun b64_scan :: "nat \<Rightarrow> nat \<Rightarrow> nat \<Rightarrow> string \<Rightarrow> string option" where
  "b64_scan quad left pads [] = (if quad = 0 then Some [] else None)"
| "b64_scan quad left pads (c # cs) =
    (if c = CHR ''='' then
       (if quad \<ge> 2 \<and> quad + (pads + 1) \<ge> 4 then Some []
        else b64_scan quad left (if quad \<ge> 2 then pads + 1 else pads) cs)
     else case b64_value c of
       None \<Rightarrow> b64_scan quad left pads cs
     | Some v \<Rightarrow>
         if quad = 0 then b64_scan 1 v 0 cs
         else if quad = 1 then
           map_option ((#) (char_of (left * 4 + v div 16))) (b64_scan 2 (v mod 16) 0 cs)
         else if quad = 2 then
           map_option ((#) (char_of (left * 16 + v div 4))) (b64_scan 3 (v mod 4) 0 cs)
         else map_option ((#) (char_of (left * 64 + v))) (b64_scan 0 0 0 cs))"

definition b64decode :: "string \<Rightarrow> string option" where
  "b64decode s = b64_scan 0 0 0 s"

lemma b64_table: "n < 64 \<Longrightarrow> b64_value (b64_char n) = Some n \<and> b64_char n \<noteq> CHR ''=''"
proof -
  have "\<forall>n \<in> set [0..<64]. b64_value (b64_char n) = Some n \<and> b64_char n \<noteq> CHR ''=''"
    by code_simp
  then show "n < 64 \<Longrightarrow> b64_value (b64_char n) = Some n \<and> b64_char n \<noteq> CHR ''=''" by simp
qed

lemmas b64_table_simps [simp] = b64_table [THEN conjunct1] b64_table [THEN conjunct2]

lemma char_nat_less: "of_char c < (256::nat)"
  by (metis atLeastLessThan_iff rangeI range_nat_of_char)

lemma b64_quad:
  assumes "x < 256" and "y < 256" and "z < (256::nat)"
  shows "x div 4 < 64" "(x mod 4) * 16 + y div 16 < 64" "(y mod 16) * 4 + z div 64 < 64" "z mod 64 < 64"
    "x mod 4 * 16 < 64" "y mod 16 * 4 < 64"
    "(x div 4) * 4 + ((x mod 4) * 16 + y div 16) div 16 = x"
    "((x mod 4) * 16 + y div 16) mod 16 = y div 16"
    "(y div 16) * 16 + ((y mod 16) * 4 + z div 64) div 4 = y"
    "((y mod 16) * 4 + z div 64) mod 4 = z div 64"
    "(z div 64) * 64 + z mod 64 = z"
proof -
  have q: "x div 4 < 64" "y div 16 < 16" "z div 64 < 4" "x mod 4 < 4" "y mod 16 < 16" "z mod 64 < 64"
    using assms by (simp_all add: less_mult_imp_div_less)
  show "x div 4 < 64" "(x mod 4) * 16 + y div 16 < 64" "(y mod 16) * 4 + z div 64 < 64" "z mod 64 < 64"
    "x mod 4 * 16 < 64" "y mod 16 * 4 < 64"
    using q by linarith+
  show "(x div 4) * 4 + ((x mod 4) * 16 + y div 16) div 16 = x"
    "((x mod 4) * 16 + y div 16) mod 16 = y div 16"
    "(y div 16) * 16 + ((y mod 16) * 4 + z div 64) div 4 = y"
    "((y mod 16) * 4 + z div 64) mod 4 = z div 64"
    "(z div 64) * 64 + z mod 64 = z"
    using q by simp_all
qed

lemma b64_roundtrip: "b64decode (b64encode s) = Some s"
proof -
  have "b64_scan 0 0 0 (b64encode s) = Some s"
  proof (induction s rule: b64encode.induct)
    case 1
    show ?case by simp
  next
    case (2 a)
    note b64_quad [OF char_nat_less [of a] char_nat_less [of a] char_nat_less [of a]]
    moreover have "of_char a div 4 * 4 + of_char a mod 4 * 16 div 16 = (of_char a :: nat)" by simp
    ultimately show ?case by (simp add: Let_def)
  next
    case (3 a b)
    note q = b64_quad [OF char_nat_less [of a] char_nat_less [of b] char_nat_less [of b]]
    have "of_char b div 16 * 16 + of_char b mod 16 * 4 div 4 = (of_char b :: nat)" by simp
    with q show ?case by (simp add: Let_def)
  next
    case (4 a b c rest)
    note q = b64_quad [OF char_nat_less [of a] char_nat_less [of b] char_nat_less [of c]]
    then show ?case using 4 by (simp add: Let_def)
  qed
  then show ?thesis by (simp add: b64decode_def)
qed

section \<open>Key material\<close>

text \<open>
  What the code uses of \<^verbatim>\<open>cryptography\<close>: loading a PEM (\<open>None\<close> where the loader raises ValueError or
  TypeError), the canonical DER, whether a key is an elliptic-curve key, signing and verification.
\<close>

record ('k, 'p) crypto =
  load_public_pem :: "string \<Rightarrow> 'k option"
  public_der :: "'k \<Rightarrow> string"
  is_ec_public :: "'k \<Rightarrow> bool"
  ec_verify :: "'k \<Rightarrow> string \<Rightarrow> string \<Rightarrow> bool"
  load_private_pem :: "string \<Rightarrow> 'p option"
  is_ec_private :: "'p \<Rightarrow> bool"
  ec_sign :: "'p \<Rightarrow> string \<Rightarrow> string"
  public_pem_of :: "'p \<Rightarrow> string"

definition normalize_pem :: "string \<Rightarrow> string" where
  "normalize_pem pem = join_on newline (map (strip_with is_bspace) (split_lines (strip_with is_bspace pem)))"

definition der_of :: "('k, 'p) crypto \<Rightarrow> string \<Rightarrow> string option" where
  "der_of cr pem = map_option (public_der cr) (load_public_pem cr pem)"

definition same_key :: "('k, 'p) crypto \<Rightarrow> string \<Rightarrow> string \<Rightarrow> bool" where
  "same_key cr a_pem b_pem =
    (case der_of cr a_pem of
       None \<Rightarrow> False
     | Some left \<Rightarrow> (case der_of cr b_pem of None \<Rightarrow> False | Some right \<Rightarrow> left = right))"

section \<open>The trust root\<close>

type_synonym moment = int

record trusted_key =
  tk_identity :: string
  tk_pem :: string
  not_before :: "moment option"
  not_after :: "moment option"
  tk_kinds :: "string list option"

datatype trust_root_error =
    UnloadableKey string
  | AnonymousKey
  | EmptyWindow string
  | NotJson
  | NotAnObject string
  | UnknownFields "string list"
  | KeysNotAList
  | MissingStrings string
  | BadKinds string
  | BadMoment string

text \<open>The constructor, with the checks of \<^verbatim>\<open>__post_init__\<close>.\<close>

definition make_trusted_key ::
    "('k, 'p) crypto \<Rightarrow> string \<Rightarrow> string \<Rightarrow> moment option \<Rightarrow> moment option \<Rightarrow> string list option
      \<Rightarrow> trust_root_error + trusted_key" where
  "make_trusted_key cr identity pem nb na kinds =
    (let stored = normalize_pem pem in
     if der_of cr stored = None then Inl (UnloadableKey identity)
     else if strip_with is_space identity = [] then Inl AnonymousKey
     else if (case (nb, na) of (Some b, Some a) \<Rightarrow> a < b | _ \<Rightarrow> False) then Inl (EmptyWindow identity)
     else Inr \<lparr>tk_identity = identity, tk_pem = stored, not_before = nb, not_after = na, tk_kinds = kinds\<rparr>)"

definition valid_at :: "trusted_key \<Rightarrow> moment \<Rightarrow> bool" where
  "valid_at k moment =
    (if (case not_before k of Some b \<Rightarrow> moment < b | None \<Rightarrow> False) then False
     else \<not> (case not_after k of Some a \<Rightarrow> a < moment | None \<Rightarrow> False))"

definition covers :: "trusted_key \<Rightarrow> string option \<Rightarrow> bool" where
  "covers k kind =
    (case tk_kinds k of
       None \<Rightarrow> True
     | Some ks \<Rightarrow> (case kind of None \<Rightarrow> False | Some x \<Rightarrow> x \<in> set ks))"

type_synonym trust_root = "trusted_key list"

definition trust_root_single :: "('k, 'p) crypto \<Rightarrow> string \<Rightarrow> trust_root_error + trust_root" where
  "trust_root_single cr pem =
    rbind (make_trusted_key cr ''unnamed'' pem None None None) (\<lambda>k. Inr [k])"

fun trust_match ::
    "('k, 'p) crypto \<Rightarrow> trust_root \<Rightarrow> string \<Rightarrow> string option \<Rightarrow> moment \<Rightarrow> trusted_key option" where
  "trust_match cr [] signer kind moment = None"
| "trust_match cr (k # ks) signer kind moment =
    (if same_key cr (tk_pem k) (normalize_pem signer) \<and> valid_at k moment \<and> covers k kind
     then Some k else trust_match cr ks signer kind moment)"

definition accepts ::
    "('k, 'p) crypto \<Rightarrow> trust_root \<Rightarrow> string \<Rightarrow> string option \<Rightarrow> moment \<Rightarrow> bool" where
  "accepts cr roots signer kind moment = (trust_match cr roots signer kind moment \<noteq> None)"

datatype rejection =
    NotInTrustRoot "string list"
  | OutsideWindow string "moment option" "moment option" moment
  | WrongKind string "string list" "string option"
  | NotTrusted

fun why_known :: "trusted_key list \<Rightarrow> string option \<Rightarrow> moment \<Rightarrow> rejection" where
  "why_known [] kind moment = NotTrusted"
| "why_known (k # ks) kind moment =
    (if \<not> valid_at k moment then OutsideWindow (tk_identity k) (not_before k) (not_after k) moment
     else if \<not> covers k kind then
       WrongKind (tk_identity k) (sort (case tk_kinds k of None \<Rightarrow> [] | Some ks \<Rightarrow> ks)) kind
     else why_known ks kind moment)"

definition why_rejected ::
    "('k, 'p) crypto \<Rightarrow> trust_root \<Rightarrow> string \<Rightarrow> string option \<Rightarrow> moment \<Rightarrow> rejection" where
  "why_rejected cr roots signer kind moment =
    (let known = filter (\<lambda>k. same_key cr (tk_pem k) (normalize_pem signer)) roots
     in if known = [] then NotInTrustRoot (sort (map tk_identity roots))
        else why_known known kind moment)"

section \<open>Signing and verifying\<close>

datatype signature_error =
    NotCosign SignatureScheme
  | IncompleteEnvelope
  | PayloadMismatch
  | BothRootAndKey
  | MalformedPublicKey
  | NotEcPublicKey
  | MalformedPrivateKey
  | NotEcPrivateKey
  | NotTheTrustedKey
  | Rejected rejection
  | DoesNotVerify
  | NoProvenanceDigest
  | NoCosignSignature
  | BinasciiError

definition load_public :: "('k, 'p) crypto \<Rightarrow> string \<Rightarrow> signature_error + 'k" where
  "load_public cr pem =
    (case load_public_pem cr pem of
       None \<Rightarrow> Inl MalformedPublicKey
     | Some k \<Rightarrow> if \<not> is_ec_public cr k then Inl NotEcPublicKey else Inr k)"

definition load_private :: "('k, 'p) crypto \<Rightarrow> string \<Rightarrow> signature_error + 'p" where
  "load_private cr pem =
    (case load_private_pem cr pem of
       None \<Rightarrow> Inl MalformedPrivateKey
     | Some k \<Rightarrow> if \<not> is_ec_private cr k then Inl NotEcPrivateKey else Inr k)"

definition sign_digest :: "('k, 'p) crypto \<Rightarrow> string \<Rightarrow> string \<Rightarrow> signature_error + signature" where
  "sign_digest cr dg private_pem =
    rbind (load_private cr private_pem) (\<lambda>key.
      Inr \<lparr>sig_scheme = SIGSTORE_COSIGN, sig_kind = COSIGN_SIGNATURE,
           sig_value = Some (b64encode (ec_sign cr key dg)), sig_payload = Some dg,
           sig_certificate = Some (public_pem_of cr key), sig_digest = None\<rparr>)"

definition check_signer ::
    "('k, 'p) crypto \<Rightarrow> string option \<Rightarrow> trust_root option \<Rightarrow> string option \<Rightarrow> moment \<Rightarrow> string
      \<Rightarrow> signature_error + unit" where
  "check_signer cr trusted roots kind moment signer =
    (case trusted of
       Some pem \<Rightarrow>
         rbind (load_public cr pem) (\<lambda>_.
           if \<not> same_key cr pem signer then Inl NotTheTrustedKey else Inr ())
     | None \<Rightarrow>
         (case roots of
            Some r \<Rightarrow> if \<not> accepts cr r signer kind moment
                      then Inl (Rejected (why_rejected cr r signer kind moment)) else Inr ()
          | None \<Rightarrow> Inr ()))"

text \<open>\<^verbatim>\<open>b64decode\<close> may raise \<^verbatim>\<open>binascii.Error\<close>, which no handler here turns into a signature error.\<close>

definition verify_signature ::
    "('k, 'p) crypto \<Rightarrow> string option \<Rightarrow> trust_root option \<Rightarrow> string option \<Rightarrow> moment \<Rightarrow> signature
      \<Rightarrow> string \<Rightarrow> signature_error + unit" where
  "verify_signature cr trusted roots kind moment sg dg =
    (if sig_scheme sg \<noteq> SIGSTORE_COSIGN then Inl (NotCosign (sig_scheme sg))
     else case (sig_value sg, sig_payload sg, sig_certificate sg) of
       (Some val, Some payload, Some cert) \<Rightarrow>
         if payload \<noteq> dg then Inl PayloadMismatch
         else if roots \<noteq> None \<and> trusted \<noteq> None then Inl BothRootAndKey
         else
           rbind (check_signer cr trusted roots kind moment cert) (\<lambda>_.
           rbind (load_public cr cert) (\<lambda>public_key.
             case b64decode val of
               None \<Rightarrow> Inl BinasciiError
             | Some raw \<Rightarrow>
                 if ec_verify cr public_key raw payload then Inr () else Inl DoesNotVerify))
     | _ \<Rightarrow> Inl IncompleteEnvelope)"

fun verify_signatures ::
    "(signature \<Rightarrow> signature_error + unit) \<Rightarrow> signature list \<Rightarrow> signature_error option" where
  "verify_signatures check [] = None"
| "verify_signatures check (s # ss) =
    (case check s of Inl e \<Rightarrow> Some e | Inr _ \<Rightarrow> verify_signatures check ss)"

text \<open>The verifier Core calls: \<open>None\<close> is returning, \<open>Some e\<close> raising \<open>e\<close>.\<close>

definition make_verifier ::
    "('k, 'p) crypto \<Rightarrow> string option \<Rightarrow> moment \<Rightarrow> plugin_manifest \<Rightarrow> signature_error option" where
  "make_verifier cr trusted moment m =
    (case Option.bind (pm_provenance m) prov_digest of
       None \<Rightarrow> Some NoProvenanceDigest
     | Some dg \<Rightarrow>
         (let cosign = filter (\<lambda>s. sig_scheme s = SIGSTORE_COSIGN) (all_signatures m)
          in if cosign = [] then Some NoCosignSignature
             else verify_signatures
               (\<lambda>s. verify_signature cr trusted None None moment s dg) cosign))"

section \<open>Trust\<close>

lemma same_key_iff: "same_key cr a b = (\<exists>d. der_of cr a = Some d \<and> der_of cr b = Some d)"
  by (auto simp: same_key_def split: option.splits)

lemma same_key_sym: "same_key cr a b = same_key cr b a"
  by (auto simp: same_key_iff)

lemma same_key_trans: "same_key cr a b \<Longrightarrow> same_key cr b c \<Longrightarrow> same_key cr a c"
  by (auto simp: same_key_iff)

definition honours ::
    "('k, 'p) crypto \<Rightarrow> trusted_key \<Rightarrow> string \<Rightarrow> string option \<Rightarrow> moment \<Rightarrow> bool" where
  "honours cr k signer kind moment =
    (same_key cr (tk_pem k) (normalize_pem signer) \<and> valid_at k moment \<and> covers k kind)"

lemma trust_match_Some:
  "trust_match cr ks signer kind moment = Some k \<Longrightarrow> k \<in> set ks \<and> honours cr k signer kind moment"
  by (induction ks) (auto simp: honours_def split: if_splits)

lemma accepts_iff: "accepts cr ks signer kind moment = (\<exists>k \<in> set ks. honours cr k signer kind moment)"
  by (induction ks) (auto simp: accepts_def honours_def)

lemma valid_at_iff:
  "valid_at k t = ((\<forall>b. not_before k = Some b \<longrightarrow> b \<le> t) \<and> (\<forall>a. not_after k = Some a \<longrightarrow> t \<le> a))"
  by (auto simp: valid_at_def split: option.splits if_splits)

lemma covers_iff: "covers k kind = (\<forall>ks. tk_kinds k = Some ks \<longrightarrow> (\<exists>x \<in> set ks. kind = Some x))"
  by (auto simp: covers_def split: option.splits)

text \<open>The reasons given for a refusal.\<close>

lemma why_known_cases:
  assumes "why_known ks kind moment = why" and "\<exists>k \<in> set ks. \<not> (valid_at k moment \<and> covers k kind)"
  shows "(\<exists>k \<in> set ks. \<not> valid_at k moment
        \<and> why = OutsideWindow (tk_identity k) (not_before k) (not_after k) moment)
    \<or> (\<exists>k \<in> set ks. \<exists>scope. tk_kinds k = Some scope \<and> \<not> covers k kind
        \<and> why = WrongKind (tk_identity k) (sort scope) kind)"
  using assms
  by (induction ks) (auto simp: covers_def split: if_splits option.splits)

text \<open>What a verified signature establishes.\<close>

definition signer_trusted ::
    "('k, 'p) crypto \<Rightarrow> string option \<Rightarrow> trust_root option \<Rightarrow> string option \<Rightarrow> moment \<Rightarrow> string \<Rightarrow> bool" where
  "signer_trusted cr trusted roots kind moment signer =
    ((\<forall>pem. trusted = Some pem \<longrightarrow> roots = None \<and> is_ok (load_public cr pem) \<and> same_key cr pem signer)
     \<and> (\<forall>r. roots = Some r \<longrightarrow> trusted = None \<and> accepts cr r signer kind moment))"

lemma verify_signature_ok:
  "(verify_signature cr trusted roots kind moment sg dg = Inr ()) =
    (sig_scheme sg = SIGSTORE_COSIGN \<and> sig_payload sg = Some dg \<and>
     (\<exists>cert val key raw. sig_certificate sg = Some cert \<and> sig_value sg = Some val
       \<and> signer_trusted cr trusted roots kind moment cert
       \<and> load_public cr cert = Inr key \<and> b64decode val = Some raw \<and> ec_verify cr key raw dg))"
  by (auto simp: verify_signature_def check_signer_def signer_trusted_def rbind_Inr is_ok_iff
      split: option.splits if_splits)

lemma verify_signatures_None:
  "(verify_signatures check ss = None) = (\<forall>s \<in> set ss. check s = Inr ())"
  by (induction ss) (auto split: sum.splits)

lemma make_verifier_None:
  "(make_verifier cr trusted moment m = None) =
    (\<exists>p dg. pm_provenance m = Some p \<and> prov_digest p = Some dg
      \<and> (\<exists>s \<in> set (all_signatures m). sig_scheme s = SIGSTORE_COSIGN)
      \<and> (\<forall>s \<in> set (all_signatures m). sig_scheme s = SIGSTORE_COSIGN \<longrightarrow>
           verify_signature cr trusted None None moment s dg = Inr ()))"
  by (auto simp: make_verifier_def Let_def verify_signatures_None filter_empty_conv
      split: option.splits if_splits bind_splits)

section \<open>Whitespace in PEM files\<close>

definition squeeze :: "string \<Rightarrow> string" where
  "squeeze s = filter (\<lambda>c. \<not> is_bspace c) s"

lemma squeeze_append [simp]: "squeeze (a @ b) = squeeze a @ squeeze b"
  by (simp add: squeeze_def)

lemma squeeze_dropWhile: "squeeze (dropWhile is_bspace s) = squeeze s"
  by (induction s) (auto simp: squeeze_def)

lemma squeeze_rev: "squeeze (rev s) = rev (squeeze s)"
  by (simp add: squeeze_def rev_filter)

lemma squeeze_strip [simp]: "squeeze (strip_with is_bspace s) = squeeze s"
  by (simp add: strip_with_def squeeze_rev squeeze_dropWhile)

lemma squeeze_Cons: "squeeze (c # s) = (if is_bspace c then squeeze s else c # squeeze s)"
  by (simp add: squeeze_def)

lemma line_break_space: "of_char c = (13::nat) \<Longrightarrow> is_bspace c" "of_char c = (10::nat) \<Longrightarrow> is_bspace c"
  by (simp_all add: is_bspace_def)

lemma squeeze_Nil [simp]: "squeeze [] = []"
  by (simp add: squeeze_def)

lemma squeeze_lines: "concat (map squeeze (split_lines s)) = squeeze s"
proof (induction s rule: split_lines.induct)
  case 1
  show ?case by simp
next
  case (2 c cs)
  consider "of_char c = (13::nat)" | "of_char c = (10::nat)"
    | "of_char c \<noteq> (13::nat)" "of_char c \<noteq> (10::nat)" by blast
  then show ?case
  proof cases
    case 1
    then show ?thesis
      using 2(1,2) by (cases cs) (auto simp: squeeze_Cons line_break_space)
  next
    case 2
    then show ?thesis using "2.IH"(3) by (simp add: squeeze_Cons line_break_space)
  next
    case 3
    then show ?thesis
      using "2.IH"(4) by (cases "split_lines cs") (auto simp: squeeze_Cons)
  qed
qed

lemma squeeze_join: "is_bspace c \<Longrightarrow> squeeze (join_on c ls) = concat (map squeeze ls)"
  by (induction c ls rule: join_on.induct) (auto simp: squeeze_def)

lemma newline_space [simp]: "is_bspace newline"
  by (simp add: newline_def is_bspace_def)

lemma squeeze_normalize [simp]: "squeeze (normalize_pem s) = squeeze s"
  using squeeze_lines [of "strip_with is_bspace s"]
  by (simp add: normalize_pem_def squeeze_join o_def)

text \<open>
  A concrete instance for the witnesses: a key is its own text without whitespace, a signature is
  the key followed by the message.
\<close>

definition demo_crypto :: "(string, string) crypto" where
  "demo_crypto =
    \<lparr>load_public_pem = (\<lambda>pem. if squeeze pem = [] then None else Some (squeeze pem)),
     public_der = (\<lambda>k. k), is_ec_public = (\<lambda>_. True), ec_verify = (\<lambda>k raw msg. raw = k @ msg),
     load_private_pem = (\<lambda>pem. if pem = [] then None else Some pem), is_ec_private = (\<lambda>_. True),
     ec_sign = (\<lambda>k msg. squeeze (''P'' @ k) @ msg), public_pem_of = (\<lambda>k. ''P'' @ k)\<rparr>"

section \<open>Properties\<close>

text \<open>The documented behaviour of the cryptographic package on one key pair.\<close>

definition key_pair_ok :: "('k, 'p) crypto \<Rightarrow> string \<Rightarrow> string \<Rightarrow> bool" where
  "key_pair_ok cr private_pem public_pem =
    (case load_private_pem cr private_pem of
       None \<Rightarrow> False
     | Some sk \<Rightarrow> is_ec_private cr sk \<and> public_pem_of cr sk = public_pem
         \<and> (case load_public_pem cr public_pem of
              None \<Rightarrow> False
            | Some pk \<Rightarrow> is_ec_public cr pk \<and> (\<forall>msg. ec_verify cr pk (ec_sign cr sk msg) msg)))"

text \<open>
  Signing and verifying fit together: a signature made with a working key pair verifies for the
  digest it was made for, for no other digest, and under a trust root exactly when the root accepts
  the signer at that moment for that kind.
\<close>

theorem sign_then_verify:
  assumes "key_pair_ok cr private_pem public_pem"
  shows "\<exists>sg. sign_digest cr dg private_pem = Inr sg
    \<and> (\<forall>kind moment. verify_signature cr None None kind moment sg dg = Inr ())
    \<and> (\<forall>r kind moment. (verify_signature cr None (Some r) kind moment sg dg = Inr ())
          = accepts cr r public_pem kind moment)
    \<and> (\<forall>other trusted roots kind moment. other \<noteq> dg \<longrightarrow>
          verify_signature cr trusted roots kind moment sg other = Inl PayloadMismatch)"
proof -
  obtain sk pk where sk: "load_private_pem cr private_pem = Some sk" "is_ec_private cr sk"
      "public_pem_of cr sk = public_pem"
    and pk: "load_public_pem cr public_pem = Some pk" "is_ec_public cr pk"
      "\<And>msg. ec_verify cr pk (ec_sign cr sk msg) msg"
    using assms by (auto simp: key_pair_ok_def split: option.splits)
  have sign: "sign_digest cr dg private_pem = Inr \<lparr>sig_scheme = SIGSTORE_COSIGN,
      sig_kind = COSIGN_SIGNATURE, sig_value = Some (b64encode (ec_sign cr sk dg)),
      sig_payload = Some dg, sig_certificate = Some public_pem, sig_digest = None\<rparr>"
    using sk by (simp add: sign_digest_def load_private_def)
  show ?thesis
    unfolding sign verify_signature_ok
    using pk by (auto simp: load_public_def b64_roundtrip signer_trusted_def verify_signature_def)
qed

theorem sign_then_verify_witness:
  "\<exists>sg. sign_digest demo_crypto ''sha256:aa'' ''dev'' = Inr sg
    \<and> verify_signature demo_crypto None None None 0 sg ''sha256:aa'' = Inr ()"
proof -
  have "key_pair_ok demo_crypto ''dev'' ''Pdev''"
    by (simp add: key_pair_ok_def demo_crypto_def squeeze_def is_bspace_def)
  from sign_then_verify [OF this] show ?thesis by blast
qed

text \<open>
  A bare trusted key means a trust root of that one key: where the key loads, verification
  succeeds with \<^verbatim>\<open>trusted_public_key_pem\<close> exactly when it succeeds with the root
  \<^verbatim>\<open>TrustRoot.single\<close> builds, whatever the kind and the moment. (Loading a PEM does not depend on
  the whitespace around its lines.)
\<close>

theorem trusted_key_is_root_of_one:
  assumes "\<And>p. load_public_pem cr (normalize_pem p) = load_public_pem cr p"
    and "trust_root_single cr pem = Inr r" and "is_ok (load_public cr pem)"
  shows "(verify_signature cr (Some pem) None kind moment sg dg = Inr ())
    = (verify_signature cr None (Some r) kind moment sg dg = Inr ())"
proof -
  have r: "r = [\<lparr>tk_identity = ''unnamed'', tk_pem = normalize_pem pem, not_before = None,
      not_after = None, tk_kinds = None\<rparr>]"
    using assms(2) by (auto simp: trust_root_single_def make_trusted_key_def Let_def rbind_Inr split: if_splits)
  have "der_of cr (normalize_pem p) = der_of cr p" for p
    by (simp add: der_of_def assms(1))
  then have "accepts cr r signer kind moment = same_key cr pem signer" for signer
    by (simp add: r accepts_iff honours_def same_key_iff valid_at_def covers_def)
  with assms(3) show ?thesis
    by (simp add: verify_signature_ok signer_trusted_def)
qed

theorem trusted_key_is_root_of_one_witness:
  "\<exists>r. trust_root_single demo_crypto ''Pdev'' = Inr r
    \<and> (\<forall>kind moment sg dg. (verify_signature demo_crypto (Some ''Pdev'') None kind moment sg dg = Inr ())
      = (verify_signature demo_crypto None (Some r) kind moment sg dg = Inr ()))"
proof -
  have pem: "load_public_pem demo_crypto (normalize_pem p) = load_public_pem demo_crypto p" for p
    by (simp add: demo_crypto_def)
  have "is_ok (trust_root_single demo_crypto ''Pdev'')" "is_ok (load_public demo_crypto ''Pdev'')"
    by code_simp+
  with trusted_key_is_root_of_one [OF pem] show ?thesis
    unfolding is_ok_iff by blast
qed

text \<open>
  A refusal names its real reason. When no key of the root is honoured, the reason given is that
  no key of the root is the signer's (with every trusted identity), or it names a key of the root
  that is the signer's, and either the moment lies outside that key's window or the kind is outside
  its scope; the catch-all reason is never given.
\<close>

theorem refusal_reason_truthful:
  assumes "\<not> accepts cr r signer kind moment"
  shows "(why_rejected cr r signer kind moment = NotInTrustRoot (sort (map tk_identity r))
        \<and> (\<forall>k \<in> set r. \<not> same_key cr (tk_pem k) (normalize_pem signer)))
    \<or> (\<exists>k \<in> set r. same_key cr (tk_pem k) (normalize_pem signer) \<and>
        ((\<not> valid_at k moment \<and> why_rejected cr r signer kind moment
            = OutsideWindow (tk_identity k) (not_before k) (not_after k) moment)
         \<or> (\<exists>scope. tk_kinds k = Some scope \<and> \<not> covers k kind \<and> why_rejected cr r signer kind moment
            = WrongKind (tk_identity k) (sort scope) kind)))"
proof -
  let ?known = "filter (\<lambda>k. same_key cr (tk_pem k) (normalize_pem signer)) r"
  show ?thesis
  proof (cases "?known = []")
    case True
    then show ?thesis by (auto simp: why_rejected_def filter_empty_conv)
  next
    case False
    then have "\<exists>k \<in> set ?known. \<not> (valid_at k moment \<and> covers k kind)"
      using assms by (auto simp: accepts_iff honours_def filter_empty_conv)
    moreover have "why_known ?known kind moment = why_rejected cr r signer kind moment"
      using False by (simp add: why_rejected_def Let_def)
    ultimately show ?thesis
      using why_known_cases [of ?known kind moment] by fastforce
  qed
qed

definition demo_expired_key :: trusted_key where
  "demo_expired_key = \<lparr>tk_identity = ''release-2025'', tk_pem = ''Pdev'', not_before = None,
     not_after = Some 10, tk_kinds = None\<rparr>"

theorem refusal_reason_truthful_witness:
  "why_rejected demo_crypto [demo_expired_key] ''Pdev'' None 11
    = OutsideWindow ''release-2025'' None (Some 10) 11"
proof -
  have "\<not> accepts demo_crypto [demo_expired_key] ''Pdev'' None 11"
    and "same_key demo_crypto ''Pdev'' (normalize_pem ''Pdev'')"
    by code_simp+
  from refusal_reason_truthful [OF this(1)] this(2) show ?thesis
    by (auto simp: demo_expired_key_def valid_at_def)
qed

text \<open>
  Rotation is an overlap and revocation is removal: a root made of the old and the new keys
  accepts exactly what either accepts (so adding a successor never stops an accepted signature from
  verifying), removing a signer's keys makes the root refuse that signer at every moment and for
  every kind, and the empty root refuses everybody.
\<close>

theorem rotation_and_revocation:
  "accepts cr (old @ new) signer kind moment
      = (accepts cr old signer kind moment \<or> accepts cr new signer kind moment)
   \<and> \<not> accepts cr (filter (\<lambda>k. \<not> same_key cr (tk_pem k) (normalize_pem signer)) r) signer kind moment
   \<and> \<not> is_ok (verify_signature cr None (Some []) kind moment sg dg)"
  by (auto simp: accepts_iff honours_def is_ok_iff verify_signature_ok signer_trusted_def)

text \<open>
  A plugin loaded through Seal is signed by the trusted key: with signatures required and Seal's
  verifier installed, every manifest a registry resolves names a provenance digest, carries a cosign
  signature, and each of its cosign signatures is for exactly that digest, made by the trusted key,
  and verifies.
\<close>

theorem sealed_registry_resolves_only_signed:
  assumes "registry_resolve (register_all schema_ok
      (registry_init provided True (Some (make_verifier cr (Some pem) moment))) ms) n = Inr m"
  shows "\<exists>p dg. pm_provenance m = Some p \<and> prov_digest p = Some dg
    \<and> (\<exists>s \<in> set (all_signatures m). sig_scheme s = SIGSTORE_COSIGN)
    \<and> (\<forall>s \<in> set (all_signatures m). sig_scheme s = SIGSTORE_COSIGN \<longrightarrow>
        sig_payload s = Some dg
        \<and> (\<exists>cert val raw key. sig_certificate s = Some cert \<and> same_key cr pem cert
            \<and> load_public cr cert = Inr key \<and> sig_value s = Some val \<and> b64decode val = Some raw
            \<and> ec_verify cr key raw dg))"
proof -
  let ?reg = "register_all schema_ok
    (registry_init provided True (Some (make_verifier cr (Some pem) moment))) ms"
  have "registry_inv schema_ok ?reg"
    by (intro registry_inv_register_all registry_inv_init)
  from registry_resolve_ok [OF this assms]
  have "make_verifier cr (Some pem) moment m = None"
    using register_all_config [of schema_ok
      "registry_init provided True (Some (make_verifier cr (Some pem) moment))" ms]
    by (auto simp: admissible_def registry_init_def verified_by_def unsigned_def)
  then obtain p dg where p: "pm_provenance m = Some p" "prov_digest p = Some dg"
    and c: "\<exists>s \<in> set (all_signatures m). sig_scheme s = SIGSTORE_COSIGN"
    and v: "\<And>s. s \<in> set (all_signatures m) \<Longrightarrow> sig_scheme s = SIGSTORE_COSIGN \<Longrightarrow>
      verify_signature cr (Some pem) None None moment s dg = Inr ()"
    unfolding make_verifier_None by blast
  have "sig_payload s = Some dg
      \<and> (\<exists>cert val raw key. sig_certificate s = Some cert \<and> same_key cr pem cert
          \<and> load_public cr cert = Inr key \<and> sig_value s = Some val \<and> b64decode val = Some raw
          \<and> ec_verify cr key raw dg)"
    if "s \<in> set (all_signatures m)" "sig_scheme s = SIGSTORE_COSIGN" for s
    using v [OF that] by (auto simp: verify_signature_ok signer_trusted_def)
  with p c show ?thesis by blast
qed

definition demo_signed_manifest :: plugin_manifest where
  "demo_signed_manifest = demo_manifest\<lparr>
     pm_provenance := Some \<lparr>input_hashes = [], code_version = None, toolchain_version = None,
       env_lockfile = None, prov_seed = None, source_content_hashes = [], builder_version = None,
       prov_digest = Some ''d''\<rparr>,
     pm_signature := (case sign_digest demo_crypto ''d'' ''k'' of Inl _ \<Rightarrow> None | Inr s \<Rightarrow> Some s)\<rparr>"

definition demo_sealed_lookup :: "signature_error registry_error + plugin_manifest" where
  "demo_sealed_lookup = registry_resolve (register_all (\<lambda>_. True)
      (registry_init None True (Some (make_verifier demo_crypto (Some ''Pk'') 0)))
      [demo_signed_manifest]) ''lawnmower''"

lemma demo_signed_verifies: "make_verifier demo_crypto (Some ''Pk'') 0 demo_signed_manifest = None"
  by code_simp

theorem sealed_registry_resolves_only_signed_witness:
  "demo_sealed_lookup = Inr demo_signed_manifest
   \<and> (\<exists>s \<in> set (all_signatures demo_signed_manifest). sig_scheme s = SIGSTORE_COSIGN)"
proof -
  let ?reg = "registry_init None True (Some (make_verifier demo_crypto (Some ''Pk'') 0))"
  have "verified_by (reg_verifier ?reg) demo_signed_manifest"
    by (simp add: verified_by_def registry_init_def demo_signed_verifies)
  moreover have "\<not> gated demo_signed_manifest"
    "assert_core_compatible (pm_core_interfaces demo_signed_manifest) None = Inr ()"
    "\<not> unsigned demo_signed_manifest"
    by code_simp+
  ultimately have "admissible (\<lambda>_. True) ?reg demo_signed_manifest"
    by (simp add: admissible_def registry_init_def)
  then have "register (\<lambda>_. True) ?reg demo_signed_manifest = Inr (demo_signed_manifest,
      ?reg\<lparr>reg_by_name := [(''lawnmower'', demo_signed_manifest)]\<rparr>)"
    by (simp add: register_ok registry_init_def demo_signed_manifest_def demo_manifest_def)
  then have l: "demo_sealed_lookup = Inr demo_signed_manifest"
    by (simp add: demo_sealed_lookup_def registry_resolve_def)
  from sealed_registry_resolves_only_signed [OF l [unfolded demo_sealed_lookup_def]] l
  show ?thesis by blast
qed

text \<open>
  A signature whose value is not base64 is refused, but not with a signature error: after every
  earlier check has passed the decoder's own exception leaves \<^verbatim>\<open>verify_signature\<close>.
\<close>

theorem malformed_base64_escapes:
  assumes "sig_scheme sg = SIGSTORE_COSIGN" and "sig_payload sg = Some dg"
    and "sig_certificate sg = Some cert" and "sig_value sg = Some val" and "b64decode val = None"
    and "signer_trusted cr trusted roots kind moment cert" and "is_ok (load_public cr cert)"
  shows "verify_signature cr trusted roots kind moment sg dg = Inl BinasciiError"
  using assms
  by (auto simp: verify_signature_def check_signer_def signer_trusted_def is_ok_iff
      split: option.splits)

theorem malformed_base64_escapes_witness:
  "verify_signature demo_crypto (Some ''Pdev'') None None 0
     \<lparr>sig_scheme = SIGSTORE_COSIGN, sig_kind = COSIGN_SIGNATURE, sig_value = Some ''A'',
      sig_payload = Some ''sha256:aa'', sig_certificate = Some ''Pdev'', sig_digest = None\<rparr> ''sha256:aa''
   = Inl BinasciiError"
proof (rule malformed_base64_escapes)
  show "b64decode ''A'' = None" by code_simp
  have "is_ok (load_public demo_crypto ''Pdev'')" "same_key demo_crypto ''Pdev'' ''Pdev''" by code_simp+
  then show "signer_trusted demo_crypto (Some ''Pdev'') None None 0 ''Pdev''"
    and "is_ok (load_public demo_crypto ''Pdev'')"
    by (simp_all add: signer_trusted_def)
qed simp_all

end
