(* ===== verification/Seal_Verify.thy ===== *)
theory Seal_Verify
  imports Seal_Trust
begin

text \<open>
  Seal's two orchestrators over the registry-agnostic attestation port: \<^verbatim>\<open>attest\<close> with its document
  builders (\<^verbatim>\<open>seal/_attest.py\<close>) and the fail-closed \<^verbatim>\<open>verify\<close> (\<^verbatim>\<open>seal/_supply_chain.py\<close>). The port
  is a record of operations with the laws the protocol documents as a locale; the encodings of
  the payloads (pydantic, JSON) are the \<open>documents\<close> parameter.
\<close>

section \<open>The port\<close>

record ('s, 'x, 'b) attestation_store =
  attach_attestation :: "string \<Rightarrow> string \<Rightarrow> string \<Rightarrow> 'b \<Rightarrow> ('s, 'x, string) st"
  attestation_digests :: "'s \<Rightarrow> string \<Rightarrow> string \<Rightarrow> 'x + string list"
  read_attestation :: "'s \<Rightarrow> string \<Rightarrow> 'x + 'b"
  verify_integrity :: "'s \<Rightarrow> string \<Rightarrow> 'x + unit"

record 'b documents =
  dump_signature :: "signature \<Rightarrow> 'b"
  load_signature :: "'b \<Rightarrow> signature option"
  canonical_json :: "json \<Rightarrow> 'b"
  load_json :: "'b \<Rightarrow> json option"

text \<open>Encoding and decoding agree, up to the order of keys, on documents without fractions.\<close>

definition documents_ok :: "'b documents \<Rightarrow> bool" where
  "documents_ok dc =
    ((\<forall>s. load_signature dc (dump_signature dc s) = Some s)
     \<and> (\<forall>j. json_plain j \<longrightarrow> (\<exists>j'. load_json dc (canonical_json dc j) = Some j' \<and> json_same j' j)))"

definition ARTIFACT_TYPE_SIGNATURE :: string where
  "ARTIFACT_TYPE_SIGNATURE = ''application/vnd.astro-mine.signature.v1''"

definition ARTIFACT_TYPE_SLSA :: string where
  "ARTIFACT_TYPE_SLSA = ''application/vnd.astro-mine.provenance.slsa.v1''"

definition ARTIFACT_TYPE_SBOM :: string where
  "ARTIFACT_TYPE_SBOM = ''application/vnd.astro-mine.sbom.cyclonedx.v1''"

definition MEDIA_SIGNATURE :: string where
  "MEDIA_SIGNATURE = ''application/vnd.astro-mine.signature.v1+json''"

definition MEDIA_SLSA :: string where
  "MEDIA_SLSA = ''application/vnd.in-toto+json''"

definition MEDIA_SBOM :: string where
  "MEDIA_SBOM = ''application/vnd.cyclonedx+json''"

definition SLSA_PREDICATE_TYPE :: string where
  "SLSA_PREDICATE_TYPE = ''https://slsa.dev/provenance/v1''"

section \<open>The documents\<close>

datatype document_error = NotADigest string | ComponentWithoutName

datatype 'x attest_error =
    AttestSignature signature_error
  | AttestDocument document_error
  | AttestStore 'x

definition digest_parts :: "string \<Rightarrow> document_error + string \<times> string" where
  "digest_parts dg =
    (case partition_on CHR '':'' dg of
       (algorithm, _, hexpart) \<Rightarrow>
         if algorithm \<noteq> ''sha256'' \<or> hexpart = [] then Inl (NotADigest dg)
         else Inr (algorithm, hexpart))"

fun resolved_dependencies :: "string list \<Rightarrow> document_error + json list" where
  "resolved_dependencies [] = Inr []"
| "resolved_dependencies (h # hs) =
    rbind (digest_parts h) (\<lambda>(a, x).
    rbind (resolved_dependencies hs) (\<lambda>ds. Inr (JObj [(''digest'', JObj [(a, JStr x)])] # ds)))"

definition build_slsa_provenance ::
    "string \<Rightarrow> string \<Rightarrow> string \<Rightarrow> string list \<Rightarrow> document_error + json" where
  "build_slsa_provenance subject_name subject_digest builder_id inputs =
    rbind (digest_parts subject_digest) (\<lambda>(algorithm, hexpart).
    rbind (resolved_dependencies inputs) (\<lambda>deps.
      Inr (JObj
        [(''_type'', JStr ''https://in-toto.io/Statement/v1''),
         (''predicateType'', JStr SLSA_PREDICATE_TYPE),
         (''subject'', JList [JObj [(''name'', JStr subject_name),
            (''digest'', JObj [(algorithm, JStr hexpart)])]]),
         (''predicate'', JObj
           [(''buildDefinition'', JObj
               [(''buildType'', JStr ''https://astro-mine.org/hub/publish/v1''),
                (''externalParameters'', JObj []),
                (''resolvedDependencies'', JList deps)]),
            (''runDetails'', JObj
               [(''builder'', JObj [(''id'', JStr builder_id)]), (''metadata'', JObj [])])])])))"

fun sbom_components :: "(string, string) dict list \<Rightarrow> document_error + json list" where
  "sbom_components [] = Inr []"
| "sbom_components (c # cs) =
    (case dict_get c ''name'' of
       None \<Rightarrow> Inl ComponentWithoutName
     | Some n \<Rightarrow>
         rbind (sbom_components cs) (\<lambda>ds.
           Inr (JObj [(''type'', JStr ''library''), (''name'', JStr n),
                      (''version'', JStr (get_default c ''version'' []))] # ds)))"

definition build_cyclonedx_sbom ::
    "string \<Rightarrow> string \<Rightarrow> (string, string) dict list \<Rightarrow> document_error + json" where
  "build_cyclonedx_sbom name version components =
    rbind (sbom_components components) (\<lambda>cs.
      Inr (JObj
        [(''bomFormat'', JStr ''CycloneDX''), (''specVersion'', JStr ''1.5''), (''version'', JNum 1),
         (''metadata'', JObj [(''component'', JObj
            [(''type'', JStr ''data''), (''name'', JStr name), (''version'', JStr version)])]),
         (''components'', JList cs)]))"

section \<open>Attesting\<close>

record attestation_set =
  as_signature :: string
  as_slsa :: string
  as_sbom :: string

definition in_store :: "('s, 'x, 'a) st \<Rightarrow> ('s, 'x attest_error, 'a) st" where
  "in_store m = scatch m (\<lambda>e. sraise (AttestStore e))"

definition sign_for :: "('k, 'p) crypto \<Rightarrow> string \<Rightarrow> string \<Rightarrow> 'x attest_error + signature" where
  "sign_for cr subject private_pem =
    rerr AttestSignature (sign_digest cr subject private_pem)"

definition attest ::
    "('k, 'p) crypto \<Rightarrow> 'b documents \<Rightarrow> ('s, 'x, 'b) attestation_store \<Rightarrow> string \<Rightarrow> string \<Rightarrow> string
      \<Rightarrow> string \<Rightarrow> string \<Rightarrow> string list \<Rightarrow> (string, string) dict list
      \<Rightarrow> ('s, 'x attest_error, attestation_set) st" where
  "attest cr dc store subject private_pem name version builder_id inputs components =
    sbind (slift (sign_for cr subject private_pem)) (\<lambda>sg.
    sbind (in_store (attach_attestation store subject ARTIFACT_TYPE_SIGNATURE MEDIA_SIGNATURE
        (dump_signature dc sg))) (\<lambda>signature_digest.
    sbind (slift (rerr AttestDocument
        (build_slsa_provenance (name @ '':'' @ version) subject builder_id inputs))) (\<lambda>slsa.
    sbind (in_store (attach_attestation store subject ARTIFACT_TYPE_SLSA MEDIA_SLSA
        (canonical_json dc slsa))) (\<lambda>slsa_digest.
    sbind (slift (rerr AttestDocument (build_cyclonedx_sbom name version components))) (\<lambda>sbom.
    sbind (in_store (attach_attestation store subject ARTIFACT_TYPE_SBOM MEDIA_SBOM
        (canonical_json dc sbom))) (\<lambda>sbom_digest.
    sret \<lparr>as_signature = signature_digest, as_slsa = slsa_digest, as_sbom = sbom_digest\<rparr>))))))"

section \<open>Verifying\<close>

definition DEFAULT_REQUIRED :: "string list" where
  "DEFAULT_REQUIRED = [''signature'', ''slsa'', ''sbom'']"

datatype attestation_error = WrongPredicateType | NotCycloneDX

datatype 'x supply_error =
    UnknownEvidence "string list"
  | ArtifactIntegrity 'x
  | UnreadableAttestations string 'x
  | AttestationIntegrity string 'x
  | NotValidJson string
  | NotAJsonObject string
  | NoSignatureAttached
  | MalformedEnvelope
  | SignatureFailed signature_error
  | NoDocumentAttached string
  | BadDocument attestation_error
  | DigestNotPresent string
  | ConfigNotJson string
  | ConfigNotAnObject string
  | ManifestMismatch string
  | UnsignedArtifact string

definition verify_slsa_document :: "(string, json) dict \<Rightarrow> attestation_error + unit" where
  "verify_slsa_document doc =
    (if json_get doc ''predicateType'' \<noteq> JStr SLSA_PREDICATE_TYPE then Inl WrongPredicateType else Inr ())"

definition verify_sbom_document :: "(string, json) dict \<Rightarrow> attestation_error + unit" where
  "verify_sbom_document doc =
    (if json_get doc ''bomFormat'' \<noteq> JStr ''CycloneDX'' then Inl NotCycloneDX else Inr ())"

definition store_digests ::
    "('s, 'x, 'b) attestation_store \<Rightarrow> 's \<Rightarrow> string \<Rightarrow> string \<Rightarrow> string \<Rightarrow> 'x supply_error + string list" where
  "store_digests store s subject artifact_type label =
    rerr (UnreadableAttestations label) (attestation_digests store s subject artifact_type)"

definition store_payload ::
    "('s, 'x, 'b) attestation_store \<Rightarrow> 's \<Rightarrow> string \<Rightarrow> string \<Rightarrow> 'x supply_error + 'b" where
  "store_payload store s dg label =
    rerr (AttestationIntegrity label) (read_attestation store s dg)"

fun json_object :: "string \<Rightarrow> json option \<Rightarrow> 'x supply_error + (string, json) dict" where
  "json_object label None = Inl (NotValidJson label)"
| "json_object label (Some (JObj d)) = Inr d"
| "json_object label (Some _) = Inl (NotAJsonObject label)"

definition store_document ::
    "'b documents \<Rightarrow> ('s, 'x, 'b) attestation_store \<Rightarrow> 's \<Rightarrow> string \<Rightarrow> string
      \<Rightarrow> 'x supply_error + (string, json) dict" where
  "store_document dc store s dg label =
    rbind (store_payload store s dg label) (\<lambda>payload. json_object label (load_json dc payload))"

fun for_all_ok :: "('d \<Rightarrow> 'e + unit) \<Rightarrow> 'd list \<Rightarrow> 'e + unit" where
  "for_all_ok f [] = Inr ()"
| "for_all_ok f (d # ds) = rbind (f d) (\<lambda>_. for_all_ok f ds)"

definition check_one_signature ::
    "('k, 'p) crypto \<Rightarrow> 'b documents \<Rightarrow> ('s, 'x, 'b) attestation_store \<Rightarrow> 's \<Rightarrow> string
      \<Rightarrow> string option \<Rightarrow> trust_root option \<Rightarrow> string option \<Rightarrow> moment \<Rightarrow> string
      \<Rightarrow> 'x supply_error + unit" where
  "check_one_signature cr dc store s subject trusted roots kind moment dg =
    rbind (store_payload store s dg ''signature'') (\<lambda>payload.
      case load_signature dc payload of
        None \<Rightarrow> Inl MalformedEnvelope
      | Some sg \<Rightarrow> rerr SignatureFailed (verify_signature cr trusted roots kind moment sg subject))"

definition check_signatures ::
    "('k, 'p) crypto \<Rightarrow> 'b documents \<Rightarrow> ('s, 'x, 'b) attestation_store \<Rightarrow> 's \<Rightarrow> string
      \<Rightarrow> string option \<Rightarrow> trust_root option \<Rightarrow> string option \<Rightarrow> moment \<Rightarrow> 'x supply_error + unit" where
  "check_signatures cr dc store s subject trusted roots kind moment =
    rbind (store_digests store s subject ARTIFACT_TYPE_SIGNATURE ''signature'') (\<lambda>digests.
      if digests = [] then Inl NoSignatureAttached
      else for_all_ok (check_one_signature cr dc store s subject trusted roots kind moment) digests)"

definition check_documents ::
    "'b documents \<Rightarrow> ('s, 'x, 'b) attestation_store \<Rightarrow> 's \<Rightarrow> string \<Rightarrow> string \<Rightarrow> string
      \<Rightarrow> ((string, json) dict \<Rightarrow> attestation_error + unit) \<Rightarrow> 'x supply_error + unit" where
  "check_documents dc store s subject artifact_type label check =
    rbind (store_digests store s subject artifact_type label) (\<lambda>digests.
      if digests = [] then Inl (NoDocumentAttached label)
      else for_all_ok (\<lambda>dg.
        rbind (store_document dc store s dg label) (\<lambda>doc. rerr BadDocument (check doc))) digests)"

definition seal_verify ::
    "('k, 'p) crypto \<Rightarrow> 'b documents \<Rightarrow> ('s, 'x, 'b) attestation_store \<Rightarrow> string
      \<Rightarrow> string option \<Rightarrow> trust_root option \<Rightarrow> string option \<Rightarrow> moment \<Rightarrow> string list \<Rightarrow> 's
      \<Rightarrow> 'x supply_error + unit" where
  "seal_verify cr dc store subject trusted roots kind moment require s =
    (let unknown = sort (remdups (filter (\<lambda>t. t \<notin> set DEFAULT_REQUIRED) require)) in
     if unknown \<noteq> [] then Inl (UnknownEvidence unknown)
     else
         rbind (rerr ArtifactIntegrity (verify_integrity store s subject)) (\<lambda>_.
         rbind (if ''signature'' \<in> set require
                then check_signatures cr dc store s subject trusted roots kind moment else Inr ()) (\<lambda>_.
         rbind (if ''slsa'' \<in> set require
                then check_documents dc store s subject ARTIFACT_TYPE_SLSA ''SLSA provenance''
                       verify_slsa_document else Inr ()) (\<lambda>_.
         (if ''sbom'' \<in> set require
          then check_documents dc store s subject ARTIFACT_TYPE_SBOM ''SBOM'' verify_sbom_document
          else Inr ())))))"

section \<open>What verification establishes\<close>

lemma for_all_ok_iff: "(for_all_ok f ds = Inr ()) = (\<forall>d \<in> set ds. f d = Inr ())"
  by (induction ds) (auto simp: rbind_Inr)

definition valid_signature_at ::
    "('k, 'p) crypto \<Rightarrow> 'b documents \<Rightarrow> ('s, 'x, 'b) attestation_store \<Rightarrow> 's \<Rightarrow> string
      \<Rightarrow> string option \<Rightarrow> trust_root option \<Rightarrow> string option \<Rightarrow> moment \<Rightarrow> string \<Rightarrow> bool" where
  "valid_signature_at cr dc store s subject trusted roots kind moment dg =
    (\<exists>payload sg. read_attestation store s dg = Inr payload \<and> load_signature dc payload = Some sg
      \<and> verify_signature cr trusted roots kind moment sg subject = Inr ())"

definition valid_document_at ::
    "'b documents \<Rightarrow> ('s, 'x, 'b) attestation_store \<Rightarrow> 's \<Rightarrow> string \<Rightarrow> string \<Rightarrow> string \<Rightarrow> bool" where
  "valid_document_at dc store s field value dg =
    (\<exists>payload d. read_attestation store s dg = Inr payload \<and> load_json dc payload = Some (JObj d)
      \<and> json_get d field = JStr value)"

text \<open>Every attestation of a type is there, and all of them are valid.\<close>

definition evidence_ok ::
    "('s, 'x, 'b) attestation_store \<Rightarrow> 's \<Rightarrow> string \<Rightarrow> string \<Rightarrow> (string \<Rightarrow> bool) \<Rightarrow> bool" where
  "evidence_ok store s subject artifact_type valid =
    (\<exists>ds. attestation_digests store s subject artifact_type = Inr ds \<and> ds \<noteq> [] \<and> (\<forall>d \<in> set ds. valid d))"

lemma store_digests_ok [simp]:
  "(store_digests store s subject t label = Inr ds) = (attestation_digests store s subject t = Inr ds)"
  by (simp add: store_digests_def)

lemma store_payload_ok [simp]:
  "(store_payload store s dg label = Inr b) = (read_attestation store s dg = Inr b)"
  by (simp add: store_payload_def)

lemma json_object_ok [simp]: "(json_object label j = Inr d) = (j = Some (JObj d))"
  by (induction label j rule: json_object.induct) auto

lemma store_document_ok:
  "(store_document dc store s dg label = Inr d) =
    (\<exists>payload. read_attestation store s dg = Inr payload \<and> load_json dc payload = Some (JObj d))"
  by (auto simp: store_document_def rbind_Inr)

lemma check_one_signature_ok:
  "(check_one_signature cr dc store s subject trusted roots kind moment dg = Inr ())
    = valid_signature_at cr dc store s subject trusted roots kind moment dg"
  by (auto simp: check_one_signature_def valid_signature_at_def rbind_Inr split: option.splits sum.splits)

lemma check_signatures_ok:
  "(check_signatures cr dc store s subject trusted roots kind moment = Inr ())
    = evidence_ok store s subject ARTIFACT_TYPE_SIGNATURE
        (valid_signature_at cr dc store s subject trusted roots kind moment)"
  by (auto simp: check_signatures_def evidence_ok_def rbind_Inr for_all_ok_iff check_one_signature_ok)

lemma check_documents_ok:
  assumes "\<And>d. (check d = Inr ()) = (json_get d field = JStr value)"
  shows "(check_documents dc store s subject t label check = Inr ())
    = evidence_ok store s subject t (valid_document_at dc store s field value)"
proof -
  have "(rbind (store_document dc store s dg label) (\<lambda>doc. rerr BadDocument (check doc)) = Inr ())
    = valid_document_at dc store s field value dg" for dg
    by (auto simp: rbind_Inr store_document_ok valid_document_at_def assms [symmetric] split: sum.splits)
  then show ?thesis
    by (auto simp: check_documents_def evidence_ok_def rbind_Inr for_all_ok_iff)
qed

lemma verify_slsa_ok:
  "(check_documents dc store s subject t label verify_slsa_document = Inr ())
    = evidence_ok store s subject t (valid_document_at dc store s ''predicateType'' SLSA_PREDICATE_TYPE)"
  by (rule check_documents_ok) (simp add: verify_slsa_document_def)

lemma verify_sbom_ok:
  "(check_documents dc store s subject t label verify_sbom_document = Inr ())
    = evidence_ok store s subject t (valid_document_at dc store s ''bomFormat'' ''CycloneDX'')"
  by (rule check_documents_ok) (simp add: verify_sbom_document_def)

lemma seal_verify_ok:
  "(seal_verify cr dc store subject trusted roots kind moment require s = Inr ()) =
    (set require \<subseteq> set DEFAULT_REQUIRED \<and> verify_integrity store s subject = Inr ()
     \<and> (''signature'' \<in> set require \<longrightarrow> evidence_ok store s subject ARTIFACT_TYPE_SIGNATURE
          (valid_signature_at cr dc store s subject trusted roots kind moment))
     \<and> (''slsa'' \<in> set require \<longrightarrow> evidence_ok store s subject ARTIFACT_TYPE_SLSA
          (valid_document_at dc store s ''predicateType'' SLSA_PREDICATE_TYPE))
     \<and> (''sbom'' \<in> set require \<longrightarrow> evidence_ok store s subject ARTIFACT_TYPE_SBOM
          (valid_document_at dc store s ''bomFormat'' ''CycloneDX'')))"
proof -
  have "(sort (remdups (filter (\<lambda>t. t \<notin> set DEFAULT_REQUIRED) require)) = [])
      = (set require \<subseteq> set DEFAULT_REQUIRED)"
    by (auto simp: filter_empty_conv simp flip: set_empty)
  then show ?thesis
    by (simp add: seal_verify_def Let_def check_signatures_ok verify_slsa_ok verify_sbom_ok rbind_Inr
        split: sum.splits)
qed

section \<open>The port's contract\<close>

text \<open>
  What the protocol asks of an implementation: an attachment is found again under its type and
  read back unchanged, and attaching loses neither evidence nor integrity. \<open>inv\<close> is the
  implementation's own invariant, \<open>allowed\<close> the payloads it can hold without an address collision.
\<close>

locale attestation_port =
  fixes store :: "('s, 'x, 'b) attestation_store"
    and inv :: "'s \<Rightarrow> bool"
    and allowed :: "string \<Rightarrow> string \<Rightarrow> string \<Rightarrow> 'b \<Rightarrow> bool"
  assumes attach_succeeds:
      "inv s \<Longrightarrow> verify_integrity store s subject = Inr () \<Longrightarrow> allowed subject t media payload \<Longrightarrow>
        \<exists>d s'. attach_attestation store subject t media payload s = (Inr d, s')"
    and attach_inv:
      "inv s \<Longrightarrow> allowed subject t media payload \<Longrightarrow>
        attach_attestation store subject t media payload s = (Inr d, s') \<Longrightarrow> inv s'"
    and attach_read:
      "inv s \<Longrightarrow> allowed subject t media payload \<Longrightarrow>
        attach_attestation store subject t media payload s = (Inr d, s') \<Longrightarrow>
        read_attestation store s' d = Inr payload"
    and attach_listed:
      "inv s \<Longrightarrow> allowed subject t media payload \<Longrightarrow>
        attach_attestation store subject t media payload s = (Inr d, s') \<Longrightarrow>
        attestation_digests store s sub u = Inr ds \<Longrightarrow>
        attestation_digests store s' sub u = Inr (ds @ (if sub = subject \<and> u = t then [d] else []))"
    and attach_keeps_reads:
      "inv s \<Longrightarrow> attach_attestation store subject t media payload s = (Inr d, s') \<Longrightarrow>
        read_attestation store s x = Inr p \<Longrightarrow> read_attestation store s' x = Inr p"
    and attach_keeps_integrity:
      "inv s \<Longrightarrow> attach_attestation store subject t media payload s = (Inr d, s') \<Longrightarrow>
        verify_integrity store s x = Inr () \<Longrightarrow> verify_integrity store s' x = Inr ()"
begin

lemma attach_step:
  assumes "inv s" and "verify_integrity store s subject = Inr ()" and "allowed subject t media payload"
  obtains d s' where "attach_attestation store subject t media payload s = (Inr d, s')"
    and "inv s'" and "verify_integrity store s' subject = Inr ()"
    and "read_attestation store s' d = Inr payload"
    and "\<And>u ds. attestation_digests store s subject u = Inr ds \<Longrightarrow>
        attestation_digests store s' subject u = Inr (ds @ (if u = t then [d] else []))"
    and "\<And>x p. read_attestation store s x = Inr p \<Longrightarrow> read_attestation store s' x = Inr p"
proof -
  obtain d s' where a: "attach_attestation store subject t media payload s = (Inr d, s')"
    using attach_succeeds [OF assms] by blast
  show ?thesis
    by (rule that [OF a attach_inv [OF assms(1,3) a] attach_keeps_integrity [OF assms(1) a assms(2)]
          attach_read [OF assms(1,3) a] _ attach_keeps_reads [OF assms(1) a]])
      (use attach_listed [OF assms(1,3) a] in simp_all)
qed

end

lemma artifact_types_distinct [simp]:
  "ARTIFACT_TYPE_SIGNATURE \<noteq> ARTIFACT_TYPE_SLSA" "ARTIFACT_TYPE_SLSA \<noteq> ARTIFACT_TYPE_SIGNATURE"
  "ARTIFACT_TYPE_SIGNATURE \<noteq> ARTIFACT_TYPE_SBOM" "ARTIFACT_TYPE_SBOM \<noteq> ARTIFACT_TYPE_SIGNATURE"
  "ARTIFACT_TYPE_SLSA \<noteq> ARTIFACT_TYPE_SBOM" "ARTIFACT_TYPE_SBOM \<noteq> ARTIFACT_TYPE_SLSA"
  by (simp_all add: ARTIFACT_TYPE_SIGNATURE_def ARTIFACT_TYPE_SLSA_def ARTIFACT_TYPE_SBOM_def)

lemma in_store_ok: "m s = (Inr x, s') \<Longrightarrow> in_store m s = (Inr x, s')"
  by (simp add: in_store_def scatch_def)

lemma dependencies_plain:
  "resolved_dependencies hs = Inr js \<Longrightarrow> list_all json_plain js"
  by (induction hs arbitrary: js) (auto simp: rbind_Inr)

lemma components_plain: "sbom_components cs = Inr js \<Longrightarrow> list_all json_plain js"
  by (induction cs arbitrary: js) (auto simp: rbind_Inr split: option.splits)

lemma slsa_predicate:
  "build_slsa_provenance n d b ins = Inr j \<Longrightarrow>
    json_plain j \<and> (\<exists>doc. j = JObj doc \<and> json_get doc ''predicateType'' = JStr SLSA_PREDICATE_TYPE)"
  by (auto simp: build_slsa_provenance_def rbind_Inr list.pred_map o_def dest: dependencies_plain)

lemma sbom_format:
  "build_cyclonedx_sbom n v cs = Inr j \<Longrightarrow>
    json_plain j \<and> (\<exists>doc. j = JObj doc \<and> json_get doc ''bomFormat'' = JStr ''CycloneDX'')"
  by (auto simp: build_cyclonedx_sbom_def rbind_Inr list.pred_map o_def dest: components_plain)

lemma documents_field:
  assumes "documents_ok dc" and "json_plain j" and "\<exists>doc. j = JObj doc \<and> json_get doc field = JStr v"
  obtains d' where "load_json dc (canonical_json dc j) = Some (JObj d')" and "json_get d' field = JStr v"
proof -
  obtain doc where doc: "j = JObj doc" "json_get doc field = JStr v"
    using assms(3) by blast
  obtain j' where j': "load_json dc (canonical_json dc j) = Some j'" "json_same j' (JObj doc)"
    using assms(1,2) doc(1) unfolding documents_ok_def by blast
  obtain d' where d': "j' = JObj d'"
    using json_same_JObj [OF j'(2)] by blast
  show ?thesis
    by (rule that [of d']) (use j' d' doc(2) json_same_get in auto)
qed

lemma digest_parts_sha: "is_ok (digest_parts dg) = (\<exists>h. dg = ''sha256'' @ CHR '':'' # h \<and> h \<noteq> [])"
proof -
  have "partition_on CHR '':'' (''sha256'' @ CHR '':'' # h) = (''sha256'', True, h)" for h
    by (rule partition_on_append) simp
  moreover have "dg = ''sha256'' @ CHR '':'' # h" if "partition_on CHR '':'' dg = (''sha256'', f, h)" "h \<noteq> []" for f h
    using that partition_on_found [of "CHR '':''" dg "''sha256''" h]
      partition_on_nosep [of "CHR '':''" dg "''sha256''" h] by (cases f) auto
  ultimately show ?thesis
    by (auto simp: digest_parts_def is_ok_def split: prod.splits if_splits)
qed

text \<open>The arguments from which the two documents can be built.\<close>

definition attestable ::
    "string \<Rightarrow> string list \<Rightarrow> (string, string) dict list \<Rightarrow> bool" where
  "attestable subject inputs components =
    ((\<forall>d \<in> set (subject # inputs). starts_with ''sha256:'' d \<and> d \<noteq> ''sha256:'')
     \<and> (\<forall>c \<in> set components. dict_get c ''name'' \<noteq> None))"

lemma digest_parts_attestable:
  "starts_with ''sha256:'' d \<Longrightarrow> d \<noteq> ''sha256:'' \<Longrightarrow> \<exists>p. digest_parts d = Inr p"
  using digest_parts_sha [of d] by (auto simp: is_ok_iff starts_with_ex)

lemma resolved_dependencies_total:
  "\<forall>d \<in> set inputs. starts_with ''sha256:'' d \<and> d \<noteq> ''sha256:'' \<Longrightarrow> \<exists>js. resolved_dependencies inputs = Inr js"
proof (induction inputs)
  case Nil
  show ?case by simp
next
  case (Cons d ds)
  then obtain p js where "digest_parts d = Inr p" and "resolved_dependencies ds = Inr js"
    using digest_parts_attestable [of d] by fastforce
  then show ?case by (cases p) simp
qed

lemma build_slsa_total:
  assumes "attestable subject inputs components"
  shows "\<exists>j. build_slsa_provenance n subject b inputs = Inr j"
proof -
  obtain p where "digest_parts subject = Inr p"
    using assms digest_parts_attestable [of subject] by (auto simp: attestable_def)
  moreover obtain js where "resolved_dependencies inputs = Inr js"
    using assms resolved_dependencies_total [of inputs] by (auto simp: attestable_def)
  ultimately show ?thesis by (cases p) (simp add: build_slsa_provenance_def)
qed

lemma sbom_components_total:
  "\<forall>c \<in> set cs. dict_get c ''name'' \<noteq> None \<Longrightarrow> \<exists>js. sbom_components cs = Inr js"
  by (induction cs) (auto split: option.splits)

lemma build_sbom_total:
  "attestable subject inputs components \<Longrightarrow> \<exists>j. build_cyclonedx_sbom n v components = Inr j"
  using sbom_components_total [of components] by (auto simp: attestable_def build_cyclonedx_sbom_def)

text \<open>The payloads \<^verbatim>\<open>attest\<close> attaches.\<close>

definition attest_payloads ::
    "('k, 'p) crypto \<Rightarrow> 'b documents \<Rightarrow> string \<Rightarrow> string \<Rightarrow> string \<Rightarrow> string \<Rightarrow> string \<Rightarrow> string list
      \<Rightarrow> (string, string) dict list \<Rightarrow> (string \<times> string \<times> 'b) list" where
  "attest_payloads cr dc subject private_pem name version builder_id inputs components =
    (case sign_digest cr subject private_pem of Inl _ \<Rightarrow> []
     | Inr sg \<Rightarrow> [(ARTIFACT_TYPE_SIGNATURE, MEDIA_SIGNATURE, dump_signature dc sg)])
    @ (case build_slsa_provenance (name @ '':'' @ version) subject builder_id inputs of Inl _ \<Rightarrow> [] | Inr j \<Rightarrow> [(ARTIFACT_TYPE_SLSA, MEDIA_SLSA, canonical_json dc j)])
    @ (case build_cyclonedx_sbom name version components of Inl _ \<Rightarrow> [] | Inr j \<Rightarrow> [(ARTIFACT_TYPE_SBOM, MEDIA_SBOM, canonical_json dc j)])"

text \<open>An artifact nobody has attested yet.\<close>

definition unattested :: "('s, 'x, 'b) attestation_store \<Rightarrow> 's \<Rightarrow> string \<Rightarrow> bool" where
  "unattested store s subject =
    (\<forall>t \<in> {ARTIFACT_TYPE_SIGNATURE, ARTIFACT_TYPE_SLSA, ARTIFACT_TYPE_SBOM}.
       attestation_digests store s subject t = Inr [])"

context attestation_port
begin

lemma attest_then_verify:
  assumes "inv s" and fresh: "unattested store s subject" and intact: "verify_integrity store s subject = Inr ()"
    and dc: "documents_ok dc"
    and sign: "sign_digest cr subject private_pem = Inr sg"
    and signed: "verify_signature cr trusted roots kind moment sg subject = Inr ()"
    and doc: "attestable subject inputs components"
    and ok: "\<And>t media payload. (t, media, payload) \<in> set (attest_payloads cr dc subject private_pem name
        version builder_id inputs components) \<Longrightarrow> allowed subject t media payload"
  shows "\<exists>out s'. attest cr dc store subject private_pem name version builder_id inputs components s
      = (Inr out, s') \<and> inv s'
    \<and> seal_verify cr dc store subject trusted roots kind moment DEFAULT_REQUIRED s' = Inr ()"
proof -
  obtain slsa where slsa: "build_slsa_provenance (name @ '':'' @ version) subject builder_id inputs = Inr slsa"
    using build_slsa_total [OF doc] by blast
  obtain sbom where sbom: "build_cyclonedx_sbom name version components = Inr sbom"
    using build_sbom_total [OF doc] by blast
  have pay: "attest_payloads cr dc subject private_pem name version builder_id inputs components =
      [(ARTIFACT_TYPE_SIGNATURE, MEDIA_SIGNATURE, dump_signature dc sg),
       (ARTIFACT_TYPE_SLSA, MEDIA_SLSA, canonical_json dc slsa),
       (ARTIFACT_TYPE_SBOM, MEDIA_SBOM, canonical_json dc sbom)]"
    by (simp add: attest_payloads_def sign slsa [simplified] sbom)
  have a: "allowed subject ARTIFACT_TYPE_SIGNATURE MEDIA_SIGNATURE (dump_signature dc sg)"
    "allowed subject ARTIFACT_TYPE_SLSA MEDIA_SLSA (canonical_json dc slsa)"
    "allowed subject ARTIFACT_TYPE_SBOM MEDIA_SBOM (canonical_json dc sbom)"
    by (rule ok; simp add: pay)+
  obtain d1 s1 where s1: "attach_attestation store subject ARTIFACT_TYPE_SIGNATURE MEDIA_SIGNATURE
        (dump_signature dc sg) s = (Inr d1, s1)" "inv s1" "verify_integrity store s1 subject = Inr ()"
      "read_attestation store s1 d1 = Inr (dump_signature dc sg)"
    and l1: "\<And>u ds. attestation_digests store s subject u = Inr ds \<Longrightarrow> attestation_digests store s1 subject u
        = Inr (ds @ (if u = ARTIFACT_TYPE_SIGNATURE then [d1] else []))"
    by (rule attach_step [OF assms(1) intact a(1)]) blast
  obtain d2 s2 where s2: "attach_attestation store subject ARTIFACT_TYPE_SLSA MEDIA_SLSA
        (canonical_json dc slsa) s1 = (Inr d2, s2)" "inv s2" "verify_integrity store s2 subject = Inr ()"
      "read_attestation store s2 d2 = Inr (canonical_json dc slsa)"
    and l2: "\<And>u ds. attestation_digests store s1 subject u = Inr ds \<Longrightarrow> attestation_digests store s2 subject u
        = Inr (ds @ (if u = ARTIFACT_TYPE_SLSA then [d2] else []))"
    and k2: "\<And>x p. read_attestation store s1 x = Inr p \<Longrightarrow> read_attestation store s2 x = Inr p"
    by (rule attach_step [OF s1(2,3) a(2)]) blast
  obtain d3 s3 where s3: "attach_attestation store subject ARTIFACT_TYPE_SBOM MEDIA_SBOM
        (canonical_json dc sbom) s2 = (Inr d3, s3)" "inv s3" "verify_integrity store s3 subject = Inr ()"
      "read_attestation store s3 d3 = Inr (canonical_json dc sbom)"
    and l3: "\<And>u ds. attestation_digests store s2 subject u = Inr ds \<Longrightarrow> attestation_digests store s3 subject u
        = Inr (ds @ (if u = ARTIFACT_TYPE_SBOM then [d3] else []))"
    and k3: "\<And>x p. read_attestation store s2 x = Inr p \<Longrightarrow> read_attestation store s3 x = Inr p"
    by (rule attach_step [OF s2(2,3) a(3)]) blast
  have run: "attest cr dc store subject private_pem name version builder_id inputs components s
      = (Inr \<lparr>as_signature = d1, as_slsa = d2, as_sbom = d3\<rparr>, s3)"
    by (simp add: attest_def sign_for_def sign slsa [simplified] sbom in_store_def scatch_def sbind_def
        st_defs s1(1) s2(1) s3(1))
  have none: "attestation_digests store s subject ARTIFACT_TYPE_SIGNATURE = Inr []"
    "attestation_digests store s subject ARTIFACT_TYPE_SLSA = Inr []"
    "attestation_digests store s subject ARTIFACT_TYPE_SBOM = Inr []"
    using fresh by (simp_all add: unattested_def)
  have "attestation_digests store s3 subject ARTIFACT_TYPE_SIGNATURE = Inr [d1]"
    using l3 [OF l2 [OF l1 [OF none(1)]]] by simp
  moreover have "read_attestation store s3 d1 = Inr (dump_signature dc sg)"
    using s1(4) k2 k3 by blast
  then have "valid_signature_at cr dc store s3 subject trusted roots kind moment d1"
    using dc signed by (auto simp: valid_signature_at_def documents_ok_def)
  ultimately have e1: "evidence_ok store s3 subject ARTIFACT_TYPE_SIGNATURE
      (valid_signature_at cr dc store s3 subject trusted roots kind moment)"
    by (simp add: evidence_ok_def)
  have "attestation_digests store s3 subject ARTIFACT_TYPE_SLSA = Inr [d2]"
    using l3 [OF l2 [OF l1 [OF none(2)]]] by simp
  moreover have "read_attestation store s3 d2 = Inr (canonical_json dc slsa)"
    using s2(4) k3 by blast
  then have "valid_document_at dc store s3 ''predicateType'' SLSA_PREDICATE_TYPE d2"
    using slsa_predicate [OF slsa] by (auto simp: valid_document_at_def elim: documents_field [OF dc])
  ultimately have e2: "evidence_ok store s3 subject ARTIFACT_TYPE_SLSA
      (valid_document_at dc store s3 ''predicateType'' SLSA_PREDICATE_TYPE)"
    by (simp add: evidence_ok_def)
  have "attestation_digests store s3 subject ARTIFACT_TYPE_SBOM = Inr [d3]"
    using l3 [OF l2 [OF l1 [OF none(3)]]] by simp
  moreover have "valid_document_at dc store s3 ''bomFormat'' ''CycloneDX'' d3"
    using sbom_format [OF sbom] s3(4) by (auto simp: valid_document_at_def elim: documents_field [OF dc])
  ultimately have e3: "evidence_ok store s3 subject ARTIFACT_TYPE_SBOM
      (valid_document_at dc store s3 ''bomFormat'' ''CycloneDX'')"
    by (simp add: evidence_ok_def)
  show ?thesis
    using run s3(2,3) e1 e2 e3 by (simp add: seal_verify_ok)
qed

end

section \<open>Properties\<close>

text \<open>
  C27: Verification is fail closed and exact: it returns only when every requirement is a kind Seal
  knows, the artifact's bytes are intact and, for each required kind, the store lists at least one
  attestation and every listed one (not just the first) reads back intact and is valid: each
  signature verifies over the subject under the caller's trust, each provenance document has the
  SLSA predicate type, each SBOM is CycloneDX. In every other case it raises.
\<close>

theorem verification_exact:
  "(seal_verify cr dc store subject trusted roots kind moment require s = Inr ()) =
    (set require \<subseteq> set DEFAULT_REQUIRED \<and> verify_integrity store s subject = Inr ()
     \<and> (''signature'' \<in> set require \<longrightarrow> evidence_ok store s subject ARTIFACT_TYPE_SIGNATURE
          (valid_signature_at cr dc store s subject trusted roots kind moment))
     \<and> (''slsa'' \<in> set require \<longrightarrow> evidence_ok store s subject ARTIFACT_TYPE_SLSA
          (valid_document_at dc store s ''predicateType'' SLSA_PREDICATE_TYPE))
     \<and> (''sbom'' \<in> set require \<longrightarrow> evidence_ok store s subject ARTIFACT_TYPE_SBOM
          (valid_document_at dc store s ''bomFormat'' ''CycloneDX'')))"
  by (rule seal_verify_ok)

text \<open>A store holding one good signature and, appended by someone else, one for another artifact.\<close>

definition demo_documents :: "(signature + json) documents" where
  "demo_documents =
    \<lparr>dump_signature = Inl, load_signature = (\<lambda>b. case b of Inl s \<Rightarrow> Some s | Inr _ \<Rightarrow> None),
     canonical_json = Inr, load_json = (\<lambda>b. case b of Inl _ \<Rightarrow> None | Inr j \<Rightarrow> Some j)\<rparr>"

definition demo_sig :: "string \<Rightarrow> signature" where
  "demo_sig dg = (case sign_digest demo_crypto dg ''k'' of Inr s \<Rightarrow> s)"

definition demo_store :: "(unit, unit, signature + json) attestation_store" where
  "demo_store =
    \<lparr>attach_attestation = (\<lambda>_ _ _ _. sraise ()),
     attestation_digests = (\<lambda>_ _ t. Inr (if t = ARTIFACT_TYPE_SIGNATURE then [''g'', ''b''] else [])),
     read_attestation = (\<lambda>_ d. Inr (Inl (demo_sig (if d = ''g'' then ''d'' else ''e'')))),
     verify_integrity = (\<lambda>_ _. Inr ())\<rparr>"

theorem verification_exact_witness:
  "seal_verify demo_crypto demo_documents demo_store ''d'' (Some ''Pk'') None None 0 [''signature''] ()
    \<noteq> Inr ()"
proof -
  have "verify_signature demo_crypto (Some ''Pk'') None None 0 (demo_sig ''e'') ''d'' \<noteq> Inr ()"
    by (auto simp: verify_signature_ok demo_sig_def sign_digest_def load_private_def demo_crypto_def)
  then have "\<not> evidence_ok demo_store () ''d'' ARTIFACT_TYPE_SIGNATURE
      (valid_signature_at demo_crypto demo_documents demo_store () ''d'' (Some ''Pk'') None None 0)"
    by (auto simp: evidence_ok_def valid_signature_at_def demo_store_def demo_documents_def)
  then show ?thesis
    by (simp add: verification_exact)
qed

end
