(* ===== verification/Hub_Supply.thy ===== *)
theory Hub_Supply
  imports Hub_Store Hub_Catalog Seal_Verify
begin

text \<open>
  Where Hub's registry meets Seal: \<^verbatim>\<open>RegistryAttestationStore\<close> binds the OCI layout to Seal's port
  (\<^verbatim>\<open>hub/supply_chain/_supply_chain.py\<close>), proved here to satisfy the port's laws, and the admission
  gate (\<^verbatim>\<open>hub/supply_chain/_admit.py\<close>) verifies an artifact and only then indexes it. The JSON
  projection of a manifest (pydantic) is the \<open>manifests\<close> parameter.
\<close>

section \<open>The adapter\<close>

definition registry_attach ::
    "'b codec \<Rightarrow> string \<Rightarrow> string \<Rightarrow> string \<Rightarrow> 'b \<Rightarrow> ('b layout, hub_error, string) st" where
  "registry_attach cd subject ty media payload =
    sbind (attach cd subject ty \<lparr>blob_media = media, blob_data = payload\<rparr> []) (\<lambda>d. sret (digest d))"

definition registry_digests ::
    "'b codec \<Rightarrow> 'b layout \<Rightarrow> string \<Rightarrow> string \<Rightarrow> hub_error + string list" where
  "registry_digests cd lay subject ty =
    rbind (referrers cd lay subject (Some ty)) (\<lambda>refs. Inr (map digest refs))"

definition registry_read :: "'b codec \<Rightarrow> 'b layout \<Rightarrow> string \<Rightarrow> hub_error + 'b" where
  "registry_read cd lay dg =
    rbind (verify cd lay dg) (\<lambda>_.
    rbind (read_manifest cd lay dg) (\<lambda>m.
      case im_layers m of [] \<Rightarrow> Inl (NoLayers dg) | l # _ \<Rightarrow> read_blob lay (digest l)))"

definition registry_store :: "'b codec \<Rightarrow> ('b layout, hub_error, 'b) attestation_store" where
  "registry_store cd =
    \<lparr>attach_attestation = registry_attach cd, attestation_digests = registry_digests cd,
     read_attestation = registry_read cd, verify_integrity = verify cd\<rparr>"

section \<open>The adapter satisfies the port's contract\<close>

text \<open>\<open>U\<close> is the set of contents in play, on which SHA-256 has no collision.\<close>

definition store_inv :: "'b codec \<Rightarrow> 'b set \<Rightarrow> 'b layout \<Rightarrow> bool" where
  "store_inv cd U lay =
    (digests_ok cd \<and> json_ok cd \<and> layout_wf cd lay \<and> inj_on (hexdigest cd) U
     \<and> set (dict_values (blobs lay)) \<subseteq> U)"

definition referrer_manifest ::
    "'b codec \<Rightarrow> string \<Rightarrow> string \<Rightarrow> string \<Rightarrow> 'b \<Rightarrow> image_manifest" where
  "referrer_manifest cd subject ty media payload =
    \<lparr>im_artifact_type = ty,
     im_config = blob_descriptor cd \<lparr>blob_media = MEDIA_EMPTY, blob_data = empty_config cd\<rparr>,
     im_layers = [blob_descriptor cd \<lparr>blob_media = media, blob_data = payload\<rparr>],
     im_subject = Some subject, im_annotations = []\<rparr>"

definition store_allowed :: "'b codec \<Rightarrow> 'b set \<Rightarrow> string \<Rightarrow> string \<Rightarrow> string \<Rightarrow> 'b \<Rightarrow> bool" where
  "store_allowed cd U subject ty media payload =
    ({empty_config cd, payload, dumps cd (referrer_manifest cd subject ty media payload)} \<subseteq> U)"

definition referrer_blobs :: "'b codec \<Rightarrow> string \<Rightarrow> string \<Rightarrow> string \<Rightarrow> 'b \<Rightarrow> 'b blob list" where
  "referrer_blobs cd subject ty media payload =
    [\<lparr>blob_media = MEDIA_EMPTY, blob_data = empty_config cd\<rparr>,
     \<lparr>blob_media = media, blob_data = payload\<rparr>,
     canonical_manifest cd (referrer_manifest cd subject ty media payload)]"

lemma registry_attach_eq:
  assumes "digests_ok cd"
  shows "registry_attach cd subject ty media payload lay =
    (case has_blob lay subject of
       Inl e \<Rightarrow> (Inl e, lay)
     | Inr present \<Rightarrow>
         if \<not> present then (Inl (ArtifactNotFound subject), lay)
         else let dg = content_hash cd (dumps cd (referrer_manifest cd subject ty media payload))
              in (Inr dg, (fold (put_layout cd) (referrer_blobs cd subject ty media payload) lay)
                    \<lparr>index := index lay @ [(blob_descriptor cd (canonical_manifest cd
                        (referrer_manifest cd subject ty media payload)))\<lparr>artifact_type := Some ty\<rparr>]\<rparr>))"
  by (cases "has_blob lay subject")
    (simp_all add: registry_attach_def attach_eq [OF assms] Let_def sbind_def sret_def
      referrer_blobs_def referrer_manifest_def canonical_manifest_def)

lemma registry_attach_Inr:
  assumes "digests_ok cd" and "registry_attach cd subject ty media payload lay = (Inr dg, lay')"
  shows "has_blob lay subject = Inr True
    \<and> dg = content_hash cd (dumps cd (referrer_manifest cd subject ty media payload))
    \<and> lay' = (fold (put_layout cd) (referrer_blobs cd subject ty media payload) lay)
        \<lparr>index := index lay @ [(blob_descriptor cd (canonical_manifest cd
            (referrer_manifest cd subject ty media payload)))\<lparr>artifact_type := Some ty\<rparr>]\<rparr>"
  using assms by (auto simp: registry_attach_eq Let_def split: sum.splits if_splits)

lemma registry_attach_grows:
  "digests_ok cd \<Longrightarrow> registry_attach cd subject ty media payload lay = (Inr dg, lay') \<Longrightarrow> grows lay lay'"
  using fold_put_grows [of lay cd "referrer_blobs cd subject ty media payload"]
  by (auto simp: grows_def dest: registry_attach_Inr)

lemma verify_blob_grows:
  "grows lay lay' \<Longrightarrow> verify_blob cd lay dg = Inr () \<Longrightarrow> verify_blob cd lay' dg = Inr ()"
  by (auto simp: verify_blob_def rbind_Inr dest: read_blob_grows split: if_splits)

lemma verify_grows: "grows lay lay' \<Longrightarrow> verify cd lay dg = Inr () \<Longrightarrow> verify cd lay' dg = Inr ()"
  by (auto simp: verify_def rbind_Inr verify_blobs_ok dest: verify_blob_grows read_manifest_grows)

lemma registry_read_Inr:
  "(registry_read cd lay dg = Inr b) =
    (verify cd lay dg = Inr () \<and> (\<exists>m l ls. read_manifest cd lay dg = Inr m \<and> im_layers m = l # ls
      \<and> read_blob lay (digest l) = Inr b))"
  by (auto simp: registry_read_def result_Inr)

lemma verify_present: "verify cd lay dg = Inr () \<Longrightarrow> has_blob lay dg = Inr True"
  by (auto simp: verify_def verify_blob_def rbind_Inr has_blob_ok)

lemma referrers_from_append:
  "referrers_from rd (xs @ ys) s ty =
    rbind (referrers_from rd xs s ty) (\<lambda>as. rbind (referrers_from rd ys s ty) (\<lambda>bs. Inr (as @ bs)))"
proof (induction xs)
  case Nil
  show ?case by (cases "referrers_from rd ys s ty") auto
next
  case (Cons x xs)
  then show ?case
    by (cases "rd (digest x)"; cases "referrers_from rd xs s ty"; cases "referrers_from rd ys s ty") auto
qed

lemma referrers_from_mono:
  "referrers_from rd es s ty = Inr rs \<Longrightarrow> (\<And>d m. rd d = Inr m \<Longrightarrow> rd' d = Inr m) \<Longrightarrow>
    referrers_from rd' es s ty = Inr rs"
proof (induction es arbitrary: rs)
  case Nil
  then show ?case by simp
next
  case (Cons e es)
  from Cons.prems(1) obtain m found where "rd (digest e) = Inr m" "referrers_from rd es s ty = Inr found"
    by (auto simp: rbind_Inr)
  then show ?case using Cons by simp
qed

lemma fold_put_values:
  "set (dict_values (blobs (fold (put_layout cd) bs lay))) \<subseteq> blob_data ` set bs \<union> set (dict_values (blobs lay))"
proof (induction bs arbitrary: lay)
  case Nil
  show ?case by simp
next
  case (Cons b bs)
  have "set (dict_values (blobs (fold (put_layout cd) (b # bs) lay)))
      \<subseteq> blob_data ` set bs \<union> set (dict_values (blobs (put_layout cd b lay)))"
    using Cons [of "put_layout cd b lay"] by simp
  also have "\<dots> \<subseteq> blob_data ` set (b # bs) \<union> set (dict_values (blobs lay))"
    using put_layout_values [of cd b lay] by auto
  finally show ?case .
qed

lemma referrer_blobs_data:
  "blob_data ` set (referrer_blobs cd subject ty media payload) =
    {empty_config cd, payload, dumps cd (referrer_manifest cd subject ty media payload)}"
  by (auto simp: referrer_blobs_def canonical_manifest_def)

lemma read_blob_fold_put:
  assumes "store_inv cd U lay" and "blob_data ` set bs \<subseteq> U" and "b \<in> set bs"
  shows "read_blob (fold (put_layout cd) bs lay) (content_hash cd (blob_data b)) = Inr (blob_data b)"
proof (rule read_blob_put [OF _ _ assms(3)])
  show "digests_ok cd" and "layout_wf cd lay"
    using assms(1) by (simp_all add: store_inv_def)
  show "inj_on (hexdigest cd) (blob_data ` set bs \<union> set (dict_values (blobs lay)))"
    by (rule inj_on_subset [of "hexdigest cd" U]) (use assms in \<open>simp_all add: store_inv_def\<close>)
qed

lemma attached_contents:
  assumes inv: "store_inv cd U lay" and ok: "store_allowed cd U subject ty media payload"
    and a: "registry_attach cd subject ty media payload lay = (Inr dg, lay')"
  shows "read_manifest cd lay' dg = Inr (referrer_manifest cd subject ty media payload)"
    and "registry_read cd lay' dg = Inr payload"
    and "store_inv cd U lay'"
proof -
  let ?m = "referrer_manifest cd subject ty media payload"
  let ?bs = "referrer_blobs cd subject ty media payload"
  let ?lay = "fold (put_layout cd) ?bs lay"
  have cd: "digests_ok cd" "json_ok cd" using inv by (simp_all add: store_inv_def)
  note r = registry_attach_Inr [OF cd(1) a]
  have U: "blob_data ` set ?bs \<subseteq> U"
    using ok by (simp add: referrer_blobs_data store_allowed_def)
  have rd: "read_blob lay' (content_hash cd (blob_data b)) = Inr (blob_data b)" if "b \<in> set ?bs" for b
    using read_blob_fold_put [OF inv U that] r by simp
  have bytes: "read_blob lay' (content_hash cd x) = Inr x"
    if "x \<in> {empty_config cd, payload, dumps cd ?m}" for x
    using that rd unfolding referrer_blobs_data [symmetric] by auto
  show m: "read_manifest cd lay' dg = Inr ?m"
    using r bytes [of "dumps cd ?m"] cd(2) by (simp add: read_manifest_def json_ok_def)
  have "verify_blob cd lay' (content_hash cd x) = Inr ()"
    if "x \<in> {empty_config cd, payload, dumps cd ?m}" for x
    using bytes [OF that] by (rule content_hash_verify)
  then have "verify cd lay' dg = Inr ()"
    using r m by (auto simp: verify_def rbind_Inr verify_blobs_ok) (simp_all add: referrer_manifest_def)
  moreover have "read_blob lay' (content_hash cd payload) = Inr payload"
    by (rule bytes) simp
  ultimately show "registry_read cd lay' dg = Inr payload"
    using m unfolding registry_read_Inr by (simp add: referrer_manifest_def)
  have "set (dict_values (blobs lay')) \<subseteq> blob_data ` set ?bs \<union> set (dict_values (blobs lay))"
    using r fold_put_values [of cd ?bs lay] by simp
  then have "set (dict_values (blobs lay')) \<subseteq> U"
    using inv U unfolding store_inv_def by blast
  moreover have "layout_wf cd lay'"
    using r inv by (simp add: store_inv_def fold_put_wf)
  ultimately show "store_inv cd U lay'"
    using inv unfolding store_inv_def by blast
qed

lemma attached_listed:
  assumes inv: "store_inv cd U lay" and ok: "store_allowed cd U subject ty media payload"
    and a: "registry_attach cd subject ty media payload lay = (Inr dg, lay')"
    and l: "registry_digests cd lay sub u = Inr ds"
  shows "registry_digests cd lay' sub u = Inr (ds @ (if sub = subject \<and> u = ty then [dg] else []))"
proof -
  have cd: "digests_ok cd" using inv by (simp add: store_inv_def)
  note r = registry_attach_Inr [OF cd a]
  let ?e = "(blob_descriptor cd (canonical_manifest cd
      (referrer_manifest cd subject ty media payload)))\<lparr>artifact_type := Some ty\<rparr>"
  have e: "digest ?e = dg"
    using r by (simp add: canonical_manifest_def)
  obtain refs where refs: "referrers_from (read_manifest cd lay) (index lay) sub (Some u) = Inr refs"
    and ds: "ds = map digest refs"
    using l by (auto simp: registry_digests_def rbind_Inr referrers_def)
  have "referrers_from (read_manifest cd lay') (index lay) sub (Some u) = Inr refs"
    by (rule referrers_from_mono [OF refs read_manifest_grows [OF registry_attach_grows [OF cd a]]])
  moreover have "referrers_from (read_manifest cd lay') [?e] sub (Some u)
      = Inr (if sub = subject \<and> u = ty then [?e] else [])"
    using attached_contents(1) [OF inv ok a] e by (simp add: referrer_manifest_def)
  moreover have "index lay' = index lay @ [?e]" using r by simp
  ultimately have "referrers cd lay' sub (Some u) = Inr (refs @ (if sub = subject \<and> u = ty then [?e] else []))"
    by (simp add: referrers_def referrers_from_append)
  then show ?thesis
    using e by (simp add: registry_digests_def ds)
qed

interpretation registry_port: attestation_port "registry_store cd" "store_inv cd U" "store_allowed cd U"
  for cd :: "'b codec" and U
proof
  fix lay lay' :: "'b layout" and subject sub ty u media dg x :: string and payload p :: 'b and ds
  assume inv: "store_inv cd U lay"
  then have cd: "digests_ok cd" by (simp add: store_inv_def)
  show "\<exists>d s'. attach_attestation (registry_store cd) subject ty media payload lay = (Inr d, s')"
    if "verify_integrity (registry_store cd) lay subject = Inr ()"
    using verify_present [of cd lay subject] that
    by (simp add: registry_store_def registry_attach_eq [OF cd] Let_def)
  show "read_attestation (registry_store cd) lay' x = Inr p"
    if "attach_attestation (registry_store cd) subject ty media payload lay = (Inr dg, lay')"
      "read_attestation (registry_store cd) lay x = Inr p"
    using that registry_attach_grows [OF cd, of subject ty media payload lay dg lay']
    by (auto simp: registry_store_def registry_read_Inr dest: verify_grows read_manifest_grows read_blob_grows)
  show "verify_integrity (registry_store cd) lay' x = Inr ()"
    if "attach_attestation (registry_store cd) subject ty media payload lay = (Inr dg, lay')"
      "verify_integrity (registry_store cd) lay x = Inr ()"
    using that registry_attach_grows [OF cd, of subject ty media payload lay dg lay']
    by (simp add: registry_store_def verify_grows)
  assume ok: "store_allowed cd U subject ty media payload"
    and a: "attach_attestation (registry_store cd) subject ty media payload lay = (Inr dg, lay')"
  then have a': "registry_attach cd subject ty media payload lay = (Inr dg, lay')"
    by (simp add: registry_store_def)
  show "store_inv cd U lay'"
    by (rule attached_contents(3) [OF inv ok a'])
  show "read_attestation (registry_store cd) lay' dg = Inr payload"
    using attached_contents(2) [OF inv ok a'] by (simp add: registry_store_def)
  show "attestation_digests (registry_store cd) lay' sub u
      = Inr (ds @ (if sub = subject \<and> u = ty then [dg] else []))"
    if "attestation_digests (registry_store cd) lay sub u = Inr ds"
    using attached_listed [OF inv ok a', of sub u ds] that by (simp add: registry_store_def)
qed

section \<open>Admission\<close>

text \<open>The projections pydantic makes of a manifest.\<close>

record 'b manifests =
  model_dump :: "plugin_manifest \<Rightarrow> json"
  model_validate :: "'b \<Rightarrow> plugin_manifest option"

text \<open>
  Admission fails with Seal's error, or with an exception of the registry or the JSON decoder that
  nothing here turns into one.
\<close>

datatype admission_error =
    SupplyChain "hub_error supply_error"
  | RegistryRaised hub_error
  | JsonRaised string
  | EntryInvalid entry_error

definition is_key_error :: "hub_error \<Rightarrow> bool" where
  "is_key_error e = (case e of BlobKeyError _ \<Rightarrow> True | ArtifactNotFound _ \<Rightarrow> True | _ \<Rightarrow> False)"

definition stored_manifest ::
    "'b codec \<Rightarrow> 'b documents \<Rightarrow> 'b layout \<Rightarrow> string \<Rightarrow> admission_error + json" where
  "stored_manifest cd dc lay dg =
    rbind (rerr RegistryRaised (read_config cd lay dg)) (\<lambda>raw.
      case load_json dc raw of
        None \<Rightarrow> Inl (JsonRaised dg)
      | Some j \<Rightarrow> (case j of JObj d \<Rightarrow> Inr (JObj d) | _ \<Rightarrow> Inl (SupplyChain (ConfigNotAnObject dg))))"

definition has_signature :: "'b codec \<Rightarrow> 'b layout \<Rightarrow> string \<Rightarrow> hub_error + bool" where
  "has_signature cd lay dg =
    rbind (referrers cd lay dg (Some ARTIFACT_TYPE_SIGNATURE)) (\<lambda>refs. Inr (refs \<noteq> []))"

definition require_signed :: "'b codec \<Rightarrow> 'b layout \<Rightarrow> string \<Rightarrow> admission_error + unit" where
  "require_signed cd lay dg =
    rbind (rerr RegistryRaised (has_signature cd lay dg)) (\<lambda>signed.
      if \<not> signed then Inl (SupplyChain (UnsignedArtifact dg)) else Inr ())"

definition hub_verify ::
    "('k, 'p) crypto \<Rightarrow> 'b documents \<Rightarrow> 'b codec \<Rightarrow> 'b layout \<Rightarrow> string \<Rightarrow> string option
      \<Rightarrow> moment \<Rightarrow> string list \<Rightarrow> hub_error supply_error + unit" where
  "hub_verify cr dc cd lay subject trusted now require =
    seal_verify cr dc (registry_store cd) subject trusted None None now require lay"

definition present_and_intact :: "'b codec \<Rightarrow> 'b layout \<Rightarrow> string \<Rightarrow> admission_error + unit" where
  "present_and_intact cd lay dg =
    rerr (\<lambda>e. if is_key_error e then SupplyChain (DigestNotPresent dg) else RegistryRaised e)
      (verify cd lay dg)"

definition verify_admissible ::
    "('k, 'p) crypto \<Rightarrow> 'b documents \<Rightarrow> 'b codec \<Rightarrow> 'b manifests \<Rightarrow> 'b layout \<Rightarrow> plugin_manifest
      \<Rightarrow> string \<Rightarrow> string option \<Rightarrow> moment \<Rightarrow> string list \<Rightarrow> admission_error + unit" where
  "verify_admissible cr dc cd mf lay m dg trusted now require =
    rbind (present_and_intact cd lay dg) (\<lambda>_.
    rbind (stored_manifest cd dc lay dg) (\<lambda>stored.
      if \<not> json_same stored (model_dump mf m) then Inl (SupplyChain (ManifestMismatch dg))
      else
        rbind (require_signed cd lay dg) (\<lambda>_.
          rerr SupplyChain (hub_verify cr dc cd lay dg trusted now require))))"

definition stored_artifact_kind :: "'b codec \<Rightarrow> 'b layout \<Rightarrow> string \<Rightarrow> string option" where
  "stored_artifact_kind cd lay dg =
    (case read_manifest cd lay dg of Inl _ \<Rightarrow> None | Inr m \<Rightarrow> artifact_kind_of (Some (im_artifact_type m)))"

definition admit ::
    "('k, 'p) crypto \<Rightarrow> 'b documents \<Rightarrow> 'b codec \<Rightarrow> 'b manifests \<Rightarrow> provider \<Rightarrow> 'b layout
      \<Rightarrow> plugin_manifest \<Rightarrow> string \<Rightarrow> string \<Rightarrow> string \<Rightarrow> string option \<Rightarrow> moment \<Rightarrow> string list
      \<Rightarrow> (memory_catalog, admission_error, catalog_entry) st" where
  "admit cr dc cd mf backend lay m dg publisher namespace trusted now require =
    sbind (slift (verify_admissible cr dc cd mf lay m dg trusted now require)) (\<lambda>_.
    sbind (sread (\<lambda>cat. ingest cat m dg publisher namespace (stored_artifact_kind cd lay dg) backend)) (\<lambda>i.
    sbind (slift (rerr EntryInvalid i)) (\<lambda>(cat', e).
    sbind (smodify (\<lambda>_. cat')) (\<lambda>_. sret e))))"

lemma json_obj_Inr:
  "((case k of JObj d \<Rightarrow> Inr (JObj d) | _ \<Rightarrow> Inl e) = Inr j) = (\<exists>d. k = JObj d \<and> j = JObj d)"
  by (cases k) auto

lemma stored_manifest_Inr:
  "(stored_manifest cd dc lay dg = Inr j) =
    (\<exists>raw d. read_config cd lay dg = Inr raw \<and> load_json dc raw = Some (JObj d) \<and> j = JObj d)"
  by (auto simp: stored_manifest_def result_Inr json_obj_Inr)

lemma require_signed_Inr:
  "(require_signed cd lay dg = Inr ()) =
    (\<exists>r rs. referrers cd lay dg (Some ARTIFACT_TYPE_SIGNATURE) = Inr (r # rs))"
  by (auto simp: require_signed_def has_signature_def result_Inr neq_Nil_conv)

text \<open>What has been proved of an artifact that may be indexed.\<close>

definition admissible_artifact ::
    "('k, 'p) crypto \<Rightarrow> 'b documents \<Rightarrow> 'b codec \<Rightarrow> 'b manifests \<Rightarrow> 'b layout \<Rightarrow> plugin_manifest
      \<Rightarrow> string \<Rightarrow> string option \<Rightarrow> moment \<Rightarrow> string list \<Rightarrow> bool" where
  "admissible_artifact cr dc cd mf lay m dg trusted now require =
    (verify cd lay dg = Inr ()
     \<and> (\<exists>raw d. read_config cd lay dg = Inr raw \<and> load_json dc raw = Some (JObj d)
          \<and> json_same (JObj d) (model_dump mf m))
     \<and> (\<exists>r rs. referrers cd lay dg (Some ARTIFACT_TYPE_SIGNATURE) = Inr (r # rs))
     \<and> hub_verify cr dc cd lay dg trusted now require = Inr ())"

lemma verify_admissible_Inr:
  "(verify_admissible cr dc cd mf lay m dg trusted now require = Inr ())
    = admissible_artifact cr dc cd mf lay m dg trusted now require"
  by (auto simp: verify_admissible_def admissible_artifact_def present_and_intact_def result_Inr
      stored_manifest_Inr require_signed_Inr)

lemma admit_eq:
  "admit cr dc cd mf backend lay m dg publisher namespace trusted now require cat =
    (case verify_admissible cr dc cd mf lay m dg trusted now require of
       Inl e \<Rightarrow> (Inl e, cat)
     | Inr _ \<Rightarrow> (case ingest cat m dg publisher namespace (stored_artifact_kind cd lay dg) backend of
         Inl err \<Rightarrow> (Inl (EntryInvalid err), cat)
       | Inr (cat', e) \<Rightarrow> (Inr e, cat')))"
  by (cases "verify_admissible cr dc cd mf lay m dg trusted now require";
      cases "ingest cat m dg publisher namespace (stored_artifact_kind cd lay dg) backend")
    (auto simp: admit_def sret_def)

lemma referrers_digests:
  "referrers cd lay s (Some t) = Inr refs \<Longrightarrow>
    attestation_digests (registry_store cd) lay s t = Inr (map digest refs)"
  by (simp add: registry_store_def registry_digests_def)

section \<open>Attesting on the registry\<close>

lemma key_pair_signs:
  assumes "key_pair_ok cr private_pem public_pem"
  obtains sg where "sign_digest cr dg private_pem = Inr sg"
    and "verify_signature cr (Some public_pem) None None now sg dg = Inr ()"
proof -
  obtain sk pk where sk: "load_private_pem cr private_pem = Some sk" "is_ec_private cr sk"
      "public_pem_of cr sk = public_pem"
    and pk: "load_public_pem cr public_pem = Some pk" "is_ec_public cr pk"
      "\<And>msg. ec_verify cr pk (ec_sign cr sk msg) msg"
    using assms by (auto simp: key_pair_ok_def split: option.splits)
  have "sign_digest cr dg private_pem = Inr \<lparr>sig_scheme = SIGSTORE_COSIGN,
      sig_kind = COSIGN_SIGNATURE, sig_value = Some (b64encode (ec_sign cr sk dg)),
      sig_payload = Some dg, sig_certificate = Some public_pem, sig_digest = None\<rparr>"
    using sk by (simp add: sign_digest_def load_private_def)
  moreover have "same_key cr public_pem public_pem"
    using pk(1) by (simp add: same_key_iff der_of_def)
  ultimately show ?thesis
    using pk by (intro that) (auto simp: verify_signature_ok load_public_def b64_roundtrip signer_trusted_def)
qed

lemma attested_verifies:
  assumes "store_inv cd U lay" and "verify cd lay dg = Inr ()"
    and "\<And>t. registry_digests cd lay dg t = Inr []"
    and "documents_ok dc" and "key_pair_ok cr private_pem public_pem"
    and "attestable dg inputs components"
    and "\<And>t media payload. (t, media, payload) \<in> set (attest_payloads cr dc dg private_pem name
        version builder_id inputs components) \<Longrightarrow> store_allowed cd U dg t media payload"
  shows "\<exists>out lay'. attest cr dc (registry_store cd) dg private_pem name version builder_id inputs
        components lay = (Inr out, lay') \<and> store_inv cd U lay'
    \<and> hub_verify cr dc cd lay' dg (Some public_pem) now DEFAULT_REQUIRED = Inr ()"
proof (rule key_pair_signs [OF assms(5), of dg now])
  fix sg
  assume sg: "sign_digest cr dg private_pem = Inr sg"
    "verify_signature cr (Some public_pem) None None now sg dg = Inr ()"
  have "unattested (registry_store cd) lay dg" "verify_integrity (registry_store cd) lay dg = Inr ()"
    using assms(2,3) by (simp_all add: unattested_def registry_store_def)
  from registry_port.attest_then_verify [OF assms(1) this assms(4) sg assms(6,7)]
  show ?thesis by (simp add: hub_verify_def)
qed

lemma attest_only_grows:
  assumes cd: "digests_ok cd"
    and a: "attest cr dc (registry_store cd) dg private_pem name version builder_id inputs components lay
      = (Inr out, lay')"
  shows "grows lay lay'"
proof -
  have step: "grows l l'" if "in_store (attach_attestation (registry_store cd) s t m p) l = (Inr d, l')"
    for s t m p d l l'
    using that registry_attach_grows [OF cd, of s t m p l]
    by (auto simp: in_store_def scatch_def registry_store_def sraise_def split: prod.splits sum.splits)
  show ?thesis
    using a unfolding attest_def by (auto simp: sbind_Inr slift_def sret_def dest!: step intro: grows_trans)
qed

lemma ingest_entry:
  "ingest cat m dg publisher namespace kind backend = Inr (cat', e) \<Longrightarrow>
    cat' = catalog_add cat e \<and> ce_manifest e = m \<and> ce_digest e = dg \<and> ce_artifact_kind e = kind
    \<and> ce_namespace e = namespace \<and> ce_publisher e = publisher \<and> \<not> ce_yanked e"
  by (auto simp: ingest_def make_entry_def rbind_Inr Let_def split: if_splits)

lemma admit_indexes:
  assumes "admit cr dc cd mf backend lay m dg publisher namespace trusted now require cat = (Inr e, cat')"
  shows "admissible_artifact cr dc cd mf lay m dg trusted now require" "cat' = catalog_add cat e"
    "ce_manifest e = m" "ce_digest e = dg" "ce_publisher e = publisher" "ce_namespace e = namespace"
proof -
  have v: "verify_admissible cr dc cd mf lay m dg trusted now require = Inr ()"
    and i: "ingest cat m dg publisher namespace (stored_artifact_kind cd lay dg) backend = Inr (cat', e)"
    using assms by (auto simp: admit_eq split: sum.splits)
  show "admissible_artifact cr dc cd mf lay m dg trusted now require"
    using v by (simp add: verify_admissible_Inr)
  show "cat' = catalog_add cat e" "ce_manifest e = m" "ce_digest e = dg" "ce_publisher e = publisher"
    "ce_namespace e = namespace" using ingest_entry [OF i] by simp_all
qed

lemma catalog_get_add:
  "catalog_get (catalog_add cat e) ref = (if ref = entry_reference e then Some e else catalog_get cat ref)"
  by (simp add: catalog_get_def catalog_add_def)

section \<open>Properties\<close>

text \<open>
  C28: The admission gate never half admits. If admission raises, the catalog is unchanged. If it
  returns, the artifact's manifest, config and layers hash to their addresses, the indexed manifest
  is the one stored as its config, at least one signature is attached whatever \<^verbatim>\<open>require\<close> says, all
  required evidence verified under the caller's key, and exactly one reference of the catalog
  changed: it now holds this digest with the container kind recovered from the stored bytes.
\<close>

theorem admission_all_or_nothing:
  assumes "admit cr dc cd mf backend lay m dg publisher namespace trusted now require cat = (r, cat')"
  shows "(\<exists>err. r = Inl err \<and> cat' = cat)
    \<or> (\<exists>e. r = Inr e \<and> admissible_artifact cr dc cd mf lay m dg trusted now require
        \<and> (\<exists>d ds. attestation_digests (registry_store cd) lay dg ARTIFACT_TYPE_SIGNATURE = Inr (d # ds))
        \<and> (''signature'' \<notin> set require \<or> evidence_ok (registry_store cd) lay dg ARTIFACT_TYPE_SIGNATURE
              (valid_signature_at cr dc (registry_store cd) lay dg trusted None None now))
        \<and> ce_manifest e = m \<and> ce_digest e = dg \<and> ce_artifact_kind e = stored_artifact_kind cd lay dg
        \<and> catalog_get cat' (entry_reference e) = Some e
        \<and> (\<forall>ref. ref = entry_reference e \<or> catalog_get cat' ref = catalog_get cat ref))"
proof (cases "verify_admissible cr dc cd mf lay m dg trusted now require")
  case (Inl err)
  then show ?thesis using assms by (auto simp: admit_eq)
next
  case (Inr u)
  then have adm: "admissible_artifact cr dc cd mf lay m dg trusted now require"
    using verify_admissible_Inr [of cr dc cd mf lay m dg trusted now require] by simp
  then have sig: "\<exists>d ds. attestation_digests (registry_store cd) lay dg ARTIFACT_TYPE_SIGNATURE = Inr (d # ds)"
    by (auto simp: admissible_artifact_def dest: referrers_digests)
  have "''signature'' \<notin> set require \<or> evidence_ok (registry_store cd) lay dg ARTIFACT_TYPE_SIGNATURE
      (valid_signature_at cr dc (registry_store cd) lay dg trusted None None now)"
    using adm by (auto simp: admissible_artifact_def hub_verify_def seal_verify_ok)
  note ev = this
  show ?thesis
  proof (cases "ingest cat m dg publisher namespace (stored_artifact_kind cd lay dg) backend")
    case (Inl err)
    then show ?thesis using assms Inr by (auto simp: admit_eq)
  next
    case i: (Inr p)
    obtain c e where p: "p = (c, e)" by (cases p)
    have "r = Inr e" and "cat' = c"
      using assms Inr i p by (auto simp: admit_eq)
    with ingest_entry [OF i [unfolded p]] adm sig ev show ?thesis
      by (intro disjI2 exI [of _ e]) (simp add: catalog_get_add)
  qed
qed

text \<open>A complete instance: contents are typed values, addressed by a short tag.\<close>

datatype demo_bytes =
    DManifest image_manifest
  | DSignature signature
  | DJson json

definition demo_hex :: "demo_bytes \<Rightarrow> string" where
  "demo_hex b =
    (case b of
       DManifest m \<Rightarrow> CHR ''m'' # str_of_nat (length (im_artifact_type m))
     | DSignature s \<Rightarrow> ''s''
     | DJson j \<Rightarrow> (case j of JObj ((k, v) # d) \<Rightarrow> CHR ''j'' # k | _ \<Rightarrow> ''j''))"

definition demo_hub_codec :: "demo_bytes codec" where
  "demo_hub_codec =
    \<lparr>hexdigest = demo_hex, byte_len = (\<lambda>_. 1), dumps = DManifest,
     loads = (\<lambda>b. case b of DManifest m \<Rightarrow> Some m | _ \<Rightarrow> None), empty_config = DJson (JObj [])\<rparr>"

definition demo_hub_documents :: "demo_bytes documents" where
  "demo_hub_documents =
    \<lparr>dump_signature = DSignature, load_signature = (\<lambda>b. case b of DSignature s \<Rightarrow> Some s | _ \<Rightarrow> None),
     canonical_json = DJson, load_json = (\<lambda>b. case b of DJson j \<Rightarrow> Some j | _ \<Rightarrow> None)\<rparr>"

definition demo_manifests :: "demo_bytes manifests" where
  "demo_manifests =
    \<lparr>model_dump = (\<lambda>m. JObj [(''name'', JStr (pm_name m)), (''kind'', JStr (kind_value (pm_kind m)))]),
     model_validate = (\<lambda>_. None)\<rparr>"

definition demo_unsigned_layout :: "demo_bytes layout" where
  "demo_unsigned_layout = snd (publish demo_hub_codec ''rover'' ''1.0.0'' ''asset''
     \<lparr>blob_media = ''c'', blob_data = DJson (model_dump demo_manifests demo_manifest)\<rparr> [] []
     \<lparr>blobs = [], index = []\<rparr>)"

theorem admission_all_or_nothing_witness:
  "\<exists>err. admit demo_crypto demo_hub_documents demo_hub_codec demo_manifests demo_provider
     demo_unsigned_layout demo_manifest ''sha256:m35'' ''local'' ''open'' (Some ''Pk'') 0 [] []
   = (Inl err, [])"
proof -
  let ?a = "admit demo_crypto demo_hub_documents demo_hub_codec demo_manifests demo_provider
     demo_unsigned_layout demo_manifest ''sha256:m35'' ''local'' ''open'' (Some ''Pk'') 0 [] []"
  have "registry_digests demo_hub_codec demo_unsigned_layout ''sha256:m35'' ARTIFACT_TYPE_SIGNATURE = Inr []"
    by code_simp
  then have "\<not> (\<exists>d ds. attestation_digests (registry_store demo_hub_codec) demo_unsigned_layout
      ''sha256:m35'' ARTIFACT_TYPE_SIGNATURE = Inr (d # ds))"
    by (simp add: registry_store_def)
  then show ?thesis
    using admission_all_or_nothing [OF prod.collapse [symmetric, of ?a]] by (cases ?a) auto
qed

end
