(* ===== verification/Hub_Governance.thy ===== *)
theory Hub_Governance
  imports Hub_Supply
begin

text \<open>
  Governance of what Hub serves: the download gate with its two policy engines, the pure Python one
  and the Rego bundle behind OPA (\<^verbatim>\<open>hub/policy/_policy.py\<close>, \<^verbatim>\<open>_opa.py\<close>, \<^verbatim>\<open>rego/download.rego\<close> and
  \<^verbatim>\<open>rego/data.json\<close>), the audit log (\<^verbatim>\<open>_audit.py\<close>) and the curation actions promote, yank and
  deprecate (\<^verbatim>\<open>hub/curation\<close>). How OPA is reached (a process or HTTP) is the \<open>transport\<close> parameter.
\<close>

section \<open>Policy data and decisions\<close>

record policy_data =
  pd_version :: string
  pd_allowed_licenses :: "string list"
  pd_verified_namespaces :: "string list"
  pd_gated_capability_tags :: "string list"

definition bundle_data :: policy_data where
  "bundle_data =
    \<lparr>pd_version = ''1.0.0'',
     pd_allowed_licenses = [''Apache-2.0'', ''BSD-2-Clause'', ''BSD-3-Clause'', ''CC-BY-4.0'', ''CC0-1.0'',
       ''ISC'', ''MIT''],
     pd_verified_namespaces = [''curated'', ''verified''],
     pd_gated_capability_tags =
       [''comms.live_mission_link_prediction'', ''ground_truth_access'', ''operational_targeting'']\<rparr>"

datatype decision_reason =
    LicenseNotPermitted "string option"
  | CuratedRequired
  | NeedsGrant "string list"
  | AllowedReason

record decision =
  d_allowed :: bool
  d_reference :: string
  d_reason :: decision_reason
  d_code :: string
  d_policy_version :: string
  d_engine :: string

record download_request =
  dr_grants :: "string list"
  dr_allowed_licenses :: "string list"
  dr_require_verified :: bool

record policy_input =
  in_reference :: string
  in_license :: "string option"
  in_namespace :: string
  in_capability_tags :: "string list"
  in_grants :: "string list"
  in_allowed_licenses :: "string list"
  in_require_verified :: bool

definition entry_license :: "catalog_entry \<Rightarrow> string option" where
  "entry_license e = pm_license (ce_manifest e)"

text \<open>The request's grants and licenses are sets: sorting them also removes duplicates.\<close>

definition policy_input_of :: "catalog_entry \<Rightarrow> download_request \<Rightarrow> policy_input" where
  "policy_input_of e rq =
    \<lparr>in_reference = entry_reference e, in_license = entry_license e, in_namespace = ce_namespace e,
     in_capability_tags = sort (entry_tags e), in_grants = sort (remdups (dr_grants rq)),
     in_allowed_licenses = sort (remdups (dr_allowed_licenses rq)),
     in_require_verified = dr_require_verified rq\<rparr>"

section \<open>The Python engine\<close>

definition python_evaluate :: "policy_data \<Rightarrow> catalog_entry \<Rightarrow> download_request \<Rightarrow> decision" where
  "python_evaluate pd e rq =
    (let decide = (\<lambda>allowed code reason.
           \<lparr>d_allowed = allowed, d_reference = entry_reference e, d_reason = reason, d_code = code,
            d_policy_version = pd_version pd, d_engine = ''python''\<rparr>);
         ungranted = sort (filter (\<lambda>t. t \<in> set (pd_gated_capability_tags pd) \<and> t \<notin> set (dr_grants rq))
           (entry_tags e))
     in if (case entry_license e of None \<Rightarrow> True | Some l \<Rightarrow> l \<notin> set (dr_allowed_licenses rq))
        then decide False ''license_denied'' (LicenseNotPermitted (entry_license e))
        else if dr_require_verified rq \<and> ce_namespace e \<notin> set (pd_verified_namespaces pd)
        then decide False ''verification_required'' CuratedRequired
        else if ungranted \<noteq> [] then decide False ''capability_gated'' (NeedsGrant ungranted)
        else decide True ''allowed'' AllowedReason)"

section \<open>The Rego bundle\<close>

text \<open>
  A complete rule with several bodies has the value of the bodies that hold: undefined when none
  does, an evaluation error when two disagree (both \<open>None\<close>).
\<close>

definition rego_rule :: "(bool \<times> 'a) list \<Rightarrow> 'a option" where
  "rego_rule bodies =
    (case remdups (map snd (filter fst bodies)) of [v] \<Rightarrow> Some v | _ \<Rightarrow> None)"

definition rego_license_ok :: "policy_input \<Rightarrow> bool" where
  "rego_license_ok i = (case in_license i of None \<Rightarrow> False | Some l \<Rightarrow> l \<in> set (in_allowed_licenses i))"

definition rego_verified_ok :: "policy_data \<Rightarrow> policy_input \<Rightarrow> bool" where
  "rego_verified_ok pd i =
    (\<not> in_require_verified i \<or> in_namespace i \<in> set (pd_verified_namespaces pd))"

definition rego_ungranted :: "policy_data \<Rightarrow> policy_input \<Rightarrow> string list" where
  "rego_ungranted pd i =
    sort (remdups (filter (\<lambda>t. t \<in> set (pd_gated_capability_tags pd) \<and> t \<notin> set (in_grants i))
      (in_capability_tags i)))"

definition rego_allow :: "policy_data \<Rightarrow> policy_input \<Rightarrow> bool" where
  "rego_allow pd i = (rego_license_ok i \<and> rego_verified_ok pd i \<and> rego_ungranted pd i = [])"

definition rego_code :: "policy_data \<Rightarrow> policy_input \<Rightarrow> string option" where
  "rego_code pd i =
    (let l = rego_license_ok i; v = rego_verified_ok pd i; u = rego_ungranted pd i
     in rego_rule
       [(\<not> l, ''license_denied''), (l \<and> \<not> v, ''verification_required''),
        (l \<and> v \<and> u \<noteq> [], ''capability_gated''), (rego_allow pd i, ''allowed'')])"

definition rego_reason :: "policy_data \<Rightarrow> policy_input \<Rightarrow> decision_reason option" where
  "rego_reason pd i =
    (let l = rego_license_ok i; v = rego_verified_ok pd i; u = rego_ungranted pd i
     in rego_rule
       [(rego_allow pd i, AllowedReason), (\<not> l, LicenseNotPermitted (in_license i)),
        (l \<and> \<not> v, CuratedRequired), (l \<and> v \<and> u \<noteq> [], NeedsGrant u)])"

record opa_document =
  od_allow :: "bool option"
  od_code :: "string option"
  od_reason :: "decision_reason option"
  od_version :: "string option"

text \<open>The \<^verbatim>\<open>decision\<close> object; OPA leaves it undefined when a field of it is.\<close>

definition rego_decision :: "policy_data \<Rightarrow> policy_input \<Rightarrow> opa_document option" where
  "rego_decision pd i =
    (case (rego_code pd i, rego_reason pd i) of
       (Some c, Some r) \<Rightarrow>
         Some \<lparr>od_allow = Some (rego_allow pd i), od_code = Some c, od_reason = Some r,
               od_version = Some (pd_version pd)\<rparr>
     | _ \<Rightarrow> None)"

datatype opa_error = OpaUnavailable | DecisionIncomplete

definition opa_evaluate ::
    "(policy_input \<Rightarrow> opa_document option) \<Rightarrow> catalog_entry \<Rightarrow> download_request \<Rightarrow> opa_error + decision" where
  "opa_evaluate transport e rq =
    (case transport (policy_input_of e rq) of
       None \<Rightarrow> Inl OpaUnavailable
     | Some doc \<Rightarrow>
         (case (od_allow doc, od_code doc, od_reason doc, od_version doc) of
            (Some a, Some c, Some r, Some v) \<Rightarrow>
              Inr \<lparr>d_allowed = a, d_reference = entry_reference e, d_reason = r, d_code = c,
                   d_policy_version = v, d_engine = ''opa''\<rparr>
          | _ \<Rightarrow> Inl DecisionIncomplete))"

section \<open>The audit log and the gate\<close>

datatype audit_reason =
    Decided decision_reason
  | Because string
  | DeniedNoRegistry string
  | DeniedEvidence "hub_error supply_error"
  | PromotedTo string

record audit_record =
  au_action :: string
  au_reference :: string
  au_allowed :: bool
  au_reason :: audit_reason
  au_policy_version :: string
  au_engine :: string

text \<open>\<open>None\<close>: the caller supplied no log.\<close>

type_synonym audit_log = "audit_record list option"

definition audit_append :: "audit_record \<Rightarrow> audit_log \<Rightarrow> audit_log" where
  "audit_append r sink = map_option (\<lambda>rs. rs @ [r]) sink"

datatype gate_error =
    GatedDownload decision_reason
  | EngineRaised opa_error

definition gate ::
    "(catalog_entry \<Rightarrow> download_request \<Rightarrow> opa_error + decision) \<Rightarrow> catalog_entry \<Rightarrow> download_request
      \<Rightarrow> (audit_log, gate_error, decision) st" where
  "gate engine e rq =
    sbind (slift (rerr EngineRaised (engine e rq))) (\<lambda>d.
    sbind (smodify (audit_append
      \<lparr>au_action = ''download'', au_reference = d_reference d, au_allowed = d_allowed d,
       au_reason = Decided (d_reason d), au_policy_version = d_policy_version d,
       au_engine = d_engine d\<rparr>)) (\<lambda>_.
    if \<not> d_allowed d then sraise (GatedDownload (d_reason d)) else sret d))"

definition python_engine :: "policy_data \<Rightarrow> catalog_entry \<Rightarrow> download_request \<Rightarrow> opa_error + decision" where
  "python_engine pd e rq = Inr (python_evaluate pd e rq)"

section \<open>Curation\<close>

definition NAMESPACES :: "string list" where
  "NAMESPACES = [''open'', ''curated'', ''verified'']"

record governance =
  gov_catalog :: memory_catalog
  gov_audit :: audit_log

datatype curation_error =
    UnknownNamespace string
  | UnknownArtifact string
  | NeedsRegistry string string
  | EvidenceFails string string "hub_error supply_error"
  | PromotionRaised admission_error

definition governed_entry :: "string \<Rightarrow> (governance, curation_error, catalog_entry) st" where
  "governed_entry reference =
    sbind (sread (\<lambda>g. catalog_get (gov_catalog g) reference)) (\<lambda>eo.
      case eo of None \<Rightarrow> sraise (UnknownArtifact reference) | Some e \<Rightarrow> sret e)"

definition governed_audit :: "string \<Rightarrow> string \<Rightarrow> audit_reason \<Rightarrow> (governance, curation_error, unit) st" where
  "governed_audit action reference reason =
    smodify (\<lambda>g. g\<lparr>gov_audit := audit_append
      \<lparr>au_action = action, au_reference = reference, au_allowed = True, au_reason = reason,
       au_policy_version = '''', au_engine = ''''\<rparr> (gov_audit g)\<rparr>)"

definition governed_add :: "catalog_entry \<Rightarrow> (governance, curation_error, unit) st" where
  "governed_add e = smodify (\<lambda>g. g\<lparr>gov_catalog := catalog_add (gov_catalog g) e\<rparr>)"

definition promote ::
    "(plugin_manifest \<Rightarrow> string \<Rightarrow> admission_error + unit) option \<Rightarrow> string \<Rightarrow> string
      \<Rightarrow> (governance, curation_error, catalog_entry) st" where
  "promote verifier reference to =
    (if to \<notin> set NAMESPACES then sraise (UnknownNamespace to)
     else
       sbind (governed_entry reference) (\<lambda>e.
       sbind (if to = ''open'' then sret ()
         else case verifier of
           None \<Rightarrow>
             sbind (governed_audit ''promote'' reference (DeniedNoRegistry to)) (\<lambda>_.
             sraise (NeedsRegistry reference to))
         | Some verify_artifact \<Rightarrow>
             (case verify_artifact (ce_manifest e) (ce_digest e) of
                Inr _ \<Rightarrow> sret ()
              | Inl (SupplyChain exc) \<Rightarrow>
                  sbind (governed_audit ''promote'' reference (DeniedEvidence exc)) (\<lambda>_.
                  sraise (EvidenceFails reference to exc))
              | Inl other \<Rightarrow> sraise (PromotionRaised other))) (\<lambda>_.
       sbind (governed_add (e\<lparr>ce_namespace := to\<rparr>)) (\<lambda>_.
       sbind (governed_audit ''promote'' reference (PromotedTo to)) (\<lambda>_.
       sret (e\<lparr>ce_namespace := to\<rparr>))))))"

definition yank :: "string \<Rightarrow> string \<Rightarrow> (governance, curation_error, catalog_entry) st" where
  "yank reference reason =
    sbind (governed_entry reference) (\<lambda>e.
    sbind (governed_add (e\<lparr>ce_yanked := True\<rparr>)) (\<lambda>_.
    sbind (governed_audit ''yank'' reference (Because reason)) (\<lambda>_.
    sret (e\<lparr>ce_yanked := True\<rparr>))))"

definition deprecate :: "string \<Rightarrow> string \<Rightarrow> (governance, curation_error, catalog_entry) st" where
  "deprecate reference reason =
    sbind (governed_entry reference) (\<lambda>e.
    sbind (governed_add (e\<lparr>ce_deprecated := True\<rparr>)) (\<lambda>_.
    sbind (governed_audit ''deprecate'' reference (Because reason)) (\<lambda>_.
    sret (e\<lparr>ce_deprecated := True\<rparr>))))"

section \<open>The engines\<close>

text \<open>What a policy engine promises the gate: it allows nothing the rule forbids.\<close>

definition permitted :: "policy_data \<Rightarrow> catalog_entry \<Rightarrow> download_request \<Rightarrow> bool" where
  "permitted pd e rq =
    ((case entry_license e of None \<Rightarrow> False | Some l \<Rightarrow> l \<in> set (dr_allowed_licenses rq))
     \<and> (dr_require_verified rq \<longrightarrow> ce_namespace e \<in> set (pd_verified_namespaces pd))
     \<and> (\<forall>t \<in> set (entry_tags e). t \<in> set (pd_gated_capability_tags pd) \<longrightarrow> t \<in> set (dr_grants rq)))"

lemma sort_eq_Nil [simp]: "(sort xs = []) = (xs = [])"
  by (metis set_empty set_sort)

lemma ungranted_none:
  "(filter (\<lambda>t. t \<in> G \<and> t \<notin> H) ts = []) = (\<forall>t \<in> set ts. t \<in> G \<longrightarrow> t \<in> H)"
  by (auto simp: filter_empty_conv)

lemma python_allowed: "d_allowed (python_evaluate pd e rq) = permitted pd e rq"
  by (auto simp: python_evaluate_def permitted_def Let_def filter_empty_conv split: option.splits)

lemma rego_allowed: "rego_allow pd (policy_input_of e rq) = permitted pd e rq"
  by (auto simp: rego_allow_def rego_license_ok_def rego_verified_ok_def rego_ungranted_def
      policy_input_of_def permitted_def filter_empty_conv split: option.splits)

definition code_of :: "bool \<Rightarrow> bool \<Rightarrow> bool \<Rightarrow> string" where
  "code_of l v u = (if \<not> l then ''license_denied'' else if \<not> v then ''verification_required''
     else if u then ''capability_gated'' else ''allowed'')"

lemma rego_code_eq:
  "rego_code pd i = Some (code_of (rego_license_ok i) (rego_verified_ok pd i) (rego_ungranted pd i \<noteq> []))"
  by (cases "rego_license_ok i"; cases "rego_verified_ok pd i"; cases "rego_ungranted pd i = []")
    (simp_all add: rego_code_def rego_rule_def code_of_def rego_allow_def)

lemma rego_reason_eq:
  "rego_reason pd i = Some
    (if \<not> rego_license_ok i then LicenseNotPermitted (in_license i)
     else if \<not> rego_verified_ok pd i then CuratedRequired
     else if rego_ungranted pd i \<noteq> [] then NeedsGrant (rego_ungranted pd i) else AllowedReason)"
  by (cases "rego_license_ok i"; cases "rego_verified_ok pd i"; cases "rego_ungranted pd i = []")
    (simp_all add: rego_reason_def rego_rule_def rego_allow_def)

lemma python_code_eq:
  "d_code (python_evaluate pd e rq) = code_of
    (case entry_license e of None \<Rightarrow> False | Some l \<Rightarrow> l \<in> set (dr_allowed_licenses rq))
    (dr_require_verified rq \<longrightarrow> ce_namespace e \<in> set (pd_verified_namespaces pd))
    (\<not> (\<forall>t \<in> set (entry_tags e). t \<in> set (pd_gated_capability_tags pd) \<longrightarrow> t \<in> set (dr_grants rq)))"
  by (auto simp: python_evaluate_def code_of_def Let_def filter_empty_conv split: option.splits)

lemma rego_engine:
  "\<exists>r. opa_evaluate (rego_decision pd) e rq = Inr
    \<lparr>d_allowed = permitted pd e rq, d_reference = entry_reference e, d_reason = r,
     d_code = d_code (python_evaluate pd e rq), d_policy_version = pd_version pd, d_engine = ''opa''\<rparr>"
proof -
  let ?i = "policy_input_of e rq"
  have "rego_license_ok ?i = (case entry_license e of None \<Rightarrow> False | Some l \<Rightarrow> l \<in> set (dr_allowed_licenses rq))"
    "rego_verified_ok pd ?i = (dr_require_verified rq \<longrightarrow> ce_namespace e \<in> set (pd_verified_namespaces pd))"
    "(rego_ungranted pd ?i \<noteq> []) = (\<not> (\<forall>t \<in> set (entry_tags e). t \<in> set (pd_gated_capability_tags pd)
        \<longrightarrow> t \<in> set (dr_grants rq)))"
    by (auto simp: rego_license_ok_def rego_verified_ok_def rego_ungranted_def policy_input_of_def
        filter_empty_conv split: option.splits)
  then have "rego_code pd ?i = Some (d_code (python_evaluate pd e rq))"
    by (simp only: rego_code_eq python_code_eq)
  then show ?thesis
    by (auto simp: opa_evaluate_def rego_decision_def rego_reason_eq rego_allowed)
qed

text \<open>The contract the gate relies on, and its two providers.\<close>

locale policy_engine =
  fixes engine :: "catalog_entry \<Rightarrow> download_request \<Rightarrow> opa_error + decision"
    and allows :: "catalog_entry \<Rightarrow> download_request \<Rightarrow> bool"
  assumes decides: "engine e rq = Inr d \<Longrightarrow> d_allowed d = allows e rq"
    and names_entry: "engine e rq = Inr d \<Longrightarrow> d_reference d = entry_reference e"
begin

lemma gate_cases:
  assumes "gate engine e rq (Some rs) = (r, lg)"
  shows "(\<exists>d. engine e rq = Inr d \<and> lg = Some (rs @
      [\<lparr>au_action = ''download'', au_reference = entry_reference e, au_allowed = allows e rq,
        au_reason = Decided (d_reason d), au_policy_version = d_policy_version d, au_engine = d_engine d\<rparr>])
      \<and> r = (if allows e rq then Inr d else Inl (GatedDownload (d_reason d))))
    \<or> (\<exists>x. engine e rq = Inl x \<and> r = Inl (EngineRaised x) \<and> lg = Some rs)"
  using assms decides [of e rq] names_entry [of e rq]
  by (cases "engine e rq") (auto simp: gate_def audit_append_def sret_def sraise_def)

end

interpretation python: policy_engine "python_engine pd" "permitted pd" for pd
proof
  show "python_engine pd e rq = Inr d \<Longrightarrow> d_allowed d = permitted pd e rq" for e rq d
    by (auto simp: python_engine_def python_allowed)
  show "python_engine pd e rq = Inr d \<Longrightarrow> d_reference d = entry_reference e" for e rq d
    by (auto simp: python_engine_def python_evaluate_def Let_def)
qed

interpretation opa: policy_engine "opa_evaluate (rego_decision pd)" "permitted pd" for pd
proof
  show "opa_evaluate (rego_decision pd) e rq = Inr d \<Longrightarrow> d_allowed d = permitted pd e rq"
    and "opa_evaluate (rego_decision pd) e rq = Inr d \<Longrightarrow> d_reference d = entry_reference e" for e rq d
    using rego_engine [of pd e rq] by auto
qed

section \<open>Curation\<close>

lemma yank_eq:
  "yank reference why g = (case catalog_get (gov_catalog g) reference of
     None \<Rightarrow> (Inl (UnknownArtifact reference), g)
   | Some e \<Rightarrow> (Inr (e\<lparr>ce_yanked := True\<rparr>),
       \<lparr>gov_catalog = catalog_add (gov_catalog g) (e\<lparr>ce_yanked := True\<rparr>),
        gov_audit = audit_append \<lparr>au_action = ''yank'', au_reference = reference, au_allowed = True,
          au_reason = Because why, au_policy_version = '''', au_engine = ''''\<rparr> (gov_audit g)\<rparr>))"
  by (cases "catalog_get (gov_catalog g) reference")
    (simp_all add: yank_def governed_entry_def governed_add_def governed_audit_def sbind_def st_defs)

lemma deprecate_eq:
  "deprecate reference why g = (case catalog_get (gov_catalog g) reference of
     None \<Rightarrow> (Inl (UnknownArtifact reference), g)
   | Some e \<Rightarrow> (Inr (e\<lparr>ce_deprecated := True\<rparr>),
       \<lparr>gov_catalog = catalog_add (gov_catalog g) (e\<lparr>ce_deprecated := True\<rparr>),
        gov_audit = audit_append \<lparr>au_action = ''deprecate'', au_reference = reference, au_allowed = True,
          au_reason = Because why, au_policy_version = '''', au_engine = ''''\<rparr> (gov_audit g)\<rparr>))"
  by (cases "catalog_get (gov_catalog g) reference")
    (simp_all add: deprecate_def governed_entry_def governed_add_def governed_audit_def sbind_def st_defs)

definition promote_record :: "string \<Rightarrow> audit_reason \<Rightarrow> audit_record" where
  "promote_record reference reason =
    \<lparr>au_action = ''promote'', au_reference = reference, au_allowed = True, au_reason = reason,
     au_policy_version = '''', au_engine = ''''\<rparr>"

text \<open>The check a promotion runs, as a single result.\<close>

definition promotion_check ::
    "(plugin_manifest \<Rightarrow> string \<Rightarrow> admission_error + unit) option \<Rightarrow> string \<Rightarrow> string \<Rightarrow> catalog_entry
      \<Rightarrow> (curation_error \<times> audit_reason option) + unit" where
  "promotion_check verifier reference to e =
    (if to = ''open'' then Inr ()
     else case verifier of
       None \<Rightarrow> Inl (NeedsRegistry reference to, Some (DeniedNoRegistry to))
     | Some f \<Rightarrow> (case f (ce_manifest e) (ce_digest e) of
         Inr _ \<Rightarrow> Inr ()
       | Inl (SupplyChain exc) \<Rightarrow> Inl (EvidenceFails reference to exc, Some (DeniedEvidence exc))
       | Inl other \<Rightarrow> Inl (PromotionRaised other, None)))"

lemma promote_eq:
  "promote verifier reference to g =
    (if to \<notin> set NAMESPACES then (Inl (UnknownNamespace to), g)
     else case catalog_get (gov_catalog g) reference of
       None \<Rightarrow> (Inl (UnknownArtifact reference), g)
     | Some e \<Rightarrow> (case promotion_check verifier reference to e of
         Inl (err, None) \<Rightarrow> (Inl err, g)
       | Inl (err, Some why) \<Rightarrow>
           (Inl err, g\<lparr>gov_audit := audit_append (promote_record reference why) (gov_audit g)\<rparr>)
       | Inr _ \<Rightarrow> (Inr (e\<lparr>ce_namespace := to\<rparr>),
           \<lparr>gov_catalog = catalog_add (gov_catalog g) (e\<lparr>ce_namespace := to\<rparr>),
            gov_audit = audit_append (promote_record reference (PromotedTo to)) (gov_audit g)\<rparr>)))"
  by (simp add: promote_def promotion_check_def governed_entry_def governed_add_def governed_audit_def
      promote_record_def sbind_def st_defs split: option.split sum.split admission_error.split)

section \<open>Properties\<close>

text \<open>
  The download gate fails closed and leaves a trace: it returns exactly when the license is
  present and accepted, a demanded verified namespace is given, and every gated capability is
  granted; otherwise it raises and nothing is returned. Either way exactly one record is appended
  to the log, naming the artifact, the outcome and the policy version.
\<close>

theorem download_gate_fails_closed:
  assumes "gate (python_engine pd) e rq (Some rs) = (r, sink)"
  shows "is_ok r = permitted pd e rq
    \<and> (\<exists>rec. sink = Some (rs @ [rec]) \<and> au_action rec = ''download'' \<and> au_reference rec = entry_reference e
        \<and> au_allowed rec = permitted pd e rq \<and> au_policy_version rec = pd_version pd)"
proof -
  have "d_policy_version (python_evaluate pd e rq) = pd_version pd"
    by (simp add: python_evaluate_def Let_def)
  then show ?thesis
    using python.gate_cases [OF assms] by (auto simp: python_engine_def)
qed

definition demo_targeting_entry :: catalog_entry where
  "demo_targeting_entry = (demo_entry ''1.0.0'')\<lparr>ce_manifest := demo_manifest\<lparr>
     pm_license := Some ''MIT'', pm_capability_tags := [OPERATIONAL_TARGETING]\<rparr>\<rparr>"

definition demo_download :: download_request where
  "demo_download = \<lparr>dr_grants = [], dr_allowed_licenses = [''MIT''], dr_require_verified = False\<rparr>"

theorem download_gate_fails_closed_witness:
  "\<not> is_ok (fst (gate (python_engine bundle_data) demo_targeting_entry demo_download (Some [])))"
proof -
  have "\<not> permitted bundle_data demo_targeting_entry demo_download"
    by code_simp
  then show ?thesis
    using download_gate_fails_closed [OF prod.collapse [symmetric]] by simp
qed

text \<open>
  C37: The two policy engines agree: on every artifact and request the Rego bundle, evaluated by OPA
  as it is written, produces a decision, and that decision has the outcome, the rule code, the
  reference and the policy version of the pure Python engine's.
\<close>

theorem policy_engines_agree:
  "\<exists>d. opa_evaluate (rego_decision pd) e rq = Inr d
    \<and> d_allowed d = d_allowed (python_evaluate pd e rq) \<and> d_code d = d_code (python_evaluate pd e rq)
    \<and> d_reference d = d_reference (python_evaluate pd e rq)
    \<and> d_policy_version d = d_policy_version (python_evaluate pd e rq)"
  using rego_engine [of pd e rq]
  by (auto simp: python_allowed) (simp add: python_evaluate_def Let_def)+

text \<open>The check promotion makes against a registry.\<close>

definition registry_verifier ::
    "('k, 'p) crypto \<Rightarrow> 'b documents \<Rightarrow> 'b codec \<Rightarrow> 'b manifests \<Rightarrow> string option \<Rightarrow> moment \<Rightarrow> 'b layout
      \<Rightarrow> plugin_manifest \<Rightarrow> string \<Rightarrow> admission_error + unit" where
  "registry_verifier cr dc cd mf trusted now lay m dg =
    verify_admissible cr dc cd mf lay m dg trusted now DEFAULT_REQUIRED"

text \<open>
  C29: Unverified content is never promoted: a promotion that succeeds is a demotion to \<^verbatim>\<open>open\<close> or was
  given a registry in which the artifact, at the indexed digest, is present, intact, signed and has
  all the required evidence; it changes the namespace of that one entry and nothing else of the
  catalog. A promotion that raises leaves the catalog unchanged.
\<close>

theorem promotion_requires_evidence:
  assumes "promote (map_option (registry_verifier cr dc cd mf trusted now) registry) reference to g = (r, g')"
  shows "(\<exists>err. r = Inl err \<and> gov_catalog g' = gov_catalog g)
    \<or> (\<exists>e. catalog_get (gov_catalog g) reference = Some e \<and> r = Inr (e\<lparr>ce_namespace := to\<rparr>)
        \<and> to \<in> set NAMESPACES
        \<and> (to = ''open'' \<or> (\<exists>lay. registry = Some lay
              \<and> admissible_artifact cr dc cd mf lay (ce_manifest e) (ce_digest e) trusted now DEFAULT_REQUIRED))
        \<and> gov_catalog g' = catalog_add (gov_catalog g) (e\<lparr>ce_namespace := to\<rparr>))"
proof (cases "to \<in> set NAMESPACES \<and> catalog_get (gov_catalog g) reference \<noteq> None")
  case False
  then show ?thesis
    using assms by (auto simp: promote_eq split: if_splits option.splits)
next
  case True
  then obtain e where e: "catalog_get (gov_catalog g) reference = Some e" and to: "to \<in> set NAMESPACES"
    by blast
  let ?v = "map_option (registry_verifier cr dc cd mf trusted now) registry"
  show ?thesis
  proof (cases "promotion_check ?v reference to e")
    case (Inl p)
    then show ?thesis
      using assms e to by (cases p; cases "snd p") (auto simp: promote_eq)
  next
    case (Inr u)
    then have "to = ''open'' \<or> (\<exists>lay. registry = Some lay
        \<and> admissible_artifact cr dc cd mf lay (ce_manifest e) (ce_digest e) trusted now DEFAULT_REQUIRED)"
      by (auto simp: promotion_check_def registry_verifier_def verify_admissible_Inr
          split: if_splits option.splits sum.splits admission_error.splits)
    then show ?thesis
      using assms e to Inr by (auto simp: promote_eq)
  qed
qed

definition demo_governance :: governance where
  "demo_governance = \<lparr>gov_catalog = demo_catalog, gov_audit = Some []\<rparr>"

theorem promotion_requires_evidence_witness:
  "\<exists>err. fst (promote (map_option (registry_verifier demo_crypto demo_hub_documents demo_hub_codec
      demo_manifests (Some ''Pk'') 0) None) ''lawnmower:1.9.0'' ''curated'' demo_governance) = Inl err"
proof -
  let ?p = "promote (map_option (registry_verifier demo_crypto demo_hub_documents demo_hub_codec
      demo_manifests (Some ''Pk'') 0) None) ''lawnmower:1.9.0'' ''curated'' demo_governance"
  show ?thesis
    using promotion_requires_evidence [OF prod.collapse [symmetric, of ?p]] by auto
qed

text \<open>
  Refused promotions are not recorded as refusals. When evidence fails, the record appended for
  the refusal says \<^verbatim>\<open>allowed=True\<close>; and when the stored bytes were tampered with, the registry's own
  exception leaves \<^verbatim>\<open>promote\<close> and no record is written at all.
\<close>

theorem refused_promotion_misrecorded:
  assumes "catalog_get (gov_catalog g) reference = Some e" and "to \<in> set NAMESPACES"
    and "gov_audit g = Some rs"
    and "promote (Some (registry_verifier cr dc cd mf trusted now lay)) reference to g = (Inl err, g')"
  shows "((\<exists>rec why. gov_audit g' = Some (rs @ [rec]) \<and> au_reason rec = DeniedEvidence why \<and> au_allowed rec)
        \<or> (g' = g \<and> (\<exists>x. err = PromotionRaised x)))
    \<and> ((\<exists>b. read_blob lay (ce_digest e) = Inr b \<and> content_hash cd b \<noteq> ce_digest e) \<longrightarrow> g' = g)"
proof -
  let ?v = "registry_verifier cr dc cd mf trusted now lay"
  obtain why where pc: "promotion_check (Some ?v) reference to e = Inl (err, why)"
    and g': "g' = (case why of None \<Rightarrow> g
      | Some w \<Rightarrow> g\<lparr>gov_audit := audit_append (promote_record reference w) (gov_audit g)\<rparr>)"
    using assms by (auto simp: promote_eq split: sum.splits option.splits)
  then consider x where "?v (ce_manifest e) (ce_digest e) = Inl (SupplyChain x)" "why = Some (DeniedEvidence x)"
    | x where "\<And>y. x \<noteq> SupplyChain y" "?v (ce_manifest e) (ce_digest e) = Inl x" "why = None" "err = PromotionRaised x"
    by (auto simp: promotion_check_def split: if_splits sum.splits admission_error.splits)
  then have first: "(\<exists>rec why. gov_audit g' = Some (rs @ [rec]) \<and> au_reason rec = DeniedEvidence why \<and> au_allowed rec)
      \<or> (g' = g \<and> (\<exists>x. err = PromotionRaised x))"
    by cases (auto simp: g' audit_append_def assms(3) promote_record_def)
  have "why = None" if t: "read_blob lay (ce_digest e) = Inr b" "content_hash cd b \<noteq> ce_digest e" for b
  proof -
    have "?v (ce_manifest e) (ce_digest e) = Inl (RegistryRaised (IntegrityError (ce_digest e) (content_hash cd b)))"
      using t by (simp add: registry_verifier_def verify_admissible_def present_and_intact_def
          Hub_Store.verify_def verify_blob_def is_key_error_def)
    with pc show ?thesis by (auto simp: promotion_check_def split: if_splits)
  qed
  with first g' show ?thesis by auto
qed

definition demo_tampered_layout :: "demo_bytes layout" where
  "demo_tampered_layout = \<lparr>blobs = [(''1.9.0'', DJson JNull)], index = []\<rparr>"

theorem refused_promotion_misrecorded_witness:
  "\<exists>err. promote (Some (registry_verifier demo_crypto demo_hub_documents demo_hub_codec demo_manifests
      (Some ''Pk'') 0 demo_tampered_layout)) ''lawnmower:1.9.0'' ''curated'' demo_governance
    = (Inl err, demo_governance)"
proof -
  let ?p = "promote (Some (registry_verifier demo_crypto demo_hub_documents demo_hub_codec
      demo_manifests (Some ''Pk'') 0 demo_tampered_layout)) ''lawnmower:1.9.0'' ''curated'' demo_governance"
  have "\<not> is_ok (fst ?p)" by code_simp
  then obtain err where err: "fst ?p = Inl err" by (cases "fst ?p") auto
  have e: "catalog_get (gov_catalog demo_governance) ''lawnmower:1.9.0'' = Some (demo_entry ''1.9.0'')"
    by (simp add: demo_governance_def demo_catalog_def catalog_get_def catalog_add_def demo_entry_reference)
  have b: "read_blob demo_tampered_layout (ce_digest (demo_entry ''1.9.0'')) = Inr (DJson JNull)"
    "content_hash demo_hub_codec (DJson JNull) \<noteq> ce_digest (demo_entry ''1.9.0'')"
    by code_simp+
  have p: "?p = (Inl err, snd ?p)" using err by (metis prod.collapse)
  have "snd ?p = demo_governance"
    using refused_promotion_misrecorded [OF e _ _ p, of "[]"] b by (auto simp: demo_governance_def NAMESPACES_def)
  with p show ?thesis by metis
qed

text \<open>
  C36: A yank takes effect at once and only there: after yanking a reference no request resolves to
  it any more, every other reference keeps its entry, the entry itself stays indexed (its bytes can
  still be pulled by digest), and the action is recorded.
\<close>

theorem yanked_never_resolves:
  assumes "catalog_inv (gov_catalog g)" and "gov_audit g = Some rs"
    and "yank reference why g = (Inr e, g')"
  shows "catalog_inv (gov_catalog g') \<and> catalog_get (gov_catalog g') reference = Some e \<and> ce_yanked e
    \<and> (\<forall>ref. ref = reference \<or> catalog_get (gov_catalog g') ref = catalog_get (gov_catalog g) ref)
    \<and> (\<forall>pk rq ra. resolve_request (pk :: 'v::linorder packaging) (catalog_all (gov_catalog g')) rq = Inr ra
          \<longrightarrow> ra_reference ra \<noteq> reference)
    \<and> (\<exists>rec. gov_audit g' = Some (rs @ [rec]) \<and> au_action rec = ''yank'' \<and> au_reference rec = reference)"
proof -
  obtain e0 where e0: "catalog_get (gov_catalog g) reference = Some e0"
    and e: "e = e0\<lparr>ce_yanked := True\<rparr>" and c: "gov_catalog g' = catalog_add (gov_catalog g) e"
    and a: "gov_audit g' = audit_append \<lparr>au_action = ''yank'', au_reference = reference,
      au_allowed = True, au_reason = Because why, au_policy_version = '''', au_engine = ''''\<rparr> (gov_audit g)"
    using assms(3) by (auto simp: yank_eq split: option.splits)
  have ref: "entry_reference e = reference"
    using memory.get_reference [OF assms(1) e0] by (simp add: e entry_reference_def)
  show ?thesis
    using memory.inv_add [OF assms(1)] memory.yanked_entry_unresolved [OF assms(1) e0] assms(2)
    by (auto simp: c a e [symmetric] ref catalog_get_add audit_append_def) (simp add: e)
qed

theorem yanked_never_resolves_witness:
  "resolve_request demo_packaging (catalog_all (gov_catalog (snd (yank ''lawnmower:1.10.0'' ''bad'' demo_governance))))
      demo_request = Inr (pin (demo_entry ''1.9.0''))
   \<and> catalog_inv (gov_catalog (snd (yank ''lawnmower:1.10.0'' ''bad'' demo_governance)))"
proof
  let ?y = "yank ''lawnmower:1.10.0'' ''bad'' demo_governance"
  show "resolve_request demo_packaging (catalog_all (gov_catalog (snd ?y))) demo_request
      = Inr (pin (demo_entry ''1.9.0''))"
    by code_simp
  have "is_ok (fst ?y)" by code_simp
  then obtain e where "?y = (Inr e, snd ?y)" by (cases ?y) (auto simp: is_ok_iff)
  moreover have "catalog_inv (gov_catalog demo_governance)" "gov_audit demo_governance = Some []"
    using demo_catalog_inv by (simp_all add: demo_governance_def)
  ultimately show "catalog_inv (gov_catalog (snd ?y))"
    using yanked_never_resolves by blast
qed

end
