(* ===== verification/Hub_Client.thy ===== *)
theory Hub_Client
  imports Hub_Governance
begin

text \<open>
  The client SDK of \<^verbatim>\<open>hub/client/_client.py\<close>: publish (store, sign, attest, admit, index), resolve,
  verify, pull with a cache keyed on digests, load through Core's registry, payload layers,
  materialization, and the rebuild of a catalog. A cache or destination directory is a dictionary
  from file names to bytes.
\<close>

section \<open>State and environment\<close>

record ('k, 'p, 'b) client_env =
  env_crypto :: "('k, 'p) crypto"
  env_documents :: "'b documents"
  env_codec :: "'b codec"
  env_manifests :: "'b manifests"
  env_provider :: provider
  env_trusted :: "string option"
  env_now :: moment

record 'b client =
  cl_layout :: "'b layout"
  cl_catalog :: memory_catalog
  cl_cache :: "(string, 'b) dict option"

datatype client_error =
    NameRejected name_error
  | ClientRegistry hub_error
  | ClientAttest "hub_error attest_error"
  | ClientAdmission admission_error
  | ClientSupply "hub_error supply_error"
  | ClientIntegrity string string
  | NotAPayloadLayer string string
  | NoDestination
  | BadManifest
  | ClientEntry entry_error
  | LoadRefused "unit registry_error"

definition on_layout :: "('x \<Rightarrow> 'e) \<Rightarrow> ('b layout, 'x, 'a) st \<Rightarrow> ('b client, 'e, 'a) st" where
  "on_layout f m c = (case m (cl_layout c) of (r, lay) \<Rightarrow> (rerr f r, c\<lparr>cl_layout := lay\<rparr>))"

definition on_catalog :: "('x \<Rightarrow> 'e) \<Rightarrow> (memory_catalog, 'x, 'a) st \<Rightarrow> ('b client, 'e, 'a) st" where
  "on_catalog f m c = (case m (cl_catalog c) of (r, cat) \<Rightarrow> (rerr f r, c\<lparr>cl_catalog := cat\<rparr>))"

definition read_layout :: "('x \<Rightarrow> 'e) \<Rightarrow> ('b layout \<Rightarrow> 'x + 'a) \<Rightarrow> ('b client, 'e, 'a) st" where
  "read_layout f q c = (rerr f (q (cl_layout c)), c)"

section \<open>Publishing\<close>

definition BUILDER_ID :: string where
  "BUILDER_ID = ''astro-mine-hub''"

definition MEDIA_CORE_MANIFEST :: string where
  "MEDIA_CORE_MANIFEST = ''application/vnd.astro-mine.manifest.v1+json''"

text \<open>The config \<^verbatim>\<open>Registry.publish\<close> stores for a mapping: its canonical JSON.\<close>

definition config_blob :: "('k, 'p, 'b) client_env \<Rightarrow> plugin_manifest \<Rightarrow> 'b blob" where
  "config_blob env m =
    \<lparr>blob_media = MEDIA_CORE_MANIFEST,
     blob_data = canonical_json (env_documents env) (model_dump (env_manifests env) m)\<rparr>"

definition client_publish ::
    "('k, 'p, 'b) client_env \<Rightarrow> string \<Rightarrow> string \<Rightarrow> string \<Rightarrow> plugin_manifest \<Rightarrow> 'b blob list \<Rightarrow> string
      \<Rightarrow> string \<Rightarrow> string \<Rightarrow> string list \<Rightarrow> (string, string) dict list
      \<Rightarrow> ('b client, client_error, published_artifact) st" where
  "client_publish env name version kind m layers private_pem namespace publisher inputs components =
    sbind (slift (rerr NameRejected (validate_artifact_name name))) (\<lambda>_.
    sbind (on_layout ClientRegistry (publish (env_codec env) name version kind
        (config_blob env m) layers [])) (\<lambda>artifact.
    sbind (on_layout ClientAttest (attest (env_crypto env) (env_documents env)
        (registry_store (env_codec env)) (pa_digest artifact) private_pem name version BUILDER_ID
        inputs components)) (\<lambda>_.
    sbind (\<lambda>c. on_catalog ClientAdmission (admit (env_crypto env) (env_documents env) (env_codec env)
        (env_manifests env) (env_provider env) (cl_layout c) m (pa_digest artifact) publisher namespace
        (env_trusted env) (env_now env) DEFAULT_REQUIRED) c) (\<lambda>_.
    sret artifact))))"

section \<open>Resolving, verifying and pulling\<close>

definition client_resolve ::
    "'v::linorder packaging \<Rightarrow> resolution_request \<Rightarrow> 'b client \<Rightarrow> resolution_error + resolved_artifact" where
  "client_resolve pk rq c = resolve_request pk (catalog_all (cl_catalog c)) rq"

definition cache_name :: "string \<Rightarrow> string" where
  "cache_name dg = snd (snd (partition_on CHR '':'' dg))"

definition cached :: "'b client \<Rightarrow> string \<Rightarrow> 'b option" where
  "cached c dg = (case cl_cache c of None \<Rightarrow> None | Some d \<Rightarrow> dict_get d (cache_name dg))"

definition cache_write :: "string \<Rightarrow> 'b \<Rightarrow> 'b client \<Rightarrow> 'b client" where
  "cache_write dg b c = c\<lparr>cl_cache := map_option (\<lambda>d. dict_set d (cache_name dg) b) (cl_cache c)\<rparr>"

definition supply_check ::
    "('k, 'p, 'b) client_env \<Rightarrow> string \<Rightarrow> string list \<Rightarrow> 'b layout \<Rightarrow> hub_error supply_error + unit" where
  "supply_check env dg require lay =
    hub_verify (env_crypto env) (env_documents env) (env_codec env) lay dg (env_trusted env) (env_now env) require"

definition verified_digest ::
    "('k, 'p, 'b) client_env \<Rightarrow> string \<Rightarrow> bool \<Rightarrow> string list \<Rightarrow> ('b client, client_error, string) st" where
  "verified_digest env reference do_verify require =
    sbind (read_layout ClientRegistry (\<lambda>lay. hub_resolve (env_codec env) lay reference)) (\<lambda>d.
    sbind (if do_verify then read_layout ClientSupply (supply_check env (digest d) require) else sret ()) (\<lambda>_.
    sret (digest d)))"

definition client_verify ::
    "('k, 'p, 'b) client_env \<Rightarrow> string \<Rightarrow> string list \<Rightarrow> ('b client, client_error, string) st" where
  "client_verify env reference require = verified_digest env reference True require"

definition client_pull ::
    "('k, 'p, 'b) client_env \<Rightarrow> string \<Rightarrow> bool \<Rightarrow> string list \<Rightarrow> ('b client, client_error, 'b) st" where
  "client_pull env reference do_verify require =
    sbind (verified_digest env reference do_verify require) (\<lambda>dg.
    sbind (sread (\<lambda>c. cached c dg)) (\<lambda>hit.
      case hit of
        Some b \<Rightarrow> sret b
      | None \<Rightarrow>
          sbind (read_layout ClientRegistry (\<lambda>lay. verify (env_codec env) lay dg)) (\<lambda>_.
          sbind (read_layout ClientRegistry (\<lambda>lay. read_config (env_codec env) lay dg)) (\<lambda>config.
          sbind (smodify (cache_write dg config)) (\<lambda>_.
          sret config)))))"

definition client_load ::
    "('k, 'p, 'b) client_env \<Rightarrow> (plugin_manifest \<Rightarrow> bool) \<Rightarrow> string \<Rightarrow> string list
      \<Rightarrow> ('b client, client_error, plugin_manifest) st" where
  "client_load env schema_ok reference require =
    sbind (client_pull env reference True require) (\<lambda>config.
      case model_validate (env_manifests env) config of
        None \<Rightarrow> sraise BadManifest
      | Some m \<Rightarrow>
          sbind (slift (rerr LoadRefused (register schema_ok (registry_init None False None) m))) (\<lambda>_.
          sret m))"

section \<open>Payload layers\<close>

definition payload_descriptors ::
    "('k, 'p, 'b) client_env \<Rightarrow> string \<Rightarrow> string option \<Rightarrow> bool \<Rightarrow> string list
      \<Rightarrow> ('b client, client_error, descriptor list) st" where
  "payload_descriptors env reference wanted do_verify require =
    sbind (verified_digest env reference do_verify require) (\<lambda>dg.
    sbind (read_layout ClientRegistry (\<lambda>lay. read_manifest (env_codec env) lay dg)) (\<lambda>m.
    sret (filter (\<lambda>l. wanted = None \<or> Some (media_type l) = wanted) (im_layers m))))"

definition verified_bytes ::
    "('k, 'p, 'b) client_env \<Rightarrow> descriptor \<Rightarrow> ('b client, client_error, 'b) st" where
  "verified_bytes env d =
    sbind (sread (\<lambda>c. cached c (digest d))) (\<lambda>hit.
    sbind (case hit of
        Some b \<Rightarrow> sret b
      | None \<Rightarrow> read_layout ClientRegistry (\<lambda>lay. read_blob lay (digest d))) (\<lambda>b.
    if content_hash (env_codec env) b \<noteq> digest d
    then sraise (ClientIntegrity (digest d) (content_hash (env_codec env) b))
    else
      sbind (smodify (if hit = None then cache_write (digest d) b else (\<lambda>c. c))) (\<lambda>_.
      sret b)))"

definition pull_payload ::
    "('k, 'p, 'b) client_env \<Rightarrow> string \<Rightarrow> string option \<Rightarrow> bool \<Rightarrow> string list
      \<Rightarrow> ('b client, client_error, (descriptor \<times> 'b) list) st" where
  "pull_payload env reference wanted do_verify require =
    sbind (payload_descriptors env reference wanted do_verify require) (\<lambda>ds.
    smap (\<lambda>d. sbind (verified_bytes env d) (\<lambda>b. sret (d, b))) ds)"

fun find_layer :: "string \<Rightarrow> descriptor list \<Rightarrow> descriptor option" where
  "find_layer dg [] = None"
| "find_layer dg (d # ds) = (if digest d = dg then Some d else find_layer dg ds)"

definition pull_layer ::
    "('k, 'p, 'b) client_env \<Rightarrow> string \<Rightarrow> string \<Rightarrow> bool \<Rightarrow> string list \<Rightarrow> ('b client, client_error, 'b) st" where
  "pull_layer env reference dg do_verify require =
    sbind (payload_descriptors env reference None do_verify require) (\<lambda>ds.
      case find_layer dg ds of
        None \<Rightarrow> sraise (NotAPayloadLayer dg reference)
      | Some d \<Rightarrow> verified_bytes env d)"

fun write_layers ::
    "(string, 'b) dict \<Rightarrow> (descriptor \<times> 'b) list \<Rightarrow> (string, 'b) dict \<times> string list" where
  "write_layers dir [] = (dir, [])"
| "write_layers dir ((d, b) # ls) =
    (let path = cache_name (digest d);
         dir' = (if dict_get dir path = None then dict_set dir path b else dir);
         (dir'', paths) = write_layers dir' ls
     in (dir'', path # paths))"

text \<open>Returns the destination directory as it is left (the cache itself without a \<open>dest\<close>).\<close>

definition materialize ::
    "('k, 'p, 'b) client_env \<Rightarrow> string \<Rightarrow> (string, 'b) dict option \<Rightarrow> string option \<Rightarrow> bool \<Rightarrow> string list
      \<Rightarrow> ('b client, client_error, string list \<times> (string, 'b) dict) st" where
  "materialize env reference dest wanted do_verify require =
    sbind (sread cl_cache) (\<lambda>cache.
    if dest = None \<and> cache = None then sraise NoDestination
    else
      sbind (pull_payload env reference wanted do_verify require) (\<lambda>ls.
      case dest of
        Some dir \<Rightarrow> (case write_layers dir ls of (dir', paths) \<Rightarrow> sret (paths, dir'))
      | None \<Rightarrow>
          sbind (sread (\<lambda>c. case cl_cache c of None \<Rightarrow> [] | Some d \<Rightarrow> d)) (\<lambda>dir.
          case write_layers dir ls of (dir', paths) \<Rightarrow>
            sbind (smodify (\<lambda>c. c\<lparr>cl_cache := Some dir'\<rparr>)) (\<lambda>_. sret (paths, dir')))))"

section \<open>Rebuilding a catalog\<close>

fun index_references ::
    "('k, 'p, 'b) client_env \<Rightarrow> 'b layout \<Rightarrow> string \<Rightarrow> memory_catalog \<Rightarrow> string list
      \<Rightarrow> client_error + memory_catalog" where
  "index_references env lay publisher cat [] = Inr cat"
| "index_references env lay publisher cat (ref # refs) =
    rbind (rerr ClientRegistry (hub_resolve (env_codec env) lay ref)) (\<lambda>d.
    rbind (rerr ClientRegistry (read_config (env_codec env) lay (digest d))) (\<lambda>config.
      case model_validate (env_manifests env) config of
        None \<Rightarrow> Inl BadManifest
      | Some m \<Rightarrow> rbind (rerr ClientEntry (ingest cat m (digest d) publisher ''open'' None (env_provider env)))
          (\<lambda>i. index_references env lay publisher (fst i) refs)))"

definition catalog_from_registry ::
    "('k, 'p, 'b) client_env \<Rightarrow> 'b layout \<Rightarrow> memory_catalog \<Rightarrow> string \<Rightarrow> client_error + memory_catalog" where
  "catalog_from_registry env lay cat publisher =
    index_references env lay publisher cat (references lay)"

section \<open>Running the steps\<close>

lemma read_layout_Inr: "(read_layout f q c = (Inr x, c')) = (q (cl_layout c) = Inr x \<and> c' = c)"
  by (auto simp: read_layout_def)

lemma on_layout_Inr:
  "(on_layout f m c = (Inr x, c')) = (\<exists>lay. m (cl_layout c) = (Inr x, lay) \<and> c' = c\<lparr>cl_layout := lay\<rparr>)"
  by (auto simp: on_layout_def split: prod.splits)

lemma on_catalog_Inr:
  "(on_catalog f m c = (Inr x, c')) = (\<exists>cat. m (cl_catalog c) = (Inr x, cat) \<and> c' = c\<lparr>cl_catalog := cat\<rparr>)"
  by (auto simp: on_catalog_def split: prod.splits)

lemma on_layout_catalog [simp]: "cl_catalog (snd (on_layout f m c)) = cl_catalog c"
  by (simp add: on_layout_def split: prod.splits)

lemma verified_digest_Inr:
  "(verified_digest env reference do_verify require c = (Inr dg, c')) =
    (c' = c \<and> (\<exists>d. hub_resolve (env_codec env) (cl_layout c) reference = Inr d \<and> dg = digest d
      \<and> (do_verify \<longrightarrow> supply_check env dg require (cl_layout c) = Inr ())))"
  by (auto simp: verified_digest_def sbind_Inr read_layout_Inr sret_def)

lemma verified_bytes_Inr:
  assumes "verified_bytes env d c = (Inr b, c')"
  shows "content_hash (env_codec env) b = digest d" and "cl_layout c' = cl_layout c"
  using assms
  by (auto simp: verified_bytes_def sbind_Inr read_layout_Inr st_defs cache_write_def
      split: option.splits if_splits)

lemma smap_all2:
  assumes "smap f xs s = (Inr ys, t)" and "\<And>x y s t. f x s = (Inr y, t) \<Longrightarrow> P x y"
  shows "list_all2 P xs ys"
  using assms(1)
proof (induction xs arbitrary: s ys)
  case Nil
  then show ?case by (simp add: sret_def)
next
  case (Cons x xs)
  then show ?case using assms(2) by (auto simp: sbind_Inr sret_def)
qed

lemma payload_descriptors_Inr:
  "(payload_descriptors env reference wanted do_verify require c = (Inr ds, c')) =
    (\<exists>dg m. verified_digest env reference do_verify require c = (Inr dg, c')
      \<and> read_manifest (env_codec env) (cl_layout c') dg = Inr m
      \<and> ds = filter (\<lambda>l. wanted = None \<or> Some (media_type l) = wanted) (im_layers m))"
  by (auto simp: payload_descriptors_def sbind_Inr read_layout_Inr sret_def)

lemma client_publish_cases:
  assumes "client_publish env name version kind m layers private_pem namespace publisher inputs components c
    = (r, c')"
  shows "(\<exists>err. r = Inl err \<and> cl_catalog c' = cl_catalog c)
    \<or> (\<exists>pa lay lay'. r = Inr pa \<and> is_ok (validate_artifact_name name)
        \<and> publish (env_codec env) name version kind (config_blob env m) layers [] (cl_layout c) = (Inr pa, lay)
        \<and> (\<exists>out. attest (env_crypto env) (env_documents env) (registry_store (env_codec env)) (pa_digest pa)
              private_pem name version BUILDER_ID inputs components lay = (Inr out, lay'))
        \<and> (\<exists>e cat'. admit (env_crypto env) (env_documents env) (env_codec env) (env_manifests env)
              (env_provider env) lay' m (pa_digest pa) publisher namespace (env_trusted env) (env_now env)
              DEFAULT_REQUIRED (cl_catalog c) = (Inr e, cat')
            \<and> c' = c\<lparr>cl_layout := lay', cl_catalog := cat'\<rparr>))"
proof (cases "validate_artifact_name name")
  case (Inl e)
  then show ?thesis using assms by (auto simp: client_publish_def)
next
  case name: (Inr n)
  let ?pub = "publish (env_codec env) name version kind (config_blob env m) layers [] (cl_layout c)"
  obtain r1 lay where p: "?pub = (r1, lay)" by (cases ?pub) auto
  show ?thesis
  proof (cases r1)
    case (Inl e)
    then show ?thesis using assms name p by (auto simp: client_publish_def sbind_def st_defs on_layout_def)
  next
    case pa: (Inr pa)
    let ?at = "attest (env_crypto env) (env_documents env) (registry_store (env_codec env)) (pa_digest pa)
        private_pem name version BUILDER_ID inputs components lay"
    obtain r2 lay' where a: "?at = (r2, lay')" by (cases ?at) auto
    show ?thesis
    proof (cases r2)
      case (Inl e)
      then show ?thesis using assms name p pa a by (auto simp: client_publish_def sbind_def st_defs on_layout_def)
    next
      case out: (Inr out)
      let ?adm = "admit (env_crypto env) (env_documents env) (env_codec env) (env_manifests env)
        (env_provider env) lay' m (pa_digest pa) publisher namespace (env_trusted env) (env_now env)
        DEFAULT_REQUIRED (cl_catalog c)"
      obtain r3 cat' where d: "?adm = (r3, cat')" by (cases ?adm) auto
      have run: "(r, c') = (case r3 of Inl e \<Rightarrow> Inl (ClientAdmission e) | Inr _ \<Rightarrow> Inr pa,
          c\<lparr>cl_layout := lay', cl_catalog := cat'\<rparr>)"
        using assms name p pa a out d
        by (auto simp: client_publish_def sbind_def st_defs on_layout_def on_catalog_def split: sum.splits)
      show ?thesis
      proof (cases r3)
        case (Inl e)
        then have "cat' = cl_catalog c" using d by (auto simp: admit_eq split: sum.splits prod.splits)
        with run Inl show ?thesis by simp
      next
        case (Inr e)
        with run name p pa a out d show ?thesis by auto
      qed
    qed
  qed
qed


section \<open>Publishing end to end\<close>

text \<open>The image manifest the client's publish stores, and its digest.\<close>

definition client_manifest ::
    "('k, 'p, 'b) client_env \<Rightarrow> string \<Rightarrow> plugin_manifest \<Rightarrow> 'b blob list \<Rightarrow> image_manifest" where
  "client_manifest env kind m layers =
    manifest_of (env_codec env) (''application/vnd.astro-mine.'' @ kind @ ''.v1'') (config_blob env m) layers []"

definition client_digest ::
    "('k, 'p, 'b) client_env \<Rightarrow> string \<Rightarrow> plugin_manifest \<Rightarrow> 'b blob list \<Rightarrow> string" where
  "client_digest env kind m layers =
    content_hash (env_codec env) (dumps (env_codec env) (client_manifest env kind m layers))"


lemma published_unattested:
  assumes ok: "digests_ok cd" and pub: "publish cd name version kind config layers annots lay = (Inr pa, lay')"
    and man: "read_manifest cd lay' (pa_digest pa) = Inr m" "im_subject m = None"
    and old: "registry_digests cd lay dg t = Inr []"
  shows "registry_digests cd lay' dg t = Inr []"
proof -
  obtain es where es: "index lay' = index lay @ es" and d: "\<forall>e \<in> set es. digest e = pa_digest pa" "length es = 1"
    using pub by (auto simp: publish_eq [OF ok] Let_def split: if_splits sum.splits)
  then obtain e where e: "es = [e]" "digest e = pa_digest pa"
    by (cases es) auto
  have "referrers_from (read_manifest cd lay) (index lay) dg (Some t) = Inr []"
    using old by (auto simp: registry_digests_def referrers_def rbind_Inr)
  then have "referrers_from (read_manifest cd lay') (index lay) dg (Some t) = Inr []"
    by (rule referrers_from_mono) (rule read_manifest_grows [OF publish_grows [OF ok pub]])
  moreover have "referrers_from (read_manifest cd lay') es dg (Some t) = Inr []"
    using man e by simp
  ultimately show ?thesis
    by (simp add: registry_digests_def referrers_def es referrers_from_append)
qed

lemma published_store_inv:
  assumes inv: "store_inv cd U lay" and pub: "publish cd name version kind config layers annots lay = (Inr pa, lay')"
    and at: "artifact_media_type kind = Inr at'" and U: "new_bytes cd at' config layers annots \<subseteq> U"
  shows "store_inv cd U lay'"
proof -
  have ok: "digests_ok cd" "layout_wf cd lay" using inv by (simp_all add: store_inv_def)
  let ?bs = "config # layers @ [canonical_manifest cd (manifest_of cd at' config layers annots)]"
  have "blobs lay' = blobs (fold (put_layout cd) ?bs lay)"
    using pub at by (auto simp: publish_eq [OF ok(1)] Let_def split: if_splits)
  then have "set (dict_values (blobs lay')) \<subseteq> blob_data ` set ?bs \<union> set (dict_values (blobs lay))"
    using fold_put_values [of cd ?bs lay] by simp
  then have "set (dict_values (blobs lay')) \<subseteq> U"
    using U inv unfolding new_bytes_def store_inv_def by blast
  then show ?thesis
    using inv publish_wf [OF ok pub] unfolding store_inv_def by blast
qed

text \<open>What must hold for a publication to go through.\<close>

definition publishable ::
    "('k, 'p, 'b) client_env \<Rightarrow> 'b set \<Rightarrow> string \<Rightarrow> string \<Rightarrow> string \<Rightarrow> plugin_manifest \<Rightarrow> 'b blob list
      \<Rightarrow> string \<Rightarrow> string list \<Rightarrow> (string, string) dict list \<Rightarrow> 'b client \<Rightarrow> bool" where
  "publishable env U name version kind m layers private_pem inputs components c =
    (is_valid_artifact_name name \<and> name \<noteq> ''sha256'' \<and> version \<noteq> [] \<and> CHR ''@'' \<notin> set version
     \<and> kind \<in> set ARTIFACT_KINDS \<and> \<not> tag_used (cl_layout c) (name @ '':'' @ version)
     \<and> (\<exists>d. model_dump (env_manifests env) m = JObj d) \<and> json_plain (model_dump (env_manifests env) m)
     \<and> attestable (client_digest env kind m layers) inputs components
     \<and> (\<forall>t. registry_digests (env_codec env) (cl_layout c) (client_digest env kind m layers) t = Inr [])
     \<and> new_bytes (env_codec env) (''application/vnd.astro-mine.'' @ kind @ ''.v1'') (config_blob env m) layers [] \<subseteq> U
     \<and> (\<forall>(t, media, payload) \<in> set (attest_payloads (env_crypto env) (env_documents env)
           (client_digest env kind m layers) private_pem name version BUILDER_ID inputs components).
         store_allowed (env_codec env) U (client_digest env kind m layers) t media payload))"

definition env_ok :: "('k, 'p, 'b) client_env \<Rightarrow> string \<Rightarrow> bool" where
  "env_ok env private_pem =
    (documents_ok (env_documents env)
     \<and> (case env_trusted env of None \<Rightarrow> False | Some pub \<Rightarrow> key_pair_ok (env_crypto env) private_pem pub))"

lemma hub_verify_signed:
  "hub_verify cr dc cd lay dg trusted now DEFAULT_REQUIRED = Inr () \<Longrightarrow>
    \<exists>r rs. referrers cd lay dg (Some ARTIFACT_TYPE_SIGNATURE) = Inr (r # rs)"
proof -
  assume "hub_verify cr dc cd lay dg trusted now DEFAULT_REQUIRED = Inr ()"
  then obtain ds where "registry_digests cd lay dg ARTIFACT_TYPE_SIGNATURE = Inr ds" "ds \<noteq> []"
    by (auto simp: hub_verify_def seal_verify_ok DEFAULT_REQUIRED_def evidence_ok_def registry_store_def)
  then show ?thesis
    by (auto simp: registry_digests_def rbind_Inr neq_Nil_conv)
qed

lemma publish_attest_admit:
  assumes inv: "store_inv (env_codec env) U (cl_layout c)" and env: "env_ok env private_pem"
    and p: "publishable env U name version kind m layers private_pem inputs components c"
  shows "\<exists>pa lay out lay'. publish (env_codec env) name version kind (config_blob env m) layers [] (cl_layout c)
        = (Inr pa, lay)
    \<and> pa_digest pa = client_digest env kind m layers
    \<and> attest (env_crypto env) (env_documents env) (registry_store (env_codec env)) (pa_digest pa) private_pem
        name version BUILDER_ID inputs components lay = (Inr out, lay')
    \<and> admissible_artifact (env_crypto env) (env_documents env) (env_codec env) (env_manifests env) lay' m
        (pa_digest pa) (env_trusted env) (env_now env) DEFAULT_REQUIRED
    \<and> read_config (env_codec env) lay' (pa_digest pa) = Inr (blob_data (config_blob env m))
    \<and> (\<exists>e. find_tag (index lay') (name @ '':'' @ version) = Some e \<and> digest e = pa_digest pa)"
proof -
  let ?cd = "env_codec env" and ?dg = "client_digest env kind m layers"
  let ?at = "''application/vnd.astro-mine.'' @ kind @ ''.v1''"
  have ok: "digests_ok ?cd" "json_ok ?cd" "layout_wf ?cd (cl_layout c)"
    using inv by (simp_all add: store_inv_def)
  have at: "artifact_media_type kind = Inr ?at"
    using p by (simp add: publishable_def artifact_media_type_def)
  have fresh: "\<not> tag_used (cl_layout c) (name @ '':'' @ version)"
    and U: "new_bytes ?cd ?at (config_blob env m) layers [] \<subseteq> U"
    and none: "\<And>t. registry_digests ?cd (cl_layout c) ?dg t = Inr []"
    and doc: "attestable ?dg inputs components"
    and pay: "\<And>t media payload. (t, media, payload) \<in> set (attest_payloads (env_crypto env)
        (env_documents env) ?dg private_pem name version BUILDER_ID inputs components) \<Longrightarrow>
        store_allowed ?cd U ?dg t media payload"
    using p by (auto simp: publishable_def)
  have inj: "inj_on (hexdigest ?cd) (new_bytes ?cd ?at (config_blob env m) layers []
      \<union> set (dict_values (blobs (cl_layout c))))"
    by (rule inj_on_subset [of "hexdigest ?cd" U]) (use U inv in \<open>auto simp: store_inv_def\<close>)
  obtain r lay where pub: "publish ?cd name version kind (config_blob env m) layers [] (cl_layout c) = (r, lay)"
    by (cases "publish ?cd name version kind (config_blob env m) layers [] (cl_layout c)") auto
  obtain pa where r: "r = Inr pa"
    and man: "read_manifest ?cd lay (pa_digest pa) = Inr (manifest_of ?cd ?at (config_blob env m) layers [])"
    and conf: "read_config ?cd lay (pa_digest pa) = Inr (blob_data (config_blob env m))"
    and ver: "verify ?cd lay (pa_digest pa) = Inr ()"
    and tag: "\<exists>e. find_tag (index lay) (name @ '':'' @ version) = Some e \<and> digest e = pa_digest pa"
    using publish_delivers [OF ok at fresh inj pub] by blast
  have dg: "pa_digest pa = ?dg"
    using pub r fresh at
    by (auto simp: publish_eq [OF ok(1)] Let_def client_digest_def client_manifest_def canonical_manifest_def)
  have inv1: "store_inv ?cd U lay"
    by (rule published_store_inv [OF inv pub [unfolded r] at U])
  have none1: "registry_digests ?cd lay ?dg t = Inr []" for t
    by (rule published_unattested [OF ok(1) pub [unfolded r] man _ none]) (simp add: manifest_of_def)
  obtain pub_pem where key: "env_trusted env = Some pub_pem" "key_pair_ok (env_crypto env) private_pem pub_pem"
    and docs: "documents_ok (env_documents env)"
    using env by (auto simp: env_ok_def split: option.splits)
  obtain out lay' where a: "attest (env_crypto env) (env_documents env) (registry_store ?cd) ?dg private_pem
        name version BUILDER_ID inputs components lay = (Inr out, lay')"
    and hv: "hub_verify (env_crypto env) (env_documents env) ?cd lay' ?dg (Some pub_pem) (env_now env)
        DEFAULT_REQUIRED = Inr ()"
    using attested_verifies [OF inv1 ver [unfolded dg] none1 docs key(2) doc pay] by blast
  have g: "grows lay lay'" by (rule attest_only_grows [OF ok(1) a])
  have conf': "read_config ?cd lay' ?dg = Inr (blob_data (config_blob env m))"
    using read_config_grows [OF g conf] dg by simp
  have "\<exists>j. load_json (env_documents env) (blob_data (config_blob env m)) = Some j
      \<and> json_same j (model_dump (env_manifests env) m)"
    using docs p by (auto simp: documents_ok_def config_blob_def publishable_def)
  then have "\<exists>d. load_json (env_documents env) (blob_data (config_blob env m)) = Some (JObj d)
      \<and> json_same (JObj d) (model_dump (env_manifests env) m)"
    using p json_same_JObj by (fastforce simp: publishable_def)
  then have "admissible_artifact (env_crypto env) (env_documents env) ?cd (env_manifests env) lay' m ?dg
      (env_trusted env) (env_now env) DEFAULT_REQUIRED"
    using verify_grows [OF g ver] conf' hub_verify_signed [OF hv] hv dg key(1)
    by (simp add: admissible_artifact_def)
  then show ?thesis
    using pub r dg a conf' tag find_tag_grows [OF g] by auto
qed

lemma validate_ok_valid: "is_ok (validate_artifact_name name) = is_valid_artifact_name name"
  by (simp add: validate_artifact_name_def Let_def)

section \<open>Properties\<close>


definition demo_env :: "(string, string, demo_bytes) client_env" where
  "demo_env =
    \<lparr>env_crypto = demo_crypto, env_documents = demo_hub_documents, env_codec = demo_hub_codec,
     env_manifests = demo_manifests, env_provider = demo_provider, env_trusted = Some ''Pk'', env_now = 0\<rparr>"

definition demo_client :: "demo_bytes client" where
  "demo_client = \<lparr>cl_layout = \<lparr>blobs = [], index = []\<rparr>, cl_catalog = [], cl_cache = Some []\<rparr>"

lemma demo_env_sel [simp]:
  "env_crypto demo_env = demo_crypto" "env_documents demo_env = demo_hub_documents"
  "env_codec demo_env = demo_hub_codec" "env_manifests demo_env = demo_manifests"
  "env_trusted demo_env = Some ''Pk''"
  by (simp_all add: demo_env_def)

lemma demo_client_sel [simp]: "cl_layout demo_client = \<lparr>blobs = [], index = []\<rparr>"
  by (simp add: demo_client_def)







text \<open>
  The publisher is checked last: with an empty one the publication raises after the artifact was
  stored under its tag and attested, and the catalog does not learn of it.
\<close>

theorem publisher_checked_too_late:
  assumes "store_inv (env_codec env) U (cl_layout c)" and "env_ok env private_pem"
    and "publishable env U name version kind m layers private_pem inputs components c"
  shows "\<exists>c'. client_publish env name version kind m layers private_pem namespace [] inputs components c
      = (Inl (ClientAdmission (EntryInvalid (EmptyFields [''publisher'']))), c')
    \<and> cl_catalog c' = cl_catalog c \<and> tag_used (cl_layout c') (name @ '':'' @ version)"
proof -
  let ?cd = "env_codec env"
  obtain pa lay out lay' e where pub: "publish ?cd name version kind (config_blob env m) layers [] (cl_layout c)
        = (Inr pa, lay)"
    and dg: "pa_digest pa = client_digest env kind m layers"
    and at: "attest (env_crypto env) (env_documents env) (registry_store ?cd) (pa_digest pa) private_pem
        name version BUILDER_ID inputs components lay = (Inr out, lay')"
    and adm: "admissible_artifact (env_crypto env) (env_documents env) ?cd (env_manifests env) lay' m
        (pa_digest pa) (env_trusted env) (env_now env) DEFAULT_REQUIRED"
    and tag: "find_tag (index lay') (name @ '':'' @ version) = Some e"
    using publish_attest_admit [OF assms] by blast
  have "pa_digest pa \<noteq> []"
    using dg by (simp add: client_digest_def content_hash_def sha256_digest_def)
  then have "ingest (cl_catalog c) m (pa_digest pa) [] namespace
      (stored_artifact_kind ?cd lay' (pa_digest pa)) (env_provider env) = Inl (EmptyFields [''publisher''])"
    by (simp add: ingest_def make_entry_def)
  then have "admit (env_crypto env) (env_documents env) ?cd (env_manifests env) (env_provider env) lay' m
      (pa_digest pa) [] namespace (env_trusted env) (env_now env) DEFAULT_REQUIRED (cl_catalog c)
      = (Inl (EntryInvalid (EmptyFields [''publisher''])), cl_catalog c)"
    using adm by (simp add: admit_eq verify_admissible_Inr [symmetric])
  moreover have "is_valid_artifact_name name"
    using assms(3) by (simp add: publishable_def)
  ultimately have "client_publish env name version kind m layers private_pem namespace [] inputs components c
      = (Inl (ClientAdmission (EntryInvalid (EmptyFields [''publisher'']))), c\<lparr>cl_layout := lay'\<rparr>)"
    using pub at by (simp add: client_publish_def validate_artifact_name_def sbind_def st_defs on_layout_def
        on_catalog_def)
  then show ?thesis using find_tag_Some [OF tag] by (auto simp: tag_used_def)
qed

text \<open>
  C2: The client indexes exactly what it verified: whatever goes wrong in its publish, be it the name,
  the registry, signing or admission, the catalog is left as it was; when it succeeds, the artifact
  the registry now holds passed every admission check under the client's trusted key, the catalog
  holds its digest and manifest under the manifest's reference, and no other reference changed.
\<close>

theorem client_publish_indexes_only_verified:
  assumes "client_publish env name version kind m layers private_pem namespace publisher inputs components c
    = (r, c')"
  shows "(\<exists>err. r = Inl err \<and> cl_catalog c' = cl_catalog c)
    \<or> (\<exists>pa. r = Inr pa \<and> is_valid_artifact_name name
        \<and> admissible_artifact (env_crypto env) (env_documents env) (env_codec env) (env_manifests env)
            (cl_layout c') m (pa_digest pa) (env_trusted env) (env_now env) DEFAULT_REQUIRED
        \<and> (\<exists>e. catalog_get (cl_catalog c') (entry_reference e) = Some e \<and> ce_manifest e = m
             \<and> ce_digest e = pa_digest pa \<and> ce_publisher e = publisher \<and> ce_namespace e = namespace
             \<and> (\<forall>ref. ref = entry_reference e
                  \<or> catalog_get (cl_catalog c') ref = catalog_get (cl_catalog c) ref)))"
proof -
  from client_publish_cases [OF assms] consider
      (failed) err where "r = Inl err" "cl_catalog c' = cl_catalog c"
    | (ok) pa lay' e cat' where "r = Inr pa" "is_ok (validate_artifact_name name)"
        "admit (env_crypto env) (env_documents env) (env_codec env) (env_manifests env) (env_provider env) lay' m
          (pa_digest pa) publisher namespace (env_trusted env) (env_now env) DEFAULT_REQUIRED (cl_catalog c)
          = (Inr e, cat')" "c' = c\<lparr>cl_layout := lay', cl_catalog := cat'\<rparr>"
    by blast
  then show ?thesis
  proof cases
    case ok
    from admit_indexes [OF ok(3)] ok(1,2,4) show ?thesis
      by (intro disjI2 exI [of _ pa] conjI exI [of _ e]) (simp_all add: validate_ok_valid catalog_get_add)
  qed blast
qed

theorem client_publish_indexes_only_verified_witness:
  "cl_catalog (snd (client_publish demo_env ''rover_v1'' ''1.0.0'' ''asset'' demo_manifest [] ''k'' ''open''
      ''local'' [] [] demo_client)) = []"
proof -
  let ?p = "client_publish demo_env ''rover_v1'' ''1.0.0'' ''asset'' demo_manifest [] ''k'' ''open''
      ''local'' [] [] demo_client"
  have "\<not> is_valid_artifact_name ''rover_v1''" by code_simp
  then have "cl_catalog (snd ?p) = cl_catalog demo_client"
    using client_publish_indexes_only_verified [OF prod.collapse [symmetric, of ?p]] by auto
  then show ?thesis by (simp add: demo_client_def)
qed

text \<open>
  C4: Payload bytes are always verified: the layers \<^verbatim>\<open>pull_payload\<close> returns are exactly the wanted
  layers of the manifest the reference resolves to, in order, and each layer's bytes hash to its
  digest, whether they came from the registry or from the cache, tampered with or not; unless
  disabled, the supply chain of the artifact verified first.
\<close>

theorem payload_always_verified:
  assumes "pull_payload env reference wanted do_verify require c = (Inr ls, c')"
  shows "\<exists>d m. hub_resolve (env_codec env) (cl_layout c) reference = Inr d
    \<and> read_manifest (env_codec env) (cl_layout c) (digest d) = Inr m
    \<and> map fst ls = filter (\<lambda>l. wanted = None \<or> Some (media_type l) = wanted) (im_layers m)
    \<and> list_all (\<lambda>(l, b). content_hash (env_codec env) b = digest l) ls
    \<and> (\<not> do_verify \<or> supply_check env (digest d) require (cl_layout c) = Inr ())"
proof -
  obtain dg m ds where v: "verified_digest env reference do_verify require c = (Inr dg, c)"
    and m: "read_manifest (env_codec env) (cl_layout c) dg = Inr m"
    and ds: "ds = filter (\<lambda>l. wanted = None \<or> Some (media_type l) = wanted) (im_layers m)"
    and run: "smap (\<lambda>d. sbind (verified_bytes env d) (\<lambda>b. sret (d, b))) ds c = (Inr ls, c')"
    using assms verified_digest_Inr by (fastforce simp: pull_payload_def sbind_Inr payload_descriptors_Inr)
  have "list_all2 (\<lambda>d (l, b). l = d \<and> content_hash (env_codec env) b = digest d) ds ls"
    by (rule smap_all2 [OF run]) (auto simp: sbind_Inr sret_def dest: verified_bytes_Inr(1))
  then have "map fst ls = ds \<and> list_all (\<lambda>(l, b). content_hash (env_codec env) b = digest l) ls"
    by (induction ds ls rule: list_all2_induct) auto
  with v m ds show ?thesis
    unfolding verified_digest_Inr by blast
qed

definition demo_layered_client :: "demo_bytes client" where
  "demo_layered_client = demo_client\<lparr>cl_layout := snd (publish demo_hub_codec ''rover'' ''1.0.0'' ''asset''
     (config_blob demo_env demo_manifest) [\<lparr>blob_media = ''onnx'', blob_data = DJson (JStr ''w'')\<rparr>] []
     (cl_layout demo_client))\<rparr>"

theorem payload_always_verified_witness:
  "\<exists>ls c'. pull_payload demo_env ''rover:1.0.0'' None False [] demo_layered_client = (Inr ls, c')
    \<and> list_all (\<lambda>(l, b). content_hash demo_hub_codec b = digest l) ls"
proof -
  let ?p = "pull_payload demo_env ''rover:1.0.0'' None False [] demo_layered_client"
  have "is_ok (fst ?p)" by code_simp
  then obtain ls c' where p: "?p = (Inr ls, c')" by (cases ?p) (auto simp: is_ok_iff)
  from payload_always_verified [OF p] p show ?thesis by (auto simp: demo_env_def)
qed

text \<open>
  The cached config is not verified: once the artifact in the registry verifies, \<^verbatim>\<open>pull\<close> returns
  whatever bytes lie in the cache under the manifest's digest, without hashing them and without
  comparing them with the verified config.
\<close>

theorem cached_config_unverified:
  assumes "verified_digest env reference do_verify require c = (Inr dg, c)"
    and "cl_cache c = Some dir" and "dict_get dir (cache_name dg) = Some anything"
  shows "client_pull env reference do_verify require c = (Inr anything, c)"
  using assms
  by (simp add: client_pull_def sbind_def [of "verified_digest env reference do_verify require"] cached_def sret_def)

theorem cached_config_unverified_witness:
  "fst (client_pull demo_env ''rover:1.0.0'' True []
      (demo_layered_client\<lparr>cl_cache := Some [(''m35'', DJson (JStr ''evil''))]\<rparr>)) = Inr (DJson (JStr ''evil''))"
proof -
  let ?c = "demo_layered_client\<lparr>cl_cache := Some [(''m35'', DJson (JStr ''evil''))]\<rparr>"
  have "fst (verified_digest demo_env ''rover:1.0.0'' True [] ?c) = Inr ''sha256:m35''"
    by code_simp
  then have "verified_digest demo_env ''rover:1.0.0'' True [] ?c = (Inr ''sha256:m35'', ?c)"
    using verified_digest_Inr [of demo_env "''rover:1.0.0''" True "[]" ?c] by (metis prod.collapse)
  moreover have "cache_name ''sha256:m35'' = ''m35''"
    by code_simp
  ultimately show ?thesis
    using cached_config_unverified [of demo_env _ _ _ ?c] by simp
qed

end
