(* ===== verification/Mind_Model.thy ===== *)
theory Mind_Model
  imports Plugin_Registry Json_Values
begin

text \<open>
  The values an autonomy stack (\<^verbatim>\<open>mind\<close>) works on: the Core messages that enter and leave it
  (\<^verbatim>\<open>core/messages/model.py\<close>), the decision context a policy is given (\<^verbatim>\<open>core/policy/model.py\<close>),
  the belief view (\<^verbatim>\<open>mind/belief/view.py\<close>), the decision-trace records
  (\<^verbatim>\<open>mind/trace/model.py\<close>) and the authored stack spec with its closed vocabularies
  (\<^verbatim>\<open>mind/spec\<close>). Times are exact rationals. A field no code of \<^verbatim>\<open>mind\<close> reads is kept as a
  JSON value; a floating point number is a real, or \<open>None\<close> when it is not finite. A policy is code outside the stack: it is a function of the observations, the context
  and the world \<open>'w\<close> (everything plugins and environments may read or change), and it returns a
  batch or raises.
\<close>

section \<open>Messages\<close>

datatype ActionKind = ACTUATOR_ACTION | MODE_ACTION | TASK_ACTION

datatype TaskKind = GOTO | SAMPLE | EXCAVATE | HAUL | DOCK | HOP | CHARGE | PROSPECT | DEPLOY
  | STANDBY | CUSTOM

type_synonym agent_id = string
type_synonym vec3 = "rat \<times> rat \<times> rat"

record prospect_task =
  region_center_m :: vec3
  prospect_other :: json

record task_directive =
  task_kind :: TaskKind
  task_prospect :: "prospect_task option"
  task_other :: json

datatype ControlMode = POSITION | VELOCITY | EFFORT | IMPEDANCE | TRAJECTORY

text \<open>
  \<^verbatim>\<open>ActuatorCommand\<close>; its stiffness, damping and trajectory reference are \<open>act_other\<close>.
\<close>

record actuator_command =
  act_target :: string
  act_mode :: ControlMode
  act_setpoint :: "real option list"
  act_unit :: "string option"
  act_feedforward :: "real option list"
  act_other :: json

record mode_command =
  mode_name :: string
  mode_params :: "(string, string) dict"

record action =
  action_agent :: agent_id
  action_kind :: ActionKind
  action_actuator :: "actuator_command option"
  action_mode :: "mode_command option"
  action_task :: "task_directive option"
  action_time :: "rat option"

text \<open>An \<^verbatim>\<open>ActionBatch\<close> is its \<^verbatim>\<open>actions\<close> list; \<^verbatim>\<open>ActionBatch()\<close> is the empty one.\<close>

type_synonym action_batch = "action list"

definition standby_action :: "agent_id \<Rightarrow> action" where
  "standby_action a = \<lparr>action_agent = a, action_kind = TASK_ACTION, action_actuator = None,
     action_mode = None,
     action_task = Some \<lparr>task_kind = STANDBY, task_prospect = None, task_other = JNull\<rparr>,
     action_time = None\<rparr>"

text \<open>\<^verbatim>\<open>PeerLink\<close> and \<^verbatim>\<open>CommsObservationMask\<close>.\<close>

record peer_link =
  link_peer :: agent_id
  link_reachable :: bool
  link_rate :: "rat option"
  link_latency :: "rat option"
  link_margin :: "rat option"

record comms_mask =
  mask_agent :: agent_id
  mask_links :: "peer_link list"
  mask_earth_contact :: bool

text \<open>
  The parts of a \<^verbatim>\<open>StateSample\<close> that a shield reads: the translation of the pose, the optional
  velocity and the optional scalar fields. Its frame, rotation and mode are in \<open>sample_other\<close>.
\<close>

type_synonym float3 = "real option \<times> real option \<times> real option"

record state_sample =
  sample_position :: float3
  sample_velocity :: "float3 option"
  sample_battery :: "real option option"
  sample_temperature :: "real option option"
  sample_other :: json

record sensor_sample =
  sensor_name :: string
  sensor_values :: "real option list"
  sensor_valid :: bool
  sensor_other :: json

record observation =
  obs_tick :: int
  obs_time :: rat
  obs_observable :: bool
  obs_state :: state_sample
  obs_sensors :: "sensor_sample list"
  obs_comms :: "comms_mask option"
  obs_other :: json

definition at_rest :: state_sample where
  "at_rest = \<lparr>sample_position = (Some 0, Some 0, Some 0), sample_velocity = Some (Some 0, Some 0, Some 0),
     sample_battery = None, sample_temperature = None, sample_other = JNull\<rparr>"

type_synonym observations = "(agent_id, observation) dict"

section \<open>The belief view\<close>

record belief_view =
  belief_tick :: int
  belief_time :: rat
  belief_agents :: "agent_id list"
  belief_observations :: observations
  belief_comms :: "(agent_id, comms_mask option) dict"

definition belief_observation :: "belief_view \<Rightarrow> agent_id \<Rightarrow> observation option" where
  "belief_observation b a = dict_get (belief_observations b) a"

definition belief_is_observable :: "belief_view \<Rightarrow> agent_id \<Rightarrow> bool" where
  "belief_is_observable b a =
    (case dict_get (belief_observations b) a of None \<Rightarrow> False | Some ob \<Rightarrow> obs_observable ob)"

definition belief_earth_contact :: "belief_view \<Rightarrow> agent_id \<Rightarrow> bool" where
  "belief_earth_contact b a =
    (case dict_get (belief_comms b) a of Some (Some m) \<Rightarrow> mask_earth_contact m | _ \<Rightarrow> False)"

definition assemble_belief :: "observations \<Rightarrow> int \<Rightarrow> rat \<Rightarrow> belief_view" where
  "assemble_belief obs tick now = \<lparr>belief_tick = tick, belief_time = now,
     belief_agents = dict_keys obs, belief_observations = obs,
     belief_comms = map (\<lambda>(a, ob). (a, obs_comms ob)) obs\<rparr>"

text \<open>\<^verbatim>\<open>comms_denied\<close>: agents are observed and none of them has an Earth link.\<close>

definition comms_denied :: "belief_view \<Rightarrow> bool" where
  "comms_denied b = (belief_agents b \<noteq> [] \<and> \<not> list_ex (belief_earth_contact b) (belief_agents b))"

section \<open>The decision context and policies\<close>

datatype extra = BeliefExtra belief_view | OtherExtra json

definition BELIEF_EXTRAS_KEY :: string where
  "BELIEF_EXTRAS_KEY = ''astro_mine.mind.belief''"

record decision_context =
  ctx_time :: rat
  ctx_objective :: "json option"
  ctx_upstream :: "action_batch option"
  ctx_seed :: "int option"
  ctx_extras :: "(string, extra) dict"

text \<open>\<^verbatim>\<open>_comms_denied(context.extras.get(BELIEF_EXTRAS_KEY))\<close>: only a belief view can deny.\<close>

definition extras_comms_denied :: "decision_context \<Rightarrow> bool" where
  "extras_comms_denied ctx = (case dict_get (ctx_extras ctx) BELIEF_EXTRAS_KEY of
     Some (BeliefExtra b) \<Rightarrow> comms_denied b | _ \<Rightarrow> False)"

datatype fault = PluginFault string | AssertionFailed | PrimitiveError string string | KeyMissing
  | NoBehaviorTreeCarried

type_synonym 'w policy = "observations \<Rightarrow> decision_context \<Rightarrow> ('w, fault, action_batch) st"

section \<open>Decision-trace records\<close>

record tier_record =
  rec_role :: string
  rec_replanned :: bool
  rec_trigger :: "string option"
  rec_fallback_used :: bool
  rec_note :: "string option"

record shield_record =
  sh_plugin :: string
  sh_intervened :: bool
  sh_kind :: "string option"
  sh_clauses :: "string list"
  sh_certificate :: "string option"

record tick_record =
  tr_tick :: int
  tr_time :: rat
  tr_seed :: "int option"
  tr_tiers :: "tier_record list"
  tr_shield :: shield_record
  tr_batch :: action_batch
  tr_comms_denied :: bool

record decision_provenance =
  prov_plugins :: "(string, string) dict"
  prov_interfaces :: "(string, string) dict"
  prov_seed :: "int option"
  prov_inputs :: "(string, string) dict"

record decision_trace =
  trace_stack :: string
  trace_provenance :: decision_provenance
  trace_ticks :: "tick_record list"

section \<open>The stack spec\<close>

datatype TierRole = MISSION | ALLOCATOR | TAMP | CONTROL

fun role_value :: "TierRole \<Rightarrow> string" where
  "role_value MISSION = ''mission''"
| "role_value ALLOCATOR = ''allocator''"
| "role_value TAMP = ''tamp''"
| "role_value CONTROL = ''control''"

definition TIER_ORDER :: "TierRole list" where
  "TIER_ORDER = [MISSION, ALLOCATOR, TAMP, CONTROL]"

datatype ReplanTriggerKind = PLAN_EXPIRED | PERIODIC | ON_FALLBACK | COMMS_LOST

fun trigger_value :: "ReplanTriggerKind \<Rightarrow> string" where
  "trigger_value PLAN_EXPIRED = ''plan_expired''"
| "trigger_value PERIODIC = ''periodic''"
| "trigger_value ON_FALLBACK = ''on_fallback''"
| "trigger_value COMMS_LOST = ''comms_lost''"

datatype ExecutionKind = COMPOSITION | BEHAVIOR_TREE
datatype CoordinationKind = CENTRALIZED | DECENTRALIZED | HYBRID

record replan_trigger =
  trig_kind :: ReplanTriggerKind
  every_ticks :: "int option"

record plugin_binding =
  bound_plugin :: string
  bound_params :: json

record tier_binding =
  tb_role :: TierRole
  tb_plugin :: string
  tb_params :: json
  tb_horizon :: "rat option"
  tb_triggers :: "replan_trigger list"
  tb_fallback :: "plugin_binding option"

record stack_spec =
  spec_id :: string
  spec_name :: string
  spec_execution :: ExecutionKind
  spec_tree_ref :: "string option"
  spec_coordination :: CoordinationKind
  spec_tiers :: "tier_binding list"
  spec_shield :: plugin_binding

text \<open>
  The model validator and the field constraints (\<^verbatim>\<open>gt=0\<close>, \<^verbatim>\<open>min_length=1\<close>,
  \<^verbatim>\<open>_reject_duplicate_roles\<close>).
\<close>

definition spec_model_ok :: "stack_spec \<Rightarrow> bool" where
  "spec_model_ok s = (spec_tiers s \<noteq> [] \<and> distinct (map tb_role (spec_tiers s))
     \<and> (\<forall>t \<in> set (spec_tiers s).
          (case tb_horizon t of None \<Rightarrow> True | Some h \<Rightarrow> 0 < h)
          \<and> (\<forall>g \<in> set (tb_triggers t). case every_ticks g of None \<Rightarrow> True | Some n \<Rightarrow> 0 < n)))"

datatype spec_error = SpecModelInvalid | PeriodicWithoutTicks string TierRole
  | ExpiryWithoutHorizon string TierRole

text \<open>\<^verbatim>\<open>_check_semantics\<close>: every trigger carries what it is evaluated against.\<close>

fun check_trigger :: "string \<Rightarrow> TierRole \<Rightarrow> rat option \<Rightarrow> replan_trigger \<Rightarrow> spec_error option" where
  "check_trigger sid role hz g =
    (if trig_kind g = PERIODIC \<and> every_ticks g = None then Some (PeriodicWithoutTicks sid role)
     else if trig_kind g = PLAN_EXPIRED \<and> hz = None then Some (ExpiryWithoutHorizon sid role)
     else None)"

fun first_error :: "('a \<Rightarrow> 'e option) \<Rightarrow> 'a list \<Rightarrow> 'e option" where
  "first_error f [] = None"
| "first_error f (x # xs) = (case f x of Some e \<Rightarrow> Some e | None \<Rightarrow> first_error f xs)"

definition check_spec_semantics :: "stack_spec \<Rightarrow> spec_error + unit" where
  "check_spec_semantics s =
    (case first_error (\<lambda>t. first_error (check_trigger (spec_id s) (tb_role t) (tb_horizon t)) (tb_triggers t))
        (spec_tiers s) of
       Some e \<Rightarrow> Inl e | None \<Rightarrow> Inr ())"

definition validate_stack_spec :: "stack_spec \<Rightarrow> spec_error + unit" where
  "validate_stack_spec s = (if spec_model_ok s then check_spec_semantics s else Inl SpecModelInvalid)"

lemma first_error_None [simp]: "(first_error f xs = None) = (\<forall>x \<in> set xs. f x = None)"
  by (induction xs) (auto split: option.splits)

lemma check_spec_semantics_ok:
  "(check_spec_semantics s = Inr ()) = (\<forall>t \<in> set (spec_tiers s). \<forall>g \<in> set (tb_triggers t).
     (trig_kind g = PERIODIC \<longrightarrow> every_ticks g \<noteq> None)
     \<and> (trig_kind g = PLAN_EXPIRED \<longrightarrow> tb_horizon t \<noteq> None))"
proof -
  have "((case r of Some e \<Rightarrow> Inl e | None \<Rightarrow> Inr ()) = Inr ()) = (r = None)" for r :: "spec_error option"
    by (cases r) simp_all
  then show ?thesis
    by (auto simp: check_spec_semantics_def split: if_splits)
qed

lemma role_value_inj [simp]: "(role_value r = role_value q) = (r = q)"
  by (cases r; cases q) simp_all

lemma set_TIER_ORDER [simp]: "set TIER_ORDER = UNIV"
  by (auto simp: TIER_ORDER_def intro: TierRole.exhaust)

lemma distinct_TIER_ORDER: "distinct TIER_ORDER"
  by (simp add: TIER_ORDER_def)

lemma belief_comms_get:
  "belief_earth_contact (assemble_belief obs tick now) a =
    (\<exists>ob m. dict_get obs a = Some ob \<and> obs_comms ob = Some m \<and> mask_earth_contact m)"
proof -
  have "map_of (map (\<lambda>(a, ob). (a, obs_comms ob)) obs) a = map_option obs_comms (map_of obs a)"
    by (induction obs) auto
  then show ?thesis
    by (auto simp: belief_earth_contact_def assemble_belief_def split: option.splits)
qed

end
