(* ===== verification/Mind_Strategy.thy ===== *)
theory Mind_Strategy
  imports Mind_Model
begin

text \<open>
  The execution strategies of the executive: direct composition with per-tier validity horizons,
  replan triggers and fallbacks (\<^verbatim>\<open>mind/exec/strategy.py\<close>), the comms-aware strategy on top of it
  (\<^verbatim>\<open>mind/exec/degrade.py\<close>), the neighbour coordination (\<^verbatim>\<open>mind/coord/model.py\<close>) and the plan
  behaviour (\<^verbatim>\<open>mind/exec/plan.py\<close>). A strategy object is its mutable fields; a decision threads
  them and the world through the tiers.
\<close>

section \<open>Tier nodes and tier states\<close>

record 'w tier_node =
  node_role :: TierRole
  node_plugin :: string
  node_policy :: "'w policy"
  node_horizon :: "rat option"
  node_triggers :: "replan_trigger list"
  node_fallback :: "'w policy option"
  node_fallback_name :: "string option"
  node_manifest :: plugin_manifest

record tier_state =
  cached :: "action_batch option"
  decided_at :: "rat option"
  decided_tick :: "int option"
  last_was_fallback :: bool

definition fresh_tier_state :: tier_state where
  "fresh_tier_state = \<lparr>cached = None, decided_at = None, decided_tick = None, last_was_fallback = False\<rparr>"

section \<open>Plans\<close>

record plan_validity =
  issued_at :: rat
  plan_horizon :: "rat option"

record assumption =
  assumption_key :: string
  assumption_holds :: bool

record contingency_branch =
  branch_trigger :: string
  branch_action :: string

text \<open>A plan's id is the tier and the issue time; the formatted string is kept as the pair.\<close>

record contingent_plan =
  plan_id :: "string \<times> rat"
  plan_tier :: string
  plan_validity :: plan_validity
  plan_actions :: action_batch
  plan_assumptions :: "assumption list"
  plan_branches :: "contingency_branch list"

definition expires_at :: "plan_validity \<Rightarrow> rat option" where
  "expires_at v = (case plan_horizon v of None \<Rightarrow> None | Some h \<Rightarrow> Some (issued_at v + h))"

definition plan_is_valid :: "plan_validity \<Rightarrow> rat \<Rightarrow> bool" where
  "plan_is_valid v now = (case expires_at v of None \<Rightarrow> True | Some e \<Rightarrow> now < e)"

definition plan_is_stale :: "plan_validity \<Rightarrow> rat \<Rightarrow> bool" where
  "plan_is_stale v now = (\<not> plan_is_valid v now)"

definition branch_for :: "contingent_plan \<Rightarrow> string \<Rightarrow> contingency_branch option" where
  "branch_for p trigger = List.find (\<lambda>b. branch_trigger b = trigger) (plan_branches p)"

definition build_contingent_plan :: "'w tier_node \<Rightarrow> action_batch \<Rightarrow> rat \<Rightarrow> bool \<Rightarrow> contingent_plan" where
  "build_contingent_plan node batch now denied =
    \<lparr>plan_id = (role_value (node_role node), now), plan_tier = role_value (node_role node),
     plan_validity = \<lparr>issued_at = now, plan_horizon = node_horizon node\<rparr>, plan_actions = batch,
     plan_assumptions = [\<lparr>assumption_key = ''earth_contact'', assumption_holds = \<not> denied\<rparr>],
     plan_branches = [\<lparr>branch_trigger = ''comms_lost'', branch_action = ''hold_cached''\<rparr>,
       \<lparr>branch_trigger = ''plan_expired'', branch_action = ''reconcile''\<rparr>]\<rparr>"

section \<open>When a tier decides\<close>

text \<open>
  \<^verbatim>\<open>_due\<close>: the reason a tier must decide again, or none. The asserts of the source are
  branches that fail.
\<close>

fun due_trigger :: "rat option \<Rightarrow> tier_state \<Rightarrow> int \<Rightarrow> rat \<Rightarrow> replan_trigger \<Rightarrow> fault + string option" where
  "due_trigger hz ts tick now g =
    (case trig_kind g of
       PLAN_EXPIRED \<Rightarrow>
         (case (hz, decided_at ts) of
            (Some h, Some t) \<Rightarrow> Inr (if now - t \<ge> h then Some (trigger_value PLAN_EXPIRED) else None)
          | _ \<Rightarrow> Inl AssertionFailed)
     | PERIODIC \<Rightarrow>
         (case (every_ticks g, decided_tick ts) of
            (Some n, Some t) \<Rightarrow> Inr (if tick - t \<ge> n then Some (trigger_value PERIODIC) else None)
          | _ \<Rightarrow> Inl AssertionFailed)
     | ON_FALLBACK \<Rightarrow> Inr (if last_was_fallback ts then Some (trigger_value ON_FALLBACK) else None)
     | COMMS_LOST \<Rightarrow> Inr None)"

fun due_triggers :: "rat option \<Rightarrow> tier_state \<Rightarrow> int \<Rightarrow> rat \<Rightarrow> replan_trigger list \<Rightarrow> fault + string option" where
  "due_triggers hz ts tick now [] = Inr None"
| "due_triggers hz ts tick now (g # gs) =
    rbind (due_trigger hz ts tick now g) (\<lambda>r. case r of
      Some t \<Rightarrow> Inr (Some t) | None \<Rightarrow> due_triggers hz ts tick now gs)"

definition due :: "'w tier_node \<Rightarrow> tier_state \<Rightarrow> int \<Rightarrow> rat \<Rightarrow> fault + string option" where
  "due node ts tick now =
    (if cached ts = None then Inr (Some ''initial'')
     else if node_horizon node = None \<and> node_triggers node = [] then Inr (Some ''reactive'')
     else due_triggers (node_horizon node) ts tick now (node_triggers node))"

text \<open>\<^verbatim>\<open>_invoke\<close>: the tier, else its fallback, else its last decision, else the empty batch.\<close>

definition last_resort :: "tier_state \<Rightarrow> action_batch" where
  "last_resort ts = (case cached ts of Some b \<Rightarrow> b | None \<Rightarrow> [])"

definition invoke_tier :: "'w tier_node \<Rightarrow> tier_state \<Rightarrow> observations \<Rightarrow> decision_context \<Rightarrow> 'w
    \<Rightarrow> (action_batch \<times> bool) \<times> 'w" where
  "invoke_tier node ts obs ctx w =
    (case node_policy node obs ctx w of
       (Inr b, w') \<Rightarrow> ((b, False), w')
     | (Inl _, w') \<Rightarrow>
         (case node_fallback node of
            None \<Rightarrow> ((last_resort ts, True), w')
          | Some fallback \<Rightarrow>
              (case fallback obs ctx w' of
                 (Inr b, w'') \<Rightarrow> ((b, True), w'')
               | (Inl _, w'') \<Rightarrow> ((last_resort ts, True), w''))))"

section \<open>Direct composition\<close>

record strategy_state =
  st_tiers :: "(TierRole, tier_state) dict"
  st_was_denied :: bool
  st_contingent :: "(TierRole, contingent_plan) dict"

definition strategy_init :: "'w tier_node list \<Rightarrow> strategy_state" where
  "strategy_init tiers = \<lparr>st_tiers = fold (\<lambda>n d. dict_set d (node_role n) fresh_tier_state) tiers [],
     st_was_denied = False, st_contingent = []\<rparr>"

definition decided :: "action_batch \<Rightarrow> rat \<Rightarrow> int \<Rightarrow> bool \<Rightarrow> tier_state" where
  "decided batch now tick fb = \<lparr>cached = Some batch, decided_at = Some now, decided_tick = Some tick,
     last_was_fallback = fb\<rparr>"

definition tier_note :: "'w tier_node \<Rightarrow> string option \<Rightarrow> bool \<Rightarrow> string option \<Rightarrow> tier_record" where
  "tier_note node trigger fb note = \<lparr>rec_role = role_value (node_role node),
     rec_replanned = (trigger \<noteq> None), rec_trigger = trigger, rec_fallback_used = fb, rec_note = note\<rparr>"

text \<open>The body of the loop over the tiers, with the decision when to act as a parameter.\<close>

type_synonym tier_gate = "tier_state \<Rightarrow> fault + string option \<times> string option"

definition tier_step :: "('w tier_node \<Rightarrow> tier_gate) \<Rightarrow> ('w tier_node \<Rightarrow> action_batch \<Rightarrow> strategy_state \<Rightarrow> strategy_state)
    \<Rightarrow> observations \<Rightarrow> decision_context \<Rightarrow> int \<Rightarrow> rat \<Rightarrow> 'w tier_node \<Rightarrow> action_batch
    \<Rightarrow> (strategy_state \<times> 'w, fault, action_batch \<times> tier_record) st" where
  "tier_step gate issued obs ctx tick now node upstream = (\<lambda>(s, w).
    case dict_get (st_tiers s) (node_role node) of
      None \<Rightarrow> (Inl KeyMissing, (s, w))
    | Some ts \<Rightarrow>
        (case gate node ts of
           Inl e \<Rightarrow> (Inl e, (s, w))
         | Inr (Some trigger, note) \<Rightarrow>
             (case invoke_tier node ts obs (ctx\<lparr>ctx_upstream := Some upstream\<rparr>) w of
                ((batch, fb), w') \<Rightarrow>
                  (Inr (batch, tier_note node (Some trigger) fb note),
                   (issued node batch (s\<lparr>st_tiers := dict_set (st_tiers s) (node_role node)
                      (decided batch now tick fb)\<rparr>), w')))
         | Inr (None, note) \<Rightarrow>
             (case cached ts of
                None \<Rightarrow> (Inl AssertionFailed, (s, w))
              | Some batch \<Rightarrow> (Inr (batch, tier_note node None False note), (s, w)))))"

fun run_tiers :: "('w tier_node \<Rightarrow> action_batch \<Rightarrow> (strategy_state \<times> 'w, fault, action_batch \<times> tier_record) st)
    \<Rightarrow> 'w tier_node list \<Rightarrow> action_batch \<Rightarrow> (strategy_state \<times> 'w, fault, action_batch \<times> tier_record list) st" where
  "run_tiers step [] upstream = sret (upstream, [])"
| "run_tiers step (n # ns) upstream =
    sbind (step n upstream) (\<lambda>(batch, r).
    sbind (run_tiers step ns batch) (\<lambda>(out, rs). sret (out, r # rs)))"

definition initial_upstream :: "decision_context \<Rightarrow> action_batch" where
  "initial_upstream ctx = (case ctx_upstream ctx of Some b \<Rightarrow> b | None \<Rightarrow> [])"

definition composition_gate :: "int \<Rightarrow> rat \<Rightarrow> 'w tier_node \<Rightarrow> tier_gate" where
  "composition_gate tick now node ts = rbind (due node ts tick now) (\<lambda>t. Inr (t, None))"

definition composition_decide :: "'w tier_node list \<Rightarrow> observations \<Rightarrow> decision_context \<Rightarrow> int \<Rightarrow> rat
    \<Rightarrow> (strategy_state \<times> 'w, fault, action_batch \<times> tier_record list) st" where
  "composition_decide tiers obs ctx tick now =
    run_tiers (tier_step (composition_gate tick now) (\<lambda>n b s. s) obs ctx tick now) tiers (initial_upstream ctx)"

section \<open>Neighbour coordination\<close>

type_synonym task_id = vec3

record intent =
  intent_agent :: agent_id
  intent_task :: task_id

record resolution =
  assignments :: "(agent_id, task_id option) dict"
  conflicts_resolved :: nat
  yielded :: "agent_id list"

definition claimants :: "intent list \<Rightarrow> (task_id, agent_id list) dict" where
  "claimants intents = fold (\<lambda>i d. dict_set d (intent_task i)
     (get_default d (intent_task i) [] @ [intent_agent i])) intents []"

fun list_min :: "'a::linorder list \<Rightarrow> 'a" where
  "list_min [x] = x"
| "list_min (x # y # ys) = min x (list_min (y # ys))"
| "list_min [] = undefined"

text \<open>One claimed task: the lowest agent id keeps it, every other claimant yields.\<close>

definition resolve_task :: "task_id \<Rightarrow> agent_id list \<Rightarrow> resolution \<Rightarrow> resolution" where
  "resolve_task task agents r = (let winner = list_min agents in
     \<lparr>assignments = fold (\<lambda>a d. dict_set d a (if a = winner then Some task else None)) agents (assignments r),
      conflicts_resolved = conflicts_resolved r + (if length agents > 1 then 1 else 0),
      yielded = yielded r @ filter (\<lambda>a. a \<noteq> winner) agents\<rparr>)"

definition gossip_resolve :: "intent list \<Rightarrow> resolution" where
  "gossip_resolve intents = (let r = fold (\<lambda>(task, agents). resolve_task task agents) (claimants intents)
       \<lparr>assignments = [], conflicts_resolved = 0, yielded = []\<rparr> in
     r\<lparr>yielded := sort (yielded r)\<rparr>)"

text \<open>\<^verbatim>\<open>_coordinate\<close>: the claims are the prospect regions of the cached mission plan.\<close>

fun action_intent :: "action \<Rightarrow> intent list" where
  "action_intent a = (case action_task a of
     None \<Rightarrow> []
   | Some t \<Rightarrow> (case task_prospect t of
       None \<Rightarrow> []
     | Some p \<Rightarrow> [\<lparr>intent_agent = action_agent a, intent_task = region_center_m p\<rparr>]))"

definition intents_of :: "action_batch \<Rightarrow> intent list" where
  "intents_of b = concat (map action_intent b)"

definition coord_annotate :: "tier_record \<Rightarrow> tier_record" where
  "coord_annotate r = (if rec_role r = role_value CONTROL then r\<lparr>rec_note := Some ''coord_yield''\<rparr> else r)"

definition coordinate :: "strategy_state \<Rightarrow> action_batch \<Rightarrow> tier_record list
    \<Rightarrow> action_batch \<times> tier_record list" where
  "coordinate s batch records =
    (case dict_get (st_tiers s) MISSION of
       None \<Rightarrow> (batch, records)
     | Some ms \<Rightarrow>
         (case cached ms of
            None \<Rightarrow> (batch, records)
          | Some plan \<Rightarrow>
              let yields = yielded (gossip_resolve (intents_of plan)) in
              if yields = [] then (batch, records)
              else (filter (\<lambda>a. action_agent a \<notin> set yields) batch, map coord_annotate records)))"

section \<open>The comms-aware strategy\<close>

text \<open>\<^verbatim>\<open>_decide_tier\<close>: the trigger and the note of one tier; no trigger means the cache is held.\<close>

definition decide_tier :: "bool \<Rightarrow> bool \<Rightarrow> bool \<Rightarrow> int \<Rightarrow> rat \<Rightarrow> 'w tier_node \<Rightarrow> tier_gate" where
  "decide_tier denied recovered just_lost tick now node ts =
    (if cached ts = None then Inr (Some ''initial'', None)
     else if node_role node = MISSION \<and> recovered then Inr (Some ''comms_recovered'', Some ''comms_recovered'')
     else if just_lost \<and> list_ex (\<lambda>g. trig_kind g = COMMS_LOST) (node_triggers node)
       then Inr (Some (trigger_value COMMS_LOST), None)
     else rbind (due node ts tick now) (\<lambda>base.
       case base of
         None \<Rightarrow> Inr (None, None)
       | Some t \<Rightarrow>
           if t = trigger_value PLAN_EXPIRED \<and> denied \<and> node_role node = MISSION
           then Inr (None, Some ''comms_stale_hold'')
           else Inr (Some t, None)))"

definition issue_contingent :: "rat \<Rightarrow> bool \<Rightarrow> 'w tier_node \<Rightarrow> action_batch \<Rightarrow> strategy_state \<Rightarrow> strategy_state" where
  "issue_contingent now denied node batch s =
    (if node_role node = MISSION
     then s\<lparr>st_contingent := dict_set (st_contingent s) MISSION (build_contingent_plan node batch now denied)\<rparr>
     else s)"

definition decentralized_decide :: "'w tier_node list \<Rightarrow> observations \<Rightarrow> decision_context \<Rightarrow> int \<Rightarrow> rat
    \<Rightarrow> (strategy_state \<times> 'w, fault, action_batch \<times> tier_record list) st" where
  "decentralized_decide tiers obs ctx tick now = (\<lambda>(s, w).
    let denied = extras_comms_denied ctx;
        recovered = st_was_denied s \<and> \<not> denied;
        just_lost = denied \<and> \<not> st_was_denied s in
    (case run_tiers (tier_step (decide_tier denied recovered just_lost tick now) (issue_contingent now denied)
            obs ctx tick now) tiers (initial_upstream ctx) (s, w) of
       (Inl e, sw) \<Rightarrow> (Inl e, sw)
     | (Inr (upstream, records), (s', w')) \<Rightarrow>
         (Inr (if denied then coordinate s' upstream records else (upstream, records)),
          (s'\<lparr>st_was_denied := denied\<rparr>, w'))))"

definition contingent_plan_of :: "strategy_state \<Rightarrow> TierRole \<Rightarrow> contingent_plan option" where
  "contingent_plan_of s role = dict_get (st_contingent s) role"

section \<open>Consistent nodes and states\<close>

definition node_consistent :: "'w tier_node \<Rightarrow> bool" where
  "node_consistent n = (\<forall>g \<in> set (node_triggers n).
     (trig_kind g = PERIODIC \<longrightarrow> every_ticks g \<noteq> None) \<and> (trig_kind g = PLAN_EXPIRED \<longrightarrow> node_horizon n \<noteq> None))"

definition tier_state_ok :: "tier_state \<Rightarrow> bool" where
  "tier_state_ok ts = (cached ts \<noteq> None \<longrightarrow> decided_at ts \<noteq> None \<and> decided_tick ts \<noteq> None)"

definition strategy_ok :: "'w tier_node list \<Rightarrow> strategy_state \<Rightarrow> bool" where
  "strategy_ok tiers s =
    ((\<forall>n \<in> set tiers. node_consistent n \<and> dict_get (st_tiers s) (node_role n) \<noteq> None)
     \<and> (\<forall>role ts. dict_get (st_tiers s) role = Some ts \<longrightarrow> tier_state_ok ts))"

lemma fresh_tier_state_ok [simp]: "tier_state_ok fresh_tier_state"
  by (simp add: tier_state_ok_def fresh_tier_state_def)

lemma decided_ok [simp]: "tier_state_ok (decided b now tick fb)"
  by (simp add: tier_state_ok_def decided_def)

lemma fold_fresh_get:
  "dict_get (fold (\<lambda>n d. dict_set d (node_role n) fresh_tier_state) ns d) role =
    (if role \<in> node_role ` set ns then Some fresh_tier_state else dict_get d role)"
  by (induction ns arbitrary: d) (auto simp: update_conv')

lemma strategy_init_get:
  "dict_get (st_tiers (strategy_init tiers)) role =
    (if role \<in> node_role ` set tiers then Some fresh_tier_state else None)"
  by (simp add: strategy_init_def fold_fresh_get)

lemma strategy_init_ok [inv_intros]:
  "\<forall>n \<in> set tiers. node_consistent n \<Longrightarrow> strategy_ok tiers (strategy_init tiers)"
  by (auto simp: strategy_ok_def strategy_init_get split: if_splits)

text \<open>A trigger that fires, read off its own condition.\<close>

fun trigger_fires :: "rat option \<Rightarrow> tier_state \<Rightarrow> int \<Rightarrow> rat \<Rightarrow> replan_trigger \<Rightarrow> bool" where
  "trigger_fires hz ts tick now g = (case trig_kind g of
     PLAN_EXPIRED \<Rightarrow> the hz \<le> now - the (decided_at ts)
   | PERIODIC \<Rightarrow> the (every_ticks g) \<le> tick - the (decided_tick ts)
   | ON_FALLBACK \<Rightarrow> last_was_fallback ts
   | COMMS_LOST \<Rightarrow> False)"

lemma due_triggers_find:
  assumes "\<forall>g \<in> set gs. (trig_kind g = PERIODIC \<longrightarrow> every_ticks g \<noteq> None) \<and> (trig_kind g = PLAN_EXPIRED \<longrightarrow> hz \<noteq> None)"
    and "decided_at ts \<noteq> None" "decided_tick ts \<noteq> None"
  shows "due_triggers hz ts tick now gs =
    Inr (map_option (trigger_value \<circ> trig_kind) (List.find (trigger_fires hz ts tick now) gs))"
  using assms by (induction gs) (auto split: ReplanTriggerKind.splits option.splits)

definition due_trigger_name :: "'w tier_node \<Rightarrow> tier_state \<Rightarrow> int \<Rightarrow> rat \<Rightarrow> string option" where
  "due_trigger_name n ts tick now =
    (if cached ts = None then Some ''initial''
     else if node_horizon n = None \<and> node_triggers n = [] then Some ''reactive''
     else map_option (trigger_value \<circ> trig_kind)
       (List.find (trigger_fires (node_horizon n) ts tick now) (node_triggers n)))"

lemma due_exact:
  "node_consistent n \<Longrightarrow> tier_state_ok ts \<Longrightarrow> due n ts tick now = Inr (due_trigger_name n ts tick now)"
  by (auto simp: due_def due_trigger_name_def due_triggers_find node_consistent_def tier_state_ok_def)

lemma trigger_value_eq [simp]: "(trigger_value k = trigger_value j) = (k = j)"
  by (cases k; cases j) simp_all

section \<open>The tier loop, whatever decides when a tier acts\<close>

text \<open>
  What the loop needs of the gate of a strategy: on a consistent node and state it answers, and it
  holds only a tier that has a cached decision. Issuing a plan leaves the tier states alone.
\<close>

locale tier_gating =
  fixes gate :: "'w tier_node \<Rightarrow> tier_gate"
    and issued :: "'w tier_node \<Rightarrow> action_batch \<Rightarrow> strategy_state \<Rightarrow> strategy_state"
  assumes gate_total: "node_consistent n \<Longrightarrow> tier_state_ok ts \<Longrightarrow>
      \<exists>t note. gate n ts = Inr (t, note) \<and> (t = None \<longrightarrow> cached ts \<noteq> None)"
    and issued_tiers: "st_tiers (issued n b s) = st_tiers s"
    and issued_denied: "st_was_denied (issued n b s) = st_was_denied s"
begin

lemma step_cases:
  assumes "node_consistent n" "dict_get (st_tiers s) (node_role n) = Some ts" "tier_state_ok ts"
  obtains (acts) trigger nt batch fb w' where "gate n ts = Inr (Some trigger, nt)"
      "invoke_tier n ts obs (ctx\<lparr>ctx_upstream := Some up\<rparr>) w = ((batch, fb), w')"
      "tier_step gate issued obs ctx tick now n up (s, w) = (Inr (batch, tier_note n (Some trigger) fb nt),
         (issued n batch (s\<lparr>st_tiers := dict_set (st_tiers s) (node_role n) (decided batch now tick fb)\<rparr>), w'))"
  | (holds) nt batch where "gate n ts = Inr (None, nt)" "cached ts = Some batch"
      "tier_step gate issued obs ctx tick now n up (s, w) = (Inr (batch, tier_note n None False nt), (s, w))"
proof -
  obtain t nt where g: "gate n ts = Inr (t, nt)" "t = None \<longrightarrow> cached ts \<noteq> None"
    using gate_total [OF assms(1,3)] by blast
  obtain batch fb w' where i: "invoke_tier n ts obs (ctx\<lparr>ctx_upstream := Some up\<rparr>) w = ((batch, fb), w')"
    by (metis surj_pair)
  show ?thesis
  proof (cases t)
    case None
    with g obtain b where "cached ts = Some b" by auto
    with None g show ?thesis by (intro holds) (simp_all add: tier_step_def assms(2))
  next
    case (Some trigger)
    with g i show ?thesis by (intro acts) (simp_all add: tier_step_def assms(2))
  qed
qed

lemma step_ok:
  assumes "strategy_ok tiers s" "n \<in> set tiers"
  obtains batch r s' w' where
    "tier_step gate issued obs ctx tick now n up (s, w) = (Inr (batch, r), (s', w'))"
    "strategy_ok tiers s'" "rec_role r = role_value (node_role n)" "st_was_denied s' = st_was_denied s"
proof -
  from assms obtain ts where "node_consistent n" "dict_get (st_tiers s) (node_role n) = Some ts" "tier_state_ok ts"
    by (auto simp: strategy_ok_def)
  then show ?thesis
  proof (cases rule: step_cases [where obs = obs and ctx = ctx and up = up and w = w and tick = tick and now = now])
    case acts
    then show ?thesis
      using assms that
      by (auto simp: strategy_ok_def issued_tiers issued_denied update_conv' tier_note_def split: if_splits)
  next
    case holds
    then show ?thesis using assms that by (auto simp: tier_note_def)
  qed
qed

lemma run_ok:
  assumes "strategy_ok tiers s" "set ns \<subseteq> set tiers"
  obtains out rs s' w' where
    "run_tiers (tier_step gate issued obs ctx tick now) ns up (s, w) = (Inr (out, rs), (s', w'))"
    "strategy_ok tiers s'" "map rec_role rs = map (\<lambda>n. role_value (node_role n)) ns"
    "st_was_denied s' = st_was_denied s"
proof -
  have "\<exists>out rs s' w'.
    run_tiers (tier_step gate issued obs ctx tick now) ns up (s, w) = (Inr (out, rs), (s', w'))
    \<and> strategy_ok tiers s' \<and> map rec_role rs = map (\<lambda>n. role_value (node_role n)) ns
    \<and> st_was_denied s' = st_was_denied s"
    using assms
  proof (induction ns arbitrary: s up w)
    case (Cons n ns)
    from Cons.prems obtain b r t u where
      "tier_step gate issued obs ctx tick now n up (s, w) = (Inr (b, r), (t, u))"
      "strategy_ok tiers t" "rec_role r = role_value (node_role n)" "st_was_denied t = st_was_denied s"
      by (metis list.set_intros(1) step_ok [of tiers s n obs ctx tick now up w] subsetD)
    moreover from Cons.IH [OF this(2), of b u] Cons.prems(2) obtain out rs s' w' where
      "run_tiers (tier_step gate issued obs ctx tick now) ns b (t, u) = (Inr (out, rs), (s', w'))"
      "strategy_ok tiers s'" "map rec_role rs = map (\<lambda>n. role_value (node_role n)) ns"
      "st_was_denied s' = st_was_denied t"
      by auto
    ultimately show ?case by (simp add: sbind_def st_defs)
  qed (simp add: st_defs)
  then show ?thesis using that by blast
qed

text \<open>A tier its gate holds keeps its state, and its record says so.\<close>

lemma run_hold:
  assumes "run_tiers (tier_step gate issued obs ctx tick now) ns up (s, w) = (Inr (out, rs), (s', w'))"
    and "\<forall>n \<in> set ns. node_role n = role \<longrightarrow> gate n ts = Inr (None, note)"
    and "dict_get (st_tiers s) role = Some ts"
  shows "dict_get (st_tiers s') role = Some ts
    \<and> (\<forall>r \<in> set rs. rec_role r = role_value role \<longrightarrow> \<not> rec_replanned r \<and> rec_note r = note)"
  using assms
proof (induction ns arbitrary: up s w out rs)
  case (Cons n ns)
  from Cons.prems(1) obtain b r t u rs' where
    step: "tier_step gate issued obs ctx tick now n up (s, w) = (Inr (b, r), (t, u))"
    and rest: "run_tiers (tier_step gate issued obs ctx tick now) ns b (t, u) = (Inr (out, rs'), (s', w'))"
    and rs: "rs = r # rs'"
    by (auto simp: sbind_Inr st_defs)
  have "dict_get (st_tiers t) role = Some ts
      \<and> (rec_role r = role_value role \<longrightarrow> \<not> rec_replanned r \<and> rec_note r = note)"
    using step Cons.prems(2,3)
    by (auto simp: tier_step_def tier_note_def issued_tiers update_conv'
        split: option.splits sum.splits prod.splits if_splits)
  with Cons.IH [OF rest] Cons.prems(2) rs show ?case by auto
qed (simp add: st_defs)

text \<open>A tier its gate lets act is decided anew, and its record names the trigger.\<close>

lemma run_acts:
  assumes "run_tiers (tier_step gate issued obs ctx tick now) ns up (s, w) = (Inr (out, rs), (s', w'))"
    and "\<forall>n \<in> set ns. node_role n = role \<longrightarrow> gate n ts = Inr (Some t, note)"
    and "dict_get (st_tiers s) role = Some ts" "distinct (map node_role ns)"
  shows "\<forall>r \<in> set rs. rec_role r = role_value role \<longrightarrow>
    rec_replanned r \<and> rec_trigger r = Some t \<and> rec_note r = note"
  using assms
proof (induction ns arbitrary: up s w out rs)
  case (Cons n ns)
  from Cons.prems(1) obtain b r v u rs' where
    step: "tier_step gate issued obs ctx tick now n up (s, w) = (Inr (b, r), (v, u))"
    and rest: "run_tiers (tier_step gate issued obs ctx tick now) ns b (v, u) = (Inr (out, rs'), (s', w'))"
    and rs: "rs = r # rs'"
    by (auto simp: sbind_Inr st_defs)
  show ?case
  proof (cases "node_role n = role")
    case True
    have "rec_replanned r \<and> rec_trigger r = Some t \<and> rec_note r = note"
      using step Cons.prems(2,3) True
      by (auto simp: tier_step_def tier_note_def split: option.splits sum.splits prod.splits)
    moreover have "role_value role \<notin> set (map rec_role rs')"
    proof -
      have roles: "map rec_role rs' = map (\<lambda>n. role_value (node_role n)) ns"
        if "run_tiers (tier_step gate issued obs ctx tick now) ns b (v, u) = (Inr (out, rs'), (s', w'))"
        for ns b v u rs'
        using that
        by (induction ns arbitrary: b v u rs')
          (auto simp: sbind_Inr st_defs tier_step_def tier_note_def
            split: option.splits sum.splits prod.splits)
      show ?thesis using Cons.prems(4) True by (auto simp: roles [OF rest])
    qed
    ultimately show ?thesis by (force simp: rs)
  next
    case False
    have "dict_get (st_tiers v) role = Some ts" "rec_role r \<noteq> role_value role"
      using step Cons.prems(3) False
      by (auto simp: tier_step_def tier_note_def issued_tiers update_conv'
          split: option.splits sum.splits prod.splits)
    with Cons.IH [OF rest] Cons.prems rs show ?thesis by auto
  qed
qed (simp add: st_defs)

text \<open>What such a run leaves of the tier: the state of a decision made at this tick.\<close>

lemma run_elsewhere:
  assumes "run_tiers (tier_step gate issued obs ctx tick now) ns up (s, w) = (Inr (out, rs), (s', w'))"
    and "role \<notin> node_role ` set ns"
  shows "dict_get (st_tiers s') role = dict_get (st_tiers s) role"
  using assms
proof (induction ns arbitrary: up s w out rs)
  case (Cons n ns)
  from Cons.prems(1) obtain b r v u rs' where
    step: "tier_step gate issued obs ctx tick now n up (s, w) = (Inr (b, r), (v, u))"
    and rest: "run_tiers (tier_step gate issued obs ctx tick now) ns b (v, u) = (Inr (out, rs'), (s', w'))"
    by (auto simp: sbind_Inr st_defs)
  have "dict_get (st_tiers v) role = dict_get (st_tiers s) role"
    using step Cons.prems(2)
    by (auto simp: tier_step_def issued_tiers update_conv' split: option.splits sum.splits prod.splits)
  with Cons.IH [OF rest] Cons.prems(2) show ?case by simp
qed (simp add: st_defs)

lemma run_acted:
  assumes "run_tiers (tier_step gate issued obs ctx tick now) ns up (s, w) = (Inr (out, rs), (s', w'))"
    and "\<forall>n \<in> set ns. node_role n = role \<longrightarrow> gate n ts = Inr (Some t, note)"
    and "dict_get (st_tiers s) role = Some ts" "distinct (map node_role ns)" "role \<in> node_role ` set ns"
  shows "\<exists>batch fb. dict_get (st_tiers s') role = Some (decided batch now tick fb)"
  using assms
proof (induction ns arbitrary: up s w out rs)
  case (Cons n ns)
  from Cons.prems(1) obtain b r v u rs' where
    step: "tier_step gate issued obs ctx tick now n up (s, w) = (Inr (b, r), (v, u))"
    and rest: "run_tiers (tier_step gate issued obs ctx tick now) ns b (v, u) = (Inr (out, rs'), (s', w'))"
    by (auto simp: sbind_Inr st_defs)
  show ?case
  proof (cases "node_role n = role")
    case True
    have "\<exists>batch fb. dict_get (st_tiers v) role = Some (decided batch now tick fb)"
      using step Cons.prems(2,3) True
      by (auto simp: tier_step_def issued_tiers update_conv' split: option.splits sum.splits prod.splits) blast
    moreover have "role \<notin> node_role ` set ns"
      using Cons.prems(4) True by auto
    ultimately show ?thesis using run_elsewhere [OF rest] by simp
  next
    case False
    have "dict_get (st_tiers v) role = Some ts"
      using step Cons.prems(3) False
      by (auto simp: tier_step_def issued_tiers update_conv' split: option.splits sum.splits prod.splits)
    with Cons.IH [OF rest] Cons.prems False show ?thesis by auto
  qed
qed simp

end

interpretation composition: tier_gating "composition_gate tick now" "\<lambda>n b s. s" for tick now
  by unfold_locales (auto simp: composition_gate_def due_exact due_trigger_name_def)

interpretation decentralized: tier_gating "decide_tier denied recovered just_lost tick now" "issue_contingent now denied"
  for denied recovered just_lost tick now
  by unfold_locales
    (auto simp: decide_tier_def due_exact due_trigger_name_def issue_contingent_def split: option.splits)

section \<open>Who keeps a task\<close>

definition claims :: "intent list \<Rightarrow> agent_id \<Rightarrow> task_id \<Rightarrow> bool" where
  "claims intents a t = (\<exists>i \<in> set intents. intent_agent i = a \<and> intent_task i = t)"

lemma list_min_in: "xs \<noteq> [] \<Longrightarrow> list_min xs \<in> set xs"
  by (induction xs rule: list_min.induct) (auto simp: min_def)

lemma list_min_le: "x \<in> set xs \<Longrightarrow> list_min xs \<le> x"
  by (induction xs rule: list_min.induct) (auto simp: min_le_iff_disj)

lemma not_list_min: "(\<exists>b \<in> set xs. b < a) = (a \<noteq> list_min xs)" if "a \<in> set xs"
  using that list_min_in [of xs] list_min_le [of _ xs]
  by (metis empty_iff empty_set leD not_less_iff_gr_or_eq order.not_eq_order_implies_strict)

lemma fold_claimants:
  fixes d :: "(task_id, agent_id list) dict"
  shows "get_default (fold (\<lambda>i d. dict_set d (intent_task i)
      (get_default d (intent_task i) [] @ [intent_agent i])) intents d) t [] =
    get_default d t [] @ map intent_agent (filter (\<lambda>i. intent_task i = t) intents)"
  by (induction intents arbitrary: d) (auto simp: get_default_def update_conv')

lemma fold_claimants_wf:
  fixes d :: "(task_id, agent_id list) dict"
  shows "dict_wf d \<Longrightarrow> dict_wf (fold (\<lambda>i d. dict_set d (intent_task i)
      (get_default d (intent_task i) [] @ [intent_agent i])) intents d)"
  by (induction intents arbitrary: d) (auto intro: distinct_update)

lemma claimants_get:
  "get_default (claimants intents) t [] = map intent_agent (filter (\<lambda>i. intent_task i = t) intents)"
  using fold_claimants [where d = "[]" and t = t] by (simp add: claimants_def get_default_def)

lemma claimants_wf: "dict_wf (claimants intents)"
  by (simp add: claimants_def fold_claimants_wf)

lemma claimants_mem:
  "(t, ag) \<in> set (claimants intents) \<Longrightarrow> ag = map intent_agent (filter (\<lambda>i. intent_task i = t) intents)"
  using claimants_get [of intents t] claimants_wf [of intents] by (simp add: get_default_def)

lemma claims_claimants: "claims intents a t = (\<exists>ag. (t, ag) \<in> set (claimants intents) \<and> a \<in> set ag)"
proof
  assume c: "claims intents a t"
  then have a: "a \<in> set (get_default (claimants intents) t [])"
    by (auto simp: claims_def claimants_get)
  then obtain ag where "dict_get (claimants intents) t = Some ag"
    by (cases "dict_get (claimants intents) t") (auto simp: get_default_def)
  with a show "\<exists>ag. (t, ag) \<in> set (claimants intents) \<and> a \<in> set ag"
    by (auto simp: get_default_def dest: map_of_SomeD)
qed (auto simp: claims_def dest!: claimants_mem)

lemma fold_yielded:
  "set (yielded (fold (\<lambda>(task, agents). resolve_task task agents) cl r)) =
    set (yielded r) \<union> {a. \<exists>(t, ag) \<in> set cl. a \<in> set ag \<and> a \<noteq> list_min ag}"
  by (induction cl arbitrary: r) (auto simp: resolve_task_def Let_def)

lemma gossip_yielded:
  "set (yielded (gossip_resolve intents)) = {a. \<exists>t b. claims intents a t \<and> claims intents b t \<and> b < a}"
proof (rule set_eqI)
  fix a
  have "a \<in> set (yielded (gossip_resolve intents)) \<longleftrightarrow>
      (\<exists>t ag. (t, ag) \<in> set (claimants intents) \<and> a \<in> set ag \<and> a \<noteq> list_min ag)"
    by (auto simp: gossip_resolve_def Let_def fold_yielded)
  also have "\<dots> \<longleftrightarrow> (\<exists>t ag. (t, ag) \<in> set (claimants intents) \<and> a \<in> set ag \<and> (\<exists>b \<in> set ag. b < a))"
    using not_list_min by blast
  also have "\<dots> \<longleftrightarrow> (\<exists>t b. claims intents a t \<and> claims intents b t \<and> b < a)"
    unfolding claims_claimants by (metis claimants_mem)
  finally show "a \<in> set (yielded (gossip_resolve intents)) \<longleftrightarrow>
      a \<in> {a. \<exists>t b. claims intents a t \<and> claims intents b t \<and> b < a}"
    by simp
qed

text \<open>
  Coordination under a blackout. After the neighbours have resolved their claims, what is left of
  the batch is exactly the actions of the agents that claim no task a lower agent id also claims, in
  their order; so no two agents that still act claim the same task.
\<close>

theorem coordination_excludes_conflicts:
  assumes "dict_get (st_tiers s) MISSION = Some ms" "cached ms = Some plan"
  shows "fst (coordinate s batch records) =
      filter (\<lambda>x. \<not> (\<exists>t b. claims (intents_of plan) (action_agent x) t \<and> claims (intents_of plan) b t
        \<and> b < action_agent x)) batch
    \<and> (\<forall>x \<in> set (fst (coordinate s batch records)). \<forall>y \<in> set (fst (coordinate s batch records)).
        \<forall>t. claims (intents_of plan) (action_agent x) t \<and> claims (intents_of plan) (action_agent y) t
          \<longrightarrow> action_agent x = action_agent y)"
proof -
  let ?lost = "\<lambda>a. \<exists>t b. claims (intents_of plan) a t \<and> claims (intents_of plan) b t \<and> b < a"
  have "a \<in> set (yielded (gossip_resolve (intents_of plan))) \<longleftrightarrow> ?lost a" for a
    by (simp add: gossip_yielded)
  then have "fst (coordinate s batch records) = filter (\<lambda>x. \<not> ?lost (action_agent x)) batch"
    using filter_True [of batch "\<lambda>x. \<not> ?lost (action_agent x)"]
    by (auto simp: coordinate_def assms Let_def split: if_splits)
  then show ?thesis by (auto; metis linorder_neqE)
qed

definition demo_prospect :: "string \<Rightarrow> rat \<Rightarrow> action" where
  "demo_prospect a x = \<lparr>action_agent = a, action_kind = TASK_ACTION, action_actuator = None,
     action_mode = None, action_task = Some \<lparr>task_kind = PROSPECT,
       task_prospect = Some \<lparr>region_center_m = (x, 0, 0), prospect_other = JNull\<rparr>, task_other = JNull\<rparr>,
     action_time = None\<rparr>"

definition demo_plan :: action_batch where
  "demo_plan = [demo_prospect ''r1'' 1, demo_prospect ''r2'' 1, demo_prospect ''r2'' 2, demo_prospect ''r3'' 2]"

definition demo_strategy :: strategy_state where
  "demo_strategy = \<lparr>st_tiers = [(MISSION, decided demo_plan 0 0 False)], st_was_denied = True, st_contingent = []\<rparr>"

text \<open>The second agent loses one of its two tasks and yields both; nobody is left to work the other.\<close>

theorem coordination_excludes_conflicts_witness:
  "fst (coordinate demo_strategy demo_plan []) = [demo_prospect ''r1'' 1]
    \<and> filter (\<lambda>x. \<not> (\<exists>t b. claims (intents_of demo_plan) (action_agent x) t \<and> claims (intents_of demo_plan) b t
        \<and> b < action_agent x)) demo_plan = [demo_prospect ''r1'' 1]"
proof -
  have "dict_get (st_tiers demo_strategy) MISSION = Some (decided demo_plan 0 0 False)"
    "cached (decided demo_plan 0 0 False) = Some demo_plan"
    by (simp_all add: demo_strategy_def decided_def)
  moreover have "fst (coordinate demo_strategy demo_plan []) = [demo_prospect ''r1'' 1]"
    by code_simp
  ultimately show ?thesis
    using coordination_excludes_conflicts [of demo_strategy "decided demo_plan 0 0 False" demo_plan demo_plan "[]"]
    by simp
qed

section \<open>Through a blackout\<close>

text \<open>The mission tier's plan has outlived its horizon.\<close>

definition mission_stale :: "'w tier_node \<Rightarrow> tier_state \<Rightarrow> rat \<Rightarrow> bool" where
  "mission_stale n ts now = (\<exists>g \<in> set (node_triggers n). trig_kind g = PLAN_EXPIRED
     \<and> the (node_horizon n) \<le> now - the (decided_at ts))"

definition horizon_driven :: "'w tier_node \<Rightarrow> bool" where
  "horizon_driven n = ((node_triggers n \<noteq> [] \<or> node_horizon n \<noteq> None)
     \<and> (\<forall>g \<in> set (node_triggers n). trig_kind g = PLAN_EXPIRED \<or> trig_kind g = COMMS_LOST))"

lemma find_fires:
  "List.find P xs = None \<longleftrightarrow> (\<forall>x \<in> set xs. \<not> P x)"
  by (induction xs) auto

lemma find_satisfies: "List.find P xs = Some x \<Longrightarrow> x \<in> set xs \<and> P x"
  by (induction xs) (auto split: if_splits)

lemma mission_gate_holds:
  assumes "node_consistent n" "tier_state_ok ts" "cached ts \<noteq> None" "node_role n = MISSION" "horizon_driven n"
  shows "decide_tier True False False tick now n ts =
    Inr (None, if mission_stale n ts now then Some ''comms_stale_hold'' else None)"
proof -
  let ?fires = "trigger_fires (node_horizon n) ts tick now"
  have fires: "?fires g = (trig_kind g = PLAN_EXPIRED \<and> the (node_horizon n) \<le> now - the (decided_at ts))"
    if "g \<in> set (node_triggers n)" for g
    using that assms(5) by (auto simp: horizon_driven_def)
  have due: "due n ts tick now = Inr (map_option (trigger_value \<circ> trig_kind) (List.find ?fires (node_triggers n)))"
    using assms(3,5) by (auto simp: due_exact [OF assms(1,2)] due_trigger_name_def horizon_driven_def)
  show ?thesis
  proof (cases "List.find ?fires (node_triggers n)")
    case None
    then have "\<not> mission_stale n ts now"
      using fires by (auto simp: find_fires mission_stale_def)
    with None show ?thesis using assms(3) by (simp add: decide_tier_def due)
  next
    case (Some g)
    then have "trig_kind g = PLAN_EXPIRED" "mission_stale n ts now"
      using fires find_satisfies [OF Some] by (auto simp: mission_stale_def)
    with Some show ?thesis using assms(3,4) by (simp add: decide_tier_def due)
  qed
qed

lemma just_lost_quiet:
  "lost \<longrightarrow> \<not> list_ex (\<lambda>g. trig_kind g = COMMS_LOST) (node_triggers n) \<Longrightarrow>
    decide_tier True False lost tick now n ts = decide_tier True False False tick now n ts"
  by (cases lost) (auto simp: decide_tier_def)

lemma coordinate_records:
  "r \<in> set (snd (coordinate s b rs)) \<Longrightarrow> rec_role r \<noteq> role_value CONTROL \<Longrightarrow> r \<in> set rs"
  by (auto simp: coordinate_def Let_def coord_annotate_def split: option.splits if_splits)

definition mission_held :: "'w tier_node \<Rightarrow> tier_state \<Rightarrow> rat \<Rightarrow> tier_record list \<Rightarrow> bool" where
  "mission_held m ms now rs = (\<forall>r \<in> set rs. rec_role r = role_value MISSION \<longrightarrow>
     \<not> rec_replanned r \<and> rec_note r = (if mission_stale m ms now then Some ''comms_stale_hold'' else None))"

lemma denied_tick:
  assumes "strategy_ok tiers s" "\<forall>n \<in> set tiers. node_role n = MISSION \<longrightarrow> n = m" "horizon_driven m"
    and "dict_get (st_tiers s) MISSION = Some ms" "cached ms \<noteq> None"
    and "\<not> st_was_denied s \<longrightarrow> \<not> list_ex (\<lambda>g. trig_kind g = COMMS_LOST) (node_triggers m)" "extras_comms_denied ctx"
  obtains out rs s' w' where
    "decentralized_decide tiers obs ctx tick now (s, w) = (Inr (out, rs), (s', w'))"
    "strategy_ok tiers s'" "st_was_denied s'" "dict_get (st_tiers s') MISSION = Some ms"
    "mission_held m ms now rs"
proof -
  let ?gate = "decide_tier True False (\<not> st_was_denied s) tick now" and ?issued = "issue_contingent now True"
  obtain up rs s' w' where run: "run_tiers (tier_step ?gate ?issued obs ctx tick now) tiers
      (initial_upstream ctx) (s, w) = (Inr (up, rs), (s', w'))" and ok: "strategy_ok tiers s'"
    using decentralized.run_ok [OF assms(1) subset_refl] by metis
  have hold: "dict_get (st_tiers s') MISSION = Some ms" "mission_held m ms now rs"
  proof -
    have "node_consistent n \<and> tier_state_ok ms" if "n \<in> set tiers" "node_role n = MISSION" for n
      using that assms(1,4) by (fastforce simp: strategy_ok_def)
    then have "\<forall>n \<in> set tiers. node_role n = MISSION \<longrightarrow>
        ?gate n ms = Inr (None, if mission_stale m ms now then Some ''comms_stale_hold'' else None)"
      using assms(2,3,5) mission_gate_holds [where ts = ms] just_lost_quiet [OF assms(6)] by metis
    from decentralized.run_hold [OF run this assms(4)]
    show "dict_get (st_tiers s') MISSION = Some ms" "mission_held m ms now rs"
      by (auto simp: mission_held_def)
  qed
  have "mission_held m ms now (snd (coordinate s' up rs))"
    using hold(2) coordinate_records by (fastforce simp: mission_held_def)
  moreover have "decentralized_decide tiers obs ctx tick now (s, w) =
      (Inr (coordinate s' up rs), (s'\<lparr>st_was_denied := True\<rparr>, w'))"
    using assms(7) run by (simp add: decentralized_decide_def Let_def)
  ultimately show ?thesis
    using that [of "fst (coordinate s' up rs)" "snd (coordinate s' up rs)" "s'\<lparr>st_was_denied := True\<rparr>" w'] ok hold
    by (simp add: strategy_ok_def)
qed

definition decentralized_ticks :: "'w tier_node list \<Rightarrow> (observations \<times> decision_context \<times> int \<times> rat) list
    \<Rightarrow> (strategy_state \<times> 'w, fault, (action_batch \<times> tier_record list) list) st" where
  "decentralized_ticks tiers = smap (\<lambda>(obs, ctx, tick, now). decentralized_decide tiers obs ctx tick now)"

lemma denied_ticks:
  assumes "strategy_ok tiers s" "\<forall>n \<in> set tiers. node_role n = MISSION \<longrightarrow> n = m" "horizon_driven m"
    and "dict_get (st_tiers s) MISSION = Some ms" "cached ms \<noteq> None" "st_was_denied s"
    and "\<forall>(obs, ctx, tick, now) \<in> set inputs. extras_comms_denied ctx"
  shows "\<exists>outs s' w'. decentralized_ticks tiers inputs (s, w) = (Inr outs, (s', w'))
    \<and> strategy_ok tiers s' \<and> st_was_denied s' \<and> dict_get (st_tiers s') MISSION = Some ms
    \<and> list_all2 (\<lambda>(obs, ctx, tick, now) (out, rs). mission_held m ms now rs) inputs outs"
  using assms
proof (induction inputs arbitrary: s w)
  case (Cons i inputs)
  obtain obs ctx tick now where i: "i = (obs, ctx, tick, now)" by (metis surj_pair)
  then have "extras_comms_denied ctx" using Cons.prems(7) by simp
  from denied_tick [OF Cons.prems(1-5) _ this] Cons.prems(6) obtain out rs s1 w1 where
    one: "decentralized_decide tiers obs ctx tick now (s, w) = (Inr (out, rs), (s1, w1))"
    and s1: "strategy_ok tiers s1" "st_was_denied s1" "dict_get (st_tiers s1) MISSION = Some ms"
    and held: "mission_held m ms now rs"
    by metis
  from Cons.IH [OF s1(1) Cons.prems(2,3) s1(3) Cons.prems(5) s1(2)] Cons.prems(7) obtain outs s' w' where
    "decentralized_ticks tiers inputs (s1, w1) = (Inr outs, (s', w'))"
    "strategy_ok tiers s'" "st_was_denied s'" "dict_get (st_tiers s') MISSION = Some ms"
    "list_all2 (\<lambda>(obs, ctx, tick, now) (out, rs). mission_held m ms now rs) inputs outs"
    by (metis (no_types, lifting) list.set_intros(2))
  with one held i show ?case
    by (auto simp: decentralized_ticks_def sbind_def st_defs)
qed (simp add: decentralized_ticks_def st_defs)

lemma recovered_tick:
  assumes "strategy_ok tiers s" "distinct (map node_role tiers)" "m \<in> set tiers" "node_role m = MISSION"
    and "dict_get (st_tiers s) MISSION = Some ms" "cached ms \<noteq> None"
    and "st_was_denied s" "\<not> extras_comms_denied ctx"
  obtains out rs r s' w' where
    "decentralized_decide tiers obs ctx tick now (s, w) = (Inr (out, rs), (s', w'))"
    "r \<in> set rs" "rec_role r = role_value MISSION" "rec_replanned r" "rec_trigger r = Some ''comms_recovered''"
    "\<not> st_was_denied s'"
proof -
  let ?gate = "decide_tier False True False tick now" and ?issued = "issue_contingent now False"
  obtain up rs s' w' where run: "run_tiers (tier_step ?gate ?issued obs ctx tick now) tiers
      (initial_upstream ctx) (s, w) = (Inr (up, rs), (s', w'))"
    and roles: "map rec_role rs = map (\<lambda>n. role_value (node_role n)) tiers"
    using decentralized.run_ok [OF assms(1) subset_refl] by metis
  have "\<forall>n \<in> set tiers. node_role n = MISSION \<longrightarrow>
      ?gate n ms = Inr (Some ''comms_recovered'', Some ''comms_recovered'')"
    using assms(6) by (auto simp: decide_tier_def)
  note acts = decentralized.run_acts [OF run this assms(5,2)]
  have "role_value MISSION \<in> set (map rec_role rs)"
    unfolding roles using assms(3,4) by force
  then obtain r where "r \<in> set rs" "rec_role r = role_value MISSION" by auto
  moreover have "decentralized_decide tiers obs ctx tick now (s, w) = (Inr (up, rs), (s'\<lparr>st_was_denied := False\<rparr>, w'))"
    using assms(7,8) run by (simp add: decentralized_decide_def Let_def)
  ultimately show ?thesis using acts that by auto
qed

text \<open>
  The first dark tick. A tier that lists the loss of contact among its triggers is decided at the
  tick at which contact is lost; any other mission tier is held from that tick on.
\<close>

definition decides_on_loss :: "'w tier_node \<Rightarrow> strategy_state \<Rightarrow> bool" where
  "decides_on_loss m s = (\<not> st_was_denied s \<and> list_ex (\<lambda>g. trig_kind g = COMMS_LOST) (node_triggers m))"

definition mission_decided :: "string \<Rightarrow> tier_record list \<Rightarrow> bool" where
  "mission_decided trigger rs = (\<exists>r \<in> set rs. rec_role r = role_value MISSION \<and> rec_replanned r
     \<and> rec_trigger r = Some trigger)"

lemma acted_record:
  assumes "map rec_role rs = map (\<lambda>n. role_value (node_role n)) tiers" "m \<in> set tiers" "node_role m = MISSION"
    and "\<forall>r \<in> set rs. rec_role r = role_value MISSION \<longrightarrow>
      rec_replanned r \<and> rec_trigger r = Some t \<and> rec_note r = note"
  shows "mission_decided t rs"
proof -
  have "role_value MISSION \<in> set (map rec_role rs)"
    unfolding assms(1) using assms(2,3) by force
  then show ?thesis
    using assms(4) by (auto simp: mission_decided_def)
qed

lemma coordinate_keeps_mission:
  "mission_decided t rs \<Longrightarrow> mission_decided t (snd (coordinate s b rs))"
  by (force simp: mission_decided_def coordinate_def coord_annotate_def Let_def split: option.splits)

lemma lost_tick:
  assumes "strategy_ok tiers s" "distinct (map node_role tiers)" "m \<in> set tiers" "node_role m = MISSION"
    and "dict_get (st_tiers s) MISSION = Some ms" "cached ms \<noteq> None"
    and "decides_on_loss m s" "extras_comms_denied ctx"
  obtains out rs s' w' batch fb where
    "decentralized_decide tiers obs ctx tick now (s, w) = (Inr (out, rs), (s', w'))"
    "strategy_ok tiers s'" "st_was_denied s'" "dict_get (st_tiers s') MISSION = Some (decided batch now tick fb)"
    "mission_decided ''comms_lost'' rs"
proof -
  let ?gate = "decide_tier True False True tick now" and ?issued = "issue_contingent now True"
  obtain up rs s' w' where run: "run_tiers (tier_step ?gate ?issued obs ctx tick now) tiers
      (initial_upstream ctx) (s, w) = (Inr (up, rs), (s', w'))" and ok: "strategy_ok tiers s'"
    and roles: "map rec_role rs = map (\<lambda>n. role_value (node_role n)) tiers"
    using decentralized.run_ok [OF assms(1) subset_refl] by metis
  have only: "\<forall>n \<in> set tiers. node_role n = MISSION \<longrightarrow> n = m"
    using assms(2-4) by (metis distinct_map inj_on_eq_iff)
  have gate: "\<forall>n \<in> set tiers. node_role n = MISSION \<longrightarrow> ?gate n ms = Inr (Some (trigger_value COMMS_LOST), None)"
    using only assms(6,7) by (auto simp: decide_tier_def decides_on_loss_def)
  have dec: "mission_decided ''comms_lost'' rs"
    using acted_record [OF roles assms(3,4) decentralized.run_acts [OF run gate assms(5,2)]] by simp
  obtain batch fb where new: "dict_get (st_tiers s') MISSION = Some (decided batch now tick fb)"
    using decentralized.run_acted [OF run gate assms(5,2)] assms(3,4) by force
  have "decentralized_decide tiers obs ctx tick now (s, w) =
      (Inr (coordinate s' up rs), (s'\<lparr>st_was_denied := True\<rparr>, w'))"
    using assms(7,8) run by (simp add: decentralized_decide_def decides_on_loss_def Let_def)
  then show ?thesis
    using that [of "fst (coordinate s' up rs)" "snd (coordinate s' up rs)" "s'\<lparr>st_was_denied := True\<rparr>" w' batch fb]
      ok new coordinate_keeps_mission [OF dec] by (simp add: strategy_ok_def)
qed

text \<open>
  C18: Act while stale, reconcile on recovery. Take a decentralized stack whose mission tier has a plan
  and no triggers beside its plan horizon and the loss of contact, and a blackout of any length that
  begins at any tick. Every dark tick returns. At the first one the mission tier is decided exactly if
  contact has just been lost and its triggers list the loss, with the trigger \<^verbatim>\<open>comms_lost\<close>; otherwise
  it keeps the plan it had. From then on no dark tick decides it: it keeps that plan, and its record
  notes \<^verbatim>\<open>comms_stale_hold\<close> from the tick at which the horizon lapses. The first tick with contact
  decides it again, with the trigger \<^verbatim>\<open>comms_recovered\<close>.
\<close>

theorem blackout_holds_then_reconciles:
  assumes "strategy_ok tiers s" "distinct (map node_role tiers)" "m \<in> set tiers" "node_role m = MISSION"
    and "horizon_driven m"
    and "dict_get (st_tiers s) MISSION = Some ms" "cached ms \<noteq> None"
    and "extras_comms_denied ctx0" "\<forall>(obs, ctx, tick, now) \<in> set blackout. extras_comms_denied ctx"
    and "\<not> extras_comms_denied ctx"
  shows "\<exists>out0 rs0 outs s' w' plan.
    decentralized_ticks tiers ((obs0, ctx0, tick0, now0) # blackout) (s, w) = (Inr ((out0, rs0) # outs), (s', w'))
    \<and> (if decides_on_loss m s
       then mission_decided ''comms_lost'' rs0 \<and> (\<exists>batch fb. plan = decided batch now0 tick0 fb)
       else mission_held m ms now0 rs0 \<and> plan = ms)
    \<and> list_all2 (\<lambda>(obs, ctx, tick, now) (out, rs). mission_held m plan now rs) blackout outs
    \<and> dict_get (st_tiers s') MISSION = Some plan
    \<and> (\<exists>out rs s'' w''. decentralized_decide tiers obs ctx tick now (s', w') = (Inr (out, rs), (s'', w''))
        \<and> mission_decided ''comms_recovered'' rs \<and> \<not> st_was_denied s'')"
proof -
  have only: "\<forall>n \<in> set tiers. node_role n = MISSION \<longrightarrow> n = m"
    using assms(2-4) by (metis distinct_map inj_on_eq_iff)
  obtain out0 rs0 s1 w1 plan where
    one: "decentralized_decide tiers obs0 ctx0 tick0 now0 (s, w) = (Inr (out0, rs0), (s1, w1))"
    and s1: "strategy_ok tiers s1" "st_was_denied s1" "dict_get (st_tiers s1) MISSION = Some plan" "cached plan \<noteq> None"
    and first: "if decides_on_loss m s
       then mission_decided ''comms_lost'' rs0 \<and> (\<exists>batch fb. plan = decided batch now0 tick0 fb)
       else mission_held m ms now0 rs0 \<and> plan = ms"
  proof (cases "decides_on_loss m s")
    case True
    from lost_tick [OF assms(1-4,6,7) True assms(8), of obs0 tick0 now0 w] show ?thesis
      using that True by (smt (verit) decided_def option.distinct(1) tier_state.select_convs(1))
  next
    case False
    from denied_tick [OF assms(1) only assms(5-7) _ assms(8), of obs0 tick0 now0 w] show ?thesis
      using that False assms(3,7) by (metis decides_on_loss_def)
  qed
  from denied_ticks [OF s1(1) only assms(5) s1(3,4,2) assms(9), of w1] obtain outs s' w' where
    run: "decentralized_ticks tiers blackout (s1, w1) = (Inr outs, (s', w'))"
      "dict_get (st_tiers s') MISSION = Some plan"
      "list_all2 (\<lambda>(obs, ctx, tick, now) (out, rs). mission_held m plan now rs) blackout outs"
    and s': "strategy_ok tiers s'" "st_was_denied s'"
    by blast
  have whole: "decentralized_ticks tiers ((obs0, ctx0, tick0, now0) # blackout) (s, w) = (Inr ((out0, rs0) # outs), (s', w'))"
    using one run(1) by (simp add: decentralized_ticks_def sbind_def st_defs)
  have "\<exists>out rs s'' w''. decentralized_decide tiers obs ctx tick now (s', w') = (Inr (out, rs), (s'', w''))
      \<and> mission_decided ''comms_recovered'' rs \<and> \<not> st_was_denied s''"
    using recovered_tick [OF s'(1) assms(2-4) run(2) s1(4) s'(2) assms(10)]
    unfolding mission_decided_def by metis
  then show ?thesis
    using whole first run(2,3) by blast
qed

definition demo_tier :: "TierRole \<Rightarrow> action_batch \<Rightarrow> nat tier_node" where
  "demo_tier role batch = \<lparr>node_role = role, node_plugin = ''p'', node_policy = (\<lambda>obs ctx w. (Inr batch, Suc w)),
     node_horizon = (if role = MISSION then Some 10 else None),
     node_triggers = (if role = MISSION then [\<lparr>trig_kind = PLAN_EXPIRED, every_ticks = None\<rparr>] else []),
     node_fallback = None, node_fallback_name = None, node_manifest = demo_manifest\<rparr>"

definition demo_tiers :: "nat tier_node list" where
  "demo_tiers = [demo_tier MISSION [demo_prospect ''r1'' 1], demo_tier CONTROL [demo_prospect ''r1'' 2]]"

definition demo_dark :: "int \<Rightarrow> rat \<Rightarrow> observations \<times> decision_context \<times> int \<times> rat" where
  "demo_dark tick now = (let obs = [(''r1'', \<lparr>obs_tick = tick, obs_time = now, obs_observable = True,
       obs_state = at_rest, obs_sensors = [], obs_comms = None, obs_other = JNull\<rparr>)] in
     (obs, \<lparr>ctx_time = now, ctx_objective = None, ctx_upstream = None, ctx_seed = None,
        ctx_extras = [(BELIEF_EXTRAS_KEY, BeliefExtra (assemble_belief obs tick now))]\<rparr>, tick, now))"

definition demo_lit_context :: decision_context where
  "demo_lit_context = \<lparr>ctx_time = 30, ctx_objective = None, ctx_upstream = None, ctx_seed = None, ctx_extras = []\<rparr>"

definition demo_lit_state :: strategy_state where
  "demo_lit_state = \<lparr>st_tiers = [(MISSION, decided [demo_prospect ''r1'' 1] 0 0 False), (CONTROL, fresh_tier_state)],
     st_was_denied = False, st_contingent = []\<rparr>"

theorem blackout_holds_then_reconciles_witness:
  "\<exists>outs s' w'. decentralized_ticks demo_tiers [demo_dark 1 5, demo_dark 2 15] (demo_lit_state, 0) = (Inr outs, (s', w'))
    \<and> dict_get (st_tiers s') MISSION = Some (decided [demo_prospect ''r1'' 1] 0 0 False)
    \<and> (\<exists>out rs s'' w''. decentralized_decide demo_tiers [] demo_lit_context 3 30 (s', w') = (Inr (out, rs), (s'', w''))
        \<and> mission_decided ''comms_recovered'' rs \<and> \<not> st_was_denied s'')"
proof -
  let ?m = "demo_tier MISSION [demo_prospect ''r1'' 1]"
  have 1: "strategy_ok demo_tiers demo_lit_state"
    by (auto simp: strategy_ok_def demo_tiers_def demo_tier_def demo_lit_state_def node_consistent_def split: if_splits)
  have 2: "distinct (map node_role demo_tiers)" "?m \<in> set demo_tiers" "node_role ?m = MISSION" "horizon_driven ?m"
    by (simp_all add: demo_tiers_def demo_tier_def horizon_driven_def)
  have 3: "dict_get (st_tiers demo_lit_state) MISSION = Some (decided [demo_prospect ''r1'' 1] 0 0 False)"
    "cached (decided [demo_prospect ''r1'' 1] 0 0 False) \<noteq> None"
    by (simp_all add: demo_lit_state_def decided_def)
  obtain obs0 ctx0 where dark: "demo_dark 1 5 = (obs0, ctx0, 1, 5)"
    by (simp add: demo_dark_def Let_def)
  have 4: "extras_comms_denied ctx0" "\<forall>(obs, ctx, tick, now) \<in> set [demo_dark 2 15]. extras_comms_denied ctx"
    using dark by (auto simp: demo_dark_def Let_def extras_comms_denied_def comms_denied_def assemble_belief_def
        belief_earth_contact_def)
  have 5: "\<not> extras_comms_denied demo_lit_context"
    by (simp add: demo_lit_context_def extras_comms_denied_def)
  have "\<not> decides_on_loss ?m demo_lit_state"
    by (simp add: decides_on_loss_def demo_tier_def)
  then show ?thesis
    unfolding dark
    using blackout_holds_then_reconciles [OF 1 2 3 4 5, of obs0 1 5 0 "[]" 3 30] by auto
qed

end
