(* ===== verification/Behavior_Tree.thy ===== *)
theory Behavior_Tree
  imports Platform_Prelude
begin

text \<open>
  The behavior-tree syntax (\<^verbatim>\<open>mind/bt/model.py\<close>) and its Groot XML form (\<^verbatim>\<open>mind/bt/xml.py\<close>).
  An XML document is the element tree \<^verbatim>\<open>xml.etree\<close> reads: a tag, attributes and child elements;
  the character data between elements is never read by the source. \<^verbatim>\<open>None\<close> as a document is a
  text \<^verbatim>\<open>ET.fromstring\<close> rejects.
\<close>

section \<open>The tree\<close>

datatype NodeStatus = SUCCESS | FAILURE | RUNNING
datatype ControlKind = SEQUENCE | FALLBACK
datatype DecoratorKind = INVERTER | FORCE_SUCCESS | FORCE_FAILURE
datatype InvokeKind = PLANNER | POLICY_INVOKE | PRIMITIVE
datatype ConditionKind = FRESH_UPSTREAM

datatype bt_node =
    ControlNode ControlKind "bt_node list" "string option"
  | DecoratorNode DecoratorKind bt_node "string option"
  | ActionNode InvokeKind string string "(string, string) dict"
  | ConditionNode ConditionKind string "(string, string) dict"

record behavior_tree =
  tree_id :: string
  tree_root :: bt_node
  format_version :: string

fun iter_tier_refs :: "bt_node \<Rightarrow> string set" where
  "iter_tier_refs (ControlNode k cs i) = \<Union> (set (map iter_tier_refs cs))"
| "iter_tier_refs (DecoratorNode k c i) = iter_tier_refs c"
| "iter_tier_refs (ActionNode k r i p) = (if k \<noteq> PRIMITIVE then {r} else {})"
| "iter_tier_refs (ConditionNode k i p) = {}"

definition tier_refs :: "behavior_tree \<Rightarrow> string set" where
  "tier_refs t = iter_tier_refs (tree_root t)"

section \<open>XML elements and the vocabulary\<close>

datatype xml = Elem (elem_tag: string) (elem_attrs: "(string, string) dict") (elem_children: "xml list")

definition CONTROL_TAGS :: "(string, ControlKind) dict" where
  "CONTROL_TAGS = [(''Sequence'', SEQUENCE), (''ReactiveSequence'', SEQUENCE),
     (''Fallback'', FALLBACK), (''ReactiveFallback'', FALLBACK)]"

fun CONTROL_OUT :: "ControlKind \<Rightarrow> string" where
  "CONTROL_OUT SEQUENCE = ''Sequence''"
| "CONTROL_OUT FALLBACK = ''Fallback''"

definition DECORATOR_TAGS :: "(string, DecoratorKind) dict" where
  "DECORATOR_TAGS = [(''Inverter'', INVERTER), (''ForceSuccess'', FORCE_SUCCESS),
     (''ForceFailure'', FORCE_FAILURE)]"

fun DECORATOR_OUT :: "DecoratorKind \<Rightarrow> string" where
  "DECORATOR_OUT INVERTER = ''Inverter''"
| "DECORATOR_OUT FORCE_SUCCESS = ''ForceSuccess''"
| "DECORATOR_OUT FORCE_FAILURE = ''ForceFailure''"

definition RESERVED_ATTRS :: "string list" where
  "RESERVED_ATTRS = [''ID'', ''kind'', ''tier'', ''action'']"

fun invoke_value :: "InvokeKind \<Rightarrow> string" where
  "invoke_value PLANNER = ''planner''"
| "invoke_value POLICY_INVOKE = ''policy''"
| "invoke_value PRIMITIVE = ''primitive''"

definition invoke_of :: "string \<Rightarrow> InvokeKind option" where
  "invoke_of s = dict_get (map (\<lambda>k. (invoke_value k, k)) [PLANNER, POLICY_INVOKE, PRIMITIVE]) s"

fun condition_value :: "ConditionKind \<Rightarrow> string" where
  "condition_value FRESH_UPSTREAM = ''fresh_upstream''"

definition condition_of :: "string \<Rightarrow> ConditionKind option" where
  "condition_of s = (if s = condition_value FRESH_UPSTREAM then Some FRESH_UPSTREAM else None)"

section \<open>Parsing\<close>

datatype bt_xml_error =
    InvalidXml
  | NoBehaviorTree
  | UnexpectedRoot string
  | MissingTreeId
  | RootNodeCount string nat
  | NoMainTree
  | NoSuchTree string
  | EmptyComposite string
  | DecoratorArity string
  | UnknownNode string
  | UnknownKind string string
  | MissingAttribute string string

definition require_attr :: "xml \<Rightarrow> string \<Rightarrow> bt_xml_error + string" where
  "require_attr el a = (case dict_get (elem_attrs el) a of
     None \<Rightarrow> Inl (MissingAttribute (elem_tag el) a)
   | Some v \<Rightarrow> if v = '''' then Inl (MissingAttribute (elem_tag el) a) else Inr v)"

definition params_of :: "xml \<Rightarrow> (string, string) dict" where
  "params_of el = filter (\<lambda>(k, v). k \<notin> set RESERVED_ATTRS) (sort_key fst (elem_attrs el))"

definition parse_action :: "xml \<Rightarrow> bt_xml_error + bt_node" where
  "parse_action el =
    rbind (require_attr el ''ID'') (\<lambda>node_id.
    rbind (require_attr el ''kind'') (\<lambda>kind.
    case invoke_of kind of
      None \<Rightarrow> Inl (UnknownKind node_id kind)
    | Some invoke \<Rightarrow>
        rbind (require_attr el (if invoke = PRIMITIVE then ''action'' else ''tier'')) (\<lambda>ref.
        Inr (ActionNode invoke ref node_id (params_of el)))))"

definition parse_condition :: "xml \<Rightarrow> bt_xml_error + bt_node" where
  "parse_condition el =
    rbind (require_attr el ''ID'') (\<lambda>node_id.
    rbind (require_attr el ''kind'') (\<lambda>kind.
    case condition_of kind of
      None \<Rightarrow> Inl (UnknownKind node_id kind)
    | Some check \<Rightarrow> Inr (ConditionNode check node_id (params_of el))))"

fun parse_node :: "xml \<Rightarrow> bt_xml_error + bt_node"
  and parse_nodes :: "xml list \<Rightarrow> bt_xml_error + bt_node list" where
  "parse_node (Elem tag attrs kids) =
    (case dict_get CONTROL_TAGS tag of
       Some k \<Rightarrow> rbind (parse_nodes kids) (\<lambda>children.
         if children = [] then Inl (EmptyComposite tag)
         else Inr (ControlNode k children (dict_get attrs ''ID'')))
     | None \<Rightarrow>
         case dict_get DECORATOR_TAGS tag of
           Some k \<Rightarrow>
             (case kids of
                [kid] \<Rightarrow> rbind (parse_node kid) (\<lambda>child.
                  Inr (DecoratorNode k child (dict_get attrs ''ID'')))
              | _ \<Rightarrow> Inl (DecoratorArity tag))
         | None \<Rightarrow>
             if tag = ''Action'' then parse_action (Elem tag attrs kids)
             else if tag = ''Condition'' then parse_condition (Elem tag attrs kids)
             else Inl (UnknownNode tag))"
| "parse_nodes [] = Inr []"
| "parse_nodes (e # es) = rbind (parse_node e) (\<lambda>n. rbind (parse_nodes es) (\<lambda>ns. Inr (n # ns)))"

definition select_tree :: "xml list \<Rightarrow> string option \<Rightarrow> bt_xml_error + xml" where
  "select_tree trees main = (case main of
     None \<Rightarrow> (case trees of [t] \<Rightarrow> Inr t | _ \<Rightarrow> Inl NoMainTree)
   | Some m \<Rightarrow> (case List.find (\<lambda>t. dict_get (elem_attrs t) ''ID'' = Some m) trees of
       Some t \<Rightarrow> Inr t | None \<Rightarrow> Inl (NoSuchTree m)))"

definition select_root :: "xml \<Rightarrow> bt_xml_error + (string \<times> xml)" where
  "select_root root =
    (if elem_tag root = ''root'' then
       let fmt = get_default (elem_attrs root) ''BTCPP_format'' ''4'';
           trees = filter (\<lambda>e. elem_tag e = ''BehaviorTree'') (elem_children root) in
       if trees = [] then Inl NoBehaviorTree
       else rbind (select_tree trees (dict_get (elem_attrs root) ''main_tree_to_execute'')) (\<lambda>el. Inr (fmt, el))
     else if elem_tag root = ''BehaviorTree'' then Inr (''4'', root)
     else Inl (UnexpectedRoot (elem_tag root)))"

definition parse_behavior_tree :: "xml option \<Rightarrow> bt_xml_error + behavior_tree" where
  "parse_behavior_tree source = (case source of
     None \<Rightarrow> Inl InvalidXml
   | Some root \<Rightarrow>
       rbind (select_root root) (\<lambda>(fmt, tree_el).
       case dict_get (elem_attrs tree_el) ''ID'' of
         None \<Rightarrow> Inl MissingTreeId
       | Some tid \<Rightarrow>
           if tid = '''' then Inl MissingTreeId
           else (case elem_children tree_el of
               [child] \<Rightarrow> rbind (parse_node child) (\<lambda>n.
                 Inr \<lparr>tree_id = tid, tree_root = n, format_version = fmt\<rparr>)
             | children \<Rightarrow> Inl (RootNodeCount tid (length children)))))"

section \<open>Rendering\<close>

definition id_attr :: "string option \<Rightarrow> (string, string) dict" where
  "id_attr node_id = (case node_id of None \<Rightarrow> [] | Some i \<Rightarrow> if i = '''' then [] else [(''ID'', i)])"

definition dict_update :: "('k, 'v) dict \<Rightarrow> ('k, 'v) dict \<Rightarrow> ('k, 'v) dict" where
  "dict_update d e = fold (\<lambda>(k, v) acc. dict_set acc k v) e d"

fun to_element :: "bt_node \<Rightarrow> xml" where
  "to_element (ControlNode k cs i) = Elem (CONTROL_OUT k) (id_attr i) (map to_element cs)"
| "to_element (DecoratorNode k c i) = Elem (DECORATOR_OUT k) (id_attr i) [to_element c]"
| "to_element (ActionNode k r i p) = Elem ''Action''
     (dict_update [(''ID'', i), (''kind'', invoke_value k),
        (if k = PRIMITIVE then ''action'' else ''tier'', r)] p) []"
| "to_element (ConditionNode k i p) = Elem ''Condition''
     (dict_update [(''ID'', i), (''kind'', condition_value k)] p) []"

definition to_xml :: "behavior_tree \<Rightarrow> xml" where
  "to_xml t = Elem ''root'' [(''BTCPP_format'', format_version t), (''main_tree_to_execute'', tree_id t)]
     [Elem ''BehaviorTree'' [(''ID'', tree_id t)] [to_element (tree_root t)]]"

section \<open>Well-formed documents and trees\<close>

text \<open>An XML reader never yields an element with a repeated attribute.\<close>

fun xml_wf :: "xml \<Rightarrow> bool" where
  "xml_wf (Elem t as es) = (dict_wf as \<and> (\<forall>e \<in> set es. xml_wf e))"

definition params_wf :: "(string, string) dict \<Rightarrow> bool" where
  "params_wf p = (sorted (dict_keys p) \<and> distinct (dict_keys p)
     \<and> (\<forall>k \<in> set (dict_keys p). k \<notin> set RESERVED_ATTRS))"

fun node_wf :: "bt_node \<Rightarrow> bool" where
  "node_wf (ControlNode k cs i) = (cs \<noteq> [] \<and> (\<forall>c \<in> set cs. node_wf c))"
| "node_wf (DecoratorNode k c i) = node_wf c"
| "node_wf (ActionNode k r i p) = (r \<noteq> '''' \<and> i \<noteq> '''' \<and> params_wf p)"
| "node_wf (ConditionNode k i p) = (i \<noteq> '''' \<and> params_wf p)"

definition tree_wf :: "behavior_tree \<Rightarrow> bool" where
  "tree_wf t = (tree_id t \<noteq> '''' \<and> node_wf (tree_root t))"

text \<open>What rendering forgets: an empty name of an inner node.\<close>

fun node_norm :: "bt_node \<Rightarrow> bt_node" where
  "node_norm (ControlNode k cs i) = ControlNode k (map node_norm cs) (if i = Some '''' then None else i)"
| "node_norm (DecoratorNode k c i) = DecoratorNode k (node_norm c) (if i = Some '''' then None else i)"
| "node_norm n = n"

fun names_nonempty :: "bt_node \<Rightarrow> bool" where
  "names_nonempty (ControlNode k cs i) = (i \<noteq> Some '''' \<and> (\<forall>c \<in> set cs. names_nonempty c))"
| "names_nonempty (DecoratorNode k c i) = (i \<noteq> Some '''' \<and> names_nonempty c)"
| "names_nonempty n = True"

lemma node_norm_id: "(node_norm n = n) = names_nonempty n"
proof (induction n)
  case (ControlNode k cs i)
  have "(map node_norm cs = cs) = (\<forall>c \<in> set cs. node_norm c = c)"
    by (induction cs) auto
  with ControlNode show ?case by auto
qed auto

section \<open>Facts about attributes\<close>

lemma dict_update_fresh:
  "distinct (dict_keys p) \<Longrightarrow> set (dict_keys p) \<inter> set (dict_keys d) = {} \<Longrightarrow> dict_update d p = d @ p"
proof (induction p arbitrary: d)
  case (Cons kv p)
  obtain k v where kv: "kv = (k, v)" by force
  have "dict_set d k v = d @ [(k, v)]"
    using Cons.prems(2) by (auto simp: kv dict_set_new)
  with Cons.prems Cons.IH [of "d @ [(k, v)]"] show ?case
    by (simp add: dict_update_def kv)
qed (simp add: dict_update_def)

lemma reserved_fresh:
  "params_wf p \<Longrightarrow> set (dict_keys d) \<subseteq> set RESERVED_ATTRS \<Longrightarrow> dict_update d p = d @ p"
  by (rule dict_update_fresh) (auto simp: params_wf_def)

lemma params_of_append:
  assumes "params_wf p" "set (dict_keys d) \<subseteq> set RESERVED_ATTRS"
  shows "params_of (Elem t (d @ p) es) = p"
proof -
  have "filter (\<lambda>(k, v). k \<notin> set RESERVED_ATTRS) d = []"
    using assms(2) by (fastforce simp: filter_empty_conv)
  moreover have "filter (\<lambda>(k, v). k \<notin> set RESERVED_ATTRS) p = p"
    using assms(1) by (fastforce simp: params_wf_def filter_id_conv)
  ultimately show ?thesis
    using assms(1) by (simp add: params_of_def filter_sort params_wf_def sort_key_id_if_sorted)
qed

lemma params_of_wf: "dict_wf (elem_attrs el) \<Longrightarrow> params_wf (params_of el)"
proof -
  assume wf: "dict_wf (elem_attrs el)"
  let ?P = "\<lambda>(k, v). k \<notin> set RESERVED_ATTRS"
  have "sorted (map fst (sort_key fst (filter ?P (elem_attrs el))))"
    by (rule sorted_sort_key)
  moreover have "distinct (map fst (filter ?P (elem_attrs el)))"
    using wf by (simp add: distinct_map_filter)
  moreover have "distinct (map fst (sort_key fst xs)) = distinct (map fst xs)" for xs :: "(string \<times> string) list"
    by (rule mset_eq_imp_distinct_iff) simp
  ultimately show ?thesis
    by (auto simp: params_wf_def params_of_def filter_sort)
qed

lemma require_attr_ok: "(require_attr el a = Inr v) = (dict_get (elem_attrs el) a = Some v \<and> v \<noteq> '''')"
  by (auto simp: require_attr_def split: option.splits)

lemma invoke_of_value [simp]: "invoke_of (invoke_value k) = Some k"
  by (cases k) (simp_all add: invoke_of_def)

lemma condition_of_value [simp]: "condition_of (condition_value k) = Some k"
  by (cases k) (simp add: condition_of_def)

lemma control_tags_out [simp]: "dict_get CONTROL_TAGS (CONTROL_OUT k) = Some k"
  by (cases k) (simp_all add: CONTROL_TAGS_def)

lemma decorator_tags_out [simp]:
  "dict_get CONTROL_TAGS (DECORATOR_OUT k) = None" "dict_get DECORATOR_TAGS (DECORATOR_OUT k) = Some k"
  by (cases k; simp add: CONTROL_TAGS_def DECORATOR_TAGS_def)+

lemma leaf_tags [simp]:
  "dict_get CONTROL_TAGS ''Action'' = None" "dict_get DECORATOR_TAGS ''Action'' = None"
  "dict_get CONTROL_TAGS ''Condition'' = None" "dict_get DECORATOR_TAGS ''Condition'' = None"
  by (simp_all add: CONTROL_TAGS_def DECORATOR_TAGS_def)

lemma id_attr_get [simp]: "dict_get (id_attr i) ''ID'' = (if i = Some '''' then None else i)"
  by (auto simp: id_attr_def split: option.splits)

section \<open>Rendering and reading back\<close>

lemma parse_action_rendered:
  assumes "r \<noteq> ''''" "i \<noteq> ''''" "params_wf p"
  shows "parse_node (to_element (ActionNode k r i p)) = Inr (ActionNode k r i p)"
proof -
  let ?d = "[(''ID'', i), (''kind'', invoke_value k), (if k = PRIMITIVE then ''action'' else ''tier'', r)]"
  have keys: "set (dict_keys ?d) \<subseteq> set RESERVED_ATTRS" by (simp add: RESERVED_ATTRS_def)
  have "require_attr (Elem ''Action'' (?d @ p) []) ''ID'' = Inr i"
    "require_attr (Elem ''Action'' (?d @ p) []) ''kind'' = Inr (invoke_value k)"
    "require_attr (Elem ''Action'' (?d @ p) []) (if k = PRIMITIVE then ''action'' else ''tier'') = Inr r"
    using assms by (cases k; simp add: require_attr_ok)+
  then have "parse_action (Elem ''Action'' (?d @ p) []) = Inr (ActionNode k r i (params_of (Elem ''Action'' (?d @ p) [])))"
    by (simp add: parse_action_def)
  then have "parse_action (Elem ''Action'' (?d @ p) []) = Inr (ActionNode k r i p)"
    by (simp only: params_of_append [OF assms(3) keys])
  then show ?thesis
    by (simp add: reserved_fresh [OF assms(3) keys])
qed

lemma parse_condition_rendered:
  assumes "i \<noteq> ''''" "params_wf p"
  shows "parse_node (to_element (ConditionNode k i p)) = Inr (ConditionNode k i p)"
proof -
  let ?d = "[(''ID'', i), (''kind'', condition_value k)]"
  have keys: "set (dict_keys ?d) \<subseteq> set RESERVED_ATTRS" by (simp add: RESERVED_ATTRS_def)
  have "require_attr (Elem ''Condition'' (?d @ p) []) ''ID'' = Inr i"
    "require_attr (Elem ''Condition'' (?d @ p) []) ''kind'' = Inr (condition_value k)"
    using assms by (cases k; simp add: require_attr_ok)+
  then have "parse_condition (Elem ''Condition'' (?d @ p) []) = Inr (ConditionNode k i (params_of (Elem ''Condition'' (?d @ p) [])))"
    by (simp add: parse_condition_def)
  then have "parse_condition (Elem ''Condition'' (?d @ p) []) = Inr (ConditionNode k i p)"
    by (simp only: params_of_append [OF assms(2) keys])
  then show ?thesis
    by (simp add: reserved_fresh [OF assms(2) keys])
qed

lemma parse_nodes_all:
  "\<forall>c \<in> set cs. parse_node (f c) = Inr (g c) \<Longrightarrow> parse_nodes (map f cs) = Inr (map g cs)"
  by (induction cs) auto

lemma parse_to_element: "node_wf n \<Longrightarrow> parse_node (to_element n) = Inr (node_norm n)"
proof (induction n)
  case (ControlNode k cs i)
  then have "parse_nodes (map to_element cs) = Inr (map node_norm cs)"
    by (intro parse_nodes_all) auto
  with ControlNode.prems show ?case by simp
next
  case (ActionNode k r i p)
  then have "parse_node (to_element (ActionNode k r i p)) = Inr (ActionNode k r i p)"
    by (intro parse_action_rendered) simp_all
  then show ?case by (simp only: node_norm.simps)
next
  case (ConditionNode k i p)
  then have "parse_node (to_element (ConditionNode k i p)) = Inr (ConditionNode k i p)"
    by (intro parse_condition_rendered) simp_all
  then show ?case by (simp only: node_norm.simps)
qed simp

lemma parse_to_xml:
  "tree_wf t \<Longrightarrow> parse_behavior_tree (Some (to_xml t)) = Inr (t\<lparr>tree_root := node_norm (tree_root t)\<rparr>)"
  by (simp add: parse_behavior_tree_def to_xml_def select_root_def select_tree_def tree_wf_def
      get_default_def parse_to_element Let_def)

lemma parse_wf:
  "parse_node e = Inr n \<Longrightarrow> xml_wf e \<Longrightarrow> node_wf n"
  "parse_nodes es = Inr ns \<Longrightarrow> \<forall>e \<in> set es. xml_wf e \<Longrightarrow> \<forall>n \<in> set ns. node_wf n"
proof (induction e and es arbitrary: n and ns rule: parse_node_parse_nodes.induct)
  case (1 tag attrs kids)
  show ?case
  proof (cases "dict_get CONTROL_TAGS tag")
    case (Some k)
    with "1.prems" "1.IH"(2) [OF Some] show ?thesis by (auto simp: rbind_Inr if_Inr)
  next
    case none: None
    show ?thesis
    proof (cases "dict_get DECORATOR_TAGS tag")
      case (Some k)
      with none "1.prems" "1.IH"(1) [OF none Some] show ?thesis
        by (auto simp: rbind_Inr split: list.splits)
    next
      case None
      with none "1.prems" show ?thesis
        by (auto simp: parse_action_def parse_condition_def rbind_Inr case_option_Inr require_attr_ok
            params_of_wf split: if_splits)
    qed
  qed
qed (auto simp: rbind_Inr)

lemma find_Some_mem: "List.find P xs = Some x \<Longrightarrow> x \<in> set xs"
  by (induction xs) (auto split: if_splits)

lemma select_tree_mem: "select_tree trees main = Inr t \<Longrightarrow> t \<in> set trees"
  by (auto simp: select_tree_def find_Some_mem split: option.splits list.splits)

lemma select_root_wf: "select_root e = Inr (fmt, el) \<Longrightarrow> xml_wf e \<Longrightarrow> xml_wf el"
  by (cases e) (auto simp: select_root_def Let_def rbind_Inr if_Inr split: if_splits dest: select_tree_mem)

lemma parse_behavior_tree_wf:
  assumes "parse_behavior_tree (Some e) = Inr t" "xml_wf e"
  shows "tree_wf t"
proof -
  obtain fmt el where sel: "select_root e = Inr (fmt, el)" and rest: "parse_behavior_tree (Some e)
      = (case dict_get (elem_attrs el) ''ID'' of
         None \<Rightarrow> Inl MissingTreeId
       | Some tid \<Rightarrow>
           if tid = '''' then Inl MissingTreeId
           else (case elem_children el of
               [child] \<Rightarrow> rbind (parse_node child) (\<lambda>n.
                 Inr \<lparr>tree_id = tid, tree_root = n, format_version = fmt\<rparr>)
             | children \<Rightarrow> Inl (RootNodeCount tid (length children))))"
    using assms(1) by (auto simp: parse_behavior_tree_def rbind_Inr)
  obtain child n where "tree_id t \<noteq> ''''" "elem_children el = [child]" "parse_node child = Inr n"
    and "tree_root t = n"
  proof (cases "elem_children el" rule: remdups_adj.cases)
    case (2 child)
    with assms(1) that show ?thesis unfolding rest
      by (auto simp: case_option_Inr if_Inr rbind_Inr)
  qed (use assms(1) in \<open>auto simp: rest case_option_Inr if_Inr\<close>)
  moreover have "xml_wf child"
    using select_root_wf [OF sel assms(2)] \<open>elem_children el = [child]\<close> by (cases el) auto
  ultimately show ?thesis by (simp add: tree_wf_def parse_wf(1))
qed

text \<open>
  C33: Reading, rendering and reading again is reading once. Every tree the parser accepts is well
  formed (no empty composite, no leaf without its ID and tier, parameters sorted and free of the
  reserved names), its rendering is accepted again, and what comes back is the same tree with the
  empty names of inner nodes dropped; so it is the very same tree exactly when no inner node was
  given an empty \<^verbatim>\<open>ID\<close> attribute.
\<close>

theorem behavior_tree_roundtrip:
  assumes "parse_behavior_tree (Some e) = Inr t" "xml_wf e"
  shows "tree_wf t
    \<and> parse_behavior_tree (Some (to_xml t)) = Inr (t\<lparr>tree_root := node_norm (tree_root t)\<rparr>)
    \<and> (parse_behavior_tree (Some (to_xml t)) = Inr t) = names_nonempty (tree_root t)"
proof -
  have "parse_behavior_tree (Some (to_xml t)) = Inr (t\<lparr>tree_root := node_norm (tree_root t)\<rparr>)"
    by (rule parse_to_xml [OF parse_behavior_tree_wf [OF assms]])
  moreover have "(t\<lparr>tree_root := m\<rparr> = t) = (m = tree_root t)" for m
    by (cases t) auto
  ultimately show ?thesis by (simp add: node_norm_id parse_behavior_tree_wf [OF assms])
qed

definition demo_document :: xml where
  "demo_document = Elem ''root'' [(''BTCPP_format'', ''4''), (''main_tree_to_execute'', ''main'')]
     [Elem ''BehaviorTree'' [(''ID'', ''other'')] [],
      Elem ''BehaviorTree'' [(''ID'', ''main'')]
       [Elem ''ReactiveFallback'' [(''ID'', '''')]
         [Elem ''Sequence'' []
           [Elem ''Action'' [(''ID'', ''plan''), (''kind'', ''planner''), (''tier'', ''mission'')] [],
            Elem ''Condition'' [(''ID'', ''fresh''), (''kind'', ''fresh_upstream'')] [],
            Elem ''Action'' [(''ID'', ''act''), (''gain'', ''2''), (''kind'', ''policy''),
              (''tier'', ''control'')] []],
          Elem ''Action'' [(''ID'', ''hold''), (''kind'', ''primitive''), (''action'', ''standby'')] []]]]"

definition demo_tree :: behavior_tree where
  "demo_tree = \<lparr>tree_id = ''main'', tree_root = ControlNode FALLBACK
     [ControlNode SEQUENCE
       [ActionNode PLANNER ''mission'' ''plan'' [], ConditionNode FRESH_UPSTREAM ''fresh'' [],
        ActionNode POLICY_INVOKE ''control'' ''act'' [(''gain'', ''2'')]] None,
      ActionNode PRIMITIVE ''standby'' ''hold'' []] (Some ''''), format_version = ''4''\<rparr>"

lemma demo_document_parses: "parse_behavior_tree (Some demo_document) = Inr demo_tree"
  by code_simp

theorem behavior_tree_roundtrip_witness:
  "parse_behavior_tree (Some (to_xml demo_tree)) = Inr (demo_tree\<lparr>tree_root := node_norm (tree_root demo_tree)\<rparr>)
    \<and> parse_behavior_tree (Some (to_xml demo_tree)) \<noteq> Inr demo_tree"
proof -
  have "xml_wf demo_document" by code_simp
  moreover have "\<not> names_nonempty (tree_root demo_tree)" by code_simp
  ultimately show ?thesis
    using behavior_tree_roundtrip [OF demo_document_parses] by blast
qed

end
