(* ===== verification/BT_Engine.thy ===== *)
theory BT_Engine
  imports Mind_Model Behavior_Tree
begin

text \<open>
  The behavior-tree tick engine (\<^verbatim>\<open>mind/bt/engine.py\<close>): one reactive evaluation of the tree per
  tick, threading the running proposal and the per-tier records through the leaves. The mutable
  \<^verbatim>\<open>_TickState\<close> and the world the policies live in are the state of the evaluation; an
  exception leaves what was written before it in place.
\<close>

section \<open>The engine\<close>

record tick_state =
  ts_proposal :: action_batch
  ts_records :: "tier_record list"

definition BT_TRIGGER :: string where
  "BT_TRIGGER = ''bt_tick''"

definition bt_record :: "string \<Rightarrow> bool \<Rightarrow> tier_record" where
  "bt_record role fb = \<lparr>rec_role = role, rec_replanned = True, rec_trigger = Some BT_TRIGGER,
     rec_fallback_used = fb, rec_note = None\<rparr>"

text \<open>The engine's fields and the inputs of one tick.\<close>

record 'w bt_engine =
  engine_tree :: behavior_tree
  engine_tiers :: "(string, 'w policy) dict"

record 'w tick_env =
  te_tiers :: "(string, 'w policy) dict"
  te_observations :: observations
  te_context :: decision_context

definition bt_primitive :: "string \<Rightarrow> string \<Rightarrow> observations \<Rightarrow> fault + action_batch" where
  "bt_primitive ref node_id obs =
    (if ref = ''standby'' then Inr (map standby_action (sort (dict_keys obs)))
     else Inl (PrimitiveError node_id ref))"

definition bt_note :: "action_batch \<Rightarrow> string \<Rightarrow> bool \<Rightarrow> tick_state \<Rightarrow> tick_state" where
  "bt_note batch role fb ts = \<lparr>ts_proposal = batch, ts_records = ts_records ts @ [bt_record role fb]\<rparr>"

definition eval_action ::
  "'w tick_env \<Rightarrow> InvokeKind \<Rightarrow> string \<Rightarrow> string \<Rightarrow> bool \<Rightarrow> (tick_state \<times> 'w, fault, NodeStatus) st" where
  "eval_action te invoke ref node_id under_fallback = (\<lambda>(ts, w).
    if invoke = PRIMITIVE then
      (case bt_primitive ref node_id (te_observations te) of
         Inl e \<Rightarrow> (Inl e, (ts, w))
       | Inr batch \<Rightarrow> (Inr SUCCESS, (bt_note batch (''primitive.'' @ ref) under_fallback ts, w)))
    else
      (case dict_get (te_tiers te) ref of
         None \<Rightarrow> (Inr FAILURE, (ts, w))
       | Some decide \<Rightarrow>
           (case decide (te_observations te) ((te_context te)\<lparr>ctx_upstream := Some (ts_proposal ts)\<rparr>) w of
              (Inl _, w') \<Rightarrow> (Inr FAILURE, (bt_note (ts_proposal ts) ref True ts, w'))
            | (Inr batch, w') \<Rightarrow> (Inr SUCCESS, (bt_note batch ref under_fallback ts, w')))))"

definition eval_condition :: "ConditionKind \<Rightarrow> (tick_state \<times> 'w, fault, NodeStatus) st" where
  "eval_condition check = sread (\<lambda>(ts, w). case check of
     FRESH_UPSTREAM \<Rightarrow> if ts_proposal ts \<noteq> [] then SUCCESS else FAILURE)"

definition decorate :: "DecoratorKind \<Rightarrow> NodeStatus \<Rightarrow> NodeStatus" where
  "decorate kind status =
    (if status = RUNNING then status
     else let succeeded = (status = SUCCESS);
              succeeded = (case kind of INVERTER \<Rightarrow> \<not> succeeded | FORCE_SUCCESS \<Rightarrow> True
                | FORCE_FAILURE \<Rightarrow> False)
          in if succeeded then SUCCESS else FAILURE)"

fun eval_node :: "'w tick_env \<Rightarrow> bt_node \<Rightarrow> bool \<Rightarrow> (tick_state \<times> 'w, fault, NodeStatus) st"
  and eval_sequence :: "'w tick_env \<Rightarrow> bt_node list \<Rightarrow> bool \<Rightarrow> (tick_state \<times> 'w, fault, NodeStatus) st"
  and eval_fallback :: "'w tick_env \<Rightarrow> bt_node list \<Rightarrow> bool \<Rightarrow> (tick_state \<times> 'w, fault, NodeStatus) st"
where
  "eval_node te (ControlNode kind children i) fb =
    (if kind = SEQUENCE then eval_sequence te children fb else eval_fallback te children fb)"
| "eval_node te (DecoratorNode kind child i) fb =
    sbind (eval_node te child fb) (\<lambda>status. sret (decorate kind status))"
| "eval_node te (ActionNode invoke ref node_id p) fb = eval_action te invoke ref node_id fb"
| "eval_node te (ConditionNode check node_id p) fb = eval_condition check"
| "eval_sequence te [] fb = sret SUCCESS"
| "eval_sequence te (c # cs) fb =
    sbind (eval_node te c fb) (\<lambda>status. if status \<noteq> SUCCESS then sret status else eval_sequence te cs fb)"
| "eval_fallback te [] fb = sret FAILURE"
| "eval_fallback te (c # cs) fb =
    sbind (eval_node te c fb) (\<lambda>status. if status \<noteq> FAILURE then sret status else eval_fallback te cs True)"

definition bt_start :: "decision_context \<Rightarrow> tick_state" where
  "bt_start ctx = \<lparr>ts_proposal = (case ctx_upstream ctx of None \<Rightarrow> [] | Some b \<Rightarrow> b), ts_records = []\<rparr>"

definition bt_tick :: "'w bt_engine \<Rightarrow> observations \<Rightarrow> decision_context
    \<Rightarrow> ('w, fault, action_batch \<times> tier_record list) st" where
  "bt_tick eng obs ctx w =
    (case eval_node \<lparr>te_tiers = engine_tiers eng, te_observations = obs, te_context = ctx\<rparr>
        (tree_root (engine_tree eng)) False (bt_start ctx, w) of
       (Inl e, (ts, w')) \<Rightarrow> (Inl e, w')
     | (Inr status, (ts, w')) \<Rightarrow> (Inr (ts_proposal ts, ts_records ts), w'))"

section \<open>Leaves and faults\<close>

fun primitive_leaves :: "bt_node \<Rightarrow> (string \<times> string) list" where
  "primitive_leaves (ControlNode k cs i) = concat (map primitive_leaves cs)"
| "primitive_leaves (DecoratorNode k c i) = primitive_leaves c"
| "primitive_leaves (ActionNode k r i p) = (if k = PRIMITIVE then [(i, r)] else [])"
| "primitive_leaves (ConditionNode k i p) = []"

definition emits_fault :: "(string \<times> string) list \<Rightarrow> fault \<Rightarrow> bool" where
  "emits_fault leaves e = (\<exists>i r. e = PrimitiveError i r \<and> (i, r) \<in> set leaves \<and> r \<noteq> ''standby'')"

lemma emits_fault_mono: "emits_fault xs e \<Longrightarrow> set xs \<subseteq> set ys \<Longrightarrow> emits_fault ys e"
  by (auto simp: emits_fault_def)

lemma decorate_settles: "status \<noteq> RUNNING \<Longrightarrow> decorate k status \<noteq> RUNNING"
  by (simp add: decorate_def Let_def)

lemma eval_action_cases:
  "(\<exists>status u. eval_action te k r i fb s = (Inr status, u) \<and> status \<noteq> RUNNING)
   \<or> (\<exists>u. eval_action te k r i fb s = (Inl (PrimitiveError i r), u) \<and> k = PRIMITIVE \<and> r \<noteq> ''standby'')"
  by (cases s) (auto simp: eval_action_def bt_primitive_def split: option.splits prod.splits sum.splits)

text \<open>An evaluation settles to success or failure, or it raises for a primitive leaf of the tree.\<close>

definition settles :: "(string \<times> string) list \<Rightarrow> (fault + NodeStatus) \<times> 's \<Rightarrow> bool" where
  "settles leaves r = (case fst r of Inl e \<Rightarrow> emits_fault leaves e | Inr status \<Rightarrow> status \<noteq> RUNNING)"

lemma settles_mono: "settles xs r \<Longrightarrow> set xs \<subseteq> set ys \<Longrightarrow> settles ys r"
  by (auto simp: settles_def intro: emits_fault_mono split: sum.splits)

lemma settles_sret [simp]: "settles xs (sret status s) = (status \<noteq> RUNNING)"
  by (simp add: settles_def st_defs)

lemma settles_sbind:
  assumes "settles xs (m s)" "\<And>status u. status \<noteq> RUNNING \<Longrightarrow> settles xs (f status u)"
  shows "settles xs (sbind m f s)"
proof (cases "m s")
  case (Pair r u)
  show ?thesis
  proof (cases r)
    case (Inl e)
    with Pair assms(1) show ?thesis by (simp add: settles_def sbind_def)
  next
    case (Inr status)
    with Pair assms(1) have "status \<noteq> RUNNING" by (simp add: settles_def)
    with Pair Inr assms(2) show ?thesis by (simp add: sbind_def)
  qed
qed

lemma eval_settles:
  "settles (primitive_leaves n) (eval_node te n fb s)"
  "settles (concat (map primitive_leaves cs)) (eval_sequence te cs fb s)"
  "settles (concat (map primitive_leaves cs)) (eval_fallback te cs fb s)"
proof (induction te n fb and te cs fb and te cs fb arbitrary: s and s and s
    rule: eval_node_eval_sequence_eval_fallback.induct)
  case (3 te invoke ref node_id p fb)
  then show ?case
    using eval_action_cases [of te invoke ref node_id fb s]
    by (auto simp: settles_def emits_fault_def)
next
  case (4 te check node_id p fb)
  then show ?case
    by (cases check) (auto simp: eval_condition_def settles_def st_defs split: prod.splits)
next
  case (6 te c cs fb)
  show ?case
    unfolding eval_sequence.simps
  proof (rule settles_sbind)
    show "settles (concat (map primitive_leaves (c # cs))) (eval_node te c fb s)"
      by (rule settles_mono [OF "6.IH"(1)]) simp
    show "settles (concat (map primitive_leaves (c # cs)))
        ((if status \<noteq> SUCCESS then sret status else eval_sequence te cs fb) u)" if "status \<noteq> RUNNING" for status u
      using that by (auto intro: settles_mono [OF "6.IH"(2)])
  qed
next
  case (8 te c cs fb)
  show ?case
    unfolding eval_fallback.simps
  proof (rule settles_sbind)
    show "settles (concat (map primitive_leaves (c # cs))) (eval_node te c fb s)"
      by (rule settles_mono [OF "8.IH"(1)]) simp
    show "settles (concat (map primitive_leaves (c # cs)))
        ((if status \<noteq> FAILURE then sret status else eval_fallback te cs True) u)" if "status \<noteq> RUNNING" for status u
      using that by (auto intro: settles_mono [OF "8.IH"(2)])
  qed
qed (auto intro: settles_sbind simp: decorate_settles)

text \<open>
  What a tick can raise. A tick returns unless a primitive leaf of the tree names an action the
  engine cannot emit: no policy that raises makes the tick raise, and the only exception is the
  \<^verbatim>\<open>PrimitiveError\<close> of such a leaf. That one is not contained: as the first branch of a
  fallback it escapes the tick, whatever degradation branches follow it.
\<close>

theorem bt_tick_faults:
  "(case fst (bt_tick eng obs ctx w) of
      Inr r \<Rightarrow> True
    | Inl e \<Rightarrow> \<exists>i r. e = PrimitiveError i r \<and> r \<noteq> ''standby''
        \<and> (i, r) \<in> set (primitive_leaves (tree_root (engine_tree eng))))
   \<and> fst (bt_tick (eng\<lparr>engine_tree := \<lparr>tree_id = ''t'', tree_root = ControlNode FALLBACK
        (ActionNode PRIMITIVE ''hover'' i p # branches) None, format_version = ''4''\<rparr>\<rparr>) obs ctx w)
      = Inl (PrimitiveError i ''hover'')"
proof -
  have "settles (primitive_leaves (tree_root (engine_tree eng)))
      (eval_node \<lparr>te_tiers = engine_tiers eng, te_observations = obs, te_context = ctx\<rparr>
        (tree_root (engine_tree eng)) False (bt_start ctx, w))"
    by (rule eval_settles(1))
  then show ?thesis
    by (auto simp: bt_tick_def settles_def emits_fault_def eval_action_def bt_primitive_def sbind_def
        split: prod.splits sum.splits)
qed

section \<open>The degradation branch\<close>

lemma eval_fallback_append:
  "eval_fallback te (xs @ ys) fb s =
    sbind (eval_fallback te xs fb) (\<lambda>status. if status \<noteq> FAILURE then sret status
      else eval_fallback te ys (fb \<or> xs \<noteq> [])) s"
  by (induction xs arbitrary: fb s) (auto simp: sbind_def st_defs split: prod.splits sum.splits)

lemma eval_fallback_one:
  "eval_fallback te [c] fb s = eval_node te c fb s"
  by (cases "eval_node te c fb s") (auto simp: sbind_def st_defs split: sum.splits)

lemma primitive_leaves_append:
  "concat (map primitive_leaves (xs @ ys)) = concat (map primitive_leaves xs) @ concat (map primitive_leaves ys)"
  by simp

text \<open>
  The degradation branch is reached exactly when it is needed. A fallback that ends in the
  \<^verbatim>\<open>standby\<close> primitive, over branches whose primitives are all known, always returns and
  succeeds: either an earlier branch succeeded, and the tick is that branch's, or every earlier branch failed and the
  proposal is one standby action for each observed agent, in agent order, recorded as a fallback.
\<close>

theorem fallback_degrades_to_standby:
  assumes "\<forall>(i, r) \<in> set (concat (map primitive_leaves branches)). r = ''standby''"
    and "branches \<noteq> []"
    and "tree_root (engine_tree eng) = ControlNode FALLBACK
      (branches @ [ActionNode PRIMITIVE ''standby'' i p]) name"
  shows "case eval_fallback \<lparr>te_tiers = engine_tiers eng, te_observations = obs, te_context = ctx\<rparr>
        branches False (bt_start ctx, w) of
      (Inr SUCCESS, (ts, w')) \<Rightarrow> bt_tick eng obs ctx w = (Inr (ts_proposal ts, ts_records ts), w')
    | (Inr FAILURE, (ts, w')) \<Rightarrow> bt_tick eng obs ctx w =
        (Inr (map standby_action (sort (dict_keys obs)),
           ts_records ts @ [bt_record ''primitive.standby'' True]), w')
    | _ \<Rightarrow> False"
proof -
  let ?te = "\<lparr>te_tiers = engine_tiers eng, te_observations = obs, te_context = ctx\<rparr>"
  have "settles (concat (map primitive_leaves branches)) (eval_fallback ?te branches False (bt_start ctx, w))"
    by (rule eval_settles(3))
  then have "settles [] (eval_fallback ?te branches False (bt_start ctx, w))"
    using assms(1) by (auto simp: settles_def emits_fault_def split: sum.splits)
  then obtain status ts w' where run: "eval_fallback ?te branches False (bt_start ctx, w) = (Inr status, (ts, w'))"
    and "status \<noteq> RUNNING"
    by (cases "eval_fallback ?te branches False (bt_start ctx, w)")
      (auto simp: settles_def emits_fault_def split: sum.splits)
  then show ?thesis
    using assms(2)
    by (cases status)
      (simp_all add: bt_tick_def assms(3) eval_fallback_append sbind_def run eval_action_def
        bt_primitive_def bt_note_def st_defs)
qed

section \<open>Only the tiers the tree names\<close>

lemma eval_action_tiers:
  assumes "k \<noteq> PRIMITIVE \<Longrightarrow> dict_get (te_tiers te) r = dict_get (te_tiers te') r"
    and "te_observations te' = te_observations te" "te_context te' = te_context te"
  shows "eval_action te' k r i fb = eval_action te k r i fb"
  using assms by (auto simp: eval_action_def fun_eq_iff split: option.splits)

lemma sbind_ext: "(\<And>s. m s = m' s) \<Longrightarrow> (\<And>x s. f x s = f' x s) \<Longrightarrow> sbind m f = sbind m' f'"
proof -
  assume "\<And>s. m s = m' s" "\<And>x s. f x s = f' x s"
  then have "m = m'" "f = f'" by (auto intro!: ext)
  then show ?thesis by simp
qed

lemma eval_tiers:
  assumes "te_observations te' = te_observations te" "te_context te' = te_context te"
  shows "\<forall>r \<in> iter_tier_refs n. dict_get (te_tiers te) r = dict_get (te_tiers te') r \<Longrightarrow>
      eval_node te' n fb = eval_node te n fb"
    and "\<forall>c \<in> set cs. \<forall>r \<in> iter_tier_refs c. dict_get (te_tiers te) r = dict_get (te_tiers te') r \<Longrightarrow>
      eval_sequence te' cs fb = eval_sequence te cs fb"
    and "\<forall>c \<in> set cs. \<forall>r \<in> iter_tier_refs c. dict_get (te_tiers te) r = dict_get (te_tiers te') r \<Longrightarrow>
      eval_fallback te' cs fb = eval_fallback te cs fb"
  using assms
proof (induction te n fb and te cs fb and te cs fb rule: eval_node_eval_sequence_eval_fallback.induct)
  case (3 te invoke ref node_id p fb)
  then show ?case by (auto intro!: eval_action_tiers split: if_splits)
qed (auto intro!: sbind_ext)

section \<open>A tick\<close>

definition demo_engine :: "unit bt_engine" where
  "demo_engine = \<lparr>engine_tree = demo_tree,
     engine_tiers = [(''mission'', \<lambda>obs ctx. sraise (PluginFault ''solver'')), (''control'', \<lambda>obs ctx. sret [])]\<rparr>"

definition demo_observation :: observation where
  "demo_observation = \<lparr>obs_tick = 0, obs_time = 0, obs_observable = True, obs_state = at_rest, obs_sensors = [],
     obs_comms = None, obs_other = JNull\<rparr>"

definition demo_context :: decision_context where
  "demo_context = \<lparr>ctx_time = 0, ctx_objective = None, ctx_upstream = None, ctx_seed = Some 7, ctx_extras = []\<rparr>"

theorem fallback_degrades_to_standby_witness:
  "bt_tick demo_engine [(''r2'', demo_observation), (''r1'', demo_observation)] demo_context () =
    (Inr ([standby_action ''r1'', standby_action ''r2''],
      [bt_record ''mission'' True, bt_record ''primitive.standby'' True]), ())"
proof -
  let ?branches = "[ControlNode SEQUENCE
       [ActionNode PLANNER ''mission'' ''plan'' [], ConditionNode FRESH_UPSTREAM ''fresh'' [],
        ActionNode POLICY_INVOKE ''control'' ''act'' [(''gain'', ''2'')]] None]"
  have "tree_root (engine_tree demo_engine) = ControlNode FALLBACK
      (?branches @ [ActionNode PRIMITIVE ''standby'' ''hold'' []]) (Some '''')"
    by (simp add: demo_engine_def demo_tree_def)
  moreover have "\<forall>(i, r) \<in> set (concat (map primitive_leaves ?branches)). r = ''standby''" by simp
  moreover have "sort (dict_keys [(''r2'', demo_observation), (''r1'', demo_observation)]) = [''r1'', ''r2'']"
    by code_simp
  ultimately show ?thesis
    using fallback_degrades_to_standby [of "?branches" demo_engine "''hold''" "[]" "Some ''''"
        "[(''r2'', demo_observation), (''r1'', demo_observation)]" demo_context "()"]
    by (simp add: sbind_def eval_action_def bt_note_def bt_start_def st_defs demo_engine_def demo_context_def)
qed

end
