(* ===== verification/Mind_Executive.thy ===== *)
theory Mind_Executive
  imports Mind_Strategy BT_Engine
begin

text \<open>
  The executive (\<^verbatim>\<open>mind/exec/executive.py\<close>, \<^verbatim>\<open>_tick.py\<close>), the shield egress
  (\<^verbatim>\<open>mind/guardrail/shield.py\<close>), the composed graph (\<^verbatim>\<open>mind/compose/graph.py\<close>) and the
  stack as a policy (\<^verbatim>\<open>mind/exec/policy.py\<close>). The environment is code outside the stack: its
  \<^verbatim>\<open>reset\<close> and \<^verbatim>\<open>step\<close> read and change the world and may raise.
\<close>

section \<open>The composed graph\<close>

record shield_report =
  report_intervened :: bool
  report_kind :: "string option"
  report_clauses :: "string list"
  report_certificate :: "string option"

text \<open>\<^verbatim>\<open>shield_reports\<close> is \<^verbatim>\<open>None\<close> for a shield that is no \<^verbatim>\<open>ReportingShield\<close>.\<close>

record 'w shield_node =
  shield_plugin :: string
  shield_policy :: "'w policy"
  shield_reports :: "('w \<Rightarrow> shield_report option) option"

record 'w hierarchy_graph =
  graph_stack :: string
  graph_tiers :: "'w tier_node list"
  graph_shield :: "'w shield_node"
  graph_execution :: ExecutionKind
  graph_coordination :: CoordinationKind
  graph_provenance :: decision_provenance
  graph_tree :: "behavior_tree option"

definition graph_tier :: "'w hierarchy_graph \<Rightarrow> TierRole \<Rightarrow> 'w tier_node option" where
  "graph_tier g role = List.find (\<lambda>n. node_role n = role) (graph_tiers g)"

section \<open>Strategies\<close>

datatype 'w strategy =
    CompositionStrategy strategy_state
  | DecentralizedStrategy strategy_state
  | BehaviorTreeStrategy "'w bt_engine"

definition bt_engine_of :: "behavior_tree \<Rightarrow> 'w tier_node list \<Rightarrow> 'w bt_engine" where
  "bt_engine_of tree tiers = \<lparr>engine_tree = tree,
     engine_tiers = fold (\<lambda>n d. dict_set d (role_value (node_role n)) (node_policy n)) tiers []\<rparr>"

definition build_strategy :: "'w hierarchy_graph \<Rightarrow> fault + 'w strategy" where
  "build_strategy g =
    (if graph_execution g = BEHAVIOR_TREE then
       (case graph_tree g of
          None \<Rightarrow> Inl NoBehaviorTreeCarried
        | Some tree \<Rightarrow> Inr (BehaviorTreeStrategy (bt_engine_of tree (graph_tiers g))))
     else if graph_coordination g \<in> {DECENTRALIZED, HYBRID}
       then Inr (DecentralizedStrategy (strategy_init (graph_tiers g)))
     else Inr (CompositionStrategy (strategy_init (graph_tiers g))))"

definition with_state :: "('s \<Rightarrow> 'w strategy) \<Rightarrow> ('e + 'a) \<times> 's \<times> 'w \<Rightarrow> ('e + 'a) \<times> 'w strategy \<times> 'w" where
  "with_state f = (\<lambda>(r, s, w). (r, f s, w))"

definition strategy_decide :: "'w hierarchy_graph \<Rightarrow> observations \<Rightarrow> decision_context \<Rightarrow> int \<Rightarrow> rat
    \<Rightarrow> ('w strategy \<times> 'w, fault, action_batch \<times> tier_record list) st" where
  "strategy_decide g obs ctx tick now = (\<lambda>(strat, w). case strat of
     CompositionStrategy s \<Rightarrow> with_state CompositionStrategy (composition_decide (graph_tiers g) obs ctx tick now (s, w))
   | DecentralizedStrategy s \<Rightarrow>
       with_state DecentralizedStrategy (decentralized_decide (graph_tiers g) obs ctx tick now (s, w))
   | BehaviorTreeStrategy eng \<Rightarrow> (case bt_tick eng obs ctx w of (r, w') \<Rightarrow> (r, (strat, w'))))"

section \<open>The shield and the tick\<close>

definition shield_egress :: "'w shield_node \<Rightarrow> observations \<Rightarrow> decision_context \<Rightarrow> action_batch
    \<Rightarrow> ('w, fault, action_batch \<times> shield_record) st" where
  "shield_egress sh obs ctx proposed =
    sbind (shield_policy sh obs (ctx\<lparr>ctx_upstream := Some proposed\<rparr>)) (\<lambda>emitted w.
      (Inr (emitted,
        (case (case shield_reports sh of None \<Rightarrow> None | Some report \<Rightarrow> report w) of
           Some r \<Rightarrow> \<lparr>sh_plugin = shield_plugin sh, sh_intervened = report_intervened r,
             sh_kind = report_kind r, sh_clauses = report_clauses r, sh_certificate = report_certificate r\<rparr>
         | None \<Rightarrow> \<lparr>sh_plugin = shield_plugin sh, sh_intervened = (emitted \<noteq> proposed), sh_kind = None,
             sh_clauses = [], sh_certificate = None\<rparr>)), w))"

definition on_world :: "('w, 'e, 'a) st \<Rightarrow> ('x \<times> 'w, 'e, 'a) st" where
  "on_world m = (\<lambda>(x, w). case m w of (r, w') \<Rightarrow> (r, (x, w')))"

definition decide_tick :: "'w hierarchy_graph \<Rightarrow> observations \<Rightarrow> int \<Rightarrow> rat \<Rightarrow> int option \<Rightarrow> json option
    \<Rightarrow> ('w strategy \<times> 'w, fault, action_batch \<times> tick_record) st" where
  "decide_tick g obs tick now seed objective =
    (let belief = assemble_belief obs tick now;
         ctx = \<lparr>ctx_time = now, ctx_objective = objective, ctx_upstream = None, ctx_seed = seed,
           ctx_extras = [(BELIEF_EXTRAS_KEY, BeliefExtra belief)]\<rparr> in
     sbind (strategy_decide g obs ctx tick now) (\<lambda>(proposed, tier_records).
     sbind (on_world (shield_egress (graph_shield g) obs ctx proposed)) (\<lambda>(emitted, sr).
     sret (emitted, \<lparr>tr_tick = tick, tr_time = now, tr_seed = seed, tr_tiers = tier_records, tr_shield = sr,
       tr_batch = emitted, tr_comms_denied = comms_denied belief\<rparr>))))"

section \<open>The executive\<close>

record step_result =
  res_observations :: observations
  res_time :: rat
  res_terminations :: "(agent_id, bool) dict"
  res_truncations :: "(agent_id, bool) dict"

record 'w environment =
  env_reset :: "int option \<Rightarrow> json option \<Rightarrow> ('w, fault, observations) st"
  env_step :: "action_batch \<Rightarrow> ('w, fault, step_result) st"

record run_result =
  run_trace :: decision_trace
  run_final :: observations
  run_ticks :: nat
  run_terminated :: bool
  run_truncated :: bool

definition all_flagged :: "(agent_id, bool) dict \<Rightarrow> agent_id list \<Rightarrow> bool" where
  "all_flagged flags agents = list_all (\<lambda>a. get_default flags a False) agents"

text \<open>The loop of \<^verbatim>\<open>run\<close>; the first argument counts the ticks \<^verbatim>\<open>range(max_ticks)\<close> has left.\<close>

fun run_loop :: "'w hierarchy_graph \<Rightarrow> 'w environment \<Rightarrow> int option \<Rightarrow> json option \<Rightarrow> nat \<Rightarrow> int \<Rightarrow> observations
    \<Rightarrow> rat \<Rightarrow> tick_record list
    \<Rightarrow> ('w strategy \<times> 'w, fault, tick_record list \<times> observations \<times> bool \<times> bool) st" where
  "run_loop g env seed objective 0 tick obs now records = sret (records, obs, False, False)"
| "run_loop g env seed objective (Suc k) tick obs now records =
    sbind (decide_tick g obs tick now seed objective) (\<lambda>(batch, record).
    sbind (on_world (env_step env batch)) (\<lambda>res.
      let obs' = res_observations res; records' = records @ [record]; active = dict_keys obs' in
      if active = [] then sret (records', obs', False, False)
      else if all_flagged (res_terminations res) active then sret (records', obs', True, False)
      else if all_flagged (res_truncations res) active then sret (records', obs', False, True)
      else run_loop g env seed objective k (tick + 1) obs' (res_time res) records'))"

definition executive_run :: "'w hierarchy_graph \<Rightarrow> 'w environment \<Rightarrow> int \<Rightarrow> int option \<Rightarrow> json option \<Rightarrow> json option
    \<Rightarrow> ('w, fault, run_result) st" where
  "executive_run g env max_ticks seed objective options =
    sbind (slift (build_strategy g)) (\<lambda>strategy.
    sbind (env_reset env seed options) (\<lambda>obs w.
      (case run_loop g env seed objective (nat max_ticks) 0 obs 0 [] (strategy, w) of
         (Inl e, (strat, w')) \<Rightarrow> (Inl e, w')
       | (Inr (records, final, terminated, truncated), (strat, w')) \<Rightarrow>
           (Inr \<lparr>run_trace = \<lparr>trace_stack = graph_stack g, trace_provenance = graph_provenance g, trace_ticks = records\<rparr>,
              run_final = final, run_ticks = length records, run_terminated = terminated,
              run_truncated = truncated\<rparr>, w'))))"

section \<open>The stack as a policy\<close>

record 'w stack_policy =
  sp_graph :: "'w hierarchy_graph"
  sp_seed :: "int option"
  sp_objective :: "json option"
  sp_records :: "tick_record list"
  sp_strategy :: "'w strategy"
  sp_last_tick :: "int option"

definition stack_policy_init :: "'w hierarchy_graph \<Rightarrow> int option \<Rightarrow> json option \<Rightarrow> fault + 'w stack_policy" where
  "stack_policy_init g seed objective = rbind (build_strategy g) (\<lambda>strat.
     Inr \<lparr>sp_graph = g, sp_seed = seed, sp_objective = objective, sp_records = [], sp_strategy = strat,
       sp_last_tick = None\<rparr>)"

definition stack_trace :: "'w stack_policy \<Rightarrow> decision_trace" where
  "stack_trace sp = \<lparr>trace_stack = graph_stack (sp_graph sp), trace_provenance = graph_provenance (sp_graph sp),
     trace_ticks = sp_records sp\<rparr>"

definition stack_reset :: "'w stack_policy \<Rightarrow> fault + 'w stack_policy" where
  "stack_reset sp = rbind (build_strategy (sp_graph sp)) (\<lambda>strat.
     Inr (sp\<lparr>sp_strategy := strat, sp_records := [], sp_last_tick := None\<rparr>))"

definition lowest_observation :: "observations \<Rightarrow> observation" where
  "lowest_observation obs = the (dict_get obs (list_min (dict_keys obs)))"

definition tick_index :: "observations \<Rightarrow> int" where
  "tick_index obs = obs_tick (lowest_observation obs)"

definition or_else :: "'a option \<Rightarrow> 'a option \<Rightarrow> 'a option" where
  "or_else x y = (case x of Some _ \<Rightarrow> x | None \<Rightarrow> y)"

definition rewinds :: "'w stack_policy \<Rightarrow> observations \<Rightarrow> bool" where
  "rewinds sp obs = (case sp_last_tick sp of None \<Rightarrow> False | Some t \<Rightarrow> tick_index obs \<le> t)"

definition stack_decide :: "observations \<Rightarrow> decision_context \<Rightarrow> ('w stack_policy \<times> 'w, fault, action_batch) st" where
  "stack_decide obs ctx = (\<lambda>(sp, w).
    if obs = [] then (Inr [], (sp, w))
    else
      (case (if rewinds sp obs then stack_reset sp else Inr sp) of
         Inl e \<Rightarrow> (Inl e, (sp, w))
       | Inr sp \<Rightarrow>
           let sp = sp\<lparr>sp_last_tick := Some (tick_index obs)\<rparr> in
           (case decide_tick (sp_graph sp) obs (tick_index obs) (obs_time (lowest_observation obs))
               (or_else (ctx_seed ctx) (sp_seed sp)) (or_else (ctx_objective ctx) (sp_objective sp))
               (sp_strategy sp, w) of
              (Inl e, (strat, w')) \<Rightarrow> (Inl e, (sp\<lparr>sp_strategy := strat\<rparr>, w'))
            | (Inr (emitted, record), (strat, w')) \<Rightarrow>
                (Inr emitted, (sp\<lparr>sp_strategy := strat, sp_records := sp_records sp @ [record]\<rparr>, w')))))"

section \<open>What the tiers can and cannot touch\<close>

text \<open>\<open>keeps I m\<close>: the call leaves the invariant of the world in place, returning or raising.\<close>

definition keeps :: "('s \<Rightarrow> bool) \<Rightarrow> ('s, 'e, 'a) st \<Rightarrow> bool" where
  "keeps I m = (\<forall>s. I s \<longrightarrow> I (snd (m s)))"

lemma keepsD: "keeps I m \<Longrightarrow> I s \<Longrightarrow> m s = (r, s') \<Longrightarrow> I s'"
  by (metis keeps_def snd_conv)

lemma keeps_sret [inv_intros]: "keeps I (sret x)"
  by (simp add: keeps_def st_defs)

lemma keeps_slift [inv_intros]: "keeps I (slift r)"
  by (simp add: keeps_def st_defs)

lemma keeps_sbind [inv_intros]: "keeps I m \<Longrightarrow> (\<And>x. keeps I (f x)) \<Longrightarrow> keeps I (sbind m f)"
  by (auto simp: keeps_def sbind_def split: prod.splits sum.splits)

text \<open>An invariant of the world beside the state of a component.\<close>

definition world_ok :: "('w \<Rightarrow> bool) \<Rightarrow> 'x \<times> 'w \<Rightarrow> bool" where
  "world_ok I xw = I (snd xw)"

lemma world_ok_pair [simp]: "world_ok I (x, w) = I w"
  by (simp add: world_ok_def)

lemma world_keepsD: "keeps (world_ok I) m \<Longrightarrow> I w \<Longrightarrow> m (x, w) = (r, (x', w')) \<Longrightarrow> I w'"
  by (metis keepsD world_ok_pair)

definition policy_keeps :: "('w \<Rightarrow> bool) \<Rightarrow> 'w policy \<Rightarrow> bool" where
  "policy_keeps I p = (\<forall>obs ctx. keeps I (p obs ctx))"

definition tiers_keep :: "('w \<Rightarrow> bool) \<Rightarrow> 'w tier_node list \<Rightarrow> bool" where
  "tiers_keep I tiers = (\<forall>n \<in> set tiers. policy_keeps I (node_policy n)
     \<and> (\<forall>f. node_fallback n = Some f \<longrightarrow> policy_keeps I f))"

lemma invoke_keeps:
  "tiers_keep I tiers \<Longrightarrow> n \<in> set tiers \<Longrightarrow> I w \<Longrightarrow> invoke_tier n ts obs ctx w = (r, w') \<Longrightarrow> I w'"
  by (fastforce simp: invoke_tier_def tiers_keep_def policy_keeps_def dest: keepsD
      split: prod.splits sum.splits option.splits)

lemma tier_step_keeps:
  "tiers_keep I tiers \<Longrightarrow> n \<in> set tiers \<Longrightarrow> keeps (world_ok I) (tier_step gate issued obs ctx tick now n up)"
  by (auto simp: keeps_def tier_step_def dest: invoke_keeps
      split: prod.splits sum.splits option.splits)

lemma run_tiers_keeps:
  "set ns \<subseteq> set tiers \<Longrightarrow> tiers_keep I tiers \<Longrightarrow>
    keeps (world_ok I) (run_tiers (tier_step gate issued obs ctx tick now) ns up)"
proof (induction ns arbitrary: up)
  case (Cons n ns)
  then show ?case
    by (auto intro!: inv_intros tier_step_keeps split: prod.splits)
qed (auto intro: inv_intros)

lemma composition_keeps: "tiers_keep I tiers \<Longrightarrow> keeps (world_ok I) (composition_decide tiers obs ctx tick now)"
  unfolding composition_decide_def by (rule run_tiers_keeps [OF subset_refl])

lemma decentralized_keeps: "tiers_keep I tiers \<Longrightarrow> keeps (world_ok I) (decentralized_decide tiers obs ctx tick now)"
  using run_tiers_keeps [of tiers tiers I, OF subset_refl]
  by (auto simp: keeps_def decentralized_decide_def Let_def split: prod.splits sum.splits; metis snd_conv world_ok_pair)

lemma eval_action_keeps:
  assumes "\<And>r p. dict_get (te_tiers te) r = Some p \<Longrightarrow> policy_keeps I p"
  shows "keeps (world_ok I) (eval_action te k r i fb)"
  unfolding keeps_def
proof (intro allI impI)
  fix s :: "tick_state \<times> 'a"
  assume inv: "(world_ok I) s"
  obtain ts w where s: "s = (ts, w)" by force
  show "(world_ok I) (snd (eval_action te k r i fb s))"
  proof (cases "dict_get (te_tiers te) r")
    case None
    with inv s show ?thesis by (auto simp: eval_action_def split: sum.splits)
  next
    case (Some p)
    then have "policy_keeps I p" by (rule assms)
    with inv s Some show ?thesis
      by (auto simp: eval_action_def policy_keeps_def dest: keepsD split: sum.splits prod.splits)
  qed
qed

lemma eval_keeps:
  assumes "\<And>r p. dict_get (te_tiers te) r = Some p \<Longrightarrow> policy_keeps I p"
  shows "keeps (world_ok I) (eval_node te n fb)"
    and "keeps (world_ok I) (eval_sequence te cs fb)"
    and "keeps (world_ok I) (eval_fallback te cs fb)"
  using assms
proof (induction te n fb and te cs fb and te cs fb rule: eval_node_eval_sequence_eval_fallback.induct)
  case (3 te invoke ref node_id p fb)
  then show ?case by (auto intro: eval_action_keeps)
next
  case (4 te check node_id p fb)
  then show ?case by (auto simp: eval_condition_def keeps_def st_defs)
qed (auto intro!: inv_intros)

lemma bt_tick_keeps:
  assumes "\<And>r p. dict_get (engine_tiers eng) r = Some p \<Longrightarrow> policy_keeps I p"
  shows "keeps I (bt_tick eng obs ctx)"
proof -
  have "keeps (world_ok I) (eval_node \<lparr>te_tiers = engine_tiers eng, te_observations = obs, te_context = ctx\<rparr>
      (tree_root (engine_tree eng)) False)"
    by (rule eval_keeps) (simp add: assms)
  then show ?thesis
    by (auto simp: keeps_def bt_tick_def split: prod.splits sum.splits; metis snd_conv world_ok_pair)
qed

lemma fold_tiers_get:
  "dict_get (fold (\<lambda>n d. dict_set d (role_value (node_role n)) (node_policy n)) ns d) r = Some p \<Longrightarrow>
    dict_get d r = Some p \<or> (\<exists>n \<in> set ns. r = role_value (node_role n) \<and> p = node_policy n)"
  by (induction ns arbitrary: d) (force simp: update_conv' split: if_splits)+

lemma engine_tiers_get:
  "dict_get (engine_tiers (bt_engine_of tree tiers)) r = Some p \<Longrightarrow> \<exists>n \<in> set tiers. p = node_policy n"
  by (auto simp: bt_engine_of_def dest: fold_tiers_get)

text \<open>The strategies a graph builds, and no others, reach its ticks.\<close>

definition strategy_of :: "'w hierarchy_graph \<Rightarrow> 'w strategy \<Rightarrow> bool" where
  "strategy_of g strat = (case strat of BehaviorTreeStrategy eng \<Rightarrow>
     (\<exists>tree. graph_tree g = Some tree \<and> eng = bt_engine_of tree (graph_tiers g)) | _ \<Rightarrow> True)"

lemma build_strategy_of: "build_strategy g = Inr strat \<Longrightarrow> strategy_of g strat"
  by (auto simp: build_strategy_def strategy_of_def split: if_splits option.splits)

definition strategy_inv :: "'w hierarchy_graph \<Rightarrow> ('w \<Rightarrow> bool) \<Rightarrow> 'w strategy \<times> 'w \<Rightarrow> bool" where
  "strategy_inv g I sw = (strategy_of g (fst sw) \<and> I (snd sw))"

lemma strategy_inv_pair [simp]: "strategy_inv g I (strat, w) = (strategy_of g strat \<and> I w)"
  by (simp add: strategy_inv_def)

lemma strategy_decide_keeps:
  assumes "tiers_keep I (graph_tiers g)"
  shows "keeps (strategy_inv g I) (strategy_decide g obs ctx tick now)"
  unfolding keeps_def
proof (intro allI impI)
  fix sw :: "'a strategy \<times> 'a"
  assume inv: "(strategy_inv g I) sw"
  obtain strat w where sw: "sw = (strat, w)" by force
  show "(strategy_inv g I) (snd (strategy_decide g obs ctx tick now sw))"
  proof (cases strat)
    case (CompositionStrategy s)
    with inv sw composition_keeps [OF assms, of obs ctx tick now] show ?thesis
      by (auto simp: strategy_decide_def with_state_def strategy_of_def dest: world_keepsD split: prod.splits)
  next
    case (DecentralizedStrategy s)
    with inv sw decentralized_keeps [OF assms, of obs ctx tick now] show ?thesis
      by (auto simp: strategy_decide_def with_state_def strategy_of_def dest: world_keepsD split: prod.splits)
  next
    case (BehaviorTreeStrategy eng)
    with inv sw have "keeps I (bt_tick eng obs ctx)"
      using assms by (auto simp: strategy_of_def tiers_keep_def intro!: bt_tick_keeps dest: engine_tiers_get)
    with inv sw BehaviorTreeStrategy show ?thesis
      by (auto simp: strategy_decide_def strategy_of_def dest: keepsD split: prod.splits)
  qed
qed

lemma on_world_keeps: "keeps I m \<Longrightarrow> keeps (strategy_inv g I) (on_world m)"
  by (auto simp: keeps_def on_world_def split: prod.splits; metis snd_conv)

section \<open>The single egress\<close>

text \<open>
  \<open>certified g I safe\<close>: whatever it is given, a batch the shield returns in a world with the
  invariant is safe.
  \<open>contained g env I safe\<close>: the tiers, the fallbacks and the shield leave the invariant of the
  world alone, and the environment keeps it when it steps with a safe batch.
\<close>

definition certified :: "'w hierarchy_graph \<Rightarrow> ('w \<Rightarrow> bool) \<Rightarrow> (action_batch \<Rightarrow> bool) \<Rightarrow> bool" where
  "certified g I safe = (\<forall>obs ctx w b w'. I w \<longrightarrow> shield_policy (graph_shield g) obs ctx w = (Inr b, w') \<longrightarrow> safe b)"

definition contained :: "'w hierarchy_graph \<Rightarrow> 'w environment \<Rightarrow> ('w \<Rightarrow> bool) \<Rightarrow> (action_batch \<Rightarrow> bool) \<Rightarrow> bool" where
  "contained g env I safe = (tiers_keep I (graph_tiers g) \<and> policy_keeps I (shield_policy (graph_shield g))
     \<and> (\<forall>seed options. keeps I (env_reset env seed options)) \<and> (\<forall>b. safe b \<longrightarrow> keeps I (env_step env b)))"

lemma shield_egress_keeps: "policy_keeps I (shield_policy sh) \<Longrightarrow> keeps I (shield_egress sh obs ctx b)"
  by (auto simp: shield_egress_def policy_keeps_def intro!: keeps_sbind) (simp add: keeps_def)

lemma shield_egress_safe:
  "certified g I safe \<Longrightarrow> I w \<Longrightarrow> shield_egress (graph_shield g) obs ctx b w = (Inr (b', r), w') \<Longrightarrow> safe b'"
  unfolding shield_egress_def certified_def sbind_Inr by blast

lemma decide_tick_keeps:
  "tiers_keep I (graph_tiers g) \<Longrightarrow> policy_keeps I (shield_policy (graph_shield g)) \<Longrightarrow>
    keeps (strategy_inv g I) (decide_tick g obs tick now seed objective)"
  unfolding decide_tick_def Let_def
  by (auto intro!: keeps_sbind strategy_decide_keeps on_world_keeps shield_egress_keeps keeps_sret)

lemma decide_tick_record:
  assumes "decide_tick g obs tick now seed objective sw = (Inr (b, record), sw')" "certified g I safe"
    and "tiers_keep I (graph_tiers g)" "strategy_inv g I sw"
  shows "safe b \<and> tr_batch record = b \<and> tr_tick record = tick"
proof -
  have world: "on_world m x = (Inr y, z) \<Longrightarrow> m (snd x) = (Inr y, snd z)"
    for m :: "('a, fault, action_batch \<times> shield_record) st" and x y z
    by (cases x) (auto simp: on_world_def split: prod.splits)
  obtain ctx ctx0 proposed recs sr x where "strategy_decide g obs ctx0 tick now sw = (Inr (proposed, recs), x)"
    "on_world (shield_egress (graph_shield g) obs ctx proposed) x = (Inr (b, sr), sw')"
    and "tr_batch record = b" "tr_tick record = tick"
    using assms(1) unfolding decide_tick_def Let_def sbind_Inr
    by (auto simp: sbind_Inr st_defs)
  note parts = world [OF this(2)] this(1,3-)
  have "strategy_inv g I x"
    using strategy_decide_keeps [OF assms(3), of obs ctx0 tick now] parts(2) assms(4) by (metis keepsD)
  then have "I (snd x)" by (cases x) simp
  with parts shield_egress_safe [OF assms(2)] show ?thesis by blast
qed

lemma run_loop_safe:
  assumes "certified g I safe" "contained g env I safe"
    and "run_loop g env seed objective k tick obs now records sw = (r, sw')" "strategy_inv g I sw"
    and "\<forall>t \<in> set records. safe (tr_batch t)" "map tr_tick records = map int [0..<length records]"
    and "tick = int (length records)"
  shows "strategy_inv g I sw' \<and> (\<forall>records' final te tr. r = Inr (records', final, te, tr) \<longrightarrow>
    (\<forall>t \<in> set records'. safe (tr_batch t)) \<and> map tr_tick records' = map int [0..<length records']
    \<and> length records' \<le> length records + k)"
  using assms(3-)
proof (induction k arbitrary: tick obs now records sw)
  case (Suc k)
  note parts = assms(2) [unfolded contained_def]
  have step: "keeps (strategy_inv g I) (decide_tick g obs tick now seed objective)"
    using parts by (simp add: decide_tick_keeps)
  obtain d u where Pair: "decide_tick g obs tick now seed objective sw = (d, u)" by (meson surj_pair)
  with step Suc.prems(2) have u: "strategy_inv g I u" by (metis keepsD)
    show ?case
    proof (cases d)
      case (Inl e)
      with Pair Suc.prems(1) u show ?thesis by (auto simp: sbind_def)
    next
      case (Inr br)
      obtain b rc where br: "br = (b, rc)" by force
      have rec: "safe b" "tr_batch rc = b" "tr_tick rc = tick"
        using decide_tick_record [of g obs tick now seed objective sw b rc u I safe] Pair Inr br assms(1) parts(1) Suc.prems(2)
        by auto
      obtain e v where ev: "on_world (env_step env b) u = (e, v)" by (meson surj_pair)
      have v: "strategy_inv g I v"
        using on_world_keeps [of I "env_step env b" g] parts rec(1) u ev by (metis keepsD)
      let ?records = "records @ [rc]"
      have more: "\<forall>t \<in> set ?records. safe (tr_batch t)" "map tr_tick ?records = map int [0..<length ?records]"
        "tick + 1 = int (length ?records)"
        using Suc.prems rec by auto
      have run: "run_loop g env seed objective (Suc k) tick obs now records sw =
        (case e of Inl x \<Rightarrow> (Inl x, v) | Inr res \<Rightarrow>
          (let obs' = res_observations res; active = dict_keys obs' in
            if active = [] then sret (?records, obs', False, False)
            else if all_flagged (res_terminations res) active then sret (?records, obs', True, False)
            else if all_flagged (res_truncations res) active then sret (?records, obs', False, True)
            else run_loop g env seed objective k (tick + 1) obs' (res_time res) ?records) v)"
        using Pair Inr br ev by (simp add: sbind_def Let_def split: sum.splits)
      show ?thesis
      proof (cases e)
        case (Inl x)
        with run v Suc.prems(1) show ?thesis by auto
      next
        case (Inr res)
        show ?thesis
        proof (cases "dict_keys (res_observations res) = [] \<or>
            all_flagged (res_terminations res) (dict_keys (res_observations res)) \<or>
            all_flagged (res_truncations res) (dict_keys (res_observations res))")
          case True
          with run Inr Suc.prems(1) v more show ?thesis
            by (auto simp: Let_def sret_def split: if_splits)
        next
          case False
          with run Inr Suc.prems(1)
          have "run_loop g env seed objective k (tick + 1) (res_observations res) (res_time res) ?records v = (r, sw')"
            by (simp add: Let_def)
          from Suc.IH [OF this v more] show ?thesis by auto
        qed
      qed
    qed
qed (auto simp: st_defs)

lemma run_safe:
  assumes "certified g I safe" "contained g env I safe" "I w"
  shows "case executive_run g env max_ticks seed objective options w of (r, w') \<Rightarrow>
    I w' \<and> (case r of Inl e \<Rightarrow> True | Inr res \<Rightarrow>
      list_all (\<lambda>t. safe (tr_batch t)) (trace_ticks (run_trace res))
      \<and> map tr_tick (trace_ticks (run_trace res)) = map int [0..<run_ticks res]
      \<and> run_ticks res = length (trace_ticks (run_trace res)) \<and> run_ticks res \<le> nat max_ticks)"
proof (cases "build_strategy g")
  case (Inl e)
  then show ?thesis using assms(3) by (simp add: executive_run_def)
next
  case (Inr strat)
  obtain d u where reset: "env_reset env seed options w = (d, u)" by (meson surj_pair)
  have "I u" using assms(2,3) reset unfolding contained_def by (metis keepsD)
  show ?thesis
  proof (cases d)
    case (Inl e)
    with \<open>I u\<close> reset \<open>build_strategy g = _\<close> show ?thesis
      by (simp add: executive_run_def sbind_def slift_def)
  next
    case (Inr obs)
    obtain r strat' w' where loop:
      "run_loop g env seed objective (nat max_ticks) 0 obs 0 [] (strat, u) = (r, (strat', w'))"
      by (metis surj_pair)
    have "strategy_inv g I (strat, u)"
      using \<open>I u\<close> build_strategy_of [OF \<open>build_strategy g = _\<close>] by simp
    from run_loop_safe [OF assms(1,2) loop this] have
      "I w'" "\<And>records final te tr. r = Inr (records, final, te, tr) \<Longrightarrow>
        (\<forall>t \<in> set records. safe (tr_batch t)) \<and> map tr_tick records = map int [0..<length records]
        \<and> length records \<le> nat max_ticks"
      by auto
    with loop reset Inr \<open>build_strategy g = _\<close> show ?thesis
      by (auto simp: executive_run_def sbind_def slift_def list_all_iff split: sum.splits)
  qed
qed

text \<open>
  C5: The shield is the only egress. Take any invariant of the world that the environment keeps when it
  steps with a batch the shield certifies, and that no plugin can break by deciding (a plugin is never
  handed the environment). Then the whole run of the executive keeps it, whatever the tiers
  propose, return or raise, and whether the run ends or is cut off by an exception; every batch
  the trace records is certified, the ticks are numbered from zero, and there are at most
  \<^verbatim>\<open>max_ticks\<close> of them.
\<close>

theorem shield_is_the_only_egress:
  assumes "certified g I safe" "contained g env I safe" "I w"
  shows "case executive_run g env max_ticks seed objective options w of (r, w') \<Rightarrow>
    I w' \<and> (case r of Inl e \<Rightarrow> True | Inr res \<Rightarrow>
      list_all (\<lambda>t. safe (tr_batch t)) (trace_ticks (run_trace res))
      \<and> map tr_tick (trace_ticks (run_trace res)) = map int [0..<run_ticks res]
      \<and> run_ticks res = length (trace_ticks (run_trace res)) \<and> run_ticks res \<le> nat max_ticks)"
  using assms by (rule run_safe)

text \<open>A world that remembers the batches the environment was stepped with.\<close>

definition demo_shield :: "'w policy" where
  "demo_shield obs ctx w = (Inr (filter (\<lambda>a. a = standby_action (action_agent a)) (initial_upstream ctx)), w)"

definition demo_wild_tier :: "TierRole \<Rightarrow> 'w tier_node" where
  "demo_wild_tier role = \<lparr>node_role = role, node_plugin = ''wild'',
     node_policy = (\<lambda>obs ctx w. if ctx_time ctx = 1 then (Inl (PluginFault ''solver''), w)
       else (Inr [demo_prospect ''r1'' 1, standby_action ''r1''], w)),
     node_horizon = None, node_triggers = [], node_fallback = None, node_fallback_name = None,
     node_manifest = demo_manifest\<rparr>"

definition demo_graph :: "'w hierarchy_graph" where
  "demo_graph = \<lparr>graph_stack = ''stack'', graph_tiers = [demo_wild_tier MISSION, demo_wild_tier CONTROL],
     graph_shield = \<lparr>shield_plugin = ''filter'', shield_policy = demo_shield, shield_reports = None\<rparr>,
     graph_execution = COMPOSITION, graph_coordination = CENTRALIZED,
     graph_provenance = \<lparr>prov_plugins = [], prov_interfaces = [], prov_seed = None, prov_inputs = []\<rparr>,
     graph_tree = None\<rparr>"

definition demo_environment :: "action_batch list environment" where
  "demo_environment = \<lparr>env_reset = (\<lambda>seed options. sret [(''r1'', demo_observation)]),
     env_step = (\<lambda>b sent. (Inr \<lparr>res_observations = [(''r1'', demo_observation)], res_time = rat_of_nat (Suc (length sent)),
       res_terminations = [], res_truncations = []\<rparr>, sent @ [b]))\<rparr>"

definition demo_safe :: "action_batch \<Rightarrow> bool" where
  "demo_safe b = list_all (\<lambda>a. a = standby_action (action_agent a)) b"

lemma demo_wild_keeps: "policy_keeps I (node_policy (demo_wild_tier role))"
  by (simp add: policy_keeps_def keeps_def demo_wild_tier_def)

theorem shield_is_the_only_egress_witness:
  "case executive_run demo_graph demo_environment 3 (Some 1) None None [] of (r, sent) \<Rightarrow>
    list_all demo_safe sent \<and> (case r of Inl e \<Rightarrow> True | Inr res \<Rightarrow>
      list_all (\<lambda>t. demo_safe (tr_batch t)) (trace_ticks (run_trace res))
      \<and> map tr_tick (trace_ticks (run_trace res)) = map int [0..<run_ticks res]
      \<and> run_ticks res = length (trace_ticks (run_trace res)) \<and> run_ticks res \<le> nat 3)"
proof -
  have "certified (demo_graph :: action_batch list hierarchy_graph) (list_all demo_safe) demo_safe"
    by (auto simp: certified_def demo_graph_def demo_shield_def demo_safe_def list_all_iff)
  moreover have "contained demo_graph demo_environment (list_all demo_safe) demo_safe"
    by (simp add: contained_def tiers_keep_def demo_graph_def demo_wild_keeps)
      (simp add: policy_keeps_def keeps_def demo_shield_def demo_environment_def demo_wild_tier_def sret_def)
  ultimately show ?thesis
    using shield_is_the_only_egress [of demo_graph "list_all demo_safe" demo_safe demo_environment "[]" 3 "Some 1" None None]
    by simp
qed

section \<open>A composed stack does not collapse\<close>

definition standby_only :: "behavior_tree \<Rightarrow> bool" where
  "standby_only t = (\<forall>(i, r) \<in> set (primitive_leaves (tree_root t)). r = ''standby'')"

definition graph_ok :: "'w hierarchy_graph \<Rightarrow> bool" where
  "graph_ok g = ((\<forall>n \<in> set (graph_tiers g). node_consistent n)
     \<and> (graph_execution g = BEHAVIOR_TREE \<longrightarrow> (\<exists>t. graph_tree g = Some t \<and> standby_only t)))"

definition strat_ok :: "'w hierarchy_graph \<Rightarrow> 'w strategy \<Rightarrow> bool" where
  "strat_ok g strat = (case strat of
     CompositionStrategy s \<Rightarrow> strategy_ok (graph_tiers g) s
   | DecentralizedStrategy s \<Rightarrow> strategy_ok (graph_tiers g) s
   | BehaviorTreeStrategy eng \<Rightarrow> standby_only (engine_tree eng))"

lemma build_strategy_ok:
  assumes "graph_ok g" obtains strat where "build_strategy g = Inr strat" "strat_ok g strat"
proof -
  from assms have "strategy_ok (graph_tiers g) (strategy_init (graph_tiers g))"
    by (simp add: graph_ok_def strategy_init_ok)
  with assms show ?thesis
    using that by (cases "graph_execution g"; cases "graph_coordination g";
        auto simp: build_strategy_def strat_ok_def graph_ok_def bt_engine_of_def)
qed

lemma decentralized_total:
  assumes "strategy_ok tiers s"
  obtains x s' w' where "decentralized_decide tiers obs ctx tick now (s, w) = (Inr x, (s', w'))" "strategy_ok tiers s'"
proof -
  let ?d = "extras_comms_denied ctx"
  obtain up rs s' w' where run: "run_tiers (tier_step (decide_tier ?d (st_was_denied s \<and> \<not> ?d) (?d \<and> \<not> st_was_denied s) tick now)
      (issue_contingent now ?d) obs ctx tick now) tiers (initial_upstream ctx) (s, w) = (Inr (up, rs), (s', w'))"
    and ok: "strategy_ok tiers s'"
    using decentralized.run_ok [OF assms subset_refl] by metis
  have "strategy_ok tiers (s'\<lparr>st_was_denied := ?d\<rparr>)" using ok by (simp add: strategy_ok_def)
  with run show ?thesis using that by (simp add: decentralized_decide_def Let_def)
qed

lemma composition_total:
  assumes "strategy_ok tiers s"
  obtains x s' w' where "composition_decide tiers obs ctx tick now (s, w) = (Inr x, (s', w'))" "strategy_ok tiers s'"
  using composition.run_ok [OF assms subset_refl] unfolding composition_decide_def by metis

lemma bt_tick_total:
  assumes "standby_only (engine_tree eng)"
  obtains x w' where "bt_tick eng obs ctx w = (Inr x, w')"
proof -
  have "settles (primitive_leaves (tree_root (engine_tree eng)))
      (eval_node \<lparr>te_tiers = engine_tiers eng, te_observations = obs, te_context = ctx\<rparr>
        (tree_root (engine_tree eng)) False (bt_start ctx, w))"
    by (rule eval_settles(1))
  with assms obtain status ts w' where
    "eval_node \<lparr>te_tiers = engine_tiers eng, te_observations = obs, te_context = ctx\<rparr>
      (tree_root (engine_tree eng)) False (bt_start ctx, w) = (Inr status, (ts, w'))"
    by (cases "eval_node \<lparr>te_tiers = engine_tiers eng, te_observations = obs, te_context = ctx\<rparr>
        (tree_root (engine_tree eng)) False (bt_start ctx, w)")
      (auto simp: settles_def emits_fault_def standby_only_def split: sum.splits)
  then show ?thesis using that by (simp add: bt_tick_def)
qed

lemma strategy_decide_total:
  assumes "strat_ok g strat"
  obtains x strat' w' where "strategy_decide g obs ctx tick now (strat, w) = (Inr x, (strat', w'))" "strat_ok g strat'"
proof (cases strat)
  case (CompositionStrategy s)
  with assms have "strategy_ok (graph_tiers g) s" by (simp add: strat_ok_def)
  from composition_total [OF this] obtain x s' w' where
    "composition_decide (graph_tiers g) obs ctx tick now (s, w) = (Inr x, (s', w'))" "strategy_ok (graph_tiers g) s'"
    by metis
  with CompositionStrategy show ?thesis
    using that by (simp add: strategy_decide_def with_state_def strat_ok_def)
next
  case (DecentralizedStrategy s)
  with assms have "strategy_ok (graph_tiers g) s" by (simp add: strat_ok_def)
  from decentralized_total [OF this] obtain x s' w' where
    "decentralized_decide (graph_tiers g) obs ctx tick now (s, w) = (Inr x, (s', w'))" "strategy_ok (graph_tiers g) s'"
    by metis
  with DecentralizedStrategy show ?thesis
    using that by (simp add: strategy_decide_def with_state_def strat_ok_def)
next
  case (BehaviorTreeStrategy eng)
  with assms have "standby_only (engine_tree eng)" by (simp add: strat_ok_def)
  from bt_tick_total [OF this] obtain x w' where "bt_tick eng obs ctx w = (Inr x, w')" by metis
  with BehaviorTreeStrategy assms show ?thesis using that by (simp add: strategy_decide_def)
qed

text \<open>A call that always returns.\<close>

definition answers :: "('s, 'e, 'a) st \<Rightarrow> bool" where
  "answers m = (\<forall>s. \<exists>x s'. m s = (Inr x, s'))"

definition shield_answers :: "'w hierarchy_graph \<Rightarrow> bool" where
  "shield_answers g = (\<forall>obs ctx. answers (shield_policy (graph_shield g) obs ctx))"

definition env_answers :: "'w environment \<Rightarrow> bool" where
  "env_answers env = ((\<forall>seed options. answers (env_reset env seed options)) \<and> (\<forall>b. answers (env_step env b)))"

lemma on_world_answers: "answers m \<Longrightarrow> \<exists>r w'. on_world m (x, w) = (Inr r, (x, w'))"
  unfolding answers_def on_world_def by (metis (mono_tags, lifting) case_prod_conv)

lemma shield_egress_answers:
  assumes "shield_answers g"
  shows "answers (shield_egress (graph_shield g) obs ctx b)"
  unfolding answers_def
proof
  fix w
  obtain x w' where "shield_policy (graph_shield g) obs (ctx\<lparr>ctx_upstream := Some b\<rparr>) w = (Inr x, w')"
    using assms unfolding shield_answers_def answers_def by blast
  then show "\<exists>y w'. shield_egress (graph_shield g) obs ctx b w = (Inr y, w')"
    by (simp add: shield_egress_def sbind_def)
qed

lemma decide_tick_total:
  assumes "strat_ok g strat" "shield_answers g"
  obtains b rc strat' w' where
    "decide_tick g obs tick now seed objective (strat, w) = (Inr (b, rc), (strat', w'))" "strat_ok g strat'"
proof -
  define ctx where "ctx = \<lparr>ctx_time = now, ctx_objective = objective, ctx_upstream = None, ctx_seed = seed,
      ctx_extras = [(BELIEF_EXTRAS_KEY, BeliefExtra (assemble_belief obs tick now))]\<rparr>"
  obtain proposed rs strat' w1 where
    1: "strategy_decide g obs ctx tick now (strat, w) = (Inr (proposed, rs), (strat', w1))" "strat_ok g strat'"
    using strategy_decide_total [OF assms(1)] by (metis surj_pair)
  obtain r w2 where 2: "on_world (shield_egress (graph_shield g) obs ctx proposed) (strat', w1) = (Inr r, (strat', w2))"
    using on_world_answers [OF shield_egress_answers [OF assms(2)]] by metis
  show ?thesis
    using that [of "fst r" _ strat' w2] 1 2
    by (cases r) (simp add: decide_tick_def Let_def ctx_def [symmetric] sbind_def st_defs)
qed

lemma run_loop_total:
  assumes "strat_ok g strat" "shield_answers g" "env_answers env"
  shows "\<exists>records' final te tr strat' w'.
    run_loop g env seed objective k tick obs now records (strat, w) = (Inr (records', final, te, tr), (strat', w'))
    \<and> (0 < k \<longrightarrow> length records < length records')
    \<and> (\<not> te \<and> \<not> tr \<and> (k = 0 \<or> final \<noteq> []) \<longrightarrow> length records' = length records + k)"
  using assms(1)
proof (induction k arbitrary: tick obs now records strat w)
  case (Suc k)
  obtain b rc strat1 w1 where 1: "decide_tick g obs tick now seed objective (strat, w) = (Inr (b, rc), (strat1, w1))"
    and ok: "strat_ok g strat1"
    using decide_tick_total [OF Suc.prems assms(2)] by metis
  obtain res w2 where 2: "on_world (env_step env b) (strat1, w1) = (Inr res, (strat1, w2))"
    using assms(3) on_world_answers [of "env_step env b"] unfolding env_answers_def by metis
  let ?obs = "res_observations res" and ?records = "records @ [rc]"
  have run: "run_loop g env seed objective (Suc k) tick obs now records (strat, w) =
      (let active = dict_keys ?obs in
        if active = [] then sret (?records, ?obs, False, False)
        else if all_flagged (res_terminations res) active then sret (?records, ?obs, True, False)
        else if all_flagged (res_truncations res) active then sret (?records, ?obs, False, True)
        else run_loop g env seed objective k (tick + 1) ?obs (res_time res) ?records) (strat1, w2)"
    using 1 2 by (simp add: sbind_def Let_def)
  show ?case
  proof (cases "dict_keys ?obs = [] \<or> all_flagged (res_terminations res) (dict_keys ?obs) \<or>
      all_flagged (res_truncations res) (dict_keys ?obs)")
    case True
    then show ?thesis unfolding run by (auto simp: Let_def sret_def)
  next
    case False
    obtain records' final te tr strat' w' where
      "run_loop g env seed objective k (tick + 1) ?obs (res_time res) ?records (strat1, w2)
        = (Inr (records', final, te, tr), (strat', w'))"
      "0 < k \<longrightarrow> length ?records < length records'"
      "\<not> te \<and> \<not> tr \<and> (k = 0 \<or> final \<noteq> []) \<longrightarrow> length records' = length ?records + k"
      using Suc.IH [OF ok] by blast
    moreover have "k = 0 \<Longrightarrow> records' = ?records" using calculation(1) by (simp add: st_defs)
    ultimately show ?thesis unfolding run using False by (cases k) (auto simp: Let_def)
  qed
qed (auto simp: st_defs)

text \<open>A run returns whatever the tiers and their fallbacks raise; the composed form is in \<^verbatim>\<open>Mind_Compose\<close>.\<close>

lemma executive_returns:
  assumes "graph_ok g" "shield_answers g" "env_answers env"
  shows "\<exists>res w'. executive_run g env max_ticks seed objective options w = (Inr res, w')
    \<and> (0 < max_ticks \<longrightarrow> 0 < run_ticks res)
    \<and> (\<not> run_terminated res \<and> \<not> run_truncated res \<and> run_final res \<noteq> [] \<longrightarrow> run_ticks res = nat max_ticks)"
proof -
  obtain strat where strat: "build_strategy g = Inr strat" "strat_ok g strat"
    using build_strategy_ok [OF assms(1)] by metis
  obtain obs u where reset: "env_reset env seed options w = (Inr obs, u)"
    using assms(3) unfolding env_answers_def answers_def by metis
  from run_loop_total [OF strat(2) assms(2,3), of seed objective "nat max_ticks" 0 obs 0 "[]" u]
  show ?thesis
    by (auto simp: executive_run_def strat(1) reset sbind_def slift_def)
qed

section \<open>Episodes of a stack policy\<close>

text \<open>A runtime that owns the loop calls \<^verbatim>\<open>decide\<close> once per tick.\<close>

definition stack_decides :: "(observations \<times> decision_context) list
    \<Rightarrow> ('w stack_policy \<times> 'w, fault, action_batch list) st" where
  "stack_decides = smap (\<lambda>(obs, ctx). stack_decide obs ctx)"

lemma reset_is_fresh:
  "stack_policy_init (sp_graph sp) (sp_seed sp) (sp_objective sp) = Inr fresh \<Longrightarrow> stack_reset sp = Inr fresh"
  by (auto simp: stack_policy_init_def stack_reset_def rbind_Inr)

lemma stack_decide_rewound:
  assumes "obs \<noteq> []" "rewinds sp obs"
    and "stack_policy_init (sp_graph sp) (sp_seed sp) (sp_objective sp) = Inr fresh"
  shows "stack_decide obs ctx (sp, w) = stack_decide obs ctx (fresh, w)"
proof -
  have "\<not> rewinds fresh obs"
    using assms(3) by (auto simp: stack_policy_init_def rewinds_def rbind_Inr)
  then show ?thesis
    by (simp add: stack_decide_def assms(1,2) reset_is_fresh [OF assms(3)])
qed

text \<open>
  C32: Episodes do not leak into each other. Whatever a stack policy decided before, an episode whose
  first observations carry a tick that does not advance is decided, batch for batch and with the same
  trace, as by a policy built afresh: no cached plan, comms edge or trace of the earlier episode
  survives, so a score does not depend on the order of evaluation.
\<close>

theorem episodes_are_independent:
  assumes "obs \<noteq> []" "sp_last_tick sp = Some t" "tick_index obs \<le> t"
    and "stack_policy_init (sp_graph sp) (sp_seed sp) (sp_objective sp) = Inr fresh"
  shows "stack_decides ((obs, ctx) # episode) (sp, w) = stack_decides ((obs, ctx) # episode) (fresh, w)
    \<and> sp_records fresh = []"
proof -
  have "rewinds sp obs" using assms(2,3) by (simp add: rewinds_def)
  note same = stack_decide_rewound [OF assms(1) this assms(4), of ctx w]
  have "sp_records fresh = []"
    using assms(4) by (auto simp: stack_policy_init_def rbind_Inr)
  with same show ?thesis by (simp add: stack_decides_def sbind_def)
qed

definition demo_episode :: "(observations \<times> decision_context) list" where
  "demo_episode = [([(''r1'', demo_observation)], demo_context), ([(''r1'', demo_observation\<lparr>obs_tick := 1\<rparr>)], demo_context)]"

definition demo_policy :: "unit stack_policy" where
  "demo_policy = \<lparr>sp_graph = demo_graph, sp_seed = None, sp_objective = None, sp_records = [],
     sp_strategy = CompositionStrategy (strategy_init (graph_tiers (demo_graph :: unit hierarchy_graph))), sp_last_tick = None\<rparr>"

theorem episodes_are_independent_witness:
  "stack_decides demo_episode (demo_policy\<lparr>sp_last_tick := Some 5, sp_records := [undefined]\<rparr>, ())
    = stack_decides demo_episode (demo_policy, ())"
proof -
  have "stack_policy_init demo_graph None None = Inr demo_policy"
    by (simp add: stack_policy_init_def demo_policy_def build_strategy_def demo_graph_def)
  moreover have "tick_index [(''r1'', demo_observation)] = 0"
    by (simp add: tick_index_def lowest_observation_def demo_observation_def)
  moreover have "sp_graph demo_policy = demo_graph" "sp_seed demo_policy = None" "sp_objective demo_policy = None"
    by (simp_all add: demo_policy_def)
  ultimately show ?thesis
    using episodes_are_independent [of "[(''r1'', demo_observation)]" "demo_policy\<lparr>sp_last_tick := Some 5, sp_records := [undefined]\<rparr>"
        5 demo_policy demo_context "tl demo_episode" "()"]
    by (simp add: demo_episode_def)
qed

section \<open>The two execution kinds\<close>

lemma engine_tiers_of:
  assumes "distinct (map node_role tiers)" "n \<in> set tiers"
  shows "dict_get (engine_tiers (bt_engine_of tree tiers)) (role_value (node_role n)) = Some (node_policy n)"
proof -
  have other: "dict_get (fold (\<lambda>n d. dict_set d (role_value (node_role n)) (node_policy n)) ns d) r = dict_get d r"
    if "r \<notin> (\<lambda>n. role_value (node_role n)) ` set ns" for ns r and d :: "(string, 'a policy) dict"
    using that by (induction ns arbitrary: d) (auto simp: update_conv')
  have "distinct (map node_role ns) \<Longrightarrow> n \<in> set ns \<Longrightarrow>
      dict_get (fold (\<lambda>n d. dict_set d (role_value (node_role n)) (node_policy n)) ns d) (role_value (node_role n))
        = Some (node_policy n)" for ns and d :: "(string, 'a policy) dict"
  proof (induction ns arbitrary: d)
    case (Cons m ns)
    show ?case
    proof (cases "n \<in> set ns")
      case False
      with Cons.prems have "n = m" by simp
      moreover have "role_value (node_role m) \<notin> (\<lambda>n. role_value (node_role n)) ` set ns"
        using Cons.prems(1) by force
      ultimately show ?thesis by (simp add: other update_conv')
    qed (use Cons in auto)
  qed simp
  with assms show ?thesis by (simp add: bt_engine_of_def)
qed

definition tier_leaf :: "'w tier_node \<Rightarrow> bt_node" where
  "tier_leaf n = ActionNode POLICY_INVOKE (role_value (node_role n)) (role_value (node_role n)) []"

definition reactive :: "'w tier_node \<Rightarrow> bool" where
  "reactive n = (node_horizon n = None \<and> node_triggers n = [] \<and> (\<forall>obs ctx. answers (node_policy n obs ctx)))"

lemma sequence_is_composition:
  assumes "set ns \<subseteq> set tiers" "distinct (map node_role tiers)" "\<forall>n \<in> set ns. reactive n"
    and "strategy_ok tiers s" "ts_proposal ts = up"
    and "te = \<lparr>te_tiers = engine_tiers (bt_engine_of tree tiers), te_observations = obs, te_context = ctx\<rparr>"
  shows "\<exists>out rs s' w' rs'.
    run_tiers (tier_step (composition_gate tick now) (\<lambda>n b s. s) obs ctx tick now) ns up (s, w) = (Inr (out, rs), (s', w'))
    \<and> eval_sequence te (map tier_leaf ns) fb (ts, w)
        = (Inr SUCCESS, (\<lparr>ts_proposal = out, ts_records = ts_records ts @ rs'\<rparr>, w'))
    \<and> map rec_role rs' = map rec_role rs"
  using assms
proof (induction ns arbitrary: up s w ts)
  case (Cons n ns)
  have n: "n \<in> set tiers" "reactive n" using Cons.prems by auto
  obtain b w1 where dec: "node_policy n obs (ctx\<lparr>ctx_upstream := Some up\<rparr>) w = (Inr b, w1)"
    using n(2) unfolding reactive_def answers_def by metis
  obtain t0 where t0: "dict_get (st_tiers s) (node_role n) = Some t0" and "node_consistent n" "tier_state_ok t0"
    using Cons.prems(4) n(1) by (auto simp: strategy_ok_def)
  then obtain trigger where gate: "composition_gate tick now n t0 = Inr (Some trigger, None)"
    using n(2) by (cases "cached t0") (auto simp: composition_gate_def due_def reactive_def)
  let ?s = "s\<lparr>st_tiers := dict_set (st_tiers s) (node_role n) (decided b now tick False)\<rparr>"
  let ?step = "tier_step (composition_gate tick now) (\<lambda>n b s. s) obs ctx tick now"
  have step: "?step n up (s, w) = (Inr (b, tier_note n (Some trigger) False None), (?s, w1))"
    by (simp add: tier_step_def t0 gate invoke_tier_def dec)
  have ok: "strategy_ok tiers ?s"
    using Cons.prems(4) by (auto simp: strategy_ok_def update_conv' split: if_splits)
  let ?ts = "bt_note b (role_value (node_role n)) fb ts"
  have leaf: "eval_node te (tier_leaf n) fb (ts, w) = (Inr SUCCESS, (?ts, w1))"
    using engine_tiers_of [OF Cons.prems(2) n(1)] Cons.prems(5,6) dec
    by (simp add: tier_leaf_def eval_action_def)
  obtain out rs s' w' rs' where
    "run_tiers ?step ns b (?s, w1) = (Inr (out, rs), (s', w'))"
    "eval_sequence te (map tier_leaf ns) fb (?ts, w1)
      = (Inr SUCCESS, (\<lparr>ts_proposal = out, ts_records = ts_records ?ts @ rs'\<rparr>, w'))"
    "map rec_role rs' = map rec_role rs"
    using Cons.IH [of ?s ?ts b w1] Cons.prems(1-3,6) ok by (auto simp: bt_note_def)
  with step leaf show ?case
    by (simp add: sbind_def st_defs bt_note_def bt_record_def tier_note_def)
qed (simp add: st_defs)

text \<open>
  C31: The behavior tree and direct composition agree on reactive tiers. For tiers without horizon
  and triggers whose policies answer, ticking the sequence of their leaves calls the same policies with
  the same upstream batches as composing them, so the proposal, the state of the world and the order of
  the tiers in the trace are the same.
\<close>

theorem tree_sequence_is_composition:
  assumes "distinct (map node_role tiers)" "\<forall>n \<in> set tiers. reactive n" "strategy_ok tiers s"
  shows "\<exists>out rs s' w' rs'. composition_decide tiers obs ctx tick now (s, w) = (Inr (out, rs), (s', w'))
    \<and> bt_tick (bt_engine_of \<lparr>tree_id = ''t'', tree_root = ControlNode SEQUENCE (map tier_leaf tiers) None,
          format_version = ''4''\<rparr> tiers) obs ctx w = (Inr (out, rs'), w')
    \<and> map rec_role rs' = map rec_role rs \<and> map rec_role rs = map (\<lambda>n. role_value (node_role n)) tiers"
proof -
  let ?tree = "\<lparr>tree_id = ''t'', tree_root = ControlNode SEQUENCE (map tier_leaf tiers) None, format_version = ''4''\<rparr>"
  let ?te = "\<lparr>te_tiers = engine_tiers (bt_engine_of ?tree tiers), te_observations = obs, te_context = ctx\<rparr>"
  have start: "ts_proposal (bt_start ctx) = initial_upstream ctx"
    by (simp add: bt_start_def initial_upstream_def)
  obtain out rs s' w' rs' where
    "composition_decide tiers obs ctx tick now (s, w) = (Inr (out, rs), (s', w'))"
    "eval_sequence ?te (map tier_leaf tiers) False (bt_start ctx, w)
      = (Inr SUCCESS, (\<lparr>ts_proposal = out, ts_records = ts_records (bt_start ctx) @ rs'\<rparr>, w'))"
    "map rec_role rs' = map rec_role rs"
    using sequence_is_composition [OF subset_refl assms start, where te = "?te" and tree = "?tree" and obs = obs
        and ctx = ctx and tick = tick and now = now and w = w and fb = False]
    unfolding composition_decide_def by blast
  moreover have "map rec_role rs = map (\<lambda>n. role_value (node_role n)) tiers"
  proof -
    obtain o2 r2 s2 w2 where "run_tiers (tier_step (composition_gate tick now) (\<lambda>n b s. s) obs ctx tick now) tiers
        (initial_upstream ctx) (s, w) = (Inr (o2, r2), (s2, w2))"
      and "map rec_role r2 = map (\<lambda>n. role_value (node_role n)) tiers"
      using composition.run_ok [OF assms(3) subset_refl] by metis
    with calculation(1) show ?thesis by (simp add: composition_decide_def)
  qed
  ultimately show ?thesis
    by (simp add: bt_tick_def bt_engine_of_def bt_start_def)
qed

definition demo_reactive_tiers :: "nat tier_node list" where
  "demo_reactive_tiers = [(demo_tier TAMP [demo_prospect ''r1'' 1]), (demo_tier CONTROL [standby_action ''r1''])]"

theorem tree_sequence_is_composition_witness:
  "\<exists>out rs s' w' rs'. composition_decide demo_reactive_tiers [] demo_context 4 2 (strategy_init demo_reactive_tiers, 0)
      = (Inr (out, rs), (s', w'))
    \<and> bt_tick (bt_engine_of \<lparr>tree_id = ''t'', tree_root = ControlNode SEQUENCE (map tier_leaf demo_reactive_tiers) None,
          format_version = ''4''\<rparr> demo_reactive_tiers) [] demo_context 0 = (Inr (out, rs'), w')
    \<and> map rec_role rs' = [''tamp'', ''control'']"
proof -
  have "distinct (map node_role demo_reactive_tiers)"
    by (simp add: demo_reactive_tiers_def demo_tier_def)
  moreover have "\<forall>n \<in> set demo_reactive_tiers. reactive n"
    by (simp add: demo_reactive_tiers_def demo_tier_def reactive_def answers_def)
  moreover have "strategy_ok demo_reactive_tiers (strategy_init demo_reactive_tiers)"
    by (rule strategy_init_ok) (simp add: demo_reactive_tiers_def demo_tier_def node_consistent_def)
  moreover have "map (\<lambda>n. role_value (node_role n)) demo_reactive_tiers = [''tamp'', ''control'']"
    by (simp add: demo_reactive_tiers_def demo_tier_def)
  ultimately show ?thesis
    using tree_sequence_is_composition [of demo_reactive_tiers "strategy_init demo_reactive_tiers" "[]" demo_context 4 2 0]
    by (metis (no_types, lifting))
qed

end
