(* ===== verification/Mind_Compose.thy ===== *)
theory Mind_Compose
  imports Mind_Executive
begin

text \<open>
  The tier registry (\<^verbatim>\<open>mind/registry/registry.py\<close>) and the composer
  (\<^verbatim>\<open>mind/compose/composer.py\<close>): from a loaded stack spec to the graph the executive ticks. A
  plugin's factory is code outside the stack: it may raise, and what it returns may fail to be a
  \<^verbatim>\<open>Policy\<close>.
\<close>

section \<open>The tier registry\<close>

text \<open>A policy object; the second field is its \<^verbatim>\<open>report\<close> method, if it has one.\<close>

record 'w policy_object =
  obj_decide :: "'w policy"
  obj_report :: "('w \<Rightarrow> shield_report option) option"

type_synonym 'w tier_factory = "json \<Rightarrow> fault + 'w policy_object option"

record 'w tier_plugin =
  tp_manifest :: plugin_manifest
  tp_factory :: "'w tier_factory"

record ('x, 'w) tier_registry =
  tr_core :: "'x registry"
  tr_factories :: "(string, 'w tier_factory) dict"

datatype 'x tier_registry_error =
    NotAPolicyPlugin string
  | PluginNotRegistered string
  | CoreGate "'x registry_error"
  | FactoryRaised fault
  | NotATierPlugin
  | ProviderRaised fault

definition tier_registry_init ::
    "(string, string) dict option \<Rightarrow> bool \<Rightarrow> (plugin_manifest \<Rightarrow> 'x option) option \<Rightarrow> ('x, 'w) tier_registry" where
  "tier_registry_init provided require_signature verifier =
    \<lparr>tr_core = registry_init provided require_signature verifier, tr_factories = []\<rparr>"

definition tier_register :: "(plugin_manifest \<Rightarrow> bool) \<Rightarrow> ('x, 'w) tier_registry \<Rightarrow> 'w tier_plugin
    \<Rightarrow> 'x tier_registry_error + plugin_manifest \<times> ('x, 'w) tier_registry" where
  "tier_register schema_ok reg p =
    (let m = tp_manifest p in
     if pm_kind m \<noteq> PluginKind.POLICY then Inl (NotAPolicyPlugin (pm_name m))
     else rbind (rerr CoreGate (register schema_ok (tr_core reg) m)) (\<lambda>(_, core).
       Inr (m, \<lparr>tr_core = core, tr_factories = dict_set (tr_factories reg) (pm_name m) (tp_factory p)\<rparr>)))"

text \<open>
  \<^verbatim>\<open>from_entry_points\<close>: every provider is called in turn; it may raise or return something
  that is no \<^verbatim>\<open>TierPlugin\<close>, and the first failure ends the discovery.
\<close>

fun register_providers :: "(plugin_manifest \<Rightarrow> bool) \<Rightarrow> ('x, 'w) tier_registry \<Rightarrow> (fault + 'w tier_plugin option) list
    \<Rightarrow> 'x tier_registry_error + ('x, 'w) tier_registry" where
  "register_providers schema_ok reg [] = Inr reg"
| "register_providers schema_ok reg (Inl e # ps) = Inl (ProviderRaised e)"
| "register_providers schema_ok reg (Inr None # ps) = Inl NotATierPlugin"
| "register_providers schema_ok reg (Inr (Some p) # ps) =
    rbind (tier_register schema_ok reg p) (\<lambda>(_, reg'). register_providers schema_ok reg' ps)"

definition from_entry_points :: "(plugin_manifest \<Rightarrow> bool) \<Rightarrow> (string, string) dict option \<Rightarrow> bool
    \<Rightarrow> (plugin_manifest \<Rightarrow> 'x option) option \<Rightarrow> (fault + 'w tier_plugin option) list
    \<Rightarrow> 'x tier_registry_error + ('x, 'w) tier_registry" where
  "from_entry_points schema_ok provided require_signature verifier providers =
    register_providers schema_ok (tier_registry_init provided require_signature verifier) providers"

definition tier_manifest :: "('x, 'w) tier_registry \<Rightarrow> string \<Rightarrow> 'x tier_registry_error + plugin_manifest" where
  "tier_manifest reg name = rerr (\<lambda>_. PluginNotRegistered name) (registry_resolve (tr_core reg) name)"

definition tier_instantiate :: "('x, 'w) tier_registry \<Rightarrow> string \<Rightarrow> json \<Rightarrow> 'x tier_registry_error + 'w policy_object" where
  "tier_instantiate reg name params =
    rbind (tier_manifest reg name) (\<lambda>_.
    case dict_get (tr_factories reg) name of
      None \<Rightarrow> Inl (FactoryRaised KeyMissing)
    | Some factory \<Rightarrow>
        rbind (rerr FactoryRaised (factory params)) (\<lambda>obj.
        case obj of None \<Rightarrow> Inl (NotAPolicyPlugin name) | Some ob \<Rightarrow> Inr ob))"

section \<open>The composer\<close>

definition TIER_ATTRIBUTE :: string where
  "TIER_ATTRIBUTE = ''tier''"

datatype 'x compose_error =
    CannotInstantiate string string "'x tier_registry_error"
  | Escaped "'x tier_registry_error"
  | TierMismatch string json TierRole
  | TreeNotPassed string
  | TreeRefMissing string
  | UncomposedTiers string "string set"

text \<open>\<^verbatim>\<open>_instantiate\<close> converts the two registry errors it names; a factory's own exception escapes.\<close>

fun compose_catch :: "string \<Rightarrow> string \<Rightarrow> 'x tier_registry_error \<Rightarrow> 'x compose_error" where
  "compose_catch what plugin (PluginNotRegistered n) = CannotInstantiate what plugin (PluginNotRegistered n)"
| "compose_catch what plugin (NotAPolicyPlugin n) = CannotInstantiate what plugin (NotAPolicyPlugin n)"
| "compose_catch what plugin e = Escaped e"

definition compose_instantiate :: "('x, 'w) tier_registry \<Rightarrow> string \<Rightarrow> json \<Rightarrow> string
    \<Rightarrow> 'x compose_error + 'w policy_object" where
  "compose_instantiate reg plugin params what = rerr (compose_catch what plugin) (tier_instantiate reg plugin params)"

definition check_tier_attribute :: "(string, json) dict \<Rightarrow> tier_binding \<Rightarrow> 'x compose_error + unit" where
  "check_tier_attribute attributes b =
    (let declared = json_get attributes TIER_ATTRIBUTE in
     if declared \<noteq> JNull \<and> declared \<noteq> JStr (role_value (tb_role b))
     then Inl (TierMismatch (tb_plugin b) declared (tb_role b)) else Inr ())"

text \<open>A fallback binding: its policy and name, with its version recorded.\<close>

definition compose_fallback :: "('x, 'w) tier_registry \<Rightarrow> tier_binding \<Rightarrow> (string, string) dict
    \<Rightarrow> 'x compose_error + ('w policy option \<times> string option \<times> (string, string) dict)" where
  "compose_fallback reg b versions =
    (case tb_fallback b of
       None \<Rightarrow> Inr (None, None, versions)
     | Some f \<Rightarrow>
         rbind (compose_instantiate reg (bound_plugin f) (bound_params f) (role_value (tb_role b) @ '' fallback'')) (\<lambda>ob.
         rbind (rerr Escaped (tier_manifest reg (bound_plugin f))) (\<lambda>m.
         Inr (Some (obj_decide ob), Some (bound_plugin f), dict_set versions (bound_plugin f) (pm_version m)))))"

definition compose_tier :: "('x, 'w) tier_registry \<Rightarrow> tier_binding \<Rightarrow> (string, string) dict
    \<Rightarrow> 'x compose_error + ('w tier_node \<times> (string, string) dict)" where
  "compose_tier reg b versions =
    rbind (compose_instantiate reg (tb_plugin b) (tb_params b) (role_value (tb_role b))) (\<lambda>ob.
    rbind (rerr Escaped (tier_manifest reg (tb_plugin b))) (\<lambda>m.
    rbind (check_tier_attribute (pm_attributes m) b) (\<lambda>_.
    rbind (compose_fallback reg b (dict_set versions (tb_plugin b) (pm_version m))) (\<lambda>(fb, fb_name, versions').
    Inr (\<lparr>node_role = tb_role b, node_plugin = tb_plugin b, node_policy = obj_decide ob,
       node_horizon = tb_horizon b, node_triggers = tb_triggers b, node_fallback = fb,
       node_fallback_name = fb_name, node_manifest = m\<rparr>, versions')))))"

fun compose_tiers :: "('x, 'w) tier_registry \<Rightarrow> tier_binding list \<Rightarrow> (string, string) dict
    \<Rightarrow> 'x compose_error + ('w tier_node list \<times> (string, string) dict)" where
  "compose_tiers reg [] versions = Inr ([], versions)"
| "compose_tiers reg (b # bs) versions =
    rbind (compose_tier reg b versions) (\<lambda>(n, versions').
    rbind (compose_tiers reg bs versions') (\<lambda>(ns, versions''). Inr (n # ns, versions'')))"

definition compose_shield :: "('x, 'w) tier_registry \<Rightarrow> plugin_binding \<Rightarrow> (string, string) dict
    \<Rightarrow> 'x compose_error + ('w shield_node \<times> (string, string) dict)" where
  "compose_shield reg b versions =
    rbind (compose_instantiate reg (bound_plugin b) (bound_params b) ''shield'') (\<lambda>ob.
    rbind (rerr Escaped (tier_manifest reg (bound_plugin b))) (\<lambda>m.
    Inr (\<lparr>shield_plugin = bound_plugin b, shield_policy = obj_decide ob, shield_reports = obj_report ob\<rparr>,
      dict_set versions (bound_plugin b) (pm_version m))))"

definition resolve_behavior_tree :: "stack_spec \<Rightarrow> behavior_tree option \<Rightarrow> 'w tier_node list
    \<Rightarrow> 'x compose_error + behavior_tree" where
  "resolve_behavior_tree spec tree nodes = (case tree of
     None \<Rightarrow> Inl (TreeNotPassed (spec_id spec))
   | Some t \<Rightarrow>
       if spec_tree_ref spec = None \<or> spec_tree_ref spec = Some '''' then Inl (TreeRefMissing (spec_id spec))
       else let missing = tier_refs t - set (map (role_value \<circ> node_role) nodes) in
         if missing \<noteq> {} then Inl (UncomposedTiers (spec_id spec) missing) else Inr t)"

definition ordered_bindings :: "tier_binding list \<Rightarrow> tier_binding list" where
  "ordered_bindings tiers = List.map_filter (dict_get (fold (\<lambda>t d. dict_set d (tb_role t) t) tiers [])) TIER_ORDER"

definition compose :: "stack_spec \<Rightarrow> ('x, 'w) tier_registry \<Rightarrow> int option \<Rightarrow> (string, string) dict option
    \<Rightarrow> behavior_tree option \<Rightarrow> (string, string) dict option \<Rightarrow> 'x compose_error + 'w hierarchy_graph" where
  "compose spec reg seed provided tree hashes =
    rbind (compose_tiers reg (ordered_bindings (spec_tiers spec)) []) (\<lambda>(nodes, versions).
    rbind (compose_shield reg (spec_shield spec) versions) (\<lambda>(shield, versions).
    rbind (if spec_execution spec = BEHAVIOR_TREE
        then rbind (resolve_behavior_tree spec tree nodes) (\<lambda>t. Inr (Some t)) else Inr None) (\<lambda>composed_tree.
    Inr \<lparr>graph_stack = spec_id spec, graph_tiers = nodes, graph_shield = shield,
      graph_execution = spec_execution spec, graph_coordination = spec_coordination spec,
      graph_provenance = \<lparr>prov_plugins = versions,
        prov_interfaces = (case provided of Some p \<Rightarrow> p | None \<Rightarrow> CORE_INTERFACE_VERSIONS),
        prov_seed = seed, prov_inputs = (case hashes of Some h \<Rightarrow> h | None \<Rightarrow> [])\<rparr>,
      graph_tree = composed_tree\<rparr>)))"

section \<open>What a registry holds\<close>

definition tier_registry_inv :: "(plugin_manifest \<Rightarrow> bool) \<Rightarrow> ('x, 'w) tier_registry \<Rightarrow> bool" where
  "tier_registry_inv schema_ok reg =
    (registry_inv schema_ok (tr_core reg)
     \<and> (\<forall>(n, m) \<in> set (reg_by_name (tr_core reg)). pm_kind m = PluginKind.POLICY
          \<and> dict_get (tr_factories reg) n \<noteq> None))"

lemma tier_registry_inv_init [inv_intros]: "tier_registry_inv schema_ok (tier_registry_init p r v)"
  by (simp add: tier_registry_inv_def tier_registry_init_def registry_inv_init)
    (simp add: registry_init_def)

lemma tier_registry_inv_register [inv_intros]:
  assumes "tier_registry_inv schema_ok reg" "tier_register schema_ok reg p = Inr (m, reg')"
  shows "tier_registry_inv schema_ok reg'"
proof -
  obtain core where reg: "register schema_ok (tr_core reg) (tp_manifest p) = Inr (tp_manifest p, core)"
    and kind: "pm_kind (tp_manifest p) = PluginKind.POLICY"
    and reg': "reg' = \<lparr>tr_core = core,
      tr_factories = dict_set (tr_factories reg) (pm_name (tp_manifest p)) (tp_factory p)\<rparr>"
    using assms(2) by (auto simp: tier_register_def Let_def rbind_Inr register_ok split: if_splits)
  have "registry_inv schema_ok core"
    using assms(1) reg by (auto simp: tier_registry_inv_def intro: registry_inv_register)
  with assms(1) reg kind show ?thesis
    by (auto simp: tier_registry_inv_def reg' register_ok update_conv')
qed

lemma tier_registry_inv_providers [inv_intros]:
  "tier_registry_inv schema_ok reg \<Longrightarrow> register_providers schema_ok reg ps = Inr reg' \<Longrightarrow>
    tier_registry_inv schema_ok reg'"
proof (induction schema_ok reg ps rule: register_providers.induct)
  case (4 schema_ok reg p ps)
  then show ?case by (auto simp: rbind_Inr dest: tier_registry_inv_register)
qed simp_all

lemma tier_manifest_ok: "(tier_manifest reg n = Inr m) = (registry_resolve (tr_core reg) n = Inr m)"
  by (simp add: tier_manifest_def)

lemma tier_manifest_gated:
  "tier_registry_inv schema_ok reg \<Longrightarrow> tier_manifest reg n = Inr m \<Longrightarrow>
    pm_name m = n \<and> pm_kind m = PluginKind.POLICY \<and> admissible schema_ok (tr_core reg) m"
  using registry_resolve_ok [of schema_ok "tr_core reg" n m]
  by (force simp: tier_manifest_ok tier_registry_inv_def registry_resolve_def
      split: option.splits dest: map_of_SomeD)

section \<open>What a composed graph is\<close>

text \<open>A node is its binding: role, plugin, horizon and triggers.\<close>

definition node_of :: "('x, 'w) tier_registry \<Rightarrow> tier_binding \<Rightarrow> 'w tier_node \<Rightarrow> bool" where
  "node_of reg b n = (node_role n = tb_role b \<and> node_plugin n = tb_plugin b \<and> node_horizon n = tb_horizon b
     \<and> node_triggers n = tb_triggers b \<and> tier_manifest reg (tb_plugin b) = Inr (node_manifest n)
     \<and> (\<exists>ob. tier_instantiate reg (tb_plugin b) (tb_params b) = Inr ob \<and> node_policy n = obj_decide ob)
     \<and> node_fallback_name n = map_option bound_plugin (tb_fallback b)
     \<and> (case tb_fallback b of
          None \<Rightarrow> node_fallback n = None
        | Some f \<Rightarrow> is_ok (tier_manifest reg (bound_plugin f))
            \<and> (\<exists>ob. tier_instantiate reg (bound_plugin f) (bound_params f) = Inr ob \<and> node_fallback n = Some (obj_decide ob)))
     \<and> check_tier_attribute (pm_attributes (node_manifest n)) b = (Inr () :: 'x compose_error + unit))"

lemma compose_tier_node: "compose_tier reg b v = Inr (n, v') \<Longrightarrow> node_of reg b n"
  by (auto simp: compose_tier_def node_of_def rbind_Inr compose_instantiate_def compose_fallback_def is_ok_iff
      split: option.splits)

lemma compose_tiers_nodes: "compose_tiers reg bs v = Inr (ns, v') \<Longrightarrow> list_all2 (node_of reg) bs ns"
  by (induction bs arbitrary: v ns) (auto simp: rbind_Inr dest: compose_tier_node)

lemma fold_bindings_get:
  "dict_get (fold (\<lambda>t d. dict_set d (tb_role t) t) ts d) r = Some b \<Longrightarrow>
    dict_get d r = Some b \<or> (b \<in> set ts \<and> tb_role b = r)"
proof (induction ts arbitrary: d)
  case (Cons t ts)
  with Cons.IH [of "dict_set d (tb_role t) t"] show ?case
    by (auto simp: update_conv' split: if_splits)
qed simp

lemma fold_bindings_dom:
  "dict_get (fold (\<lambda>t d. dict_set d (tb_role t) t) ts d) r \<noteq> None \<longleftrightarrow>
    dict_get d r \<noteq> None \<or> r \<in> tb_role ` set ts"
proof (induction ts arbitrary: d)
  case (Cons t ts)
  with Cons.IH [of "dict_set d (tb_role t) t"] show ?case
    by (auto simp: update_conv' split: if_splits)
qed simp

lemma ordered_roles:
  "map tb_role (ordered_bindings ts) = filter (\<lambda>r. r \<in> tb_role ` set ts) TIER_ORDER"
proof -
  define d where "d = fold (\<lambda>t d. dict_set d (tb_role t) t) ts []"
  have own: "tb_role b = r" if "dict_get d r = Some b" for r b
    using fold_bindings_get [of ts "[]" r b] that by (simp add: d_def)
  have dom: "(dict_get d r \<noteq> None) = (r \<in> tb_role ` set ts)" for r
    using fold_bindings_dom [of ts "[]" r] by (simp add: d_def)
  have "map tb_role (List.map_filter (dict_get d) rs) = filter (\<lambda>r. dict_get d r \<noteq> None) rs" for rs
    using own by (induction rs) (auto simp: map_filter_simps split: option.splits)
  then show ?thesis unfolding ordered_bindings_def d_def [symmetric] dom .
qed

lemma ordered_subset: "set (ordered_bindings ts) \<subseteq> set ts"
proof
  fix b assume "b \<in> set (ordered_bindings ts)"
  then obtain r where "dict_get (fold (\<lambda>t d. dict_set d (tb_role t) t) ts []) r = Some b"
    by (auto simp: ordered_bindings_def map_filter_def)
  then show "b \<in> set ts" using fold_bindings_get [of ts "[]" r b] by simp
qed

lemma compose_parts:
  assumes "compose spec reg seed provided tree hashes = Inr g"
  obtains versions ob where "list_all2 (node_of reg) (ordered_bindings (spec_tiers spec)) (graph_tiers g)"
    and "graph_execution g = spec_execution spec" "graph_coordination g = spec_coordination spec"
    and "spec_execution spec = BEHAVIOR_TREE \<Longrightarrow> \<exists>t. tree = Some t \<and> graph_tree g = Some t
      \<and> tier_refs t \<subseteq> (\<lambda>n. role_value (node_role n)) ` set (graph_tiers g)"
    and "tier_instantiate reg (bound_plugin (spec_shield spec)) (bound_params (spec_shield spec)) = Inr ob"
    and "shield_policy (graph_shield g) = obj_decide ob" "shield_reports (graph_shield g) = obj_report ob"
    and "shield_plugin (graph_shield g) = bound_plugin (spec_shield spec)"
    and "is_ok (tier_manifest reg (bound_plugin (spec_shield spec)))"
proof -
  obtain nodes v1 shield v2 ct where parts:
    "compose_tiers reg (ordered_bindings (spec_tiers spec)) [] = Inr (nodes, v1)"
    "compose_shield reg (spec_shield spec) v1 = Inr (shield, v2)"
    "(if spec_execution spec = BEHAVIOR_TREE
        then rbind (resolve_behavior_tree spec tree nodes) (\<lambda>t. Inr (Some t)) else Inr None) =
      (Inr ct :: 'a compose_error + behavior_tree option)"
    and g: "graph_tiers g = nodes" "graph_execution g = spec_execution spec"
      "graph_coordination g = spec_coordination spec" "graph_shield g = shield" "graph_tree g = ct"
    using assms by (auto simp: compose_def rbind_Inr)
  have "\<exists>t. tree = Some t \<and> graph_tree g = Some t
      \<and> tier_refs t \<subseteq> (\<lambda>n. role_value (node_role n)) ` set (graph_tiers g)"
    if "spec_execution spec = BEHAVIOR_TREE"
    using that parts(3) g(1,5)
    by (auto simp: resolve_behavior_tree_def rbind_Inr Let_def split: option.splits if_splits)
  moreover obtain ob where "tier_instantiate reg (bound_plugin (spec_shield spec)) (bound_params (spec_shield spec)) = Inr ob"
    "shield_policy (graph_shield g) = obj_decide ob" "shield_reports (graph_shield g) = obj_report ob"
    "shield_plugin (graph_shield g) = bound_plugin (spec_shield spec)"
    "is_ok (tier_manifest reg (bound_plugin (spec_shield spec)))"
  proof -
    obtain ob m where "tier_instantiate reg (bound_plugin (spec_shield spec)) (bound_params (spec_shield spec)) = Inr ob"
      "tier_manifest reg (bound_plugin (spec_shield spec)) = Inr m"
      "shield = \<lparr>shield_plugin = bound_plugin (spec_shield spec), shield_policy = obj_decide ob, shield_reports = obj_report ob\<rparr>"
      using parts(2) by (auto simp: compose_shield_def compose_instantiate_def rbind_Inr)
    then show ?thesis using that [of ob] g(4) by (simp add: is_ok_iff)
  qed
  ultimately show ?thesis
    using that compose_tiers_nodes [OF parts(1)] g by auto
qed

section \<open>Properties\<close>

definition gated_policy :: "(plugin_manifest \<Rightarrow> bool) \<Rightarrow> (string, string) dict option \<Rightarrow> bool
    \<Rightarrow> (plugin_manifest \<Rightarrow> 'x option) option \<Rightarrow> plugin_manifest \<Rightarrow> bool" where
  "gated_policy schema_ok provided require_signature verifier m =
    (pm_kind m = PluginKind.POLICY \<and> schema_ok m \<and> \<not> gated m
     \<and> assert_core_compatible (pm_core_interfaces m) provided = Inr ()
     \<and> (require_signature \<longrightarrow> \<not> unsigned m) \<and> verified_by verifier m)"

lemma register_providers_config:
  "register_providers schema_ok reg ps = Inr reg' \<Longrightarrow>
    reg_provided (tr_core reg') = reg_provided (tr_core reg)
    \<and> reg_require_signature (tr_core reg') = reg_require_signature (tr_core reg)
    \<and> reg_verifier (tr_core reg') = reg_verifier (tr_core reg)"
proof (induction schema_ok reg ps rule: register_providers.induct)
  case (4 schema_ok reg p ps)
  then obtain m reg1 where one: "tier_register schema_ok reg p = Inr (m, reg1)"
    and rest: "register_providers schema_ok reg1 ps = Inr reg'"
    by (auto simp: rbind_Inr)
  have "reg_provided (tr_core reg1) = reg_provided (tr_core reg)
    \<and> reg_require_signature (tr_core reg1) = reg_require_signature (tr_core reg)
    \<and> reg_verifier (tr_core reg1) = reg_verifier (tr_core reg)"
    using one by (auto simp: tier_register_def Let_def rbind_Inr register_ok split: if_splits)
  moreover have "reg_provided (tr_core reg') = reg_provided (tr_core reg1)
    \<and> reg_require_signature (tr_core reg') = reg_require_signature (tr_core reg1)
    \<and> reg_verifier (tr_core reg') = reg_verifier (tr_core reg1)"
    by (rule "4.IH" [OF one refl rest])
  ultimately show ?case by simp
qed simp_all

lemma discovered_manifest:
  assumes "from_entry_points schema_ok provided require_signature verifier providers = Inr reg"
    and "tier_manifest reg n = Inr m"
  shows "pm_name m = n \<and> gated_policy schema_ok provided require_signature verifier m"
proof -
  have run: "register_providers schema_ok (tier_registry_init provided require_signature verifier) providers = Inr reg"
    using assms(1) by (simp add: from_entry_points_def)
  have "tier_registry_inv schema_ok reg"
    by (rule tier_registry_inv_providers [OF tier_registry_inv_init run])
  from tier_manifest_gated [OF this assms(2)] register_providers_config [OF run]
  show ?thesis
    by (auto simp: gated_policy_def admissible_def tier_registry_init_def registry_init_def)
qed

text \<open>Manifest and factory of a registered plugin are those of one provider.\<close>

definition provided_by :: "(fault + 'w tier_plugin option) list \<Rightarrow> ('x, 'w) tier_registry \<Rightarrow> bool" where
  "provided_by providers reg =
    (\<forall>n m. tier_manifest reg n = (Inr m :: 'x tier_registry_error + plugin_manifest) \<longrightarrow>
      (\<exists>p. Inr (Some p) \<in> set providers \<and> tp_manifest p = m \<and> pm_name m = n
         \<and> dict_get (tr_factories reg) n = Some (tp_factory p)))"

lemma provided_by_register:
  assumes "provided_by providers reg" "Inr (Some p) \<in> set providers" "tier_register schema_ok reg p = Inr (m, reg')"
  shows "provided_by providers reg'"
proof -
  obtain core where core: "register schema_ok (tr_core reg) (tp_manifest p) = Inr (tp_manifest p, core)"
    and reg': "reg' = \<lparr>tr_core = core,
      tr_factories = dict_set (tr_factories reg) (pm_name (tp_manifest p)) (tp_factory p)\<rparr>"
    using assms(3) by (auto simp: tier_register_def Let_def rbind_Inr register_ok split: if_splits)
  have new: "pm_name (tp_manifest p) \<notin> set (dict_keys (reg_by_name (tr_core reg)))"
    and "reg_by_name core = reg_by_name (tr_core reg) @ [(pm_name (tp_manifest p), tp_manifest p)]"
    using core by (auto simp: register_ok)
  then have names: "reg_by_name core = dict_set (reg_by_name (tr_core reg)) (pm_name (tp_manifest p)) (tp_manifest p)"
    by (simp add: dict_set_new)
  have get: "tier_manifest reg' n = Inr k \<longleftrightarrow>
      (if n = pm_name (tp_manifest p) then k = tp_manifest p else tier_manifest reg n = Inr k)" for n k
    by (auto simp: tier_manifest_ok registry_resolve_def reg' names update_conv' split: option.splits)
  show ?thesis
    using assms(1,2) unfolding provided_by_def get by (auto simp: reg' update_conv')
qed

lemma provided_by_providers:
  "provided_by all reg \<Longrightarrow> set ps \<subseteq> set all \<Longrightarrow> register_providers schema_ok reg ps = Inr reg' \<Longrightarrow> provided_by all reg'"
proof (induction schema_ok reg ps rule: register_providers.induct)
  case (4 schema_ok reg p ps)
  then obtain m reg1 where one: "tier_register schema_ok reg p = Inr (m, reg1)"
    and rest: "register_providers schema_ok reg1 ps = Inr reg'"
    by (auto simp: rbind_Inr)
  have "provided_by all reg1"
    using provided_by_register [OF 4(2) _ one] 4(3) by simp
  with "4.IH" [OF one refl] 4(3) rest show ?case by simp
qed simp_all

text \<open>
  A policy object that the registry's gates stand behind: the factory of an offered plugin made it, and
  the manifest of that plugin passed them.
\<close>

definition gated_object :: "(plugin_manifest \<Rightarrow> bool) \<Rightarrow> (string, string) dict option \<Rightarrow> bool
    \<Rightarrow> (plugin_manifest \<Rightarrow> 'x option) option \<Rightarrow> (fault + 'w tier_plugin option) list \<Rightarrow> string \<Rightarrow> json
    \<Rightarrow> 'w policy_object \<Rightarrow> bool" where
  "gated_object schema_ok provided require_signature verifier providers name params ob =
    (\<exists>p. Inr (Some p) \<in> set providers \<and> pm_name (tp_manifest p) = name
      \<and> gated_policy schema_ok provided require_signature verifier (tp_manifest p)
      \<and> tp_factory p params = Inr (Some ob))"

lemma instantiated_object:
  assumes "from_entry_points schema_ok provided require_signature verifier providers = Inr reg"
    and "tier_instantiate reg name params = Inr ob"
  shows "gated_object schema_ok provided require_signature verifier providers name params ob"
proof -
  obtain m factory where m: "tier_manifest reg name = Inr m" "dict_get (tr_factories reg) name = Some factory"
    "factory params = Inr (Some ob)"
    using assms(2) by (auto simp: tier_instantiate_def rbind_Inr split: option.splits)
  have "provided_by providers reg"
    using assms(1) unfolding from_entry_points_def
    by (rule provided_by_providers [rotated 2])
       (simp_all add: provided_by_def tier_manifest_ok registry_resolve_def tier_registry_init_def registry_init_def)
  then show ?thesis
    using m discovered_manifest [OF assms(1) m(1)] by (fastforce simp: provided_by_def gated_object_def)
qed

text \<open>
  C19: A composed graph runs gated plugins only, in canonical order. Whatever the entry points offered,
  the tiers of a composed graph are the roles of the spec ordered mission, allocator, TAMP, control.
  Every tier stands for a tier binding of the spec: the policy it runs was made by the factory of an
  offered plugin of the bound name from the bound parameters, and that plugin's manifest is a policy
  and passed every gate of the registry; the same holds of the fallback it runs, which it has exactly
  if the binding has one, and of the shield. A behavior tree invokes composed tiers only.
\<close>

theorem composed_from_gated_plugins:
  assumes "from_entry_points schema_ok provided require_signature verifier providers = Inr reg"
    and "compose spec reg seed interfaces tree hashes = Inr g"
  defines "from_gated \<equiv> gated_object schema_ok provided require_signature verifier providers"
  shows "map node_role (graph_tiers g) = filter (\<lambda>r. r \<in> tb_role ` set (spec_tiers spec)) TIER_ORDER
    \<and> (\<forall>n \<in> set (graph_tiers g). \<exists>b \<in> set (spec_tiers spec).
        node_role n = tb_role b \<and> node_plugin n = tb_plugin b
        \<and> (\<exists>ob. from_gated (tb_plugin b) (tb_params b) ob \<and> node_policy n = obj_decide ob)
        \<and> (case tb_fallback b of
             None \<Rightarrow> node_fallback n = None
           | Some f \<Rightarrow> \<exists>ob. from_gated (bound_plugin f) (bound_params f) ob \<and> node_fallback n = Some (obj_decide ob)))
    \<and> (\<exists>ob. from_gated (bound_plugin (spec_shield spec)) (bound_params (spec_shield spec)) ob
        \<and> graph_shield g = \<lparr>shield_plugin = bound_plugin (spec_shield spec), shield_policy = obj_decide ob,
            shield_reports = obj_report ob\<rparr>)
    \<and> (spec_execution spec = BEHAVIOR_TREE \<longrightarrow> (\<exists>t. graph_tree g = Some t
        \<and> tier_refs t \<subseteq> (\<lambda>n. role_value (node_role n)) ` set (graph_tiers g)))"
proof -
  obtain ob where nodes: "list_all2 (node_of reg) (ordered_bindings (spec_tiers spec)) (graph_tiers g)"
    and shield: "tier_instantiate reg (bound_plugin (spec_shield spec)) (bound_params (spec_shield spec)) = Inr ob"
      "shield_policy (graph_shield g) = obj_decide ob" "shield_reports (graph_shield g) = obj_report ob"
      "shield_plugin (graph_shield g) = bound_plugin (spec_shield spec)"
    and tree: "spec_execution spec = BEHAVIOR_TREE \<Longrightarrow> (\<exists>t. graph_tree g = Some t
        \<and> tier_refs t \<subseteq> (\<lambda>n. role_value (node_role n)) ` set (graph_tiers g))"
    using compose_parts [OF assms(2)] by metis
  note made = instantiated_object [OF assms(1), folded from_gated_def]
  have "map node_role ns = map tb_role bs" if "list_all2 (node_of reg) bs ns" for bs ns
    using that by (induction rule: list_all2_induct) (simp_all add: node_of_def)
  from this [OF nodes] have roles: "map node_role (graph_tiers g) = filter (\<lambda>r. r \<in> tb_role ` set (spec_tiers spec)) TIER_ORDER"
    by (simp add: ordered_roles)
  have tiers: "\<exists>b \<in> set (spec_tiers spec). node_role n = tb_role b \<and> node_plugin n = tb_plugin b
      \<and> (\<exists>ob. from_gated (tb_plugin b) (tb_params b) ob \<and> node_policy n = obj_decide ob)
      \<and> (case tb_fallback b of
           None \<Rightarrow> node_fallback n = None
         | Some f \<Rightarrow> \<exists>ob. from_gated (bound_plugin f) (bound_params f) ob \<and> node_fallback n = Some (obj_decide ob))"
    if "n \<in> set (graph_tiers g)" for n
  proof -
    obtain b where b: "b \<in> set (ordered_bindings (spec_tiers spec))" "node_of reg b n"
      using nodes \<open>n \<in> set (graph_tiers g)\<close> by (metis in_set_conv_nth list_all2_conv_all_nth)
    have fb: "case tb_fallback b of
           None \<Rightarrow> node_fallback n = None
         | Some f \<Rightarrow> \<exists>ob. from_gated (bound_plugin f) (bound_params f) ob \<and> node_fallback n = Some (obj_decide ob)"
      using b(2) made by (auto simp: node_of_def split: option.splits)
    have "\<exists>ob. from_gated (tb_plugin b) (tb_params b) ob \<and> node_policy n = obj_decide ob"
      using b(2) made by (auto simp: node_of_def)
    then show ?thesis
      using b fb ordered_subset by (auto simp: node_of_def)
  qed
  have "graph_shield g = \<lparr>shield_plugin = bound_plugin (spec_shield spec), shield_policy = obj_decide ob,
      shield_reports = obj_report ob\<rparr>"
    using shield(2-4) by (cases "graph_shield g") simp
  then show ?thesis
    using roles tiers made [OF shield(1)] tree by blast
qed

lemma composed_graph_ok:
  assumes "validate_stack_spec spec = Inr ()" "compose spec reg seed interfaces tree hashes = Inr g"
    and "\<forall>t. tree = Some t \<longrightarrow> standby_only t"
  shows "graph_ok g"
proof -
  from compose_parts [OF assms(2)]
  have nodes: "list_all2 (node_of reg) (ordered_bindings (spec_tiers spec)) (graph_tiers g)"
    and "graph_execution g = spec_execution spec"
      "spec_execution spec = BEHAVIOR_TREE \<longrightarrow> (\<exists>t. tree = Some t \<and> graph_tree g = Some t)"
    by (metis+)
  then have tree: "graph_execution g = BEHAVIOR_TREE \<longrightarrow> (\<exists>t. graph_tree g = Some t \<and> standby_only t)"
    using assms(3) by auto
  have "check_spec_semantics spec = Inr ()"
    using assms(1) by (simp add: validate_stack_spec_def split: if_splits)
  then have "\<forall>b \<in> set (ordered_bindings (spec_tiers spec)). \<forall>n. node_of reg b n \<longrightarrow> node_consistent n"
    using ordered_subset [of "spec_tiers spec"]
    by (fastforce simp: check_spec_semantics_ok node_of_def node_consistent_def)
  with nodes tree show ?thesis
    by (fastforce simp: graph_ok_def list_all2_conv_all_nth in_set_conv_nth)
qed

text \<open>
  C17: Degrade, do not collapse. A stack spec the loader accepts, composed into a graph (whose
  behavior tree, if any, names known primitives only), with a shield and an environment that answer,
  runs to its end: the executive returns whatever the tiers and their fallbacks raise, at any tick and
  in any order, so a fault of a plugin is never a fault of the run. The run takes at least one tick when
  one is allowed, and one that was neither terminated, truncated nor left without agents took them all.
\<close>

theorem composed_stack_never_collapses:
  assumes "validate_stack_spec spec = Inr ()" "compose spec reg seed interfaces tree hashes = Inr g"
    and "\<forall>t. tree = Some t \<longrightarrow> standby_only t"
    and "shield_answers g" "env_answers env"
  shows "\<exists>res w'. executive_run g env max_ticks run_seed objective options w = (Inr res, w')
    \<and> (0 < max_ticks \<longrightarrow> 0 < run_ticks res)
    \<and> (\<not> run_terminated res \<and> \<not> run_truncated res \<and> run_final res \<noteq> [] \<longrightarrow> run_ticks res = nat max_ticks)"
  by (rule executive_returns [OF composed_graph_ok [OF assms(1-3)] assms(4,5)])

definition demo_spec :: stack_spec where
  "demo_spec = \<lparr>spec_id = ''stack'', spec_name = ''stack'', spec_execution = COMPOSITION, spec_tree_ref = None,
     spec_coordination = HYBRID, spec_tiers = [
       \<lparr>tb_role = CONTROL, tb_plugin = ''control'', tb_params = JNull, tb_horizon = None, tb_triggers = [], tb_fallback = None\<rparr>,
       \<lparr>tb_role = MISSION, tb_plugin = ''mission'', tb_params = JNull, tb_horizon = Some 10,
         tb_triggers = [\<lparr>trig_kind = PLAN_EXPIRED, every_ticks = None\<rparr>],
         tb_fallback = Some \<lparr>bound_plugin = ''control'', bound_params = JNull\<rparr>\<rparr>],
     spec_shield = \<lparr>bound_plugin = ''shield'', bound_params = JNull\<rparr>\<rparr>"

definition demo_plugin :: "string \<Rightarrow> 'w policy \<Rightarrow> fault + 'w tier_plugin option" where
  "demo_plugin name p = Inr (Some \<lparr>tp_manifest = demo_manifest\<lparr>pm_name := name\<rparr>,
     tp_factory = (\<lambda>params. Inr (Some \<lparr>obj_decide = p, obj_report = None\<rparr>))\<rparr>)"

definition demo_providers :: "(fault + action_batch list tier_plugin option) list" where
  "demo_providers = [demo_plugin ''mission'' (\<lambda>obs ctx w. (Inl (PluginFault ''solver''), w)),
     demo_plugin ''control'' (\<lambda>obs ctx w. (Inl (PluginFault ''controller''), w)),
     demo_plugin ''shield'' demo_shield]"

definition demo_found :: "unit tier_registry_error + (unit, action_batch list) tier_registry" where
  "demo_found = from_entry_points (\<lambda>_. True) None True None demo_providers"

definition demo_composed :: "unit compose_error + action_batch list hierarchy_graph" where
  "demo_composed = (case demo_found of Inr reg \<Rightarrow> compose demo_spec reg None None None None | Inl e \<Rightarrow> Inl (Escaped e))"

lemma demo_tiers_found:
  obtains reg g where "demo_found = Inr reg" "compose demo_spec reg None None None None = Inr g"
    and "shield_policy (graph_shield g) = demo_shield"
proof -
  have "is_ok demo_found \<and> is_ok demo_composed" by code_simp
  then obtain reg g where r: "demo_found = Inr reg" "compose demo_spec reg None None None None = Inr g"
    by (auto simp: is_ok_iff demo_composed_def split: sum.splits)
  have "shield_policy (graph_shield g) = demo_shield"
  proof -
    obtain ob where ob: "tier_instantiate reg ''shield'' JNull = Inr ob" "shield_policy (graph_shield g) = obj_decide ob"
      using compose_parts [OF r(2)] by (auto simp: demo_spec_def)
    have "dict_get (tr_factories reg) ''shield'' = Some (\<lambda>params. Inr (Some \<lparr>obj_decide = demo_shield, obj_report = None\<rparr>))"
      using r(1) by (auto simp: demo_found_def demo_providers_def demo_plugin_def from_entry_points_def rbind_Inr
          tier_register_def Let_def tier_registry_init_def demo_manifest_def split: if_splits)
    with ob show ?thesis by (auto simp: tier_instantiate_def rbind_Inr)
  qed
  then show ?thesis using that r by blast
qed

theorem composed_from_gated_plugins_witness:
  "\<exists>reg g. demo_found = Inr reg \<and> compose demo_spec reg None None None None = Inr g
    \<and> map node_role (graph_tiers g) = filter (\<lambda>r. r \<in> tb_role ` set (spec_tiers demo_spec)) TIER_ORDER"
proof -
  obtain reg g where r: "demo_found = Inr reg" "compose demo_spec reg None None None None = Inr g"
    by (rule demo_tiers_found)
  with composed_from_gated_plugins [OF r(1) [unfolded demo_found_def] r(2)] show ?thesis by blast
qed

theorem composed_stack_never_collapses_witness:
  "\<exists>reg g res w'. demo_found = Inr reg \<and> compose demo_spec reg None None None None = Inr g
    \<and> executive_run g demo_environment 3 None None None [] = (Inr res, w') \<and> 0 < run_ticks res"
proof -
  obtain reg g where r: "demo_found = Inr reg" "compose demo_spec reg None None None None = Inr g"
    and sh: "shield_policy (graph_shield g) = demo_shield"
    by (rule demo_tiers_found)
  have "validate_stack_spec demo_spec = Inr ()" by code_simp
  moreover have "shield_answers g" by (simp add: shield_answers_def answers_def sh demo_shield_def)
  moreover have "env_answers demo_environment" by (simp add: env_answers_def answers_def demo_environment_def st_defs)
  ultimately show ?thesis
    using composed_stack_never_collapses [OF _ r(2), of demo_environment 3 None None None "[]"] r by fastforce
qed

end
