(* ===== verification/Bench_Scenario.thy ===== *)
theory Bench_Scenario
  imports Core_Compat Json_Values Hub_Names "HOL-Library.Countable"
begin

text \<open>
  The benchmark task of \<^verbatim>\<open>bench/scenario\<close>: the specification models with their validators, the
  canonical document that content-addresses a specification, and the resolver that checks its
  pins. A specification is a typed document: JSON of the right shape, whose values the validators
  then check and normalise; a field that fails any of them makes the whole document invalid.
  The digest of a canonical document (\<^verbatim>\<open>content_hash\<close>) is a parameter, as are the digest of the
  installed Core schema set and the toolchain.
\<close>

section \<open>Content hashes\<close>

definition is_hex :: "char \<Rightarrow> bool" where
  "is_hex c = (let n = (of_char c :: nat) in
     48 \<le> n \<and> n \<le> 57 \<or> 65 \<le> n \<and> n \<le> 70 \<or> 97 \<le> n \<and> n \<le> 102)"

definition bare_sha256 :: "string \<Rightarrow> bool" where
  "bare_sha256 s = (length s = 64 \<and> list_all is_hex s)"

definition normalize_sha256 :: "string \<Rightarrow> string option" where
  "normalize_sha256 value =
    (let stripped = py_strip value;
         candidate = (if starts_with ''sha256:'' (map to_lower stripped)
                      then drop (length ''sha256:'') stripped else stripped)
     in if \<not> bare_sha256 candidate then None else Some (''sha256:'' @ map to_lower candidate))"

section \<open>The specification\<close>

record content_ref =
  ref_id :: string
  ref_hash :: string
  ref_description :: "string option"

record content_pins =
  pin_world :: content_ref
  pin_fleet :: "content_ref list"
  pin_prospect :: "content_ref list"
  pin_link :: "content_ref option"

record seed_set =
  seeds_public :: "int list"
  heldout_commit :: "string option"

datatype time_scale = TDB | ET

record epoch =
  tdb_seconds :: rat
  ep_scale :: time_scale

record episode_spec =
  horizon_steps :: int
  max_sim_seconds :: "rat option"
  start_epoch :: "epoch option"

record termination_spec =
  term_conditions :: "string list"
  term_max_steps :: "int option"

record metric_ref =
  mr_name :: string
  mr_version :: string

record budget_spec =
  wall_clock_seconds :: "rat option"
  sim_steps :: "int option"
  compute_units :: "rat option"

record site_placement =
  sp_asset :: string
  lat_deg :: rat
  lon_deg :: rat
  elevation_m :: "rat option"

record lat_lon_region =
  region_lat :: "rat \<times> rat"
  region_lon :: "rat \<times> rat"

record scoring_spec =
  psr_region :: "lat_lon_region option"
  cell_area_m2 :: "rat option"
  characterized_variance_threshold :: "rat option"
  discovery_threshold :: "rat option"

record scenario_spec =
  scenario_id :: string
  sc_name :: string
  spec_version :: string
  sc_description :: "string option"
  core_interface :: "(string, string) dict"
  core_schema_digest :: "string option"
  sc_content :: content_pins
  sc_seeds :: seed_set
  sc_episode :: episode_spec
  sc_termination :: termination_spec
  sc_metrics :: "metric_ref list"
  sc_budgets :: budget_spec
  sc_placement :: "site_placement list option"
  sc_scoring :: "scoring_spec option"

section \<open>Validation\<close>

text \<open>\<^verbatim>\<open>None\<close> is the validation error. An absent optional field is not checked.\<close>

definition opt_ok :: "('a \<Rightarrow> bool) \<Rightarrow> 'a option \<Rightarrow> bool" where
  "opt_ok p x = (case x of None \<Rightarrow> True | Some v \<Rightarrow> p v)"

definition opt_traverse :: "('a \<Rightarrow> 'b option) \<Rightarrow> 'a option \<Rightarrow> 'b option option" where
  "opt_traverse f x = (case x of None \<Rightarrow> Some None | Some v \<Rightarrow> map_option Some (f v))"

definition version_ok :: "string \<Rightarrow> bool" where
  "version_ok v = is_ok (parse_version v)"

definition check_ref :: "content_ref \<Rightarrow> content_ref option" where
  "check_ref r =
    (if ref_id r = [] then None
     else map_option (\<lambda>h. r\<lparr>ref_hash := h\<rparr>) (normalize_sha256 (ref_hash r)))"

definition check_pins :: "content_pins \<Rightarrow> content_pins option" where
  "check_pins p =
    Option.bind (check_ref (pin_world p)) (\<lambda>w.
    Option.bind (those (map check_ref (pin_fleet p))) (\<lambda>fleet.
    Option.bind (those (map check_ref (pin_prospect p))) (\<lambda>prospect.
    Option.bind (opt_traverse check_ref (pin_link p)) (\<lambda>link.
      if fleet = [] then None
      else Some \<lparr>pin_world = w, pin_fleet = fleet, pin_prospect = prospect, pin_link = link\<rparr>))))"

definition check_seeds :: "seed_set \<Rightarrow> seed_set option" where
  "check_seeds s =
    (if seeds_public s = [] then None
     else map_option (\<lambda>c. s\<lparr>heldout_commit := c\<rparr>) (opt_traverse normalize_sha256 (heldout_commit s)))"

definition episode_ok :: "episode_spec \<Rightarrow> bool" where
  "episode_ok e = (0 < horizon_steps e \<and> opt_ok (\<lambda>x. 0 < x) (max_sim_seconds e))"

definition termination_ok :: "termination_spec \<Rightarrow> bool" where
  "termination_ok t = opt_ok (\<lambda>n. 0 < n) (term_max_steps t)"

definition metric_ref_ok :: "metric_ref \<Rightarrow> bool" where
  "metric_ref_ok m = (mr_name m \<noteq> [] \<and> version_ok (mr_version m))"

definition budgets_ok :: "budget_spec \<Rightarrow> bool" where
  "budgets_ok b =
    (opt_ok (\<lambda>x. 0 < x) (wall_clock_seconds b) \<and> opt_ok (\<lambda>n. 0 < n) (sim_steps b)
     \<and> opt_ok (\<lambda>x. 0 < x) (compute_units b))"

text \<open>\<^verbatim>\<open>value % 360.0\<close>: the remainder has the sign of the divisor.\<close>

definition normalize_longitude :: "rat \<Rightarrow> rat" where
  "normalize_longitude x = x - 360 * of_int \<lfloor>x / 360\<rfloor>"

definition check_site :: "site_placement \<Rightarrow> site_placement option" where
  "check_site s =
    (if sp_asset s = [] \<or> lat_deg s < - 90 \<or> 90 < lat_deg s \<or> lon_deg s < - 180 \<or> 360 \<le> lon_deg s
     then None else Some (s\<lparr>lon_deg := normalize_longitude (lon_deg s)\<rparr>))"

definition check_placement :: "site_placement list \<Rightarrow> site_placement list option" where
  "check_placement sites =
    Option.bind (those (map check_site sites)) (\<lambda>ss.
      if ss = [] \<or> \<not> distinct (map sp_asset ss) then None else Some ss)"

definition region_ok :: "lat_lon_region \<Rightarrow> bool" where
  "region_ok r =
    (let (la, lb) = region_lat r; (oa, ob) = region_lon r
     in - 90 \<le> la \<and> la < lb \<and> lb \<le> 90 \<and> oa < ob \<and> ob - oa \<le> 360)"

definition scoring_ok :: "scoring_spec \<Rightarrow> bool" where
  "scoring_ok s =
    (opt_ok region_ok (psr_region s) \<and> opt_ok (\<lambda>x. 0 < x) (cell_area_m2 s)
     \<and> opt_ok (\<lambda>x. 0 < x) (characterized_variance_threshold s)
     \<and> opt_ok (\<lambda>x. 0 < x) (discovery_threshold s))"

definition interfaces_ok :: "(string, string) dict \<Rightarrow> bool" where
  "interfaces_ok d = (d \<noteq> [] \<and> list_all (\<lambda>(n, v). n \<noteq> [] \<and> version_ok v) d)"

text \<open>Every placed asset is one the scenario pins.\<close>

definition placement_pinned :: "scenario_spec \<Rightarrow> bool" where
  "placement_pinned s =
    (case sc_placement s of
       None \<Rightarrow> True
     | Some sites \<Rightarrow> list_all (\<lambda>x. sp_asset x \<in> ref_id ` set (pin_fleet (sc_content s))) sites)"

definition validate_spec :: "scenario_spec \<Rightarrow> scenario_spec option" where
  "validate_spec s =
    (if scenario_id s = [] \<or> sc_name s = [] \<or> \<not> version_ok (spec_version s)
        \<or> \<not> interfaces_ok (core_interface s) \<or> \<not> episode_ok (sc_episode s)
        \<or> \<not> termination_ok (sc_termination s) \<or> sc_metrics s = []
        \<or> \<not> list_all metric_ref_ok (sc_metrics s) \<or> \<not> budgets_ok (sc_budgets s)
        \<or> \<not> opt_ok scoring_ok (sc_scoring s)
     then None
     else
       Option.bind (opt_traverse normalize_sha256 (core_schema_digest s)) (\<lambda>schema.
       Option.bind (check_pins (sc_content s)) (\<lambda>pins.
       Option.bind (check_seeds (sc_seeds s)) (\<lambda>seeds.
       Option.bind (opt_traverse check_placement (sc_placement s)) (\<lambda>placement.
         let t = s\<lparr>core_schema_digest := schema, sc_content := pins, sc_seeds := seeds,
                   sc_placement := placement\<rparr>
         in if placement_pinned t then Some t else None)))))"

section \<open>The canonical document\<close>

text \<open>
  \<^verbatim>\<open>model_dump(mode="json", exclude_defaults=True)\<close>: a field that holds its declared default is
  left out, an optional block like any other field.
\<close>

definition field :: "string \<Rightarrow> ('a \<Rightarrow> json) \<Rightarrow> 'a \<Rightarrow> (string, json) dict" where
  "field k f x = [(k, f x)]"

definition opt_field :: "string \<Rightarrow> ('a \<Rightarrow> json) \<Rightarrow> 'a option \<Rightarrow> (string, json) dict" where
  "opt_field k f x = (case x of None \<Rightarrow> [] | Some v \<Rightarrow> [(k, f v)])"

definition default_field :: "string \<Rightarrow> ('a \<Rightarrow> json) \<Rightarrow> 'a \<Rightarrow> 'a \<Rightarrow> (string, json) dict" where
  "default_field k f d x = (if x = d then [] else [(k, f x)])"

definition j_int :: "int \<Rightarrow> json" where
  "j_int n = JNum (of_int n)"

definition j_list :: "('a \<Rightarrow> json) \<Rightarrow> 'a list \<Rightarrow> json" where
  "j_list f xs = JList (map f xs)"

definition j_pair :: "rat \<times> rat \<Rightarrow> json" where
  "j_pair p = JList [JNum (fst p), JNum (snd p)]"

definition j_strings :: "(string, string) dict \<Rightarrow> json" where
  "j_strings d = JObj (map (map_prod id JStr) d)"

definition ref_json :: "content_ref \<Rightarrow> json" where
  "ref_json r = JObj (field ''id'' JStr (ref_id r) @ field ''content_hash'' JStr (ref_hash r)
    @ opt_field ''description'' JStr (ref_description r))"

definition pins_json :: "content_pins \<Rightarrow> json" where
  "pins_json p = JObj (field ''world'' ref_json (pin_world p)
    @ field ''fleet'' (j_list ref_json) (pin_fleet p)
    @ default_field ''prospect'' (j_list ref_json) [] (pin_prospect p)
    @ opt_field ''link'' ref_json (pin_link p))"

definition seeds_json :: "seed_set \<Rightarrow> json" where
  "seeds_json s = JObj (field ''public'' (j_list j_int) (seeds_public s)
    @ opt_field ''heldout_commit'' JStr (heldout_commit s))"

definition epoch_json :: "epoch \<Rightarrow> json" where
  "epoch_json e = JObj (field ''tdb_seconds'' JNum (tdb_seconds e)
    @ field ''scale'' (\<lambda>s. JStr (case s of TDB \<Rightarrow> ''tdb'' | ET \<Rightarrow> ''et'')) (ep_scale e))"

definition episode_json :: "episode_spec \<Rightarrow> json" where
  "episode_json e = JObj (field ''horizon_steps'' j_int (horizon_steps e)
    @ opt_field ''max_sim_seconds'' JNum (max_sim_seconds e)
    @ opt_field ''start_epoch'' epoch_json (start_epoch e))"

definition termination_json :: "termination_spec \<Rightarrow> json" where
  "termination_json t = JObj (default_field ''conditions'' (j_list JStr) [] (term_conditions t)
    @ opt_field ''max_steps'' j_int (term_max_steps t))"

definition metric_ref_json :: "metric_ref \<Rightarrow> json" where
  "metric_ref_json m = JObj (field ''name'' JStr (mr_name m)
    @ default_field ''version'' JStr ''0.1.0'' (mr_version m))"

definition budgets_json :: "budget_spec \<Rightarrow> json" where
  "budgets_json b = JObj (opt_field ''wall_clock_seconds'' JNum (wall_clock_seconds b)
    @ opt_field ''sim_steps'' j_int (sim_steps b)
    @ opt_field ''compute_units'' JNum (compute_units b))"

definition site_json :: "site_placement \<Rightarrow> json" where
  "site_json s = JObj (field ''asset'' JStr (sp_asset s) @ field ''lat_deg'' JNum (lat_deg s)
    @ field ''lon_deg'' JNum (lon_deg s) @ opt_field ''elevation_m'' JNum (elevation_m s))"

definition region_json :: "lat_lon_region \<Rightarrow> json" where
  "region_json r = JObj (field ''lat_deg'' j_pair (region_lat r)
    @ field ''lon_deg'' j_pair (region_lon r))"

definition scoring_json :: "scoring_spec \<Rightarrow> json" where
  "scoring_json s = JObj (opt_field ''psr_region'' region_json (psr_region s)
    @ opt_field ''cell_area_m2'' JNum (cell_area_m2 s)
    @ opt_field ''characterized_variance_threshold'' JNum (characterized_variance_threshold s)
    @ opt_field ''discovery_threshold'' JNum (discovery_threshold s))"

definition placement_json :: "site_placement list \<Rightarrow> json" where
  "placement_json ss = JObj (field ''sites'' (j_list site_json) ss)"

definition spec_json :: "scenario_spec \<Rightarrow> json" where
  "spec_json s = JObj (field ''scenario_id'' JStr (scenario_id s) @ field ''name'' JStr (sc_name s)
    @ default_field ''spec_version'' JStr ''0.1.0'' (spec_version s)
    @ opt_field ''description'' JStr (sc_description s)
    @ field ''core_interface'' j_strings (core_interface s)
    @ opt_field ''core_schema_digest'' JStr (core_schema_digest s)
    @ field ''content'' pins_json (sc_content s) @ field ''seeds'' seeds_json (sc_seeds s)
    @ field ''episode'' episode_json (sc_episode s)
    @ default_field ''termination'' termination_json
        \<lparr>term_conditions = [], term_max_steps = None\<rparr> (sc_termination s)
    @ field ''metrics'' (j_list metric_ref_json) (sc_metrics s)
    @ default_field ''budgets'' budgets_json
        \<lparr>wall_clock_seconds = None, sim_steps = None, compute_units = None\<rparr> (sc_budgets s)
    @ opt_field ''placement'' placement_json (sc_placement s)
    @ opt_field ''scoring'' scoring_json (sc_scoring s))"

definition spec_hash :: "(json \<Rightarrow> string) \<Rightarrow> scenario_spec \<Rightarrow> string" where
  "spec_hash H s = H (spec_json s)"

section \<open>Resolution\<close>

definition content_refs :: "scenario_spec \<Rightarrow> content_ref list" where
  "content_refs s =
    (let c = sc_content s
     in pin_world c # pin_fleet c @ pin_prospect c
        @ (case pin_link c of None \<Rightarrow> [] | Some l \<Rightarrow> [l]))"

datatype scenario_error =
    CoreGate compat_error
  | NotASha256 string
  | IncompatibleCoreSchema string string
  | ConflictingPins string string string

record resolved_scenario =
  rs_scenario_id :: string
  rs_scenario_hash :: string
  rs_spec :: scenario_spec
  rs_spec_hash :: string
  rs_content_hashes :: "(string, string) dict"
  rs_core_interface :: "(string, string) dict"
  rs_core_schema_digest :: string
  rs_toolchain :: "(string, string) dict"

fun collect_hashes ::
    "(string, string) dict \<Rightarrow> content_ref list \<Rightarrow> scenario_error + (string, string) dict" where
  "collect_hashes acc [] = Inr acc"
| "collect_hashes acc (r # rs) =
    (case dict_get acc (ref_id r) of
       Some existing \<Rightarrow>
         if existing \<noteq> ref_hash r then Inl (ConflictingPins (ref_id r) existing (ref_hash r))
         else collect_hashes (dict_set acc (ref_id r) (ref_hash r)) rs
     | None \<Rightarrow> collect_hashes (dict_set acc (ref_id r) (ref_hash r)) rs)"

definition installed_schema_digest :: "string \<Rightarrow> string option \<Rightarrow> scenario_error + string" where
  "installed_schema_digest SCHEMA_DIGEST provided =
    (case provided of
       None \<Rightarrow> Inr SCHEMA_DIGEST
     | Some d \<Rightarrow> (case normalize_sha256 d of None \<Rightarrow> Inl (NotASha256 d) | Some h \<Rightarrow> Inr h))"

definition scenario_address :: "(json \<Rightarrow> string) \<Rightarrow> string \<Rightarrow> (string, string) dict \<Rightarrow> string" where
  "scenario_address H h toolchain =
    H (JObj [(''spec_hash'', JStr h), (''toolchain'', j_strings toolchain)])"

definition resolve_scenario ::
    "(json \<Rightarrow> string) \<Rightarrow> string \<Rightarrow> scenario_spec \<Rightarrow> (string, string) dict option \<Rightarrow> string option
      \<Rightarrow> (string, string) dict \<Rightarrow> scenario_error + resolved_scenario" where
  "resolve_scenario H SCHEMA_DIGEST s provided_core provided_schema_digest toolchain =
    rbind (rerr CoreGate (assert_core_compatible (core_interface s) provided_core)) (\<lambda>_.
    rbind (installed_schema_digest SCHEMA_DIGEST provided_schema_digest) (\<lambda>installed.
      if \<not> opt_ok (\<lambda>d. d = installed) (core_schema_digest s)
      then Inl (IncompatibleCoreSchema (the (core_schema_digest s)) installed)
      else
        rbind (collect_hashes [] (content_refs s)) (\<lambda>hashes.
          Inr \<lparr>rs_scenario_id = scenario_id s,
               rs_scenario_hash = scenario_address H (spec_hash H s) (sort toolchain),
               rs_spec = s, rs_spec_hash = spec_hash H s, rs_content_hashes = sort hashes,
               rs_core_interface = sort (core_interface s),
               rs_core_schema_digest = installed, rs_toolchain = sort toolchain\<rparr>)))"

section \<open>Content hashes normalise once\<close>

lemma is_hex_lower: "is_hex c \<Longrightarrow> is_hex (to_lower c) \<and> \<not> is_space (to_lower c) \<and> to_lower (to_lower c) = to_lower c"
  by (auto simp: is_hex_def to_lower_def is_space_def Let_def split: if_splits)

lemma normalize_sha256_Some:
  assumes "normalize_sha256 v = Some h"
  obtains c where "h = ''sha256:'' @ map to_lower c" "length c = 64" "list_all is_hex c"
  using assms by (auto simp: normalize_sha256_def bare_sha256_def Let_def split: if_splits)

lemma normalize_sha256_idem:
  assumes "normalize_sha256 v = Some h"
  shows "normalize_sha256 h = Some h"
proof -
  obtain c where h: "h = ''sha256:'' @ map to_lower c" and c: "length c = 64" "list_all is_hex c"
    using assms by (rule normalize_sha256_Some)
  let ?l = "map to_lower c"
  have l: "list_all is_hex ?l" "map to_lower ?l = ?l" "list_all (\<lambda>x. \<not> is_space x) ?l"
    using c(2) by (auto simp: list_all_iff is_hex_lower)
  have "?l \<noteq> []" using c(1) by auto
  then have "\<not> is_space (last h)"
    using l(3) h last_in_set [of ?l] by (auto simp: list_all_iff)
  then have strip: "py_strip h = h"
    by (intro py_strip_id) (auto simp: h is_space_def)
  have low: "map to_lower h = h"
    using l(2) by (simp add: h to_lower_def)
  have sw: "starts_with ''sha256:'' h" and dr: "drop (length ''sha256:'') h = ?l"
    unfolding h by (simp_all only: starts_with_append append_eq_conv_conj) simp
  have whole: "''sha256:'' @ ?l = h" by (simp add: h)
  show ?thesis
    unfolding normalize_sha256_def Let_def strip low
    using sw dr whole l c(1) by (simp only: if_True bare_sha256_def length_map simp_thms if_False)
qed

section \<open>Validation is idempotent\<close>

lemma opt_traverse_idem:
  "(\<And>x y. f x = Some y \<Longrightarrow> f y = Some y) \<Longrightarrow> opt_traverse f x = Some y \<Longrightarrow> opt_traverse f y = Some y"
  by (auto simp: opt_traverse_def split: option.splits)

lemma those_map_idem:
  "(\<And>x y. f x = Some y \<Longrightarrow> f y = Some y) \<Longrightarrow> those (map f xs) = Some ys \<Longrightarrow> those (map f ys) = Some ys"
  by (induction xs arbitrary: ys) (auto split: option.splits)

lemma those_map_keep:
  "(\<And>x y. f x = Some y \<Longrightarrow> g y = g x) \<Longrightarrow> those (map f xs) = Some ys \<Longrightarrow> map g ys = map g xs"
  by (induction xs arbitrary: ys) (auto split: option.splits)

lemma check_ref_idem: "check_ref r = Some r' \<Longrightarrow> check_ref r' = Some r'"
  by (auto simp: check_ref_def normalize_sha256_idem split: if_splits)

lemma check_refs_idem: "those (map check_ref xs) = Some ys \<Longrightarrow> those (map check_ref ys) = Some ys"
  by (rule those_map_idem [OF check_ref_idem])

lemma opt_ref_idem: "opt_traverse check_ref x = Some y \<Longrightarrow> opt_traverse check_ref y = Some y"
  by (rule opt_traverse_idem [OF check_ref_idem])

lemma opt_hash_idem: "opt_traverse normalize_sha256 x = Some y \<Longrightarrow> opt_traverse normalize_sha256 y = Some y"
  by (rule opt_traverse_idem [OF normalize_sha256_idem])

lemma check_pins_idem:
  assumes "check_pins p = Some p'"
  shows "check_pins p' = Some p'"
proof -
  obtain w fleet prospect link where
    w: "check_ref (pin_world p) = Some w" and f: "those (map check_ref (pin_fleet p)) = Some fleet"
    and pr: "those (map check_ref (pin_prospect p)) = Some prospect"
    and l: "opt_traverse check_ref (pin_link p) = Some link" and ne: "fleet \<noteq> []"
    and p': "p' = \<lparr>pin_world = w, pin_fleet = fleet, pin_prospect = prospect, pin_link = link\<rparr>"
    using assms by (auto simp: check_pins_def bind_eq_Some_conv split: if_splits)
  show ?thesis
    using check_ref_idem [OF w] check_refs_idem [OF f] check_refs_idem [OF pr] opt_ref_idem [OF l] ne
    by (simp add: check_pins_def p')
qed

lemma check_seeds_idem:
  assumes "check_seeds s = Some s'"
  shows "check_seeds s' = Some s'"
proof -
  obtain c where "seeds_public s \<noteq> []" and c: "opt_traverse normalize_sha256 (heldout_commit s) = Some c"
    and s': "s' = s\<lparr>heldout_commit := c\<rparr>"
    using assms by (auto simp: check_seeds_def split: if_splits)
  then show ?thesis
    using opt_hash_idem [OF c] by (simp add: check_seeds_def)
qed

lemma normalize_longitude_range:
  "0 \<le> normalize_longitude x \<and> normalize_longitude x < 360"
proof -
  have "of_int \<lfloor>x / 360\<rfloor> \<le> x / 360" "x / 360 < of_int \<lfloor>x / 360\<rfloor> + 1"
    by linarith+
  then show ?thesis
    unfolding normalize_longitude_def by linarith
qed

lemma normalize_longitude_id: "0 \<le> x \<Longrightarrow> x < 360 \<Longrightarrow> normalize_longitude x = x"
proof -
  assume "0 \<le> x" "x < 360"
  then have "\<lfloor>x / 360\<rfloor> = 0" by (simp add: floor_eq_iff)
  then show ?thesis by (simp add: normalize_longitude_def)
qed

lemma check_site_idem: "check_site s = Some s' \<Longrightarrow> check_site s' = Some s'"
proof -
  assume s: "check_site s = Some s'"
  have range: "0 \<le> normalize_longitude (lon_deg s)" "normalize_longitude (lon_deg s) < 360"
    using normalize_longitude_range [of "lon_deg s"] by simp_all
  have s': "s' = s\<lparr>lon_deg := normalize_longitude (lon_deg s)\<rparr>"
    and ok: "sp_asset s \<noteq> []" "- 90 \<le> lat_deg s" "lat_deg s \<le> 90"
    using s by (auto simp: check_site_def split: if_splits)
  show ?thesis
    using range ok by (simp add: check_site_def s' normalize_longitude_id)
qed

lemma check_placement_idem: "check_placement s = Some s' \<Longrightarrow> check_placement s' = Some s'"
proof -
  assume "check_placement s = Some s'"
  then have "those (map check_site s) = Some s'" "s' \<noteq> []" "distinct (map sp_asset s')"
    by (auto simp: check_placement_def bind_eq_Some_conv split: if_splits)
  then show ?thesis
    using those_map_idem [where f = check_site and xs = s and ys = s', OF check_site_idem] by (simp add: check_placement_def)
qed

text \<open>
  A validated specification is a fixed point of validation: every hash is in the one canonical
  form and every longitude is in its one range, so one task has one document.
\<close>

lemma validate_spec_Some:
  assumes "validate_spec s = Some t"
  obtains schema pins seeds placement where
    "opt_traverse normalize_sha256 (core_schema_digest s) = Some schema"
    "check_pins (sc_content s) = Some pins" "check_seeds (sc_seeds s) = Some seeds"
    "opt_traverse check_placement (sc_placement s) = Some placement" "placement_pinned t"
    "t = s\<lparr>core_schema_digest := schema, sc_content := pins, sc_seeds := seeds,
           sc_placement := placement\<rparr>"
    "scenario_id s \<noteq> []" "sc_name s \<noteq> []" "version_ok (spec_version s)"
    "interfaces_ok (core_interface s)" "episode_ok (sc_episode s)"
    "termination_ok (sc_termination s)" "sc_metrics s \<noteq> []"
    "list_all metric_ref_ok (sc_metrics s)" "budgets_ok (sc_budgets s)"
    "opt_ok scoring_ok (sc_scoring s)"
  using assms
  by (force simp: validate_spec_def bind_eq_Some_conv Let_def split: if_splits)

lemma validate_spec_idem:
  assumes "validate_spec s = Some t"
  shows "validate_spec t = Some t"
  using assms
proof (rule validate_spec_Some)
  fix schema pins seeds placement
  assume a: "opt_traverse normalize_sha256 (core_schema_digest s) = Some schema"
    "check_pins (sc_content s) = Some pins" "check_seeds (sc_seeds s) = Some seeds"
    "opt_traverse check_placement (sc_placement s) = Some placement" "placement_pinned t"
    and t: "t = s\<lparr>core_schema_digest := schema, sc_content := pins, sc_seeds := seeds,
           sc_placement := placement\<rparr>"
    and ok: "scenario_id s \<noteq> []" "sc_name s \<noteq> []" "version_ok (spec_version s)"
    "interfaces_ok (core_interface s)" "episode_ok (sc_episode s)"
    "termination_ok (sc_termination s)" "sc_metrics s \<noteq> []"
    "list_all metric_ref_ok (sc_metrics s)" "budgets_ok (sc_budgets s)"
    "opt_ok scoring_ok (sc_scoring s)"
  have "t\<lparr>core_schema_digest := schema, sc_content := pins, sc_seeds := seeds,
           sc_placement := placement\<rparr> = t"
    by (simp add: t)
  then show ?thesis
    using opt_hash_idem [OF a(1)] check_pins_idem [OF a(2)] check_seeds_idem [OF a(3)]
      opt_traverse_idem [OF check_placement_idem a(4)] a(5) ok
    by (simp add: validate_spec_def t Let_def)
qed

section \<open>The canonical document determines the specification\<close>

lemma obj_norm_lookup:
  "json_norm (JObj d) = json_norm (JObj d')
    \<Longrightarrow> map_option json_norm (map_of d k) = map_option json_norm (map_of d' k)"
  unfolding json_norm.simps json.inject by (metis map_of_norm map_of_sort_key)

lemma lookup_append:
  "map_of (xs @ ys) k = (case map_of xs k of None \<Rightarrow> map_of ys k | Some v \<Rightarrow> Some v)"
  by (simp add: map_of_append map_add_def split: option.splits)

lemma lookup_field [simp]: "map_of (field k f x) k' = (if k' = k then Some (f x) else None)"
  by (simp add: field_def)

lemma lookup_opt_field [simp]: "map_of (opt_field k f x) k' = (if k' = k then map_option f x else None)"
  by (simp add: opt_field_def split: option.split)

lemma lookup_default_field [simp]:
  "map_of (default_field k f d x) k' = (if k' = k \<and> x \<noteq> d then Some (f x) else None)"
  by (simp add: default_field_def)

definition norm_inj :: "('a \<Rightarrow> json) \<Rightarrow> bool" where
  "norm_inj f = inj (\<lambda>x. json_norm (f x))"

lemma norm_injD: "norm_inj f \<Longrightarrow> json_norm (f x) = json_norm (f y) \<Longrightarrow> x = y"
  by (auto simp: norm_inj_def dest: injD)

lemma norm_injI: "(\<And>x y. json_norm (f x) = json_norm (f y) \<Longrightarrow> x = y) \<Longrightarrow> norm_inj f"
  by (auto simp: norm_inj_def intro: injI)

lemma norm_inj_opt: "norm_inj f \<Longrightarrow> map_option json_norm (map_option f x) = map_option json_norm (map_option f y) \<Longrightarrow> x = y"
  by (cases x; cases y) (auto dest: norm_injD)

lemma norm_inj_default:
  "norm_inj f \<Longrightarrow> map_option json_norm (if x = d then None else Some (f x))
      = map_option json_norm (if y = d then None else Some (f y)) \<Longrightarrow> x = y"
  by (auto dest: norm_injD split: if_splits)

lemma norm_inj_JStr: "norm_inj JStr" by (rule norm_injI) simp
lemma norm_inj_JNum: "norm_inj JNum" by (rule norm_injI) simp
lemma norm_inj_j_int: "norm_inj j_int" by (rule norm_injI) (simp add: j_int_def)

lemma norm_inj_j_list: "norm_inj f \<Longrightarrow> norm_inj (j_list f)"
proof (rule norm_injI)
  fix xs ys
  assume f: "norm_inj f" and "json_norm (j_list f xs) = json_norm (j_list f ys)"
  then have "map (\<lambda>x. json_norm (f x)) xs = map (\<lambda>x. json_norm (f x)) ys"
    by (simp add: j_list_def comp_def)
  then show "xs = ys"
    using f by (simp add: norm_inj_def inj_map_eq_map)
qed

lemma norm_inj_j_pair: "norm_inj j_pair"
  by (rule norm_injI) (auto simp: j_pair_def prod_eq_iff)

lemma norm_j_strings: "json_norm (j_strings d) = JObj (sort_key fst (map (map_prod id JStr) d))"
  by (simp add: j_strings_def map_prod_def case_prod_unfold comp_def)

primrec un_str :: "json \<Rightarrow> string" where
  "un_str (JStr s) = s"

lemma j_strings_sorted:
  assumes "json_norm (j_strings d) = json_norm (j_strings d')"
  shows "sort d = sort d'"
proof -
  have "mset (map (map_prod id JStr) d) = mset (map (map_prod id JStr) d')"
    using assms unfolding norm_j_strings json.inject by (metis mset_sort)
  then have "mset (map (map_prod id un_str) (map (map_prod id JStr) d))
      = mset (map (map_prod id un_str) (map (map_prod id JStr) d'))"
    by (metis mset_map)
  then have "mset d = mset d'"
    by (simp add: prod.map_comp comp_def prod.map_ident)
  then show ?thesis
    using properties_for_sort sorted_sort mset_sort by metis
qed

text \<open>The keys of one object are looked up in turn.\<close>

named_theorems norm_injs \<open>documents that determine their value\<close>
declare norm_inj_JStr [norm_injs] norm_inj_JNum [norm_injs] norm_inj_j_int [norm_injs]
  norm_inj_j_pair [norm_injs] norm_inj_j_list [norm_injs]

lemma obj_field:
  assumes "json_norm (JObj d) = json_norm (JObj d')" "norm_inj f"
    "map_of d k = Some (f x)" "map_of d' k = Some (f y)"
  shows "x = y"
  using obj_norm_lookup [OF assms(1), of k] assms by (auto dest: norm_injD)

lemma obj_opt:
  assumes "json_norm (JObj d) = json_norm (JObj d')" "norm_inj f"
    "map_of d k = map_option f x" "map_of d' k = map_option f y"
  shows "x = y"
  using obj_norm_lookup [OF assms(1), of k] assms norm_inj_opt by metis

lemma obj_default:
  assumes "json_norm (JObj d) = json_norm (JObj d')" "norm_inj f"
    "map_of d k = (if x = z then None else Some (f x))"
    "map_of d' k = (if y = z then None else Some (f y))"
  shows "x = y"
  using obj_norm_lookup [OF assms(1), of k] assms by (auto dest: norm_injD split: if_splits)

lemma ref_json_inj [norm_injs]: "norm_inj ref_json"
proof (rule norm_injI)
  fix r r' assume "json_norm (ref_json r) = json_norm (ref_json r')"
  note e = this [unfolded ref_json_def]
  have "ref_id r = ref_id r'"
    by (rule obj_field [OF e, where k = "''id''" and f = "JStr"]) (simp_all add: norm_injs lookup_append del: map_of_append split: option.split)
  moreover have "ref_hash r = ref_hash r'"
    by (rule obj_field [OF e, where k = "''content_hash''" and f = "JStr"]) (simp_all add: norm_injs lookup_append del: map_of_append split: option.split)
  moreover have "ref_description r = ref_description r'"
    by (rule obj_opt [OF e, where k = "''description''" and f = "JStr"]) (simp_all add: norm_injs lookup_append del: map_of_append split: option.split)
  ultimately show "r = r'" by simp
qed

lemma pins_json_inj [norm_injs]: "norm_inj pins_json"
proof (rule norm_injI)
  fix r r' assume "json_norm (pins_json r) = json_norm (pins_json r')"
  note e = this [unfolded pins_json_def]
  have "pin_world r = pin_world r'"
    by (rule obj_field [OF e, where k = "''world''" and f = "ref_json"]) (simp_all add: norm_injs lookup_append del: map_of_append split: option.split)
  moreover have "pin_fleet r = pin_fleet r'"
    by (rule obj_field [OF e, where k = "''fleet''" and f = "j_list ref_json"]) (simp_all add: norm_injs lookup_append del: map_of_append split: option.split)
  moreover have "pin_prospect r = pin_prospect r'"
    by (rule obj_default [OF e, where k = "''prospect''" and f = "j_list ref_json"
        and z = "[]"]) (simp_all add: norm_injs lookup_append del: map_of_append split: option.split)
  moreover have "pin_link r = pin_link r'"
    by (rule obj_opt [OF e, where k = "''link''" and f = "ref_json"]) (simp_all add: norm_injs lookup_append del: map_of_append split: option.split)
  ultimately show "r = r'" by simp
qed

lemma seeds_json_inj [norm_injs]: "norm_inj seeds_json"
proof (rule norm_injI)
  fix r r' assume "json_norm (seeds_json r) = json_norm (seeds_json r')"
  note e = this [unfolded seeds_json_def]
  have "seeds_public r = seeds_public r'"
    by (rule obj_field [OF e, where k = "''public''" and f = "j_list j_int"]) (simp_all add: norm_injs lookup_append del: map_of_append split: option.split)
  moreover have "heldout_commit r = heldout_commit r'"
    by (rule obj_opt [OF e, where k = "''heldout_commit''" and f = "JStr"]) (simp_all add: norm_injs lookup_append del: map_of_append split: option.split)
  ultimately show "r = r'" by simp
qed

lemma norm_inj_scale [norm_injs]:
  "norm_inj (\<lambda>s. JStr (case s of TDB \<Rightarrow> ''tdb'' | ET \<Rightarrow> ''et''))"
  by (rule norm_injI) (auto split: time_scale.splits)

lemma epoch_json_inj [norm_injs]: "norm_inj epoch_json"
proof (rule norm_injI)
  fix r r' assume "json_norm (epoch_json r) = json_norm (epoch_json r')"
  note e = this [unfolded epoch_json_def]
  have "tdb_seconds r = tdb_seconds r'"
    by (rule obj_field [OF e, where k = "''tdb_seconds''" and f = "JNum"]) (simp_all add: norm_injs lookup_append del: map_of_append split: option.split)
  moreover have "ep_scale r = ep_scale r'"
    by (rule obj_field [OF e, where k = "''scale''" and f = "\<lambda>s. JStr (case s of TDB \<Rightarrow> ''tdb'' | ET \<Rightarrow> ''et'')"]) (simp_all add: norm_injs lookup_append del: map_of_append split: option.split)
  ultimately show "r = r'" by simp
qed

lemma episode_json_inj [norm_injs]: "norm_inj episode_json"
proof (rule norm_injI)
  fix r r' assume "json_norm (episode_json r) = json_norm (episode_json r')"
  note e = this [unfolded episode_json_def]
  have "horizon_steps r = horizon_steps r'"
    by (rule obj_field [OF e, where k = "''horizon_steps''" and f = "j_int"]) (simp_all add: norm_injs lookup_append del: map_of_append split: option.split)
  moreover have "max_sim_seconds r = max_sim_seconds r'"
    by (rule obj_opt [OF e, where k = "''max_sim_seconds''" and f = "JNum"]) (simp_all add: norm_injs lookup_append del: map_of_append split: option.split)
  moreover have "start_epoch r = start_epoch r'"
    by (rule obj_opt [OF e, where k = "''start_epoch''" and f = "epoch_json"]) (simp_all add: norm_injs lookup_append del: map_of_append split: option.split)
  ultimately show "r = r'" by simp
qed

lemma termination_json_inj [norm_injs]: "norm_inj termination_json"
proof (rule norm_injI)
  fix r r' assume "json_norm (termination_json r) = json_norm (termination_json r')"
  note e = this [unfolded termination_json_def]
  have "term_conditions r = term_conditions r'"
    by (rule obj_default [OF e, where k = "''conditions''" and f = "j_list JStr"
        and z = "[]"]) (simp_all add: norm_injs lookup_append del: map_of_append split: option.split)
  moreover have "term_max_steps r = term_max_steps r'"
    by (rule obj_opt [OF e, where k = "''max_steps''" and f = "j_int"]) (simp_all add: norm_injs lookup_append del: map_of_append split: option.split)
  ultimately show "r = r'" by simp
qed

lemma metric_ref_json_inj [norm_injs]: "norm_inj metric_ref_json"
proof (rule norm_injI)
  fix r r' assume "json_norm (metric_ref_json r) = json_norm (metric_ref_json r')"
  note e = this [unfolded metric_ref_json_def]
  have "mr_name r = mr_name r'"
    by (rule obj_field [OF e, where k = "''name''" and f = "JStr"]) (simp_all add: norm_injs lookup_append del: map_of_append split: option.split)
  moreover have "mr_version r = mr_version r'"
    by (rule obj_default [OF e, where k = "''version''" and f = "JStr"
        and z = "''0.1.0''"]) (simp_all add: norm_injs lookup_append del: map_of_append split: option.split)
  ultimately show "r = r'" by simp
qed

lemma budgets_json_inj [norm_injs]: "norm_inj budgets_json"
proof (rule norm_injI)
  fix r r' assume "json_norm (budgets_json r) = json_norm (budgets_json r')"
  note e = this [unfolded budgets_json_def]
  have "wall_clock_seconds r = wall_clock_seconds r'"
    by (rule obj_opt [OF e, where k = "''wall_clock_seconds''" and f = "JNum"]) (simp_all add: norm_injs lookup_append del: map_of_append split: option.split)
  moreover have "sim_steps r = sim_steps r'"
    by (rule obj_opt [OF e, where k = "''sim_steps''" and f = "j_int"]) (simp_all add: norm_injs lookup_append del: map_of_append split: option.split)
  moreover have "compute_units r = compute_units r'"
    by (rule obj_opt [OF e, where k = "''compute_units''" and f = "JNum"]) (simp_all add: norm_injs lookup_append del: map_of_append split: option.split)
  ultimately show "r = r'" by simp
qed

lemma site_json_inj [norm_injs]: "norm_inj site_json"
proof (rule norm_injI)
  fix r r' assume "json_norm (site_json r) = json_norm (site_json r')"
  note e = this [unfolded site_json_def]
  have "sp_asset r = sp_asset r'"
    by (rule obj_field [OF e, where k = "''asset''" and f = "JStr"]) (simp_all add: norm_injs lookup_append del: map_of_append split: option.split)
  moreover have "lat_deg r = lat_deg r'"
    by (rule obj_field [OF e, where k = "''lat_deg''" and f = "JNum"]) (simp_all add: norm_injs lookup_append del: map_of_append split: option.split)
  moreover have "lon_deg r = lon_deg r'"
    by (rule obj_field [OF e, where k = "''lon_deg''" and f = "JNum"]) (simp_all add: norm_injs lookup_append del: map_of_append split: option.split)
  moreover have "elevation_m r = elevation_m r'"
    by (rule obj_opt [OF e, where k = "''elevation_m''" and f = "JNum"]) (simp_all add: norm_injs lookup_append del: map_of_append split: option.split)
  ultimately show "r = r'" by simp
qed

lemma placement_json_inj [norm_injs]: "norm_inj placement_json"
proof (rule norm_injI)
  fix r r' assume "json_norm (placement_json r) = json_norm (placement_json r')"
  note e = this [unfolded placement_json_def]
  show "r = r'"
    by (rule obj_field [OF e, where k = "''sites''" and f = "j_list site_json"])
      (simp_all add: norm_injs lookup_append del: map_of_append split: option.split)
qed

lemma region_json_inj [norm_injs]: "norm_inj region_json"
proof (rule norm_injI)
  fix r r' assume "json_norm (region_json r) = json_norm (region_json r')"
  note e = this [unfolded region_json_def]
  have "region_lat r = region_lat r'"
    by (rule obj_field [OF e, where k = "''lat_deg''" and f = "j_pair"]) (simp_all add: norm_injs lookup_append del: map_of_append split: option.split)
  moreover have "region_lon r = region_lon r'"
    by (rule obj_field [OF e, where k = "''lon_deg''" and f = "j_pair"]) (simp_all add: norm_injs lookup_append del: map_of_append split: option.split)
  ultimately show "r = r'" by simp
qed

lemma scoring_json_inj [norm_injs]: "norm_inj scoring_json"
proof (rule norm_injI)
  fix r r' assume "json_norm (scoring_json r) = json_norm (scoring_json r')"
  note e = this [unfolded scoring_json_def]
  have "psr_region r = psr_region r'"
    by (rule obj_opt [OF e, where k = "''psr_region''" and f = "region_json"]) (simp_all add: norm_injs lookup_append del: map_of_append split: option.split)
  moreover have "cell_area_m2 r = cell_area_m2 r'"
    by (rule obj_opt [OF e, where k = "''cell_area_m2''" and f = "JNum"]) (simp_all add: norm_injs lookup_append del: map_of_append split: option.split)
  moreover have "characterized_variance_threshold r = characterized_variance_threshold r'"
    by (rule obj_opt [OF e, where k = "''characterized_variance_threshold''" and f = "JNum"]) (simp_all add: norm_injs lookup_append del: map_of_append split: option.split)
  moreover have "discovery_threshold r = discovery_threshold r'"
    by (rule obj_opt [OF e, where k = "''discovery_threshold''" and f = "JNum"]) (simp_all add: norm_injs lookup_append del: map_of_append split: option.split)
  ultimately show "r = r'" by simp
qed

text \<open>Two specifications that differ at most in the order of the interfaces they pin.\<close>

definition same_task :: "scenario_spec \<Rightarrow> scenario_spec \<Rightarrow> bool" where
  "same_task s t =
    (s\<lparr>core_interface := []\<rparr> = t\<lparr>core_interface := []\<rparr>
     \<and> sort (core_interface s) = sort (core_interface t))"

lemma spec_json_same_task:
  assumes "json_same (spec_json s) (spec_json t)"
  shows "same_task s t"
proof -
  note e = assms [unfolded json_same_def spec_json_def]
  have "scenario_id s = scenario_id t"
    by (rule obj_field [OF e, where k = "''scenario_id''" and f = "JStr"]) (simp_all add: norm_injs lookup_append del: map_of_append split: option.split)
  moreover have "sc_name s = sc_name t"
    by (rule obj_field [OF e, where k = "''name''" and f = "JStr"]) (simp_all add: norm_injs lookup_append del: map_of_append split: option.split)
  moreover have "spec_version s = spec_version t"
    by (rule obj_default [OF e, where k = "''spec_version''" and f = "JStr"
        and z = "''0.1.0''"]) (simp_all add: norm_injs lookup_append del: map_of_append split: option.split)
  moreover have "sc_description s = sc_description t"
    by (rule obj_opt [OF e, where k = "''description''" and f = "JStr"]) (simp_all add: norm_injs lookup_append del: map_of_append split: option.split)
  moreover have "core_schema_digest s = core_schema_digest t"
    by (rule obj_opt [OF e, where k = "''core_schema_digest''" and f = "JStr"]) (simp_all add: norm_injs lookup_append del: map_of_append split: option.split)
  moreover have "sc_content s = sc_content t"
    by (rule obj_field [OF e, where k = "''content''" and f = "pins_json"]) (simp_all add: norm_injs lookup_append del: map_of_append split: option.split)
  moreover have "sc_seeds s = sc_seeds t"
    by (rule obj_field [OF e, where k = "''seeds''" and f = "seeds_json"]) (simp_all add: norm_injs lookup_append del: map_of_append split: option.split)
  moreover have "sc_episode s = sc_episode t"
    by (rule obj_field [OF e, where k = "''episode''" and f = "episode_json"]) (simp_all add: norm_injs lookup_append del: map_of_append split: option.split)
  moreover have "sc_termination s = sc_termination t"
    by (rule obj_default [OF e, where k = "''termination''" and f = "termination_json"
        and z = "\<lparr>term_conditions = [], term_max_steps = None\<rparr>"]) (simp_all add: norm_injs lookup_append del: map_of_append split: option.split)
  moreover have "sc_metrics s = sc_metrics t"
    by (rule obj_field [OF e, where k = "''metrics''" and f = "j_list metric_ref_json"]) (simp_all add: norm_injs lookup_append del: map_of_append split: option.split)
  moreover have "sc_budgets s = sc_budgets t"
    by (rule obj_default [OF e, where k = "''budgets''" and f = "budgets_json"
        and z = "\<lparr>wall_clock_seconds = None, sim_steps = None, compute_units = None\<rparr>"]) (simp_all add: norm_injs lookup_append del: map_of_append split: option.split)
  moreover have "sc_placement s = sc_placement t"
    by (rule obj_opt [OF e, where k = "''placement''" and f = "placement_json"]) (simp_all add: norm_injs lookup_append del: map_of_append split: option.split)
  moreover have "sc_scoring s = sc_scoring t"
    by (rule obj_opt [OF e, where k = "''scoring''" and f = "scoring_json"]) (simp_all add: norm_injs lookup_append del: map_of_append split: option.split)
  moreover have "json_norm (j_strings (core_interface s)) = json_norm (j_strings (core_interface t))"
    using obj_norm_lookup [OF e, of "''core_interface''"] by (simp add: lookup_append del: map_of_append)
  then have "sort (core_interface s) = sort (core_interface t)"
    by (rule j_strings_sorted)
  ultimately show ?thesis
    by (simp add: same_task_def)
qed

section \<open>Resolution\<close>

definition pins_consistent :: "content_ref list \<Rightarrow> bool" where
  "pins_consistent rs = list_all (\<lambda>r. list_all (\<lambda>q. ref_id q = ref_id r \<longrightarrow> ref_hash q = ref_hash r) rs) rs"

lemma pins_consistent_iff:
  "pins_consistent rs = (\<forall>r \<in> set rs. \<forall>q \<in> set rs. ref_id q = ref_id r \<longrightarrow> ref_hash q = ref_hash r)"
  by (simp add: pins_consistent_def list_all_iff)

lemma pins_consistent_Cons:
  "pins_consistent (r # rs) =
    (pins_consistent rs \<and> (\<forall>q \<in> set rs. ref_id q = ref_id r \<longrightarrow> ref_hash q = ref_hash r))"
  unfolding pins_consistent_iff by (metis list.set_intros(1,2) set_ConsD)

lemma collect_hashes_ok:
  "is_ok (collect_hashes acc rs) =
    (pins_consistent rs \<and> (\<forall>r \<in> set rs. dict_get acc (ref_id r) \<in> {None, Some (ref_hash r)}))"
proof (induction rs arbitrary: acc)
  case Nil
  then show ?case by (simp add: pins_consistent_def)
next
  case (Cons r rs)
  then show ?case
    by (auto simp: pins_consistent_Cons split: option.splits if_splits)
qed

lemma collect_hashes_Inr:
  assumes "collect_hashes acc rs = Inr hs" "dict_wf acc"
  shows "dict_wf hs"
    and "dict_get acc i = Some h \<Longrightarrow> dict_get hs i = Some h"
    and "r \<in> set rs \<Longrightarrow> dict_get hs (ref_id r) = Some (ref_hash r)"
proof -
  have "dict_wf hs \<and> (\<forall>i h. dict_get acc i = Some h \<longrightarrow> dict_get hs i = Some h)
      \<and> (\<forall>r \<in> set rs. dict_get hs (ref_id r) = Some (ref_hash r))"
    using assms
  proof (induction rs arbitrary: acc)
    case (Cons q qs)
    let ?acc = "dict_set acc (ref_id q) (ref_hash q)"
    have free: "dict_get acc (ref_id q) \<in> {None, Some (ref_hash q)}"
      and rest: "collect_hashes ?acc qs = Inr hs"
      using Cons.prems(1) by (auto split: option.splits if_splits)
    have keep: "dict_get ?acc i = Some h" if "dict_get acc i = Some h" for i h
      using that free by auto
    have "dict_wf ?acc" using Cons.prems(2) by simp
    note IH = Cons.IH [OF rest this]
    moreover have "dict_get hs (ref_id q) = Some (ref_hash q)"
      using IH by simp
    ultimately show ?case
      using keep by (metis set_ConsD)
  qed simp
  then show "dict_wf hs" "dict_get acc i = Some h \<Longrightarrow> dict_get hs i = Some h"
    "r \<in> set rs \<Longrightarrow> dict_get hs (ref_id r) = Some (ref_hash r)" by auto
qed

lemma dict_get_sort: "dict_wf d \<Longrightarrow> dict_get (sort d) k = dict_get d k" for d :: "(string, string) dict"
proof -
  assume d: "dict_wf d"
  then have "dict_wf (sort d)"
    by (metis mset_map mset_sort mset_eq_imp_distinct_iff)
  then show ?thesis
    using d by (intro option.expand) (auto simp: map_of_eq_None_iff dest: map_of_SomeD simp: dict_get_iff)
qed

text \<open>
  What a resolution succeeds on: the installed Core satisfies the pinned interfaces, the schema
  digest agrees with the pinned one, and no content id is pinned to two hashes.
\<close>

lemma resolve_scenario_ok:
  "is_ok (resolve_scenario H D s pc pd tc) =
    (is_ok (assert_core_compatible (core_interface s) pc)
     \<and> (\<exists>i. installed_schema_digest D pd = Inr i \<and> opt_ok (\<lambda>d. d = i) (core_schema_digest s))
     \<and> pins_consistent (content_refs s))"
proof -
  have "is_ok (collect_hashes [] (content_refs s)) = pins_consistent (content_refs s)"
    by (simp add: collect_hashes_ok)
  then show ?thesis
    unfolding resolve_scenario_def
    by (cases "assert_core_compatible (core_interface s) pc"; cases "installed_schema_digest D pd";
        cases "collect_hashes [] (content_refs s)") auto
qed

lemma resolve_scenario_Inr:
  assumes "resolve_scenario H D s pc pd tc = Inr r"
  shows "rs_scenario_hash r = scenario_address H (spec_hash H s) (sort tc)"
    and "rs_toolchain r = sort tc" and "rs_spec r = s"
    and "q \<in> set (content_refs s) \<Longrightarrow> dict_get (rs_content_hashes r) (ref_id q) = Some (ref_hash q)"
proof -
  obtain i hs where hs: "collect_hashes [] (content_refs s) = Inr hs"
    and r: "r = \<lparr>rs_scenario_id = scenario_id s,
               rs_scenario_hash = scenario_address H (spec_hash H s) (sort tc),
               rs_spec = s, rs_spec_hash = spec_hash H s, rs_content_hashes = sort hs,
               rs_core_interface = sort (core_interface s),
               rs_core_schema_digest = i, rs_toolchain = sort tc\<rparr>"
    using assms by (auto simp: resolve_scenario_def result_Inr)
  show "rs_scenario_hash r = scenario_address H (spec_hash H s) (sort tc)"
    "rs_toolchain r = sort tc" "rs_spec r = s"
    by (simp_all add: r)
  show "dict_get (rs_content_hashes r) (ref_id q) = Some (ref_hash q)" if "q \<in> set (content_refs s)"
    using collect_hashes_Inr [OF hs, simplified] that by (simp add: r dict_get_sort)
qed

lemma scenario_address_inj:
  assumes H: "\<And>a b. H a = H b \<Longrightarrow> json_same a b"
    and eq: "scenario_address H h (sort d) = scenario_address H h' (sort d')"
  shows "h = h'" and "sort d = sort d'"
proof -
  note e = H [OF eq [unfolded scenario_address_def], unfolded json_same_def]
  show "h = h'" using obj_norm_lookup [OF e, of "''spec_hash''"] by simp
  have "json_norm (j_strings (sort d)) = json_norm (j_strings (sort d'))"
    using obj_norm_lookup [OF e, of "''toolchain''"] by simp
  from j_strings_sorted [OF this] show "sort d = sort d'"
    by (simp only: sorted_sort_id [OF sorted_sort])
qed

section \<open>Properties\<close>

text \<open>
  C25: The address of a resolved scenario pins the task. A specification resolves exactly if the core
  interfaces it declares are compatible with the ones provided, the schema digest it pins (if any) is
  the installed one, and its content references are pinned consistently; the content map of the
  resolved scenario records the pinned hash of every reference. Two specifications that resolve to
  one scenario hash agree in every field (up to the order in which interfaces are listed) and in the
  toolchain, so changing any input changes the hash. The digest is assumed to be injective on canonical
  documents.
\<close>

theorem scenario_hash_pins_the_task:
  assumes "\<And>a b. H a = H b \<Longrightarrow> json_same a b"
  shows "(is_ok (resolve_scenario H D s pc pd tc) \<longleftrightarrow>
      is_ok (assert_core_compatible (core_interface s) pc)
      \<and> (\<exists>i. installed_schema_digest D pd = Inr i \<and> core_schema_digest s \<in> {None, Some i})
      \<and> pins_consistent (content_refs s))
    \<and> (\<forall>r r'. resolve_scenario H D s pc pd tc = Inr r \<longrightarrow> resolve_scenario H D' t pc' pd' tc' = Inr r' \<longrightarrow>
      (\<forall>q \<in> set (content_refs s). dict_get (rs_content_hashes r) (ref_id q) = Some (ref_hash q))
      \<and> (rs_scenario_hash r = rs_scenario_hash r' \<longrightarrow> same_task s t \<and> rs_toolchain r = rs_toolchain r'))"
proof (intro conjI allI impI)
  have "opt_ok (\<lambda>d. d = i) x \<longleftrightarrow> x \<in> {None, Some i}" for i :: string and x
    by (cases x) (auto simp: opt_ok_def)
  then show "is_ok (resolve_scenario H D s pc pd tc) \<longleftrightarrow>
      is_ok (assert_core_compatible (core_interface s) pc)
      \<and> (\<exists>i. installed_schema_digest D pd = Inr i \<and> core_schema_digest s \<in> {None, Some i})
      \<and> pins_consistent (content_refs s)"
    by (simp add: resolve_scenario_ok)
next
  fix r r'
  assume r: "resolve_scenario H D s pc pd tc = Inr r" "resolve_scenario H D' t pc' pd' tc' = Inr r'"
  have "same_task s t \<and> rs_toolchain r = rs_toolchain r'" if "rs_scenario_hash r = rs_scenario_hash r'"
  proof -
    have addr: "scenario_address H (spec_hash H s) (sort tc) = scenario_address H (spec_hash H t) (sort tc')"
      using resolve_scenario_Inr(1) r that by metis
    have "json_same (spec_json s) (spec_json t)"
      using scenario_address_inj(1) [OF assms(1) addr] assms(1) by (simp add: spec_hash_def)
    then have "same_task s t" by (rule spec_json_same_task)
    moreover have "rs_toolchain r = rs_toolchain r'"
      using scenario_address_inj(2) [OF assms(1) addr] r by (simp add: resolve_scenario_Inr(2))
    ultimately show ?thesis by simp
  qed
  then show "same_task s t" "rs_toolchain r = rs_toolchain r'" if "rs_scenario_hash r = rs_scenario_hash r'"
    using that by simp_all
  show "\<forall>q \<in> set (content_refs s). dict_get (rs_content_hashes r) (ref_id q) = Some (ref_hash q)"
    using resolve_scenario_Inr(4) [OF r(1)] by simp
qed

text \<open>An injective digest: documents are countable.\<close>

instance json :: countable
  by countable_datatype

definition demo_digest :: "json \<Rightarrow> string" where
  "demo_digest j = str_of_nat (to_nat (json_norm j))"

lemma demo_digest_inj: "demo_digest a = demo_digest b \<Longrightarrow> json_same a b"
  unfolding demo_digest_def json_same_def by (metis int_of_str_of_nat to_nat_split)

definition demo_hash :: string where
  "demo_hash = ''sha256:'' @ replicate 64 CHR ''a''"

definition demo_scenario :: scenario_spec where
  "demo_scenario =
    \<lparr>scenario_id = ''polar-ice'', sc_name = ''Polar ice'', spec_version = ''0.1.0'',
     sc_description = None, core_interface = [(''env'', ''0.1.0''), (''messages'', ''0.1.0'')],
     core_schema_digest = None,
     sc_content = \<lparr>pin_world = \<lparr>ref_id = ''pole'', ref_hash = demo_hash, ref_description = None\<rparr>,
        pin_fleet = [\<lparr>ref_id = ''excavator'', ref_hash = demo_hash, ref_description = None\<rparr>],
        pin_prospect = [], pin_link = None\<rparr>,
     sc_seeds = \<lparr>seeds_public = [1, 2], heldout_commit = None\<rparr>,
     sc_episode = \<lparr>horizon_steps = 10, max_sim_seconds = None, start_epoch = None\<rparr>,
     sc_termination = \<lparr>term_conditions = [], term_max_steps = None\<rparr>,
     sc_metrics = [\<lparr>mr_name = ''water'', mr_version = ''0.1.0''\<rparr>],
     sc_budgets = \<lparr>wall_clock_seconds = None, sim_steps = None, compute_units = None\<rparr>,
     sc_placement = None, sc_scoring = None\<rparr>"

definition demo_longer :: scenario_spec where
  "demo_longer = demo_scenario\<lparr>sc_episode := \<lparr>horizon_steps = 20, max_sim_seconds = None, start_epoch = None\<rparr>\<rparr>"

lemma demo_core_ok: "is_ok (assert_core_compatible (core_interface demo_scenario) None)"
  by code_simp

lemma demo_pins_ok: "pins_consistent (content_refs demo_scenario)"
  by (simp add: demo_scenario_def content_refs_def pins_consistent_def)

lemma demo_resolves:
  "is_ok (resolve_scenario demo_digest demo_hash demo_scenario None None [])"
  "is_ok (resolve_scenario demo_digest demo_hash demo_longer None None [])"
  using demo_core_ok demo_pins_ok
  by (simp_all add: resolve_scenario_ok installed_schema_digest_def opt_ok_def demo_longer_def
      demo_scenario_def content_refs_def)

theorem scenario_hash_pins_the_task_witness:
  "\<exists>r r'. resolve_scenario demo_digest demo_hash demo_scenario None None [] = Inr r
     \<and> resolve_scenario demo_digest demo_hash demo_longer None None [] = Inr r'
     \<and> rs_scenario_hash r \<noteq> rs_scenario_hash r'
     \<and> dict_get (rs_content_hashes r) ''excavator'' = Some demo_hash"
proof -
  obtain r r' where r: "resolve_scenario demo_digest demo_hash demo_scenario None None [] = Inr r"
    and r': "resolve_scenario demo_digest demo_hash demo_longer None None [] = Inr r'"
    using demo_resolves by (auto simp: is_ok_iff)
  note pins = scenario_hash_pins_the_task [where H = demo_digest, THEN conjunct2, THEN spec, THEN spec, THEN mp, THEN mp]
  have "\<not> same_task demo_scenario demo_longer"
    by (simp add: same_task_def demo_longer_def demo_scenario_def)
  then have "rs_scenario_hash r \<noteq> rs_scenario_hash r'"
    using pins [OF demo_digest_inj r r'] by blast
  moreover have "dict_get (rs_content_hashes r) ''excavator'' = Some demo_hash"
    using pins [OF demo_digest_inj r r]
    by (simp add: demo_scenario_def content_refs_def)
  ultimately show ?thesis using r r' by blast
qed

end
