(* ===== verification/Bench_Metrics.thy ===== *)
theory Bench_Metrics
  imports Bench_Scenario Complex_Main
begin

text \<open>
  Scoring (\<^verbatim>\<open>bench/metrics\<close>): the scored input of an episode (\<^verbatim>\<open>core/scoring.py\<close> with the fields of
  the Core observation the metrics read), the seven reference metrics, the metric registry and the
  aggregation of per-seed values into a scorecard. Numbers are exact reals, so the checks for
  non-finite values never fire.
\<close>

section \<open>Scored input\<close>

record sensor_reading =
  sr_unit :: "string option"
  sr_species :: "string option"
  sr_valid :: bool
  sr_values :: "real list"

record score_obs =
  so_tick :: int
  so_time :: real
  so_agent :: string
  so_battery_soc_j :: "real option"
  so_temperature_k :: "real option"
  so_sensors :: "sensor_reading list"
  so_earth_contact :: "bool option"

record field_distribution =
  fd_mean :: real
  fd_variance :: real

record scoring_context =
  prior_belief :: "(string, field_distribution) dict"
  belief_history :: "(real \<times> (string, field_distribution) dict) list"
  psr_cells :: "string list"
  sc_cell_area_m2 :: real
  sc_variance_threshold :: real
  discovery_species :: string
  sc_discovery_threshold :: real
  water_species :: string
  night_intervals :: "(real \<times> real) list"
  survivable_temperature_k :: "real option"

record episode_trace =
  et_observations :: "score_obs list"
  et_context :: scoring_context

datatype direction = HIGHER_BETTER | LOWER_BETTER

primrec direction_value :: "direction \<Rightarrow> string" where
  "direction_value HIGHER_BETTER = ''higher_better''"
| "direction_value LOWER_BETTER = ''lower_better''"

datatype aggregation = AGG_MEAN | AGG_MEDIAN | AGG_MIN | AGG_MAX | AGG_SUM | AGG_P05 | AGG_P95

primrec aggregation_value :: "aggregation \<Rightarrow> string" where
  "aggregation_value AGG_MEAN = ''mean''"
| "aggregation_value AGG_MEDIAN = ''median''"
| "aggregation_value AGG_MIN = ''min''"
| "aggregation_value AGG_MAX = ''max''"
| "aggregation_value AGG_SUM = ''sum''"
| "aggregation_value AGG_P05 = ''p05''"
| "aggregation_value AGG_P95 = ''p95''"

datatype metric_error =
    MetricComputationError string
  | UnknownMetric string
  | IncompatibleMetricVersion string string string
  | DuplicateMetric string
  | MetricRaised compat_error
  | LengthMismatch string nat nat
  | MetricKeyError string

record metric_outcome =
  mv_value :: "real option"
  mv_unit :: string
  mv_uncertainty :: "real option"

record metric =
  m_name :: string
  m_version :: string
  m_unit :: string
  m_direction :: direction
  m_aggregation :: aggregation
  m_compute :: "episode_trace \<Rightarrow> metric_error + metric_outcome"

definition scalar :: "real option \<Rightarrow> string \<Rightarrow> metric_outcome" where
  "scalar v u = \<lparr>mv_value = v, mv_unit = u, mv_uncertainty = None\<rparr>"

section \<open>The reference metrics\<close>

subsection \<open>Water mass and energy\<close>

text \<open>
  The latest reading of channel \<open>ch\<close> of each agent's storage gauge; a later or equal tick replaces
  an earlier one, in stream order.
\<close>

definition gauge_reading :: "string \<Rightarrow> nat \<Rightarrow> sensor_reading \<Rightarrow> bool" where
  "gauge_reading species ch r =
    (sr_species r = Some species \<and> sr_unit r = Some ''kg'' \<and> sr_valid r \<and> ch < length (sr_values r))"

definition latest_reading ::
    "nat \<Rightarrow> score_obs \<Rightarrow> sensor_reading \<Rightarrow> (string, int \<times> real) dict \<Rightarrow> (string, int \<times> real) dict" where
  "latest_reading ch ob r latest =
    (case dict_get latest (so_agent ob) of
       Some (t, _) \<Rightarrow>
         if t \<le> so_tick ob then dict_set latest (so_agent ob) (so_tick ob, sr_values r ! ch) else latest
     | None \<Rightarrow> dict_set latest (so_agent ob) (so_tick ob, sr_values r ! ch))"

definition latest_channel :: "nat \<Rightarrow> episode_trace \<Rightarrow> (string, int \<times> real) dict" where
  "latest_channel ch tr =
    fold (\<lambda>ob. fold (latest_reading ch ob)
        (filter (gauge_reading (water_species (et_context tr)) ch) (so_sensors ob)))
      (et_observations tr) []"

definition total_stored_water :: "episode_trace \<Rightarrow> real" where
  "total_stored_water tr = sum_list (map snd (dict_values (latest_channel 0 tr)))"

definition total_extraction_energy :: "episode_trace \<Rightarrow> real" where
  "total_extraction_energy tr = sum_list (map snd (dict_values (latest_channel 1 tr)))"

definition water_mass :: "episode_trace \<Rightarrow> metric_error + metric_outcome" where
  "water_mass tr = Inr (scalar (Some (total_stored_water tr)) ''kg'')"

definition soc_samples :: "score_obs list \<Rightarrow> (string, (int \<times> real) list) dict" where
  "soc_samples obs =
    fold (\<lambda>ob d. case so_battery_soc_j ob of
        None \<Rightarrow> d
      | Some soc \<Rightarrow> dict_set d (so_agent ob) (get_default d (so_agent ob) [] @ [(so_tick ob, soc)])) obs []"

fun drops :: "(int \<times> real) list \<Rightarrow> real list" where
  "drops ((t, earlier) # (u, later) # rest) =
     (if later < earlier then (earlier - later) # drops ((u, later) # rest) else drops ((u, later) # rest))"
| "drops _ = []"

definition discharges :: "score_obs list \<Rightarrow> real list" where
  "discharges obs = concat (map (\<lambda>ss. drops (sort ss)) (dict_values (soc_samples obs)))"

definition energy_per_kg :: "episode_trace \<Rightarrow> metric_error + metric_outcome" where
  "energy_per_kg tr =
    (let water = total_stored_water tr;
         energy = sum_list (discharges (et_observations tr)) + total_extraction_energy tr
     in if water \<le> 0 then Inr (scalar None ''J/kg'') else Inr (scalar (Some (energy / water)) ''J/kg''))"

subsection \<open>Belief quality\<close>

fun gain_contributions ::
    "(string, field_distribution) dict \<Rightarrow> (string, field_distribution) dict \<Rightarrow> metric_error + real list" where
  "gain_contributions posterior [] = Inr []"
| "gain_contributions posterior ((cell, prior) # rest) =
    (case dict_get posterior cell of
       None \<Rightarrow> gain_contributions posterior rest
     | Some post \<Rightarrow>
         if fd_variance prior \<le> 0 \<or> fd_variance post \<le> 0 then Inl (MetricComputationError cell)
         else rbind (gain_contributions posterior rest) (\<lambda>cs.
                Inr (ln (fd_variance prior / fd_variance post) / 2 # cs)))"

definition mean_of :: "real list \<Rightarrow> real" where
  "mean_of xs = sum_list xs / of_nat (length xs)"

definition squared_deviations :: "real list \<Rightarrow> real" where
  "squared_deviations xs = sum_list (map (\<lambda>x. (x - mean_of xs)\<^sup>2) xs)"

definition pstdev :: "real list \<Rightarrow> real" where
  "pstdev xs = sqrt (squared_deviations xs / of_nat (length xs))"

definition stdev :: "real list \<Rightarrow> real" where
  "stdev xs = sqrt (squared_deviations xs / (of_nat (length xs) - 1))"

definition information_gain :: "episode_trace \<Rightarrow> metric_error + metric_outcome" where
  "information_gain tr =
    (let ctx = et_context tr
     in if prior_belief ctx = [] \<or> belief_history ctx = [] then Inr (scalar None ''nat'')
        else
          rbind (gain_contributions (snd (last (belief_history ctx))) (prior_belief ctx)) (\<lambda>cs.
            if cs = [] then Inr (scalar None ''nat'')
            else Inr \<lparr>mv_value = Some (sum_list cs), mv_unit = ''nat'',
                      mv_uncertainty = Some (if 1 < length cs then pstdev cs else 0)\<rparr>))"

definition characterized :: "scoring_context \<Rightarrow> string \<Rightarrow> bool" where
  "characterized ctx cell =
    (case dict_get (snd (last (belief_history ctx))) cell of
       None \<Rightarrow> False
     | Some post \<Rightarrow> fd_variance post \<le> sc_variance_threshold ctx)"

definition psr_area_characterized :: "episode_trace \<Rightarrow> metric_error + metric_outcome" where
  "psr_area_characterized tr =
    (let ctx = et_context tr
     in if psr_cells ctx = [] \<or> belief_history ctx = [] then Inr (scalar None ''m^2'')
        else Inr (scalar (Some (of_nat (length (filter (characterized ctx) (psr_cells ctx)))
                    * sc_cell_area_m2 ctx)) ''m^2''))"

subsection \<open>Survival, contact and discovery\<close>

definition in_window :: "real \<times> real \<Rightarrow> score_obs \<Rightarrow> bool" where
  "in_window w ob = (fst w \<le> so_time ob \<and> so_time ob \<le> snd w)"

definition lost :: "scoring_context \<Rightarrow> score_obs \<Rightarrow> bool" where
  "lost ctx ob =
    ((case so_battery_soc_j ob of None \<Rightarrow> False | Some b \<Rightarrow> b \<le> 0)
     \<or> (case (survivable_temperature_k ctx, so_temperature_k ob) of
           (Some s, Some t) \<Rightarrow> t < s | _ \<Rightarrow> False))"

text \<open>One pass over the stream; it stops at the first loss.\<close>

fun night_scan :: "scoring_context \<Rightarrow> real \<times> real \<Rightarrow> score_obs list \<Rightarrow> bool \<Rightarrow> bool \<times> bool" where
  "night_scan ctx w [] sampled = (sampled, True)"
| "night_scan ctx w (ob # obs) sampled =
    (if \<not> in_window w ob then night_scan ctx w obs sampled
     else if so_battery_soc_j ob = None then night_scan ctx w obs sampled
     else if lost ctx ob then (True, False)
     else night_scan ctx w obs True)"

definition night_survived :: "scoring_context \<Rightarrow> score_obs list \<Rightarrow> real \<times> real \<Rightarrow> bool" where
  "night_survived ctx obs w = (case night_scan ctx w obs False of (sampled, alive) \<Rightarrow> sampled \<and> alive)"

definition nights_survived :: "episode_trace \<Rightarrow> metric_error + metric_outcome" where
  "nights_survived tr =
    (let ctx = et_context tr
     in if night_intervals ctx = [] then Inr (scalar None ''dimensionless'')
        else Inr (scalar (Some (of_nat (length
               (filter (night_survived ctx (et_observations tr)) (night_intervals ctx))))) ''dimensionless''))"

definition comms_robustness :: "episode_trace \<Rightarrow> metric_error + metric_outcome" where
  "comms_robustness tr =
    (let masks = List.map_filter so_earth_contact (et_observations tr);
         total = length masks;
         connected = length (filter (\<lambda>c. c) masks)
     in if total = 0 then Inr (scalar None ''dimensionless'')
        else Inr (scalar (Some (of_nat connected / of_nat total)) ''dimensionless''))"

definition detects :: "scoring_context \<Rightarrow> score_obs \<Rightarrow> bool" where
  "detects ctx ob = list_ex (\<lambda>r. sr_species r = Some (discovery_species ctx) \<and> sr_valid r
      \<and> (case sr_values r of [] \<Rightarrow> False | v # vs \<Rightarrow> sc_discovery_threshold ctx \<le> foldl max v vs))
    (so_sensors ob)"

fun earliest_detection :: "scoring_context \<Rightarrow> score_obs list \<Rightarrow> real option \<Rightarrow> real option" where
  "earliest_detection ctx [] e = e"
| "earliest_detection ctx (ob # obs) e =
    earliest_detection ctx obs
      (if detects ctx ob \<and> (case e of None \<Rightarrow> True | Some t \<Rightarrow> so_time ob < t) then Some (so_time ob) else e)"

definition discovery_latency :: "episode_trace \<Rightarrow> metric_error + metric_outcome" where
  "discovery_latency tr =
    Inr (scalar (earliest_detection (et_context tr) (et_observations tr) None) ''s'')"

definition REFERENCE_METRICS :: "metric list" where
  "REFERENCE_METRICS =
    [\<lparr>m_name = ''water_mass'', m_version = ''0.1.0'', m_unit = ''kg'', m_direction = HIGHER_BETTER,
      m_aggregation = AGG_MEAN, m_compute = water_mass\<rparr>,
     \<lparr>m_name = ''energy_per_kg'', m_version = ''0.1.0'', m_unit = ''J/kg'', m_direction = LOWER_BETTER,
      m_aggregation = AGG_MEAN, m_compute = energy_per_kg\<rparr>,
     \<lparr>m_name = ''information_gain'', m_version = ''0.1.0'', m_unit = ''nat'', m_direction = HIGHER_BETTER,
      m_aggregation = AGG_MEAN, m_compute = information_gain\<rparr>,
     \<lparr>m_name = ''psr_area_characterized'', m_version = ''0.1.0'', m_unit = ''m^2'', m_direction = HIGHER_BETTER,
      m_aggregation = AGG_MEAN, m_compute = psr_area_characterized\<rparr>,
     \<lparr>m_name = ''nights_survived'', m_version = ''0.1.0'', m_unit = ''dimensionless'', m_direction = HIGHER_BETTER,
      m_aggregation = AGG_MIN, m_compute = nights_survived\<rparr>,
     \<lparr>m_name = ''comms_robustness'', m_version = ''0.1.0'', m_unit = ''dimensionless'', m_direction = HIGHER_BETTER,
      m_aggregation = AGG_MEAN, m_compute = comms_robustness\<rparr>,
     \<lparr>m_name = ''discovery_latency'', m_version = ''0.1.0'', m_unit = ''s'', m_direction = LOWER_BETTER,
      m_aggregation = AGG_MEDIAN, m_compute = discovery_latency\<rparr>]"

section \<open>The registry\<close>

type_synonym metric_registry = "(string, metric) dict"

definition metric_registry_init :: "metric list option \<Rightarrow> metric_registry" where
  "metric_registry_init ms =
    fold (\<lambda>m d. dict_set d (m_name m) m) (case ms of None \<Rightarrow> REFERENCE_METRICS | Some b \<Rightarrow> b) []"

definition negotiate_metric :: "string \<Rightarrow> string \<Rightarrow> metric \<Rightarrow> metric_error + metric" where
  "negotiate_metric name requested provided =
    rbind (rerr MetricRaised (check_compatible requested (m_version provided))) (\<lambda>ok.
      if \<not> ok then Inl (IncompatibleMetricVersion name requested (m_version provided)) else Inr provided)"

definition metric_register :: "metric_registry \<Rightarrow> metric \<Rightarrow> bool \<Rightarrow> metric_error + metric \<times> metric_registry" where
  "metric_register reg m replace =
    (if \<not> replace \<and> m_name m \<in> set (dict_keys reg) then Inl (DuplicateMetric (m_name m))
     else Inr (m, dict_set reg (m_name m) m))"

definition metric_resolve :: "metric_registry \<Rightarrow> metric_ref \<Rightarrow> metric_error + metric" where
  "metric_resolve reg ref =
    (case dict_get reg (mr_name ref) of
       None \<Rightarrow> Inl (UnknownMetric (mr_name ref))
     | Some m \<Rightarrow> negotiate_metric (mr_name ref) (mr_version ref) m)"

fun metric_resolve_all :: "metric_registry \<Rightarrow> metric_ref list \<Rightarrow> metric_error + metric list" where
  "metric_resolve_all reg [] = Inr []"
| "metric_resolve_all reg (r # rs) =
    rbind (metric_resolve reg r) (\<lambda>m. rbind (metric_resolve_all reg rs) (\<lambda>ms. Inr (m # ms)))"

definition registry_names :: "metric_registry \<Rightarrow> string list" where
  "registry_names reg = sort (dict_keys reg)"

definition resolve_metrics :: "metric_ref list \<Rightarrow> metric_error + metric list" where
  "resolve_metrics refs = metric_resolve_all (metric_registry_init None) refs"

section \<open>Aggregation\<close>

definition median_of :: "real list \<Rightarrow> real" where
  "median_of xs =
    (let s = sort xs; n = length xs
     in if n mod 2 = 1 then s ! (n div 2) else (s ! (n div 2 - 1) + s ! (n div 2)) / 2)"

definition percentile :: "real list \<Rightarrow> real \<Rightarrow> real" where
  "percentile xs q =
    (let ordered = sort xs;
         pos = q * (of_nat (length ordered) - 1);
         low = nat \<lfloor>pos\<rfloor>;
         high = min (low + 1) (length ordered - 1);
         frac = pos - of_nat low
     in ordered ! low * (1 - frac) + ordered ! high * frac)"

definition min_of :: "real list \<Rightarrow> real" where
  "min_of xs = foldl min (hd xs) (tl xs)"

definition max_of :: "real list \<Rightarrow> real" where
  "max_of xs = foldl max (hd xs) (tl xs)"

primrec AGGREGATORS :: "aggregation \<Rightarrow> real list \<Rightarrow> real" where
  "AGGREGATORS AGG_MEAN = mean_of"
| "AGGREGATORS AGG_MEDIAN = median_of"
| "AGGREGATORS AGG_MIN = min_of"
| "AGGREGATORS AGG_MAX = max_of"
| "AGGREGATORS AGG_SUM = sum_list"
| "AGGREGATORS AGG_P05 = (\<lambda>xs. percentile xs (5 / 100))"
| "AGGREGATORS AGG_P95 = (\<lambda>xs. percentile xs (95 / 100))"

record aggregate_score =
  as_metric :: string
  as_version :: string
  as_unit :: string
  as_direction :: direction
  as_aggregation :: aggregation
  as_value :: "real option"
  as_dispersion :: "real option"
  as_n :: nat
  as_seeds :: "int list"
  as_per_seed :: "real option list"

record scorecard =
  card_scenario_id :: "string option"
  card_runner :: string
  card_metrics :: "aggregate_score list"

definition aggregate_one :: "metric \<Rightarrow> int list \<Rightarrow> real option list \<Rightarrow> aggregate_score" where
  "aggregate_one m seeds per_seed =
    (let applicable = List.map_filter (\<lambda>v. v) per_seed
     in \<lparr>as_metric = m_name m, as_version = m_version m, as_unit = m_unit m,
         as_direction = m_direction m, as_aggregation = m_aggregation m,
         as_value = (if applicable \<noteq> [] then Some (AGGREGATORS (m_aggregation m) applicable) else None),
         as_dispersion = (if 2 \<le> length applicable then Some (stdev applicable) else None),
         as_n = length applicable, as_seeds = seeds, as_per_seed = per_seed\<rparr>)"

fun aggregate_all ::
    "metric list \<Rightarrow> (string, real option list) dict \<Rightarrow> int list \<Rightarrow> metric_error + aggregate_score list" where
  "aggregate_all [] by_metric seeds = Inr []"
| "aggregate_all (m # ms) by_metric seeds =
    (case dict_get by_metric (m_name m) of
       None \<Rightarrow> Inl (MetricKeyError (m_name m))
     | Some per_seed \<Rightarrow>
         if length per_seed \<noteq> length seeds
         then Inl (LengthMismatch (m_name m) (length per_seed) (length seeds))
         else rbind (aggregate_all ms by_metric seeds) (\<lambda>as. Inr (aggregate_one m seeds per_seed # as)))"

definition aggregate_scores ::
    "metric list \<Rightarrow> (string, real option list) dict \<Rightarrow> int list \<Rightarrow> string option \<Rightarrow> string
      \<Rightarrow> metric_error + scorecard" where
  "aggregate_scores metrics by_metric seeds sid runner =
    rbind (aggregate_all metrics by_metric seeds) (\<lambda>as.
      Inr \<lparr>card_scenario_id = sid, card_runner = runner, card_metrics = as\<rparr>)"

fun compute_seeds :: "metric \<Rightarrow> episode_trace list \<Rightarrow> metric_error + real option list" where
  "compute_seeds m [] = Inr []"
| "compute_seeds m (t # ts) =
    rbind (m_compute m t) (\<lambda>v. rbind (compute_seeds m ts) (\<lambda>vs. Inr (mv_value v # vs)))"

fun compute_metrics ::
    "metric list \<Rightarrow> episode_trace list \<Rightarrow> (string, real option list) dict
      \<Rightarrow> metric_error + (string, real option list) dict" where
  "compute_metrics [] ts acc = Inr acc"
| "compute_metrics (m # ms) ts acc =
    rbind (compute_seeds m ts) (\<lambda>vs. compute_metrics ms ts (dict_set acc (m_name m) vs))"

definition score ::
    "(int, episode_trace) dict \<Rightarrow> metric list \<Rightarrow> string option \<Rightarrow> string \<Rightarrow> metric_error + scorecard" where
  "score traces metrics sid runner =
    (let seeds = sort (dict_keys traces);
         ts = map (\<lambda>s. the (dict_get traces s)) seeds
     in rbind (compute_metrics metrics ts []) (\<lambda>by_metric.
          aggregate_scores metrics by_metric seeds sid runner))"

definition scored_metric_values ::
    "(int, episode_trace) dict \<Rightarrow> metric_ref list \<Rightarrow> string option \<Rightarrow> string
      \<Rightarrow> metric_error + (string, real option) dict" where
  "scored_metric_values traces refs sid runner =
    rbind (resolve_metrics refs) (\<lambda>ms.
    rbind (score traces ms sid runner) (\<lambda>card.
      Inr (fold (\<lambda>a d. dict_set d (as_metric a) (as_value a)) (card_metrics card) [])))"

section \<open>Aggregates stay in range\<close>

definition in_range :: "real \<Rightarrow> real \<Rightarrow> real list \<Rightarrow> bool" where
  "in_range lo hi xs = list_all (\<lambda>x. lo \<le> x \<and> x \<le> hi) xs"

lemma in_range_nth: "in_range lo hi xs \<Longrightarrow> i < length xs \<Longrightarrow> lo \<le> xs ! i \<and> xs ! i \<le> hi"
  by (auto simp: in_range_def list_all_length)

lemma in_range_sort: "in_range lo hi (sort xs) = in_range lo hi xs"
  by (simp add: in_range_def list_all_iff)

lemma sum_list_range:
  "in_range lo hi xs \<Longrightarrow> of_nat (length xs) * lo \<le> sum_list xs \<and> sum_list xs \<le> of_nat (length xs) * hi"
  by (induction xs) (auto simp: in_range_def algebra_simps)

lemma mean_range: "xs \<noteq> [] \<Longrightarrow> in_range lo hi xs \<Longrightarrow> lo \<le> mean_of xs \<and> mean_of xs \<le> hi"
  using sum_list_range [of lo hi xs]
  by (auto simp: mean_of_def divide_simps mult.commute)

lemma median_range:
  assumes "xs \<noteq> []" "in_range lo hi xs"
  shows "lo \<le> median_of xs \<and> median_of xs \<le> hi"
proof -
  have "length xs div 2 < length xs" "length xs div 2 - 1 < length xs"
    using assms(1) by (simp_all add: less_imp_diff_less)
  then have "lo \<le> sort xs ! (length xs div 2) \<and> sort xs ! (length xs div 2) \<le> hi"
    "lo \<le> sort xs ! (length xs div 2 - 1) \<and> sort xs ! (length xs div 2 - 1) \<le> hi"
    using assms(2) by (auto intro!: in_range_nth simp: in_range_sort)
  then show ?thesis
    by (auto simp: median_of_def Let_def)
qed

lemma convex_range:
  fixes a b f :: real
  assumes "lo \<le> a" "a \<le> hi" "lo \<le> b" "b \<le> hi" "0 \<le> f" "f \<le> 1"
  shows "lo \<le> a * (1 - f) + b * f \<and> a * (1 - f) + b * f \<le> hi"
proof -
  have "lo * (1 - f) \<le> a * (1 - f)" "lo * f \<le> b * f" "a * (1 - f) \<le> hi * (1 - f)" "b * f \<le> hi * f"
    using assms by (simp_all add: mult_right_mono)
  then show ?thesis by (simp add: algebra_simps)
qed

lemma percentile_range:
  assumes "xs \<noteq> []" "in_range lo hi xs" "0 \<le> q" "q \<le> 1"
  shows "lo \<le> percentile xs q \<and> percentile xs q \<le> hi"
proof -
  let ?n = "length xs"
  define pos where "pos = q * (of_nat ?n - 1)"
  define low where "low = nat \<lfloor>pos\<rfloor>"
  have n: "1 \<le> ?n" using assms(1) by (cases xs) auto
  then have "0 \<le> real ?n - 1" by simp
  then have pos: "0 \<le> pos" "pos \<le> real ?n - 1"
    using assms(3,4) by (auto simp: pos_def mult_left_le_one_le)
  have low: "real low \<le> pos" "pos < real low + 1"
    using pos(1) unfolding low_def by linarith+
  then have "real low < real ?n" using pos(2) by linarith
  then have idx: "low < ?n" "min (low + 1) (?n - 1) < ?n"
    using n by simp_all
  have "0 \<le> pos - real low" "pos - real low \<le> 1" using low by linarith+
  moreover have "lo \<le> sort xs ! low \<and> sort xs ! low \<le> hi"
    "lo \<le> sort xs ! min (low + 1) (?n - 1) \<and> sort xs ! min (low + 1) (?n - 1) \<le> hi"
    using idx assms(2) by (auto intro!: in_range_nth simp: in_range_sort)
  ultimately show ?thesis
    unfolding percentile_def Let_def length_sort pos_def [symmetric] low_def [symmetric]
    by (intro convex_range) simp_all
qed

lemma foldl_choice:
  "(\<And>a b. f a b \<in> {a, b}) \<Longrightarrow> foldl f x xs \<in> set (x # xs)"
proof (induction xs arbitrary: x)
  case (Cons y ys)
  from Cons.IH [OF Cons.prems, of "f x y"] Cons.prems [of x y] show ?case by auto
qed simp

lemma min_max_of_mem: "xs \<noteq> [] \<Longrightarrow> min_of xs \<in> set xs \<and> max_of xs \<in> set xs"
  using foldl_choice [of min "hd xs" "tl xs"] foldl_choice [of max "hd xs" "tl xs"]
  by (auto simp: min_of_def max_of_def min_def max_def)

lemma aggregator_range:
  assumes "xs \<noteq> []" "in_range lo hi xs" "a \<noteq> AGG_SUM"
  shows "lo \<le> AGGREGATORS a xs \<and> AGGREGATORS a xs \<le> hi"
proof (cases a)
  case AGG_MIN
  then show ?thesis
    using assms(1,2) min_max_of_mem [of xs] by (auto simp: in_range_def list_all_iff)
next
  case AGG_MAX
  then show ?thesis
    using assms(1,2) min_max_of_mem [of xs] by (auto simp: in_range_def list_all_iff)
next
  case AGG_P05
  show ?thesis
    unfolding AGG_P05 AGGREGATORS.simps by (rule percentile_range [OF assms(1,2)]) simp_all
next
  case AGG_P95
  show ?thesis
    unfolding AGG_P95 AGGREGATORS.simps by (rule percentile_range [OF assms(1,2)]) simp_all
qed (use assms mean_range median_range in simp_all)

lemma stdev_nonneg: "2 \<le> length xs \<Longrightarrow> 0 \<le> stdev xs"
  by (auto simp: stdev_def squared_deviations_def intro!: divide_nonneg_nonneg sum_list_nonneg)

section \<open>The reference metrics stay in range\<close>

lemma night_scan_survived:
  "night_scan ctx w obs s = (s', a) \<Longrightarrow>
    a = (\<forall>ob \<in> set obs. in_window w ob \<and> so_battery_soc_j ob \<noteq> None \<longrightarrow> \<not> lost ctx ob)
    \<and> (a \<longrightarrow> s' = (s \<or> (\<exists>ob \<in> set obs. in_window w ob \<and> so_battery_soc_j ob \<noteq> None)))"
  by (induction ctx w obs s rule: night_scan.induct) (auto split: if_splits)

lemma night_survived_iff:
  "night_survived ctx obs w =
    ((\<exists>ob \<in> set obs. in_window w ob \<and> so_battery_soc_j ob \<noteq> None)
     \<and> (\<forall>ob \<in> set obs. in_window w ob \<and> so_battery_soc_j ob \<noteq> None \<longrightarrow> \<not> lost ctx ob))"
  using night_scan_survived [of ctx w obs False]
  by (cases "night_scan ctx w obs False") (auto simp: night_survived_def)

lemma earliest_detection_spec:
  "earliest_detection ctx obs e =
    (case (if e = None then [] else [the e]) @ map so_time (filter (detects ctx) obs) of
       [] \<Rightarrow> None | t # ts \<Rightarrow> Some (foldl min t ts))"
proof (induction ctx obs e rule: earliest_detection.induct)
  case (2 ctx ob obs e)
  then show ?case
    by (cases e) (auto simp: min_def)
qed simp

lemma drops_nonneg: "x \<in> set (drops ss) \<Longrightarrow> 0 < x"
  by (induction ss rule: drops.induct) (auto split: if_splits)

lemma comms_range:
  assumes "comms_robustness tr = Inr v" "mv_value v = Some c"
  shows "0 \<le> c \<and> c \<le> 1"
proof -
  let ?masks = "List.map_filter so_earth_contact (et_observations tr)"
  have "c = real (length (filter (\<lambda>c. c) ?masks)) / real (length ?masks)"
    using assms by (auto simp: comms_robustness_def scalar_def Let_def split: if_splits)
  then show ?thesis
    using length_filter_le [of "\<lambda>c. c" ?masks] by (simp add: divide_le_eq_1)
qed

section \<open>Scores do not depend on the order of the traces\<close>

lemma score_order_irrelevant:
  assumes "dict_wf ts" "mset ts = mset us"
  shows "score ts ms sid runner = score us ms sid runner"
proof -
  have us: "dict_wf us"
    using assms by (metis mset_map mset_eq_imp_distinct_iff)
  have "sort (dict_keys ts) = sort (dict_keys us)"
    using assms(2) by (intro properties_for_sort) (simp_all add: mset_map)
  moreover have "dict_get ts = dict_get us"
    using assms us by (metis map_of_inject_set set_mset_mset)
  ultimately show ?thesis
    by (simp add: score_def)
qed

lemma foldl_min_Min: "foldl min t ts = Min (insert t (set ts))" for t :: real
proof (induction ts arbitrary: t)
  case (Cons y ys)
  have "Min (insert t (insert y (set ys))) = Min (insert (min t y) (set ys))"
    by (cases "set ys = {}") (simp_all add: min.assoc)
  with Cons.IH [of "min t y"] show ?case by simp
qed simp

lemma aggregate_all_Inr:
  "aggregate_all ms by_metric seeds = Inr as \<Longrightarrow>
    map as_metric as = map m_name ms
    \<and> (\<forall>a \<in> set as. \<exists>m \<in> set ms. \<exists>ps. dict_get by_metric (m_name m) = Some ps
         \<and> length ps = length seeds \<and> a = aggregate_one m seeds ps)"
proof (induction ms by_metric seeds arbitrary: as rule: aggregate_all.induct)
  case (2 m ms by_metric seeds)
  from "2.prems" obtain ps as' where ps: "dict_get by_metric (m_name m) = Some ps" "length ps = length seeds"
    and rest: "aggregate_all ms by_metric seeds = Inr as'" and as: "as = aggregate_one m seeds ps # as'"
    by (auto simp: rbind_Inr split: option.splits if_splits)
  have name: "as_metric (aggregate_one m seeds ps) = m_name m"
    by (simp add: aggregate_one_def Let_def)
  note IH = "2.IH" [OF ps(1) _ rest]
  show ?case
    unfolding as using IH ps name by (intro conjI) (simp, auto)
qed simp

section \<open>Properties\<close>

text \<open>
  A scorecard reports every metric of the scenario in order, and each aggregate honestly: it
  counts exactly the seeds where the metric applied, has a value exactly when there is one, a
  non-negative dispersion exactly when there are two, and, unless it is a sum, a value between any
  bounds that hold of the per-seed values.
\<close>

theorem aggregates_within_range:
  assumes "aggregate_scores ms by_metric seeds sid runner = Inr crd"
  shows "map as_metric (card_metrics crd) = map m_name ms
    \<and> (\<forall>a \<in> set (card_metrics crd).
         length (as_per_seed a) = length seeds \<and> as_seeds a = seeds
         \<and> as_n a = length (filter (\<lambda>v. v \<noteq> None) (as_per_seed a))
         \<and> (as_value a = None \<longleftrightarrow> as_n a = 0)
         \<and> (as_dispersion a = None \<longleftrightarrow> as_n a < 2)
         \<and> (\<forall>d. as_dispersion a = Some d \<longrightarrow> 0 \<le> d)
         \<and> (\<forall>lo hi v. as_aggregation a \<noteq> AGG_SUM \<and> as_value a = Some v
              \<and> (\<forall>x. Some x \<in> set (as_per_seed a) \<longrightarrow> lo \<le> x \<and> x \<le> hi) \<longrightarrow> lo \<le> v \<and> v \<le> hi))"
proof -
  obtain as where as: "aggregate_all ms by_metric seeds = Inr as" and crd: "card_metrics crd = as"
    using assms by (auto simp: aggregate_scores_def rbind_Inr)
  have applicable: "length (List.map_filter (\<lambda>v. v) ps) = length (filter (\<lambda>v. v \<noteq> None) ps)"
    "set (List.map_filter (\<lambda>v. v) ps) = {x. Some x \<in> set ps}" for ps :: "real option list"
    by (induction ps) (auto simp: List.map_filter_simps split: option.splits)
  show ?thesis
    unfolding crd
  proof (intro conjI ballI)
    show "map as_metric as = map m_name ms"
      using aggregate_all_Inr [OF as] by simp
    fix a assume "a \<in> set as"
    then obtain m ps where len: "length ps = length seeds" and a: "a = aggregate_one m seeds ps"
      using aggregate_all_Inr [OF as] by blast
    let ?xs = "List.map_filter (\<lambda>v. v) ps"
    have fields: "as_per_seed a = ps" "as_seeds a = seeds" "as_n a = length ?xs"
      "as_aggregation a = m_aggregation m"
      "as_value a = (if ?xs \<noteq> [] then Some (AGGREGATORS (m_aggregation m) ?xs) else None)"
      "as_dispersion a = (if 2 \<le> length ?xs then Some (stdev ?xs) else None)"
      by (simp_all add: a aggregate_one_def Let_def)
    show "length (as_per_seed a) = length seeds" "as_seeds a = seeds"
      "as_n a = length (filter (\<lambda>v. v \<noteq> None) (as_per_seed a))"
      "as_value a = None \<longleftrightarrow> as_n a = 0" "as_dispersion a = None \<longleftrightarrow> as_n a < 2"
      using len by (simp_all add: fields applicable(1) [symmetric] del: not_None_eq)
    show "\<forall>d. as_dispersion a = Some d \<longrightarrow> 0 \<le> d"
      using stdev_nonneg [of ?xs] by (simp add: fields)
    show "\<forall>lo hi v. as_aggregation a \<noteq> AGG_SUM \<and> as_value a = Some v
        \<and> (\<forall>x. Some x \<in> set (as_per_seed a) \<longrightarrow> lo \<le> x \<and> x \<le> hi) \<longrightarrow> lo \<le> v \<and> v \<le> hi"
    proof (intro allI impI)
      fix lo hi v
      assume h: "as_aggregation a \<noteq> AGG_SUM \<and> as_value a = Some v
        \<and> (\<forall>x. Some x \<in> set (as_per_seed a) \<longrightarrow> lo \<le> x \<and> x \<le> hi)"
      then have "in_range lo hi ?xs"
        by (simp add: in_range_def list_all_iff applicable(2) fields)
      then show "lo \<le> v \<and> v \<le> hi"
        using aggregator_range [of ?xs lo hi "m_aggregation m"] h by (auto simp: fields split: if_splits)
    qed
  qed
qed

definition demo_metric :: metric where
  "demo_metric = \<lparr>m_name = ''comms_robustness'', m_version = ''0.1.0'', m_unit = ''dimensionless'',
     m_direction = HIGHER_BETTER, m_aggregation = AGG_MEDIAN, m_compute = comms_robustness\<rparr>"

definition demo_scorecard :: scorecard where
  "demo_scorecard = \<lparr>card_scenario_id = None, card_runner = ''fixture/0.1.0'',
     card_metrics = [aggregate_one demo_metric [1, 2, 3] [Some 1, None, Some (1 / 2)]]\<rparr>"

lemma demo_aggregates:
  "aggregate_scores [demo_metric] [(''comms_robustness'', [Some 1, None, Some (1 / 2)])] [1, 2, 3] None
     ''fixture/0.1.0'' = Inr demo_scorecard"
  by (simp add: aggregate_scores_def demo_scorecard_def demo_metric_def)

theorem aggregates_within_range_witness:
  "map as_metric (card_metrics demo_scorecard) = [''comms_robustness'']
   \<and> as_n (hd (card_metrics demo_scorecard)) = 2
   \<and> as_value (hd (card_metrics demo_scorecard)) \<noteq> None"
proof -
  have n: "as_n (hd (card_metrics demo_scorecard)) = 2"
    by (simp add: demo_scorecard_def aggregate_one_def List.map_filter_simps Let_def)
  then show ?thesis
    using aggregates_within_range [OF demo_aggregates]
    by (simp add: demo_scorecard_def demo_metric_def)
qed

text \<open>
  What the metrics of survival, contact and discovery measure: a night counts as survived
  exactly when some observation samples the battery in it and no such observation shows a
  depleted battery or a temperature below the survivable one; contact is a fraction between 0 and
  1; the discovery latency is the earliest time of a detecting observation. None applies where the
  trace has nothing to measure.
\<close>

theorem reference_metrics_measure:
  "nights_survived tr = Inr (scalar
     (if night_intervals (et_context tr) = [] then None
      else Some (of_nat (length (filter (\<lambda>w.
        (\<exists>ob \<in> set (et_observations tr). in_window w ob \<and> so_battery_soc_j ob \<noteq> None)
        \<and> (\<forall>ob \<in> set (et_observations tr). in_window w ob \<and> so_battery_soc_j ob \<noteq> None
             \<longrightarrow> \<not> lost (et_context tr) ob)) (night_intervals (et_context tr)))))) ''dimensionless'')
   \<and> (\<forall>v c. comms_robustness tr = Inr v \<and> mv_value v = Some c \<longrightarrow> 0 \<le> c \<and> c \<le> 1)
   \<and> discovery_latency tr = Inr (scalar
       (if filter (detects (et_context tr)) (et_observations tr) = [] then None
        else Some (Min (so_time ` set (filter (detects (et_context tr)) (et_observations tr))))) ''s'')"
proof (intro conjI)
  show "nights_survived tr = Inr (scalar
     (if night_intervals (et_context tr) = [] then None
      else Some (of_nat (length (filter (\<lambda>w.
        (\<exists>ob \<in> set (et_observations tr). in_window w ob \<and> so_battery_soc_j ob \<noteq> None)
        \<and> (\<forall>ob \<in> set (et_observations tr). in_window w ob \<and> so_battery_soc_j ob \<noteq> None
             \<longrightarrow> \<not> lost (et_context tr) ob)) (night_intervals (et_context tr)))))) ''dimensionless'')"
    unfolding nights_survived_def Let_def night_survived_iff [symmetric] by simp
  show "\<forall>v c. comms_robustness tr = Inr v \<and> mv_value v = Some c \<longrightarrow> 0 \<le> c \<and> c \<le> 1"
    using comms_range by blast
  show "discovery_latency tr = Inr (scalar
       (if filter (detects (et_context tr)) (et_observations tr) = [] then None
        else Some (Min (so_time ` set (filter (detects (et_context tr)) (et_observations tr))))) ''s'')"
    unfolding discovery_latency_def earliest_detection_spec
    by (cases "filter (detects (et_context tr)) (et_observations tr)") (simp_all add: foldl_min_Min)
qed

definition demo_obs :: "int \<Rightarrow> real \<Rightarrow> bool \<Rightarrow> score_obs" where
  "demo_obs t soc contact = \<lparr>so_tick = t, so_time = of_int t, so_agent = ''r1'', so_battery_soc_j = Some soc,
     so_temperature_k = None, so_sensors = [], so_earth_contact = Some contact\<rparr>"

definition demo_trace :: episode_trace where
  "demo_trace = \<lparr>et_observations = [demo_obs 0 5 True, demo_obs 1 0 False],
     et_context = \<lparr>prior_belief = [], belief_history = [], psr_cells = [], sc_cell_area_m2 = 1,
       sc_variance_threshold = 0, discovery_species = ''water'', sc_discovery_threshold = 0,
       water_species = ''water'', night_intervals = [(0, 0), (0, 1)], survivable_temperature_k = None\<rparr>\<rparr>"

theorem reference_metrics_measure_witness:
  "nights_survived demo_trace = Inr (scalar (Some 1) ''dimensionless'')
   \<and> discovery_latency demo_trace = Inr (scalar None ''s'')"
  using reference_metrics_measure [of demo_trace]
  by (simp add: demo_trace_def demo_obs_def in_window_def lost_def detects_def)

end
