(* ===== verification/Bench_Stores.thy ===== *)
theory Bench_Stores
  imports Bench_Scenario Complex_Main
begin

text \<open>
  The shared state of the hosted leaderboard (\<^verbatim>\<open>bench/leaderboard\<close>): the records of the board
  (\<^verbatim>\<open>_models.py\<close>), its store in memory and over SQL (\<^verbatim>\<open>_store.py\<close>, \<^verbatim>\<open>_sql.py\<close>), the audit trail
  with the same two backends (\<^verbatim>\<open>_audit.py\<close>, \<^verbatim>\<open>_sql.py\<close>), the content-addressed object store in
  memory and on disk (\<^verbatim>\<open>_objects.py\<close>), and the job records, job queue and rate limiter
  (\<^verbatim>\<open>_jobs.py\<close>). Each backend contract is a locale that both backends interpret. An SQL table is the
  list of its rows in insertion order and a row holds the document itself; the hash of bytes is a
  parameter.
\<close>

section \<open>Records of the board\<close>

datatype integrity = VERIFIED | FLAGGED

record metric_score =
  ms_metric :: string
  ms_unit :: string
  ms_direction :: string
  ms_aggregation :: string
  ms_value :: "real option"
  ms_dispersion :: "real option"
  ms_n :: nat

record submission =
  sub_id :: string
  sub_scenario_id :: string
  sub_policy_ref :: string
  sub_method :: "string option"
  sub_author :: "string option"
  sub_scorecard_hash :: string
  sub_runner :: string
  sub_integrity :: integrity
  sub_scores :: "metric_score list"
  sub_source :: "string option"
  sub_provenance_hash :: "string option"
  sub_trace_hash :: "string option"

section \<open>The board\<close>

text \<open>The contract: what each call returns after each other, and the order of a listing.\<close>

locale leaderboard_store =
  fixes add_submission :: "submission \<Rightarrow> 's \<Rightarrow> 's"
    and get_submission :: "'s \<Rightarrow> string \<Rightarrow> submission option"
    and list_submissions :: "'s \<Rightarrow> string \<Rightarrow> submission list"
    and remove_submission :: "string \<Rightarrow> 's \<Rightarrow> 's"
    and store_ok :: "'s \<Rightarrow> bool"
  assumes ok_add: "store_ok s \<Longrightarrow> store_ok (add_submission x s)"
    and ok_remove: "store_ok s \<Longrightarrow> store_ok (remove_submission i s)"
    and get_add: "store_ok s \<Longrightarrow>
      get_submission (add_submission x s) i = (if i = sub_id x then Some x else get_submission s i)"
    and get_remove: "store_ok s \<Longrightarrow>
      get_submission (remove_submission i s) j = (if j = i then None else get_submission s j)"
    and get_id: "store_ok s \<Longrightarrow> get_submission s i = Some x \<Longrightarrow> sub_id x = i"
    and list_set: "store_ok s \<Longrightarrow>
      set (list_submissions s sc) = {x. get_submission s (sub_id x) = Some x \<and> sub_scenario_id x = sc}"
    and list_sorted: "store_ok s \<Longrightarrow> sorted_wrt (<) (map sub_id (list_submissions s sc))"
begin

text \<open>A listing is determined by what the lookups return: two stores that agree list alike.\<close>

lemma list_determined:
  assumes "store_ok s" "store_ok t" "\<And>i. get_submission s i = get_submission t i"
  shows "list_submissions s sc = list_submissions t sc"
proof (rule map_inj_on)
  have same: "set (list_submissions s sc) = set (list_submissions t sc)"
    using assms by (simp add: list_set)
  have sorted: "sorted (map sub_id (list_submissions u sc)) \<and> distinct (map sub_id (list_submissions u sc))"
    if "store_ok u" for u
    using list_sorted [OF that, of sc] by (simp add: strict_sorted_iff)
  show "map sub_id (list_submissions s sc) = map sub_id (list_submissions t sc)"
    using sorted [OF assms(1)] sorted [OF assms(2)] same
    by (intro sorted_distinct_set_unique) simp_all
  have "inj_on sub_id (set (list_submissions t sc))"
    using sorted [OF assms(2)] by (simp add: distinct_map)
  then show "inj_on sub_id (set (list_submissions s sc) \<union> set (list_submissions t sc))"
    by (simp add: same)
qed

lemma add_idempotent:
  "store_ok s \<Longrightarrow> list_submissions (add_submission x (add_submission x s)) sc
     = list_submissions (add_submission x s) sc"
  by (rule list_determined) (auto simp: ok_add get_add)

lemma retracted_gone:
  "store_ok s \<Longrightarrow> sub_id x = i \<Longrightarrow> x \<notin> set (list_submissions (remove_submission i s) sc)"
  by (auto simp: list_set ok_remove get_remove)

end

text \<open>\<^verbatim>\<open>InMemoryStore\<close>.\<close>

type_synonym memory_store = "(string, submission) dict"

definition mem_add_submission :: "submission \<Rightarrow> memory_store \<Rightarrow> memory_store" where
  "mem_add_submission x s = dict_set s (sub_id x) x"

definition mem_get_submission :: "memory_store \<Rightarrow> string \<Rightarrow> submission option" where
  "mem_get_submission s i = dict_get s i"

definition mem_list_submissions :: "memory_store \<Rightarrow> string \<Rightarrow> submission list" where
  "mem_list_submissions s sc = sort_key sub_id (filter (\<lambda>x. sub_scenario_id x = sc) (dict_values s))"

definition mem_remove_submission :: "string \<Rightarrow> memory_store \<Rightarrow> memory_store" where
  "mem_remove_submission i s = dict_pop s i"

definition mem_store_ok :: "memory_store \<Rightarrow> bool" where
  "mem_store_ok s = (dict_wf s \<and> list_all (\<lambda>(i, x). sub_id x = i) s)"

text \<open>\<^verbatim>\<open>SqlStore\<close>: a row is replaced by a delete and an insert in one transaction.\<close>

record submission_row =
  row_submission_id :: string
  row_scenario_id :: string
  row_body :: submission

type_synonym submissions_table = "submission_row list"

definition sql_delete_submission :: "string \<Rightarrow> submissions_table \<Rightarrow> submissions_table" where
  "sql_delete_submission i t = filter (\<lambda>r. row_submission_id r \<noteq> i) t"

definition sql_add_submission :: "submission \<Rightarrow> submissions_table \<Rightarrow> submissions_table" where
  "sql_add_submission x t =
    sql_delete_submission (sub_id x) t
      @ [\<lparr>row_submission_id = sub_id x, row_scenario_id = sub_scenario_id x, row_body = x\<rparr>]"

definition sql_get_submission :: "submissions_table \<Rightarrow> string \<Rightarrow> submission option" where
  "sql_get_submission t i =
    (case filter (\<lambda>r. row_submission_id r = i) t of [] \<Rightarrow> None | r # _ \<Rightarrow> Some (row_body r))"

definition sql_list_submissions :: "submissions_table \<Rightarrow> string \<Rightarrow> submission list" where
  "sql_list_submissions t sc =
    map row_body (sort_key row_submission_id (filter (\<lambda>r. row_scenario_id r = sc) t))"

definition sql_remove_submission :: "string \<Rightarrow> submissions_table \<Rightarrow> submissions_table" where
  "sql_remove_submission i t = sql_delete_submission i t"

definition sql_store_ok :: "submissions_table \<Rightarrow> bool" where
  "sql_store_ok t =
    (distinct (map row_submission_id t)
     \<and> list_all (\<lambda>r. row_submission_id r = sub_id (row_body r)
          \<and> row_scenario_id r = sub_scenario_id (row_body r)) t)"

lemma mem_store_entries:
  "mem_store_ok s \<Longrightarrow> p \<in> set s \<Longrightarrow> sub_id (snd p) = fst p"
  by (auto simp: mem_store_ok_def list_all_iff)

lemma strict_sorted_sort_key:
  "distinct (map f xs) \<Longrightarrow> sorted_wrt (<) (map f (sort_key f xs))"
  by (simp add: strict_sorted_iff distinct_map)

lemma mem_ids: "mem_store_ok s \<Longrightarrow> map sub_id (dict_values s) = dict_keys s"
  by (auto simp: mem_store_ok_def list_all_iff)

interpretation mem: leaderboard_store mem_add_submission mem_get_submission mem_list_submissions
    mem_remove_submission mem_store_ok
proof
  fix s x i j sc assume ok: "mem_store_ok s"
  then have wf: "dict_wf s" by (simp add: mem_store_ok_def)
  show "mem_store_ok (mem_add_submission x s)"
    using ok by (auto simp: mem_store_ok_def mem_add_submission_def list_all_iff dest: dict_set_entry)
  show "mem_store_ok (mem_remove_submission i s)"
    using ok dict_wf_pop [OF wf, of i]
    by (auto simp: mem_store_ok_def mem_remove_submission_def list_all_iff AList.delete_eq)
  show "mem_get_submission (mem_add_submission x s) i
      = (if i = sub_id x then Some x else mem_get_submission s i)"
    by (simp add: mem_get_submission_def mem_add_submission_def)
  show "mem_get_submission (mem_remove_submission i s) j
      = (if j = i then None else mem_get_submission s j)"
    by (simp add: mem_get_submission_def mem_remove_submission_def)
  show "mem_get_submission s i = Some x \<Longrightarrow> sub_id x = i"
    using ok by (auto simp: mem_get_submission_def mem_store_ok_def list_all_iff dest!: map_of_SomeD)
  show "set (mem_list_submissions s sc)
      = {x. mem_get_submission s (sub_id x) = Some x \<and> sub_scenario_id x = sc}"
  proof (intro equalityI subsetI)
    fix x assume "x \<in> set (mem_list_submissions s sc)"
    then obtain k where "(k, x) \<in> set s" "sub_scenario_id x = sc"
      by (auto simp: mem_list_submissions_def)
    then show "x \<in> {x. mem_get_submission s (sub_id x) = Some x \<and> sub_scenario_id x = sc}"
      using mem_store_entries [OF ok, of "(k, x)"] wf by (simp add: mem_get_submission_def)
  next
    fix x assume "x \<in> {x. mem_get_submission s (sub_id x) = Some x \<and> sub_scenario_id x = sc}"
    then show "x \<in> set (mem_list_submissions s sc)"
      by (auto simp: mem_list_submissions_def mem_get_submission_def dest: dict_get_in_values)
  qed
  show "sorted_wrt (<) (map sub_id (mem_list_submissions s sc))"
    unfolding mem_list_submissions_def
    by (intro strict_sorted_sort_key distinct_map_filter) (simp only: mem_ids [OF ok] wf)
qed

lemma sql_row:
  assumes "sql_store_ok t" "r \<in> set t"
  shows "r = \<lparr>row_submission_id = sub_id (row_body r),
    row_scenario_id = sub_scenario_id (row_body r), row_body = row_body r\<rparr>"
  using assms by (cases r) (auto simp: sql_store_ok_def list_all_iff)

lemma sql_get_iff:
  assumes "sql_store_ok t"
  shows "(sql_get_submission t i = Some x)
    = (\<lparr>row_submission_id = i, row_scenario_id = sub_scenario_id x, row_body = x\<rparr> \<in> set t)"
proof
  assume "sql_get_submission t i = Some x"
  then obtain r rs where f: "filter (\<lambda>r. row_submission_id r = i) t = r # rs" and x: "row_body r = x"
    by (auto simp: sql_get_submission_def split: list.splits)
  from f have r: "r \<in> set t" "row_submission_id r = i"
    by (metis (mono_tags, lifting) filter_eq_Cons_iff in_set_conv_decomp)+
  then show "\<lparr>row_submission_id = i, row_scenario_id = sub_scenario_id x, row_body = x\<rparr> \<in> set t"
    using sql_row [OF assms r(1)] x by (metis submission_row.select_convs(1))
next
  let ?r = "\<lparr>row_submission_id = i, row_scenario_id = sub_scenario_id x, row_body = x\<rparr>"
  assume r: "?r \<in> set t"
  have "q = ?r" if "q \<in> set t" "row_submission_id q = i" for q
  proof -
    have "inj_on row_submission_id (set t)" using assms by (simp add: sql_store_ok_def distinct_map)
    then show ?thesis by (rule inj_onD) (use that r in simp_all)
  qed
  note only = this
  obtain q qs where f: "filter (\<lambda>r. row_submission_id r = i) t = q # qs"
    using r by (metis (mono_tags, lifting) filter_empty_conv neq_Nil_conv submission_row.select_convs(1))
  then have "q \<in> set t" "row_submission_id q = i"
    by (metis (mono_tags, lifting) filter_eq_Cons_iff in_set_conv_decomp)+
  from only [OF this] f show "sql_get_submission t i = Some x"
    by (simp add: sql_get_submission_def)
qed

lemma sql_store_ok_delete: "sql_store_ok t \<Longrightarrow> sql_store_ok (sql_delete_submission i t)"
  by (auto simp: sql_store_ok_def sql_delete_submission_def list_all_iff distinct_map_filter)

lemma sql_store_ok_add: "sql_store_ok t \<Longrightarrow> sql_store_ok (sql_add_submission x t)"
  using sql_store_ok_delete [of t "sub_id x"]
  by (auto simp: sql_store_ok_def sql_add_submission_def sql_delete_submission_def)

lemma sql_get_delete:
  "sql_get_submission (sql_delete_submission i t) j = (if j = i then None else sql_get_submission t j)"
proof -
  have "filter (\<lambda>r. row_submission_id r = j) (sql_delete_submission i t)
      = (if j = i then [] else filter (\<lambda>r. row_submission_id r = j) t)"
    unfolding sql_delete_submission_def filter_filter by (auto intro: filter_cong)
  then show ?thesis by (simp add: sql_get_submission_def)
qed

lemma sql_ids: "sql_store_ok t \<Longrightarrow> map sub_id (map row_body t) = map row_submission_id t"
  by (auto simp: sql_store_ok_def list_all_iff)

interpretation sql: leaderboard_store sql_add_submission sql_get_submission sql_list_submissions
    sql_remove_submission sql_store_ok
proof
  fix t x i j sc assume ok: "sql_store_ok t"
  show "sql_store_ok (sql_add_submission x t)" by (rule sql_store_ok_add [OF ok])
  show "sql_store_ok (sql_remove_submission i t)"
    unfolding sql_remove_submission_def by (rule sql_store_ok_delete [OF ok])
  show "sql_get_submission (sql_add_submission x t) i
      = (if i = sub_id x then Some x else sql_get_submission t i)"
    using sql_get_delete [of "sub_id x" t i]
    by (auto simp: sql_get_submission_def sql_add_submission_def split: list.splits)
  show "sql_get_submission (sql_remove_submission i t) j
      = (if j = i then None else sql_get_submission t j)"
    by (simp add: sql_remove_submission_def sql_get_delete)
  show "sql_get_submission t i = Some x \<Longrightarrow> sub_id x = i"
    using ok by (auto simp: sql_get_iff sql_store_ok_def list_all_iff)
  note row = sql_row [OF ok]
  show "set (sql_list_submissions t sc)
      = {x. sql_get_submission t (sub_id x) = Some x \<and> sub_scenario_id x = sc}"
  proof (intro equalityI subsetI)
    fix x assume "x \<in> set (sql_list_submissions t sc)"
    then obtain r where r: "r \<in> set t" and sc: "row_scenario_id r = sc" and x: "x = row_body r"
      by (auto simp: sql_list_submissions_def)
    have "sub_scenario_id x = sc"
      using row [OF r] sc x by (metis submission_row.select_convs(2))
    then show "x \<in> {x. sql_get_submission t (sub_id x) = Some x \<and> sub_scenario_id x = sc}"
      using row [OF r] r x by (simp add: sql_get_iff [OF ok])
  next
    fix x assume "x \<in> {x. sql_get_submission t (sub_id x) = Some x \<and> sub_scenario_id x = sc}"
    then show "x \<in> set (sql_list_submissions t sc)"
      by (force simp: sql_get_iff [OF ok] sql_list_submissions_def)
  qed
  have "map sub_id (sql_list_submissions t sc)
      = map row_submission_id (sort_key row_submission_id (filter (\<lambda>r. row_scenario_id r = sc) t))"
    unfolding sql_list_submissions_def using ok by (auto simp: sql_store_ok_def list_all_iff)
  moreover have "distinct (map row_submission_id (filter (\<lambda>r. row_scenario_id r = sc) t))"
    using ok by (simp add: sql_store_ok_def distinct_map_filter)
  ultimately show "sorted_wrt (<) (map sub_id (sql_list_submissions t sc))"
    by (simp add: strict_sorted_sort_key)
qed

section \<open>The audit trail\<close>

datatype audit_decision = AD_ALLOW | AD_DENY | AD_VERIFIED | AD_REJECTED

primrec decision_value :: "audit_decision \<Rightarrow> string" where
  "decision_value AD_ALLOW = ''allow''"
| "decision_value AD_DENY = ''deny''"
| "decision_value AD_VERIFIED = ''verified''"
| "decision_value AD_REJECTED = ''rejected''"

record audit_event =
  ae_event_id :: string
  ae_occurred_at :: string
  ae_action :: string
  ae_decision :: audit_decision
  ae_subject :: "string option"
  ae_issuer :: "string option"
  ae_resource :: string
  ae_reason :: string
  ae_submission_id :: "string option"
  ae_job_id :: "string option"
  ae_trace_id :: "string option"
  ae_detail :: "(string, json) dict"

definition j_opt :: "string option \<Rightarrow> json" where
  "j_opt x = (case x of None \<Rightarrow> JNull | Some s \<Rightarrow> JStr s)"

text \<open>The content address of an event leaves out its detail, its trace and the id itself.\<close>

definition audit_body :: "audit_event \<Rightarrow> json" where
  "audit_body e = JObj
    [(''action'', JStr (ae_action e)), (''decision'', JStr (decision_value (ae_decision e))),
     (''issuer'', j_opt (ae_issuer e)), (''job_id'', j_opt (ae_job_id e)),
     (''occurred_at'', JStr (ae_occurred_at e)), (''reason'', JStr (ae_reason e)),
     (''resource'', JStr (ae_resource e)), (''subject'', j_opt (ae_subject e)),
     (''submission_id'', j_opt (ae_submission_id e))]"

definition make_audit_event :: "(json \<Rightarrow> string) \<Rightarrow> audit_event \<Rightarrow> audit_event" where
  "make_audit_event H e = e\<lparr>ae_event_id := H (audit_body e)\<rparr>"

record audit_filter =
  af_subject :: "string option"
  af_action :: "string option"
  af_decision :: "audit_decision option"
  af_resource :: "string option"
  af_submission_id :: "string option"
  af_limit :: int

definition matches_audit :: "audit_filter \<Rightarrow> audit_event \<Rightarrow> bool" where
  "matches_audit f e =
    ((af_subject f = None \<or> ae_subject e = af_subject f)
     \<and> opt_ok (\<lambda>a. ae_action e = a) (af_action f)
     \<and> opt_ok (\<lambda>d. ae_decision e = d) (af_decision f)
     \<and> opt_ok (\<lambda>r. ae_resource e = r) (af_resource f)
     \<and> (af_submission_id f = None \<or> ae_submission_id e = af_submission_id f))"

definition mem_record :: "audit_event \<Rightarrow> audit_event list \<Rightarrow> audit_event list" where
  "mem_record e entries = entries @ [e]"

definition mem_query :: "audit_event list \<Rightarrow> audit_filter \<Rightarrow> audit_event list" where
  "mem_query entries f = take (nat (max 0 (af_limit f))) (filter (matches_audit f) (rev entries))"

text \<open>\<^verbatim>\<open>SqlAuditLog\<close>: the filter columns beside the body, numbered by the sequence column.\<close>

record audit_row =
  arow_sequence :: nat
  arow_action :: string
  arow_decision :: string
  arow_subject :: "string option"
  arow_resource :: string
  arow_submission_id :: "string option"
  arow_body :: audit_event

definition sql_record :: "audit_event \<Rightarrow> audit_row list \<Rightarrow> audit_row list" where
  "sql_record e t =
    t @ [\<lparr>arow_sequence = Suc (foldr max (map arow_sequence t) 0), arow_action = ae_action e,
          arow_decision = decision_value (ae_decision e), arow_subject = ae_subject e,
          arow_resource = ae_resource e, arow_submission_id = ae_submission_id e, arow_body = e\<rparr>]"

definition matches_row :: "audit_filter \<Rightarrow> audit_row \<Rightarrow> bool" where
  "matches_row f r =
    ((af_subject f = None \<or> arow_subject r = af_subject f)
     \<and> opt_ok (\<lambda>a. arow_action r = a) (af_action f)
     \<and> opt_ok (\<lambda>d. arow_decision r = decision_value d) (af_decision f)
     \<and> opt_ok (\<lambda>x. arow_resource r = x) (af_resource f)
     \<and> (af_submission_id f = None \<or> arow_submission_id r = af_submission_id f))"

text \<open>\<^verbatim>\<open>ORDER BY sequence DESC LIMIT n\<close> over the rows the filters keep.\<close>

definition sql_query :: "audit_row list \<Rightarrow> audit_filter \<Rightarrow> audit_event list" where
  "sql_query t f =
    map arow_body
      (take (nat (max 0 (af_limit f))) (rev (sort_key arow_sequence (filter (matches_row f) t))))"

text \<open>The abstract trail is the list of what was recorded; a query reads it newest first.\<close>

locale audit_log =
  fixes rec_event :: "audit_event \<Rightarrow> 's \<Rightarrow> 's"
    and run_query :: "'s \<Rightarrow> audit_filter \<Rightarrow> audit_event list"
    and trail :: "'s \<Rightarrow> audit_event list"
    and log_ok :: "'s \<Rightarrow> bool"
  assumes ok_record: "log_ok s \<Longrightarrow> log_ok (rec_event e s)"
    and trail_record: "log_ok s \<Longrightarrow> trail (rec_event e s) = trail s @ [e]"
    and query_trail: "log_ok s \<Longrightarrow> run_query s f = mem_query (trail s) f"
begin

lemma query_matches: "log_ok s \<Longrightarrow> e \<in> set (run_query s f) \<Longrightarrow> matches_audit f e \<and> e \<in> set (trail s)"
  by (auto simp: query_trail mem_query_def dest!: in_set_takeD)

lemma query_after_record:
  assumes "log_ok s" "matches_audit f e" "0 < af_limit f"
  shows "hd (run_query (rec_event e s) f) = e"
proof -
  obtain n where "nat (max 0 (af_limit f)) = Suc n"
    using assms(3) by (metis max.absorb2 less_imp_le zero_less_nat_eq gr0_conv_Suc)
  then show ?thesis
    using assms by (simp add: ok_record query_trail trail_record mem_query_def)
qed

lemma trail_only_grows:
  "log_ok s \<Longrightarrow> \<exists>es. trail (fold rec_event xs s) = trail s @ es \<and> log_ok (fold rec_event xs s)"
proof (induction xs arbitrary: s)
  case (Cons x xs)
  from Cons.IH [OF ok_record [OF Cons.prems]] show ?case
    by (auto simp: trail_record [OF Cons.prems])
qed simp

end

interpretation mem_log: audit_log mem_record mem_query "\<lambda>entries. entries" "\<lambda>entries. True"
  by unfold_locales (simp_all add: mem_record_def)

definition audit_row_ok :: "audit_row \<Rightarrow> bool" where
  "audit_row_ok r =
    (arow_action r = ae_action (arow_body r) \<and> arow_decision r = decision_value (ae_decision (arow_body r))
     \<and> arow_subject r = ae_subject (arow_body r) \<and> arow_resource r = ae_resource (arow_body r)
     \<and> arow_submission_id r = ae_submission_id (arow_body r))"

definition audit_table_ok :: "audit_row list \<Rightarrow> bool" where
  "audit_table_ok t = (sorted_wrt (<) (map arow_sequence t) \<and> list_all audit_row_ok t)"

lemma decision_value_inj [simp]: "(decision_value a = decision_value b) = (a = b)"
  by (cases a; cases b) simp_all

lemma matches_row_body: "audit_row_ok r \<Longrightarrow> matches_row f r = matches_audit f (arow_body r)"
  by (auto simp: matches_row_def matches_audit_def audit_row_ok_def opt_ok_def split: option.splits)

lemma sequence_fresh: "n \<in> set ns \<Longrightarrow> n < Suc (foldr max ns (0::nat))"
  by (induction ns) auto

lemma audit_table_ok_record: "audit_table_ok t \<Longrightarrow> audit_table_ok (sql_record e t)"
  by (auto simp: audit_table_ok_def sql_record_def sorted_wrt_append audit_row_ok_def
      intro!: sequence_fresh)

interpretation sql_log: audit_log sql_record sql_query "map arow_body" audit_table_ok
proof
  fix t e f assume ok: "audit_table_ok t"
  show "audit_table_ok (sql_record e t)" by (rule audit_table_ok_record [OF ok])
  show "map arow_body (sql_record e t) = map arow_body t @ [e]"
    by (simp add: sql_record_def)
  have "sorted (map arow_sequence (filter (matches_row f) t))"
    using ok by (auto simp: audit_table_ok_def strict_sorted_iff intro: sorted_filter)
  then have "sort_key arow_sequence (filter (matches_row f) t) = filter (matches_row f) t"
    by (rule sort_key_id_if_sorted)
  moreover have "filter (matches_row f) t = filter (\<lambda>r. matches_audit f (arow_body r)) t"
    using ok by (auto simp: audit_table_ok_def list_all_iff matches_row_body intro!: filter_cong)
  ultimately show "sql_query t f = mem_query (map arow_body t) f"
    by (simp add: sql_query_def mem_query_def take_map rev_map filter_map comp_def rev_filter)
qed

section \<open>The object store\<close>

datatype object_error =
    ObjectIntegrityError string string
  | NotAnObjectDigest string

definition verify_object :: "('b \<Rightarrow> string) \<Rightarrow> string \<Rightarrow> 'b \<Rightarrow> object_error + 'b" where
  "verify_object blob_digest dg b =
    (if blob_digest b \<noteq> dg then Inl (ObjectIntegrityError dg (blob_digest b)) else Inr b)"

text \<open>
  The contract: a put answers the digest of the bytes and touches no other object; a get answers
  only bytes that hash to the digest asked for, whatever the store holds.
\<close>

locale object_store =
  fixes blob_digest :: "'b \<Rightarrow> string"
    and put_object :: "'b \<Rightarrow> ('s, object_error, string) st"
    and get_object :: "'s \<Rightarrow> string \<Rightarrow> object_error + 'b option"
    and contains_object :: "'s \<Rightarrow> string \<Rightarrow> object_error + bool"
    and intact :: "'s \<Rightarrow> bool"
  assumes put_digest: "put_object b s = (Inr d, s') \<Longrightarrow> d = blob_digest b"
    and put_present: "intact s \<Longrightarrow> put_object b s = (Inr d, s') \<Longrightarrow> \<exists>c. get_object s' d = Inr (Some c)"
    and put_intact: "intact s \<Longrightarrow> put_object b s = (Inr d, s') \<Longrightarrow> intact s'"
    and put_other: "put_object b s = (Inr d, s') \<Longrightarrow> d' \<noteq> d \<Longrightarrow> get_object s' d' = get_object s d'"
    and put_fails: "put_object b s = (Inl e, s') \<Longrightarrow> s' = s"
    and get_authentic: "get_object s d = Inr (Some b) \<Longrightarrow> blob_digest b = d"
    and intact_get: "intact s \<Longrightarrow> contains_object s d = Inr True \<Longrightarrow> \<exists>c. get_object s d = Inr (Some c)"
begin

lemma put_then_get:
  assumes "intact s" "put_object b s = (Inr d, s')" "\<And>c. blob_digest c = blob_digest b \<Longrightarrow> c = b"
  shows "get_object s' d = Inr (Some b)"
  using put_present [OF assms(1,2)] get_authentic put_digest [OF assms(2)] assms(3) by metis

lemma put_keeps:
  assumes "intact s" "put_object b s = (r, s')" "get_object s d = Inr (Some c)"
    "\<And>c'. blob_digest c' = blob_digest c \<Longrightarrow> c' = c"
  shows "get_object s' d = Inr (Some c)"
proof (cases r)
  case (Inl e)
  then show ?thesis using put_fails assms(2,3) by metis
next
  case (Inr d')
  show ?thesis
  proof (cases "d' = d")
    case True
    then obtain c' where "get_object s' d = Inr (Some c')"
      using put_present [OF assms(1)] assms(2) Inr by blast
    then show ?thesis
      using get_authentic assms(3,4) by metis
  next
    case False
    then show ?thesis using put_other assms(2,3) Inr by metis
  qed
qed

end

type_synonym 'b memory_objects = "(string, 'b) dict"

definition mem_put :: "('b \<Rightarrow> string) \<Rightarrow> 'b \<Rightarrow> ('b memory_objects, object_error, string) st" where
  "mem_put dg b = sbind (smodify (\<lambda>s. dict_set s (dg b) b)) (\<lambda>_. sret (dg b))"

definition mem_get :: "('b \<Rightarrow> string) \<Rightarrow> 'b memory_objects \<Rightarrow> string \<Rightarrow> object_error + 'b option" where
  "mem_get dg s d =
    (case dict_get s d of None \<Rightarrow> Inr None | Some b \<Rightarrow> rbind (verify_object dg d b) (\<lambda>b. Inr (Some b)))"

definition mem_contains :: "'b memory_objects \<Rightarrow> string \<Rightarrow> object_error + bool" where
  "mem_contains s d = Inr (d \<in> set (dict_keys s))"

definition mem_intact :: "('b \<Rightarrow> string) \<Rightarrow> 'b memory_objects \<Rightarrow> bool" where
  "mem_intact dg s = (dict_wf s \<and> list_all (\<lambda>(d, b). dg b = d) s)"

text \<open>\<^verbatim>\<open>FileObjectStore\<close>: files under the root, by their relative path.\<close>

type_synonym 'b object_files = "(string, 'b) dict"

definition object_path :: "string \<Rightarrow> object_error + string" where
  "object_path d =
    (case partition_on CHR '':'' d of
       (algorithm, _, hexpart) \<Rightarrow>
         if algorithm \<noteq> ''sha256'' \<or> length hexpart \<noteq> 64 then Inl (NotAnObjectDigest d)
         else Inr (''sha256/'' @ take 2 hexpart @ ''/'' @ hexpart))"

definition file_put :: "('b \<Rightarrow> string) \<Rightarrow> 'b \<Rightarrow> ('b object_files, object_error, string) st" where
  "file_put dg b =
    sbind (slift (object_path (dg b))) (\<lambda>path.
    sbind (smodify (\<lambda>s. if dict_get s path = None then dict_set s path b else s)) (\<lambda>_.
    sret (dg b)))"

definition file_get :: "('b \<Rightarrow> string) \<Rightarrow> 'b object_files \<Rightarrow> string \<Rightarrow> object_error + 'b option" where
  "file_get dg s d =
    rbind (object_path d) (\<lambda>path.
      case dict_get s path of None \<Rightarrow> Inr None
      | Some b \<Rightarrow> rbind (verify_object dg d b) (\<lambda>b. Inr (Some b)))"

definition file_contains :: "'b object_files \<Rightarrow> string \<Rightarrow> object_error + bool" where
  "file_contains s d = rbind (object_path d) (\<lambda>path. Inr (dict_get s path \<noteq> None))"

definition file_intact :: "('b \<Rightarrow> string) \<Rightarrow> 'b object_files \<Rightarrow> bool" where
  "file_intact dg s = list_all (\<lambda>(path, b). object_path (dg b) = Inr path) s"

lemma object_path_inj:
  assumes "object_path d = Inr p" "object_path d' = Inr p"
  shows "d = d'"
proof -
  have "\<exists>h. d = ''sha256:'' @ h \<and> p = ''sha256/'' @ take 2 h @ ''/'' @ h \<and> length h = 64"
    if "object_path d = Inr p" for d
  proof -
    obtain a f h where pt: "partition_on CHR '':'' d = (a, f, h)" by (cases "partition_on CHR '':'' d")
    with that have h: "a = ''sha256''" "length h = 64" "p = ''sha256/'' @ take 2 h @ ''/'' @ h"
      by (auto simp: object_path_def split: if_splits)
    have "f" using pt h(2) partition_on_nosep [of "CHR '':''" d a h] by (cases f) auto
    then have "d = a @ CHR '':'' # h" using pt partition_on_found by fastforce
    then show ?thesis using h by simp
  qed
  from this [OF assms(1)] this [OF assms(2)] show ?thesis by auto
qed

lemma verify_object_Inr: "(verify_object dg d b = Inr c) = (dg b = d \<and> c = b)"
  by (auto simp: verify_object_def)

interpretation mem_objects: object_store dg "mem_put dg" "mem_get dg" mem_contains "mem_intact dg" for dg
proof
  fix b c s d s' d' e
  show "mem_put dg b s = (Inr d, s') \<Longrightarrow> d = dg b"
    "mem_put dg b s = (Inr d, s') \<Longrightarrow> d' \<noteq> d \<Longrightarrow> mem_get dg s' d' = mem_get dg s d'"
    "mem_put dg b s = (Inl e, s') \<Longrightarrow> s' = s"
    by (auto simp: mem_put_def st_defs mem_get_def)
  show "mem_intact dg s \<Longrightarrow> mem_put dg b s = (Inr d, s') \<Longrightarrow> \<exists>c. mem_get dg s' d = Inr (Some c)"
    by (auto simp: mem_put_def st_defs mem_get_def verify_object_def)
  show "mem_intact dg s \<Longrightarrow> mem_put dg b s = (Inr d, s') \<Longrightarrow> mem_intact dg s'"
    by (auto simp: mem_put_def st_defs mem_intact_def list_all_iff dest: dict_set_entry)
  show "mem_get dg s d = Inr (Some b) \<Longrightarrow> dg b = d"
    by (auto simp: mem_get_def verify_object_Inr rbind_Inr split: option.splits)
  show "mem_intact dg s \<Longrightarrow> mem_contains s d = Inr True \<Longrightarrow> \<exists>c. mem_get dg s d = Inr (Some c)"
    by (fastforce simp: mem_contains_def mem_get_def mem_intact_def list_all_iff verify_object_def
        dict_get_iff split: option.splits)
qed

lemma file_get_Inr:
  "(file_get dg s d = Inr (Some b)) = (\<exists>p. object_path d = Inr p \<and> dict_get s p = Some b \<and> dg b = d)"
  by (auto simp: file_get_def rbind_Inr verify_object_Inr split: option.splits)

lemma file_put_Inr:
  "(file_put dg b s = (Inr d, s')) = (d = dg b \<and> (\<exists>p. object_path d = Inr p
     \<and> s' = (if dict_get s p = None then dict_set s p b else s)))"
  by (cases "object_path (dg b)") (auto simp: file_put_def st_defs)

lemma file_intact_get: "file_intact dg s \<Longrightarrow> dict_get s p = Some b \<Longrightarrow> object_path (dg b) = Inr p"
  by (auto simp: file_intact_def list_all_iff dest: map_of_SomeD)

interpretation file_objects: object_store dg "file_put dg" "file_get dg" file_contains "file_intact dg" for dg
proof
  fix b c s d s' d' e
  show "file_put dg b s = (Inr d, s') \<Longrightarrow> d = dg b"
    by (simp add: file_put_Inr)
  show "file_put dg b s = (Inl e, s') \<Longrightarrow> s' = s"
    by (cases "object_path (dg b)") (auto simp: file_put_def st_defs)
  show "file_get dg s d = Inr (Some b) \<Longrightarrow> dg b = d"
    by (auto simp: file_get_Inr)
  show "file_put dg b s = (Inr d, s') \<Longrightarrow> d' \<noteq> d \<Longrightarrow> file_get dg s' d' = file_get dg s d'"
    by (cases "object_path d'") (auto simp: file_put_Inr file_get_def dest: object_path_inj)
  show "\<exists>c. file_get dg s' d = Inr (Some c)"
    if "file_intact dg s" and put: "file_put dg b s = (Inr d, s')"
  proof -
    obtain p where p: "d = dg b" "object_path (dg b) = Inr p"
      and s': "s' = (if dict_get s p = None then dict_set s p b else s)"
      using put by (auto simp: file_put_Inr)
    show ?thesis
    proof (cases "dict_get s p")
      case None
      then have "file_get dg s' d = Inr (Some b)" by (simp add: file_get_Inr p s')
      then show ?thesis by blast
    next
      case (Some c)
      then have "dg c = dg b"
        using file_intact_get [OF that(1)] p(2) by (blast intro: object_path_inj)
      then have "file_get dg s' d = Inr (Some c)" by (simp add: file_get_Inr p s' Some)
      then show ?thesis by blast
    qed
  qed
  show "file_intact dg s \<Longrightarrow> file_put dg b s = (Inr d, s') \<Longrightarrow> file_intact dg s'"
    by (auto simp: file_put_Inr file_intact_def list_all_iff dest: dict_set_entry split: if_splits)
  show "file_intact dg s \<Longrightarrow> file_contains s d = Inr True \<Longrightarrow> \<exists>c. file_get dg s d = Inr (Some c)"
    by (auto simp: file_contains_def rbind_Inr file_get_Inr)
      (metis file_intact_get object_path_inj)
qed

section \<open>Jobs, the queue and the rate limiter\<close>

datatype submission_status = QUEUED | RUNNING | SCORED | RANKED | STATUS_FLAGGED | REJECTED

definition TERMINAL_STATUSES :: "submission_status list" where
  "TERMINAL_STATUSES = [RANKED, STATUS_FLAGGED, REJECTED]"

record job_record =
  job_id :: string
  job_status :: submission_status
  job_detail :: "string option"
  job_result_id :: "string option"

type_synonym job_store = "(string, job_record) dict"

definition put_job :: "job_record \<Rightarrow> job_store \<Rightarrow> job_store" where
  "put_job j s = dict_set s (job_id j) j"

definition get_job :: "job_store \<Rightarrow> string \<Rightarrow> job_record option" where
  "get_job s i = dict_get s i"

record submission_envelope =
  env_job_id :: string
  env_scenario_id :: string
  env_reference :: string
  env_subject :: string
  env_headers :: "(string, string) dict"

type_synonym job_queue = "submission_envelope list"

definition queue_publish :: "submission_envelope \<Rightarrow> job_queue \<Rightarrow> job_queue" where
  "queue_publish e q = q @ [e]"

definition queue_consume :: "job_queue \<Rightarrow> submission_envelope option \<times> job_queue" where
  "queue_consume q = (case q of [] \<Rightarrow> (None, []) | e # es \<Rightarrow> (Some e, es))"

definition queue_depth :: "job_queue \<Rightarrow> nat" where
  "queue_depth q = length q"

datatype rate_error = RateLimitError string nat | RateLimitTooSmall

record rate_limiter =
  rl_limit :: nat
  rl_counts :: "(string, nat) dict"

definition rate_limiter_init :: "nat \<Rightarrow> rate_error + rate_limiter" where
  "rate_limiter_init limit =
    (if limit < 1 then Inl RateLimitTooSmall else Inr \<lparr>rl_limit = limit, rl_counts = []\<rparr>)"

definition rate_check :: "string \<Rightarrow> (rate_limiter, rate_error, unit) st" where
  "rate_check identity =
    sbind (sread (\<lambda>l. (get_default (rl_counts l) identity 0 + 1, rl_limit l))) (\<lambda>(count, limit).
      if count > limit then sraise (RateLimitError identity limit)
      else smodify (\<lambda>l. l\<lparr>rl_counts := dict_set (rl_counts l) identity count\<rparr>))"

definition rate_observed :: "rate_limiter \<Rightarrow> string \<Rightarrow> nat" where
  "rate_observed l identity = get_default (rl_counts l) identity 0"

definition rate_reset :: "string option \<Rightarrow> rate_limiter \<Rightarrow> rate_limiter" where
  "rate_reset identity l =
    (case identity of
       None \<Rightarrow> l\<lparr>rl_counts := []\<rparr>
     | Some i \<Rightarrow> l\<lparr>rl_counts := dict_pop (rl_counts l) i\<rparr>)"

lemma rate_check_cases:
  "rate_check i l =
    (if rate_observed l i < rl_limit l
     then (Inr (), l\<lparr>rl_counts := dict_set (rl_counts l) i (Suc (rate_observed l i))\<rparr>)
     else (Inl (RateLimitError i (rl_limit l)), l))"
  by (simp add: rate_check_def rate_observed_def sbind_def st_defs)

lemma rate_observed_check:
  "rate_observed (snd (rate_check i l)) j =
    rate_observed l j + (if j = i \<and> rate_observed l i < rl_limit l then 1 else 0)"
  by (simp add: rate_check_cases) (simp add: rate_observed_def)

lemma rl_limit_check [simp]: "rl_limit (snd (rate_check i l)) = rl_limit l"
  by (simp add: rate_check_cases)

lemma rate_reset_observed:
  "rate_observed (rate_reset x l) j = (if x = None \<or> x = Some j then 0 else rate_observed l j)"
  by (auto simp: rate_reset_def rate_observed_def get_default_def split: option.splits)

text \<open>A window: one check after the other, keeping who was let through.\<close>

fun rate_window :: "string list \<Rightarrow> rate_limiter \<Rightarrow> string list \<times> rate_limiter" where
  "rate_window [] l = ([], l)"
| "rate_window (i # is) l =
    (case rate_check i l of
       (r, l') \<Rightarrow> (case rate_window is l' of (ok, l'') \<Rightarrow> (if is_ok r then i # ok else ok, l'')))"

lemma rate_window_counts:
  "count_list (fst (rate_window is l)) i
     = min (count_list is i) (rl_limit l - rate_observed l i)
   \<and> rate_observed (snd (rate_window is l)) i
     = rate_observed l i + count_list (fst (rate_window is l)) i"
proof (induction "is" arbitrary: l)
  case (Cons j js)
  have "rate_check j l = (fst (rate_check j l), snd (rate_check j l))" by simp
  then show ?case
    using Cons.IH [of "snd (rate_check j l)"] rate_observed_check [of j l i]
    by (auto simp: rate_check_cases split: prod.splits if_splits)
qed simp

section \<open>Properties\<close>

datatype board_op = AddSubmission submission | RemoveSubmission string

primrec mem_run :: "board_op \<Rightarrow> memory_store \<Rightarrow> memory_store" where
  "mem_run (AddSubmission x) s = mem_add_submission x s"
| "mem_run (RemoveSubmission i) s = mem_remove_submission i s"

primrec sql_run :: "board_op \<Rightarrow> submissions_table \<Rightarrow> submissions_table" where
  "sql_run (AddSubmission x) t = sql_add_submission x t"
| "sql_run (RemoveSubmission i) t = sql_remove_submission i t"

definition stores_agree :: "memory_store \<Rightarrow> submissions_table \<Rightarrow> bool" where
  "stores_agree s t =
    (mem_store_ok s \<and> sql_store_ok t \<and> (\<forall>i. mem_get_submission s i = sql_get_submission t i))"

lemma stores_agree_run: "stores_agree s t \<Longrightarrow> stores_agree (mem_run op s) (sql_run op t)"
  by (cases op)
    (simp_all add: stores_agree_def mem.ok_add sql.ok_add mem.get_add sql.get_add mem.ok_remove
      sql.ok_remove mem.get_remove sql.get_remove)

lemma stores_agree_fold: "stores_agree s t \<Longrightarrow> stores_agree (fold mem_run ops s) (fold sql_run ops t)"
  by (induction ops arbitrary: s t) (simp_all add: stores_agree_run)

lemma stores_agree_list:
  assumes "stores_agree s t"
  shows "mem_list_submissions s sc = sql_list_submissions t sc"
proof (rule map_inj_on)
  have ok: "mem_store_ok s" "sql_store_ok t" and get: "mem_get_submission s i = sql_get_submission t i" for i
    using assms by (simp_all add: stores_agree_def)
  have same: "set (mem_list_submissions s sc) = set (sql_list_submissions t sc)"
    using ok by (simp add: mem.list_set sql.list_set get)
  show "map sub_id (mem_list_submissions s sc) = map sub_id (sql_list_submissions t sc)"
    using mem.list_sorted [OF ok(1), of sc] sql.list_sorted [OF ok(2), of sc] same
    by (intro sorted_distinct_set_unique) (simp_all add: strict_sorted_iff)
  show "inj_on sub_id (set (mem_list_submissions s sc) \<union> set (sql_list_submissions t sc))"
    using sql.list_sorted [OF ok(2), of sc] by (simp add: same strict_sorted_iff distinct_map)
qed

lemma audit_backends_agree:
  "mem_query (fold mem_record es []) f = sql_query (fold sql_record es []) f"
proof -
  have "map arow_body (fold sql_record es t) = fold mem_record es (map arow_body t)
      \<and> audit_table_ok (fold sql_record es t)" if "audit_table_ok t" for t
    using that
  proof (induction es arbitrary: t)
    case (Cons e es)
    then show ?case
      using Cons.IH [OF sql_log.ok_record [OF Cons.prems]]
      by (simp add: sql_log.trail_record [OF Cons.prems] mem_record_def)
  qed simp
  from this [of "[]"] show ?thesis
    by (simp add: sql_log.query_trail audit_table_ok_def)
qed

text \<open>
  The SQL backends implement the in-memory ones: after any sequence of additions and
  retractions the two boards answer every lookup and every listing alike (sorted by submission
  id), and after the same events the two audit trails answer every query alike, newest first.
\<close>

theorem board_backends_agree:
  "mem_get_submission (fold mem_run ops []) i = sql_get_submission (fold sql_run ops []) i
   \<and> mem_list_submissions (fold mem_run ops []) sc = sql_list_submissions (fold sql_run ops []) sc
   \<and> mem_query (fold mem_record es []) f = sql_query (fold sql_record es []) f"
proof -
  have "stores_agree [] []"
    by (simp add: stores_agree_def mem_store_ok_def sql_store_ok_def mem_get_submission_def sql_get_submission_def)
  from stores_agree_fold [OF this, of ops] show ?thesis
    using stores_agree_list audit_backends_agree by (simp add: stores_agree_def)
qed

text \<open>
  In one window of a rate limiter every identity gets exactly the smaller of its number of
  calls and the limit through, whatever the other identities do in between; a reset starts over.
\<close>

theorem rate_limit_exact:
  "count_list (fst (rate_window calls \<lparr>rl_limit = n, rl_counts = []\<rparr>)) i = min (count_list calls i) n
   \<and> rate_observed (snd (rate_window calls l)) i \<le> max (rate_observed l i) (rl_limit l)
   \<and> rate_observed (rate_reset (Some i) l) i = 0"
  using rate_window_counts [of calls "\<lparr>rl_limit = n, rl_counts = []\<rparr>" i] rate_window_counts [of calls l i]
  by (auto simp: rate_observed_def [of "\<lparr>rl_limit = n, rl_counts = []\<rparr>"] get_default_def rate_reset_observed)

end
