(* ===== verification/Bench_Access.thy ===== *)
theory Bench_Access
  imports Bench_Stores
begin

text \<open>
  Who may do what on the hosted leaderboard: bearer-token authentication against the issuer's keys
  (\<^verbatim>\<open>bench/leaderboard/_auth.py\<close>) and the two policy engines (\<^verbatim>\<open>_authz.py\<close>). PyJWT, the HTTP
  client and the text Python prints for a JSON value that is not a string are parameters; what
  HTTP answers depends on an explicit world that each call may change.
\<close>

section \<open>Texts\<close>

text \<open>\<^verbatim>\<open>repr(s)\<close> of an ASCII string.\<close>

definition hex_digit :: "nat \<Rightarrow> char" where
  "hex_digit d = (if d < 10 then char_of (48 + d) else char_of (87 + d))"

definition repr_char :: "char \<Rightarrow> char \<Rightarrow> string" where
  "repr_char q c =
    (let n = (of_char c :: nat)
     in if c = q \<or> n = 92 then [char_of (92::nat), c]
        else if n = 9 then [char_of (92::nat), CHR ''t'']
        else if n = 10 then [char_of (92::nat), CHR ''n'']
        else if n = 13 then [char_of (92::nat), CHR ''r'']
        else if n < 32 \<or> n = 127 then [char_of (92::nat), CHR ''x'', hex_digit (n div 16), hex_digit (n mod 16)]
        else [c])"

definition py_repr :: "string \<Rightarrow> string" where
  "py_repr s =
    (let q = (if char_of (39::nat) \<in> set s \<and> char_of (34::nat) \<notin> set s then char_of (34::nat)
              else char_of (39::nat))
     in [q] @ concat (map (repr_char q) s) @ [q])"

fun join_with :: "string \<Rightarrow> string list \<Rightarrow> string" where
  "join_with sep [] = []"
| "join_with sep [x] = x"
| "join_with sep (x # y # ys) = x @ sep @ join_with sep (y # ys)"

definition repr_list :: "string list \<Rightarrow> string" where
  "repr_list xs = ''['' @ join_with '', '' (map py_repr xs) @ '']''"

definition str_of_int :: "int \<Rightarrow> string" where
  "str_of_int n = (if n < 0 then ''-'' @ str_of_nat (nat (- n)) else str_of_nat (nat n))"

text \<open>Python's truth of a JSON value, and \<^verbatim>\<open>str(x)\<close>.\<close>

fun json_truthy :: "json \<Rightarrow> bool" where
  "json_truthy JNull = False"
| "json_truthy (JBool b) = b"
| "json_truthy (JNum n) = (n \<noteq> 0)"
| "json_truthy (JStr s) = (s \<noteq> [])"
| "json_truthy (JList js) = (js \<noteq> [])"
| "json_truthy (JObj d) = (d \<noteq> [])"

fun json_str :: "(json \<Rightarrow> string) \<Rightarrow> json \<Rightarrow> string" where
  "json_str show_json (JStr s) = s"
| "json_str show_json j = show_json j"

definition json_or :: "json \<Rightarrow> json \<Rightarrow> json" where
  "json_or a b = (if json_truthy a then a else b)"

section \<open>Authentication\<close>

text \<open>\<open>AuthRaised\<close> is an exception of the interpreter that the module does not turn into its own.\<close>

datatype auth_error =
    AuthenticationError string
  | AuthRaised string

record principal =
  pr_subject :: string
  pr_issuer :: string
  pr_roles :: "string list"
  pr_scopes :: "string list"
  pr_email :: "string option"

definition identity :: "principal \<Rightarrow> string" where
  "identity p = pr_issuer p @ ''#'' @ pr_subject p"

definition bearer_token :: "string option \<Rightarrow> auth_error + string" where
  "bearer_token header =
    (case header of
       None \<Rightarrow> Inl (AuthenticationError ''missing Authorization header; a bearer token is required'')
     | Some h \<Rightarrow>
         if h = [] then Inl (AuthenticationError ''missing Authorization header; a bearer token is required'')
         else
           (case partition_on CHR '' '' h of
              (scheme, _, token) \<Rightarrow>
                if map to_lower scheme \<noteq> ''bearer'' \<or> py_strip token = []
                then Inl (AuthenticationError (''Authorization header must be '' @ py_repr ''Bearer <token>''))
                else Inr (py_strip token)))"

text \<open>
  PyJWT: the key id of a token's header, the keys of a key set with their ids, and the verified
  claims; a failure is the text of its error. \<open>http_get\<close> is the whole of the request, the status
  check and the decoding of the body.
\<close>

record ('k, 'w) jwt_env =
  unverified_kid :: "string \<Rightarrow> string + string option"
  key_set :: "(string, json) dict \<Rightarrow> string + (string option \<times> 'k) list"
  jwt_decode :: "string \<Rightarrow> 'k \<Rightarrow> string \<Rightarrow> string \<Rightarrow> string list \<Rightarrow> nat \<Rightarrow> 'w \<Rightarrow> string + (string, json) dict"
  http_get :: "string \<Rightarrow> 'w \<Rightarrow> (string + json) \<times> 'w"
  show_json :: "json \<Rightarrow> string"

definition DEFAULT_ALGORITHMS :: "string list" where
  "DEFAULT_ALGORITHMS = [''RS256'', ''RS384'', ''RS512'', ''ES256'', ''ES384'', ''PS256'']"

record oidc_config =
  oc_issuer :: string
  oc_audience :: string
  oc_jwks_url :: "string option"
  oc_algorithms :: "string list"
  oc_roles_claim :: string
  oc_leeway :: nat

text \<open>The verifier's state is its cached key set beside the world.\<close>

record 'w oidc_state =
  jwks :: "json option"
  oidc_world :: 'w

definition oidc_init ::
    "string \<Rightarrow> string \<Rightarrow> (string, json) dict option \<Rightarrow> string option \<Rightarrow> string \<Rightarrow> 'w
      \<Rightarrow> (oidc_config \<times> 'w oidc_state) option" where
  "oidc_init issuer audience keys url roles_claim w =
    (if issuer = [] \<or> audience = [] \<or> (keys = None \<and> url = None) then None
     else Some (\<lparr>oc_issuer = issuer, oc_audience = audience, oc_jwks_url = url,
                 oc_algorithms = DEFAULT_ALGORITHMS, oc_roles_claim = roles_claim, oc_leeway = 30\<rparr>,
                \<lparr>jwks = map_option JObj keys, oidc_world = w\<rparr>))"

text \<open>The payload is cached before anything has looked at it.\<close>

definition fetch_jwks :: "('k, 'w) jwt_env \<Rightarrow> oidc_config \<Rightarrow> ('w oidc_state, auth_error, json) st" where
  "fetch_jwks je cf =
    (case oc_jwks_url cf of
       None \<Rightarrow> sraise (AuthenticationError ''no JWKS is configured for this issuer'')
     | Some url \<Rightarrow> (\<lambda>s.
         (case http_get je url (oidc_world s) of
            (Inl e, w) \<Rightarrow>
              (Inl (AuthenticationError (''could not fetch the issuer JWKS: '' @ e)), s\<lparr>oidc_world := w\<rparr>)
          | (Inr payload, w) \<Rightarrow> (Inr payload, s\<lparr>oidc_world := w, jwks := Some payload\<rparr>))))"

fun first_key :: "string option \<Rightarrow> (string option \<times> 'k) list \<Rightarrow> 'k option" where
  "first_key kid [] = None"
| "first_key kid ((i, k) # ks) = (if kid = None \<or> i = kid then Some k else first_key kid ks)"

definition jwks_match_key :: "('k, 'w) jwt_env \<Rightarrow> json \<Rightarrow> string option \<Rightarrow> auth_error + 'k option" where
  "jwks_match_key je keys kid =
    (case keys of
       JObj d \<Rightarrow>
         if \<not> json_truthy (json_get d ''keys'') then Inr None
         else
           (case key_set je d of
              Inl e \<Rightarrow> Inl (AuthenticationError (''malformed issuer JWKS: '' @ e))
            | Inr ks \<Rightarrow> Inr (first_key kid ks))
     | _ \<Rightarrow> Inl (AuthRaised ''AttributeError''))"

definition current_jwks :: "('k, 'w) jwt_env \<Rightarrow> oidc_config \<Rightarrow> ('w oidc_state, auth_error, json) st" where
  "current_jwks je cf =
    sbind (sread jwks) (\<lambda>cached. case cached of Some keys \<Rightarrow> sret keys | None \<Rightarrow> fetch_jwks je cf)"

text \<open>The two attempts of \<^verbatim>\<open>_signing_key\<close>; \<open>again\<close> is whether a miss may refetch.\<close>

definition attempt_key ::
    "('k, 'w) jwt_env \<Rightarrow> oidc_config \<Rightarrow> string option \<Rightarrow> ('w oidc_state, auth_error, 'k option) st" where
  "attempt_key je cf kid =
    sbind (current_jwks je cf) (\<lambda>keys. slift (jwks_match_key je keys kid))"

definition no_key :: "string option \<Rightarrow> auth_error" where
  "no_key kid = AuthenticationError (''no JWKS key matches the token's kid ''
     @ (case kid of None \<Rightarrow> ''None'' | Some k \<Rightarrow> py_repr k))"

definition signing_key ::
    "('k, 'w) jwt_env \<Rightarrow> oidc_config \<Rightarrow> string \<Rightarrow> ('w oidc_state, auth_error, 'k) st" where
  "signing_key je cf token =
    (case unverified_kid je token of
       Inl e \<Rightarrow> sraise (AuthenticationError (''malformed bearer token: '' @ e))
     | Inr kid \<Rightarrow>
         sbind (attempt_key je cf kid) (\<lambda>first.
           case first of
             Some k \<Rightarrow> sret k
           | None \<Rightarrow>
               if oc_jwks_url cf = None then sraise (no_key kid)
               else
                 sbind (smodify (\<lambda>s. s\<lparr>jwks := None\<rparr>)) (\<lambda>_.
                 sbind (attempt_key je cf kid) (\<lambda>second.
                   case second of Some k \<Rightarrow> sret k | None \<Rightarrow> sraise (no_key kid)))))"

definition claim_tuple :: "(json \<Rightarrow> string) \<Rightarrow> json \<Rightarrow> string list" where
  "claim_tuple sh value =
    (case value of
       JStr s \<Rightarrow> py_split s
     | JList js \<Rightarrow> map (json_str sh) js
     | _ \<Rightarrow> [])"

definition principal_of_claims ::
    "(json \<Rightarrow> string) \<Rightarrow> oidc_config \<Rightarrow> (string, json) dict \<Rightarrow> auth_error + principal" where
  "principal_of_claims sh cf claims =
    (let subject = json_str sh (json_or (json_get claims ''sub'') (JStr []))
     in if subject = [] then Inl (AuthenticationError ''bearer token carries no subject claim'')
        else Inr
          \<lparr>pr_subject = subject,
           pr_issuer = json_str sh (json_or (json_get claims ''iss'') (JStr (oc_issuer cf))),
           pr_roles = claim_tuple sh (json_get claims (oc_roles_claim cf)),
           pr_scopes = claim_tuple sh (json_or (json_get claims ''scope'') (json_get claims ''scp'')),
           pr_email = (if json_truthy (json_get claims ''email'')
                       then Some (json_str sh (json_get claims ''email'')) else None)\<rparr>)"

definition verify_token ::
    "('k, 'w) jwt_env \<Rightarrow> oidc_config \<Rightarrow> string \<Rightarrow> ('w oidc_state, auth_error, principal) st" where
  "verify_token je cf token =
    sbind (signing_key je cf token) (\<lambda>key.
    sbind (sread oidc_world) (\<lambda>w.
      case jwt_decode je token key (oc_audience cf) (oc_issuer cf) (oc_algorithms cf) (oc_leeway cf) w of
        Inl e \<Rightarrow> sraise (AuthenticationError (''bearer token rejected: '' @ e))
      | Inr claims \<Rightarrow> slift (principal_of_claims (show_json je) cf claims)))"

definition rstrip_slash :: "string \<Rightarrow> string" where
  "rstrip_slash s = rev (dropWhile (\<lambda>c. c = CHR ''/'') (rev s))"

text \<open>\<^verbatim>\<open>environment.get(k)\<close> read as a truth value: unset and empty are the same.\<close>

definition env_set :: "(string, string) dict \<Rightarrow> string \<Rightarrow> string option" where
  "env_set e k = (case dict_get e k of None \<Rightarrow> None | Some v \<Rightarrow> if v = [] then None else Some v)"

definition oidc_verifier_from_env ::
    "(string, string) dict \<Rightarrow> 'w \<Rightarrow> (oidc_config \<times> 'w oidc_state) option" where
  "oidc_verifier_from_env e w =
    (case (env_set e ''ASTRO_MINE_BENCH_OIDC_ISSUER'', env_set e ''ASTRO_MINE_BENCH_OIDC_AUDIENCE'') of
       (Some issuer, Some audience) \<Rightarrow>
         let url = (case env_set e ''ASTRO_MINE_BENCH_OIDC_JWKS_URL'' of
                      Some u \<Rightarrow> u
                    | None \<Rightarrow> rstrip_slash issuer @ ''/protocol/openid-connect/certs'')
         in oidc_init issuer audience None (Some url)
              (get_default e ''ASTRO_MINE_BENCH_OIDC_ROLES_CLAIM'' ''roles'') w
     | _ \<Rightarrow> None)"

section \<open>Authorization\<close>

datatype board_action =
    SUBMISSION_CREATE
  | SUBMISSION_CREATE_HUB
  | RANKING_MUTATE
  | SCENARIO_AUTHOR
  | METRIC_AUTHOR
  | EMBARGO_READ
  | AUDIT_READ

primrec action_value :: "board_action \<Rightarrow> string" where
  "action_value SUBMISSION_CREATE = ''submission:create''"
| "action_value SUBMISSION_CREATE_HUB = ''submission:create_hub''"
| "action_value RANKING_MUTATE = ''ranking:mutate''"
| "action_value SCENARIO_AUTHOR = ''scenario:author''"
| "action_value METRIC_AUTHOR = ''metric:author''"
| "action_value EMBARGO_READ = ''embargo:read''"
| "action_value AUDIT_READ = ''audit:read''"

datatype role = SUBMITTER | MAINTAINER | ADMIN

primrec role_name_of :: "role \<Rightarrow> string" where
  "role_name_of SUBMITTER = ''submitter''"
| "role_name_of MAINTAINER = ''maintainer''"
| "role_name_of ADMIN = ''admin''"

definition role_of :: "string \<Rightarrow> role option" where
  "role_of s =
    (if s = role_name_of SUBMITTER then Some SUBMITTER
     else if s = role_name_of MAINTAINER then Some MAINTAINER
     else if s = role_name_of ADMIN then Some ADMIN else None)"

definition DEFAULT_ROLE_ACTIONS :: "(role, board_action list) dict" where
  "DEFAULT_ROLE_ACTIONS =
    [(SUBMITTER, [SUBMISSION_CREATE, SUBMISSION_CREATE_HUB]),
     (MAINTAINER, [SUBMISSION_CREATE, SUBMISSION_CREATE_HUB, SCENARIO_AUTHOR, METRIC_AUTHOR, EMBARGO_READ]),
     (ADMIN, [SUBMISSION_CREATE, SUBMISSION_CREATE_HUB, RANKING_MUTATE, SCENARIO_AUTHOR, METRIC_AUTHOR,
       EMBARGO_READ, AUDIT_READ])]"

definition DEFAULT_QUOTAS :: "(role, int option) dict" where
  "DEFAULT_QUOTAS = [(SUBMITTER, Some 20), (MAINTAINER, Some 200), (ADMIN, None)]"

definition QUOTA_ACTIONS :: "board_action list" where
  "QUOTA_ACTIONS = [SUBMISSION_CREATE, SUBMISSION_CREATE_HUB]"

record authz_decision =
  allow :: bool
  reason :: string

record authz_request =
  rq_principal :: principal
  rq_action :: board_action
  rq_resource :: string
  rq_submissions_in_window :: int
  rq_scenario_id :: string

definition authz_input :: "authz_request \<Rightarrow> json" where
  "authz_input rq =
    JObj [(''principal'', JObj
             [(''subject'', JStr (pr_subject (rq_principal rq))), (''issuer'', JStr (pr_issuer (rq_principal rq))),
              (''roles'', j_list JStr (pr_roles (rq_principal rq))),
              (''scopes'', j_list JStr (pr_scopes (rq_principal rq)))]),
          (''action'', JStr (action_value (rq_action rq))), (''resource'', JStr (rq_resource rq)),
          (''context'', JObj
             [(''submissions_in_window'', j_int (rq_submissions_in_window rq)),
              (''scenario_id'', JStr (rq_scenario_id rq))])]"

record rbac_engine =
  role_actions :: "(role, board_action list) dict"
  quotas :: "(role, int option) dict"
  embargoed :: "string list"

definition rbac_init ::
    "(role, board_action list) dict option \<Rightarrow> (role, int option) dict option \<Rightarrow> string list \<Rightarrow> rbac_engine" where
  "rbac_init ra qs emb =
    \<lparr>role_actions = (case ra of None \<Rightarrow> DEFAULT_ROLE_ACTIONS | Some d \<Rightarrow> if d = [] then DEFAULT_ROLE_ACTIONS else d),
     quotas = (case qs of None \<Rightarrow> DEFAULT_QUOTAS | Some d \<Rightarrow> if d = [] then DEFAULT_QUOTAS else d),
     embargoed = emb\<rparr>"

definition known_roles :: "principal \<Rightarrow> role list" where
  "known_roles p = List.map_filter role_of (pr_roles p)"

definition quota_of :: "rbac_engine \<Rightarrow> role list \<Rightarrow> int option" where
  "quota_of en roles =
    (let caps = map (\<lambda>r. get_default (quotas en) r (Some 0)) roles
     in if None \<in> set caps then None
        else Some (case List.map_filter (\<lambda>c. c) caps of [] \<Rightarrow> 0 | c # cs \<Rightarrow> foldl max c cs))"

definition granted_actions :: "rbac_engine \<Rightarrow> role list \<Rightarrow> board_action list" where
  "granted_actions en roles = concat (map (\<lambda>r. get_default (role_actions en) r []) roles)"

definition deny :: "string \<Rightarrow> authz_decision" where
  "deny r = \<lparr>allow = False, reason = r\<rparr>"

definition over_quota :: "rbac_engine \<Rightarrow> authz_request \<Rightarrow> role list \<Rightarrow> int option" where
  "over_quota en rq roles =
    (if rq_action rq \<in> set QUOTA_ACTIONS
     then (case quota_of en roles of
             None \<Rightarrow> None
           | Some q \<Rightarrow> if rq_submissions_in_window rq > q then Some q else None)
     else None)"

definition rbac_scenario :: "authz_request \<Rightarrow> string" where
  "rbac_scenario rq = (if rq_scenario_id rq = [] then rq_resource rq else rq_scenario_id rq)"

definition rbac_evaluate :: "rbac_engine \<Rightarrow> authz_request \<Rightarrow> authz_decision" where
  "rbac_evaluate en rq =
    (let roles = known_roles (rq_principal rq);
         granted = granted_actions en roles;
         names = repr_list (map role_name_of roles);
         act = action_value (rq_action rq);
         scenario = rbac_scenario rq
     in if roles = [] then deny (''principal '' @ py_repr (pr_subject (rq_principal rq)) @ '' carries no known role'')
        else if rq_action rq \<notin> set granted
        then deny (''role(s) '' @ names @ '' do not grant '' @ act @ '' on '' @ py_repr (rq_resource rq))
        else
          (case over_quota en rq roles of
             Some q \<Rightarrow> deny (''submission quota exhausted: '' @ str_of_int (rq_submissions_in_window rq)
               @ '' > '' @ str_of_int q @ '' in the current window for role(s) '' @ names)
           | None \<Rightarrow>
               if scenario \<in> set (embargoed en) \<and> EMBARGO_READ \<notin> set granted
               then deny (''scenario '' @ py_repr scenario @ '' is under embargo; ''
                 @ action_value EMBARGO_READ @ '' is required'')
               else \<lparr>allow = True, reason = act @ '' granted by '' @ names\<rparr>))"

text \<open>The sidecar: \<open>opa_post\<close> is the request, the status check and the decoding of the body.\<close>

definition opa_decision :: "(json \<Rightarrow> string) \<Rightarrow> authz_request \<Rightarrow> string + json \<Rightarrow> authz_decision" where
  "opa_decision sh rq response =
    (case response of
       Inl e \<Rightarrow> deny (''OPA policy evaluation failed: '' @ e)
     | Inr body \<Rightarrow>
         (case (case body of JObj d \<Rightarrow> json_get d ''result'' | _ \<Rightarrow> JNull) of
            JObj result \<Rightarrow>
              if json_get result ''allow'' \<noteq> JBool True
              then deny (json_str sh (json_or (json_get result ''reason'')
                     (JStr (action_value (rq_action rq) @ '' denied by OPA''))))
              else \<lparr>allow = True,
                    reason = json_str sh (json_or (json_get result ''reason'') (JStr ''allowed by OPA''))\<rparr>
          | _ \<Rightarrow> deny ''OPA returned no decision (undefined policy rule)''))"

definition opa_policy_evaluate ::
    "(json \<Rightarrow> string) \<Rightarrow> (string \<Rightarrow> json \<Rightarrow> 'w \<Rightarrow> (string + json) \<times> 'w) \<Rightarrow> string \<Rightarrow> authz_request
      \<Rightarrow> 'w \<Rightarrow> authz_decision \<times> 'w" where
  "opa_policy_evaluate sh opa_post url rq w =
    (case opa_post url (JObj [(''input'', authz_input rq)]) w of (r, w') \<Rightarrow> (opa_decision sh rq r, w'))"

datatype policy_engine = RbacPolicyEngine rbac_engine | OpaPolicyEngine string

definition policy_evaluate ::
    "(json \<Rightarrow> string) \<Rightarrow> (string \<Rightarrow> json \<Rightarrow> 'w \<Rightarrow> (string + json) \<times> 'w) \<Rightarrow> policy_engine
      \<Rightarrow> authz_request \<Rightarrow> 'w \<Rightarrow> authz_decision \<times> 'w" where
  "policy_evaluate sh opa_post en rq w =
    (case en of
       RbacPolicyEngine e \<Rightarrow> (rbac_evaluate e rq, w)
     | OpaPolicyEngine url \<Rightarrow> opa_policy_evaluate sh opa_post url rq w)"

definition policy_engine_from_env :: "(string, string) dict \<Rightarrow> policy_engine" where
  "policy_engine_from_env e =
    (let emb = filter (\<lambda>p. p \<noteq> []) (map py_strip
           (split_on CHR '','' (get_default e ''ASTRO_MINE_BENCH_EMBARGOED_SCENARIOS'' [])))
     in case env_set e ''ASTRO_MINE_BENCH_OPA_URL'' of
          Some url \<Rightarrow> OpaPolicyEngine url
        | None \<Rightarrow> RbacPolicyEngine (rbac_init None None emb))"

section \<open>The verifier\<close>

lemma bearer_token_Inr:
  "bearer_token h = Inr t \<Longrightarrow> \<exists>x scheme f tail. h = Some x \<and> partition_on CHR '' '' x = (scheme, f, tail)
     \<and> map to_lower scheme = ''bearer'' \<and> t = py_strip tail \<and> t \<noteq> []"
  by (auto simp: bearer_token_def split: option.splits if_splits prod.splits)

text \<open>A payload no lookup gets past: not an object, or a key set PyJWT refuses.\<close>

definition bad_jwks :: "('k, 'w) jwt_env \<Rightarrow> json \<Rightarrow> auth_error \<Rightarrow> bool" where
  "bad_jwks je keys e =
    (case keys of
       JObj d \<Rightarrow> json_truthy (json_get d ''keys'')
         \<and> (case key_set je d of Inl x \<Rightarrow> e = AuthenticationError (''malformed issuer JWKS: '' @ x) | Inr _ \<Rightarrow> False)
     | _ \<Rightarrow> e = AuthRaised ''AttributeError'')"

lemma match_key_bad: "bad_jwks je keys e \<Longrightarrow> jwks_match_key je keys kid = Inl e"
  by (auto simp: bad_jwks_def jwks_match_key_def split: json.splits sum.splits)

lemma verify_bad_cached:
  assumes "jwks s = Some keys" "bad_jwks je keys e" "unverified_kid je token = Inr kid"
  shows "verify_token je cf token s = (Inl e, s)"
  using assms
  by (simp add: verify_token_def signing_key_def attempt_key_def current_jwks_def sbind_def st_defs match_key_bad)

lemma first_key_Some: "first_key kid ks = Some k \<Longrightarrow> \<exists>i. (i, k) \<in> set ks \<and> (kid = None \<or> i = kid)"
  by (induction ks) (auto split: if_splits)

text \<open>A rotated key: the cached set has lost it, the fresh one has it, and it is found in one refetch.\<close>

lemma rotation_picked_up:
  assumes "jwks s = Some (JObj old)" "jwks_match_key je (JObj old) kid = Inr None"
    "oc_jwks_url cf = Some url" "http_get je url (oidc_world s) = (Inr (JObj fresh), w)"
    "jwks_match_key je (JObj fresh) kid = Inr (Some k)" "unverified_kid je token = Inr kid"
  shows "signing_key je cf token s = (Inr k, \<lparr>jwks = Some (JObj fresh), oidc_world = w\<rparr>)"
  using assms
  by (simp add: signing_key_def attempt_key_def current_jwks_def fetch_jwks_def sbind_def st_defs)

section \<open>The decisions\<close>

lemma role_of_value [simp]: "role_of (role_name_of r) = Some r"
  by (cases r) (simp_all add: role_of_def)

lemma foldl_max_ge: "(x \<le> foldl max c cs) = (x \<le> c \<or> (\<exists>d \<in> set cs. x \<le> d))" for x :: int
  by (induction cs arbitrary: c) (auto simp: le_max_iff_disj)

definition role_allows_use :: "rbac_engine \<Rightarrow> int \<Rightarrow> role \<Rightarrow> bool" where
  "role_allows_use en used r =
    (case get_default (quotas en) r (Some 0) of None \<Rightarrow> True | Some q \<Rightarrow> used \<le> q)"

definition role_grants :: "rbac_engine \<Rightarrow> board_action \<Rightarrow> role \<Rightarrow> bool" where
  "role_grants en a r = (a \<in> set (get_default (role_actions en) r []))"

lemma granted_iff: "(a \<in> set (granted_actions en roles)) = list_ex (role_grants en a) roles"
  by (auto simp: granted_actions_def role_grants_def list_ex_iff)

lemma all_some: "None \<notin> set caps \<Longrightarrow> \<exists>qs. caps = map Some qs"
  by (induction caps) (auto, metis list.simps(9) option.exhaust)

lemma map_filter_some: "List.map_filter (\<lambda>c. c) (map Some qs) = qs"
  by (induction qs) (simp_all add: List.map_filter_simps)

lemma caps_allow:
  assumes "caps \<noteq> []" "None \<notin> set caps"
  shows "((used::int) \<le> (case List.map_filter (\<lambda>c. c) caps of [] \<Rightarrow> 0 | c # cs \<Rightarrow> foldl max c cs))
    = list_ex (\<lambda>c. case c of None \<Rightarrow> True | Some q \<Rightarrow> used \<le> q) caps"
proof -
  obtain qs where qs: "caps = map Some qs" using all_some [OF assms(2)] by blast
  then obtain c cs where "qs = c # cs" using assms(1) by (cases qs) auto
  then show ?thesis
    unfolding qs map_filter_some by (auto simp: foldl_max_ge list_ex_iff)
qed

lemma quota_allows:
  assumes "roles \<noteq> []"
  shows "(case quota_of en roles of None \<Rightarrow> True | Some q \<Rightarrow> used \<le> q) = list_ex (role_allows_use en used) roles"
proof -
  define caps where "caps = map (\<lambda>r. get_default (quotas en) r (Some 0)) roles"
  have ex: "list_ex (role_allows_use en used) roles
      = list_ex (\<lambda>c. case c of None \<Rightarrow> True | Some q \<Rightarrow> used \<le> q) caps"
    by (simp add: list_ex_iff role_allows_use_def caps_def)
  show ?thesis
  proof (cases "None \<in> set caps")
    case True
    then have "quota_of en roles = None"
      unfolding quota_of_def Let_def caps_def by simp
    moreover have "list_ex (\<lambda>c. case c of None \<Rightarrow> True | Some q \<Rightarrow> used \<le> q) caps"
      using True unfolding list_ex_iff by (intro bexI [of _ None]) simp_all
    ultimately show ?thesis unfolding ex by simp
  next
    case False
    then have "quota_of en roles = Some (case List.map_filter (\<lambda>c. c) caps of [] \<Rightarrow> 0 | c # cs \<Rightarrow> foldl max c cs)"
      unfolding quota_of_def Let_def caps_def by simp
    moreover have "caps \<noteq> []" using assms by (simp add: caps_def)
    ultimately show ?thesis
      unfolding ex using caps_allow [OF _ False] by simp
  qed
qed

text \<open>What the built-in engine allows, read off the roles.\<close>

lemma rbac_allow:
  "allow (rbac_evaluate en rq) =
    (let roles = known_roles (rq_principal rq)
     in list_ex (role_grants en (rq_action rq)) roles
        \<and> (rq_action rq \<in> set QUOTA_ACTIONS \<longrightarrow> list_ex (role_allows_use en (rq_submissions_in_window rq)) roles)
        \<and> (rbac_scenario rq \<in> set (embargoed en) \<longrightarrow> list_ex (role_grants en EMBARGO_READ) roles))"
proof -
  let ?roles = "known_roles (rq_principal rq)"
  have "(over_quota en rq ?roles = None)
      = (rq_action rq \<in> set QUOTA_ACTIONS \<longrightarrow> list_ex (role_allows_use en (rq_submissions_in_window rq)) ?roles)"
    if "?roles \<noteq> []"
    unfolding over_quota_def quota_allows [OF that, symmetric] by (auto split: option.splits)
  then show ?thesis
    unfolding rbac_evaluate_def Let_def granted_iff
    by (cases "?roles = []") (auto simp: deny_def split: option.splits)
qed

lemma rbac_monotone:
  assumes "allow (rbac_evaluate en rq)"
    and "set (known_roles (rq_principal rq)) \<subseteq> set (known_roles p)"
  shows "allow (rbac_evaluate en (rq\<lparr>rq_principal := p\<rparr>))"
  using assms unfolding rbac_allow by (auto simp: Let_def list_ex_iff rbac_scenario_def)

lemma opa_allow:
  "allow (fst (opa_policy_evaluate sh opa_post url rq w)) =
    (case fst (opa_post url (JObj [(''input'', authz_input rq)]) w) of
       Inr (JObj body) \<Rightarrow>
         (case json_get body ''result'' of
            JObj result \<Rightarrow> json_get result ''allow'' = JBool True
          | _ \<Rightarrow> False)
     | _ \<Rightarrow> False)"
  by (auto simp: opa_policy_evaluate_def opa_decision_def deny_def split: prod.splits sum.splits json.splits)

section \<open>Properties\<close>

text \<open>
  C26: Authorization is default-deny. The built-in engine allows an action exactly when a role the
  principal is known to have grants it, when a quota-bound action is within the quota of one of
  those roles, and when an embargoed scenario is met by a role with the embargo right; unknown
  role names count for nothing and a further role never takes a right away. The sidecar engine
  allows exactly when the response is a document whose result says \<^verbatim>\<open>true\<close>: any failure to answer is a denial.
\<close>

theorem authorization_fails_closed:
  "(allow (rbac_evaluate en rq) \<longleftrightarrow>
      list_ex (role_grants en (rq_action rq)) (known_roles (rq_principal rq))
      \<and> (rq_action rq \<in> set QUOTA_ACTIONS
          \<longrightarrow> list_ex (role_allows_use en (rq_submissions_in_window rq)) (known_roles (rq_principal rq)))
      \<and> (rbac_scenario rq \<in> set (embargoed en)
          \<longrightarrow> list_ex (role_grants en EMBARGO_READ) (known_roles (rq_principal rq))))
   \<and> (allow (rbac_evaluate en rq) \<and> set (known_roles (rq_principal rq)) \<subseteq> set (known_roles p)
      \<longrightarrow> allow (rbac_evaluate en (rq\<lparr>rq_principal := p\<rparr>)))
   \<and> (allow (fst (opa_policy_evaluate sh opa_post url rq w)) \<longleftrightarrow>
      (case fst (opa_post url (JObj [(''input'', authz_input rq)]) w) of
         Inr (JObj body) \<Rightarrow>
           (case json_get body ''result'' of
              JObj result \<Rightarrow> json_get result ''allow'' = JBool True
            | _ \<Rightarrow> False)
       | _ \<Rightarrow> False))"
proof (intro conjI)
  show "allow (rbac_evaluate en rq) \<and> set (known_roles (rq_principal rq)) \<subseteq> set (known_roles p)
      \<longrightarrow> allow (rbac_evaluate en (rq\<lparr>rq_principal := p\<rparr>))"
    by (blast intro: rbac_monotone)
qed (simp_all only: rbac_allow Let_def opa_allow)

definition demo_principal :: principal where
  "demo_principal = \<lparr>pr_subject = ''lab-7'', pr_issuer = ''https://idp'', pr_roles = [''guest'', ''submitter''],
     pr_scopes = [], pr_email = None\<rparr>"

definition demo_authz :: "int \<Rightarrow> authz_request" where
  "demo_authz used = \<lparr>rq_principal = demo_principal, rq_action = SUBMISSION_CREATE,
     rq_resource = ''pkg:policy'', rq_submissions_in_window = used, rq_scenario_id = ''polar-ice''\<rparr>"

lemma demo_roles: "known_roles demo_principal = [SUBMITTER]"
  by code_simp

theorem authorization_fails_closed_witness:
  "allow (rbac_evaluate (rbac_init None None []) (demo_authz 20))
   \<and> \<not> allow (rbac_evaluate (rbac_init None None []) (demo_authz 21))
   \<and> \<not> allow (rbac_evaluate (rbac_init None None [''polar-ice'']) (demo_authz 0))
   \<and> \<not> allow (fst (opa_policy_evaluate (\<lambda>_. []) (\<lambda>_ _ w. (Inr (JObj []), w)) ''http://opa'' (demo_authz 0) ()))"
  unfolding authorization_fails_closed
      [THEN conjunct1, of "rbac_init None None []" "demo_authz 20"]
    authorization_fails_closed [THEN conjunct1, of "rbac_init None None []" "demo_authz 21"]
    authorization_fails_closed [THEN conjunct1, of "rbac_init None None [''polar-ice'']" "demo_authz 0"]
    authorization_fails_closed [THEN conjunct2, THEN conjunct2, of "\<lambda>_. []" "\<lambda>_ _ w. (Inr (JObj []), w)"
      "''http://opa''" "demo_authz 0" "()"]
  by (simp add: demo_authz_def demo_roles role_grants_def role_allows_use_def rbac_init_def
      DEFAULT_ROLE_ACTIONS_def DEFAULT_QUOTAS_def QUOTA_ACTIONS_def get_default_def rbac_scenario_def)

text \<open>
  A malformed key set is cached before it is checked. Once the endpoint has answered a document
  that is no object, or whose keys PyJWT refuses, the first verification fails and every later one
  fails in the same way without asking the endpoint again, whatever it would now answer.
\<close>

theorem malformed_jwks_wedges_verifier:
  assumes "jwks s = None" and "oc_jwks_url cf = Some url"
    and "http_get je url (oidc_world s) = (Inr keys, w)" and "bad_jwks je keys e"
    and "unverified_kid je token = Inr kid" and "unverified_kid je later = Inr kid'"
  shows "verify_token je cf token s = (Inl e, \<lparr>jwks = Some keys, oidc_world = w\<rparr>)
    \<and> verify_token je cf later \<lparr>jwks = Some keys, oidc_world = w'\<rparr>
        = (Inl e, \<lparr>jwks = Some keys, oidc_world = w'\<rparr>)"
proof
  show "verify_token je cf token s = (Inl e, \<lparr>jwks = Some keys, oidc_world = w\<rparr>)"
    using assms
    by (simp add: verify_token_def signing_key_def attempt_key_def current_jwks_def fetch_jwks_def
        sbind_def st_defs match_key_bad)
  show "verify_token je cf later \<lparr>jwks = Some keys, oidc_world = w'\<rparr>
      = (Inl e, \<lparr>jwks = Some keys, oidc_world = w'\<rparr>)"
    by (rule verify_bad_cached [OF _ assms(4,6)]) simp
qed

text \<open>An endpoint that answers a list once and the right keys ever after.\<close>

definition demo_jwt :: "(string, nat) jwt_env" where
  "demo_jwt = \<lparr>unverified_kid = (\<lambda>t. Inr (Some ''k1'')), key_set = (\<lambda>d. Inr [(Some ''k1'', ''key'')]),
     jwt_decode = (\<lambda>t k a i al l w. Inr [(''sub'', JStr ''lab-7'')]),
     http_get = (\<lambda>u n. (Inr (if n = 0 then JList [] else JObj [(''keys'', JList [JNull])]), n + 1)),
     show_json = (\<lambda>_. [])\<rparr>"

definition demo_oidc :: oidc_config where
  "demo_oidc = \<lparr>oc_issuer = ''https://idp'', oc_audience = ''bench'', oc_jwks_url = Some ''https://idp/certs'',
     oc_algorithms = DEFAULT_ALGORITHMS, oc_roles_claim = ''roles'', oc_leeway = 30\<rparr>"

theorem malformed_jwks_wedges_verifier_witness:
  "verify_token demo_jwt demo_oidc ''t'' \<lparr>jwks = None, oidc_world = 0\<rparr>
     = (Inl (AuthRaised ''AttributeError''), \<lparr>jwks = Some (JList []), oidc_world = 1\<rparr>)
   \<and> verify_token demo_jwt demo_oidc ''t'' \<lparr>jwks = Some (JList []), oidc_world = 5\<rparr>
     = (Inl (AuthRaised ''AttributeError''), \<lparr>jwks = Some (JList []), oidc_world = 5\<rparr>)
   \<and> is_ok (fst (verify_token demo_jwt demo_oidc ''t'' \<lparr>jwks = None, oidc_world = 5\<rparr>))"
proof (intro conjI)
  note wedge = malformed_jwks_wedges_verifier [of "\<lparr>jwks = None, oidc_world = 0\<rparr>" demo_oidc
      "''https://idp/certs''" demo_jwt "JList []" 1 "AuthRaised ''AttributeError''" "''t''"
      "Some ''k1''" "''t''" "Some ''k1''" 5]
  show "verify_token demo_jwt demo_oidc ''t'' \<lparr>jwks = None, oidc_world = 0\<rparr>
     = (Inl (AuthRaised ''AttributeError''), \<lparr>jwks = Some (JList []), oidc_world = 1\<rparr>)"
    using wedge by (simp add: demo_jwt_def demo_oidc_def bad_jwks_def)
  show "verify_token demo_jwt demo_oidc ''t'' \<lparr>jwks = Some (JList []), oidc_world = 5\<rparr>
     = (Inl (AuthRaised ''AttributeError''), \<lparr>jwks = Some (JList []), oidc_world = 5\<rparr>)"
    using wedge by (simp add: demo_jwt_def demo_oidc_def bad_jwks_def)
  show "is_ok (fst (verify_token demo_jwt demo_oidc ''t'' \<lparr>jwks = None, oidc_world = 5\<rparr>))"
    by code_simp
qed

end
