(* ===== verification/Bench_Eval.thy ===== *)
theory Bench_Eval
  imports Bench_Metrics Bench_Access "HOL-Library.Product_Lexorder"
begin

text \<open>
  Submit-policy-we-run (\<^verbatim>\<open>bench/leaderboard/_eval.py\<close>, \<^verbatim>\<open>_provenance.py\<close>, \<^verbatim>\<open>bench/sandbox/_score.py\<close>
  and the classification of a sandboxed run in \<^verbatim>\<open>_subprocess.py\<close>): a policy reference is rolled
  seed by seed in a sandbox, the reported values are aggregated, a sample is re-executed, and the
  scored runs are ranked. The sandbox itself is a call on the world; the digest of a scorecard and
  of a document, the installed versions and the environment stamp are parameters.
\<close>

section \<open>The sandboxed scorer\<close>

datatype sandbox_status = OK | FAILED | TIMEOUT | KILLED | CRASHED

primrec sandbox_status_value :: "sandbox_status \<Rightarrow> string" where
  "sandbox_status_value OK = ''ok''"
| "sandbox_status_value FAILED = ''failed''"
| "sandbox_status_value TIMEOUT = ''timeout''"
| "sandbox_status_value KILLED = ''killed''"
| "sandbox_status_value CRASHED = ''crashed''"

record worker_result =
  wr_ok :: bool
  wr_metrics :: "(string \<times> real option) list"
  wr_error :: "string option"

record sandbox_outcome =
  out_status :: sandbox_status
  out_result :: "worker_result option"
  out_signal :: "int option"
  out_detail :: "string option"

definition outcome_scored :: "sandbox_outcome \<Rightarrow> bool" where
  "outcome_scored o' =
    (out_status o' = OK \<and> (case out_result o' of None \<Rightarrow> False | Some r \<Rightarrow> wr_ok r))"

text \<open>How the child ended; \<open>limit\<close> is the text of the wall-clock limit.\<close>

definition classify_outcome ::
    "string \<Rightarrow> worker_result option \<Rightarrow> int option \<Rightarrow> bool \<Rightarrow> sandbox_outcome" where
  "classify_outcome limit result returncode timed_out =
    (let signal_number = (case returncode of None \<Rightarrow> None | Some n \<Rightarrow> if n < 0 then Some (- n) else None);
         (status, detail) =
           (if timed_out then (TIMEOUT, Some (''wall-clock limit of '' @ limit @ ''s exceeded; process group killed''))
            else case signal_number of
                Some n \<Rightarrow> (KILLED, Some (''killed by signal '' @ str_of_int n
                  @ '' (a CPU/memory limit or the seccomp arch guard)''))
              | None \<Rightarrow>
                  (case result of
                     None \<Rightarrow> (CRASHED, Some (''the worker exited ''
                        @ (case returncode of None \<Rightarrow> ''None'' | Some n \<Rightarrow> str_of_int n)
                        @ '' without a parseable result document''))
                   | Some r \<Rightarrow> if \<not> wr_ok r then (FAILED, wr_error r) else (OK, None)))
     in \<lparr>out_status = status, out_result = result, out_signal = signal_number, out_detail = detail\<rparr>)"

text \<open>
  \<open>SandboxError\<close> carries its text and the status of the outcome it was raised for;
  \<open>ScorerRaised\<close> is any other exception.
\<close>

datatype scorer_error =
    SandboxError string "sandbox_status option"
  | ScorerRaised metric_error
  | NoSeeds

type_synonym 'w sandbox = "string \<Rightarrow> string \<Rightarrow> int \<Rightarrow> ('w, scorer_error, sandbox_outcome) st"
type_synonym 'w scorer = "scenario_spec \<Rightarrow> string \<Rightarrow> int list \<Rightarrow> ('w, scorer_error, scorecard) st"

definition not_clean :: "string \<Rightarrow> int \<Rightarrow> sandbox_outcome \<Rightarrow> scorer_error" where
  "not_clean policy_ref seed o' = SandboxError
    (''submission '' @ py_repr policy_ref @ '' did not execute cleanly on seed '' @ str_of_int seed
      @ '' ('' @ sandbox_status_value (out_status o') @ '': ''
      @ (case out_detail o' of None \<Rightarrow> ''None'' | Some d \<Rightarrow> d) @ '')'') (Some (out_status o'))"

fun append_reported ::
    "string \<Rightarrow> int \<Rightarrow> sandbox_outcome \<Rightarrow> (string, real option) dict \<Rightarrow> metric list
      \<Rightarrow> (string, real option list) dict \<Rightarrow> scorer_error + (string, real option list) dict" where
  "append_reported policy_ref seed o' reported [] acc = Inr acc"
| "append_reported policy_ref seed o' reported (m # ms) acc =
    (case dict_get reported (m_name m) of
       None \<Rightarrow> Inl (SandboxError (''submission '' @ py_repr policy_ref @ '' returned no value for metric ''
         @ py_repr (m_name m) @ '' on seed '' @ str_of_int seed) (Some (out_status o')))
     | Some v \<Rightarrow> append_reported policy_ref seed o' reported ms
         (dict_set acc (m_name m) (get_default acc (m_name m) [] @ [v])))"

definition reported_values :: "worker_result \<Rightarrow> (string, real option) dict" where
  "reported_values r = fold (\<lambda>(n, v) d. dict_set d n v) (wr_metrics r) []"

definition append_seed ::
    "string \<Rightarrow> int \<Rightarrow> metric list \<Rightarrow> sandbox_outcome \<Rightarrow> (string, real option list) dict
      \<Rightarrow> scorer_error + (string, real option list) dict" where
  "append_seed policy_ref seed ms o' acc =
    (case (outcome_scored o', out_result o') of
       (True, Some r) \<Rightarrow> append_reported policy_ref seed o' (reported_values r) ms acc
     | _ \<Rightarrow> Inl (not_clean policy_ref seed o'))"

fun roll_seeds ::
    "'w sandbox \<Rightarrow> string \<Rightarrow> string \<Rightarrow> metric list \<Rightarrow> int list \<Rightarrow> (string, real option list) dict
      \<Rightarrow> ('w, scorer_error, (string, real option list) dict) st" where
  "roll_seeds run sid policy_ref ms [] acc = sret acc"
| "roll_seeds run sid policy_ref ms (seed # seeds) acc =
    sbind (run sid policy_ref seed) (\<lambda>o'.
    sbind (slift (append_seed policy_ref seed ms o' acc)) (\<lambda>acc'.
    roll_seeds run sid policy_ref ms seeds acc'))"

definition REFERENCE_EPISODE_RUNNER_ID :: string where
  "REFERENCE_EPISODE_RUNNER_ID = ''fixture/0.1.0''"

definition sandbox_scorer :: "'w sandbox \<Rightarrow> 'w scorer" where
  "sandbox_scorer run spec policy_ref seeds =
    (let ordered = sort seeds
     in if ordered = [] then sraise NoSeeds
        else
          sbind (slift (rerr ScorerRaised (resolve_metrics (sc_metrics spec)))) (\<lambda>ms.
          sbind (roll_seeds run (scenario_id spec) policy_ref ms ordered
              (fold (\<lambda>m d. dict_set d (m_name m) []) ms [])) (\<lambda>by_metric.
          slift (rerr ScorerRaised
            (aggregate_scores ms by_metric ordered (Some (scenario_id spec)) REFERENCE_EPISODE_RUNNER_ID)))))"

section \<open>Evaluation\<close>

definition validate_policy_ref :: "string \<Rightarrow> string option" where
  "validate_policy_ref policy_ref =
    (case partition_on CHR '':'' policy_ref of
       (module_name, separator, attribute) \<Rightarrow>
         if \<not> separator \<or> py_strip module_name = [] \<or> py_strip attribute = [] then None
         else Some policy_ref)"

text \<open>\<^verbatim>\<open>d.get(k)\<close> of a dictionary whose values may be \<^verbatim>\<open>None\<close>.\<close>

definition get_opt :: "('k, 'v option) dict \<Rightarrow> 'k \<Rightarrow> 'v option" where
  "get_opt d k = (case dict_get d k of None \<Rightarrow> None | Some v \<Rightarrow> v)"

definition seed_values :: "aggregate_score \<Rightarrow> (int, real option) dict" where
  "seed_values a = fold (\<lambda>(s, v) d. dict_set d s v) (zip (as_seeds a) (as_per_seed a)) []"

definition sample_reproduces :: "scorecard \<Rightarrow> scorecard \<Rightarrow> bool" where
  "sample_reproduces full resample =
    (let by_metric = fold (\<lambda>a d. dict_set d (as_metric a) (seed_values a)) (card_metrics full) []
     in list_all (\<lambda>a.
          case dict_get by_metric (as_metric a) of
            None \<Rightarrow> False
          | Some original \<Rightarrow>
              list_all (\<lambda>(s, v). get_opt original s = v) (zip (as_seeds a) (as_per_seed a)))
        (card_metrics resample))"

definition evaluate ::
    "'w scorer \<Rightarrow> scenario_spec \<Rightarrow> string \<Rightarrow> int list \<Rightarrow> nat
      \<Rightarrow> ('w, scorer_error, scorecard \<times> integrity) st" where
  "evaluate scorer spec policy_ref seeds sample_size =
    sbind (scorer spec policy_ref seeds) (\<lambda>full.
    sbind (scorer spec policy_ref (take (max 1 sample_size) (sort seeds))) (\<lambda>resample.
    sret (full, if sample_reproduces full resample then VERIFIED else FLAGGED)))"

record submission_request =
  sr_scenario_id :: string
  sr_policy_ref :: string
  sr_method :: "string option"
  sr_author :: "string option"

definition metric_score_of :: "aggregate_score \<Rightarrow> metric_score" where
  "metric_score_of a =
    \<lparr>ms_metric = as_metric a, ms_unit = as_unit a, ms_direction = direction_value (as_direction a),
     ms_aggregation = aggregation_value (as_aggregation a), ms_value = as_value a,
     ms_dispersion = as_dispersion a, ms_n = as_n a\<rparr>"

definition submission_address ::
    "(json \<Rightarrow> string) \<Rightarrow> string \<Rightarrow> string \<Rightarrow> string \<Rightarrow> string option \<Rightarrow> string" where
  "submission_address H policy_ref sid card_hash source =
    H (JObj [(''policy_ref'', JStr policy_ref), (''scenario_id'', JStr sid),
             (''scorecard'', JStr card_hash), (''source'', j_opt source)])"

definition build_submission ::
    "(json \<Rightarrow> string) \<Rightarrow> (scorecard \<Rightarrow> string) \<Rightarrow> submission_request \<Rightarrow> scorecard \<Rightarrow> integrity
      \<Rightarrow> string option \<Rightarrow> string option \<Rightarrow> submission" where
  "build_submission H CH rq crd integ source prov =
    \<lparr>sub_id = submission_address H (sr_policy_ref rq) (sr_scenario_id rq) (CH crd) source,
     sub_scenario_id = sr_scenario_id rq, sub_policy_ref = sr_policy_ref rq, sub_method = sr_method rq,
     sub_author = sr_author rq, sub_scorecard_hash = CH crd, sub_runner = card_runner crd,
     sub_integrity = integ, sub_scores = map metric_score_of (card_metrics crd), sub_source = source,
     sub_provenance_hash = prov, sub_trace_hash = None\<rparr>"

section \<open>Ranking\<close>

record leaderboard_entry =
  le_rank :: nat
  le_submission_id :: string
  le_method :: "string option"
  le_author :: "string option"
  le_integrity :: integrity
  le_primary_metric :: string
  le_primary_value :: "real option"
  le_primary_unit :: string
  le_source :: "string option"
  le_provenance_hash :: "string option"

definition primary_score :: "string \<Rightarrow> submission \<Rightarrow> metric_score option" where
  "primary_score metric_name s = find (\<lambda>m. ms_metric m = metric_name) (sub_scores s)"

definition primary_value :: "string \<Rightarrow> submission \<Rightarrow> real option" where
  "primary_value metric_name s = Option.bind (primary_score metric_name s) ms_value"

definition board_rank_key :: "string \<Rightarrow> bool \<Rightarrow> submission \<Rightarrow> bool \<times> real \<times> string" where
  "board_rank_key metric_name higher s =
    (case primary_value metric_name s of
       None \<Rightarrow> (True, 0, sub_id s)
     | Some v \<Rightarrow> (False, if higher then - v else v, sub_id s))"

definition rank_entry :: "string \<Rightarrow> nat \<Rightarrow> submission \<Rightarrow> leaderboard_entry" where
  "rank_entry metric_name n s =
    \<lparr>le_rank = n, le_submission_id = sub_id s, le_method = sub_method s, le_author = sub_author s,
     le_integrity = sub_integrity s, le_primary_metric = metric_name,
     le_primary_value = primary_value metric_name s,
     le_primary_unit = (case primary_score metric_name s of None \<Rightarrow> [] | Some m \<Rightarrow> ms_unit m),
     le_source = sub_source s, le_provenance_hash = sub_provenance_hash s\<rparr>"

text \<open>\<open>None\<close> is the \<^verbatim>\<open>IndexError\<close> of a submission without scores.\<close>

definition rank :: "submission list \<Rightarrow> leaderboard_entry list option" where
  "rank ss =
    (case ss of
       [] \<Rightarrow> Some []
     | s # _ \<Rightarrow>
         (case sub_scores s of
            [] \<Rightarrow> None
          | p # _ \<Rightarrow>
              Some (map (\<lambda>(n, x). rank_entry (ms_metric p) n x)
                (zip [1..<Suc (length ss)]
                  (sort_key (board_rank_key (ms_metric p) (ms_direction p = ''higher_better'')) ss)))))"

section \<open>Provenance\<close>

record seed_record =
  sd_seed :: int
  sd_metrics :: "(string, real option) dict"

record provenance_bundle =
  pb_scenario_id :: string
  pb_scenario_spec_hash :: string
  pb_core_interface_version :: "(string, string) dict"
  pb_core_schema_digest :: string
  pb_content_hashes :: "(string, string) dict"
  pb_source :: string
  pb_source_digest :: "string option"
  pb_code_version :: string
  pb_environment_lockfile :: string
  pb_scorecard_hash :: string
  pb_seeds :: "int list"
  pb_per_seed :: "seed_record list"
  pb_environment :: json

definition values_by_seed :: "scorecard \<Rightarrow> (int, (string, real option) dict) dict" where
  "values_by_seed crd =
    fold (\<lambda>a. fold (\<lambda>(s, v) d. dict_set d s (dict_set (get_default d s []) (as_metric a) v))
        (zip (as_seeds a) (as_per_seed a))) (card_metrics crd) []"

text \<open>What the code reads of its installation.\<close>

record installation =
  in_schema_digest :: string
  in_code_version :: string
  in_lockfile_digest :: string
  in_environment :: json

text \<open>\<open>None\<close> is the validation error of an empty bundle.\<close>

definition build_provenance_bundle ::
    "(json \<Rightarrow> string) \<Rightarrow> (scorecard \<Rightarrow> string) \<Rightarrow> installation \<Rightarrow> scenario_spec \<Rightarrow> scorecard \<Rightarrow> string
      \<Rightarrow> string option \<Rightarrow> provenance_bundle option" where
  "build_provenance_bundle H CH inst spec crd source source_digest =
    (let by_seed = values_by_seed crd;
         seeds = sort (dict_keys by_seed)
     in if seeds = [] \<or> source = [] \<or> scenario_id spec = [] then None
        else Some
          \<lparr>pb_scenario_id = scenario_id spec, pb_scenario_spec_hash = spec_hash H spec,
           pb_core_interface_version = core_interface spec, pb_core_schema_digest = in_schema_digest inst,
           pb_content_hashes = fold (\<lambda>r d. dict_set d (ref_id r) (ref_hash r)) (content_refs spec) [],
           pb_source = source, pb_source_digest = source_digest, pb_code_version = in_code_version inst,
           pb_environment_lockfile = in_lockfile_digest inst, pb_scorecard_hash = CH crd,
           pb_seeds = seeds,
           pb_per_seed = map (\<lambda>s. \<lparr>sd_seed = s, sd_metrics = get_default by_seed s []\<rparr>) seeds,
           pb_environment = in_environment inst\<rparr>)"

text \<open>Two dictionaries, or their absence, compared as Python compares them.\<close>

definition same_values ::
    "(string, real option) dict option \<Rightarrow> (string, real option) dict option \<Rightarrow> bool" where
  "same_values a b =
    (case (a, b) of
       (None, None) \<Rightarrow> True
     | (Some d, Some e) \<Rightarrow> list_all (\<lambda>k. dict_get d k = dict_get e k) (dict_keys d @ dict_keys e)
     | _ \<Rightarrow> False)"

definition resample_from_bundle ::
    "'w scorer \<Rightarrow> provenance_bundle \<Rightarrow> scenario_spec \<Rightarrow> string \<Rightarrow> rat
      \<Rightarrow> ('w, scorer_error, integrity) st" where
  "resample_from_bundle scorer bundle spec policy_ref fraction =
    (let n = max 1 (nat \<lceil>fraction * of_nat (length (pb_seeds bundle))\<rceil>);
         sample = take n (sort (pb_seeds bundle));
         recorded = fold (\<lambda>r d. dict_set d (sd_seed r) (sd_metrics r)) (pb_per_seed bundle) []
     in sbind (scorer spec policy_ref sample) (\<lambda>crd.
          let resampled = values_by_seed crd
          in sret (if list_all (\<lambda>s. same_values (dict_get resampled s) (dict_get recorded s)) sample
                   then VERIFIED else FLAGGED)))"

section \<open>The sandboxed scorer and the workstation\<close>

definition reports :: "sandbox_outcome \<Rightarrow> metric list \<Rightarrow> (metric \<Rightarrow> real option) \<Rightarrow> bool" where
  "reports o' ms f =
    (outcome_scored o'
     \<and> list_all (\<lambda>m. dict_get (reported_values (the (out_result o'))) (m_name m) = Some (f m)) ms)"

text \<open>Every run of a seed answers a scored outcome with the values \<open>f\<close>, whatever the world.\<close>

definition honest :: "'w sandbox \<Rightarrow> string \<Rightarrow> string \<Rightarrow> metric list \<Rightarrow> (metric \<Rightarrow> int \<Rightarrow> real option) \<Rightarrow> int list \<Rightarrow> bool" where
  "honest run sid policy_ref ms f seeds =
    (\<forall>seed \<in> set seeds. \<forall>w. \<exists>o' w'. run sid policy_ref seed w = (Inr o', w') \<and> reports o' ms (\<lambda>m. f m seed))"

lemma append_reported_ok:
  "distinct (map m_name ms) \<Longrightarrow> list_all (\<lambda>m. dict_get rep (m_name m) = Some (f m)) ms \<Longrightarrow>
    \<exists>acc'. append_reported p s o' rep ms acc = Inr acc'
      \<and> (\<forall>m \<in> set ms. dict_get acc' (m_name m) = Some (get_default acc (m_name m) [] @ [f m]))
      \<and> (\<forall>n. n \<notin> m_name ` set ms \<longrightarrow> dict_get acc' n = dict_get acc n)"
proof (induction ms arbitrary: acc)
  case (Cons m ms)
  let ?acc = "dict_set acc (m_name m) (get_default acc (m_name m) [] @ [f m])"
  obtain acc' where acc': "append_reported p s o' rep ms ?acc = Inr acc'"
    and new: "\<forall>k \<in> set ms. dict_get acc' (m_name k) = Some (get_default ?acc (m_name k) [] @ [f k])"
    and old: "\<forall>n. n \<notin> m_name ` set ms \<longrightarrow> dict_get acc' n = dict_get ?acc n"
    using Cons.IH [of ?acc] Cons.prems by auto
  have other: "m_name k \<noteq> m_name m" if "k \<in> set ms" for k
    using Cons.prems(1) that by (force simp: image_iff)
  show ?case
    using Cons.prems acc' new old other by (intro exI [of _ acc']) auto
qed simp

lemma append_seed_ok:
  assumes "distinct (map m_name ms)" "reports o' ms f"
  shows "\<exists>acc'. append_seed p s ms o' acc = Inr acc'
    \<and> (\<forall>m \<in> set ms. dict_get acc' (m_name m) = Some (get_default acc (m_name m) [] @ [f m]))"
proof -
  obtain r where r: "out_result o' = Some r" and sc: "outcome_scored o'"
    and rep: "list_all (\<lambda>m. dict_get (reported_values r) (m_name m) = Some (f m)) ms"
    using assms(2) by (auto simp: reports_def outcome_scored_def split: option.splits)
  show ?thesis
    using append_reported_ok [OF assms(1) rep, of p s o' acc] by (auto simp: append_seed_def r sc)
qed

lemma roll_seeds_ok:
  assumes "distinct (map m_name ms)"
  shows "honest run sid p ms f seeds \<Longrightarrow>
    \<exists>acc' w'. roll_seeds run sid p ms seeds acc w = (Inr acc', w')
      \<and> (\<forall>m \<in> set ms. get_default acc' (m_name m) [] = get_default acc (m_name m) [] @ map (f m) seeds
          \<and> (dict_get acc (m_name m) \<noteq> None \<longrightarrow> dict_get acc' (m_name m) \<noteq> None))"
proof (induction seeds arbitrary: acc w)
  case (Cons seed seeds)
  obtain o' w1 where run: "run sid p seed w = (Inr o', w1)" and rep: "reports o' ms (\<lambda>m. f m seed)"
    using Cons.prems by (auto simp: honest_def) meson
  obtain acc1 where acc1: "append_seed p seed ms o' acc = Inr acc1"
    and l1: "\<forall>m \<in> set ms. dict_get acc1 (m_name m) = Some (get_default acc (m_name m) [] @ [f m seed])"
    using append_seed_ok [OF assms rep] by blast
  have "honest run sid p ms f seeds" using Cons.prems by (simp add: honest_def)
  from Cons.IH [OF this, of acc1 w1] obtain acc' w' where
    r: "roll_seeds run sid p ms seeds acc1 w1 = (Inr acc', w')"
    and l: "\<forall>m \<in> set ms. get_default acc' (m_name m) [] = get_default acc1 (m_name m) [] @ map (f m) seeds
          \<and> (dict_get acc1 (m_name m) \<noteq> None \<longrightarrow> dict_get acc' (m_name m) \<noteq> None)"
    by blast
  have d: "get_default acc1 (m_name m) [] = get_default acc (m_name m) [] @ [f m seed]" if "m \<in> set ms" for m
    using l1 that by (simp add: get_default_def)
  show ?case
    using run acc1 r l l1 d by (intro exI [of _ acc'] exI [of _ w']) (simp add: sbind_def slift_def)
qed (simp add: sret_def)

lemma init_dict:
  "dict_get (fold (\<lambda>m d. dict_set d (m_name m) []) ms d) n
    = (if n \<in> m_name ` set ms then Some [] else dict_get d n)"
  by (induction ms arbitrary: d) auto

lemma aggregate_all_values:
  "list_all (\<lambda>m. dict_get d (m_name m) = Some (vs m) \<and> length (vs m) = length seeds) ms \<Longrightarrow>
    aggregate_all ms d seeds = Inr (map (\<lambda>m. aggregate_one m seeds (vs m)) ms)"
  by (induction ms) auto

definition honest_card :: "string \<Rightarrow> metric list \<Rightarrow> (metric \<Rightarrow> int \<Rightarrow> real option) \<Rightarrow> int list \<Rightarrow> scorecard" where
  "honest_card sid ms f seeds =
    \<lparr>card_scenario_id = Some sid, card_runner = REFERENCE_EPISODE_RUNNER_ID,
     card_metrics = map (\<lambda>m. aggregate_one m (sort seeds) (map (f m) (sort seeds))) ms\<rparr>"

lemma sandbox_scorer_honest:
  assumes "resolve_metrics (sc_metrics spec) = Inr ms" "distinct (map m_name ms)" "seeds \<noteq> []"
    and "honest run (scenario_id spec) p ms f seeds"
  shows "\<exists>w'. sandbox_scorer run spec p seeds w = (Inr (honest_card (scenario_id spec) ms f seeds), w')"
proof -
  let ?init = "fold (\<lambda>m d. dict_set d (m_name m) []) ms ([] :: (string, real option list) dict)"
  have "honest run (scenario_id spec) p ms f (sort seeds)" using assms(4) by (simp add: honest_def)
  from roll_seeds_ok [OF assms(2) this, of ?init w] obtain acc w' where
    r: "roll_seeds run (scenario_id spec) p ms (sort seeds) ?init w = (Inr acc, w')"
    and l: "\<forall>m \<in> set ms. get_default acc (m_name m) [] = get_default ?init (m_name m) [] @ map (f m) (sort seeds)
          \<and> (dict_get ?init (m_name m) \<noteq> None \<longrightarrow> dict_get acc (m_name m) \<noteq> None)"
    by blast
  have "dict_get acc (m_name m) = Some (map (f m) (sort seeds))" if "m \<in> set ms" for m
  proof -
    have i: "dict_get ?init (m_name m) = Some []" using that by (simp add: init_dict)
    have "get_default acc (m_name m) [] = map (f m) (sort seeds)" "dict_get acc (m_name m) \<noteq> None"
      using l that i by (simp_all add: get_default_def)
    then show ?thesis by (auto simp: get_default_def)
  qed
  then have "aggregate_all ms acc (sort seeds)
      = Inr (map (\<lambda>m. aggregate_one m (sort seeds) (map (f m) (sort seeds))) ms)"
    by (intro aggregate_all_values) (simp add: list_all_iff)
  moreover have "sort seeds \<noteq> []" using assms(3) by (metis set_empty set_sort)
  ultimately show ?thesis
    using assms(1) r
    by (simp add: sandbox_scorer_def Let_def aggregate_scores_def honest_card_def sbind_def slift_def)
qed

lemma compute_seeds_ok:
  "list_all (\<lambda>t. m_compute m t = Inr (out t)) ts \<Longrightarrow> compute_seeds m ts = Inr (map (\<lambda>t. mv_value (out t)) ts)"
  by (induction ts) auto

lemma compute_metrics_ok:
  "distinct (map m_name ms) \<Longrightarrow> list_all (\<lambda>m. compute_seeds m ts = Inr (vs m)) ms \<Longrightarrow>
    \<exists>acc'. compute_metrics ms ts acc = Inr acc' \<and> (\<forall>m \<in> set ms. dict_get acc' (m_name m) = Some (vs m))
      \<and> (\<forall>n. n \<notin> m_name ` set ms \<longrightarrow> dict_get acc' n = dict_get acc n)"
proof (induction ms arbitrary: acc)
  case (Cons m ms)
  obtain acc' where acc': "compute_metrics ms ts (dict_set acc (m_name m) (vs m)) = Inr acc'"
    and new: "\<forall>k \<in> set ms. dict_get acc' (m_name k) = Some (vs k)"
    and old: "\<forall>n. n \<notin> m_name ` set ms \<longrightarrow> dict_get acc' n = dict_get (dict_set acc (m_name m) (vs m)) n"
    using Cons.IH [of "dict_set acc (m_name m) (vs m)"] Cons.prems by auto
  show ?case
    using Cons.prems acc' new old by (intro exI [of _ acc']) auto
qed simp

lemma score_workstation:
  assumes "distinct (map m_name ms)" "distinct seeds"
    and "\<And>m s. m \<in> set ms \<Longrightarrow> s \<in> set seeds \<Longrightarrow> m_compute m (trace s) = Inr (out m s)"
  shows "score (map (\<lambda>s. (s, trace s)) seeds) ms (Some sid) REFERENCE_EPISODE_RUNNER_ID
    = Inr (honest_card sid ms (\<lambda>m s. mv_value (out m s)) seeds)"
proof -
  let ?tr = "map (\<lambda>s. (s, trace s)) seeds"
  have keys: "dict_keys ?tr = seeds" by (simp add: comp_def)
  have lookup: "dict_get ?tr s = Some (trace s)" if "s \<in> set seeds" for s
    using that assms(2) by (simp add: map_of_eq_Some_iff comp_def)
  have ts: "map (\<lambda>s. the (dict_get ?tr s)) (sort seeds) = map trace (sort seeds)"
    by (simp add: lookup)
  have "compute_seeds m (map trace (sort seeds)) = Inr (map (\<lambda>s. mv_value (out m s)) (sort seeds))"
    if "m \<in> set ms" for m
  proof -
    have "compute_seeds m (map trace ss) = Inr (map (\<lambda>s. mv_value (out m s)) ss)" if "set ss \<subseteq> set seeds" for ss
      using that assms(3) [OF \<open>m \<in> set ms\<close>] by (induction ss) auto
    then show ?thesis by simp
  qed
  then obtain acc where acc: "compute_metrics ms (map trace (sort seeds)) [] = Inr acc"
    and l: "\<forall>m \<in> set ms. dict_get acc (m_name m) = Some (map (\<lambda>s. mv_value (out m s)) (sort seeds))"
    using compute_metrics_ok [OF assms(1), of "map trace (sort seeds)"
        "\<lambda>m. map (\<lambda>s. mv_value (out m s)) (sort seeds)" "[]"] by (auto simp: list_all_iff)
  have "aggregate_all ms acc (sort seeds)
      = Inr (map (\<lambda>m. aggregate_one m (sort seeds) (map (\<lambda>s. mv_value (out m s)) (sort seeds))) ms)"
    using l by (intro aggregate_all_values) (simp add: list_all_iff)
  then show ?thesis
    unfolding score_def keys Let_def ts by (simp add: acc aggregate_scores_def honest_card_def)
qed

section \<open>Integrity of an honest run\<close>

lemma fold_dict_set_zip:
  "dict_get (fold (\<lambda>(s, v) d. dict_set d s v) (zip ss (map g ss)) d) s
    = (if s \<in> set ss then Some (g s) else dict_get d s)"
  by (induction ss arbitrary: d) auto

lemma aggregate_one_sel [simp]:
  "as_metric (aggregate_one m ss vs) = m_name m" "as_seeds (aggregate_one m ss vs) = ss"
  "as_per_seed (aggregate_one m ss vs) = vs"
  by (simp_all add: aggregate_one_def Let_def)

lemma fold_dict_set_names:
  "distinct (map m_name ms) \<Longrightarrow> m \<in> set ms \<Longrightarrow>
    dict_get (fold (\<lambda>a d. dict_set d (as_metric a) (h a)) (map (\<lambda>m. aggregate_one m ss (g m)) ms) d) (m_name m)
      = Some (h (aggregate_one m ss (g m)))"
proof (induction ms arbitrary: d)
  case (Cons k ks)
  have keep: "dict_get (fold (\<lambda>a d. dict_set d (as_metric a) (h a)) (map (\<lambda>m. aggregate_one m ss (g m)) ks) d) n
      = dict_get d n" if "n \<notin> m_name ` set ks" for n d
    using that by (induction ks arbitrary: d) auto
  show ?case
  proof (cases "m \<in> set ks")
    case True
    then show ?thesis using Cons.IH Cons.prems(1) by simp
  next
    case False
    then have "m = k" using Cons.prems(2) by simp
    then show ?thesis using Cons.prems(1) by (simp add: keep)
  qed
qed simp

lemma zip_map_same: "(s, v) \<in> set (zip ss (map g ss)) \<Longrightarrow> s \<in> set ss \<and> v = g s"
  by (induction ss) auto

lemma sample_reproduces_honest:
  assumes "distinct (map m_name ms)" "set ss \<subseteq> set seeds"
  shows "sample_reproduces (honest_card sid ms f seeds) (honest_card sid ms f ss)"
  unfolding sample_reproduces_def Let_def list_all_iff
proof (intro ballI)
  fix a assume "a \<in> set (card_metrics (honest_card sid ms f ss))"
  then obtain m where m: "m \<in> set ms" and a: "a = aggregate_one m (sort ss) (map (f m) (sort ss))"
    by (auto simp: honest_card_def)
  show "case dict_get (fold (\<lambda>a d. dict_set d (as_metric a) (seed_values a))
        (card_metrics (honest_card sid ms f seeds)) []) (as_metric a) of
      None \<Rightarrow> False
    | Some original \<Rightarrow> \<forall>x \<in> set (zip (as_seeds a) (as_per_seed a)). case x of (s, v) \<Rightarrow> get_opt original s = v"
    using fold_dict_set_names [OF assms(1) m, of seed_values "sort seeds" "\<lambda>m. map (f m) (sort seeds)" "[]"] assms(2)
    by (auto simp: honest_card_def a seed_values_def get_opt_def fold_dict_set_zip dest!: zip_map_same)
qed

lemma seed_row_lookup:
  "dict_get (get_default (fold (\<lambda>(s, v) d. dict_set d s (dict_set (get_default d s []) n v)) (zip ss (map g ss)) D) s []) k
      = (if s \<in> set ss \<and> k = n then Some (g s) else dict_get (get_default D s []) k)"
  "(dict_get (fold (\<lambda>(s, v) d. dict_set d s (dict_set (get_default d s []) n v)) (zip ss (map g ss)) D) s \<noteq> None) = (s \<in> set ss \<or> dict_get D s \<noteq> None)"
  "dict_wf D \<Longrightarrow> dict_wf (fold (\<lambda>(s, v) d. dict_set d s (dict_set (get_default d s []) n v)) (zip ss (map g ss)) D)"
  by (induction ss arbitrary: D) auto

lemma values_by_seed_honest:
  assumes "distinct (map m_name ms)"
  shows "dict_get (get_default (values_by_seed (honest_card sid ms f seeds)) s []) k
      = (if s \<in> set seeds then map_of (map (\<lambda>m. (m_name m, f m s)) ms) k else None)"
    and "(dict_get (values_by_seed (honest_card sid ms f seeds)) s \<noteq> None) = (ms \<noteq> [] \<and> s \<in> set seeds)"
    and "dict_wf (values_by_seed (honest_card sid ms f seeds))"
proof -
  let ?step = "\<lambda>a :: aggregate_score. fold (\<lambda>(s, v) d. dict_set d s (dict_set (get_default d s []) (as_metric a) v))
        (zip (as_seeds a) (as_per_seed a))"
  let ?agg = "\<lambda>m. aggregate_one m (sort seeds) (map (f m) (sort seeds))"
  have ext: "(dict_get (get_default (fold ?step (map ?agg ks) D) s []) k
        = (if s \<in> set seeds \<and> k \<in> m_name ` set ks then map_of (map (\<lambda>m. (m_name m, f m s)) ks) k
           else dict_get (get_default D s []) k))
      \<and> ((dict_get (fold ?step (map ?agg ks) D) s \<noteq> None) = (ks \<noteq> [] \<and> s \<in> set seeds \<or> dict_get D s \<noteq> None))
      \<and> (dict_wf D \<longrightarrow> dict_wf (fold ?step (map ?agg ks) D))" if "distinct (map m_name ks)" for ks D
    using that
  proof (induction ks arbitrary: D)
    case (Cons m ks)
    note row = seed_row_lookup [where n = "m_name m" and ss = "sort seeds" and g = "f m" and D = D]
    have none: "m_name m \<notin> m_name ` set ks" using Cons.prems by simp
    show ?case
      using Cons.IH [of "?step (?agg m) D"] Cons.prems row none by auto
  qed simp
  have card: "values_by_seed (honest_card sid ms f seeds) = fold ?step (map ?agg ms) []"
    by (simp add: values_by_seed_def honest_card_def)
  show "(dict_get (values_by_seed (honest_card sid ms f seeds)) s \<noteq> None) = (ms \<noteq> [] \<and> s \<in> set seeds)"
    unfolding card ext [OF assms, of "[]", THEN conjunct2, THEN conjunct1] by simp
  show "dict_wf (values_by_seed (honest_card sid ms f seeds))"
    unfolding card using ext [OF assms, of "[]", THEN conjunct2, THEN conjunct2] by (simp only: list.map distinct.simps)
  have none: "map_of (map (\<lambda>m. (m_name m, f m s)) ms) k = None" if "k \<notin> m_name ` set ms"
    using that by (auto simp: map_of_eq_None_iff)
  have empty: "dict_get (get_default [] s []) k = (None :: real option option)"
    by (simp add: get_default_def)
  note e = ext [OF assms, of "[]", THEN conjunct1, unfolded empty]
  show "dict_get (get_default (values_by_seed (honest_card sid ms f seeds)) s []) k
      = (if s \<in> set seeds then map_of (map (\<lambda>m. (m_name m, f m s)) ms) k else None)"
    unfolding card e using none by (cases "s \<in> set seeds"; cases "k \<in> m_name ` set ms") simp_all
qed

lemma honest_row:
  assumes "distinct (map m_name ms)" "ms \<noteq> []" "s \<in> set seeds"
  obtains d where "dict_get (values_by_seed (honest_card sid ms f seeds)) s = Some d"
    and "dict_get d = map_of (map (\<lambda>m. (m_name m, f m s)) ms)"
proof -
  obtain d where d: "dict_get (values_by_seed (honest_card sid ms f seeds)) s = Some d"
    using values_by_seed_honest(2) [OF assms(1)] assms(2,3) by blast
  have "dict_get d k = map_of (map (\<lambda>m. (m_name m, f m s)) ms) k" for k
    using values_by_seed_honest(1) [OF assms(1), of sid f seeds s k] d assms(3) by (simp add: get_default_def)
  then have "dict_get d = map_of (map (\<lambda>m. (m_name m, f m s)) ms)" by (rule ext)
  with d that show ?thesis by blast
qed

lemma honest_keys:
  assumes "distinct (map m_name ms)" "ms \<noteq> []"
  shows "set (dict_keys (values_by_seed (honest_card sid ms f seeds))) = set seeds"
proof (rule set_eqI)
  fix s
  have "(s \<in> set (dict_keys d)) = (dict_get d s \<noteq> None)" for d :: "(int, (string, real option) dict) dict"
    by (simp add: map_of_eq_None_iff)
  then show "(s \<in> set (dict_keys (values_by_seed (honest_card sid ms f seeds)))) = (s \<in> set seeds)"
    using values_by_seed_honest(2) [OF assms(1), of sid f seeds s] assms(2) by simp
qed

lemma bundle_honest:
  assumes "distinct (map m_name ms)" "ms \<noteq> []"
    and "build_provenance_bundle H CH inst spec (honest_card sid ms f seeds) src sd = Some b"
  shows "set (pb_seeds b) = set seeds" "distinct (pb_seeds b)"
    and "s \<in> set seeds \<Longrightarrow> \<exists>d. dict_get (fold (\<lambda>r d. dict_set d (sd_seed r) (sd_metrics r)) (pb_per_seed b) []) s = Some d
      \<and> dict_get d = map_of (map (\<lambda>m. (m_name m, f m s)) ms)"
proof -
  let ?v = "values_by_seed (honest_card sid ms f seeds)"
  have b: "pb_seeds b = sort (dict_keys ?v)"
    "pb_per_seed b = map (\<lambda>s. \<lparr>sd_seed = s, sd_metrics = get_default ?v s []\<rparr>) (sort (dict_keys ?v))"
    using assms(3) by (auto simp: build_provenance_bundle_def Let_def split: if_splits)
  show "set (pb_seeds b) = set seeds" using honest_keys [OF assms(1,2)] b by simp
  show "distinct (pb_seeds b)" using values_by_seed_honest(3) [OF assms(1)] b by simp
  have fold: "dict_get (fold (\<lambda>r d. dict_set d (sd_seed r) (sd_metrics r))
      (map (\<lambda>s. \<lparr>sd_seed = s, sd_metrics = g s\<rparr>) ss) D) s
      = (if s \<in> set ss then Some (g s) else dict_get D s)" for ss g D
    by (induction ss arbitrary: D) auto
  show "\<exists>d. dict_get (fold (\<lambda>r d. dict_set d (sd_seed r) (sd_metrics r)) (pb_per_seed b) []) s = Some d
      \<and> dict_get d = map_of (map (\<lambda>m. (m_name m, f m s)) ms)" if s: "s \<in> set seeds"
  proof -
    obtain d where "dict_get ?v s = Some d" "dict_get d = map_of (map (\<lambda>m. (m_name m, f m s)) ms)"
      using honest_row [OF assms(1,2) s] by blast
    then show ?thesis
      using honest_keys [OF assms(1,2)] s by (simp add: b fold get_default_def)
  qed
qed

section \<open>Ranking\<close>

definition shares_primary :: "string \<Rightarrow> string \<Rightarrow> submission \<Rightarrow> bool" where
  "shares_primary mt dir s =
    (case sub_scores s of [] \<Rightarrow> False | p # _ \<Rightarrow> ms_metric p = mt \<and> ms_direction p = dir)"

lemma rank_shared:
  assumes "list_all (shares_primary mt dir) ss" "ss \<noteq> []"
  shows "rank ss = Some (map (\<lambda>(n, x). rank_entry mt n x)
    (zip [1..<Suc (length ss)] (sort_key (board_rank_key mt (dir = ''higher_better'')) ss)))"
  using assms by (cases ss) (auto simp: rank_def shares_primary_def split: list.splits)

text \<open>The order of the board: a missing value last, otherwise the better value first.\<close>

definition not_worse :: "string \<Rightarrow> real option \<Rightarrow> real option \<Rightarrow> bool" where
  "not_worse dir a b =
    (case b of
       None \<Rightarrow> True
     | Some y \<Rightarrow> (case a of None \<Rightarrow> False | Some x \<Rightarrow> if dir = ''higher_better'' then y \<le> x else x \<le> y))"

definition board_before :: "string \<Rightarrow> real option \<times> string \<Rightarrow> real option \<times> string \<Rightarrow> bool" where
  "board_before dir a b = (not_worse dir (fst a) (fst b) \<and> (fst a = fst b \<longrightarrow> snd a < snd b))"

lemma rank_key_before:
  "board_rank_key mt (dir = ''higher_better'') s < board_rank_key mt (dir = ''higher_better'') t
    \<Longrightarrow> board_before dir (primary_value mt s, sub_id s) (primary_value mt t, sub_id t)"
  by (auto simp: board_rank_key_def board_before_def not_worse_def less_prod_def split: option.splits)

lemma shared_primary_value: "shares_primary mt dir s \<Longrightarrow> primary_value mt s = ms_value (hd (sub_scores s))"
  by (auto simp: shares_primary_def primary_value_def primary_score_def split: list.splits)

lemma distinct_map_sort_key: "distinct (map k (sort_key k xs)) = distinct (map k xs)"
  by (simp only: distinct_map distinct_sort set_sort)

lemma rank_key_inj: "board_rank_key mt h s = board_rank_key mt h t \<Longrightarrow> sub_id s = sub_id t"
  by (auto simp: board_rank_key_def split: option.splits)

lemma map_zip_fst: "length ns = length xs \<Longrightarrow> map (\<lambda>p. fst p) (zip ns xs) = ns"
  by (induction ns xs rule: list_induct2) auto

lemma rank_rows:
  assumes "\<And>n x. f (rank_entry mt n x) = g x" "length ns = length xs"
  shows "map f (map (\<lambda>(n, x). rank_entry mt n x) (zip ns xs)) = map g xs"
  using assms(2) by (induction ns xs rule: list_induct2) (simp_all add: assms(1))

section \<open>Properties\<close>

text \<open>
  C24: Running a submission in the sandbox gives the scorecard of the workstation. Of the task: its
  metrics resolve, there is at least one, and no two have the same name (a task that repeats a metric
  is never scored, \<open>repeated_metric_never_scored\<close>); of the seeds: there is at least one and none is
  repeated; of the metrics: each computes a value, which may be the missing one, on the trace of
  every seed. When every sandboxed run answers these values, the sandboxed scorer returns exactly the scorecard that scoring the traces in process returns, whatever order the seeds
  come in, and both integrity checks of the leaderboard (the re-executed sample and the
  re-execution from the provenance bundle) answer verified.
\<close>

theorem sandboxed_score_is_workstation_score:
  assumes "resolve_metrics (sc_metrics spec) = Inr ms" and "distinct (map m_name ms)" and "ms \<noteq> []"
    and "distinct seeds" and "seeds \<noteq> []"
    and "\<And>m s. m \<in> set ms \<Longrightarrow> s \<in> set seeds \<Longrightarrow> m_compute m (trace s) = Inr (out m s)"
    and "honest run (scenario_id spec) policy_ref ms (\<lambda>m s. mv_value (out m s)) seeds"
  shows "\<exists>crd. score (map (\<lambda>s. (s, trace s)) seeds) ms (Some (scenario_id spec)) REFERENCE_EPISODE_RUNNER_ID
        = Inr crd
      \<and> (\<exists>w'. sandbox_scorer run spec policy_ref seeds w = (Inr crd, w'))
      \<and> (\<exists>w'. evaluate (sandbox_scorer run) spec policy_ref seeds n w = (Inr (crd, VERIFIED), w'))
      \<and> (\<forall>b. build_provenance_bundle H CH inst spec crd src sd = Some b \<longrightarrow>
           (\<exists>w'. resample_from_bundle (sandbox_scorer run) b spec policy_ref fraction w = (Inr VERIFIED, w')))"
proof (intro exI [of _ "honest_card (scenario_id spec) ms (\<lambda>m s. mv_value (out m s)) seeds"] conjI allI impI)
  let ?f = "\<lambda>m s. mv_value (out m s)"
  let ?card = "honest_card (scenario_id spec) ms ?f"
  have run: "\<exists>w'. sandbox_scorer run spec policy_ref ss u = (Inr (?card ss), w')"
    if "ss \<noteq> []" "set ss \<subseteq> set seeds" for ss u
    by (rule sandbox_scorer_honest) (use assms that in \<open>auto simp: honest_def\<close>)
  show "score (map (\<lambda>s. (s, trace s)) seeds) ms (Some (scenario_id spec)) REFERENCE_EPISODE_RUNNER_ID
      = Inr (?card seeds)"
    by (rule score_workstation) (use assms in auto)
  show "\<exists>w'. sandbox_scorer run spec policy_ref seeds w = (Inr (?card seeds), w')"
    by (rule run) (use assms(5) in auto)
  then obtain w1 where w1: "sandbox_scorer run spec policy_ref seeds w = (Inr (?card seeds), w1)" by blast
  let ?sample = "take (max 1 n) (sort seeds)"
  have sample: "?sample \<noteq> []" "set ?sample \<subseteq> set seeds"
  proof -
    have "sort seeds \<noteq> []" using assms(5) by (metis set_empty set_sort)
    then show "?sample \<noteq> []" by simp
    show "set ?sample \<subseteq> set seeds"
      using set_take_subset [of "max 1 n" "sort seeds"] by simp
  qed
  then obtain w2 where "sandbox_scorer run spec policy_ref ?sample w1 = (Inr (?card ?sample), w2)"
    using run by blast
  then show "\<exists>w'. evaluate (sandbox_scorer run) spec policy_ref seeds n w = (Inr (?card seeds, VERIFIED), w')"
    using w1 sample_reproduces_honest [OF assms(2) sample(2)] by (simp add: evaluate_def sbind_def sret_def)
  fix b assume b: "build_provenance_bundle H CH inst spec (?card seeds) src sd = Some b"
  let ?n = "max 1 (nat \<lceil>fraction * of_nat (length (pb_seeds b))\<rceil>)"
  let ?s = "take ?n (sort (pb_seeds b))"
  have seeds: "set (pb_seeds b) = set seeds" by (rule bundle_honest(1) [OF assms(2,3) b])
  have s: "?s \<noteq> []" "set ?s \<subseteq> set seeds"
  proof -
    have "pb_seeds b \<noteq> []" using assms(5) seeds by auto
    then have "sort (pb_seeds b) \<noteq> []" by (metis set_empty set_sort)
    then show "?s \<noteq> []" by simp
    show "set ?s \<subseteq> set seeds"
      using set_take_subset [of ?n "sort (pb_seeds b)"] seeds by simp
  qed
  then obtain w3 where w3: "sandbox_scorer run spec policy_ref ?s w = (Inr (?card ?s), w3)"
    using run by blast
  have same: "same_values (dict_get (values_by_seed (?card ?s)) x)
      (dict_get (fold (\<lambda>r d. dict_set d (sd_seed r) (sd_metrics r)) (pb_per_seed b) []) x)" if x: "x \<in> set ?s" for x
  proof -
    obtain d where "dict_get (values_by_seed (?card ?s)) x = Some d"
      "dict_get d = map_of (map (\<lambda>m. (m_name m, ?f m x)) ms)"
      using honest_row [OF assms(2,3) x] by blast
    moreover obtain e where "dict_get (fold (\<lambda>r d. dict_set d (sd_seed r) (sd_metrics r)) (pb_per_seed b) []) x = Some e"
      "dict_get e = map_of (map (\<lambda>m. (m_name m, ?f m x)) ms)"
      using bundle_honest(3) [OF assms(2,3) b] s(2) x by blast
    ultimately show ?thesis by (simp add: same_values_def list_all_iff)
  qed
  show "\<exists>w'. resample_from_bundle (sandbox_scorer run) b spec policy_ref fraction w = (Inr VERIFIED, w')"
    using w3 same by (simp add: resample_from_bundle_def sbind_def sret_def Let_def list_all_iff)
qed

text \<open>
  C38: The board lists each submission once, numbered from one, under its own identifier, integrity and
  the value of its own first score; the better value comes first, missing values last, and equal
  values stand in the order of the submission identifiers; and the board does not depend on the
  order in which the submissions are given. All submissions are taken to have been scored with the
  same primary metric and direction, and to have distinct identifiers.
\<close>

theorem rank_orders_board:
  assumes "list_all (shares_primary mt dir) ss" and "distinct (map sub_id ss)" and "mset ss = mset ts"
  shows "\<exists>es. rank ss = Some es \<and> rank ts = Some es
    \<and> map le_rank es = [1..<Suc (length ss)]
    \<and> mset (map (\<lambda>e. (le_submission_id e, le_primary_value e, le_integrity e, le_primary_metric e)) es)
        = mset (map (\<lambda>s. (sub_id s, ms_value (hd (sub_scores s)), sub_integrity s, mt)) ss)
    \<and> sorted_wrt (\<lambda>a b. not_worse dir (le_primary_value a) (le_primary_value b)
        \<and> (le_primary_value a = le_primary_value b \<longrightarrow> le_submission_id a < le_submission_id b)) es"
proof (cases "ss = []")
  case True
  then have "ts = []" using assms(3) by simp
  with True show ?thesis by (simp add: rank_def)
next
  case False
  let ?key = "board_rank_key mt (dir = ''higher_better'')"
  let ?sorted = "sort_key ?key ss"
  let ?es = "map (\<lambda>(n, x). rank_entry mt n x) (zip [1..<Suc (length ss)] ?sorted)"
  have ts: "ts \<noteq> []" "list_all (shares_primary mt dir) ts" "length ts = length ss"
    using False assms(1,3) mset_eq_setD [OF assms(3)] mset_eq_length [OF assms(3)]
    by (auto simp: list_all_iff)
  have "distinct (map ?key ss)"
  proof -
    have "inj_on ?key (set ss)"
    proof (rule inj_onI)
      fix x y assume "x \<in> set ss" "y \<in> set ss" "?key x = ?key y"
      then show "x = y"
        using assms(2) rank_key_inj by (metis distinct_map inj_onD)
    qed
    then show ?thesis using assms(2) by (simp add: distinct_map)
  qed
  then have perm: "sort_key ?key ts = ?sorted"
    by (rule sort_key_perm_unique [OF _ assms(3), symmetric])
  have r: "rank ss = Some ?es" "rank ts = Some ?es"
    using rank_shared [OF assms(1) False] rank_shared [OF ts(2,1)] by (simp_all add: perm ts(3))
  have ranks: "map le_rank ?es = [1..<Suc (length ss)]"
    by (simp add: rank_entry_def case_prod_unfold comp_def map_zip_fst del: upt_Suc)
  have rows: "map (\<lambda>e. (le_submission_id e, le_primary_value e, le_integrity e, le_primary_metric e)) ?es
      = map (\<lambda>s. (sub_id s, primary_value mt s, sub_integrity s, mt)) ?sorted"
    by (rule rank_rows) (simp_all add: rank_entry_def del: upt_Suc)
  have "mset (map (\<lambda>e. (le_submission_id e, le_primary_value e, le_integrity e, le_primary_metric e)) ?es)
      = mset (map (\<lambda>s. (sub_id s, primary_value mt s, sub_integrity s, mt)) ss)"
    unfolding rows by (simp only: mset_map mset_sort)
  also have "map (\<lambda>s. (sub_id s, primary_value mt s, sub_integrity s, mt)) ss
      = map (\<lambda>s. (sub_id s, ms_value (hd (sub_scores s)), sub_integrity s, mt)) ss"
    using assms(1) by (auto simp: list_all_iff shared_primary_value)
  finally have own: "mset (map (\<lambda>e. (le_submission_id e, le_primary_value e, le_integrity e, le_primary_metric e)) ?es)
      = mset (map (\<lambda>s. (sub_id s, ms_value (hd (sub_scores s)), sub_integrity s, mt)) ss)" .
  have "sorted_wrt (\<lambda>x y. ?key x < ?key y) ?sorted"
    using sorted_sort_key [of ?key ss] \<open>distinct (map ?key ss)\<close>
    by (simp only: sorted_wrt_map [symmetric] strict_sorted_iff distinct_map_sort_key)
  then have "sorted_wrt (\<lambda>x y. board_before dir (primary_value mt x, sub_id x) (primary_value mt y, sub_id y)) ?sorted"
    by (rule sorted_wrt_mono_rel [rotated]) (rule rank_key_before)
  then have "sorted_wrt (board_before dir) (map (\<lambda>x. (primary_value mt x, sub_id x)) ?sorted)"
    by (simp only: sorted_wrt_map)
  moreover have "map (\<lambda>x. (primary_value mt x, sub_id x)) ?sorted
      = map (\<lambda>e. (le_primary_value e, le_submission_id e)) ?es"
    by (rule rank_rows [symmetric]) (simp_all add: rank_entry_def del: upt_Suc)
  ultimately have "sorted_wrt (\<lambda>a b. not_worse dir (le_primary_value a) (le_primary_value b)
      \<and> (le_primary_value a = le_primary_value b \<longrightarrow> le_submission_id a < le_submission_id b)) ?es"
    by (simp only: sorted_wrt_map board_before_def fst_conv snd_conv)
  then show ?thesis using r ranks own by (intro exI [of _ ?es] conjI)
qed

text \<open>A task with one metric, whose robots keep contact, and a sandbox that says so.\<close>

definition demo_score_spec :: scenario_spec where
  "demo_score_spec = demo_scenario\<lparr>sc_metrics := [\<lparr>mr_name = ''comms_robustness'', mr_version = ''0.1.0''\<rparr>]\<rparr>"

definition demo_comms :: metric where
  "demo_comms = \<lparr>m_name = ''comms_robustness'', m_version = ''0.1.0'', m_unit = ''dimensionless'',
     m_direction = HIGHER_BETTER, m_aggregation = AGG_MEAN, m_compute = comms_robustness\<rparr>"

definition demo_contact :: "int \<Rightarrow> episode_trace" where
  "demo_contact s = demo_trace\<lparr>et_observations := [demo_obs 0 5 True]\<rparr>"

definition demo_sandbox :: "nat sandbox" where
  "demo_sandbox sid p s w =
    (Inr \<lparr>out_status = OK, out_result = Some \<lparr>wr_ok = True, wr_metrics = [(''comms_robustness'', Some 1)],
       wr_error = None\<rparr>, out_signal = None, out_detail = None\<rparr>, Suc w)"

lemma demo_resolve_metrics: "resolve_metrics (sc_metrics demo_score_spec) = Inr [demo_comms]"
proof -
  have v: "check_compatible ''0.1.0'' ''0.1.0'' = Inr True" by code_simp
  show ?thesis
    by (simp add: resolve_metrics_def demo_score_spec_def metric_resolve_def metric_registry_init_def
        REFERENCE_METRICS_def negotiate_metric_def v demo_comms_def)
qed

lemma demo_honest: "honest demo_sandbox sid p [demo_comms] (\<lambda>m s. Some 1) seeds"
  by (simp add: honest_def demo_sandbox_def reports_def outcome_scored_def reported_values_def demo_comms_def)

theorem sandboxed_score_is_workstation_score_witness:
  "\<exists>crd. score [(2, demo_contact 2), (1, demo_contact 1)] [demo_comms] (Some ''polar-ice'') REFERENCE_EPISODE_RUNNER_ID
      = Inr crd
    \<and> (\<exists>w'. evaluate (sandbox_scorer demo_sandbox) demo_score_spec ''pkg:policy'' [2, 1] 1 0 = (Inr (crd, VERIFIED), w'))"
proof -
  have out: "m_compute m (demo_contact s) = Inr (scalar (Some 1) ''dimensionless'')" if "m \<in> set [demo_comms]" for m s
    using that by (simp add: demo_comms_def comms_robustness_def demo_contact_def demo_obs_def List.map_filter_simps)
  have hon: "honest demo_sandbox (scenario_id demo_score_spec) ''pkg:policy'' [demo_comms]
      (\<lambda>m s. mv_value (scalar (Some 1) ''dimensionless'')) [2, 1]"
    by (simp add: scalar_def demo_honest)
  have sid: "scenario_id demo_score_spec = ''polar-ice''"
    by (simp add: demo_score_spec_def demo_scenario_def)
  show ?thesis
    using sandboxed_score_is_workstation_score [where seeds = "[2, 1]" and trace = demo_contact
        and out = "\<lambda>m s. scalar (Some 1) ''dimensionless''" and n = 1 and w = 0
        and H = demo_digest and CH = "\<lambda>_. []" and inst = undefined and src = "[]" and sd = None and fraction = 1,
        OF demo_resolve_metrics _ _ _ _ out hon] sid
    by auto
qed

definition demo_scored :: "string \<Rightarrow> real option \<Rightarrow> submission" where
  "demo_scored i v = \<lparr>sub_id = i, sub_scenario_id = ''polar-ice'', sub_policy_ref = ''pkg:policy'', sub_method = None,
     sub_author = None, sub_scorecard_hash = i, sub_runner = ''fixture/0.1.0'', sub_integrity = VERIFIED,
     sub_scores = [\<lparr>ms_metric = ''water_mass'', ms_unit = ''kg'', ms_direction = ''higher_better'',
       ms_aggregation = ''mean'', ms_value = v, ms_dispersion = None, ms_n = 1\<rparr>],
     sub_source = None, sub_provenance_hash = None, sub_trace_hash = None\<rparr>"

theorem rank_orders_board_witness:
  "\<exists>es. rank [demo_scored ''a'' (Some 1), demo_scored ''b'' None, demo_scored ''c'' (Some 2)] = Some es
     \<and> rank [demo_scored ''c'' (Some 2), demo_scored ''b'' None, demo_scored ''a'' (Some 1)] = Some es
     \<and> map le_rank es = [1, 2, 3]"
proof -
  have "list_all (shares_primary ''water_mass'' ''higher_better'')
      [demo_scored ''a'' (Some 1), demo_scored ''b'' None, demo_scored ''c'' (Some 2)]"
    "distinct (map sub_id [demo_scored ''a'' (Some 1), demo_scored ''b'' None, demo_scored ''c'' (Some 2)])"
    "mset [demo_scored ''a'' (Some 1), demo_scored ''b'' None, demo_scored ''c'' (Some 2)]
      = mset [demo_scored ''c'' (Some 2), demo_scored ''b'' None, demo_scored ''a'' (Some 1)]"
    by (simp_all add: shares_primary_def demo_scored_def)
  from rank_orders_board [OF this] show ?thesis
    by (auto simp: upt_rec)
qed

section \<open>A repeated metric\<close>

lemma append_reported_count:
  "append_reported p s o' rep ms acc = Inr acc' \<Longrightarrow>
    length (get_default acc' n []) = length (get_default acc n []) + count_list (map m_name ms) n"
  by (induction ms arbitrary: acc) (auto split: option.splits)

lemma roll_seeds_count:
  "roll_seeds run sid p ms seeds acc w = (Inr acc', w') \<Longrightarrow>
    length (get_default acc' n []) = length (get_default acc n []) + count_list (map m_name ms) n * length seeds"
proof (induction seeds arbitrary: acc w)
  case (Cons s seeds)
  then obtain o' w1 acc1 where a: "append_seed p s ms o' acc = Inr acc1"
    and rest: "roll_seeds run sid p ms seeds acc1 w1 = (Inr acc', w')"
    by (auto simp: sbind_Inr slift_def)
  have "length (get_default acc1 n []) = length (get_default acc n []) + count_list (map m_name ms) n"
    using a by (auto simp: append_seed_def split: bool.splits option.splits dest: append_reported_count)
  with Cons.IH [OF rest] show ?case by simp
qed (simp add: sret_def)

text \<open>
  A task that lists a metric twice can never be scored by the sandboxed scorer, whatever the
  sandbox answers: every value of the repeated metric is recorded twice, so the aggregation
  refuses it. Nothing validates the metric list against repetition, and scoring in process
  aggregates such a task without complaint.
\<close>

theorem repeated_metric_never_scored:
  assumes "resolve_metrics (sc_metrics spec) = Inr ms" and "\<not> distinct (map m_name ms)"
  shows "\<not> is_ok (fst (sandbox_scorer run spec policy_ref seeds w))"
proof
  assume "is_ok (fst (sandbox_scorer run spec policy_ref seeds w))"
  then obtain crd w' where ok: "sandbox_scorer run spec policy_ref seeds w = (Inr crd, w')"
    by (cases "sandbox_scorer run spec policy_ref seeds w") (auto simp: is_ok_iff)
  let ?init = "fold (\<lambda>m d. dict_set d (m_name m) []) ms ([] :: (string, real option list) dict)"
  from ok assms(1) obtain acc w1 where ne: "sort seeds \<noteq> []"
    and r: "roll_seeds run (scenario_id spec) policy_ref ms (sort seeds) ?init w = (Inr acc, w1)"
    and agg: "is_ok (aggregate_all ms acc (sort seeds))"
    by (auto simp: sandbox_scorer_def Let_def sbind_Inr slift_def sraise_def aggregate_scores_def rbind_Inr
        split: if_splits)
  obtain n where n: "2 \<le> count_list (map m_name ms) n"
  proof -
    obtain us vs ws y where "map m_name ms = us @ [y] @ vs @ [y] @ ws"
      using not_distinct_decomp [OF assms(2)] by blast
    then have "2 \<le> count_list (map m_name ms) y" by simp
    then show thesis by (rule that)
  qed
  then obtain m where m: "m \<in> set ms" "m_name m = n"
    by (metis count_list_0_iff in_set_conv_nth image_iff list.set_map not_numeral_le_zero)
  have "dict_get ?init n = Some []"
    unfolding init_dict using m by auto
  then have "length (get_default ?init n []) = 0"
    by (simp add: get_default_def)
  then have len: "length (get_default acc n []) = count_list (map m_name ms) n * length (sort seeds)"
    using roll_seeds_count [OF r, of n] by simp
  have "dict_get acc (m_name k) \<noteq> None \<and> length (get_default acc (m_name k) []) = length (sort seeds)"
    if "is_ok (aggregate_all ks acc (sort seeds))" "k \<in> set ks" for k ks
    using that
    by (induction ks) (auto simp: is_ok_iff get_default_def rbind_Inr split: option.splits if_splits)
  from this [OF agg m(1)] m(2) len have "count_list (map m_name ms) n * length (sort seeds) = length (sort seeds)"
    by simp
  then show False using n ne by simp
qed

theorem repeated_metric_never_scored_witness:
  "\<not> is_ok (fst (sandbox_scorer demo_sandbox
      (demo_score_spec\<lparr>sc_metrics := sc_metrics demo_score_spec @ sc_metrics demo_score_spec\<rparr>) ''pkg:policy'' [1] 0))
   \<and> is_ok (score [(1, demo_contact 1)] [demo_comms, demo_comms] None REFERENCE_EPISODE_RUNNER_ID)"
proof
  have v: "check_compatible ''0.1.0'' ''0.1.0'' = Inr True" by code_simp
  have "resolve_metrics (sc_metrics (demo_score_spec\<lparr>sc_metrics := sc_metrics demo_score_spec @ sc_metrics demo_score_spec\<rparr>))
      = Inr [demo_comms, demo_comms]"
    by (simp add: resolve_metrics_def demo_score_spec_def metric_resolve_def metric_registry_init_def
        REFERENCE_METRICS_def negotiate_metric_def v demo_comms_def)
  from repeated_metric_never_scored [OF this]
  show "\<not> is_ok (fst (sandbox_scorer demo_sandbox
      (demo_score_spec\<lparr>sc_metrics := sc_metrics demo_score_spec @ sc_metrics demo_score_spec\<rparr>) ''pkg:policy'' [1] 0))"
    by simp
  show "is_ok (score [(1, demo_contact 1)] [demo_comms, demo_comms] None REFERENCE_EPISODE_RUNNER_ID)"
    by (simp add: score_def demo_comms_def comms_robustness_def demo_contact_def demo_obs_def
        List.map_filter_simps aggregate_scores_def scalar_def Let_def)
qed

end
