(* ===== verification/Bench_Service.thy ===== *)
theory Bench_Service
  imports Bench_Eval Hub_Supply
begin

text \<open>
  The hosted leaderboard (\<^verbatim>\<open>bench/leaderboard/_service.py\<close>) over its default backends, with the
  Hub intake (\<^verbatim>\<open>_hub.py\<close>) and the supply-chain gate (\<^verbatim>\<open>_supply_chain.py\<close>): the pipeline of a
  submission from the bearer token to the board. It composes the stores of \<open>Bench_Stores\<close>, the
  decisions of \<open>Bench_Access\<close>, the scoring of \<open>Bench_Eval\<close> and, through the registry, the layout of
  \<open>Hub_Store\<close> and the verification of \<open>Seal_Verify\<close>. Spans, counters and message texts are left
  out: a refusal is a constructor, and its text is a parameter.
\<close>

section \<open>Hub intake\<close>

datatype hub_cause =
    CannotResolve hub_error
  | IntegrityFailed hub_error
  | InvalidManifest
  | NoEntrypoint

record resolved_submission =
  rv_reference :: string
  rv_manifest_digest :: string
  rv_manifest :: plugin_manifest
  rv_layer_digests :: "string list"

text \<open>
  \<^verbatim>\<open>load_plugin_manifest\<close> on stored bytes: \<open>parse\<close> is the parser with pydantic's projection, \<open>schema\<close>
  the JSON schema, the semantic checks are those of the plugin registry.
\<close>

definition load_plugin_manifest ::
    "('b \<Rightarrow> plugin_manifest option) \<Rightarrow> (plugin_manifest \<Rightarrow> bool) \<Rightarrow> 'b \<Rightarrow> unit registry_error + plugin_manifest" where
  "load_plugin_manifest parse schema raw =
    (case parse raw of
       None \<Rightarrow> Inl SchemaInvalid
     | Some m \<Rightarrow> rbind (validate_manifest schema m) (\<lambda>_. Inr m))"

definition resolve_submission ::
    "'b codec \<Rightarrow> ('b \<Rightarrow> plugin_manifest option) \<Rightarrow> (plugin_manifest \<Rightarrow> bool) \<Rightarrow> 'b layout \<Rightarrow> string
      \<Rightarrow> hub_cause + resolved_submission" where
  "resolve_submission cd parse schema lay reference =
    rbind (rerr CannotResolve (hub_resolve cd lay reference)) (\<lambda>d.
    rbind (rerr IntegrityFailed (verify cd lay (digest d))) (\<lambda>_.
    rbind (rerr IntegrityFailed (read_manifest cd lay (digest d))) (\<lambda>image.
    rbind (rerr (\<lambda>_. InvalidManifest) (read_config cd lay (digest d))) (\<lambda>raw.
    rbind (rerr (\<lambda>_. InvalidManifest) (load_plugin_manifest parse schema raw)) (\<lambda>m.
      Inr \<lparr>rv_reference = reference, rv_manifest_digest = digest d, rv_manifest = m,
           rv_layer_digests = map digest (im_layers image)\<rparr>)))))"

datatype interface_cause = NotAPolicy PluginKind | InterfaceUnsatisfied string

text \<open>The first interface that the manifest does not satisfy; a malformed version raises.\<close>

fun unsatisfied_interface :: "(string, string) dict \<Rightarrow> (string, string) dict \<Rightarrow> compat_error + string option" where
  "unsatisfied_interface provided [] = Inr None"
| "unsatisfied_interface provided ((name, required) # rest) =
    (case dict_get provided name of
       None \<Rightarrow> Inr (Some name)
     | Some p \<Rightarrow>
         rbind (check_compatible required p) (\<lambda>ok.
           if ok then unsatisfied_interface provided rest else Inr (Some name)))"

definition validate_submission_manifest ::
    "resolved_submission \<Rightarrow> scenario_spec \<Rightarrow> compat_error + interface_cause option" where
  "validate_submission_manifest rv spec =
    (if pm_kind (rv_manifest rv) \<noteq> POLICY then Inr (Some (NotAPolicy (pm_kind (rv_manifest rv))))
     else rbind (unsatisfied_interface (pm_core_interfaces (rv_manifest rv)) (core_interface spec))
       (\<lambda>bad. Inr (map_option InterfaceUnsatisfied bad)))"

definition submission_policy_ref :: "resolved_submission \<Rightarrow> hub_cause + string" where
  "submission_policy_ref rv =
    (case dict_get (pm_attributes (rv_manifest rv)) ''entrypoint'' of
       Some (JStr s) \<Rightarrow> if s = [] then Inl NoEntrypoint else Inr s
     | _ \<Rightarrow> Inl NoEntrypoint)"

section \<open>The supply-chain gate\<close>

definition REQUIRED_EVIDENCE :: "string list" where
  "REQUIRED_EVIDENCE = [''signature'', ''slsa'', ''sbom'']"

record attestation_policy =
  att_required :: "string list"
  att_trusted :: "string option"

text \<open>\<open>None\<close> is the refusal of an empty evidence set.\<close>

definition attestation_policy :: "string list \<Rightarrow> string option \<Rightarrow> attestation_policy option" where
  "attestation_policy required trusted =
    (if required = [] then None else Some \<lparr>att_required = required, att_trusted = trusted\<rparr>)"

record attestation_verdict =
  atv_subject :: string
  atv_required :: "string list"
  atv_verified :: bool
  atv_signer_pinned :: bool
  atv_detail :: "string option"

definition verify_submission_attestations ::
    "('k, 'p) crypto \<Rightarrow> 'b documents \<Rightarrow> 'b codec \<Rightarrow> moment \<Rightarrow> 'b layout \<Rightarrow> string \<Rightarrow> attestation_policy
      \<Rightarrow> hub_error supply_error + attestation_verdict" where
  "verify_submission_attestations cr dc cd now lay subject pol =
    rbind (hub_verify cr dc cd lay subject (att_trusted pol) now (att_required pol)) (\<lambda>_.
      Inr \<lparr>atv_subject = subject, atv_required = att_required pol, atv_verified = True,
           atv_signer_pinned = (att_trusted pol \<noteq> None), atv_detail = None\<rparr>)"

text \<open>\<open>files\<close> reads a key file; \<open>Inl\<close> names a path that is not a file.\<close>

definition attestation_policy_from_env ::
    "(string, string) dict \<Rightarrow> (string \<Rightarrow> string option) \<Rightarrow> string list \<Rightarrow> string + attestation_policy option" where
  "attestation_policy_from_env e files required =
    (case env_set e ''ASTRO_MINE_BENCH_TRUSTED_KEY'' of
       None \<Rightarrow> Inr (attestation_policy required None)
     | Some path \<Rightarrow>
         (case files path of
            None \<Rightarrow> Inl path
          | Some pem \<Rightarrow> Inr (attestation_policy required (Some pem))))"

section \<open>Refusals\<close>

datatype heldout_error = HeldoutMissing | HeldoutMalformed

datatype refusal =
    NotConfigured
  | BadToken auth_error
  | Denied string
  | RateLimited rate_error
  | BadPolicyRef string
  | NoHeldout string
  | Unresolved hub_cause
  | Unattested "hub_error supply_error"
  | WrongInterface interface_cause
  | NotMaterializable hub_cause
  | ExecutionFailed scorer_error

primrec refusal_status :: "refusal \<Rightarrow> nat" where
  "refusal_status NotConfigured = 503"
| "refusal_status (BadToken e) = 401"
| "refusal_status (Denied r) = 403"
| "refusal_status (RateLimited e) = 429"
| "refusal_status (BadPolicyRef p) = 400"
| "refusal_status (NoHeldout s) = 404"
| "refusal_status (Unresolved c) = 404"
| "refusal_status (Unattested e) = 422"
| "refusal_status (WrongInterface c) = 422"
| "refusal_status (NotMaterializable c) = 422"
| "refusal_status (ExecutionFailed e) = 422"

text \<open>
  What a call raises: \<^verbatim>\<open>SubmissionRejected\<close>, the \<^verbatim>\<open>KeyError\<close> and the \<^verbatim>\<open>RuntimeError\<close>s of the module,
  or an exception of a component that the service does not catch.
\<close>

datatype service_error =
    Rejected refusal
  | NoSuchSubmission string
  | NoRegistry
  | QueueLost
  | AuthEscaped auth_error
  | CompatEscaped compat_error
  | ScorerEscaped scorer_error
  | ObjectEscaped object_error
  | HeldoutUnreadable
  | BundleInvalid
  | BundleUnreadable

section \<open>The service\<close>

text \<open>
  What a deployment injects. \<open>bs_say\<close> is the text of a refusal, \<open>bs_clock\<close> and \<open>bs_trace\<close> the
  stamps of an audit event, \<open>bs_sealed\<close> the sealed seed file of a scenario (absent, or its seeds if it
  parses), \<open>bs_dump\<close> and \<open>bs_load\<close> the JSON form of a provenance bundle.
\<close>

record ('b, 'k, 'p, 'o, 'w) bench_setup =
  bs_registry :: "'b layout option"
  bs_codec :: "'b codec"
  bs_parse :: "'b \<Rightarrow> plugin_manifest option"
  bs_schema :: "plugin_manifest \<Rightarrow> bool"
  bs_crypto :: "('k, 'p) crypto"
  bs_documents :: "'b documents"
  bs_attestation :: attestation_policy
  bs_authn :: "(string \<Rightarrow> ('w, auth_error, principal) st) option"
  bs_engine :: policy_engine
  bs_opa_post :: "string \<Rightarrow> json \<Rightarrow> 'w \<Rightarrow> (string + json) \<times> 'w"
  bs_show_json :: "json \<Rightarrow> string"
  bs_scorer :: "'w scorer"
  bs_fraction :: rat
  bs_sealed :: "string \<Rightarrow> int list option option"
  bs_installation :: installation
  bs_hash :: "json \<Rightarrow> string"
  bs_card_hash :: "scorecard \<Rightarrow> string"
  bs_digest :: "'o \<Rightarrow> string"
  bs_dump :: "provenance_bundle \<Rightarrow> 'o"
  bs_load :: "'o \<Rightarrow> provenance_bundle option"
  bs_say :: "refusal \<Rightarrow> string"
  bs_clock :: "'w \<Rightarrow> string"
  bs_now :: "'w \<Rightarrow> moment"
  bs_trace :: "'w \<Rightarrow> string option"
  bs_inject :: "'w \<Rightarrow> (string, string) dict"

record ('o, 'w) board_service =
  bd_store :: memory_store
  bd_objects :: "'o memory_objects"
  bd_jobs :: job_store
  bd_queue :: job_queue
  bd_limiter :: rate_limiter
  bd_audit :: "audit_event list"
  bd_world :: 'w

type_synonym ('o, 'w, 'a) service = "(('o, 'w) board_service, service_error, 'a) st"

definition on_board_world :: "('w, 'e, 'a) st \<Rightarrow> (('o, 'w) board_service, 'e, 'a) st" where
  "on_board_world m s = (case m (bd_world s) of (r, w) \<Rightarrow> (r, s\<lparr>bd_world := w\<rparr>))"

definition board_record ::
    "('b, 'k, 'p, 'o, 'w) bench_setup \<Rightarrow> string \<Rightarrow> audit_decision \<Rightarrow> principal option \<Rightarrow> string \<Rightarrow> string
      \<Rightarrow> string option \<Rightarrow> string option \<Rightarrow> (string, json) dict \<Rightarrow> ('o, 'w, unit) service" where
  "board_record su act d p resource why sid jid detail =
    smodify (\<lambda>s. s\<lparr>bd_audit := mem_record
      (make_audit_event (bs_hash su)
        \<lparr>ae_event_id = [], ae_occurred_at = bs_clock su (bd_world s), ae_action = act, ae_decision = d,
         ae_subject = map_option pr_subject p, ae_issuer = map_option pr_issuer p, ae_resource = resource,
         ae_reason = why, ae_submission_id = sid, ae_job_id = jid, ae_trace_id = bs_trace su (bd_world s),
         ae_detail = detail\<rparr>) (bd_audit s)\<rparr>)"

section \<open>Authentication and authorization\<close>

definition authenticate ::
    "('b, 'k, 'p, 'o, 'w) bench_setup \<Rightarrow> string option \<Rightarrow> ('o, 'w, principal) service" where
  "authenticate su header =
    (case bs_authn su of
       None \<Rightarrow>
         sbind (board_record su ''authenticate'' AD_DENY None [] ''no OIDC verifier is configured on this deployment''
           None None []) (\<lambda>_. sraise (Rejected NotConfigured))
     | Some verifier \<Rightarrow>
         sbind (scatch
             (case bearer_token header of Inl e \<Rightarrow> sraise e | Inr t \<Rightarrow> on_board_world (verifier t))
             (\<lambda>e. case e of
                AuthenticationError msg \<Rightarrow>
                  sbind (board_record su ''authenticate'' AD_DENY None [] msg None None [])
                    (\<lambda>_. sraise (Rejected (BadToken e)))
              | AuthRaised _ \<Rightarrow> sraise (AuthEscaped e)))
           (\<lambda>p. sbind (board_record su ''authenticate'' AD_ALLOW (Some p) [] ''bearer token verified'' None None [])
             (\<lambda>_. sret p)))"

definition authorization_request ::
    "principal \<Rightarrow> board_action \<Rightarrow> string \<Rightarrow> string option \<Rightarrow> rate_limiter \<Rightarrow> authz_request" where
  "authorization_request p act resource scenario l =
    \<lparr>rq_principal = p, rq_action = act, rq_resource = resource,
     rq_submissions_in_window = int (rate_observed l (identity p)),
     rq_scenario_id = (case scenario of None \<Rightarrow> resource | Some s \<Rightarrow> if s = [] then resource else s)\<rparr>"

definition decide_policy ::
    "('b, 'k, 'p, 'o, 'w) bench_setup \<Rightarrow> authz_request \<Rightarrow> 'w \<Rightarrow> authz_decision \<times> 'w" where
  "decide_policy su rq w = policy_evaluate (bs_show_json su) (bs_opa_post su) (bs_engine su) rq w"

definition authorize ::
    "('b, 'k, 'p, 'o, 'w) bench_setup \<Rightarrow> principal \<Rightarrow> board_action \<Rightarrow> string \<Rightarrow> string option
      \<Rightarrow> ('o, 'w, unit) service" where
  "authorize su p act resource scenario =
    sbind (\<lambda>s. case decide_policy su (authorization_request p act resource scenario (bd_limiter s)) (bd_world s)
        of (d, w) \<Rightarrow> (Inr d, s\<lparr>bd_world := w\<rparr>)) (\<lambda>d.
    sbind (board_record su (action_value act) (if allow d then AD_ALLOW else AD_DENY) (Some p) resource
        (authz_decision.reason d) None None []) (\<lambda>_.
      if allow d then sret ()
      else sraise (Rejected (Denied (if authz_decision.reason d = [] then action_value act @ '' denied''
             else authz_decision.reason d)))))"

definition rate_limit ::
    "('b, 'k, 'p, 'o, 'w) bench_setup \<Rightarrow> principal \<Rightarrow> string \<Rightarrow> ('o, 'w, unit) service" where
  "rate_limit su p resource =
    scatch (\<lambda>s. case rate_check (identity p) (bd_limiter s) of (r, l) \<Rightarrow> (r, s\<lparr>bd_limiter := l\<rparr>))
      (\<lambda>e. sbind (board_record su ''rate_limit'' AD_DENY (Some p) resource (bs_say su (RateLimited e)) None None [])
        (\<lambda>_. sraise (Rejected (RateLimited e))))"

section \<open>Lifecycle helpers\<close>

record hub_submission_request =
  hr_scenario_id :: string
  hr_hub_ref :: string
  hr_method :: "string option"
  hr_author :: "string option"

definition ticket :: "('b, 'k, 'p, 'o, 'w) bench_setup \<Rightarrow> hub_submission_request \<Rightarrow> principal \<Rightarrow> string" where
  "ticket su rq p =
    bs_hash su (JObj [(''hub_ref'', JStr (hr_hub_ref rq)), (''scenario_id'', JStr (hr_scenario_id rq)),
                      (''subject'', JStr (identity p))])"

definition transition ::
    "string \<Rightarrow> submission_status \<Rightarrow> string option \<Rightarrow> string option \<Rightarrow> ('o, 'w, job_record) service" where
  "transition jid st detail result =
    (let j = \<lparr>job_id = jid, job_status = st, job_detail = detail, job_result_id = result\<rparr>
     in sbind (smodify (\<lambda>s. s\<lparr>bd_jobs := put_job j (bd_jobs s)\<rparr>)) (\<lambda>_. sret j))"

definition service_get_job :: "('o, 'w) board_service \<Rightarrow> string \<Rightarrow> job_record option" where
  "service_get_job s jid = get_job (bd_jobs s) jid"

definition get_provenance ::
    "('b, 'k, 'p, 'o, 'w) bench_setup \<Rightarrow> ('o, 'w) board_service \<Rightarrow> string \<Rightarrow> service_error + provenance_bundle option" where
  "get_provenance su s sid =
    (case Option.bind (mem_get_submission (bd_store s) sid) sub_provenance_hash of
       None \<Rightarrow> Inr None
     | Some h \<Rightarrow>
         rbind (rerr ObjectEscaped (mem_get (bs_digest su) (bd_objects s) h)) (\<lambda>raw.
           case raw of
             None \<Rightarrow> Inr None
           | Some b \<Rightarrow> (case bs_load su b of None \<Rightarrow> Inl BundleUnreadable | Some x \<Rightarrow> Inr (Some x))))"

definition put_board_object :: "('b, 'k, 'p, 'o, 'w) bench_setup \<Rightarrow> 'o \<Rightarrow> ('o, 'w, string) service" where
  "put_board_object su x s =
    (case mem_put (bs_digest su) x (bd_objects s) of (r, obs) \<Rightarrow> (rerr ObjectEscaped r, s\<lparr>bd_objects := obs\<rparr>))"

definition add_to_board :: "submission \<Rightarrow> ('o, 'w, unit) service" where
  "add_to_board x = smodify (\<lambda>s. s\<lparr>bd_store := mem_add_submission x (bd_store s)\<rparr>)"

definition attach_replay ::
    "('b, 'k, 'p, 'o, 'w) bench_setup \<Rightarrow> string \<Rightarrow> 'o \<Rightarrow> ('o, 'w, submission) service" where
  "attach_replay su sid mcap =
    sbind (sread (\<lambda>s. mem_get_submission (bd_store s) sid)) (\<lambda>found.
      case found of
        None \<Rightarrow> sraise (NoSuchSubmission sid)
      | Some x \<Rightarrow>
          sbind (put_board_object su mcap) (\<lambda>h.
          let y = x\<lparr>sub_trace_hash := Some h\<rparr>
          in sbind (add_to_board y) (\<lambda>_. sret y)))"

definition get_replay ::
    "('b, 'k, 'p, 'o, 'w) bench_setup \<Rightarrow> ('o, 'w) board_service \<Rightarrow> string \<Rightarrow> service_error + 'o option" where
  "get_replay su s sid =
    (case Option.bind (mem_get_submission (bd_store s) sid) sub_trace_hash of
       None \<Rightarrow> Inr None
     | Some h \<Rightarrow> rerr ObjectEscaped (mem_get (bs_digest su) (bd_objects s) h))"

definition retract ::
    "('b, 'k, 'p, 'o, 'w) bench_setup \<Rightarrow> string \<Rightarrow> principal \<Rightarrow> ('o, 'w, submission) service" where
  "retract su sid p =
    sbind (sread (\<lambda>s. mem_get_submission (bd_store s) sid)) (\<lambda>found.
      case found of
        None \<Rightarrow> sraise (NoSuchSubmission sid)
      | Some x \<Rightarrow>
          sbind (authorize su p RANKING_MUTATE sid (Some (sub_scenario_id x))) (\<lambda>_.
          sbind (smodify (\<lambda>s. s\<lparr>bd_store := mem_remove_submission sid (bd_store s)\<rparr>)) (\<lambda>_.
          sbind (board_record su ''submission:retract'' AD_ALLOW (Some p) sid ''entry retracted from the board''
            (Some sid) None []) (\<lambda>_. sret x))))"

section \<open>Intake steps\<close>

definition load_heldout_seeds :: "(string \<Rightarrow> int list option option) \<Rightarrow> string \<Rightarrow> heldout_error + int list" where
  "load_heldout_seeds sealed sid =
    (case sealed sid of
       None \<Rightarrow> Inl HeldoutMissing
     | Some None \<Rightarrow> Inl HeldoutMalformed
     | Some (Some seeds) \<Rightarrow> Inr seeds)"

text \<open>A refusal after the job exists: the record becomes \<^verbatim>\<open>rejected\<close>, the decision is audited, 4xx is raised.\<close>

definition refuse_job ::
    "('b, 'k, 'p, 'o, 'w) bench_setup \<Rightarrow> string \<Rightarrow> principal \<Rightarrow> string \<Rightarrow> string option \<Rightarrow> (string, json) dict
      \<Rightarrow> refusal \<Rightarrow> ('o, 'w, 'a) service" where
  "refuse_job su act p resource jid detail r =
    sbind (case jid of None \<Rightarrow> sret ()
           | Some j \<Rightarrow> sbind (transition j REJECTED (Some (bs_say su r)) None) (\<lambda>_. sret ())) (\<lambda>_.
    sbind (board_record su act AD_REJECTED (Some p) resource (bs_say su r) None jid detail) (\<lambda>_.
      sraise (Rejected r)))"

definition heldout ::
    "('b, 'k, 'p, 'o, 'w) bench_setup \<Rightarrow> scenario_spec \<Rightarrow> principal \<Rightarrow> string \<Rightarrow> string option
      \<Rightarrow> ('o, 'w, int list) service" where
  "heldout su spec p resource jid =
    (case load_heldout_seeds (bs_sealed su) (scenario_id spec) of
       Inr seeds \<Rightarrow> sret seeds
     | Inl HeldoutMissing \<Rightarrow> refuse_job su ''embargo:disclose'' p resource jid [] (NoHeldout (scenario_id spec))
     | Inl HeldoutMalformed \<Rightarrow> sraise HeldoutUnreadable)"

definition resolve_step ::
    "('b, 'k, 'p, 'o, 'w) bench_setup \<Rightarrow> 'b layout \<Rightarrow> string \<Rightarrow> principal \<Rightarrow> hub_submission_request
      \<Rightarrow> ('o, 'w, resolved_submission) service" where
  "resolve_step su lay jid p rq =
    (case resolve_submission (bs_codec su) (bs_parse su) (bs_schema su) lay (hr_hub_ref rq) of
       Inr rv \<Rightarrow> sret rv
     | Inl c \<Rightarrow> refuse_job su ''submission:resolve'' p (hr_hub_ref rq) (Some jid) [] (Unresolved c))"

definition verdict_json :: "attestation_verdict \<Rightarrow> (string, json) dict" where
  "verdict_json v =
    [(''subject'', JStr (atv_subject v)), (''required'', JList (map JStr (atv_required v))),
     (''verified'', JBool (atv_verified v)), (''signer_pinned'', JBool (atv_signer_pinned v)),
     (''detail'', j_opt (atv_detail v))]"

definition verify_attestations ::
    "('b, 'k, 'p, 'o, 'w) bench_setup \<Rightarrow> 'b layout \<Rightarrow> string \<Rightarrow> principal \<Rightarrow> hub_submission_request \<Rightarrow> string
      \<Rightarrow> ('o, 'w, unit) service" where
  "verify_attestations su lay jid p rq dg =
    sbind (sread (\<lambda>s. bs_now su (bd_world s))) (\<lambda>now.
      case verify_submission_attestations (bs_crypto su) (bs_documents su) (bs_codec su) now lay dg (bs_attestation su) of
        Inl e \<Rightarrow> refuse_job su ''submission:verify'' p (hr_hub_ref rq) (Some jid)
          [(''required'', JList (map JStr (att_required (bs_attestation su))))] (Unattested e)
      | Inr v \<Rightarrow> board_record su ''submission:verify'' AD_VERIFIED (Some p) (hr_hub_ref rq)
          ''cosign signature, SLSA provenance, and SBOM verified'' None (Some jid) (verdict_json v))"

definition validate_interface ::
    "('b, 'k, 'p, 'o, 'w) bench_setup \<Rightarrow> string \<Rightarrow> principal \<Rightarrow> hub_submission_request \<Rightarrow> resolved_submission
      \<Rightarrow> scenario_spec \<Rightarrow> ('o, 'w, unit) service" where
  "validate_interface su jid p rq rv spec =
    (case validate_submission_manifest rv spec of
       Inl e \<Rightarrow> sraise (CompatEscaped e)
     | Inr None \<Rightarrow> sret ()
     | Inr (Some c) \<Rightarrow> refuse_job su ''submission:validate'' p (hr_hub_ref rq) (Some jid) [] (WrongInterface c))"

definition policy_ref_step ::
    "('b, 'k, 'p, 'o, 'w) bench_setup \<Rightarrow> string \<Rightarrow> principal \<Rightarrow> hub_submission_request \<Rightarrow> resolved_submission
      \<Rightarrow> ('o, 'w, string) service" where
  "policy_ref_step su jid p rq rv =
    (case submission_policy_ref rv of
       Inr r \<Rightarrow> sret r
     | Inl c \<Rightarrow> refuse_job su ''submission:materialize'' p (hr_hub_ref rq) (Some jid) [] (NotMaterializable c))"

definition sandbox_status_text :: "scorer_error \<Rightarrow> string" where
  "sandbox_status_text e =
    (case e of SandboxError _ (Some st) \<Rightarrow> sandbox_status_value st | _ \<Rightarrow> ''unavailable'')"

text \<open>A scoring call: \<^verbatim>\<open>SandboxError\<close> refuses the submission, anything else escapes.\<close>

definition scored ::
    "('b, 'k, 'p, 'o, 'w) bench_setup \<Rightarrow> principal \<Rightarrow> string \<Rightarrow> string option \<Rightarrow> ('w, scorer_error, 'a) st
      \<Rightarrow> ('o, 'w, 'a) service" where
  "scored su p resource jid m =
    scatch (on_board_world m) (\<lambda>e.
      case e of
        SandboxError _ _ \<Rightarrow>
          refuse_job su ''submission:execute'' p resource jid [(''sandbox_status'', JStr (sandbox_status_text e))]
            (ExecutionFailed e)
      | _ \<Rightarrow> sraise (ScorerEscaped e))"

primrec integrity_decision :: "integrity \<Rightarrow> audit_decision" where
  "integrity_decision VERIFIED = AD_VERIFIED"
| "integrity_decision FLAGGED = AD_REJECTED"

primrec integrity_reason :: "integrity \<Rightarrow> string" where
  "integrity_reason VERIFIED = ''scored with integrity=verified''"
| "integrity_reason FLAGGED = ''scored with integrity=flagged''"

section \<open>The two intake paths\<close>

definition submit_local ::
    "('b, 'k, 'p, 'o, 'w) bench_setup \<Rightarrow> scenario_spec \<Rightarrow> submission_request \<Rightarrow> principal
      \<Rightarrow> ('o, 'w, submission) service" where
  "submit_local su spec rq p =
    (let ref = sr_policy_ref rq in
     sbind (authorize su p SUBMISSION_CREATE ref (Some (scenario_id spec))) (\<lambda>_.
     sbind (rate_limit su p ref) (\<lambda>_.
     sbind (case validate_policy_ref ref of
              Some r \<Rightarrow> sret r
            | None \<Rightarrow> refuse_job su (action_value SUBMISSION_CREATE) p ref None [] (BadPolicyRef ref)) (\<lambda>policy_ref.
     sbind (heldout su spec p ref None) (\<lambda>seeds.
     sbind (scored su p ref None (evaluate (bs_scorer su) spec policy_ref seeds 1)) (\<lambda>(card, integ).
     let x = build_submission (bs_hash su) (bs_card_hash su) rq card integ None None in
     sbind (add_to_board x) (\<lambda>_.
     sbind (board_record su (action_value SUBMISSION_CREATE) (integrity_decision integ) (Some p) ref
       (integrity_reason integ) (Some (sub_id x)) None []) (\<lambda>_.
       sret x))))))))"

text \<open>The end of the worker: the entry is catalogued, audited and its job closed.\<close>

definition rank_submission ::
    "('b, 'k, 'p, 'o, 'w) bench_setup \<Rightarrow> scenario_spec \<Rightarrow> hub_submission_request \<Rightarrow> principal \<Rightarrow> string \<Rightarrow> string
      \<Rightarrow> string \<Rightarrow> string \<Rightarrow> scorecard \<Rightarrow> integrity \<Rightarrow> ('o, 'w, job_record) service" where
  "rank_submission su spec rq p jid source policy_ref prov crd integ =
    (let x = build_submission (bs_hash su) (bs_card_hash su)
           \<lparr>sr_scenario_id = scenario_id spec, sr_policy_ref = policy_ref, sr_method = hr_method rq,
            sr_author = hr_author rq\<rparr> crd integ (Some source) (Some prov) in
     sbind (add_to_board x) (\<lambda>_.
     sbind (board_record su (action_value SUBMISSION_CREATE_HUB) (integrity_decision integ) (Some p)
       (hr_hub_ref rq) (integrity_reason integ) (Some (sub_id x)) (Some jid) []) (\<lambda>_.
       if integ = VERIFIED then transition jid RANKED None (Some (sub_id x))
       else transition jid STATUS_FLAGGED (Some ''provenance re-execution mismatch'') (Some (sub_id x)))))"

definition evaluate_queued ::
    "('b, 'k, 'p, 'o, 'w) bench_setup \<Rightarrow> scenario_spec \<Rightarrow> hub_submission_request \<Rightarrow> principal \<Rightarrow> string \<Rightarrow> string
      \<Rightarrow> ('o, 'w, job_record) service" where
  "evaluate_queued su spec rq p source policy_ref =
    sbind (\<lambda>s. case queue_consume (bd_queue s) of (e, q) \<Rightarrow> (Inr e, s\<lparr>bd_queue := q\<rparr>)) (\<lambda>envelope.
      case envelope of
        None \<Rightarrow> sraise QueueLost
      | Some env \<Rightarrow>
          (let jid = env_job_id env in
           sbind (transition jid RUNNING None None) (\<lambda>_.
           sbind (heldout su spec p (hr_hub_ref rq) (Some jid)) (\<lambda>seeds.
           sbind (scored su p (hr_hub_ref rq) (Some jid) (bs_scorer su spec policy_ref seeds)) (\<lambda>card.
           sbind (transition jid SCORED None None) (\<lambda>_.
             case build_provenance_bundle (bs_hash su) (bs_card_hash su) (bs_installation su) spec card source (Some source) of
               None \<Rightarrow> sraise BundleInvalid
             | Some bundle \<Rightarrow>
                 sbind (put_board_object su (bs_dump su bundle)) (\<lambda>prov.
                 sbind (scored su p (hr_hub_ref rq) (Some jid)
                     (resample_from_bundle (bs_scorer su) bundle spec policy_ref (bs_fraction su))) (\<lambda>integ.
                 rank_submission su spec rq p jid source policy_ref prov card integ))))))))"

definition publish_envelope :: "submission_envelope \<Rightarrow> ('o, 'w, unit) service" where
  "publish_envelope e = smodify (\<lambda>s. s\<lparr>bd_queue := queue_publish e (bd_queue s)\<rparr>)"

definition hub_rate_limit ::
    "('b, 'k, 'p, 'o, 'w) bench_setup \<Rightarrow> string \<Rightarrow> principal \<Rightarrow> string \<Rightarrow> ('o, 'w, unit) service" where
  "hub_rate_limit su jid p resource =
    scatch (rate_limit su p resource) (\<lambda>e.
      case e of
        Rejected r \<Rightarrow> sbind (transition jid REJECTED (Some (bs_say su r)) None) (\<lambda>_. sraise e)
      | _ \<Rightarrow> sraise e)"

definition submit_hub ::
    "('b, 'k, 'p, 'o, 'w) bench_setup \<Rightarrow> scenario_spec \<Rightarrow> hub_submission_request \<Rightarrow> principal
      \<Rightarrow> ('o, 'w, job_record) service" where
  "submit_hub su spec rq p =
    (case bs_registry su of
       None \<Rightarrow> sraise NoRegistry
     | Some lay \<Rightarrow>
         (let jid = ticket su rq p in
          sbind (authorize su p SUBMISSION_CREATE_HUB (hr_hub_ref rq) (Some (scenario_id spec))) (\<lambda>_.
          sbind (hub_rate_limit su jid p (hr_hub_ref rq)) (\<lambda>_.
          sbind (resolve_step su lay jid p rq) (\<lambda>rv.
          sbind (verify_attestations su lay jid p rq (rv_manifest_digest rv)) (\<lambda>_.
          sbind (validate_interface su jid p rq rv spec) (\<lambda>_.
          sbind (policy_ref_step su jid p rq rv) (\<lambda>policy_ref.
          sbind (sread (\<lambda>s. bs_inject su (bd_world s))) (\<lambda>headers.
          sbind (publish_envelope \<lparr>env_job_id = jid, env_scenario_id = scenario_id spec,
            env_reference = hr_hub_ref rq, env_subject = identity p, env_headers = headers\<rparr>) (\<lambda>_.
          sbind (transition jid QUEUED None None) (\<lambda>_.
            evaluate_queued su spec rq p (rv_manifest_digest rv) policy_ref)))))))))))"

section \<open>Steps that leave the board alone\<close>

text \<open>
  A step stays in a relation when every outcome, an exception included, is related to the state
  it began in. Any reflexive and transitive relation is closed under the combinators.
\<close>

definition stays :: "('s \<Rightarrow> 's \<Rightarrow> bool) \<Rightarrow> ('s, 'e, 'a) st \<Rightarrow> bool" where
  "stays R m = (\<forall>s. R s (snd (m s)))"

locale step_relation =
  fixes R :: "'s \<Rightarrow> 's \<Rightarrow> bool"
  assumes R_refl: "R s s"
    and R_trans: "R s t \<Longrightarrow> R t u \<Longrightarrow> R s u"
begin

lemma stays_pure: "stays R (sret x)" "stays R (sraise e)" "stays R (sread f)" "stays R (slift r)"
  by (simp_all add: stays_def st_defs R_refl)

lemma stays_bind: "stays R m \<Longrightarrow> (\<And>x. stays R (f x)) \<Longrightarrow> stays R (sbind m f)"
  unfolding stays_def sbind_def by (auto split: prod.splits sum.splits) (metis R_trans snd_conv)+

lemma stays_catch: "stays R m \<Longrightarrow> (\<And>e. stays R (h e)) \<Longrightarrow> stays R (scatch m h)"
  unfolding stays_def scatch_def by (auto split: prod.splits sum.splits) (metis R_trans snd_conv)+

lemma stays_modify: "(\<And>s. R s (g s)) \<Longrightarrow> stays R (smodify g)"
  by (simp add: stays_def smodify_def)

lemmas stays_rules = stays_pure stays_bind stays_catch

end

lemma staysD: "stays R m \<Longrightarrow> m s = (r, t) \<Longrightarrow> R s t"
  unfolding stays_def by (metis snd_conv)

text \<open>The audit trail is only ever appended to.\<close>

definition trail_grows :: "('o, 'w) board_service \<Rightarrow> ('o, 'w) board_service \<Rightarrow> bool" where
  "trail_grows s t = (\<exists>es. bd_audit t = bd_audit s @ es)"

text \<open>Nothing but the trail, the jobs, the rate counts and the outside world has changed.\<close>

definition undisturbed :: "('o, 'w) board_service \<Rightarrow> ('o, 'w) board_service \<Rightarrow> bool" where
  "undisturbed s t =
    (bd_store t = bd_store s \<and> bd_objects t = bd_objects s \<and> bd_queue t = bd_queue s \<and> trail_grows s t)"

lemma trail_grows_refl: "trail_grows s s"
  by (simp add: trail_grows_def)

lemma trail_grows_trans: "trail_grows s t \<Longrightarrow> trail_grows t u \<Longrightarrow> trail_grows s u"
  by (auto simp: trail_grows_def)

interpretation trail: step_relation "trail_grows :: ('o, 'w) board_service \<Rightarrow> _"
  by unfold_locales (auto intro: trail_grows_refl trail_grows_trans)

interpretation quiet: step_relation "undisturbed :: ('o, 'w) board_service \<Rightarrow> _"
  by unfold_locales (auto simp: undisturbed_def intro: trail_grows_refl trail_grows_trans)

lemma undisturbed_grows: "stays undisturbed m \<Longrightarrow> stays trail_grows m"
  by (simp add: stays_def undisturbed_def)

named_theorems quiet_steps \<open>steps that leave the board, the objects and the queue alone\<close>

lemma board_record_stays [quiet_steps]: "stays undisturbed (board_record su act d p r why sid jid det)"
  unfolding board_record_def
  by (rule quiet.stays_modify) (simp add: undisturbed_def trail_grows_def mem_record_def)

lemma transition_stays [quiet_steps]: "stays undisturbed (transition jid st det res)"
  unfolding transition_def Let_def
  by (intro quiet.stays_rules quiet.stays_modify) (simp add: undisturbed_def trail_grows_def)

lemma on_board_world_stays [quiet_steps]: "stays undisturbed (on_board_world m)"
  by (auto simp: stays_def on_board_world_def undisturbed_def trail_grows_def split: prod.splits)

lemma authorize_stays [quiet_steps]: "stays undisturbed (authorize su p act r sc)"
proof -
  have "stays undisturbed (\<lambda>s. case decide_policy su (authorization_request p act r sc (bd_limiter s)) (bd_world s)
        of (d, w) \<Rightarrow> (Inr d, s\<lparr>bd_world := w\<rparr>))"
    by (auto simp: stays_def undisturbed_def trail_grows_def split: prod.splits)
  then show ?thesis
    unfolding authorize_def by (intro quiet.stays_rules) (auto intro: quiet_steps quiet.stays_rules)
qed

lemma authenticate_stays [quiet_steps]: "stays undisturbed (authenticate su h)"
  unfolding authenticate_def
  by (auto split: option.split sum.split auth_error.split intro!: quiet_steps quiet.stays_rules)

lemma rate_limit_stays [quiet_steps]: "stays undisturbed (rate_limit su p r)"
proof -
  have "stays undisturbed (\<lambda>s. case rate_check (identity p) (bd_limiter s) of (x, l) \<Rightarrow> (x, s\<lparr>bd_limiter := l\<rparr>))"
    by (auto simp: stays_def undisturbed_def trail_grows_def split: prod.splits)
  then show ?thesis
    unfolding rate_limit_def by (intro quiet.stays_rules) (auto intro: quiet_steps)
qed

lemma refuse_job_stays [quiet_steps]: "stays undisturbed (refuse_job su act p r jid det c)"
  unfolding refuse_job_def
  by (auto split: option.split intro!: quiet_steps quiet.stays_rules)

lemma heldout_stays [quiet_steps]: "stays undisturbed (heldout su spec p r jid)"
  unfolding heldout_def
  by (auto split: sum.split heldout_error.split intro!: quiet_steps quiet.stays_rules)

lemma intake_stays [quiet_steps]:
  "stays undisturbed (resolve_step su lay jid p rq)"
  "stays undisturbed (verify_attestations su lay jid p rq dg)"
  "stays undisturbed (validate_interface su jid p rq rv spec)"
  "stays undisturbed (policy_ref_step su jid p rq rv)"
  "stays undisturbed (scored su p r jd m)"
  "stays undisturbed (hub_rate_limit su jid p r)"
  unfolding resolve_step_def verify_attestations_def validate_interface_def policy_ref_step_def scored_def
    hub_rate_limit_def
  by (auto split: sum.split option.split scorer_error.split service_error.split
      intro!: quiet_steps quiet.stays_rules)

section \<open>Job records\<close>

text \<open>
  A step of a job touches no other job's record, and when it refuses the submission the record is
  \<^verbatim>\<open>rejected\<close> with the text of the refusal.
\<close>

definition job_step :: "('b, 'k, 'p, 'o, 'w) bench_setup \<Rightarrow> string \<Rightarrow> ('o, 'w, 'a) service \<Rightarrow> bool" where
  "job_step su jid m = (\<forall>s r t. m s = (r, t) \<longrightarrow>
    (\<forall>j. j \<noteq> jid \<longrightarrow> get_job (bd_jobs t) j = get_job (bd_jobs s) j)
    \<and> (\<forall>c. r = Inl (Rejected c) \<longrightarrow> get_job (bd_jobs t) jid =
         Some \<lparr>job_id = jid, job_status = REJECTED, job_detail = Some (bs_say su c), job_result_id = None\<rparr>
       \<and> (\<forall>why. c \<noteq> Denied why)))"

named_theorems job_steps \<open>steps that keep a job's record in order\<close>

lemma job_step_bind [job_steps]: "job_step su jid m \<Longrightarrow> (\<And>x. job_step su jid (f x)) \<Longrightarrow> job_step su jid (sbind m f)"
  unfolding job_step_def sbind_def by (auto split: prod.splits sum.splits)

lemma job_step_pure [job_steps]:
  "job_step su jid (sret x)" "job_step su jid (sread f)"
  "(\<And>c. e \<noteq> Rejected c) \<Longrightarrow> job_step su jid (sraise e)"
  by (auto simp: job_step_def st_defs)

lemma transition_job: "transition jid st det res s =
    (Inr \<lparr>job_id = jid, job_status = st, job_detail = det, job_result_id = res\<rparr>,
     s\<lparr>bd_jobs := dict_set (bd_jobs s) jid \<lparr>job_id = jid, job_status = st, job_detail = det, job_result_id = res\<rparr>\<rparr>)"
  by (simp add: transition_def put_job_def sret_def Let_def)

lemma transition_step [job_steps]: "job_step su jid (transition jid st det res)"
  by (auto simp: job_step_def transition_job get_job_def)

lemma board_record_step [job_steps]: "job_step su jid (board_record su' act d p r why sid jd det)"
  by (auto simp: job_step_def board_record_def smodify_def)

lemma modify_step [job_steps]: "(\<And>s. bd_jobs (g s) = bd_jobs s) \<Longrightarrow> job_step su jid (smodify g)"
  by (auto simp: job_step_def smodify_def)

lemma refuse_job_step [job_steps]:
  "(\<And>why. c \<noteq> Denied why) \<Longrightarrow> job_step su jid (refuse_job su act p r (Some jid) det c)"
  by (auto simp: job_step_def refuse_job_def transition_job board_record_def sbind_def st_defs get_job_def)

lemma heldout_step [job_steps]: "job_step su jid (heldout su spec p r (Some jid))"
  unfolding heldout_def by (auto split: sum.split heldout_error.split intro!: job_steps)

lemma on_board_world_run: "on_board_world m s = (r, t) \<Longrightarrow> \<exists>w. m (bd_world s) = (r, w) \<and> t = s\<lparr>bd_world := w\<rparr>"
  by (auto simp: on_board_world_def split: prod.splits)

lemma scored_step [job_steps]: "job_step su jid (scored su p r (Some jid) m)"
  unfolding job_step_def
proof (intro allI impI)
  fix s x t
  assume run: "scored su p r (Some jid) m s = (x, t)"
  obtain y w where m: "m (bd_world s) = (y, w)"
    by force
  show "(\<forall>j. j \<noteq> jid \<longrightarrow> get_job (bd_jobs t) j = get_job (bd_jobs s) j)
    \<and> (\<forall>c. x = Inl (Rejected c) \<longrightarrow> get_job (bd_jobs t) jid =
         Some \<lparr>job_id = jid, job_status = REJECTED, job_detail = Some (bs_say su c), job_result_id = None\<rparr>
       \<and> (\<forall>why. c \<noteq> Denied why))"
  proof (cases y)
    case (Inr z)
    with run m show ?thesis by (auto simp: scored_def scatch_def on_board_world_def)
  next
    case (Inl e)
    with run m show ?thesis
      by (cases e) (auto simp: scored_def scatch_def on_board_world_def sraise_def
          dest!: refuse_job_step[unfolded job_step_def, rule_format, rotated])
  qed
qed

lemma put_board_object_run:
  "put_board_object su x s = (Inr (bs_digest su x), s\<lparr>bd_objects := dict_set (bd_objects s) (bs_digest su x) x\<rparr>)"
  by (simp add: put_board_object_def mem_put_def sret_def)

lemma put_board_object_step [job_steps]: "job_step su jid (put_board_object su x)"
  by (auto simp: job_step_def put_board_object_run)

lemma intake_step [job_steps]:
  "job_step su jid (resolve_step su lay jid p rq)"
  "job_step su jid (verify_attestations su lay jid p rq dg)"
  "job_step su jid (validate_interface su jid p rq rv spec)"
  "job_step su jid (policy_ref_step su jid p rq rv)"
  unfolding resolve_step_def verify_attestations_def validate_interface_def policy_ref_step_def
  by (auto split: sum.split option.split intro!: job_steps)

lemma rate_limit_run:
  assumes "rate_limit su p res s = (r, t)"
  shows "if rate_observed (bd_limiter s) (identity p) < rl_limit (bd_limiter s) then r = Inr () \<and> bd_jobs t = bd_jobs s
    else (\<exists>e. r = Inl (Rejected (RateLimited e))) \<and> bd_jobs t = bd_jobs s"
  using assms by (auto simp: rate_limit_def rate_check_cases scatch_def sbind_def st_defs board_record_def)

lemma hub_rate_limit_step [job_steps]: "job_step su jid (hub_rate_limit su jid p res)"
  unfolding job_step_def hub_rate_limit_def scatch_def
  by (auto split: prod.splits sum.splits service_error.splits dest!: rate_limit_run
      simp: transition_job sbind_def st_defs get_job_def split: if_splits)

section \<open>The evaluation worker\<close>

lemma add_to_board_run: "add_to_board x s = (Inr (), s\<lparr>bd_store := mem_add_submission x (bd_store s)\<rparr>)"
  by (simp add: add_to_board_def smodify_def)

lemma scored_Inr: "scored su p r jid m s = (Inr x, t) \<Longrightarrow> \<exists>w. m (bd_world s) = (Inr x, w) \<and> t = s\<lparr>bd_world := w\<rparr>"
  by (auto simp: scored_def scatch_def on_board_world_def refuse_job_def sbind_def st_defs board_record_def
      split: prod.splits sum.splits scorer_error.splits option.splits)

lemma heldout_Inr: "heldout su spec p r jid s = (Inr seeds, t) \<Longrightarrow>
    bs_sealed su (scenario_id spec) = Some (Some seeds) \<and> t = s"
  by (auto simp: heldout_def load_heldout_seeds_def refuse_job_def sbind_def st_defs board_record_def
      split: prod.splits sum.splits heldout_error.splits option.splits)

text \<open>
  An entry that was scored: the policy was run on the sealed seeds, the bundle of that run is in the
  object store under the entry's provenance hash, and the integrity is the verdict of the re-execution
  of a sample of that bundle.
\<close>

definition scored_entry ::
    "('b, 'k, 'p, 'o, 'w) bench_setup \<Rightarrow> scenario_spec \<Rightarrow> hub_submission_request \<Rightarrow> string \<Rightarrow> string
      \<Rightarrow> submission \<Rightarrow> ('o, 'w) board_service \<Rightarrow> bool" where
  "scored_entry su spec rq source ref x t =
    (\<exists>seeds card integ bundle w w' v v'.
      bs_sealed su (scenario_id spec) = Some (Some seeds)
      \<and> bs_scorer su spec ref seeds w = (Inr card, w')
      \<and> build_provenance_bundle (bs_hash su) (bs_card_hash su) (bs_installation su) spec card source (Some source)
          = Some bundle
      \<and> dict_get (bd_objects t) (bs_digest su (bs_dump su bundle)) = Some (bs_dump su bundle)
      \<and> resample_from_bundle (bs_scorer su) bundle spec ref (bs_fraction su) v = (Inr integ, v')
      \<and> x = build_submission (bs_hash su) (bs_card_hash su)
          \<lparr>sr_scenario_id = scenario_id spec, sr_policy_ref = ref, sr_method = hr_method rq, sr_author = hr_author rq\<rparr>
          card integ (Some source) (Some (bs_digest su (bs_dump su bundle))))"

definition result_record :: "string \<Rightarrow> submission \<Rightarrow> job_record" where
  "result_record jid x =
    (if sub_integrity x = VERIFIED
     then \<lparr>job_id = jid, job_status = RANKED, job_detail = None, job_result_id = Some (sub_id x)\<rparr>
     else \<lparr>job_id = jid, job_status = STATUS_FLAGGED, job_detail = Some ''provenance re-execution mismatch'',
           job_result_id = Some (sub_id x)\<rparr>)"

lemma board_record_run:
  "\<exists>e. board_record su act d p r why sid jid det s = (Inr (), s\<lparr>bd_audit := bd_audit s @ [e]\<rparr>)
    \<and> ae_action e = act \<and> ae_decision e = d \<and> ae_subject e = map_option pr_subject p \<and> ae_resource e = r
    \<and> ae_submission_id e = sid \<and> ae_job_id e = jid"
  unfolding board_record_def smodify_def mem_record_def make_audit_event_def
  by (rule exI, intro conjI, rule refl) simp_all

lemma board_record_Inl: "board_record su act d p r why sid jid det s \<noteq> (Inl e, t)"
  by (simp add: board_record_def smodify_def)

lemmas run_rules = transition_job put_board_object_run add_to_board_run board_record_Inl

text \<open>A step that raises leaves the entries of the board as they were.\<close>

definition same_entries :: "('o, 'w) board_service \<Rightarrow> ('o, 'w) board_service \<Rightarrow> bool" where
  "same_entries s t = (bd_store t = bd_store s)"

definition fails_clean :: "('o, 'w, 'a) service \<Rightarrow> bool" where
  "fails_clean m = (\<forall>s e t. m s = (Inl e, t) \<longrightarrow> same_entries s t)"

lemma fails_clean_bind:
  "stays same_entries m \<Longrightarrow> (\<And>x. fails_clean (f x)) \<Longrightarrow> fails_clean (sbind m f)"
  unfolding fails_clean_def stays_def sbind_def same_entries_def
  by (auto split: prod.splits sum.splits) (metis snd_conv)+

lemma same_entries_quiet: "stays undisturbed m \<Longrightarrow> stays same_entries m"
  by (simp add: stays_def undisturbed_def same_entries_def)

lemma fails_clean_raise: "fails_clean (sraise e)"
  by (simp add: fails_clean_def sraise_def same_entries_def)

lemma rank_submission_run:
  fixes su :: "('b, 'k, 'p, 'o, 'w) bench_setup" and s :: "('o, 'w) board_service"
  obtains x t where "rank_submission su spec rq p jid source ref prov crd integ s = (Inr (result_record jid x), t)"
    "x = build_submission (bs_hash su) (bs_card_hash su)
      \<lparr>sr_scenario_id = scenario_id spec, sr_policy_ref = ref, sr_method = hr_method rq, sr_author = hr_author rq\<rparr>
      crd integ (Some source) (Some prov)"
    "bd_store t = mem_add_submission x (bd_store s)" "bd_objects t = bd_objects s" "bd_queue t = bd_queue s"
    "\<forall>j. get_job (bd_jobs t) j = (if j = jid then Some (result_record jid x) else get_job (bd_jobs s) j)"
    "\<exists>ev. bd_audit t = bd_audit s @ [ev] \<and> ae_submission_id ev = Some (sub_id x) \<and> ae_subject ev = Some (pr_subject p)"
proof -
  define x where "x = build_submission (bs_hash su) (bs_card_hash su)
      \<lparr>sr_scenario_id = scenario_id spec, sr_policy_ref = ref, sr_method = hr_method rq, sr_author = hr_author rq\<rparr>
      crd integ (Some source) (Some prov)"
  then have integ: "sub_integrity x = integ"
    by (simp add: build_submission_def)
  let ?u = "s\<lparr>bd_store := mem_add_submission x (bd_store s)\<rparr>"
  obtain ev where ev: "board_record su (action_value SUBMISSION_CREATE_HUB) (integrity_decision integ) (Some p)
      (hr_hub_ref rq) (integrity_reason integ) (Some (sub_id x)) (Some jid) [] ?u
        = (Inr (), ?u\<lparr>bd_audit := bd_audit ?u @ [ev]\<rparr>)"
    "ae_subject ev = map_option pr_subject (Some p)" "ae_submission_id ev = Some (sub_id x)"
    using board_record_run by metis
  let ?t = "?u\<lparr>bd_audit := bd_audit s @ [ev], bd_jobs := dict_set (bd_jobs s) jid (result_record jid x)\<rparr>"
  have "rank_submission su spec rq p jid source ref prov crd integ s = (Inr (result_record jid x), ?t)"
    using ev by (simp add: rank_submission_def x_def[symmetric] Let_def sbind_def run_rules result_record_def integ)
  then show thesis
    by (rule that[OF _ x_def]) (use ev in \<open>simp_all add: get_job_def\<close>)
qed

lemma ranking_clean: "fails_clean (rank_submission su spec rq p jid source ref prov crd integ)"
  unfolding fails_clean_def
proof (intro allI impI)
  fix s e t
  assume "rank_submission su spec rq p jid source ref prov crd integ s = (Inl e, t)"
  moreover obtain r t' where "rank_submission su spec rq p jid source ref prov crd integ s = (Inr r, t')"
    by (rule rank_submission_run)
  ultimately show "same_entries s t"
    by simp
qed

lemma queue_entries: "stays same_entries (\<lambda>s. case queue_consume (bd_queue s) of (e, q) \<Rightarrow> (Inr e, s\<lparr>bd_queue := q\<rparr>))"
  by (auto simp: stays_def same_entries_def split: prod.splits)

lemma object_entries: "stays same_entries (put_board_object su y)"
  by (simp add: stays_def same_entries_def put_board_object_run)

lemmas clean_binds =
  fails_clean_bind[OF queue_entries] fails_clean_bind[OF object_entries]
  fails_clean_bind[OF same_entries_quiet, OF heldout_stays] fails_clean_bind[OF same_entries_quiet, OF intake_stays(5)]

lemma evaluate_queued_fails: "fails_clean (evaluate_queued su spec rq p source ref)"
  unfolding evaluate_queued_def Let_def
  by (rule clean_binds, split option.split, intro conjI allI impI fails_clean_raise)
    (intro clean_binds fails_clean_bind[OF same_entries_quiet, OF transition_stays], split option.split,
      intro conjI allI impI fails_clean_raise clean_binds ranking_clean)

lemma evaluate_queued_runs:
  assumes "evaluate_queued su spec rq p source ref s = (Inr j, t)"
  shows "\<exists>env q x ev. bd_queue s = env # q \<and> scored_entry su spec rq source ref x t
    \<and> bd_store t = mem_add_submission x (bd_store s) \<and> j = result_record (env_job_id env) x
    \<and> get_job (bd_jobs t) (env_job_id env) = Some j
    \<and> bd_audit t \<noteq> [] \<and> last (bd_audit t) = ev
    \<and> ae_submission_id ev = Some (sub_id x) \<and> ae_subject ev = Some (pr_subject p)"
proof -
  obtain env q where q: "bd_queue s = env # q"
    using assms by (cases "bd_queue s") (auto simp: evaluate_queued_def sbind_def queue_consume_def sraise_def)
  obtain seeds crd bun integ w wa u where
    runs: "build_provenance_bundle (bs_hash su) (bs_card_hash su) (bs_installation su) spec crd source (Some source) = Some bun"
      "bs_sealed su (scenario_id spec) = Some (Some seeds)"
      "bs_scorer su spec ref seeds (bd_world s) = (Inr crd, w)"
      "resample_from_bundle (bs_scorer su) bun spec ref (bs_fraction su) w = (Inr integ, wa)"
    and rank: "rank_submission su spec rq p (env_job_id env) source ref (bs_digest su (bs_dump su bun)) crd integ u = (Inr j, t)"
    and u: "bd_store u = bd_store s"
      "dict_get (bd_objects u) (bs_digest su (bs_dump su bun)) = Some (bs_dump su bun)"
    using assms
    by (simp add: evaluate_queued_def sbind_Inr queue_consume_def q Let_def run_rules case_option_Inr)
      (clarsimp split: option.splits dest!: heldout_Inr scored_Inr simp: sraise_def sbind_Inr run_rules)
  show ?thesis
    by (rule rank_submission_run[of su spec rq p "env_job_id env" source ref "bs_digest su (bs_dump su bun)" crd integ u])
      (use runs u rank q in \<open>unfold scored_entry_def, fastforce\<close>)
qed

text \<open>The worker takes the head of the queue, and nothing else of the queue.\<close>

definition same_queue :: "('o, 'w) board_service \<Rightarrow> ('o, 'w) board_service \<Rightarrow> bool" where
  "same_queue s t = (bd_queue t = bd_queue s \<and> trail_grows s t)"

interpretation worker: step_relation "same_queue :: ('o, 'w) board_service \<Rightarrow> _"
  by unfold_locales (auto simp: same_queue_def intro: trail_grows_refl trail_grows_trans)

lemma same_queue_quiet: "stays undisturbed m \<Longrightarrow> stays same_queue m"
  by (simp add: stays_def undisturbed_def same_queue_def)

lemma put_board_object_queue: "stays same_queue (put_board_object su y)"
  by (simp add: stays_def same_queue_def put_board_object_run trail_grows_def)

lemma rank_submission_queue: "stays same_queue (rank_submission su spec rq p jid source ref prov crd integ)"
  unfolding stays_def
proof
  fix s
  show "same_queue s (snd (rank_submission su spec rq p jid source ref prov crd integ s))"
    by (rule rank_submission_run[of su spec rq p jid source ref prov crd integ s])
      (auto simp: same_queue_def trail_grows_def)
qed

lemma rank_submission_step [job_steps]: "job_step su jid (rank_submission su spec rq p jid source ref prov crd integ)"
  unfolding job_step_def
proof (intro allI impI)
  fix s r t
  assume run: "rank_submission su spec rq p jid source ref prov crd integ s = (r, t)"
  show "(\<forall>j. j \<noteq> jid \<longrightarrow> get_job (bd_jobs t) j = get_job (bd_jobs s) j)
    \<and> (\<forall>c. r = Inl (Rejected c) \<longrightarrow> get_job (bd_jobs t) jid =
         Some \<lparr>job_id = jid, job_status = REJECTED, job_detail = Some (bs_say su c), job_result_id = None\<rparr>
       \<and> (\<forall>why. c \<noteq> Denied why))"
    by (rule rank_submission_run[of su spec rq p jid source ref prov crd integ s]) (simp add: run)
qed

lemma evaluate_queued_queue:
  assumes "evaluate_queued su spec rq p source ref s = (r, t)"
  shows "bd_queue t = tl (bd_queue s)" "trail_grows s t"
proof -
  obtain f where f: "evaluate_queued su spec rq p source ref =
      sbind (\<lambda>s. case queue_consume (bd_queue s) of (e, q) \<Rightarrow> (Inr e, s\<lparr>bd_queue := q\<rparr>)) f"
    and "\<And>e. stays same_queue (f e)"
    by (rule that[OF evaluate_queued_def])
      (auto simp: Let_def intro!: worker.stays_rules same_queue_quiet[OF heldout_stays] same_queue_quiet[OF intake_stays(5)]
        same_queue_quiet[OF transition_stays] put_board_object_queue rank_submission_queue split: option.split)
  moreover obtain e q where q: "queue_consume (bd_queue s) = (e, q)" "q = tl (bd_queue s)"
    by (cases "bd_queue s") (auto simp: queue_consume_def)
  ultimately have "f e (s\<lparr>bd_queue := q\<rparr>) = (r, t)" "stays same_queue (f e)"
    using assms by (simp_all add: sbind_def)
  from staysD[OF this(2,1)] show "bd_queue t = tl (bd_queue s)" "trail_grows s t"
    by (simp_all add: same_queue_def trail_grows_def q)
qed

lemma evaluate_queued_jobs:
  assumes "bd_queue s = env # q" "evaluate_queued su spec rq p source ref s = (r, t)"
  shows "\<forall>j. j \<noteq> env_job_id env \<longrightarrow> get_job (bd_jobs t) j = get_job (bd_jobs s) j"
    "r = Inl (Rejected c) \<Longrightarrow> get_job (bd_jobs t) (env_job_id env) =
      Some \<lparr>job_id = env_job_id env, job_status = REJECTED, job_detail = Some (bs_say su c), job_result_id = None\<rparr>
      \<and> (\<forall>why. c \<noteq> Denied why)"
proof -
  obtain f where f: "evaluate_queued su spec rq p source ref =
      sbind (\<lambda>s. case queue_consume (bd_queue s) of (e, q) \<Rightarrow> (Inr e, s\<lparr>bd_queue := q\<rparr>)) f"
    and step: "job_step su (env_job_id env) (f (Some env))"
    by (rule that[OF evaluate_queued_def]) (auto simp: Let_def intro!: job_steps split: option.split)
  from f assms have "f (Some env) (s\<lparr>bd_queue := q\<rparr>) = (r, t)"
    by (simp add: sbind_def queue_consume_def)
  with step show "\<forall>j. j \<noteq> env_job_id env \<longrightarrow> get_job (bd_jobs t) j = get_job (bd_jobs s) j"
    "r = Inl (Rejected c) \<Longrightarrow> get_job (bd_jobs t) (env_job_id env) =
      Some \<lparr>job_id = env_job_id env, job_status = REJECTED, job_detail = Some (bs_say su c), job_result_id = None\<rparr>
      \<and> (\<forall>why. c \<noteq> Denied why)"
    unfolding job_step_def by fastforce+
qed

text \<open>A record that no one will close: the worker is gone, the status is not a terminal one.\<close>

definition left_open :: "string \<Rightarrow> ('o, 'w) board_service \<Rightarrow> bool" where
  "left_open jid t =
    (\<exists>st \<in> {RUNNING, SCORED}. get_job (bd_jobs t) jid =
       Some \<lparr>job_id = jid, job_status = st, job_detail = None, job_result_id = None\<rparr>)"

lemma heldout_Inl:
  "heldout su spec p r (Some jid) s = (Inl e, t) \<Longrightarrow> (\<exists>c. e = Rejected c) \<or> e = HeldoutUnreadable \<and> t = s"
  by (auto simp: heldout_def refuse_job_def transition_job board_record_def sbind_def st_defs
      split: sum.splits heldout_error.splits)

lemma scored_Inl:
  assumes "scored su p r (Some jid) m s = (Inl e, t)"
  shows "(\<exists>c. e = Rejected c) \<or> (\<exists>x. e = ScorerEscaped x) \<and> (\<exists>w. t = s\<lparr>bd_world := w\<rparr>)"
proof -
  obtain y w where m: "m (bd_world s) = (y, w)"
    by force
  show ?thesis
  proof (cases y)
    case (Inr z)
    with assms m show ?thesis by (simp add: scored_def scatch_def on_board_world_def)
  next
    case (Inl x)
    with assms m show ?thesis
      by (cases x) (auto simp: scored_def scatch_def on_board_world_def sraise_def refuse_job_def transition_job
          board_record_def sbind_def st_defs)
  qed
qed

lemma rank_submission_returns: "\<exists>j t. rank_submission su spec rq p jid source ref prov crd integ s = (Inr j, t)"
  by (simp add: rank_submission_def Let_def add_to_board_def board_record_def sbind_def st_defs transition_job)

lemma evaluate_queued_escapes:
  assumes "bd_queue s = env # q" "evaluate_queued su spec rq p source ref s = (Inl e, t)" "\<And>c. e \<noteq> Rejected c"
  shows "left_open (env_job_id env) t" "e \<noteq> CompatEscaped c"
proof -
  let ?jid = "env_job_id env" and ?ref = "hr_hub_ref rq"
  let ?open = "\<lambda>st. \<lparr>job_id = ?jid, job_status = st, job_detail = None, job_result_id = None\<rparr>"
  let ?t1 = "s\<lparr>bd_queue := q, bd_jobs := dict_set (bd_jobs s) ?jid (?open RUNNING)\<rparr>"
  have "left_open ?jid t \<and> (\<forall>c. e \<noteq> CompatEscaped c)"
  proof (cases "heldout su spec p ?ref (Some ?jid) ?t1")
    case (Pair r1 t1)
    note h = this
    show ?thesis
    proof (cases r1)
      case (Inl e1)
      then have "e1 = e" "t1 = t"
        using assms(1,2) h by (simp_all add: evaluate_queued_def queue_consume_def sbind_def transition_job Let_def)
      with heldout_Inl[OF h[unfolded Inl]] assms(3) show ?thesis
        by (auto simp: left_open_def get_job_def)
    next
      case (Inr seeds)
      then have t1: "t1 = ?t1"
        using heldout_Inr h by fastforce
      obtain r2 t2 where sc: "scored su p ?ref (Some ?jid) (bs_scorer su spec ref seeds) ?t1 = (r2, t2)"
        by force
      show ?thesis
      proof (cases r2)
        case (Inl e2)
        then have "e2 = e" "t2 = t"
          using assms(1,2) h Inr t1 sc
          by (simp_all add: evaluate_queued_def queue_consume_def sbind_def transition_job Let_def)
        with scored_Inl[OF sc[unfolded Inl]] assms(3) show ?thesis
          by (auto simp: left_open_def get_job_def)
      next
        case (Inr crd)
        let ?t2 = "t2\<lparr>bd_jobs := dict_set (bd_jobs t2) ?jid (?open SCORED)\<rparr>"
        let ?bnd = "build_provenance_bundle (bs_hash su) (bs_card_hash su) (bs_installation su) spec crd source (Some source)"
        show ?thesis
        proof (cases ?bnd)
          case None
          then have "e = BundleInvalid" "t = ?t2"
            using assms(1,2) h \<open>r1 = Inr seeds\<close> t1 sc Inr
            by (simp_all add: evaluate_queued_def queue_consume_def sbind_def transition_job Let_def sraise_def)
          then show ?thesis
            by (auto simp: left_open_def get_job_def)
        next
          case (Some bnd)
          let ?o = "bs_dump su bnd"
          let ?t3 = "?t2\<lparr>bd_objects := dict_set (bd_objects ?t2) (bs_digest su ?o) ?o\<rparr>"
          obtain r4 t4 where re: "scored su p ?ref (Some ?jid)
              (resample_from_bundle (bs_scorer su) bnd spec ref (bs_fraction su)) ?t3 = (r4, t4)"
            by force
          show ?thesis
          proof (cases r4)
            case (Inl e4)
            then have "e4 = e" "t4 = t"
              using assms(1,2) h \<open>r1 = Inr seeds\<close> t1 sc Inr Some re
              by (simp_all add: evaluate_queued_def queue_consume_def sbind_def transition_job Let_def
                  put_board_object_run)
            with scored_Inl[OF re[unfolded Inl]] assms(3) show ?thesis
              by (auto simp: left_open_def get_job_def)
          next
            case (Inr integ)
            obtain j t5 where "rank_submission su spec rq p ?jid source ref (bs_digest su ?o) crd integ t4 = (Inr j, t5)"
              using rank_submission_returns by blast
            then show ?thesis
              using assms(1,2) h \<open>r1 = Inr seeds\<close> t1 sc \<open>r2 = Inr crd\<close> Some re Inr
              by (simp add: evaluate_queued_def queue_consume_def sbind_def transition_job Let_def
                  put_board_object_run)
          qed
        qed
      qed
    qed
  qed
  then show "left_open ?jid t" "e \<noteq> CompatEscaped c" by blast+
qed

section \<open>The intake\<close>

text \<open>What the intake has established of a submission before it is queued.\<close>

definition cleared ::
    "('b, 'k, 'p, 'o, 'w) bench_setup \<Rightarrow> 'b layout \<Rightarrow> scenario_spec \<Rightarrow> hub_submission_request \<Rightarrow> principal
      \<Rightarrow> ('o, 'w) board_service \<Rightarrow> string \<Rightarrow> string \<Rightarrow> bool" where
  "cleared su lay spec rq p s dg ref =
    (allow (fst (decide_policy su (authorization_request p SUBMISSION_CREATE_HUB (hr_hub_ref rq)
        (Some (scenario_id spec)) (bd_limiter s)) (bd_world s)))
     \<and> rate_observed (bd_limiter s) (identity p) < rl_limit (bd_limiter s)
     \<and> (\<exists>d. hub_resolve (bs_codec su) lay (hr_hub_ref rq) = Inr d \<and> digest d = dg)
     \<and> verify (bs_codec su) lay dg = Inr ()
     \<and> (\<exists>now. hub_verify (bs_crypto su) (bs_documents su) (bs_codec su) lay dg (att_trusted (bs_attestation su)) now
          (att_required (bs_attestation su)) = Inr ())
     \<and> (\<exists>raw m. read_config (bs_codec su) lay dg = Inr raw \<and> bs_parse su raw = Some m \<and> bs_schema su m
          \<and> check_semantics m = (Inr () :: unit registry_error + unit) \<and> pm_kind m = POLICY
          \<and> list_all (\<lambda>(n, required). \<exists>v. dict_get (pm_core_interfaces m) n = Some v
               \<and> check_compatible required v = Inr True) (core_interface spec)
          \<and> dict_get (pm_attributes m) ''entrypoint'' = Some (JStr ref) \<and> ref \<noteq> []))"

lemma unsatisfied_interface_None:
  "unsatisfied_interface provided ifs = Inr None \<longleftrightarrow>
    list_all (\<lambda>(n, required). \<exists>v. dict_get provided n = Some v \<and> check_compatible required v = Inr True) ifs"
  by (induction provided ifs rule: unsatisfied_interface.induct)
    (auto simp: rbind_def split: option.splits sum.splits)

lemma load_plugin_manifest_Inr:
  "load_plugin_manifest parse schema raw = Inr m \<longleftrightarrow>
    parse raw = Some m \<and> schema m \<and> check_semantics m = (Inr () :: unit registry_error + unit)"
  by (auto simp: load_plugin_manifest_def validate_manifest_def rbind_Inr split: option.splits if_splits)

lemma resolve_submission_Inr:
  assumes "resolve_submission cd parse schema lay reference = Inr rv"
  shows "\<exists>d. hub_resolve cd lay reference = Inr d \<and> digest d = rv_manifest_digest rv"
    "verify cd lay (rv_manifest_digest rv) = Inr ()"
    "\<exists>raw. read_config cd lay (rv_manifest_digest rv) = Inr raw \<and> parse raw = Some (rv_manifest rv)
      \<and> schema (rv_manifest rv) \<and> check_semantics (rv_manifest rv) = (Inr () :: unit registry_error + unit)"
  using assms by (auto simp: resolve_submission_def rbind_Inr load_plugin_manifest_Inr)

lemma refuse_job_Inr: "refuse_job su act p r jid det c s \<noteq> (Inr x, t)"
  by (auto simp: refuse_job_def sbind_def st_defs board_record_def split: prod.splits sum.splits option.splits)

lemma authorize_run:
  assumes "authorize su p act r sc s = (x, t)"
  shows "(if allow (fst (decide_policy su (authorization_request p act r sc (bd_limiter s)) (bd_world s)))
      then x = Inr () else \<exists>why. x = Inl (Rejected (Denied why)))"
    "bd_jobs t = bd_jobs s" "bd_limiter t = bd_limiter s"
    "\<exists>ev. bd_audit t = bd_audit s @ [ev] \<and> ae_subject ev = Some (pr_subject p) \<and> ae_resource ev = r
      \<and> ae_decision ev = (if allow (fst (decide_policy su (authorization_request p act r sc (bd_limiter s)) (bd_world s)))
          then AD_ALLOW else AD_DENY)"
  using assms
  by (auto simp: authorize_def sbind_def st_defs board_record_def mem_record_def make_audit_event_def
      split: prod.splits if_splits)

lemma intake_Inr:
  "resolve_step su lay jid p rq s = (Inr rv, t) \<Longrightarrow>
    resolve_submission (bs_codec su) (bs_parse su) (bs_schema su) lay (hr_hub_ref rq) = Inr rv \<and> t = s"
  "verify_attestations su lay jid p rq dg s = (Inr (), t) \<Longrightarrow> bd_jobs t = bd_jobs s
    \<and> (\<exists>now. hub_verify (bs_crypto su) (bs_documents su) (bs_codec su) lay dg (att_trusted (bs_attestation su)) now
          (att_required (bs_attestation su)) = Inr ())"
  "validate_interface su jid p rq rv spec s = (Inr (), t) \<Longrightarrow> validate_submission_manifest rv spec = Inr None \<and> t = s"
  "policy_ref_step su jid p rq rv s = (Inr ref, t) \<Longrightarrow> submission_policy_ref rv = Inr ref \<and> t = s"
  by (auto simp: resolve_step_def verify_attestations_def validate_interface_def policy_ref_step_def sret_def sraise_def
      refuse_job_Inr verify_submission_attestations_def rbind_Inr board_record_def smodify_def
      split: sum.splits option.splits)

lemma hub_rate_limit_Inr: "hub_rate_limit su jid p res s = (Inr (), t) \<Longrightarrow>
    rate_observed (bd_limiter s) (identity p) < rl_limit (bd_limiter s) \<and> bd_jobs t = bd_jobs s"
  by (auto simp: hub_rate_limit_def scatch_def sbind_def st_defs transition_job dest!: rate_limit_run
      split: prod.splits sum.splits service_error.splits if_splits)

lemma validated_policy: "validate_submission_manifest rv spec = Inr None \<longleftrightarrow>
    pm_kind (rv_manifest rv) = POLICY
    \<and> list_all (\<lambda>(n, required). \<exists>v. dict_get (pm_core_interfaces (rv_manifest rv)) n = Some v
        \<and> check_compatible required v = Inr True) (core_interface spec)"
  by (auto simp: validate_submission_manifest_def rbind_Inr unsatisfied_interface_None)

lemma submission_policy_ref_Inr: "submission_policy_ref rv = Inr ref \<longleftrightarrow>
    dict_get (pm_attributes (rv_manifest rv)) ''entrypoint'' = Some (JStr ref) \<and> ref \<noteq> []"
  by (auto simp: submission_policy_ref_def split: option.splits json.splits if_splits)

text \<open>
  What a raised error leaves of the job: a denial by the policy leaves the records as they were, every
  other refusal a rejected record with its text. An exception that is not a refusal closes nothing: a
  malformed interface version escapes before there is a record, and what escapes from the worker
  leaves the record \<^verbatim>\<open>running\<close> or \<^verbatim>\<open>scored\<close> for ever.
\<close>

definition refusal_recorded ::
    "('b, 'k, 'p, 'o, 'w) bench_setup \<Rightarrow> string \<Rightarrow> ('o, 'w) board_service \<Rightarrow> service_error \<Rightarrow> ('o, 'w) board_service \<Rightarrow> bool" where
  "refusal_recorded su jid s e t =
    (case e of
       Rejected c \<Rightarrow>
         if (\<exists>why. c = Denied why) then bd_jobs t = bd_jobs s
         else get_job (bd_jobs t) jid =
           Some \<lparr>job_id = jid, job_status = REJECTED, job_detail = Some (bs_say su c), job_result_id = None\<rparr>
     | CompatEscaped _ \<Rightarrow> bd_jobs t = bd_jobs s
     | _ \<Rightarrow> left_open jid t)"

definition only_refuses :: "('o, 'w, 'a) service \<Rightarrow> bool" where
  "only_refuses m = (\<forall>s e t. m s = (Inl e, t) \<longrightarrow> (\<exists>c. e = Rejected c))"

lemma refuse_job_Inl: "refuse_job su act p r jid det c s = (Inl e, t) \<Longrightarrow> e = Rejected c"
  by (auto simp: refuse_job_def sbind_def st_defs board_record_def transition_job split: option.splits)

lemma intake_refuses:
  "only_refuses (hub_rate_limit su jid p res)"
  "only_refuses (resolve_step su lay jid p rq)"
  "only_refuses (verify_attestations su lay jid p rq dg)"
  "only_refuses (policy_ref_step su jid p rq rv)"
proof -
  show "only_refuses (hub_rate_limit su jid p res)"
    by (auto simp: only_refuses_def hub_rate_limit_def scatch_def sbind_def st_defs transition_job
        dest!: rate_limit_run split: prod.splits sum.splits service_error.splits if_splits)
  show "only_refuses (resolve_step su lay jid p rq)" "only_refuses (policy_ref_step su jid p rq rv)"
    by (auto simp: only_refuses_def resolve_step_def policy_ref_step_def sret_def split: sum.splits dest: refuse_job_Inl)
  show "only_refuses (verify_attestations su lay jid p rq dg)"
    by (auto simp: only_refuses_def verify_attestations_def sread_def board_record_def smodify_def sbind_def
        split: sum.splits dest: refuse_job_Inl)
qed

lemma job_step_recorded:
  "job_step su jid m \<Longrightarrow> only_refuses m \<Longrightarrow> \<forall>e t. m v = (Inl e, t) \<longrightarrow> refusal_recorded su jid s e t"
  unfolding job_step_def only_refuses_def refusal_recorded_def by fastforce

lemma validate_interface_recorded:
  assumes "bd_jobs v = bd_jobs s"
  shows "\<forall>e t. validate_interface su jid p rq rv spec v = (Inl e, t) \<longrightarrow> refusal_recorded su jid s e t"
proof (intro allI impI)
  fix e t assume run: "validate_interface su jid p rq rv spec v = (Inl e, t)"
  show "refusal_recorded su jid s e t"
  proof (cases "validate_submission_manifest rv spec")
    case (Inl c)
    with run assms show ?thesis
      by (auto simp: validate_interface_def sraise_def refusal_recorded_def)
  next
    case (Inr c)
    with run have "\<exists>x. e = Rejected x"
      by (auto simp: validate_interface_def sret_def split: option.splits dest: refuse_job_Inl)
    with run intake_step(3)[of su jid p rq rv spec] show ?thesis
      unfolding job_step_def refusal_recorded_def by fastforce
  qed
qed

lemma authorize_recorded: "\<forall>e t. authorize su p act r sc s = (Inl e, t) \<longrightarrow> refusal_recorded su jid s e t"
  using authorize_run(1,2)[of su p act r sc s "Inl _"] by (fastforce simp: refusal_recorded_def split: if_splits)

lemma quiet_bind:
  assumes "sbind m f v = (r, t)" "stays undisturbed m" "undisturbed s v"
    and "\<forall>e t. m v = (Inl e, t) \<longrightarrow> refusal_recorded su jid s e t"
    and "\<not> (\<exists>e. r = Inl e \<and> undisturbed s t \<and> refusal_recorded su jid s e t)"
  shows "\<exists>x u. m v = (Inr x, u) \<and> undisturbed s u \<and> f x u = (r, t)"
proof -
  obtain y u where m: "m v = (y, u)"
    by force
  have "undisturbed s u"
    using quiet.R_trans[OF assms(3) staysD[OF assms(2) m]] .
  with assms(1,4,5) m show ?thesis
    by (cases y) (auto simp: sbind_def)
qed

lemma submit_hub_cases:
  assumes "submit_hub su spec rq p s = (r, t)" "bs_registry su = Some lay"
  shows "(\<exists>e. r = Inl e \<and> undisturbed s t \<and> refusal_recorded su (ticket su rq p) s e t)
    \<or> (\<exists>dg ref u env. cleared su lay spec rq p s dg ref \<and> evaluate_queued su spec rq p dg ref u = (r, t)
        \<and> bd_store u = bd_store s \<and> bd_objects u = bd_objects s \<and> trail_grows s u
        \<and> bd_queue u = bd_queue s @ [env] \<and> env_job_id env = ticket su rq p
        \<and> bd_jobs u = dict_set (bd_jobs s) (ticket su rq p)
            \<lparr>job_id = ticket su rq p, job_status = QUEUED, job_detail = None, job_result_id = None\<rparr>)"
    (is "?stopped \<or> ?queued")
proof (cases ?stopped)
  case False
  let ?jid = "ticket su rq p" and ?ref = "hr_hub_ref rq"
  let ?env = "\<lambda>h. \<lparr>env_job_id = ?jid, env_scenario_id = scenario_id spec, env_reference = ?ref,
    env_subject = identity p, env_headers = h\<rparr>"
  let ?k6 = "\<lambda>rv policy_ref. sbind (sread (\<lambda>s. bs_inject su (bd_world s))) (\<lambda>h. sbind (publish_envelope (?env h)) (\<lambda>_.
    sbind (transition ?jid QUEUED None None) (\<lambda>_. evaluate_queued su spec rq p (rv_manifest_digest rv) policy_ref)))"
  let ?k5 = "\<lambda>rv _. sbind (policy_ref_step su ?jid p rq rv) (?k6 rv)"
  let ?k4 = "\<lambda>rv _. sbind (validate_interface su ?jid p rq rv spec) (?k5 rv)"
  let ?k3 = "\<lambda>rv. sbind (verify_attestations su lay ?jid p rq (rv_manifest_digest rv)) (?k4 rv)"
  let ?k2 = "\<lambda>_. sbind (resolve_step su lay ?jid p rq) ?k3"
  let ?k1 = "\<lambda>_. sbind (hub_rate_limit su ?jid p ?ref) ?k2"
  have "sbind (authorize su p SUBMISSION_CREATE_HUB ?ref (Some (scenario_id spec))) ?k1 s = (r, t)"
    using assms by (simp add: submit_hub_def Let_def)
  from quiet_bind[OF this authorize_stays quiet.R_refl authorize_recorded False] obtain u1 where
    1: "authorize su p SUBMISSION_CREATE_HUB ?ref (Some (scenario_id spec)) s = (Inr (), u1)"
      "undisturbed s u1" "sbind (hub_rate_limit su ?jid p ?ref) ?k2 u1 = (r, t)"
    by auto
  from quiet_bind[OF 1(3) intake_stays(6) 1(2) job_step_recorded[OF hub_rate_limit_step intake_refuses(1)] False] obtain u2 where
    2: "hub_rate_limit su ?jid p ?ref u1 = (Inr (), u2)" "undisturbed s u2"
      "sbind (resolve_step su lay ?jid p rq) ?k3 u2 = (r, t)"
    by auto
  from quiet_bind[OF 2(3) intake_stays(1) 2(2) job_step_recorded[OF intake_step(1) intake_refuses(2)] False] obtain rv u3 where
    3: "resolve_step su lay ?jid p rq u2 = (Inr rv, u3)" "undisturbed s u3"
      "sbind (verify_attestations su lay ?jid p rq (rv_manifest_digest rv)) (?k4 rv) u3 = (r, t)"
    by auto
  from quiet_bind[OF 3(3) intake_stays(2) 3(2) job_step_recorded[OF intake_step(2) intake_refuses(3)] False] obtain u4 where
    4: "verify_attestations su lay ?jid p rq (rv_manifest_digest rv) u3 = (Inr (), u4)" "undisturbed s u4"
      "sbind (validate_interface su ?jid p rq rv spec) (?k5 rv) u4 = (r, t)"
    by auto
  have "bd_jobs u4 = bd_jobs s"
    using authorize_run(2)[OF 1(1)] hub_rate_limit_Inr[OF 2(1)] intake_Inr(1)[OF 3(1)] intake_Inr(2)[OF 4(1)] by simp
  from quiet_bind[OF 4(3) intake_stays(3) 4(2) validate_interface_recorded[OF this] False] obtain u5 where
    5: "validate_interface su ?jid p rq rv spec u4 = (Inr (), u5)" "undisturbed s u5"
      "sbind (policy_ref_step su ?jid p rq rv) (?k6 rv) u5 = (r, t)"
    by auto
  from quiet_bind[OF 5(3) intake_stays(4) 5(2) job_step_recorded[OF intake_step(4) intake_refuses(4)] False] obtain ref u6 where
    6: "policy_ref_step su ?jid p rq rv u5 = (Inr ref, u6)" "undisturbed s u6" "?k6 rv ref u6 = (r, t)"
    by auto
  have jobs: "bd_jobs u6 = bd_jobs s"
    using authorize_run(2)[OF 1(1)] hub_rate_limit_Inr[OF 2(1)] intake_Inr(1)[OF 3(1)] intake_Inr(2)[OF 4(1)]
      intake_Inr(3)[OF 5(1)] intake_Inr(4)[OF 6(1)] by simp
  have "rate_observed (bd_limiter s) (identity p) < rl_limit (bd_limiter s)"
    using hub_rate_limit_Inr[OF 2(1)] authorize_run(3)[OF 1(1)] by simp
  moreover have "allow (fst (decide_policy su (authorization_request p SUBMISSION_CREATE_HUB ?ref
        (Some (scenario_id spec)) (bd_limiter s)) (bd_world s)))"
    using authorize_run(1)[OF 1(1)] by (simp split: if_splits)
  ultimately have "cleared su lay spec rq p s (rv_manifest_digest rv) ref"
    using resolve_submission_Inr[OF conjunct1[OF intake_Inr(1)[OF 3(1)]]] intake_Inr(2)[OF 4(1)]
      intake_Inr(3)[OF 5(1)] intake_Inr(4)[OF 6(1)]
    unfolding cleared_def validated_policy submission_policy_ref_Inr by blast
  moreover let ?u = "u6\<lparr>bd_queue := bd_queue u6 @ [?env (bs_inject su (bd_world u6))],
      bd_jobs := dict_set (bd_jobs u6) ?jid
        \<lparr>job_id = ?jid, job_status = QUEUED, job_detail = None, job_result_id = None\<rparr>\<rparr>"
  have "evaluate_queued su spec rq p (rv_manifest_digest rv) ref ?u = (r, t)"
    using 6(3) by (simp add: publish_envelope_def transition_job sbind_def st_defs queue_publish_def)
  moreover have "bd_store ?u = bd_store s" "bd_objects ?u = bd_objects s" "trail_grows s ?u"
    "bd_queue ?u = bd_queue s @ [?env (bs_inject su (bd_world u6))]"
    using 6(2) by (simp_all add: undisturbed_def trail_grows_def)
  ultimately show ?thesis
    using jobs by (intro disjI2 exI[of _ "rv_manifest_digest rv"] exI[of _ ref] exI[of _ ?u]
        exI[of _ "?env (bs_inject su (bd_world u6))"]) simp
qed blast

section \<open>The other operations\<close>

lemma objects_kept: "mem_intact dg obs \<Longrightarrow> mem_get dg obs h = Inr (Some b) \<Longrightarrow>
    \<exists>c. mem_get dg (dict_set obs (dg y) y) h = Inr (Some c)"
  by (auto simp: mem_get_def verify_object_def split: option.splits if_splits)

lemma mem_intact_put: "mem_intact dg obs \<Longrightarrow> mem_intact dg (dict_set obs (dg y) y)"
  by (auto simp: mem_intact_def list_all_iff dest: dict_set_entry)

lemma quiet_go:
  assumes "sbind m f v = (r, t)" "stays undisturbed m" "undisturbed s v" "\<not> ((\<exists>e. r = Inl e) \<and> undisturbed s t)"
  shows "\<exists>x u. m v = (Inr x, u) \<and> undisturbed s u \<and> f x u = (r, t)"
proof -
  obtain y u where m: "m v = (y, u)"
    by force
  have "undisturbed s u"
    using quiet.R_trans[OF assms(3) staysD[OF assms(2) m]] .
  with assms(1,4) m show ?thesis
    by (cases y) (auto simp: sbind_def)
qed

lemma policy_ref_stays [quiet_steps]:
  "stays undisturbed (case validate_policy_ref ref of Some r \<Rightarrow> sret r
     | None \<Rightarrow> refuse_job su act p ref None [] (BadPolicyRef ref))"
  by (auto split: option.split intro: quiet.stays_pure refuse_job_stays)

lemma submit_local_cases:
  assumes "submit_local su spec rq p s = (r, t)"
  shows "(\<exists>e. r = Inl e) \<and> undisturbed s t
    \<or> (\<exists>x es ev. r = Inr x \<and> bd_store t = mem_add_submission x (bd_store s) \<and> bd_objects t = bd_objects s
        \<and> bd_queue t = bd_queue s \<and> bd_audit t = bd_audit s @ es @ [ev] \<and> ae_submission_id ev = Some (sub_id x)
        \<and> ae_subject ev = Some (pr_subject p) \<and> sub_provenance_hash x = None \<and> sub_trace_hash x = None
        \<and> allow (fst (decide_policy su (authorization_request p SUBMISSION_CREATE (sr_policy_ref rq)
            (Some (scenario_id spec)) (bd_limiter s)) (bd_world s))))"
    (is "?stopped \<or> ?ran")
proof (cases ?stopped)
  case False
  let ?ref = "sr_policy_ref rq"
  let ?k5 = "\<lambda>(crd, integ). let x = build_submission (bs_hash su) (bs_card_hash su) rq crd integ None None in
     sbind (add_to_board x) (\<lambda>_. sbind (board_record su (action_value SUBMISSION_CREATE) (integrity_decision integ)
       (Some p) ?ref (integrity_reason integ) (Some (sub_id x)) None []) (\<lambda>_. sret x))"
  let ?k4 = "\<lambda>policy_ref seeds. sbind (scored su p ?ref None (evaluate (bs_scorer su) spec policy_ref seeds 1)) ?k5"
  let ?k3 = "\<lambda>policy_ref. sbind (heldout su spec p ?ref None) (?k4 policy_ref)"
  let ?v = "case validate_policy_ref ?ref of Some r \<Rightarrow> sret r
     | None \<Rightarrow> refuse_job su (action_value SUBMISSION_CREATE) p ?ref None [] (BadPolicyRef ?ref)"
  let ?k2 = "\<lambda>_. sbind ?v ?k3"
  let ?k1 = "\<lambda>_. sbind (rate_limit su p ?ref) ?k2"
  have "sbind (authorize su p SUBMISSION_CREATE ?ref (Some (scenario_id spec))) ?k1 s = (r, t)"
    using assms unfolding submit_local_def Let_def .
  from quiet_go[OF this authorize_stays quiet.R_refl False] obtain u1 where
    1: "authorize su p SUBMISSION_CREATE ?ref (Some (scenario_id spec)) s = (Inr (), u1)" "undisturbed s u1"
      "?k1 () u1 = (r, t)"
    by auto
  from quiet_go[OF 1(3) rate_limit_stays 1(2) False] obtain u2 where 2: "undisturbed s u2" "?k2 () u2 = (r, t)"
    by auto
  from quiet_go[OF 2(2) policy_ref_stays 2(1) False] obtain pr u3 where 3: "undisturbed s u3" "?k3 pr u3 = (r, t)"
    by auto
  from quiet_go[OF 3(2) heldout_stays 3(1) False] obtain seeds u4 where 4: "undisturbed s u4" "?k4 pr seeds u4 = (r, t)"
    by auto
  from quiet_go[OF 4(2) intake_stays(5) 4(1) False] obtain crd integ u5 where
    5: "undisturbed s u5" "?k5 (crd, integ) u5 = (r, t)"
    by auto
  let ?x = "build_submission (bs_hash su) (bs_card_hash su) rq crd integ None None"
  have "r = Inr ?x \<and> bd_store t = mem_add_submission ?x (bd_store u5) \<and> bd_objects t = bd_objects u5
      \<and> bd_queue t = bd_queue u5 \<and> (\<exists>ev. bd_audit t = bd_audit u5 @ [ev] \<and> ae_submission_id ev = Some (sub_id ?x)
          \<and> ae_subject ev = Some (pr_subject p))"
    using 5(2)
    by (auto simp: sbind_def run_rules board_record_def smodify_def mem_record_def make_audit_event_def sret_def Let_def)
  moreover have "allow (fst (decide_policy su (authorization_request p SUBMISSION_CREATE ?ref
            (Some (scenario_id spec)) (bd_limiter s)) (bd_world s)))"
    using authorize_run(1)[OF 1(1)] by (simp split: if_splits)
  moreover obtain es where "bd_audit u5 = bd_audit s @ es"
    using 5(1) by (auto simp: undisturbed_def trail_grows_def)
  ultimately have ?ran
    using 5(1) by (auto simp: undisturbed_def build_submission_def)
  then show ?thesis by blast
qed blast

lemma retract_cases:
  assumes "retract su sid p s = (r, t)"
  shows "(\<exists>e. r = Inl e) \<and> undisturbed s t
    \<or> (\<exists>x. r = Inr x \<and> mem_get_submission (bd_store s) sid = Some x
        \<and> allow (fst (decide_policy su (authorization_request p RANKING_MUTATE sid (Some (sub_scenario_id x))
            (bd_limiter s)) (bd_world s)))
        \<and> bd_store t = mem_remove_submission sid (bd_store s) \<and> bd_objects t = bd_objects s
        \<and> bd_queue t = bd_queue s \<and> trail_grows s t
        \<and> ae_submission_id (last (bd_audit t)) = Some sid \<and> ae_subject (last (bd_audit t)) = Some (pr_subject p))"
proof (cases "mem_get_submission (bd_store s) sid")
  case None
  with assms show ?thesis
    by (auto simp: retract_def sraise_def quiet.R_refl)
next
  case (Some x)
  let ?k = "\<lambda>_. sbind (smodify (\<lambda>s. s\<lparr>bd_store := mem_remove_submission sid (bd_store s)\<rparr>)) (\<lambda>_.
          sbind (board_record su ''submission:retract'' AD_ALLOW (Some p) sid ''entry retracted from the board''
            (Some sid) None []) (\<lambda>_. sret x))"
  have run: "sbind (authorize su p RANKING_MUTATE sid (Some (sub_scenario_id x))) ?k s = (r, t)"
    using assms Some by (simp add: retract_def)
  obtain y u where u: "authorize su p RANKING_MUTATE sid (Some (sub_scenario_id x)) s = (y, u)"
    by force
  note quiet = staysD[OF authorize_stays u]
  show ?thesis
  proof (cases y)
    case (Inl e)
    with run u quiet show ?thesis by (auto simp: sbind_def)
  next
    case (Inr v)
    have "?k v u = (r, t)"
      using run u Inr by (simp add: sbind_def)
    then have "r = Inr x \<and> bd_store t = mem_remove_submission sid (bd_store u) \<and> bd_objects t = bd_objects u
        \<and> bd_queue t = bd_queue u \<and> (\<exists>ev. bd_audit t = bd_audit u @ [ev] \<and> ae_submission_id ev = Some sid
            \<and> ae_subject ev = Some (pr_subject p))"
      by (auto simp: sbind_def board_record_def smodify_def mem_record_def make_audit_event_def sret_def)
    moreover have "allow (fst (decide_policy su (authorization_request p RANKING_MUTATE sid (Some (sub_scenario_id x))
            (bd_limiter s)) (bd_world s)))"
      using authorize_run(1)[OF u] Inr by (simp split: if_splits)
    ultimately show ?thesis
      using quiet Some by (auto simp: undisturbed_def trail_grows_def)
  qed
qed

lemma attach_replay_cases:
  "attach_replay su sid mcap s =
    (case mem_get_submission (bd_store s) sid of
       None \<Rightarrow> (Inl (NoSuchSubmission sid), s)
     | Some x \<Rightarrow>
         (Inr (x\<lparr>sub_trace_hash := Some (bs_digest su mcap)\<rparr>),
          s\<lparr>bd_objects := dict_set (bd_objects s) (bs_digest su mcap) mcap,
            bd_store := mem_add_submission (x\<lparr>sub_trace_hash := Some (bs_digest su mcap)\<rparr>) (bd_store s)\<rparr>))"
  by (simp add: attach_replay_def sbind_def run_rules st_defs Let_def split: option.split)

section \<open>Every call of the service\<close>

inductive service_step :: "('b, 'k, 'p, 'o, 'w) bench_setup \<Rightarrow> ('o, 'w) board_service \<Rightarrow> ('o, 'w) board_service \<Rightarrow> bool"
  for su where
  authenticating: "authenticate su header s = (r1, t) \<Longrightarrow> service_step su s t"
| submitting: "submit_local su spec rq p s = (r2, t) \<Longrightarrow> service_step su s t"
| submitting_hub: "submit_hub su spec hrq p s = (r3, t) \<Longrightarrow> service_step su s t"
| replaying: "attach_replay su sid mcap s = (r2, t) \<Longrightarrow> service_step su s t"
| retracting: "retract su sid p s = (r2, t) \<Longrightarrow> service_step su s t"

text \<open>
  What holds between calls: the board is keyed by the entries' ids, the objects hash to their keys, no
  envelope is left, every entry is named by an event of the trail, and the bundle and the replay that an
  entry refers to can be fetched.
\<close>

definition retrievable :: "('b, 'k, 'p, 'o, 'w) bench_setup \<Rightarrow> ('o, 'w) board_service \<Rightarrow> string option \<Rightarrow> bool" where
  "retrievable su s h =
    (case h of None \<Rightarrow> True | Some d \<Rightarrow> \<exists>b. mem_get (bs_digest su) (bd_objects s) d = Inr (Some b))"

definition on_trail :: "('o, 'w) board_service \<Rightarrow> string \<Rightarrow> bool" where
  "on_trail s i = list_ex (\<lambda>ev. ae_submission_id ev = Some i) (bd_audit s)"

definition accounted :: "('b, 'k, 'p, 'o, 'w) bench_setup \<Rightarrow> ('o, 'w) board_service \<Rightarrow> bool" where
  "accounted su s =
    (mem_store_ok (bd_store s) \<and> mem_intact (bs_digest su) (bd_objects s) \<and> bd_queue s = []
     \<and> (\<forall>i x. mem_get_submission (bd_store s) i = Some x \<longrightarrow>
          on_trail s i \<and> retrievable su s (sub_provenance_hash x) \<and> retrievable su s (sub_trace_hash x)))"

lemma on_trail_grows: "on_trail s i \<Longrightarrow> trail_grows s t \<Longrightarrow> on_trail t i"
  by (auto simp: on_trail_def trail_grows_def)

lemma on_trail_last: "ae_submission_id (last (bd_audit t)) = Some i \<Longrightarrow> bd_audit t \<noteq> [] \<Longrightarrow> on_trail t i"
  by (auto simp: on_trail_def list_ex_iff intro!: bexI[of _ "last (bd_audit t)"])

text \<open>Objects are only added, and an added one replaces at most one that hashes to the same key.\<close>

definition keeps_objects ::
    "('b, 'k, 'p, 'o, 'w) bench_setup \<Rightarrow> ('o, 'w) board_service \<Rightarrow> ('o, 'w) board_service \<Rightarrow> bool" where
  "keeps_objects su s t =
    (mem_intact (bs_digest su) (bd_objects s) \<longrightarrow>
      mem_intact (bs_digest su) (bd_objects t) \<and> (\<forall>h. retrievable su s h \<longrightarrow> retrievable su t h))"

interpretation objects: step_relation "keeps_objects su" for su :: "('b, 'k, 'p, 'o, 'w) bench_setup"
  by unfold_locales (auto simp: keeps_objects_def)

lemma keeps_objects_same: "bd_objects t = bd_objects s \<Longrightarrow> keeps_objects su s t"
  by (simp add: keeps_objects_def retrievable_def split: option.split)

lemma keeps_objects_quiet: "stays undisturbed m \<Longrightarrow> stays (keeps_objects su) m"
  by (simp add: stays_def undisturbed_def keeps_objects_same)

lemma retrievable_put:
  assumes "mem_intact (bs_digest su) (bd_objects s)" "bd_objects t = dict_set (bd_objects s) (bs_digest su y) y"
  shows "retrievable su s h \<Longrightarrow> retrievable su t h" "retrievable su t (Some (bs_digest su y))"
  using assms objects_kept[OF assms(1)]
  by (auto simp: retrievable_def mem_get_def verify_object_def split: option.splits if_splits)

lemma keeps_objects_put: "bd_objects t = dict_set (bd_objects s) (bs_digest su y) y \<Longrightarrow> keeps_objects su s t"
  using retrievable_put(1)[of su s t y] by (auto simp: keeps_objects_def mem_intact_put)

lemma put_board_object_keeps: "stays (keeps_objects su) (put_board_object su y)"
  by (auto simp: stays_def put_board_object_run intro: keeps_objects_put)

lemma rank_submission_keeps: "stays (keeps_objects su) (rank_submission su spec rq p jid source ref prov crd integ)"
  unfolding stays_def
proof
  fix s
  show "keeps_objects su s (snd (rank_submission su spec rq p jid source ref prov crd integ s))"
    by (rule rank_submission_run[of su spec rq p jid source ref prov crd integ s]) (simp add: keeps_objects_same)
qed

lemma evaluate_queued_keeps: "stays (keeps_objects su) (evaluate_queued su spec rq p source ref)"
proof -
  have "stays (keeps_objects su) (\<lambda>s. case queue_consume (bd_queue s) of (e, q) \<Rightarrow> (Inr e, s\<lparr>bd_queue := q\<rparr>))"
    by (auto simp: stays_def keeps_objects_same split: prod.splits)
  then show ?thesis
    unfolding evaluate_queued_def
    by (rule objects.stays_bind)
      (auto simp: Let_def intro!: objects.stays_rules keeps_objects_quiet[OF heldout_stays] keeps_objects_quiet[OF intake_stays(5)]
        keeps_objects_quiet[OF transition_stays] put_board_object_keeps rank_submission_keeps split: option.split)
qed

lemma accounted_add:
  assumes "accounted su s" "bd_store t = mem_add_submission x (bd_store s)" "bd_queue t = []" "trail_grows s t"
    and "keeps_objects su s t" "on_trail t (sub_id x)"
    and "retrievable su t (sub_provenance_hash x)" "retrievable su t (sub_trace_hash x)"
  shows "accounted su t"
proof -
  have ok: "mem_store_ok (bd_store s)" "mem_intact (bs_digest su) (bd_objects s)"
    using assms(1) by (simp_all add: accounted_def)
  show ?thesis
    unfolding accounted_def
  proof (intro conjI allI impI)
    show "mem_store_ok (bd_store t)"
      using mem.ok_add[OF ok(1)] assms(2) by simp
    fix i y
    assume "mem_get_submission (bd_store t) i = Some y"
    then have "(i = sub_id x \<and> y = x) \<or> mem_get_submission (bd_store s) i = Some y"
      using mem.get_add[OF ok(1)] assms(2) by (auto split: if_splits)
    then show "on_trail t i" "retrievable su t (sub_provenance_hash y)" "retrievable su t (sub_trace_hash y)"
      using assms(1,4-8) ok(2) on_trail_grows unfolding accounted_def keeps_objects_def by metis+
  qed (use assms ok in \<open>auto simp: keeps_objects_def\<close>)
qed

lemma accounted_store_same:
  assumes "accounted su s" "bd_store t = bd_store s" "bd_queue t = []" "trail_grows s t" "keeps_objects su s t"
  shows "accounted su t"
  using assms on_trail_grows[OF _ assms(4)] by (simp add: accounted_def keeps_objects_def)

lemma accounted_undisturbed: "accounted su s \<Longrightarrow> undisturbed s t \<Longrightarrow> accounted su t"
  by (rule accounted_store_same) (auto simp: undisturbed_def accounted_def keeps_objects_same)

lemma submit_hub_accounted:
  assumes "submit_hub su spec rq p s = (r, t)" "accounted su s"
  shows "accounted su t"
proof (cases "bs_registry su")
  case None
  with assms show ?thesis by (simp add: submit_hub_def sraise_def)
next
  case (Some lay)
  have q: "bd_queue s = []" and ok: "mem_intact (bs_digest su) (bd_objects s)"
    using assms(2) by (simp_all add: accounted_def)
  from submit_hub_cases[OF assms(1) Some] show ?thesis
  proof (elim disjE exE conjE)
    fix e assume "undisturbed s t"
    with assms(2) show ?thesis by (rule accounted_undisturbed)
  next
    fix dg ref u env
    assume u: "evaluate_queued su spec rq p dg ref u = (r, t)" "bd_store u = bd_store s" "bd_objects u = bd_objects s"
      "trail_grows s u" "bd_queue u = bd_queue s @ [env]"
    have queue: "bd_queue t = []" and grows: "trail_grows s t"
      using evaluate_queued_queue[OF u(1)] u(4,5) q by (auto intro: trail_grows_trans)
    have keeps: "keeps_objects su s t"
      using keeps_objects_same[OF u(3)] staysD[OF evaluate_queued_keeps u(1)] by (rule objects.R_trans)
    show ?thesis
    proof (cases r)
      case (Inl e)
      with u(1,2) evaluate_queued_fails have "bd_store t = bd_store s"
        by (metis fails_clean_def same_entries_def)
      from accounted_store_same[OF assms(2) this queue grows keeps] show ?thesis .
    next
      case (Inr j)
      from evaluate_queued_runs[OF u(1)[unfolded Inr]] u(2) obtain x where
        x: "scored_entry su spec rq dg ref x t" "bd_store t = mem_add_submission x (bd_store s)"
          "ae_submission_id (last (bd_audit t)) = Some (sub_id x)" "bd_audit t \<noteq> []"
        by auto
      from x(1) have "retrievable su t (sub_provenance_hash x)" "retrievable su t (sub_trace_hash x)"
        by (auto simp: scored_entry_def build_submission_def retrievable_def mem_get_def verify_object_def)
      with accounted_add[OF assms(2) x(2) queue grows keeps on_trail_last[OF x(3,4)]] show ?thesis .
    qed
  qed
qed

lemma service_step_accounted: "service_step su s t \<Longrightarrow> accounted su s \<Longrightarrow> accounted su t"
proof (induction rule: service_step.induct)
  case (authenticating header s r1 t)
  then show ?case using accounted_undisturbed staysD[OF authenticate_stays] by blast
next
  case (submitting_hub spec hrq p s r3 t)
  then show ?case by (rule submit_hub_accounted)
next
  case (submitting spec rq p s r2 t)
  from submit_local_cases[OF submitting(1)] show ?case
  proof (elim disjE exE conjE)
    assume "undisturbed s t"
    with submitting(2) show ?case by (rule accounted_undisturbed)
  next
    fix x es ev
    assume x: "bd_store t = mem_add_submission x (bd_store s)" "bd_objects t = bd_objects s" "bd_queue t = bd_queue s"
      "bd_audit t = bd_audit s @ es @ [ev]" "ae_submission_id ev = Some (sub_id x)"
      "sub_provenance_hash x = None" "sub_trace_hash x = None"
    show ?case
      by (rule accounted_add[OF submitting(2) x(1)])
        (use submitting(2) x in \<open>auto simp: accounted_def trail_grows_def keeps_objects_same on_trail_def retrievable_def\<close>)
  qed
next
  case (replaying sid mcap s r2 t)
  show ?case
  proof (cases "mem_get_submission (bd_store s) sid")
    case None
    with replaying show ?thesis by (simp add: attach_replay_cases)
  next
    case (Some x)
    let ?y = "x\<lparr>sub_trace_hash := Some (bs_digest su mcap)\<rparr>"
    have t: "bd_store t = mem_add_submission ?y (bd_store s)" "bd_queue t = bd_queue s" "bd_audit t = bd_audit s"
      "bd_objects t = dict_set (bd_objects s) (bs_digest su mcap) mcap"
      using replaying(1) Some by (auto simp: attach_replay_cases)
    have "sub_id x = sid"
      using mem.get_id[OF _ Some] replaying(2) by (simp add: accounted_def)
    moreover have "retrievable su t (Some (bs_digest su mcap))"
      by (rule retrievable_put(2)[OF _ t(4)]) (use replaying(2) in \<open>simp add: accounted_def\<close>)
    ultimately show ?thesis
      using replaying(2) t Some keeps_objects_put[OF t(4)]
      by (intro accounted_add[OF replaying(2) t(1)])
        (auto simp: accounted_def trail_grows_def keeps_objects_def on_trail_def)
  qed
next
  case (retracting sid p s r2 t)
  from retract_cases[OF retracting(1)] show ?case
  proof (elim disjE exE conjE)
    assume "undisturbed s t"
    with retracting(2) show ?case by (rule accounted_undisturbed)
  next
    fix x
    assume t: "bd_store t = mem_remove_submission sid (bd_store s)" "bd_objects t = bd_objects s" "bd_queue t = bd_queue s"
      "trail_grows s t"
    have ok: "mem_store_ok (bd_store s)"
      using retracting(2) by (simp add: accounted_def)
    have same: "retrievable su t h = retrievable su s h" for h
      by (cases h) (simp_all add: retrievable_def t(2))
    show ?case
      using retracting(2) t mem.ok_remove[OF ok] mem.get_remove[OF ok] on_trail_grows[OF _ t(4)]
      by (auto simp: accounted_def same split: if_splits)
  qed
qed

section \<open>Properties\<close>

text \<open>
  C20: Nothing enters the board through the Hub unverified. A Hub submission either leaves every entry of
  the board as it was, or adds exactly one: an entry the policy engine and the rate limit admitted, whose
  manifest, config and layers hash to their addresses, whose signature, provenance and bill of
  materials verify, whose manifest is a policy of the scenario's interface, which was run on the sealed
  seeds and whose provenance bundle is stored. The trail only grows, and its last event names the entry
  and the submitter.
\<close>

theorem hub_board_admits_only_cleared:
  assumes "submit_hub su spec rq p s = (r, t)"
  shows "trail_grows s t
    \<and> (bd_store t = bd_store s
       \<or> (\<exists>lay dg ref x. bs_registry su = Some lay \<and> cleared su lay spec rq p s dg ref
            \<and> scored_entry su spec rq dg ref x t \<and> bd_store t = mem_add_submission x (bd_store s)
            \<and> ae_submission_id (last (bd_audit t)) = Some (sub_id x)
            \<and> ae_subject (last (bd_audit t)) = Some (pr_subject p)))"
proof (cases "bs_registry su")
  case None
  with assms show ?thesis by (simp add: submit_hub_def sraise_def trail_grows_refl)
next
  case (Some lay)
  from submit_hub_cases[OF assms Some] show ?thesis
  proof (elim disjE exE conjE)
    fix e assume "undisturbed s t"
    then show ?thesis by (simp add: undisturbed_def)
  next
    fix dg ref u env
    assume u: "cleared su lay spec rq p s dg ref" "evaluate_queued su spec rq p dg ref u = (r, t)"
      "bd_store u = bd_store s" "trail_grows s u"
    have grows: "trail_grows s t"
      using u(4) evaluate_queued_queue(2)[OF u(2)] by (rule trail_grows_trans)
    show ?thesis
    proof (cases r)
      case (Inl e)
      with u(2,3) evaluate_queued_fails have "bd_store t = bd_store s"
        by (metis fails_clean_def same_entries_def)
      with grows show ?thesis by simp
    next
      case (Inr j)
      with evaluate_queued_runs[of su spec rq p dg ref u j t] u Some grows show ?thesis
        by metis
    qed
  qed
qed

text \<open>
  C22: What becomes of a job. On an empty queue and with a registry configured, a Hub submission leaves
  the queue empty and, under the client's ticket: when it returns, the returned record, which is ranked
  exactly for an entry of verified integrity and names an entry that is on the board; when it is
  refused for anything but the policy's denial, a rejected record with the text of the refusal; when
  the policy denies it, or a malformed interface version escapes, the records as they were; and when
  any other exception escapes, which can only be one of the worker, a record that stays running or
  scored without a result: that last outcome is the one that is not terminal.
\<close>

theorem hub_job_reaches_terminal:
  assumes "submit_hub su spec rq p s = (r, t)" "bd_queue s = []" "bs_registry su \<noteq> None"
  shows "bd_queue t = []
    \<and> (case r of
         Inl e \<Rightarrow> refusal_recorded su (ticket su rq p) s e t
       | Inr j \<Rightarrow> get_job (bd_jobs t) (ticket su rq p) = Some j \<and> job_id j = ticket su rq p
           \<and> (\<exists>x. mem_get_submission (bd_store t) (sub_id x) = Some x \<and> job_result_id j = Some (sub_id x)
                \<and> job_status j = (if sub_integrity x = VERIFIED then RANKED else STATUS_FLAGGED)))"
proof -
  obtain lay where "bs_registry su = Some lay"
    using assms(3) by auto
  from submit_hub_cases[OF assms(1) this] show ?thesis
  proof (elim disjE exE conjE)
    fix e assume "r = Inl e" "undisturbed s t" "refusal_recorded su (ticket su rq p) s e t"
    then show ?thesis by (simp add: undisturbed_def assms(2))
  next
    fix dg ref u env
    assume u: "evaluate_queued su spec rq p dg ref u = (r, t)" "bd_queue u = bd_queue s @ [env]"
      "env_job_id env = ticket su rq p"
    then have q: "bd_queue u = env # []"
      using assms(2) by simp
    have "bd_queue t = []"
      using evaluate_queued_queue(1)[OF u(1)] q by simp
    moreover have "refusal_recorded su (ticket su rq p) s e t" if "r = Inl e" for e
    proof (cases "\<exists>c. e = Rejected c")
      case True
      then show ?thesis
        using evaluate_queued_jobs(2)[OF q u(1)] that u(3) by (auto simp: refusal_recorded_def)
    next
      case False
      then have "left_open (ticket su rq p) t" "\<And>c. e \<noteq> CompatEscaped c"
        using evaluate_queued_escapes[OF q u(1)[unfolded that]] u(3) by auto
      with False show ?thesis
        by (cases e) (auto simp: refusal_recorded_def)
    qed
    moreover have "get_job (bd_jobs t) (ticket su rq p) = Some j \<and> job_id j = ticket su rq p
        \<and> (\<exists>x. mem_get_submission (bd_store t) (sub_id x) = Some x \<and> job_result_id j = Some (sub_id x)
            \<and> job_status j = (if sub_integrity x = VERIFIED then RANKED else STATUS_FLAGGED))" if r: "r = Inr j" for j
    proof -
      obtain x where x: "bd_store t = mem_add_submission x (bd_store u)" "j = result_record (env_job_id env) x"
        "get_job (bd_jobs t) (env_job_id env) = Some j"
        using evaluate_queued_runs[OF u(1)[unfolded r]] q by auto
      then have "mem_get_submission (bd_store t) (sub_id x) = Some x"
        by (simp add: mem_get_submission_def mem_add_submission_def)
      with x show ?thesis
        by (auto simp: u(3) result_record_def)
    qed
    ultimately show ?thesis
      by (cases r; simp only: sum.case; blast)
  qed
qed

text \<open>
  C40: A backlog crosses jobs. When the queue already holds an envelope, the worker takes that one: the entry
  of this request is reported under the other job, and this request's own ticket stays queued behind
  the backlog with its envelope.
\<close>

theorem backlog_crosses_jobs:
  assumes "submit_hub su spec rq p s = (Inr j, t)" "bd_queue s = env # q" "env_job_id env \<noteq> ticket su rq p"
  shows "job_id j = env_job_id env \<and> get_job (bd_jobs t) (env_job_id env) = Some j
    \<and> (\<exists>own. bd_queue t = q @ [own] \<and> env_job_id own = ticket su rq p)
    \<and> map_option job_status (get_job (bd_jobs t) (ticket su rq p)) = Some QUEUED"
proof -
  obtain lay where lay: "bs_registry su = Some lay"
    using assms(1) by (cases "bs_registry su") (auto simp: submit_hub_def sraise_def)
  from submit_hub_cases[OF assms(1) lay] obtain dg ref u own where
    u: "evaluate_queued su spec rq p dg ref u = (Inr j, t)" "bd_queue u = env # q @ [own]"
      "env_job_id own = ticket su rq p"
      "bd_jobs u = dict_set (bd_jobs s) (ticket su rq p)
        \<lparr>job_id = ticket su rq p, job_status = QUEUED, job_detail = None, job_result_id = None\<rparr>"
    using assms(2) by auto
  have "bd_queue t = q @ [own]"
    using evaluate_queued_queue(1)[OF u(1)] u(2) by simp
  moreover have "get_job (bd_jobs t) (ticket su rq p) = get_job (bd_jobs u) (ticket su rq p)"
    using evaluate_queued_jobs(1)[OF u(2,1)] assms(3) by simp
  moreover obtain x where "j = result_record (env_job_id env) x" "get_job (bd_jobs t) (env_job_id env) = Some j"
    using evaluate_queued_runs[OF u(1)] u(2) by auto
  ultimately show ?thesis
    using u(3,4) by (auto simp: get_job_def result_record_def)
qed

text \<open>
  C21: Every entry is accounted for. From an empty board, after any
  sequence of calls of the service, whatever they return or raise: the board is keyed by the ids of its
  entries, no envelope is left in the queue, every entry is named by an event of the audit trail, and
  the provenance bundle and the replay that an entry refers to can be fetched and hash to their
  address.
\<close>

theorem every_entry_accounted:
  assumes "rtranclp (service_step su) s t" "bd_store s = []" "bd_objects s = []" "bd_queue s = []"
  shows "accounted su t"
  using assms(1)
proof (induction rule: rtranclp_induct)
  case base
  then show ?case
    using assms(2-4) by (simp add: accounted_def mem_store_ok_def mem_intact_def mem_get_submission_def)
next
  case (step t u)
  then show ?case by (blast intro: service_step_accounted)
qed

text \<open>
  A retraction needs the grant. Retracting either leaves the board as it was and raises, or the policy
  engine allowed this principal to mutate the ranking of this entry; then exactly that entry is gone
  and the trail ends with the retraction and its principal.
\<close>

lemma retraction_needs_grant:
  assumes "retract su sid p s = (r, t)" "mem_store_ok (bd_store s)"
  shows "trail_grows s t
    \<and> ((\<exists>e. r = Inl e) \<and> bd_store t = bd_store s
       \<or> (\<exists>x. r = Inr x \<and> allow (fst (decide_policy su
              (authorization_request p RANKING_MUTATE sid (Some (sub_scenario_id x)) (bd_limiter s)) (bd_world s)))
            \<and> (\<forall>i. mem_get_submission (bd_store t) i = (if i = sid then None else mem_get_submission (bd_store s) i))
            \<and> ae_submission_id (last (bd_audit t)) = Some sid
            \<and> ae_subject (last (bd_audit t)) = Some (pr_subject p)))"
  using retract_cases[OF assms(1)] mem.get_remove[OF assms(2)] by (auto simp: undisturbed_def)

text \<open>
  A replay is attached by anybody. Attaching a replay rewrites the entry and stores the bytes, but asks
  for no principal, asks no policy and leaves no event on the trail.
\<close>

lemma replay_unaudited:
  assumes "attach_replay su sid mcap s = (Inr y, t)" "mem_store_ok (bd_store s)"
  shows "bd_audit t = bd_audit s \<and> mem_get_submission (bd_store t) sid = Some y
    \<and> sub_trace_hash y = Some (bs_digest su mcap) \<and> get_replay su t sid = Inr (Some mcap)"
  using assms mem.get_id[OF assms(2)]
  by (auto simp: attach_replay_cases mem_get_submission_def mem_add_submission_def get_replay_def mem_get_def
      verify_object_def split: option.splits)

section \<open>A complete instance\<close>

text \<open>A policy published on the hub with a bill of materials, and a deployment that asks for one.\<close>

definition demo_policy_manifest :: plugin_manifest where
  "demo_policy_manifest = demo_manifest\<lparr>pm_core_interfaces := [(''env'', ''0.1.0''), (''messages'', ''0.1.0'')],
     pm_attributes := [(''entrypoint'', JStr ''pkg:policy'')]\<rparr>"

definition demo_policy_layout :: "demo_bytes layout" where
  "demo_policy_layout = snd (sbind (publish demo_hub_codec ''lawnmower'' ''1.0.0'' ''policy''
       \<lparr>blob_media = ''c'', blob_data = DJson (JObj [(''name'', JStr ''lawnmower'')])\<rparr> [] [])
     (\<lambda>pa. attach demo_hub_codec (pa_digest pa) ARTIFACT_TYPE_SBOM
       \<lparr>blob_media = ''c'', blob_data = DJson (JObj [(''bomFormat'', JStr ''CycloneDX'')])\<rparr> [])
     \<lparr>blobs = [], index = []\<rparr>)"

definition demo_parse :: "demo_bytes \<Rightarrow> plugin_manifest option" where
  "demo_parse b = (case b of DJson (JObj ((k, _) # _)) \<Rightarrow> if k = ''name'' then Some demo_policy_manifest else None | _ \<Rightarrow> None)"

lemma demo_hub_resolved:
  "resolve_submission demo_hub_codec demo_parse (\<lambda>_. True) demo_policy_layout ''lawnmower:1.0.0''
    = Inr \<lparr>rv_reference = ''lawnmower:1.0.0'', rv_manifest_digest = ''sha256:m36'', rv_manifest = demo_policy_manifest,
        rv_layer_digests = []\<rparr>"
  by code_simp

lemma demo_hub_attested:
  "hub_verify demo_crypto demo_hub_documents demo_hub_codec demo_policy_layout ''sha256:m36'' None 0 [''sbom''] = Inr ()"
  by code_simp

definition demo_card :: "int list \<Rightarrow> scorecard" where
  "demo_card seeds =
    \<lparr>card_scenario_id = Some ''polar-ice'', card_runner = ''fixture/0.1.0'',
       card_metrics = [\<lparr>as_metric = ''water'', as_version = ''0.1.0'', as_unit = ''kg'', as_direction = HIGHER_BETTER,
         as_aggregation = AGG_MEAN, as_value = Some 1, as_dispersion = None, as_n = length seeds, as_seeds = seeds,
         as_per_seed = map (\<lambda>_. Some 1) seeds\<rparr>]\<rparr>"

definition demo_scorer :: "nat scorer" where
  "demo_scorer spec ref seeds w = (Inr (demo_card seeds), Suc w)"

definition demo_key :: "json \<Rightarrow> string" where
  "demo_key j = (case j of JObj ((k, _) # _) \<Rightarrow> k | _ \<Rightarrow> [])"

definition demo_installation :: installation where
  "demo_installation = \<lparr>in_schema_digest = ''d'', in_code_version = ''0.1.0'', in_lockfile_digest = ''l'', in_environment = JNull\<rparr>"

definition demo_bench :: "(demo_bytes, string, string, provenance_bundle, nat) bench_setup" where
  "demo_bench =
    \<lparr>bs_registry = Some demo_policy_layout, bs_codec = demo_hub_codec, bs_parse = demo_parse, bs_schema = (\<lambda>_. True),
     bs_crypto = demo_crypto, bs_documents = demo_hub_documents,
     bs_attestation = \<lparr>att_required = [''sbom''], att_trusted = None\<rparr>, bs_authn = None,
     bs_engine = RbacPolicyEngine (rbac_init None None []), bs_opa_post = (\<lambda>u j w. (Inl [], w)), bs_show_json = demo_key,
     bs_scorer = demo_scorer, bs_fraction = 1, bs_sealed = (\<lambda>_. Some (Some [7, 8])),
     bs_installation = demo_installation, bs_hash = demo_key, bs_card_hash = card_runner,
     bs_digest = (\<lambda>b. pb_scorecard_hash b), bs_dump = (\<lambda>b. b), bs_load = Some, bs_say = (\<lambda>_. ''refused''),
     bs_clock = (\<lambda>_. ''2030-01-01''), bs_now = (\<lambda>_. 0), bs_trace = (\<lambda>_. None), bs_inject = (\<lambda>_. [])\<rparr>"

definition demo_board :: "submission_envelope list \<Rightarrow> (provenance_bundle, nat) board_service" where
  "demo_board q = \<lparr>bd_store = [], bd_objects = [], bd_jobs = [], bd_queue = q,
     bd_limiter = \<lparr>rl_limit = 60, rl_counts = []\<rparr>, bd_audit = [], bd_world = 0\<rparr>"

definition demo_hub_request :: hub_submission_request where
  "demo_hub_request = \<lparr>hr_scenario_id = ''polar-ice'', hr_hub_ref = ''lawnmower:1.0.0'', hr_method = None, hr_author = None\<rparr>"

lemma demo_bench_simps [simp]:
  "bs_registry demo_bench = Some demo_policy_layout" "bs_codec demo_bench = demo_hub_codec" "bs_parse demo_bench = demo_parse"
  "bs_schema demo_bench = (\<lambda>_. True)" "bs_crypto demo_bench = demo_crypto" "bs_documents demo_bench = demo_hub_documents"
  "bs_attestation demo_bench = \<lparr>att_required = [''sbom''], att_trusted = None\<rparr>"
  "bs_scorer demo_bench = demo_scorer" "bs_fraction demo_bench = 1" "bs_sealed demo_bench = (\<lambda>_. Some (Some [7, 8]))"
  "bs_installation demo_bench = demo_installation" "bs_hash demo_bench = demo_key" "bs_card_hash demo_bench = card_runner"
  "bs_dump demo_bench = (\<lambda>b. b)" "bs_now demo_bench = (\<lambda>_. 0)" "bs_inject demo_bench = (\<lambda>_. [])"
  by (simp_all add: demo_bench_def)

definition demo_backlog :: submission_envelope where
  "demo_backlog = \<lparr>env_job_id = ''other'', env_scenario_id = ''polar-ice'', env_reference = ''other:1.0.0'',
     env_subject = ''other'', env_headers = []\<rparr>"

lemma demo_allowed:
  obtains d where "allow d" "decide_policy demo_bench (authorization_request demo_principal SUBMISSION_CREATE_HUB
      ''lawnmower:1.0.0'' (Some ''polar-ice'') \<lparr>rl_limit = 60, rl_counts = []\<rparr>) w = (d, w)"
proof -
  let ?rq = "authorization_request demo_principal SUBMISSION_CREATE_HUB ''lawnmower:1.0.0'' (Some ''polar-ice'')
    \<lparr>rl_limit = 60, rl_counts = []\<rparr>"
  have "allow (rbac_evaluate (rbac_init None None []) ?rq)"
    by code_simp
  then show thesis
    by (rule that) (simp add: decide_policy_def policy_evaluate_def demo_bench_def)
qed

lemma demo_interfaces: "unsatisfied_interface [(''env'', ''0.1.0''), (''messages'', ''0.1.0'')] (core_interface demo_scenario) = Inr None"
  by code_simp

lemma demo_ticket: "ticket demo_bench demo_hub_request demo_principal = ''hub_ref''"
  by (simp add: ticket_def demo_key_def)

lemma demo_bundle:
  assumes "src \<noteq> []"
  obtains b where "build_provenance_bundle demo_key card_runner demo_installation demo_scenario (demo_card [7, 8]) src (Some src) = Some b"
    "resample_from_bundle demo_scorer b demo_scenario ref 1 w = (Inr VERIFIED, Suc w)"
proof -
  have v: "values_by_seed (demo_card [7, 8]) = [(7, [(''water'', Some 1)]), (8, [(''water'', Some 1)])]"
    by (simp_all add: values_by_seed_def demo_card_def get_default_def)
  obtain b where b: "build_provenance_bundle demo_key card_runner demo_installation demo_scenario (demo_card [7, 8]) src (Some src) = Some b"
    "pb_seeds b = [7, 8]" "pb_per_seed b = [\<lparr>sd_seed = 7, sd_metrics = [(''water'', Some 1)]\<rparr>, \<lparr>sd_seed = 8, sd_metrics = [(''water'', Some 1)]\<rparr>]"
    using assms by (simp add: build_provenance_bundle_def v Let_def demo_scenario_def get_default_def)
  moreover have "resample_from_bundle demo_scorer b demo_scenario ref 1 w = (Inr VERIFIED, Suc w)"
    by (simp add: resample_from_bundle_def b Let_def demo_scorer_def sbind_def sret_def v same_values_def)
  ultimately show thesis using that by blast
qed

lemma demo_worker:
  assumes "bd_queue s \<noteq> []" "src \<noteq> []"
  shows "\<exists>j t. evaluate_queued demo_bench demo_scenario rq p src ''pkg:policy'' s = (Inr j, t) \<and> bd_store t \<noteq> []"
proof -
  obtain e q where q: "bd_queue s = e # q"
    using assms(1) by (cases "bd_queue s") auto
  obtain b where b: "build_provenance_bundle demo_key card_runner demo_installation demo_scenario (demo_card [7, 8]) src (Some src) = Some b"
    "resample_from_bundle demo_scorer b demo_scenario ''pkg:policy'' 1 (Suc (bd_world s)) = (Inr VERIFIED, Suc (Suc (bd_world s)))"
    by (rule demo_bundle[OF assms(2)])
  let ?u = "s\<lparr>bd_queue := q,
      bd_jobs := dict_set (bd_jobs s) (env_job_id e)
        \<lparr>job_id = env_job_id e, job_status = SCORED, job_detail = None, job_result_id = None\<rparr>,
      bd_objects := dict_set (bd_objects s) (bs_digest demo_bench b) b, bd_world := Suc (Suc (bd_world s))\<rparr>"
  have "evaluate_queued demo_bench demo_scenario rq p src ''pkg:policy'' s =
      rank_submission demo_bench demo_scenario rq p (env_job_id e) src ''pkg:policy'' (bs_digest demo_bench b)
        (demo_card [7, 8]) VERIFIED ?u"
    by (simp add: evaluate_queued_def sbind_def queue_consume_def q Let_def transition_job heldout_def load_heldout_seeds_def
     sret_def scored_def scatch_def on_board_world_def demo_scorer_def b put_board_object_run)
  moreover obtain x t where "rank_submission demo_bench demo_scenario rq p (env_job_id e) src ''pkg:policy''
      (bs_digest demo_bench b) (demo_card [7, 8]) VERIFIED ?u = (Inr (result_record (env_job_id e) x), t)"
    "bd_store t = mem_add_submission x (bd_store ?u)"
    by (rule rank_submission_run)
  moreover have "mem_add_submission x (bd_store ?u) \<noteq> []"
    by (simp add: mem_add_submission_def update_nonempty)
  ultimately show ?thesis
    by auto
qed

lemma demo_hub_run: "\<exists>j t. submit_hub demo_bench demo_scenario demo_hub_request demo_principal (demo_board q) = (Inr j, t)
    \<and> bd_store t \<noteq> []"
proof -
  obtain d where d: "allow d" "decide_policy demo_bench (authorization_request demo_principal SUBMISSION_CREATE_HUB
      ''lawnmower:1.0.0'' (Some ''polar-ice'') \<lparr>rl_limit = 60, rl_counts = []\<rparr>) 0 = (d, 0)"
    by (rule demo_allowed)
  have sid: "scenario_id demo_scenario = ''polar-ice''"
    by (simp add: demo_scenario_def)
  have m: "pm_kind demo_policy_manifest = POLICY" "pm_core_interfaces demo_policy_manifest = [(''env'', ''0.1.0''), (''messages'', ''0.1.0'')]"
    "pm_attributes demo_policy_manifest = [(''entrypoint'', JStr ''pkg:policy'')]"
    by (simp_all add: demo_policy_manifest_def demo_manifest_def)
  show ?thesis
    by (simp add: submit_hub_def Let_def sbind_def authorize_def demo_board_def demo_hub_request_def sid d board_record_def smodify_def mem_record_def
      hub_rate_limit_def rate_limit_def scatch_def rate_check_cases rate_observed_def sret_def get_default_def
      resolve_step_def demo_hub_resolved verify_attestations_def verify_submission_attestations_def demo_hub_attested sread_def
      validate_interface_def validate_submission_manifest_def m demo_interfaces policy_ref_step_def submission_policy_ref_def
      publish_envelope_def queue_publish_def transition_job)
      (rule demo_worker, simp_all)
qed
theorem hub_board_admits_only_cleared_witness:
  "\<exists>j t x ref. submit_hub demo_bench demo_scenario demo_hub_request demo_principal (demo_board []) = (Inr j, t)
    \<and> mem_get_submission (bd_store t) (sub_id x) = Some x \<and> sub_source x = Some ''sha256:m36''
    \<and> cleared demo_bench demo_policy_layout demo_scenario demo_hub_request demo_principal (demo_board []) ''sha256:m36'' ref"
proof -
  obtain j t where run: "submit_hub demo_bench demo_scenario demo_hub_request demo_principal (demo_board []) = (Inr j, t)"
    "bd_store t \<noteq> []"
    using demo_hub_run by blast
  then obtain dg ref x where x: "cleared demo_bench demo_policy_layout demo_scenario demo_hub_request demo_principal (demo_board []) dg ref"
    "scored_entry demo_bench demo_scenario demo_hub_request dg ref x t" "bd_store t = mem_add_submission x (bd_store (demo_board []))"
    using hub_board_admits_only_cleared[OF run(1)] by (auto simp: demo_board_def)
  have "dg = ''sha256:m36''"
    using x(1) resolve_submission_Inr(1)[OF demo_hub_resolved] by (auto simp: cleared_def demo_hub_request_def)
  then show ?thesis
    using run x by (auto simp: scored_entry_def build_submission_def mem_get_submission_def mem_add_submission_def)
qed

theorem hub_job_reaches_terminal_witness:
  "\<exists>j t x. submit_hub demo_bench demo_scenario demo_hub_request demo_principal (demo_board []) = (Inr j, t)
    \<and> get_job (bd_jobs t) ''hub_ref'' = Some j \<and> mem_get_submission (bd_store t) (sub_id x) = Some x
    \<and> job_result_id j = Some (sub_id x)"
proof -
  obtain j t where run: "submit_hub demo_bench demo_scenario demo_hub_request demo_principal (demo_board []) = (Inr j, t)"
    using demo_hub_run by blast
  then show ?thesis
    using hub_job_reaches_terminal[OF run] by (auto simp: demo_board_def demo_ticket)
qed

theorem backlog_crosses_jobs_witness:
  "\<exists>j t. submit_hub demo_bench demo_scenario demo_hub_request demo_principal (demo_board [demo_backlog]) = (Inr j, t)
    \<and> job_id j = ''other'' \<and> map_option job_status (get_job (bd_jobs t) ''hub_ref'') = Some QUEUED"
proof -
  obtain j t where run: "submit_hub demo_bench demo_scenario demo_hub_request demo_principal (demo_board [demo_backlog]) = (Inr j, t)"
    using demo_hub_run by blast
  have "bd_queue (demo_board [demo_backlog]) = demo_backlog # []" "env_job_id demo_backlog \<noteq> ticket demo_bench demo_hub_request demo_principal"
    by (simp_all add: demo_board_def demo_backlog_def demo_ticket)
  from backlog_crosses_jobs[OF run this] run show ?thesis
    by (auto simp: demo_backlog_def demo_ticket)
qed

theorem every_entry_accounted_witness:
  "\<exists>j t. submit_hub demo_bench demo_scenario demo_hub_request demo_principal (demo_board []) = (Inr j, t) \<and> accounted demo_bench t"
proof -
  obtain j t where run: "submit_hub demo_bench demo_scenario demo_hub_request demo_principal (demo_board []) = (Inr j, t)"
    using demo_hub_run by blast
  then have "rtranclp (service_step demo_bench) (demo_board []) t"
    by (blast intro: service_step.submitting_hub)
  from every_entry_accounted[OF this] run show ?thesis
    by (auto simp: demo_board_def)
qed

end
