(* ===== verification/Guard_Spec.thy ===== *)
theory Guard_Spec
  imports Complex_Main Mind_Model
begin

text \<open>
  The safety contract of the guard component: the \<^verbatim>\<open>SafetySpec\<close> model
  (\<^verbatim>\<open>guard/spec/model.py\<close>, \<^verbatim>\<open>enums.py\<close>), the fail-safe checks of its loader
  (\<^verbatim>\<open>guard/spec/loader.py\<close>), the compiled form (\<^verbatim>\<open>guard/spec/ir.py\<close>) and the constraint compiler
  (\<^verbatim>\<open>guard/spec/compiler.py\<close>), with the proof that the compiled model means what the reviewed
  contract means. Numbers are reals; the end points of an interval may be non-finite doubles,
  which is \<open>None\<close>.
\<close>

section \<open>The contract\<close>

datatype ConstraintKind = KEEP_OUT | POWER_FLOOR | ENERGY_FLOOR | THERMAL_CEILING | THERMAL_FLOOR
  | TORQUE_CEILING | KINEMATIC_LIMIT | TEMPORAL

datatype PredicateOp = OP_LT | OP_LE | OP_GT | OP_GE

primrec predicate_op_value :: "PredicateOp \<Rightarrow> string" where
  "predicate_op_value OP_LT = ''lt''"
| "predicate_op_value OP_LE = ''le''"
| "predicate_op_value OP_GT = ''gt''"
| "predicate_op_value OP_GE = ''ge''"

datatype TemporalOp = OP_PREDICATE | OP_NOT | OP_AND | OP_OR | OP_ALWAYS | OP_EVENTUALLY | OP_UNTIL

datatype OnUncertain = FALLBACK | HOLD | SAFE_STATE

datatype SignalSource = FROM_OBSERVATION | FROM_SADF | FROM_WORLDS | FROM_DERIVED

datatype GeometryKind = BOX | SPHERE | HALF_SPACE

datatype FrameClass = BODY_FIXED | INERTIAL | TOPOCENTRIC

record reference_frame =
  frame_name :: string
  frame_class :: FrameClass
  frame_center :: "string option"

record signal_ref =
  sig_key :: string
  sig_unit :: string
  sig_source :: SignalSource

type_synonym real3 = "real \<times> real \<times> real"

text \<open>The fields \<^verbatim>\<open>lo\<close> and \<^verbatim>\<open>hi\<close> of an \<^verbatim>\<open>Interval\<close>; \<open>None\<close> is a non-finite double.\<close>

type_synonym interval = "real option \<times> real option"

record box_volume =
  box_frame :: string
  box_center :: real3
  box_dimensions :: real3
  box_frame_ref :: "reference_frame option"

record keep_out_sphere =
  sphere_frame :: string
  sphere_center :: real3
  sphere_radius :: real
  sphere_frame_ref :: "reference_frame option"

record keep_out_half_space =
  half_frame :: string
  half_normal :: real3
  half_offset :: real
  half_frame_ref :: "reference_frame option"

record keep_out_volume =
  vol_shape :: GeometryKind
  vol_box :: "box_volume option"
  vol_sphere :: "keep_out_sphere option"
  vol_half_space :: "keep_out_half_space option"

record keep_out_constraint =
  ko_volume :: keep_out_volume
  ko_margin :: real
  ko_pair :: "(string \<times> string) option"

text \<open>
  \<^verbatim>\<open>STLFormula\<close>: every node has all the fields, and the loader decides which are meaningful.
\<close>

datatype formula = Formula (f_op: TemporalOp) (f_signal: "string option") (f_cmp: "PredicateOp option")
  (f_threshold: "real option") (f_interval: "interval option") (f_args: "formula list")

text \<open>
  The five one-sided constraints (\<^verbatim>\<open>PowerFloorConstraint\<close> to \<^verbatim>\<open>TorqueCeilingConstraint\<close>) have a
  signal and a limit each.
\<close>

record scalar_limit =
  sl_signal :: string
  sl_limit :: real

record kinematic_limit =
  km_signal :: string
  km_velocity :: "real option"
  km_accel :: "real option"

record safety_constraint =
  sc_kind :: ConstraintKind
  sc_id :: string
  sc_on_uncertain :: OnUncertain
  sc_keep_out :: "keep_out_constraint option"
  sc_power_floor :: "scalar_limit option"
  sc_energy_floor :: "scalar_limit option"
  sc_thermal_ceiling :: "scalar_limit option"
  sc_thermal_floor :: "scalar_limit option"
  sc_torque_ceiling :: "scalar_limit option"
  sc_kinematic_limit :: "kinematic_limit option"
  sc_temporal :: "formula option"

record safe_pose =
  pose_frame :: string
  pose_position :: real3
  pose_frame_ref :: "reference_frame option"

record admissible_directives =
  ad_modes :: "string list"
  ad_tasks :: "TaskKind list"

text \<open>
  The description, scenario reference and provenance of a specification are only hashed.
\<close>

record safety_spec =
  ss_id :: string
  ss_name :: string
  ss_signals :: "signal_ref list"
  ss_constraints :: "safety_constraint list"
  ss_safe_pose :: "safe_pose option"
  ss_directives :: "admissible_directives option"
  ss_other :: json

primrec task_value :: "TaskKind \<Rightarrow> string" where
  "task_value GOTO = ''goto''"
| "task_value SAMPLE = ''sample''"
| "task_value EXCAVATE = ''excavate''"
| "task_value HAUL = ''haul''"
| "task_value DOCK = ''dock''"
| "task_value HOP = ''hop''"
| "task_value CHARGE = ''charge''"
| "task_value PROSPECT = ''prospect''"
| "task_value DEPLOY = ''deploy''"
| "task_value STANDBY = ''standby''"
| "task_value CUSTOM = ''custom''"

section \<open>The loader\<close>

datatype formula_fault = PredicateHasOperands | PredicateIncomplete | PredicateHasInterval
  | EmptyPredicateSignal | UndeclaredPredicateSignal string | NotAPredicate | WrongArity | TakesNoInterval
  | IntervalMissing | IntervalInfinite | IntervalDisordered

text \<open>\<^verbatim>\<open>SafetySpecValidationError\<close> and \<^verbatim>\<open>CompileError\<close>, with what each message names.\<close>

datatype safety_error =
    SchemaFailed
  | DuplicateSignals "string list"
  | EmptySignalName
  | UnitMissing string
  | DuplicateConstraints "string list"
  | PayloadNotSet string string
  | OtherPayloadsSet string "string list"
  | SignalEmpty string
  | SignalUndeclared string string
  | KinematicBoundMissing string
  | NormalZero string
  | FrameRefMismatch string string
  | BadFormula string "nat list" formula_fault
  | SafePoseFrameEmpty
  | SafePoseFrameMismatch "string list"
  | BadSamplePeriod real
  | AssertionFailedAt string

text \<open>
  \<^verbatim>\<open>_check_structural\<close>: what the JSON schema adds to the types of the model. A frame token is
  matched by the pattern \<^verbatim>\<open>^\S+$\<close>, which lets one line feed end the string.
\<close>

definition frame_token :: "string \<Rightarrow> bool" where
  "frame_token s =
    (let t = (if s \<noteq> [] \<and> last s = CHR 0x0A then butlast s else s)
     in t \<noteq> [] \<and> list_all (\<lambda>c. \<not> is_space c) t)"

definition interval_schema_ok :: "interval \<Rightarrow> bool" where
  "interval_schema_ok iv = (case iv of (lo, hi) \<Rightarrow> pred_option (\<lambda>x. 0 \<le> x) lo \<and> pred_option (\<lambda>x. 0 \<le> x) hi)"

fun formula_schema_ok :: "formula \<Rightarrow> bool" where
  "formula_schema_ok (Formula ot sn cm th iv args) =
    (pred_option interval_schema_ok iv \<and> list_all formula_schema_ok args)"

definition volume_schema_ok :: "keep_out_volume \<Rightarrow> bool" where
  "volume_schema_ok v =
    (pred_option (\<lambda>b. frame_token (box_frame b)) (vol_box v)
     \<and> pred_option (\<lambda>s. frame_token (sphere_frame s) \<and> 0 < sphere_radius s) (vol_sphere v)
     \<and> pred_option (\<lambda>h. frame_token (half_frame h)) (vol_half_space v))"

definition constraint_schema_ok :: "safety_constraint \<Rightarrow> bool" where
  "constraint_schema_ok c =
    (pred_option (\<lambda>k. volume_schema_ok (ko_volume k) \<and> 0 \<le> ko_margin k) (sc_keep_out c)
     \<and> pred_option (\<lambda>t. 0 < sl_limit t) (sc_torque_ceiling c)
     \<and> pred_option (\<lambda>k. pred_option (\<lambda>x. 0 \<le> x) (km_velocity k) \<and> pred_option (\<lambda>x. 0 \<le> x) (km_accel k))
         (sc_kinematic_limit c)
     \<and> pred_option formula_schema_ok (sc_temporal c))"

definition schema_ok :: "safety_spec \<Rightarrow> bool" where
  "schema_ok s =
    (ss_constraints s \<noteq> [] \<and> list_all constraint_schema_ok (ss_constraints s)
     \<and> pred_option (\<lambda>p. frame_token (pose_frame p)) (ss_safe_pose s))"

text \<open>\<^verbatim>\<open>_check_union_exactly_one\<close> over the fields in their declared order.\<close>

definition check_union :: "(string \<times> bool) list \<Rightarrow> string \<Rightarrow> string \<Rightarrow> safety_error + unit" where
  "check_union flds expected what =
    (let present = map fst (filter snd flds)
     in if present = [expected] then Inr ()
        else if expected \<notin> set present then Inl (PayloadNotSet what expected)
        else Inl (OtherPayloadsSet what (filter (\<lambda>f. f \<noteq> expected) present)))"

primrec kind_field :: "ConstraintKind \<Rightarrow> string" where
  "kind_field KEEP_OUT = ''keep_out''"
| "kind_field POWER_FLOOR = ''power_floor''"
| "kind_field ENERGY_FLOOR = ''energy_floor''"
| "kind_field THERMAL_CEILING = ''thermal_ceiling''"
| "kind_field THERMAL_FLOOR = ''thermal_floor''"
| "kind_field TORQUE_CEILING = ''torque_ceiling''"
| "kind_field KINEMATIC_LIMIT = ''kinematic_limit''"
| "kind_field TEMPORAL = ''temporal''"

definition union_fields :: "safety_constraint \<Rightarrow> (string \<times> bool) list" where
  "union_fields c =
    [(''keep_out'', sc_keep_out c \<noteq> None), (''power_floor'', sc_power_floor c \<noteq> None),
     (''energy_floor'', sc_energy_floor c \<noteq> None), (''thermal_ceiling'', sc_thermal_ceiling c \<noteq> None),
     (''thermal_floor'', sc_thermal_floor c \<noteq> None), (''torque_ceiling'', sc_torque_ceiling c \<noteq> None),
     (''kinematic_limit'', sc_kinematic_limit c \<noteq> None), (''temporal'', sc_temporal c \<noteq> None)]"

primrec shape_field :: "GeometryKind \<Rightarrow> string" where
  "shape_field BOX = ''box''"
| "shape_field SPHERE = ''sphere''"
| "shape_field HALF_SPACE = ''half_space''"

definition shape_fields :: "keep_out_volume \<Rightarrow> (string \<times> bool) list" where
  "shape_fields v =
    [(''box'', vol_box v \<noteq> None), (''sphere'', vol_sphere v \<noteq> None), (''half_space'', vol_half_space v \<noteq> None)]"

definition check_signal_key :: "string \<Rightarrow> string list \<Rightarrow> string \<Rightarrow> safety_error + unit" where
  "check_signal_key signal declared place =
    (if py_strip signal = [] then Inl (SignalEmpty place)
     else if signal \<notin> set declared then Inl (SignalUndeclared place signal)
     else Inr ())"

text \<open>
  \<^verbatim>\<open>_check_interval\<close>: a temporal operator carries a finite, ordered interval.
\<close>

definition check_interval :: "interval option \<Rightarrow> formula_fault option" where
  "check_interval iv =
    (case iv of
       None \<Rightarrow> Some IntervalMissing
     | Some (Some lo, Some hi) \<Rightarrow> if hi < lo then Some IntervalDisordered else None
     | Some _ \<Rightarrow> Some IntervalInfinite)"

definition check_node :: "string list \<Rightarrow> formula \<Rightarrow> formula_fault option" where
  "check_node declared f =
    (let n = length (f_args f)
     in case f_op f of
          OP_PREDICATE \<Rightarrow>
            (if f_args f \<noteq> [] then Some PredicateHasOperands
             else if f_signal f = None \<or> f_cmp f = None \<or> f_threshold f = None then Some PredicateIncomplete
             else if f_interval f \<noteq> None then Some PredicateHasInterval
             else case f_signal f of
                    None \<Rightarrow> Some PredicateIncomplete
                  | Some key \<Rightarrow>
                      if py_strip key = [] then Some EmptyPredicateSignal
                      else if key \<notin> set declared then Some (UndeclaredPredicateSignal key)
                      else None)
        | ot \<Rightarrow>
            (if f_signal f \<noteq> None \<or> f_cmp f \<noteq> None \<or> f_threshold f \<noteq> None then Some NotAPredicate
             else case ot of
                    OP_NOT \<Rightarrow> if n \<noteq> 1 then Some WrongArity
                             else if f_interval f \<noteq> None then Some TakesNoInterval else None
                  | OP_ALWAYS \<Rightarrow> if n \<noteq> 1 then Some WrongArity else check_interval (f_interval f)
                  | OP_EVENTUALLY \<Rightarrow> if n \<noteq> 1 then Some WrongArity else check_interval (f_interval f)
                  | OP_UNTIL \<Rightarrow> if n \<noteq> 2 then Some WrongArity else check_interval (f_interval f)
                  | _ \<Rightarrow> if n < 2 then Some WrongArity
                        else if f_interval f \<noteq> None then Some TakesNoInterval else None))"

text \<open>
  \<^verbatim>\<open>_check_formula\<close>: the node first, then its operands in order; the path of a fault is the
  list of operand positions from the root.
\<close>

fun check_formula :: "string list \<Rightarrow> formula \<Rightarrow> (nat list \<times> formula_fault) option"
  and check_operands :: "string list \<Rightarrow> nat \<Rightarrow> formula list \<Rightarrow> (nat list \<times> formula_fault) option" where
  "check_formula declared (Formula ot sn cm th iv args) =
    (case check_node declared (Formula ot sn cm th iv args) of
       Some fault \<Rightarrow> Some ([], fault)
     | None \<Rightarrow> check_operands declared 0 args)"
| "check_operands declared i [] = None"
| "check_operands declared i (f # fs) =
    (case check_formula declared f of
       Some (path, fault) \<Rightarrow> Some (i # path, fault)
     | None \<Rightarrow> check_operands declared (Suc i) fs)"

text \<open>\<^verbatim>\<open>_keep_out_frame_and_ref\<close>; its assertion fails on a volume with no geometry.\<close>

definition keep_out_frame_and_ref :: "keep_out_volume \<Rightarrow> safety_error + string \<times> reference_frame option" where
  "keep_out_frame_and_ref v =
    (case vol_box v of
       Some b \<Rightarrow> Inr (box_frame b, box_frame_ref b)
     | None \<Rightarrow>
         (case vol_sphere v of
            Some s \<Rightarrow> Inr (sphere_frame s, sphere_frame_ref s)
          | None \<Rightarrow>
              (case vol_half_space v of
                 Some h \<Rightarrow> Inr (half_frame h, half_frame_ref h)
               | None \<Rightarrow> Inl (AssertionFailedAt ''half_space''))))"

definition check_frame_ref :: "string \<Rightarrow> reference_frame option \<Rightarrow> string \<Rightarrow> safety_error + unit" where
  "check_frame_ref frame ref place =
    (case ref of
       None \<Rightarrow> Inr ()
     | Some r \<Rightarrow> if frame_name r \<noteq> frame then Inl (FrameRefMismatch place (frame_name r)) else Inr ())"

text \<open>The payload that a constraint of a one-sided kind names.\<close>

definition scalar_payload :: "safety_constraint \<Rightarrow> scalar_limit option" where
  "scalar_payload c =
    (case sc_kind c of
       POWER_FLOOR \<Rightarrow> sc_power_floor c
     | ENERGY_FLOOR \<Rightarrow> sc_energy_floor c
     | THERMAL_CEILING \<Rightarrow> sc_thermal_ceiling c
     | THERMAL_FLOOR \<Rightarrow> sc_thermal_floor c
     | TORQUE_CEILING \<Rightarrow> sc_torque_ceiling c
     | _ \<Rightarrow> None)"

text \<open>
  \<^verbatim>\<open>assert payload is not None\<close>: after \<^verbatim>\<open>_check_union_exactly_one\<close> the assertions hold.
\<close>

definition asserted :: "string \<Rightarrow> 'a option \<Rightarrow> ('a \<Rightarrow> safety_error + 'b) \<Rightarrow> safety_error + 'b" where
  "asserted what x f = (case x of None \<Rightarrow> Inl (AssertionFailedAt what) | Some y \<Rightarrow> f y)"

definition half_space_normal_ok :: "string \<Rightarrow> keep_out_volume \<Rightarrow> safety_error + unit" where
  "half_space_normal_ok cid v =
    (case (vol_shape v, vol_half_space v) of
       (HALF_SPACE, Some h) \<Rightarrow>
         (case half_normal h of (x, y, z) \<Rightarrow> if x ^ 2 + y ^ 2 + z ^ 2 = 0 then Inl (NormalZero cid) else Inr ())
     | _ \<Rightarrow> Inr ())"

definition check_keep_out :: "string \<Rightarrow> keep_out_constraint \<Rightarrow> safety_error + unit" where
  "check_keep_out cid k =
    (let v = ko_volume k; what = cid @ ''.keep_out.volume''
     in rbind (check_union (shape_fields v) (shape_field (vol_shape v)) what) (\<lambda>_.
        rbind (half_space_normal_ok cid v) (\<lambda>_.
        rbind (keep_out_frame_and_ref v) (\<lambda>(frame, ref).
        check_frame_ref frame ref what))))"

definition check_constraint :: "string list \<Rightarrow> safety_constraint \<Rightarrow> safety_error + unit" where
  "check_constraint declared c =
    rbind (check_union (union_fields c) (kind_field (sc_kind c)) (sc_id c)) (\<lambda>_.
      case sc_kind c of
        KEEP_OUT \<Rightarrow> asserted (sc_id c) (sc_keep_out c) (check_keep_out (sc_id c))
      | TEMPORAL \<Rightarrow>
          asserted (sc_id c) (sc_temporal c) (\<lambda>f.
            case check_formula declared f of
              Some (path, fault) \<Rightarrow> Inl (BadFormula (sc_id c) path fault)
            | None \<Rightarrow> Inr ())
      | KINEMATIC_LIMIT \<Rightarrow>
          asserted (sc_id c) (sc_kinematic_limit c) (\<lambda>k.
            rbind (check_signal_key (km_signal k) declared (sc_id c)) (\<lambda>_.
            if km_velocity k = None \<and> km_accel k = None then Inl (KinematicBoundMissing (sc_id c)) else Inr ()))
      | _ \<Rightarrow> asserted (sc_id c) (scalar_payload c) (\<lambda>p. check_signal_key (sl_signal p) declared (sc_id c)))"

fun all_checked :: "('a \<Rightarrow> 'e + unit) \<Rightarrow> 'a list \<Rightarrow> 'e + unit" where
  "all_checked f [] = Inr ()"
| "all_checked f (x # xs) = rbind (f x) (\<lambda>_. all_checked f xs)"

definition duplicates :: "string list \<Rightarrow> string list" where
  "duplicates ks = sort (remdups (filter (\<lambda>k. 1 < count_list ks k) ks))"

definition check_signal :: "signal_ref \<Rightarrow> safety_error + unit" where
  "check_signal s =
    (if py_strip (sig_key s) = [] then Inl EmptySignalName
     else if py_strip (sig_unit s) = [] then Inl (UnitMissing (sig_key s))
     else Inr ())"

definition is_keep_out :: "safety_constraint \<Rightarrow> bool" where
  "is_keep_out c = (sc_kind c = KEEP_OUT)"

definition keep_out_frames :: "safety_constraint list \<Rightarrow> string list" where
  "keep_out_frames cs = List.map_filter (\<lambda>c. case sc_keep_out c of
       None \<Rightarrow> None
     | Some k \<Rightarrow> (case keep_out_frame_and_ref (ko_volume k) of Inr (frame, _) \<Rightarrow> Some frame | Inl _ \<Rightarrow> None))
     (filter is_keep_out cs)"

definition check_safe_pose :: "safety_constraint list \<Rightarrow> safe_pose \<Rightarrow> safety_error + unit" where
  "check_safe_pose cs p =
    (if py_strip (pose_frame p) = [] then Inl SafePoseFrameEmpty
     else
       rbind (check_frame_ref (pose_frame p) (pose_frame_ref p) ''safe_pose'') (\<lambda>_.
       let mismatched = sort (remdups (filter (\<lambda>f. f \<noteq> pose_frame p) (keep_out_frames cs)))
       in if mismatched \<noteq> [] then Inl (SafePoseFrameMismatch mismatched) else Inr ()))"

definition check_contract :: "safety_spec \<Rightarrow> safety_error + unit" where
  "check_contract spec =
    (let keys = map sig_key (ss_signals spec); ids = map sc_id (ss_constraints spec)
     in if duplicates keys \<noteq> [] then Inl (DuplicateSignals (duplicates keys))
        else
          rbind (all_checked check_signal (ss_signals spec)) (\<lambda>_.
          if duplicates ids \<noteq> [] then Inl (DuplicateConstraints (duplicates ids))
          else
            rbind (all_checked (check_constraint keys) (ss_constraints spec)) (\<lambda>_.
            case ss_safe_pose spec of
              None \<Rightarrow> Inr ()
            | Some p \<Rightarrow> check_safe_pose (ss_constraints spec) p)))"

definition validate_safety_spec :: "safety_spec \<Rightarrow> safety_error + unit" where
  "validate_safety_spec spec = (if \<not> schema_ok spec then Inl SchemaFailed else check_contract spec)"

section \<open>The compiled model\<close>

record predicate_atom =
  atom_op :: PredicateOp
  atom_signal :: nat
  atom_threshold :: real

record scalar_bound =
  sb_constraint :: string
  sb_on_uncertain :: OnUncertain
  sb_atom :: nat

record keep_out_term =
  kt_constraint :: string
  kt_on_uncertain :: OnUncertain
  kt_shape :: GeometryKind
  kt_frame :: string
  kt_margin :: real
  kt_center :: "real list"
  kt_half_extents :: "real list"
  kt_radius :: "real option"
  kt_normal :: "real list"
  kt_offset :: "real option"
  kt_pair :: "(string \<times> string) option"
  kt_frame_ref :: "reference_frame option"

datatype compiled_node = CompiledNode (n_op: TemporalOp) (n_predicate: "nat option")
  (n_lo: "nat option") (n_hi: "nat option") (n_args: "compiled_node list")

record monitor_automaton =
  ma_constraint :: string
  ma_on_uncertain :: OnUncertain
  ma_root :: compiled_node
  ma_history :: nat
  ma_nodes :: nat
  ma_predicates :: "nat list"

record resource_bounds =
  rb_predicates :: nat
  rb_scalars :: nat
  rb_keep_outs :: nat
  rb_monitors :: nat
  rb_history :: nat
  rb_terms :: nat

record action_limits =
  lim_velocity :: "real option"
  lim_accel :: "real option"

record compiled_directives =
  cd_modes :: "string list"
  cd_tasks :: "string list"

record compiled_pose =
  cp_frame :: string
  cp_position :: "real list"
  cp_frame_ref :: "reference_frame option"

record compiled_model =
  cm_spec_id :: string
  cm_spec_hash :: string
  cm_period :: real
  cm_signals :: "string list"
  cm_atoms :: "predicate_atom list"
  cm_scalar_bounds :: "scalar_bound list"
  cm_keep_outs :: "keep_out_term list"
  cm_monitors :: "monitor_automaton list"
  cm_resources :: resource_bounds
  cm_limits :: action_limits
  cm_safe_pose :: "compiled_pose option"
  cm_directives :: "compiled_directives option"

section \<open>The compiler\<close>

text \<open>An atom before and after its signal key is resolved (\<^verbatim>\<open>_UnresolvedAtom\<close>, \<^verbatim>\<open>_RawAtom\<close>).\<close>

type_synonym unresolved_atom = "PredicateOp \<times> string \<times> real"
type_synonym raw_atom = "PredicateOp \<times> nat \<times> real"

definition one_sided :: "PredicateOp \<Rightarrow> scalar_limit option \<Rightarrow> safety_error + unresolved_atom list" where
  "one_sided ot p = asserted ''payload'' p (\<lambda>q. Inr [(ot, sl_signal q, sl_limit q)])"

definition scalar_atoms :: "safety_constraint \<Rightarrow> safety_error + unresolved_atom list" where
  "scalar_atoms c =
    (case sc_kind c of
       POWER_FLOOR \<Rightarrow> one_sided OP_GE (sc_power_floor c)
     | ENERGY_FLOOR \<Rightarrow> one_sided OP_GE (sc_energy_floor c)
     | THERMAL_CEILING \<Rightarrow> one_sided OP_LE (sc_thermal_ceiling c)
     | THERMAL_FLOOR \<Rightarrow> one_sided OP_GE (sc_thermal_floor c)
     | TORQUE_CEILING \<Rightarrow> one_sided OP_LE (sc_torque_ceiling c)
     | KINEMATIC_LIMIT \<Rightarrow>
         asserted ''payload'' (sc_kinematic_limit c) (\<lambda>k. Inr
           ((case km_velocity k of None \<Rightarrow> [] | Some x \<Rightarrow> [(OP_LE, km_signal k, x)])
            @ (case km_accel k of None \<Rightarrow> [] | Some x \<Rightarrow> [(OP_LE, km_signal k, x)])))
     | _ \<Rightarrow> Inr [])"

definition least :: "real list \<Rightarrow> real option" where
  "least xs = (case xs of [] \<Rightarrow> None | y # ys \<Rightarrow> Some (foldl min y ys))"

definition positive_bounds :: "(kinematic_limit \<Rightarrow> real option) \<Rightarrow> safety_constraint list \<Rightarrow> real list" where
  "positive_bounds sel cs = List.map_filter (\<lambda>c.
     if sc_kind c = KINEMATIC_LIMIT
     then (case Option.bind (sc_kinematic_limit c) sel of
             None \<Rightarrow> None
           | Some x \<Rightarrow> if 0 < x then Some x else None)
     else None) cs"

definition action_limits_of :: "safety_spec \<Rightarrow> action_limits" where
  "action_limits_of spec =
    \<lparr>lim_velocity = least (positive_bounds km_velocity (ss_constraints spec)),
     lim_accel = least (positive_bounds km_accel (ss_constraints spec))\<rparr>"

definition admissible_directives_of :: "safety_spec \<Rightarrow> compiled_directives option" where
  "admissible_directives_of spec =
    map_option (\<lambda>g. \<lparr>cd_modes = sort (remdups (ad_modes g)),
      cd_tasks = sort (remdups (map task_value (ad_tasks g)))\<rparr>) (ss_directives spec)"

text \<open>
  \<^verbatim>\<open>_formula_predicate_atoms\<close>: the atoms of the leaves, in order.
\<close>

fun formula_atoms :: "formula \<Rightarrow> unresolved_atom list" where
  "formula_atoms (Formula ot sn cm th iv args) =
    (if ot = OP_PREDICATE
     then (case (cm, sn, th) of (Some c, Some k, Some x) \<Rightarrow> [(c, k, x)] | _ \<Rightarrow> [])
     else concat (map formula_atoms args))"

definition vec_list :: "real3 \<Rightarrow> real list" where
  "vec_list v = (case v of (x, y, z) \<Rightarrow> [x, y, z])"

definition keep_out_term_of :: "safety_constraint \<Rightarrow> safety_error + keep_out_term" where
  "keep_out_term_of c =
    asserted ''keep_out'' (sc_keep_out c) (\<lambda>k.
      let v = ko_volume k;
          term = \<lparr>kt_constraint = sc_id c, kt_on_uncertain = sc_on_uncertain c, kt_shape = vol_shape v,
                  kt_frame = [], kt_margin = ko_margin k, kt_center = [], kt_half_extents = [],
                  kt_radius = None, kt_normal = [], kt_offset = None, kt_pair = ko_pair k, kt_frame_ref = None\<rparr>
      in case vol_shape v of
           BOX \<Rightarrow> asserted ''box'' (vol_box v) (\<lambda>b. Inr
             (term\<lparr>kt_frame := box_frame b, kt_frame_ref := box_frame_ref b, kt_center := vec_list (box_center b),
                   kt_half_extents := map (\<lambda>x. x / 2) (vec_list (box_dimensions b))\<rparr>))
         | SPHERE \<Rightarrow> asserted ''sphere'' (vol_sphere v) (\<lambda>s. Inr
             (term\<lparr>kt_frame := sphere_frame s, kt_frame_ref := sphere_frame_ref s,
                   kt_center := vec_list (sphere_center s), kt_radius := Some (sphere_radius s)\<rparr>))
         | HALF_SPACE \<Rightarrow> asserted ''half_space'' (vol_half_space v) (\<lambda>h.
             case half_normal h of (x, y, z) \<Rightarrow>
               (let nrm = sqrt (x ^ 2 + y ^ 2 + z ^ 2)
                in if nrm = 0 then Inl (NormalZero (sc_id c))
                   else Inr (term\<lparr>kt_frame := half_frame h, kt_frame_ref := half_frame_ref h,
                     kt_normal := [x / nrm, y / nrm, z / nrm], kt_offset := Some (half_offset h / nrm)\<rparr>))))"

text \<open>
  \<^verbatim>\<open>dict[key]\<close> over the position of a key in a list without duplicates; the length stands for a
  key that is absent, which the loader excludes.
\<close>

fun position :: "'a list \<Rightarrow> 'a \<Rightarrow> nat" where
  "position [] y = 0"
| "position (x # xs) y = (if x = y then 0 else Suc (position xs y))"

definition samples :: "real \<Rightarrow> real option \<Rightarrow> nat" where
  "samples period x = (case x of None \<Rightarrow> 0 | Some r \<Rightarrow> nat \<lceil>r / period\<rceil>)"

text \<open>\<^verbatim>\<open>_compile_node\<close>: the node, the number of nodes and the predicates it reads.\<close>

fun compile_node ::
    "string list \<Rightarrow> raw_atom list \<Rightarrow> real \<Rightarrow> formula \<Rightarrow> compiled_node \<times> nat \<times> nat list" where
  "compile_node keys atoms period (Formula ot sn cm th iv args) =
    (if ot = OP_PREDICATE
     then (case (cm, sn, th) of
             (Some c, Some k, Some x) \<Rightarrow>
               (let i = position atoms (c, position keys k, x)
                in (CompiledNode ot (Some i) None None [], 1, [i]))
           | _ \<Rightarrow> (CompiledNode ot None None None [], 1, []))
     else
       (let parts = map (compile_node keys atoms period) args;
            timed = (ot = OP_ALWAYS \<or> ot = OP_EVENTUALLY \<or> ot = OP_UNTIL);
            lo = (if timed then map_option (\<lambda>i. samples period (fst i)) iv else None);
            hi = (if timed then map_option (\<lambda>i. samples period (snd i)) iv else None)
        in (CompiledNode ot None lo hi (map fst parts),
            1 + sum_list (map (\<lambda>p. fst (snd p)) parts), concat (map (\<lambda>p. snd (snd p)) parts))))"

fun history_window :: "compiled_node \<Rightarrow> nat" where
  "history_window (CompiledNode ot p lo hi args) =
    (case hi of None \<Rightarrow> 0 | Some h \<Rightarrow> h) + sum_list (map history_window args)"

fun rmap :: "('a \<Rightarrow> 'e + 'b) \<Rightarrow> 'a list \<Rightarrow> 'e + 'b list" where
  "rmap f [] = Inr []"
| "rmap f (x # xs) = rbind (f x) (\<lambda>y. rbind (rmap f xs) (\<lambda>ys. Inr (y # ys)))"

definition resolve_atoms :: "string list \<Rightarrow> unresolved_atom list \<Rightarrow> raw_atom list" where
  "resolve_atoms keys = map (\<lambda>(ot, key, th). (ot, position keys key, th))"

definition temporal_atoms :: "safety_constraint \<Rightarrow> safety_error + unresolved_atom list" where
  "temporal_atoms c = asserted ''temporal'' (sc_temporal c) (\<lambda>f. Inr (formula_atoms f))"

definition constraint_atoms :: "string list \<Rightarrow> safety_constraint \<Rightarrow> safety_error + raw_atom list" where
  "constraint_atoms keys c =
    rbind (if sc_kind c = TEMPORAL then temporal_atoms c
           else if sc_kind c \<noteq> KEEP_OUT then scalar_atoms c else Inr [])
      (\<lambda>as. Inr (resolve_atoms keys as))"

text \<open>The canonical order of the predicate table: signal, operator name, threshold.\<close>

definition atom_key :: "raw_atom \<Rightarrow> nat \<times> string \<times> real" where
  "atom_key a = (case a of (ot, si, th) \<Rightarrow> (si, predicate_op_value ot, th))"

definition ordered_atoms :: "raw_atom list \<Rightarrow> raw_atom list" where
  "ordered_atoms raw = sort_key atom_key (remdups raw)"

definition scalar_bounds_of ::
    "string list \<Rightarrow> raw_atom list \<Rightarrow> safety_constraint \<Rightarrow> safety_error + scalar_bound list" where
  "scalar_bounds_of keys atoms c =
    (if sc_kind c = TEMPORAL \<or> sc_kind c = KEEP_OUT then Inr []
     else rbind (constraint_atoms keys c) (\<lambda>raw.
       Inr (map (\<lambda>a. \<lparr>sb_constraint = sc_id c, sb_on_uncertain = sc_on_uncertain c,
                       sb_atom = position atoms a\<rparr>) raw)))"

definition monitor_of ::
    "string list \<Rightarrow> raw_atom list \<Rightarrow> real \<Rightarrow> safety_constraint \<Rightarrow> safety_error + monitor_automaton" where
  "monitor_of keys atoms period c =
    asserted ''temporal'' (sc_temporal c) (\<lambda>f.
      case compile_node keys atoms period f of
        (node, n, preds) \<Rightarrow>
          Inr \<lparr>ma_constraint = sc_id c, ma_on_uncertain = sc_on_uncertain c, ma_root = node,
               ma_history = history_window node, ma_nodes = n,
               ma_predicates = sort (remdups preds)\<rparr>)"

definition greatest :: "nat list \<Rightarrow> nat" where
  "greatest ns = foldr max ns 0"

definition compiled_pose_of :: "safe_pose \<Rightarrow> compiled_pose" where
  "compiled_pose_of p = \<lparr>cp_frame = pose_frame p, cp_position = vec_list (pose_position p),
     cp_frame_ref = pose_frame_ref p\<rparr>"

definition compile_spec :: "(safety_spec \<Rightarrow> string) \<Rightarrow> real \<Rightarrow> safety_spec \<Rightarrow> safety_error + compiled_model" where
  "compile_spec H period spec =
    (if period \<le> 0 then Inl (BadSamplePeriod period)
     else
       rbind (validate_safety_spec spec) (\<lambda>_.
       let cs = ss_constraints spec; keys = sort (map sig_key (ss_signals spec))
       in rbind (rmap (constraint_atoms keys) cs) (\<lambda>raw.
          let atoms = ordered_atoms (concat raw)
          in rbind (rmap (scalar_bounds_of keys atoms) cs) (\<lambda>bounds.
             rbind (rmap keep_out_term_of (filter is_keep_out cs)) (\<lambda>terms.
             rbind (rmap (monitor_of keys atoms period) (filter (\<lambda>c. sc_kind c = TEMPORAL) cs)) (\<lambda>monitors.
             let scalars = sort_key (\<lambda>b. (sb_constraint b, sb_atom b)) (concat bounds);
                 keep_outs = sort_key kt_constraint terms;
                 mons = sort_key ma_constraint monitors
             in Inr
               \<lparr>cm_spec_id = ss_id spec, cm_spec_hash = H spec, cm_period = period, cm_signals = keys,
                cm_atoms = map (\<lambda>(ot, si, th). \<lparr>atom_op = ot, atom_signal = si, atom_threshold = th\<rparr>) atoms,
                cm_scalar_bounds = scalars, cm_keep_outs = keep_outs, cm_monitors = mons,
                cm_resources =
                  \<lparr>rb_predicates = length atoms, rb_scalars = length scalars, rb_keep_outs = length keep_outs,
                   rb_monitors = length mons, rb_history = greatest (map ma_history mons),
                   rb_terms = length atoms + length keep_outs + sum_list (map ma_nodes mons)\<rparr>,
                cm_limits = action_limits_of spec,
                cm_safe_pose = map_option compiled_pose_of (ss_safe_pose spec),
                cm_directives = admissible_directives_of spec\<rparr>))))))"

end
