(* ===== verification/Guard_Monitor.thy ===== *)
theory Guard_Monitor
  imports Guard_Spec
begin

text \<open>
  The runtime monitors of the trusted core (\<^verbatim>\<open>rust/src/monitors.rs\<close>, with the predicate robustness
  and the node checks of \<^verbatim>\<open>rust/src/model.rs\<close>): ring buffers, the flattened evaluation plan, one
  tick of a monitor and its predicted time to violation. They are refined to the bounded past-time
  robust semantics of the formula over the whole history.
\<close>

section \<open>Robustness values\<close>

text \<open>The doubles that robustness takes: finite values and the two infinities.\<close>

datatype robustness = MInf | Fin real | PInf

instantiation robustness :: linorder
begin

definition less_eq_robustness :: "robustness \<Rightarrow> robustness \<Rightarrow> bool" where
  "less_eq_robustness a b =
    (case a of
       MInf \<Rightarrow> True
     | PInf \<Rightarrow> b = PInf
     | Fin x \<Rightarrow> (case b of MInf \<Rightarrow> False | PInf \<Rightarrow> True | Fin y \<Rightarrow> x \<le> y))"

definition less_robustness :: "robustness \<Rightarrow> robustness \<Rightarrow> bool" where
  "less_robustness a b = (a \<le> b \<and> a \<noteq> b)"

instance
  by standard (auto simp: less_eq_robustness_def less_robustness_def split: robustness.splits)

end

lemma robustness_order [simp]:
  "MInf \<le> r" "r \<le> PInf" "(PInf \<le> r) = (r = PInf)" "(r \<le> MInf) = (r = MInf)"
  "(Fin x \<le> Fin y) = (x \<le> y)" "(Fin x < Fin y) = (x < y)" "MInf < Fin x" "Fin x < PInf" "MInf < PInf"
  by (auto simp: less_eq_robustness_def less_robustness_def split: robustness.splits)

primrec negate :: "robustness \<Rightarrow> robustness" where
  "negate MInf = PInf"
| "negate (Fin x) = Fin (- x)"
| "negate PInf = MInf"

text \<open>\<^verbatim>\<open>PredicateOp::robustness\<close>: the signed margin of \<^verbatim>\<open>value op threshold\<close>.\<close>

primrec op_robustness :: "PredicateOp \<Rightarrow> real \<Rightarrow> real \<Rightarrow> real" where
  "op_robustness OP_LT x th = th - x"
| "op_robustness OP_LE x th = th - x"
| "op_robustness OP_GT x th = x - th"
| "op_robustness OP_GE x th = x - th"

section \<open>Ring buffers\<close>

record ring =
  ring_data :: "robustness list"
  ring_cap :: nat
  ring_head :: nat
  ring_len :: nat

definition ring_new :: "nat \<Rightarrow> ring" where
  "ring_new cap = \<lparr>ring_data = replicate (max cap 1) (Fin 0), ring_cap = max cap 1, ring_head = 0, ring_len = 0\<rparr>"

definition ring_push :: "robustness \<Rightarrow> ring \<Rightarrow> ring" where
  "ring_push v r = r\<lparr>ring_data := (ring_data r)[ring_head r := v],
     ring_head := Suc (ring_head r) mod ring_cap r,
     ring_len := (if ring_len r < ring_cap r then Suc (ring_len r) else ring_len r)\<rparr>"

definition ring_ago :: "ring \<Rightarrow> nat \<Rightarrow> robustness option" where
  "ring_ago r k =
    (if ring_len r \<le> k then None
     else Some (ring_data r ! ((ring_head r + ring_cap r - 1 - k) mod ring_cap r)))"

section \<open>The evaluation plan\<close>

record node_eval =
  ne_op :: TemporalOp
  ne_children :: "nat list"
  ne_predicate :: "nat option"
  ne_lo :: nat
  ne_hi :: nat
  ne_a :: ring
  ne_b :: ring
  ne_cur :: robustness

definition or_zero :: "nat option \<Rightarrow> nat" where
  "or_zero x = (case x of None \<Rightarrow> 0 | Some n \<Rightarrow> n)"

text \<open>
  \<^verbatim>\<open>flatten\<close> appends the nodes in post-order and returns the index of the root; a window operator
  keeps \<^verbatim>\<open>hi + 1\<close> slots.
\<close>

fun flatten :: "compiled_node \<Rightarrow> node_eval list \<Rightarrow> node_eval list \<times> nat"
  and flatten_args :: "compiled_node list \<Rightarrow> node_eval list \<Rightarrow> node_eval list \<times> nat list" where
  "flatten (CompiledNode ot p lo hi args) out =
    (case flatten_args args out of (out', children) \<Rightarrow>
       (out' @ [\<lparr>ne_op = ot, ne_children = children, ne_predicate = p, ne_lo = or_zero lo, ne_hi = or_zero hi,
                 ne_a = ring_new (Suc (or_zero hi)), ne_b = ring_new (Suc (or_zero hi)), ne_cur = Fin 0\<rparr>],
        length out'))"
| "flatten_args [] out = (out, [])"
| "flatten_args (a # as) out =
    (case flatten a out of (out', i) \<Rightarrow>
       (case flatten_args as out' of (out'', is) \<Rightarrow> (out'', i # is)))"

definition child_cur :: "node_eval list \<Rightarrow> node_eval \<Rightarrow> nat \<Rightarrow> robustness" where
  "child_cur nodes n which = ne_cur (nodes ! (ne_children n ! which))"

definition reduce_children :: "node_eval list \<Rightarrow> node_eval \<Rightarrow> robustness \<Rightarrow> (robustness \<Rightarrow> robustness \<Rightarrow> robustness)
    \<Rightarrow> robustness" where
  "reduce_children nodes n init f = foldl (\<lambda>acc c. f acc (ne_cur (nodes ! c))) init (ne_children n)"

text \<open>
  \<^verbatim>\<open>window_reduce\<close>: the recorded values of the window \<^verbatim>\<open>lo..=hi\<close>; an empty window is vacuous.
\<close>

definition window_reduce :: "node_eval \<Rightarrow> bool \<Rightarrow> robustness" where
  "window_reduce n is_min =
    foldl (\<lambda>acc k. case ring_ago (ne_a n) k of None \<Rightarrow> acc | Some v \<Rightarrow> if is_min then min acc v else max acc v)
      (if is_min then PInf else MInf) [ne_lo n..<Suc (ne_hi n)]"

definition until_reduce :: "node_eval \<Rightarrow> robustness" where
  "until_reduce n =
    fst (foldl (\<lambda>(best, phi_run) k.
        ((if ne_lo n \<le> k
          then case ring_ago (ne_b n) k of None \<Rightarrow> best | Some psi \<Rightarrow> max best (min psi phi_run)
          else best),
         (case ring_ago (ne_a n) k of None \<Rightarrow> phi_run | Some phi \<Rightarrow> min phi_run phi)))
      (MInf, PInf) [0..<Suc (ne_hi n)])"

text \<open>
  \<^verbatim>\<open>eval_plan_node\<close> writes the value of node \<open>i\<close>. A predicate without an index and a node with a wrong
  number of operands do not pass \<^verbatim>\<open>validate\<close> (below).
\<close>

definition eval_plan_node :: "(nat \<Rightarrow> robustness) \<Rightarrow> node_eval list \<Rightarrow> nat \<Rightarrow> node_eval list" where
  "eval_plan_node pred nodes i =
    (let n = nodes ! i
     in case ne_op n of
          OP_PREDICATE \<Rightarrow> (case ne_predicate n of None \<Rightarrow> nodes | Some p \<Rightarrow> nodes[i := n\<lparr>ne_cur := pred p\<rparr>])
        | OP_NOT \<Rightarrow> nodes[i := n\<lparr>ne_cur := negate (child_cur nodes n 0)\<rparr>]
        | OP_AND \<Rightarrow> nodes[i := n\<lparr>ne_cur := reduce_children nodes n PInf min\<rparr>]
        | OP_OR \<Rightarrow> nodes[i := n\<lparr>ne_cur := reduce_children nodes n MInf max\<rparr>]
        | OP_ALWAYS \<Rightarrow>
            (let n' = n\<lparr>ne_a := ring_push (child_cur nodes n 0) (ne_a n)\<rparr>
             in nodes[i := n'\<lparr>ne_cur := window_reduce n' True\<rparr>])
        | OP_EVENTUALLY \<Rightarrow>
            (let n' = n\<lparr>ne_a := ring_push (child_cur nodes n 0) (ne_a n)\<rparr>
             in nodes[i := n'\<lparr>ne_cur := window_reduce n' False\<rparr>])
        | OP_UNTIL \<Rightarrow>
            (let n' = n\<lparr>ne_a := ring_push (child_cur nodes n 0) (ne_a n),
                        ne_b := ring_push (child_cur nodes n 1) (ne_b n)\<rparr>
             in nodes[i := n'\<lparr>ne_cur := until_reduce n'\<rparr>]))"

section \<open>Monitors\<close>

record monitor =
  mon_constraint :: string
  mon_on_uncertain :: OnUncertain
  mon_nodes :: "node_eval list"
  mon_root :: nat
  mon_prev :: "robustness option"

definition monitor_new :: "monitor_automaton \<Rightarrow> monitor" where
  "monitor_new m =
    (case flatten (ma_root m) [] of (nodes, ix) \<Rightarrow>
       \<lparr>mon_constraint = ma_constraint m, mon_on_uncertain = ma_on_uncertain m, mon_nodes = nodes,
        mon_root = ix, mon_prev = None\<rparr>)"

record monitor_verdict =
  mv_robustness :: robustness
  mv_violated :: bool
  mv_predicted :: bool
  mv_samples :: "real option"

definition monitor_fired :: "monitor_verdict \<Rightarrow> bool" where
  "monitor_fired v = (mv_violated v \<or> mv_predicted v)"

text \<open>
  The extrapolated number of ticks to violation when the margin shrinks: \<^verbatim>\<open>robustness / -slope\<close>
  with \<^verbatim>\<open>slope = robustness - prev\<close>. In double arithmetic a drop from infinity has an infinite slope,
  so the quotient is zero; the difference of two infinities is not a number and compares false.
\<close>

fun samples_to_violation :: "robustness \<Rightarrow> robustness \<Rightarrow> real option" where
  "samples_to_violation (Fin p) (Fin r) = (if 0 \<le> r \<and> r < p then Some (r / (p - r)) else None)"
| "samples_to_violation PInf (Fin r) = (if 0 \<le> r then Some 0 else None)"
| "samples_to_violation _ _ = None"

definition monitor_step :: "(nat \<Rightarrow> robustness) \<Rightarrow> nat \<Rightarrow> monitor \<Rightarrow> monitor_verdict \<times> monitor" where
  "monitor_step pred horizon m =
    (let nodes = foldl (eval_plan_node pred) (mon_nodes m) [0..<length (mon_nodes m)];
         r = ne_cur (nodes ! mon_root m);
         ttv = (case mon_prev m of None \<Rightarrow> None | Some p \<Rightarrow> samples_to_violation p r)
     in (\<lparr>mv_robustness = r, mv_violated = (r < Fin 0),
          mv_predicted = (case ttv of None \<Rightarrow> False | Some s \<Rightarrow> s \<le> real horizon), mv_samples = ttv\<rparr>,
         m\<lparr>mon_nodes := nodes, mon_prev := Some r\<rparr>))"

text \<open>\<^verbatim>\<open>CompiledNode::validate\<close>, applied to every node when a model is decoded.\<close>

definition interval_required :: "nat option \<Rightarrow> nat option \<Rightarrow> bool" where
  "interval_required lo hi = (case (lo, hi) of (Some l, Some h) \<Rightarrow> l \<le> h | _ \<Rightarrow> False)"

fun node_valid :: "compiled_node \<Rightarrow> bool" where
  "node_valid (CompiledNode ot p lo hi args) =
    ((case ot of
        OP_PREDICATE \<Rightarrow> p \<noteq> None \<and> args = []
      | OP_NOT \<Rightarrow> length args = 1
      | OP_ALWAYS \<Rightarrow> length args = 1 \<and> interval_required lo hi
      | OP_EVENTUALLY \<Rightarrow> length args = 1 \<and> interval_required lo hi
      | OP_UNTIL \<Rightarrow> length args = 2 \<and> interval_required lo hi
      | _ \<Rightarrow> args \<noteq> [])
     \<and> list_all node_valid args)"

section \<open>The robust semantics over a whole history\<close>

text \<open>
  Robustness of an operator at tick \<open>t\<close> from the robustness of its operands at all ticks up to
  \<open>t\<close>: the bounded past-time reading of the temporal operators.
\<close>

definition past_window :: "nat \<Rightarrow> nat \<Rightarrow> nat \<Rightarrow> nat list" where
  "past_window lo hi t = filter (\<lambda>k. k \<le> t) [lo..<Suc hi]"

definition least_of :: "robustness list \<Rightarrow> robustness" where
  "least_of rs = foldr min rs PInf"

definition greatest_of :: "robustness list \<Rightarrow> robustness" where
  "greatest_of rs = foldr max rs MInf"

definition op_semantics :: "TemporalOp \<Rightarrow> nat \<Rightarrow> nat \<Rightarrow> (nat \<Rightarrow> robustness) list \<Rightarrow> nat \<Rightarrow> robustness" where
  "op_semantics ot lo hi fs t =
    (case ot of
       OP_NOT \<Rightarrow> negate ((fs ! 0) t)
     | OP_AND \<Rightarrow> least_of (map (\<lambda>f. f t) fs)
     | OP_OR \<Rightarrow> greatest_of (map (\<lambda>f. f t) fs)
     | OP_ALWAYS \<Rightarrow> least_of (map (\<lambda>k. (fs ! 0) (t - k)) (past_window lo hi t))
     | OP_EVENTUALLY \<Rightarrow> greatest_of (map (\<lambda>k. (fs ! 0) (t - k)) (past_window lo hi t))
     | OP_UNTIL \<Rightarrow>
         greatest_of (map (\<lambda>k. min ((fs ! 1) (t - k)) (least_of (map (\<lambda>j. (fs ! 0) (t - j)) [0..<k])))
           (past_window lo hi t))
     | OP_PREDICATE \<Rightarrow> Fin 0)"

fun node_semantics :: "(nat \<Rightarrow> nat \<Rightarrow> robustness) \<Rightarrow> compiled_node \<Rightarrow> nat \<Rightarrow> robustness" where
  "node_semantics pred (CompiledNode ot p lo hi args) =
    (\<lambda>t. if ot = OP_PREDICATE then (case p of None \<Rightarrow> Fin 0 | Some i \<Rightarrow> pred t i)
         else op_semantics ot (or_zero lo) (or_zero hi) (map (node_semantics pred) args) t)"

section \<open>Bounded memory refines the unbounded history\<close>

lemma robustness_units [simp]:
  "min PInf r = r" "min r PInf = r" "max MInf r = r" "max r MInf = r"
  by (simp_all add: min_def max_def)

lemma foldl_min_least: "foldl (\<lambda>acc x. min acc (g x)) a xs = min a (least_of (map g xs))"
  by (induction xs arbitrary: a) (simp_all add: least_of_def min.assoc)

lemma foldl_max_greatest: "foldl (\<lambda>acc x. max acc (g x)) a xs = max a (greatest_of (map g xs))"
  by (induction xs arbitrary: a) (simp_all add: greatest_of_def max.assoc)

lemma least_of_snoc [simp]: "least_of (xs @ [x]) = min (least_of xs) x"
  by (induction xs) (simp_all add: least_of_def min.assoc)

lemma greatest_of_snoc [simp]: "greatest_of (xs @ [x]) = max (greatest_of xs) x"
  by (induction xs) (simp_all add: greatest_of_def max.assoc)

lemma least_of_Nil [simp]: "least_of [] = PInf"
  by (simp add: least_of_def)

lemma greatest_of_Nil [simp]: "greatest_of [] = MInf"
  by (simp add: greatest_of_def)

subsection \<open>The ring holds the latest values\<close>

definition ring_after :: "nat \<Rightarrow> (nat \<Rightarrow> robustness) \<Rightarrow> nat \<Rightarrow> ring" where
  "ring_after cap f t = foldl (\<lambda>r k. ring_push (f k) r) (ring_new cap) [0..<t]"

lemma ring_after_0 [simp]: "ring_after cap f 0 = ring_new cap"
  by (simp add: ring_after_def)

lemma ring_after_push: "ring_push (f t) (ring_after cap f t) = ring_after cap f (Suc t)"
  by (simp add: ring_after_def)

lemma mod_neq_within: "j mod c \<noteq> t mod c" if "j < t" "t < j + c" for j t c :: nat
proof
  assume "j mod c = t mod c"
  then have "c dvd t - j"
    using that(1) by (metis less_imp_le mod_eq_dvd_iff_nat)
  then show False
    using that by (auto dest: dvd_imp_le)
qed

definition ring_holds :: "nat \<Rightarrow> (nat \<Rightarrow> robustness) \<Rightarrow> nat \<Rightarrow> ring \<Rightarrow> bool" where
  "ring_holds c f t r =
    (ring_cap r = c \<and> length (ring_data r) = c \<and> ring_head r = t mod c \<and> ring_len r = min t c
     \<and> (\<forall>j < t. t \<le> j + c \<longrightarrow> ring_data r ! (j mod c) = f j))"

lemma ring_holds_push:
  assumes "ring_holds c f t r" and "0 < c"
  shows "ring_holds c f (Suc t) (ring_push (f t) r)"
proof -
  have "ring_data (ring_push (f t) r) ! (j mod c) = f j" if "j < Suc t" "Suc t \<le> j + c" for j
  proof (cases "j = t")
    case True
    then show ?thesis using assms by (simp add: ring_holds_def ring_push_def)
  next
    case False
    then have "j mod c \<noteq> t mod c"
      using that by (intro mod_neq_within) auto
    then show ?thesis
      using assms that False by (simp add: ring_holds_def ring_push_def)
  qed
  then show ?thesis
    using assms by (auto simp: ring_holds_def ring_push_def mod_Suc)
qed

lemma ring_holds_after: "ring_holds (max cap 1) f t (ring_after cap f t)"
proof (induction t)
  case 0
  show ?case by (simp add: ring_holds_def ring_new_def)
next
  case (Suc t)
  then show ?case
    by (simp add: ring_holds_push flip: ring_after_push)
qed

lemma ring_ago_held:
  assumes "ring_holds c f t r"
  shows "ring_ago r k = (if k < t \<and> k < c then Some (f (t - 1 - k)) else None)"
proof (cases "k < t \<and> k < c")
  case True
  have "(t mod c + c - 1 - k) mod c = (t mod c + (c - 1 - k)) mod c"
    using True by simp
  also have "\<dots> = (t + (c - 1 - k)) mod c"
    by (simp add: mod_add_left_eq)
  also have "t + (c - 1 - k) = t - 1 - k + c"
    using True by simp
  finally have "(t mod c + c - 1 - k) mod c = (t - 1 - k) mod c"
    by simp
  moreover have "t - 1 - k < t" "t \<le> t - 1 - k + c"
    using True by auto
  then have "ring_data r ! ((t - 1 - k) mod c) = f (t - 1 - k)"
    using assms by (simp only: ring_holds_def)
  moreover have "\<not> min t c \<le> k"
    using True by (auto simp: min_le_iff_disj)
  ultimately show ?thesis
    using assms True by (simp only: ring_ago_def ring_holds_def) simp
next
  case False
  then have "min t c \<le> k"
    by auto
  then show ?thesis
    using assms False by (simp only: ring_ago_def ring_holds_def) simp
qed

lemma ring_ago_after:
  "ring_ago (ring_after cap f t) k = (if k < t \<and> k < max cap 1 then Some (f (t - 1 - k)) else None)"
  by (rule ring_ago_held[OF ring_holds_after])

subsection \<open>Snapshots of the plan\<close>

text \<open>
  The plan of a node after \<open>t\<close> ticks when it starts at index \<open>base\<close>: the rings hold the operand
  histories and every value is the robustness of the subformula at the last tick.
\<close>

fun nsize :: "compiled_node \<Rightarrow> nat" and nsizes :: "compiled_node list \<Rightarrow> nat" where
  "nsize (CompiledNode ot p lo hi args) = Suc (nsizes args)"
| "nsizes [] = 0"
| "nsizes (a # as) = nsize a + nsizes as"

fun roots :: "nat \<Rightarrow> compiled_node list \<Rightarrow> nat list" where
  "roots base [] = []"
| "roots base (a # as) = (base + nsize a - 1) # roots (base + nsize a) as"

definition windowed :: "TemporalOp \<Rightarrow> bool" where
  "windowed ot = (ot = OP_ALWAYS \<or> ot = OP_EVENTUALLY \<or> ot = OP_UNTIL)"

definition cur_after :: "(nat \<Rightarrow> robustness) \<Rightarrow> nat \<Rightarrow> robustness" where
  "cur_after f t = (case t of 0 \<Rightarrow> Fin 0 | Suc u \<Rightarrow> f u)"

definition snap_node :: "(nat \<Rightarrow> nat \<Rightarrow> robustness) \<Rightarrow> nat \<Rightarrow> nat \<Rightarrow> compiled_node \<Rightarrow> node_eval" where
  "snap_node pred t base n =
    (let fs = map (node_semantics pred) (n_args n); cap = Suc (or_zero (n_hi n))
     in \<lparr>ne_op = n_op n, ne_children = roots base (n_args n), ne_predicate = n_predicate n,
         ne_lo = or_zero (n_lo n), ne_hi = or_zero (n_hi n),
         ne_a = (if windowed (n_op n) then ring_after cap (fs ! 0) t else ring_new cap),
         ne_b = (if n_op n = OP_UNTIL then ring_after cap (fs ! 1) t else ring_new cap),
         ne_cur = cur_after (node_semantics pred n) t\<rparr>)"

fun snap :: "(nat \<Rightarrow> nat \<Rightarrow> robustness) \<Rightarrow> nat \<Rightarrow> nat \<Rightarrow> compiled_node \<Rightarrow> node_eval list"
  and snaps :: "(nat \<Rightarrow> nat \<Rightarrow> robustness) \<Rightarrow> nat \<Rightarrow> nat \<Rightarrow> compiled_node list \<Rightarrow> node_eval list" where
  "snap pred t base (CompiledNode ot p lo hi args) =
    snaps pred t base args @ [snap_node pred t base (CompiledNode ot p lo hi args)]"
| "snaps pred t base [] = []"
| "snaps pred t base (a # as) = snap pred t base a @ snaps pred t (base + nsize a) as"

lemma nsize_pos [simp]: "0 < nsize n"
  by (cases n) simp

lemma length_snap [simp]:
  shows "length (snap pred t base n) = nsize n"
    and "length (snaps pred t base args) = nsizes args"
  by (induction pred t base n and pred t base args rule: snap_snaps.induct) simp_all

lemma flatten_snap:
  shows "flatten n out = (out @ snap pred 0 (length out) n, length out + nsize n - 1)"
    and "flatten_args args out = (out @ snaps pred 0 (length out) args, roots (length out) args)"
  by (induction n out and args out rule: flatten_flatten_args.induct)
     (simp_all add: snap_node_def cur_after_def Let_def)

lemma length_roots [simp]: "length (roots base args) = length args"
  by (induction base args rule: roots.induct) simp_all

lemma snap_last:
  "\<exists>xs. snap pred t base n = xs @ [snap_node pred t base n] \<and> length xs = nsize n - 1"
  by (cases n) (auto intro: exI[of _ "snaps pred t base (n_args n)"])

lemma operand_value:
  "j < length args \<Longrightarrow>
    ne_cur ((out @ snaps pred (Suc t) (length out) args @ rest) ! (roots (length out) args ! j))
      = node_semantics pred (args ! j) t"
proof (induction args arbitrary: out j)
  case (Cons a as)
  show ?case
  proof (cases j)
    case 0
    obtain xs where "snap pred (Suc t) (length out) a = xs @ [snap_node pred (Suc t) (length out) a]"
        "length xs = nsize a - 1"
      using snap_last by blast
    moreover have "length out + nsize a - 1 = length (out @ xs)"
      using calculation nsize_pos[of a] by (simp del: nsize_pos)
    ultimately show ?thesis
      using 0 by (simp add: nth_append snap_node_def cur_after_def Let_def)
  next
    case (Suc i)
    then show ?thesis
      using Cons.IH[of i "out @ snap pred (Suc t) (length out) a"] Cons.prems by simp
  qed
qed simp

lemma operand_values:
  "map (\<lambda>c. ne_cur ((out @ snaps pred (Suc t) (length out) args @ rest) ! c)) (roots (length out) args)
    = map (\<lambda>a. node_semantics pred a t) args"
  by (rule nth_equalityI) (simp_all add: operand_value)

subsection \<open>Reductions over a window\<close>

text \<open>The ring of a window operator right after the push of tick \<open>t\<close>.\<close>

lemma window_ago:
  "k \<le> hi \<Longrightarrow> ring_ago (ring_after (Suc hi) f (Suc t)) k = (if k \<le> t then Some (f (t - k)) else None)"
  by (simp only: ring_ago_after) auto

lemma foldl_window_min:
  "(\<And>k. k \<in> set ks \<Longrightarrow> ago k = (if k \<le> t then Some (f (t - k)) else None)) \<Longrightarrow>
    foldl (\<lambda>acc k. case ago k of None \<Rightarrow> acc | Some v \<Rightarrow> min acc v) a ks
      = min a (least_of (map (\<lambda>k. f (t - k)) (filter (\<lambda>k. k \<le> t) ks)))"
  by (induction ks arbitrary: a) (simp_all add: least_of_def min.assoc)

lemma foldl_window_max:
  "(\<And>k. k \<in> set ks \<Longrightarrow> ago k = (if k \<le> t then Some (f (t - k)) else None)) \<Longrightarrow>
    foldl (\<lambda>acc k. case ago k of None \<Rightarrow> acc | Some v \<Rightarrow> max acc v) a ks
      = max a (greatest_of (map (\<lambda>k. f (t - k)) (filter (\<lambda>k. k \<le> t) ks)))"
  by (induction ks arbitrary: a) (simp_all add: greatest_of_def max.assoc)

lemma window_reduce_after:
  assumes "ne_a n = ring_after (Suc (ne_hi n)) f (Suc t)"
  shows "window_reduce n True = least_of (map (\<lambda>k. f (t - k)) (past_window (ne_lo n) (ne_hi n) t))"
    and "window_reduce n False = greatest_of (map (\<lambda>k. f (t - k)) (past_window (ne_lo n) (ne_hi n) t))"
proof -
  have ago: "ring_ago (ne_a n) k = (if k \<le> t then Some (f (t - k)) else None)"
    if "k \<in> set [ne_lo n..<Suc (ne_hi n)]" for k
    using that assms window_ago[of k "ne_hi n" f t] by (simp del: upt_Suc)
  show "window_reduce n True = least_of (map (\<lambda>k. f (t - k)) (past_window (ne_lo n) (ne_hi n) t))"
    using foldl_window_min[OF ago, of "[ne_lo n..<Suc (ne_hi n)]" PInf]
    by (simp add: window_reduce_def past_window_def del: upt_Suc cong: option.case_cong)
  show "window_reduce n False = greatest_of (map (\<lambda>k. f (t - k)) (past_window (ne_lo n) (ne_hi n) t))"
    using foldl_window_max[OF ago, of "[ne_lo n..<Suc (ne_hi n)]" MInf]
    by (simp add: window_reduce_def past_window_def del: upt_Suc cong: option.case_cong)
qed

definition until_term :: "(nat \<Rightarrow> robustness) \<Rightarrow> (nat \<Rightarrow> robustness) \<Rightarrow> nat \<Rightarrow> nat \<Rightarrow> robustness" where
  "until_term f g t k = min (g (t - k)) (least_of (map (\<lambda>j. f (t - j)) [0..<k]))"

lemma until_fold:
  assumes a: "\<And>k. k < m \<Longrightarrow> ago_a k = (if k \<le> t then Some (f (t - k)) else None)"
    and b: "\<And>k. k < m \<Longrightarrow> ago_b k = (if k \<le> t then Some (g (t - k)) else None)"
  shows "foldl (\<lambda>(best, phi_run) k.
      ((if lo \<le> k then case ago_b k of None \<Rightarrow> best | Some psi \<Rightarrow> max best (min psi phi_run) else best),
       (case ago_a k of None \<Rightarrow> phi_run | Some phi \<Rightarrow> min phi_run phi))) (MInf, PInf) [0..<m]
    = (greatest_of (map (until_term f g t) (filter (\<lambda>k. lo \<le> k \<and> k \<le> t) [0..<m])),
       least_of (map (\<lambda>j. f (t - j)) (filter (\<lambda>k. k \<le> t) [0..<m])))"
  using assms
proof (induction m)
  case (Suc m)
  have "filter (\<lambda>k. k \<le> t) [0..<m] = [0..<m]" if "m \<le> t"
    using that by (intro filter_True) auto
  then show ?case
    using Suc by (auto simp: until_term_def)
qed simp

lemma filter_from: "filter (\<lambda>k. lo \<le> k \<and> k \<le> t) [0..<n] = filter (\<lambda>k. k \<le> t) [lo..<n]" for lo t n :: nat
  by (induction n) auto

lemma until_reduce_after:
  assumes "ne_a n = ring_after (Suc (ne_hi n)) f (Suc t)" and "ne_b n = ring_after (Suc (ne_hi n)) g (Suc t)"
  shows "until_reduce n = greatest_of (map (until_term f g t) (past_window (ne_lo n) (ne_hi n) t))"
proof -
  have "ring_ago (ne_a n) k = (if k \<le> t then Some (f (t - k)) else None)"
    "ring_ago (ne_b n) k = (if k \<le> t then Some (g (t - k)) else None)" if "k < Suc (ne_hi n)" for k
    using that assms window_ago[of k "ne_hi n" _ t] by simp_all
  then show ?thesis
    unfolding until_reduce_def by (subst until_fold) (simp_all add: past_window_def filter_from del: upt_Suc)
qed

subsection \<open>One tick\<close>

lemma eval_plan_node_mid: "length xs = i \<Longrightarrow> eval_plan_node p (xs @ n # rest) i =
  (let nodes = xs @ n # rest
   in case ne_op n of
        OP_PREDICATE \<Rightarrow> (case ne_predicate n of None \<Rightarrow> nodes | Some j \<Rightarrow> xs @ n\<lparr>ne_cur := p j\<rparr> # rest)
      | OP_NOT \<Rightarrow> xs @ n\<lparr>ne_cur := negate (child_cur nodes n 0)\<rparr> # rest
      | OP_AND \<Rightarrow> xs @ n\<lparr>ne_cur := reduce_children nodes n PInf min\<rparr> # rest
      | OP_OR \<Rightarrow> xs @ n\<lparr>ne_cur := reduce_children nodes n MInf max\<rparr> # rest
      | OP_ALWAYS \<Rightarrow>
          (let n' = n\<lparr>ne_a := ring_push (child_cur nodes n 0) (ne_a n)\<rparr>
           in xs @ n'\<lparr>ne_cur := window_reduce n' True\<rparr> # rest)
      | OP_EVENTUALLY \<Rightarrow>
          (let n' = n\<lparr>ne_a := ring_push (child_cur nodes n 0) (ne_a n)\<rparr>
           in xs @ n'\<lparr>ne_cur := window_reduce n' False\<rparr> # rest)
      | OP_UNTIL \<Rightarrow>
          (let n' = n\<lparr>ne_a := ring_push (child_cur nodes n 0) (ne_a n),
                      ne_b := ring_push (child_cur nodes n 1) (ne_b n)\<rparr>
           in xs @ n'\<lparr>ne_cur := until_reduce n'\<rparr> # rest))"
  by (auto simp: eval_plan_node_def Let_def nth_append list_update_append split: TemporalOp.splits option.splits)

lemma snap_node_sel [simp]:
  "ne_op (snap_node pred t base n) = n_op n"
  "ne_children (snap_node pred t base n) = roots base (n_args n)"
  "ne_predicate (snap_node pred t base n) = n_predicate n"
  "ne_lo (snap_node pred t base n) = or_zero (n_lo n)"
  "ne_hi (snap_node pred t base n) = or_zero (n_hi n)"
  "ne_cur (snap_node pred t base n) = cur_after (node_semantics pred n) t"
  by (simp_all add: snap_node_def Let_def)

lemma snap_node_rings:
  "windowed (n_op n) \<Longrightarrow> n_args n \<noteq> [] \<Longrightarrow>
    ne_a (snap_node pred t base n) = ring_after (Suc (or_zero (n_hi n))) (node_semantics pred (n_args n ! 0)) t"
  "n_op n = OP_UNTIL \<Longrightarrow> length (n_args n) = 2 \<Longrightarrow>
    ne_b (snap_node pred t base n) = ring_after (Suc (or_zero (n_hi n))) (node_semantics pred (n_args n ! 1)) t"
  by (simp_all add: snap_node_def Let_def)

lemma cur_after_Suc [simp]: "cur_after f (Suc t) = f t"
  by (simp add: cur_after_def)

lemma snap_node_next:
  "\<not> windowed (n_op n) \<Longrightarrow>
    (snap_node pred t base n)\<lparr>ne_cur := node_semantics pred n t\<rparr> = snap_node pred (Suc t) base n"
  "windowed (n_op n) \<Longrightarrow> n_op n \<noteq> OP_UNTIL \<Longrightarrow>
    (snap_node pred t base n)\<lparr>ne_a := ne_a (snap_node pred (Suc t) base n), ne_cur := node_semantics pred n t\<rparr>
      = snap_node pred (Suc t) base n"
  "n_op n = OP_UNTIL \<Longrightarrow>
    (snap_node pred t base n)\<lparr>ne_a := ne_a (snap_node pred (Suc t) base n),
        ne_b := ne_b (snap_node pred (Suc t) base n), ne_cur := node_semantics pred n t\<rparr>
      = snap_node pred (Suc t) base n"
  by (simp_all add: snap_node_def windowed_def Let_def)

lemma push_next:
  assumes "windowed (n_op n)" "n_args n \<noteq> []" "v = node_semantics pred (n_args n ! 0) t"
  shows "ring_push v (ne_a (snap_node pred t base n)) = ne_a (snap_node pred (Suc t) base n)"
  using assms by (simp add: snap_node_rings ring_after_push)

lemma push_next_b:
  assumes "n_op n = OP_UNTIL" "length (n_args n) = 2" "v = node_semantics pred (n_args n ! 1) t"
  shows "ring_push v (ne_b (snap_node pred t base n)) = ne_b (snap_node pred (Suc t) base n)"
  using assms by (simp add: snap_node_rings ring_after_push)

lemma node_semantics_sel:
  "node_semantics pred n t =
    (if n_op n = OP_PREDICATE then (case n_predicate n of None \<Rightarrow> Fin 0 | Some i \<Rightarrow> pred t i)
     else op_semantics (n_op n) (or_zero (n_lo n)) (or_zero (n_hi n)) (map (node_semantics pred) (n_args n)) t)"
  by (cases n) simp

lemma window_value:
  assumes w: "windowed (n_op n)" and args: "n_args n \<noteq> []"
    and m_def: "m = (snap_node pred t base n)\<lparr>ne_a := ne_a (snap_node pred (Suc t) base n)\<rparr>"
  shows "n_op n = OP_ALWAYS \<Longrightarrow> window_reduce m True = node_semantics pred n t"
    and "n_op n = OP_EVENTUALLY \<Longrightarrow> window_reduce m False = node_semantics pred n t"
proof -
  have "ne_a m = ring_after (Suc (ne_hi m)) (node_semantics pred (n_args n ! 0)) (Suc t)"
    by (simp add: m_def snap_node_rings(1)[OF w args])
  note reduce = window_reduce_after[OF this]
  show "n_op n = OP_ALWAYS \<Longrightarrow> window_reduce m True = node_semantics pred n t"
    using args unfolding reduce by (simp add: node_semantics_sel[of pred n] op_semantics_def m_def)
  show "n_op n = OP_EVENTUALLY \<Longrightarrow> window_reduce m False = node_semantics pred n t"
    using args unfolding reduce by (simp add: node_semantics_sel[of pred n] op_semantics_def m_def)
qed

lemma until_value:
  assumes u: "n_op n = OP_UNTIL" and args: "length (n_args n) = 2"
    and m_def: "m = (snap_node pred t base n)\<lparr>ne_a := ne_a (snap_node pred (Suc t) base n),
      ne_b := ne_b (snap_node pred (Suc t) base n)\<rparr>"
  shows "until_reduce m = node_semantics pred n t"
proof -
  have w: "windowed (n_op n)" and ne: "n_args n \<noteq> []"
    using u args by (auto simp: windowed_def)
  have "ne_a m = ring_after (Suc (ne_hi m)) (node_semantics pred (n_args n ! 0)) (Suc t)"
    "ne_b m = ring_after (Suc (ne_hi m)) (node_semantics pred (n_args n ! 1)) (Suc t)"
    by (simp_all add: m_def snap_node_rings(1)[OF w ne] snap_node_rings(2)[OF u args])
  from until_reduce_after[OF this] show ?thesis
    using u args by (simp add: node_semantics_sel[of pred n] op_semantics_def m_def until_term_def[abs_def])
qed

lemma eval_plan_node_snap:
  assumes valid: "node_valid n" and len: "length xs = i"
    and val: "\<And>j. j < length (n_args n) \<Longrightarrow>
        child_cur (xs @ snap_node pred t base n # rest) (snap_node pred t base n) j
          = node_semantics pred (n_args n ! j) t"
    and vals: "map (\<lambda>c. ne_cur ((xs @ snap_node pred t base n # rest) ! c)) (roots base (n_args n))
        = map (\<lambda>a. node_semantics pred a t) (n_args n)"
  shows "eval_plan_node (pred t) (xs @ snap_node pred t base n # rest) i = xs @ snap_node pred (Suc t) base n # rest"
proof (cases "n_op n")
  case OP_PREDICATE
  moreover obtain j where "n_predicate n = Some j"
    using valid OP_PREDICATE by (cases n) auto
  ultimately show ?thesis
    using snap_node_next(1)[of n pred t base]
    by (simp add: eval_plan_node_mid[OF len] node_semantics_sel[of pred n] windowed_def)
next
  case OP_NOT
  moreover have "n_args n \<noteq> []"
    using valid OP_NOT by (cases n) auto
  ultimately show ?thesis
    using snap_node_next(1)[of n pred t base] val[of 0]
    by (simp add: eval_plan_node_mid[OF len] node_semantics_sel[of pred n] windowed_def op_semantics_def)
next
  case OP_AND
  then show ?thesis
    using snap_node_next(1)[of n pred t base] vals
    by (simp add: eval_plan_node_mid[OF len] node_semantics_sel[of pred n] windowed_def op_semantics_def reduce_children_def
        foldl_min_least comp_def)
next
  case OP_OR
  then show ?thesis
    using snap_node_next(1)[of n pred t base] vals
    by (simp add: eval_plan_node_mid[OF len] node_semantics_sel[of pred n] windowed_def op_semantics_def reduce_children_def
        foldl_max_greatest comp_def)
next
  case OP_ALWAYS
  have args: "n_args n \<noteq> []"
    using valid OP_ALWAYS by (cases n) auto
  have w: "windowed (n_op n)"
    using OP_ALWAYS by (simp add: windowed_def)
  show ?thesis
    using OP_ALWAYS val[of 0] args snap_node_next(2)[of n pred t base]
    by (simp add: eval_plan_node_mid[OF len] push_next[OF w args] window_value(1)[OF w args refl] Let_def windowed_def)
next
  case OP_EVENTUALLY
  have args: "n_args n \<noteq> []"
    using valid OP_EVENTUALLY by (cases n) auto
  have w: "windowed (n_op n)"
    using OP_EVENTUALLY by (simp add: windowed_def)
  show ?thesis
    using OP_EVENTUALLY val[of 0] args snap_node_next(2)[of n pred t base]
    by (simp add: eval_plan_node_mid[OF len] push_next[OF w args] window_value(2)[OF w args refl] Let_def windowed_def)
next
  case OP_UNTIL
  have args: "length (n_args n) = 2"
    using valid OP_UNTIL by (cases n) auto
  have w: "windowed (n_op n)" and ne: "n_args n \<noteq> []"
    using OP_UNTIL args by (auto simp: windowed_def)
  show ?thesis
    using OP_UNTIL val[of 0] val[of 1] args snap_node_next(3)[of n pred t base]
    by (simp add: eval_plan_node_mid[OF len] push_next[OF w ne] push_next_b[OF OP_UNTIL args]
        until_value[OF OP_UNTIL args refl] Let_def)
qed

lemma foldl_upt_split:
  "foldl f a [i..<i + (m + n)] = foldl f (foldl f a [i..<i + m]) [i + m..<i + m + n]"
proof -
  have "[i..<i + (m + n)] = [i..<i + m] @ [i + m..<i + m + n]"
    using upt_add_eq_append[of i "i + m" n] by (simp add: add.assoc)
  then show ?thesis by simp
qed

lemma run_snap:
  shows "node_valid n \<Longrightarrow> length out = base \<Longrightarrow>
      foldl (eval_plan_node (pred t)) (out @ snap pred t base n @ rest) [base..<base + nsize n]
        = out @ snap pred (Suc t) base n @ rest"
    and "list_all node_valid args \<Longrightarrow> length out = base \<Longrightarrow>
      foldl (eval_plan_node (pred t)) (out @ snaps pred t base args @ rest) [base..<base + nsizes args]
        = out @ snaps pred (Suc t) base args @ rest"
proof (induction pred t base n and pred t base args arbitrary: out rest and out rest
    rule: snap_snaps.induct)
  case (1 pred t base ot p lo hi args)
  let ?n = "CompiledNode ot p lo hi args"
  let ?xs = "out @ snaps pred (Suc t) base args"
  have len: "length ?xs = base + nsizes args"
    using 1 by simp
  have kids: "foldl (eval_plan_node (pred t)) (out @ snap pred t base ?n @ rest) [base..<base + nsizes args]
      = ?xs @ snap_node pred t base ?n # rest"
    using 1(1)[of out "snap_node pred t base ?n # rest"] 1(2,3) by simp
  have "eval_plan_node (pred t) (?xs @ snap_node pred t base ?n # rest) (base + nsizes args)
      = ?xs @ snap_node pred (Suc t) base ?n # rest"
  proof (rule eval_plan_node_snap[OF 1(2) len])
    fix j assume "j < length (n_args ?n)"
    then show "child_cur (?xs @ snap_node pred t base ?n # rest) (snap_node pred t base ?n) j
        = node_semantics pred (n_args ?n ! j) t"
      using operand_value[of j args out pred t "snap_node pred t base ?n # rest"] 1(3)
      by (simp add: child_cur_def)
  next
    show "map (\<lambda>c. ne_cur ((?xs @ snap_node pred t base ?n # rest) ! c)) (roots base (n_args ?n))
        = map (\<lambda>a. node_semantics pred a t) (n_args ?n)"
      using operand_values[of out pred t args "snap_node pred t base ?n # rest"] 1(3) by simp
  qed
  then show ?case
    using kids by simp
next
  case (3 pred t base a as)
  show ?case
    using 3(1)[of out "snaps pred t (base + nsize a) as @ rest"]
      3(2)[of "out @ snap pred (Suc t) base a" rest] 3(3,4)
    by (simp add: foldl_upt_split add.assoc)
qed simp

subsection \<open>Runs of a monitor\<close>

text \<open>The state of a monitor after \<open>t\<close> ticks of the given predicate values.\<close>

primrec monitor_after :: "(nat \<Rightarrow> nat \<Rightarrow> robustness) \<Rightarrow> nat \<Rightarrow> monitor \<Rightarrow> nat \<Rightarrow> monitor" where
  "monitor_after pred horizon m 0 = m"
| "monitor_after pred horizon m (Suc t) = snd (monitor_step (pred t) horizon (monitor_after pred horizon m t))"

lemma monitor_new_snap:
  "monitor_new a = \<lparr>mon_constraint = ma_constraint a, mon_on_uncertain = ma_on_uncertain a,
    mon_nodes = snap pred 0 0 (ma_root a), mon_root = nsize (ma_root a) - 1, mon_prev = None\<rparr>"
  using flatten_snap(1)[of "ma_root a" "[]" pred] by (simp add: monitor_new_def)

lemma root_value:
  "ne_cur (snap pred (Suc t) base n ! (nsize n - Suc 0)) = node_semantics pred n t"
proof -
  obtain xs where "snap pred (Suc t) base n = xs @ [snap_node pred (Suc t) base n]" "length xs = nsize n - Suc 0"
    using snap_last by fastforce
  then show ?thesis
    by (metis cur_after_Suc nth_append_length snap_node_sel(6))
qed

lemma run_plan:
  "node_valid n \<Longrightarrow> foldl (eval_plan_node (pred t)) (snap pred t 0 n) [0..<nsize n] = snap pred (Suc t) 0 n"
  using run_snap(1)[of n "[]" 0 pred t "[]"] by simp

lemma monitor_after_snap:
  assumes "node_valid (ma_root a)"
  shows "mon_nodes (monitor_after pred horizon (monitor_new a) t) = snap pred t 0 (ma_root a)
    \<and> mon_root (monitor_after pred horizon (monitor_new a) t) = nsize (ma_root a) - 1
    \<and> mon_prev (monitor_after pred horizon (monitor_new a) t)
        = (case t of 0 \<Rightarrow> None | Suc u \<Rightarrow> Some (node_semantics pred (ma_root a) u))
    \<and> mon_constraint (monitor_after pred horizon (monitor_new a) t) = ma_constraint a"
  by (induction t) (simp_all add: monitor_new_snap[of _ pred] monitor_step_def Let_def run_plan[OF assms] root_value)

lemma monitor_robustness:
  assumes "node_valid (ma_root a)"
  shows "mv_robustness (fst (monitor_step (pred t) horizon (monitor_after pred horizon (monitor_new a) t)))
    = node_semantics pred (ma_root a) t"
  using monitor_after_snap[OF assms, of pred horizon t]
  by (simp add: monitor_step_def Let_def run_plan[OF assms] root_value)

lemma monitor_prediction:
  assumes "node_valid (ma_root a)"
  shows "mv_samples (fst (monitor_step (pred (Suc t)) horizon (monitor_after pred horizon (monitor_new a) (Suc t))))
    = samples_to_violation (node_semantics pred (ma_root a) t) (node_semantics pred (ma_root a) (Suc t))"
  using monitor_after_snap[OF assms, of pred horizon "Suc t"]
  by (simp add: monitor_step_def Let_def run_plan[OF assms] root_value del: monitor_after.simps(2))

text \<open>
  The history window of a node is as far back as its robustness looks.
\<close>

lemma op_semantics_cong:
  assumes "length fs = length gs"
    and "\<And>i k. i < length fs \<Longrightarrow> k \<le> hi \<Longrightarrow> k \<le> t \<Longrightarrow> (fs ! i) (t - k) = (gs ! i) (t - k)"
    and "ot = OP_NOT \<or> windowed ot \<Longrightarrow> fs \<noteq> []" and "ot = OP_UNTIL \<Longrightarrow> length fs = 2"
  shows "op_semantics ot lo hi fs t = op_semantics ot lo hi gs t"
proof -
  have now: "map (\<lambda>f. f t) fs = map (\<lambda>f. f t) gs"
    using assms(1) assms(2)[of _ 0] by (intro nth_equalityI) simp_all
  have w: "k \<le> hi \<and> k \<le> t" if "k \<in> set (past_window lo hi t)" for k
    using that by (auto simp: past_window_def)
  have a: "(fs ! 0) (t - k) = (gs ! 0) (t - k)" if "fs \<noteq> []" "k \<le> hi" "k \<le> t" for k
    using assms(2)[of 0 k] that by simp
  have b: "(fs ! 1) (t - k) = (gs ! 1) (t - k)" if "length fs = 2" "k \<le> hi" "k \<le> t" for k
    using assms(2)[of 1 k] that by simp
  have u: "map (\<lambda>k. min ((fs ! 1) (t - k)) (least_of (map (\<lambda>j. (fs ! 0) (t - j)) [0..<k]))) (past_window lo hi t)
      = map (\<lambda>k. min ((gs ! 1) (t - k)) (least_of (map (\<lambda>j. (gs ! 0) (t - j)) [0..<k]))) (past_window lo hi t)"
    if "length fs = 2"
  proof (rule map_cong[OF refl])
    fix k assume "k \<in> set (past_window lo hi t)"
    then have k: "k \<le> hi" "k \<le> t" using w by auto
    have "map (\<lambda>j. (fs ! 0) (t - j)) [0..<k] = map (\<lambda>j. (gs ! 0) (t - j)) [0..<k]"
      using k that by (intro map_cong[OF refl] a) auto
    then show "min ((fs ! 1) (t - k)) (least_of (map (\<lambda>j. (fs ! 0) (t - j)) [0..<k]))
        = min ((gs ! 1) (t - k)) (least_of (map (\<lambda>j. (gs ! 0) (t - j)) [0..<k]))"
      using b[OF that k] by (simp del: map_eq_conv)
  qed
  have v: "map (\<lambda>k. (fs ! 0) (t - k)) (past_window lo hi t) = map (\<lambda>k. (gs ! 0) (t - k)) (past_window lo hi t)"
    if "fs \<noteq> []"
    using that w a by (intro map_cong[OF refl]) blast
  show ?thesis
    using assms(3,4) now u v a[of 0]
    by (cases ot) (simp_all add: op_semantics_def windowed_def del: map_eq_conv)
qed

lemma sum_list_member: "x \<in> set xs \<Longrightarrow> f x \<le> sum_list (map f xs)" for f :: "'a \<Rightarrow> nat"
  by (induction xs) auto

lemma history_window_enough:
  "node_valid n \<Longrightarrow> (\<And>k. k \<le> history_window n \<Longrightarrow> k \<le> t \<Longrightarrow> pred (t - k) = pred' (t - k)) \<Longrightarrow>
    node_semantics pred n t = node_semantics pred' n t"
proof (induction n arbitrary: t)
  case (CompiledNode ot p lo hi args)
  have args: "node_semantics pred (args ! i) (t - k) = node_semantics pred' (args ! i) (t - k)"
    if "i < length args" "k \<le> or_zero hi" "k \<le> t" for i k
  proof (rule CompiledNode.IH)
    show "args ! i \<in> set args" using that by simp
    show "node_valid (args ! i)"
      using CompiledNode.prems(1) that(1) by (simp add: list_all_length)
    fix j assume j: "j \<le> history_window (args ! i)" "j \<le> t - k"
    have "history_window (args ! i) \<le> sum_list (map history_window args)"
      using that(1) by (intro sum_list_member) simp
    then have "k + j \<le> history_window (CompiledNode ot p lo hi args)"
      using j(1) that(2) by (simp add: or_zero_def)
    then show "pred (t - k - j) = pred' (t - k - j)"
      using CompiledNode.prems(2)[of "k + j"] j(2) that(3) by simp
  qed
  show ?case
  proof (cases "ot = OP_PREDICATE")
    case True
    then show ?thesis
      using CompiledNode.prems(2)[of 0] by (simp split: option.splits)
  next
    case False
    have "op_semantics ot (or_zero lo) (or_zero hi) (map (node_semantics pred) args) t
        = op_semantics ot (or_zero lo) (or_zero hi) (map (node_semantics pred') args) t"
      using args CompiledNode.prems(1)
      by (intro op_semantics_cong) (auto simp: windowed_def)
    then show ?thesis using False by simp
  qed
qed

end
