(* ===== verification/Guard_Compile.thy ===== *)
theory Guard_Compile
  imports Guard_Monitor
begin

text \<open>
  The constraint compiler (\<^verbatim>\<open>guard/spec/compiler.py\<close>) is correct: a contract that passes the loader
  compiles; every temporal clause becomes a monitor whose verdicts are the robustness of the
  reviewed formula; the scalar bounds hold exactly when the reviewed floors and ceilings hold and no
  signal is above its kinematic limit.
\<close>

section \<open>Results\<close>

lemma rmap_Inr: "rmap f xs = Inr ys \<longleftrightarrow> list_all2 (\<lambda>x y. f x = Inr y) xs ys"
proof (induction xs arbitrary: ys)
  case (Cons x xs)
  then show ?case
    by (auto simp: rbind_Inr list_all2_Cons1)
qed auto

lemma rmap_member: "rmap f xs = Inr ys \<Longrightarrow> x \<in> set xs \<Longrightarrow> \<exists>y \<in> set ys. f x = Inr y"
  by (auto simp: rmap_Inr list_all2_conv_all_nth in_set_conv_nth)

lemma rmap_image: "rmap f xs = Inr ys \<Longrightarrow> y \<in> set ys \<Longrightarrow> \<exists>x \<in> set xs. f x = Inr y"
  by (fastforce simp: rmap_Inr list_all2_conv_all_nth in_set_conv_nth)

lemma rmap_total: "(\<And>x. x \<in> set xs \<Longrightarrow> \<exists>y. f x = Inr y) \<Longrightarrow> \<exists>ys. rmap f xs = Inr ys"
  by (induction xs) (fastforce simp: rbind_def)+

lemma asserted_Inr [simp]: "(asserted what x f = Inr y) = (\<exists>z. x = Some z \<and> f z = Inr y)"
  by (simp add: asserted_def split: option.splits)

lemma all_checked_Inr [simp]: "(all_checked f xs = Inr ()) = (\<forall>x \<in> set xs. f x = Inr ())"
  by (induction xs) (auto simp: rbind_def split: sum.splits)

lemma position_nth: "x \<in> set xs \<Longrightarrow> xs ! position xs x = x \<and> position xs x < length xs"
  by (induction xs) auto

section \<open>Formulas\<close>

text \<open>
  The robustness of a reviewed formula at tick \<open>t\<close> over the sampled signals: an interval in seconds
  covers the ticks between the rounded-up end points.
\<close>

fun formula_semantics :: "real \<Rightarrow> (nat \<Rightarrow> string \<Rightarrow> real) \<Rightarrow> formula \<Rightarrow> nat \<Rightarrow> robustness" where
  "formula_semantics period sig (Formula ot sn cm th iv args) =
    (\<lambda>t. if ot = OP_PREDICATE
         then (case (cm, sn, th) of
                 (Some c, Some k, Some x) \<Rightarrow> Fin (op_robustness c (sig t k) x)
               | _ \<Rightarrow> Fin 0)
         else op_semantics ot
           (case iv of None \<Rightarrow> 0 | Some i \<Rightarrow> samples period (fst i))
           (case iv of None \<Rightarrow> 0 | Some i \<Rightarrow> samples period (snd i))
           (map (formula_semantics period sig) args) t)"

definition raw_margin :: "string list \<Rightarrow> (string \<Rightarrow> real) \<Rightarrow> raw_atom \<Rightarrow> real" where
  "raw_margin keys sig a = (case a of (ot, si, th) \<Rightarrow> op_robustness ot (sig (keys ! si)) th)"

lemma check_operands_None: "check_operands declared i fs = None \<longleftrightarrow> (\<forall>f \<in> set fs. check_formula declared f = None)"
  by (induction fs arbitrary: i) (auto split: option.splits)

lemma samples_mono: "0 < period \<Longrightarrow> lo \<le> hi \<Longrightarrow> samples period (Some lo) \<le> samples period (Some hi)"
  unfolding samples_def option.case
  by (intro nat_mono ceiling_mono divide_right_mono) simp_all

lemma check_interval_None:
  "check_interval iv = None \<longleftrightarrow> (\<exists>lo hi. iv = Some (Some lo, Some hi) \<and> lo \<le> hi)"
  by (auto simp: check_interval_def split: option.splits)

lemma check_formula_parts:
  "check_formula declared (Formula ot sn cm th iv args) = None \<longleftrightarrow>
    check_node declared (Formula ot sn cm th iv args) = None
    \<and> (\<forall>f \<in> set args. check_formula declared f = None)"
  by (simp add: check_operands_None split: option.splits)

lemma check_predicate:
  "check_node declared (Formula OP_PREDICATE sn cm th iv args) = None \<Longrightarrow>
    \<exists>k c x. sn = Some k \<and> cm = Some c \<and> th = Some x \<and> k \<in> set declared \<and> args = []"
  by (auto simp: check_node_def split: if_splits option.splits)

lemma check_windowed:
  "check_node declared (Formula ot sn cm th iv args) = None \<Longrightarrow> windowed ot \<Longrightarrow>
    \<exists>lo hi. iv = Some (Some lo, Some hi) \<and> lo \<le> hi"
  by (cases ot) (auto simp: windowed_def check_node_def check_interval_None Let_def split: if_splits)

lemma check_arity:
  "check_node declared (Formula ot sn cm th iv args) = None \<Longrightarrow>
    (case ot of OP_PREDICATE \<Rightarrow> args = [] | OP_UNTIL \<Rightarrow> length args = 2 | OP_AND \<Rightarrow> args \<noteq> [] | OP_OR \<Rightarrow> args \<noteq> []
     | _ \<Rightarrow> length args = 1)"
  by (cases ot) (auto simp: check_node_def Let_def split: if_splits)

lemma compile_node_valid:
  "check_formula declared f = None \<Longrightarrow> 0 < period \<Longrightarrow> node_valid (fst (compile_node keys atoms period f))"
proof (induction f)
  case (Formula ot sn cm th iv args)
  then have args: "\<forall>f \<in> set args. node_valid (fst (compile_node keys atoms period f))"
    and node: "check_node declared (Formula ot sn cm th iv args) = None"
    by (auto simp: check_formula_parts simp del: check_formula.simps)
  show ?case
  proof (cases "ot = OP_PREDICATE")
    case True
    then show ?thesis
      using check_predicate[of declared sn cm th iv args] node by (auto simp: Let_def)
  next
    case False
    have "windowed ot \<Longrightarrow> \<exists>lo hi. iv = Some (Some lo, Some hi) \<and> samples period (Some lo) \<le> samples period (Some hi)"
      using check_windowed[OF node] samples_mono[OF Formula.prems(2)] by blast
    then show ?thesis
      using False check_arity[OF node] args
      by (cases ot) (auto simp: windowed_def interval_required_def Let_def list_all_iff)
  qed
qed

lemma compile_node_semantics:
  assumes "check_formula keys f = None"
    and "set (resolve_atoms keys (formula_atoms f)) \<subseteq> set atoms"
    and pred: "\<And>t a. a \<in> set atoms \<Longrightarrow> pred t (position atoms a) = Fin (raw_margin keys (sig t) a)"
  shows "node_semantics pred (fst (compile_node keys atoms period f)) t
    = formula_semantics period sig f t"
  using assms(1,2)
proof (induction f arbitrary: t)
  case (Formula ot sn cm th iv args)
  have node: "check_node keys (Formula ot sn cm th iv args) = None"
    using Formula.prems(1) by (simp only: check_formula_parts)
  show ?case
  proof (cases "ot = OP_PREDICATE")
    case True
    then obtain k c x where leaf: "sn = Some k" "cm = Some c" "th = Some x" "k \<in> set keys"
      using check_predicate[of keys sn cm th iv args] node by auto
    then have "(c, position keys k, x) \<in> set atoms"
      using Formula.prems(2) True by (simp add: resolve_atoms_def)
    then show ?thesis
      using True leaf pred[of "(c, position keys k, x)"] position_nth[of k keys]
      by (simp add: raw_margin_def Let_def)
  next
    case False
    have sub: "set (resolve_atoms keys (formula_atoms f)) \<subseteq> set atoms" if "f \<in> set args" for f
      using that Formula.prems(2) False by (fastforce simp: resolve_atoms_def)
    have "map (\<lambda>a. node_semantics pred
          (fst (compile_node keys atoms period a))) args = map (formula_semantics period sig) args"
      using Formula.prems(1) sub
      by (intro map_cong[OF refl] ext Formula.IH)
         (auto simp: check_formula_parts simp del: check_formula.simps)
    moreover have "op_semantics ot lo hi fs t = op_semantics ot lo' hi' fs t" if "\<not> windowed ot" for lo hi lo' hi' fs
      using that False by (cases ot) (auto simp: op_semantics_def windowed_def)
    moreover have "iv \<noteq> None" if "windowed ot"
      using check_windowed[OF node that] by auto
    ultimately show ?thesis
      using False
      by (cases "windowed ot") (auto simp: windowed_def Let_def comp_def or_zero_def cong: map_cong)
  qed
qed

section \<open>The whole contract\<close>

text \<open>What \<^verbatim>\<open>compile_spec\<close> has computed when it returns a model.\<close>

lemma compile_spec_parts:
  assumes "compile_spec H period spec = Inr m"
  defines "keys \<equiv> sort (map sig_key (ss_signals spec))"
  obtains raw bounds terms monitors where
    "0 < period" "validate_safety_spec spec = Inr ()"
    "rmap (constraint_atoms keys) (ss_constraints spec) = Inr raw"
    "rmap (scalar_bounds_of keys (ordered_atoms (concat raw))) (ss_constraints spec) = Inr bounds"
    "rmap keep_out_term_of (filter is_keep_out (ss_constraints spec)) = Inr terms"
    "rmap (monitor_of keys (ordered_atoms (concat raw)) period)
      (filter (\<lambda>c. sc_kind c = TEMPORAL) (ss_constraints spec)) = Inr monitors"
    "cm_signals m = keys"
    "cm_atoms m = map (\<lambda>(ot, si, th). \<lparr>atom_op = ot, atom_signal = si, atom_threshold = th\<rparr>)
      (ordered_atoms (concat raw))"
    "set (cm_scalar_bounds m) = set (concat bounds)" "set (cm_keep_outs m) = set terms"
    "set (cm_monitors m) = set monitors" "cm_limits m = action_limits_of spec"
    "cm_directives m = admissible_directives_of spec" "cm_period m = period"
    "cm_safe_pose m = map_option compiled_pose_of (ss_safe_pose spec)"
    "cm_spec_hash m = H spec"
    "cm_resources m =
      \<lparr>rb_predicates = length (cm_atoms m), rb_scalars = length (cm_scalar_bounds m),
       rb_keep_outs = length (cm_keep_outs m), rb_monitors = length (cm_monitors m),
       rb_history = greatest (map ma_history (cm_monitors m)),
       rb_terms = length (cm_atoms m) + length (cm_keep_outs m) + sum_list (map ma_nodes (cm_monitors m))\<rparr>"
  using assms(1)
  by (auto simp: compile_spec_def rbind_Inr Let_def keys_def[symmetric] split: if_splits)

definition atom_margin :: "predicate_atom \<Rightarrow> real list \<Rightarrow> real" where
  "atom_margin a sigs = op_robustness (atom_op a) (sigs ! atom_signal a) (atom_threshold a)"

text \<open>The predicate values of a model over the signals of each tick.\<close>

definition model_pred :: "compiled_model \<Rightarrow> (nat \<Rightarrow> string \<Rightarrow> real) \<Rightarrow> nat \<Rightarrow> nat \<Rightarrow> robustness" where
  "model_pred m sig t i = Fin (atom_margin (cm_atoms m ! i) (map (sig t) (cm_signals m)))"

lemma atom_margin_raw:
  assumes "cm_atoms m = map (\<lambda>(ot, si, th). \<lparr>atom_op = ot, atom_signal = si, atom_threshold = th\<rparr>) atoms"
    and "cm_signals m = keys" and "(ot, si, th) \<in> set atoms" and "si < length keys"
  shows "atom_margin (cm_atoms m ! position atoms (ot, si, th)) (map sig (cm_signals m))
    = op_robustness ot (sig (keys ! si)) th"
  using assms position_nth[of "(ot, si, th)" atoms] by (simp add: atom_margin_def)

subsection \<open>What the loader guarantees\<close>

lemma validated:
  assumes "validate_safety_spec spec = Inr ()"
  defines "keys \<equiv> map sig_key (ss_signals spec)"
  shows "schema_ok spec" "duplicates keys = []" "duplicates (map sc_id (ss_constraints spec)) = []"
    "\<And>c. c \<in> set (ss_constraints spec) \<Longrightarrow> check_constraint keys c = Inr ()"
  using assms
  by (auto simp: validate_safety_spec_def check_contract_def Let_def rbind_Inr split: if_splits)

lemma duplicates_distinct: "(duplicates ks = []) = distinct ks"
proof -
  have "duplicates ks = [] \<longleftrightarrow> (\<forall>k \<in> set ks. count_list ks k \<le> 1)"
    by (auto simp: duplicates_def filter_empty_conv not_less Ball_def simp flip: set_empty2)
  also have "\<dots> \<longleftrightarrow> distinct ks"
  proof (induction ks)
    case (Cons k ks)
    show ?case
      using Cons by (auto simp: count_list_0_iff Suc_le_eq)
  qed simp
  finally show ?thesis .
qed

text \<open>The payload that the kind of a checked constraint promises.\<close>

lemma check_union_present:
  "check_union flds expected what = Inr () \<longleftrightarrow> map fst (filter snd flds) = [expected]"
  by (simp add: check_union_def Let_def)

lemma no_fault: "(\<forall>a b. x \<noteq> Some (a, b)) = (x = None)"
  by (cases x) auto

lemma checked_payload:
  assumes "check_constraint declared c = Inr ()"
  shows "sc_kind c = KEEP_OUT \<Longrightarrow> \<exists>k. sc_keep_out c = Some k \<and> check_keep_out (sc_id c) k = Inr ()"
    and "sc_kind c = TEMPORAL \<Longrightarrow> \<exists>f. sc_temporal c = Some f \<and> check_formula declared f = None"
    and "sc_kind c = KINEMATIC_LIMIT \<Longrightarrow> \<exists>k. sc_kinematic_limit c = Some k \<and> km_signal k \<in> set declared"
    and "sc_kind c \<notin> {KEEP_OUT, TEMPORAL, KINEMATIC_LIMIT} \<Longrightarrow>
      \<exists>p. scalar_payload c = Some p \<and> sl_signal p \<in> set declared"
  using assms
  by (auto simp: check_constraint_def rbind_Inr check_signal_key_def no_fault
      split: ConstraintKind.splits if_splits option.split_asm)

subsection \<open>Scalar bounds\<close>

text \<open>
  The reviewed meaning of a one-sided constraint (\<^verbatim>\<open>guard/spec/model.py\<close>): a kinematic limit bounds
  the magnitude of its signal. What the lowering enforces of it is one-sided: the signal itself is not
  above the limit.
\<close>

definition scalar_holds :: "(string \<Rightarrow> real) \<Rightarrow> safety_constraint \<Rightarrow> bool" where
  "scalar_holds sig c =
    (let floor = pred_option (\<lambda>p. sl_limit p \<le> sig (sl_signal p));
         ceiling = pred_option (\<lambda>p. sig (sl_signal p) \<le> sl_limit p)
     in case sc_kind c of
          POWER_FLOOR \<Rightarrow> floor (sc_power_floor c)
        | ENERGY_FLOOR \<Rightarrow> floor (sc_energy_floor c)
        | THERMAL_FLOOR \<Rightarrow> floor (sc_thermal_floor c)
        | THERMAL_CEILING \<Rightarrow> ceiling (sc_thermal_ceiling c)
        | TORQUE_CEILING \<Rightarrow> ceiling (sc_torque_ceiling c)
        | KINEMATIC_LIMIT \<Rightarrow>
            pred_option (\<lambda>k. pred_option (\<lambda>x. \<bar>sig (km_signal k)\<bar> \<le> x) (km_velocity k)
              \<and> pred_option (\<lambda>x. \<bar>sig (km_signal k)\<bar> \<le> x) (km_accel k)) (sc_kinematic_limit c)
        | _ \<Rightarrow> True)"

definition scalar_enforced :: "(string \<Rightarrow> real) \<Rightarrow> safety_constraint \<Rightarrow> bool" where
  "scalar_enforced sig c =
    (let floor = pred_option (\<lambda>p. sl_limit p \<le> sig (sl_signal p));
         ceiling = pred_option (\<lambda>p. sig (sl_signal p) \<le> sl_limit p)
     in case sc_kind c of
          POWER_FLOOR \<Rightarrow> floor (sc_power_floor c)
        | ENERGY_FLOOR \<Rightarrow> floor (sc_energy_floor c)
        | THERMAL_FLOOR \<Rightarrow> floor (sc_thermal_floor c)
        | THERMAL_CEILING \<Rightarrow> ceiling (sc_thermal_ceiling c)
        | TORQUE_CEILING \<Rightarrow> ceiling (sc_torque_ceiling c)
        | KINEMATIC_LIMIT \<Rightarrow>
            pred_option (\<lambda>k. pred_option (\<lambda>x. sig (km_signal k) \<le> x) (km_velocity k)
              \<and> pred_option (\<lambda>x. sig (km_signal k) \<le> x) (km_accel k)) (sc_kinematic_limit c)
        | _ \<Rightarrow> True)"

text \<open>The two agree unless a kinematic signal is negative.\<close>

definition kinematic_forward :: "(string \<Rightarrow> real) \<Rightarrow> safety_constraint \<Rightarrow> bool" where
  "kinematic_forward sig c =
    (sc_kind c = KINEMATIC_LIMIT \<longrightarrow> pred_option (\<lambda>k. 0 \<le> sig (km_signal k)) (sc_kinematic_limit c))"

lemma scalar_enforced_reviewed:
  "scalar_holds sig c \<Longrightarrow> scalar_enforced sig c"
  "kinematic_forward sig c \<Longrightarrow> scalar_enforced sig c = scalar_holds sig c"
  by (auto simp: scalar_holds_def scalar_enforced_def kinematic_forward_def option.pred_set Let_def
      split: ConstraintKind.splits)

definition is_scalar :: "safety_constraint \<Rightarrow> bool" where
  "is_scalar c = (sc_kind c \<noteq> TEMPORAL \<and> sc_kind c \<noteq> KEEP_OUT)"

lemma scalar_atoms_hold:
  "scalar_atoms c = Inr as \<Longrightarrow> is_scalar c \<Longrightarrow>
    (\<forall>a \<in> set as. case a of (ot, k, th) \<Rightarrow> 0 \<le> op_robustness ot (sig k) th) = scalar_enforced sig c"
  by (cases "sc_kind c")
     (auto simp: scalar_atoms_def one_sided_def scalar_enforced_def is_scalar_def Let_def split: option.splits)

lemma scalar_atoms_declared:
  assumes "check_constraint declared c = Inr ()" "scalar_atoms c = Inr as" "(ot, k, th) \<in> set as" "is_scalar c"
  shows "k \<in> set declared"
  using assms checked_payload(3,4)[OF assms(1)]
  by (cases "sc_kind c")
     (auto simp: scalar_atoms_def one_sided_def scalar_payload_def is_scalar_def split: option.splits if_splits)

lemma scalar_atoms_total:
  "check_constraint declared c = Inr () \<Longrightarrow> is_scalar c \<Longrightarrow> \<exists>as. scalar_atoms c = Inr as"
  using checked_payload(3,4)[of declared c]
  by (cases "sc_kind c")
     (auto simp: scalar_atoms_def one_sided_def scalar_payload_def is_scalar_def asserted_def)

lemma scalar_bounds_exact:
  assumes parts: "cm_atoms m = map (\<lambda>(ot, si, th). \<lparr>atom_op = ot, atom_signal = si, atom_threshold = th\<rparr>) atoms"
      "cm_signals m = keys"
    and check: "check_constraint keys c = Inr ()" and bounds: "scalar_bounds_of keys atoms c = Inr bs"
    and "is_scalar c" and sub: "\<And>raw. constraint_atoms keys c = Inr raw \<Longrightarrow> set raw \<subseteq> set atoms"
  shows "(\<forall>b \<in> set bs. 0 \<le> atom_margin (cm_atoms m ! sb_atom b) (map sig (cm_signals m))) = scalar_enforced sig c"
proof -
  obtain as where as: "scalar_atoms c = Inr as"
    and bs: "bs = map (\<lambda>a. \<lparr>sb_constraint = sc_id c, sb_on_uncertain = sc_on_uncertain c,
                       sb_atom = position atoms a\<rparr>) (resolve_atoms keys as)"
    using bounds assms(5) by (auto simp: scalar_bounds_of_def constraint_atoms_def is_scalar_def rbind_Inr)
  have sub': "set (resolve_atoms keys as) \<subseteq> set atoms"
    using as assms(5) by (intro sub) (simp add: constraint_atoms_def is_scalar_def)
  have "0 \<le> atom_margin (cm_atoms m ! position atoms (ot, position keys k, th)) (map sig (cm_signals m))
      \<longleftrightarrow> 0 \<le> op_robustness ot (sig k) th" if "(ot, k, th) \<in> set as" for ot k th
  proof -
    have "k \<in> set keys"
      using scalar_atoms_declared[OF check as that assms(5)] .
    moreover have "(ot, position keys k, th) \<in> set atoms"
      using sub' that by (force simp: resolve_atoms_def)
    ultimately show ?thesis
      using atom_margin_raw[OF parts, of ot "position keys k" th sig] position_nth[of k keys] by simp
  qed
  then show ?thesis
    using scalar_atoms_hold[OF as assms(5), of sig, symmetric] by (auto simp: bs resolve_atoms_def)
qed

subsection \<open>The declared signals are a set\<close>

lemma check_formula_set:
  assumes "set d = set d'"
  shows "check_formula d f = check_formula d' f"
proof (induction f)
  case (Formula ot sn cm th iv args)
  have "check_node d (Formula ot sn cm th iv args) = check_node d' (Formula ot sn cm th iv args)"
    unfolding check_node_def assms by (rule refl)
  moreover have "check_operands d i fs = check_operands d' i fs" if "set fs \<subseteq> set args" for i fs
    using that Formula.IH by (induction fs arbitrary: i) (simp_all split: option.splits)
  ultimately show ?case
    by (simp split: option.splits)
qed

lemma check_constraint_set:
  assumes "set d = set d'"
  shows "check_constraint d c = check_constraint d' c"
proof -
  have eqs: "check_formula d f = check_formula d' f" "check_signal_key s d w = check_signal_key s d' w" for f s w
    using check_formula_set[OF assms] assms by (simp_all add: check_signal_key_def)
  show ?thesis
    unfolding check_constraint_def eqs by (rule refl)
qed

lemma compiled_checked:
  assumes "validate_safety_spec spec = Inr ()" "c \<in> set (ss_constraints spec)"
  shows "check_constraint (sort (map sig_key (ss_signals spec))) c = Inr ()"
  using validated(4)[OF assms] check_constraint_set[of "sort (map sig_key (ss_signals spec))" "map sig_key (ss_signals spec)" c]
  by simp

subsection \<open>Every atom of a constraint is in the table\<close>

lemma constraint_atoms_covered:
  "rmap (constraint_atoms keys) cs = Inr raw \<Longrightarrow> c \<in> set cs \<Longrightarrow> constraint_atoms keys c = Inr as \<Longrightarrow>
    set as \<subseteq> set (ordered_atoms (concat raw))"
  using rmap_member[of "constraint_atoms keys" cs raw c] by (auto simp: ordered_atoms_def)

lemma formula_atoms_declared:
  "check_formula declared f = None \<Longrightarrow> (ot, k, th) \<in> set (formula_atoms f) \<Longrightarrow> k \<in> set declared"
proof (induction f)
  case (Formula ot' sn cm th' iv args)
  then have node: "check_node declared (Formula ot' sn cm th' iv args) = None"
    and args: "\<And>f. f \<in> set args \<Longrightarrow> check_formula declared f = None"
    by (auto simp: check_formula_parts simp del: check_formula.simps)
  show ?case
    using Formula.IH[OF _ args] Formula.prems(2) check_predicate[of declared sn cm th' iv args] node
    by (cases "ot' = OP_PREDICATE") auto
qed

lemma compiled_atoms_declared:
  assumes "validate_safety_spec spec = Inr ()"
  defines "keys \<equiv> sort (map sig_key (ss_signals spec))"
  assumes "rmap (constraint_atoms keys) (ss_constraints spec) = Inr raw"
    and "(ot, si, th) \<in> set (ordered_atoms (concat raw))"
  shows "si < length keys"
proof -
  obtain c as where c: "c \<in> set (ss_constraints spec)" "constraint_atoms keys c = Inr as" "(ot, si, th) \<in> set as"
    using rmap_image[OF assms(3)] assms(4) by (fastforce simp: ordered_atoms_def)
  have check: "check_constraint keys c = Inr ()"
    using compiled_checked[OF assms(1) c(1)] by (simp add: keys_def)
  have "\<exists>k. k \<in> set keys \<and> si = position keys k"
  proof (cases "is_scalar c")
    case True
    then show ?thesis
      using c(2,3) scalar_atoms_declared[OF check _ _ True]
      by (fastforce simp: constraint_atoms_def is_scalar_def resolve_atoms_def rbind_Inr)
  next
    case False
    then have "sc_kind c = TEMPORAL"
      using c(2,3) by (auto simp: constraint_atoms_def is_scalar_def resolve_atoms_def rbind_Inr split: if_splits)
    moreover obtain f where "sc_temporal c = Some f" "check_formula keys f = None"
      using checked_payload(2)[OF check calculation] by auto
    ultimately have "\<exists>k. (ot, k, th) \<in> set (formula_atoms f) \<and> si = position keys k" "check_formula keys f = None"
      using c(2,3) by (auto simp: constraint_atoms_def temporal_atoms_def asserted_def resolve_atoms_def)
    then show ?thesis
      using formula_atoms_declared[of keys f ot _ th] by blast
  qed
  then show ?thesis
    using position_nth[of _ keys] by blast
qed

subsection \<open>The compiler does not fail on a validated contract\<close>

lemma keep_out_term_total:
  assumes "check_keep_out (sc_id c) k = Inr ()" "sc_keep_out c = Some k"
  shows "\<exists>t. keep_out_term_of c = Inr t"
proof -
  let ?v = "ko_volume k"
  have u: "map fst (filter snd (shape_fields ?v)) = [shape_field (vol_shape ?v)]"
    and n: "half_space_normal_ok (sc_id c) ?v = Inr ()"
    using assms(1) by (auto simp: check_keep_out_def rbind_Inr Let_def check_union_present)
  show ?thesis
    using u n assms(2)
    by (cases "vol_shape ?v")
       (auto simp: shape_fields_def keep_out_term_of_def asserted_def half_space_normal_ok_def Let_def
         split: option.splits if_splits prod.splits)
qed

lemma compile_total:
  assumes "validate_safety_spec spec = Inr ()" "0 < period"
  shows "\<exists>m. compile_spec H period spec = Inr m"
proof -
  let ?keys = "sort (map sig_key (ss_signals spec))" and ?cs = "ss_constraints spec"
  have check: "check_constraint ?keys c = Inr ()" if "c \<in> set ?cs" for c
    using compiled_checked[OF assms(1) that] .
  have atoms: "\<exists>as. constraint_atoms ?keys c = Inr as" if "c \<in> set ?cs" for c
    using checked_payload(2)[OF check[OF that]] scalar_atoms_total[OF check[OF that]]
    by (cases "sc_kind c") (auto simp: constraint_atoms_def temporal_atoms_def is_scalar_def asserted_def)
  obtain raw where raw: "rmap (constraint_atoms ?keys) ?cs = Inr raw"
    using rmap_total[of ?cs "constraint_atoms ?keys"] atoms by blast
  let ?atoms = "ordered_atoms (concat raw)"
  have "\<exists>bs. scalar_bounds_of ?keys ?atoms c = Inr bs" if "c \<in> set ?cs" for c
    using atoms[OF that] by (auto simp: scalar_bounds_of_def)
  then obtain bounds where bounds: "rmap (scalar_bounds_of ?keys ?atoms) ?cs = Inr bounds"
    using rmap_total[of ?cs] by blast
  have "\<exists>t. keep_out_term_of c = Inr t" if "c \<in> set (filter is_keep_out ?cs)" for c
    using that checked_payload(1)[OF check] keep_out_term_total by (auto simp: is_keep_out_def)
  then obtain terms where terms: "rmap keep_out_term_of (filter is_keep_out ?cs) = Inr terms"
    using rmap_total[of "filter is_keep_out ?cs"] by blast
  have "\<exists>a. monitor_of ?keys ?atoms period c = Inr a" if "c \<in> set (filter (\<lambda>c. sc_kind c = TEMPORAL) ?cs)" for c
  proof -
    have "\<exists>f. sc_temporal c = Some f"
      using that checked_payload(2)[OF check, of c] by auto
    then show ?thesis
      by (auto simp: monitor_of_def asserted_def case_prod_unfold)
  qed
  then obtain monitors where
    "rmap (monitor_of ?keys ?atoms period) (filter (\<lambda>c. sc_kind c = TEMPORAL) ?cs) = Inr monitors"
    using rmap_total[of "filter (\<lambda>c. sc_kind c = TEMPORAL) ?cs"] by blast
  then show ?thesis
    using assms raw bounds terms by (simp add: compile_spec_def Let_def)
qed

subsection \<open>What is enforced is what was reviewed\<close>

lemma compiled_scalars:
  assumes "compile_spec H period spec = Inr m"
  shows "(\<forall>b \<in> set (cm_scalar_bounds m). 0 \<le> atom_margin (cm_atoms m ! sb_atom b) (map sig (cm_signals m)))
    = (\<forall>c \<in> set (ss_constraints spec). scalar_enforced sig c)"
proof -
  let ?keys = "sort (map sig_key (ss_signals spec))" and ?cs = "ss_constraints spec"
  obtain raw bounds where parts: "validate_safety_spec spec = Inr ()"
    "rmap (constraint_atoms ?keys) ?cs = Inr raw"
    "rmap (scalar_bounds_of ?keys (ordered_atoms (concat raw))) ?cs = Inr bounds"
    "cm_signals m = ?keys"
    "cm_atoms m = map (\<lambda>(ot, si, th). \<lparr>atom_op = ot, atom_signal = si, atom_threshold = th\<rparr>)
      (ordered_atoms (concat raw))"
    "set (cm_scalar_bounds m) = set (concat bounds)"
    using assms by (rule compile_spec_parts)
  have one: "(\<forall>b \<in> set bs. 0 \<le> atom_margin (cm_atoms m ! sb_atom b) (map sig (cm_signals m))) = scalar_enforced sig c"
    if "c \<in> set ?cs" "scalar_bounds_of ?keys (ordered_atoms (concat raw)) c = Inr bs" for c bs
  proof (cases "is_scalar c")
    case True
    then show ?thesis
      using scalar_bounds_exact[OF parts(5,4) compiled_checked[OF parts(1) that(1)] that(2)]
        constraint_atoms_covered[OF parts(2) that(1)] by blast
  next
    case False
    then show ?thesis
      using that(2) by (auto simp: is_scalar_def scalar_bounds_of_def scalar_enforced_def Let_def)
  qed
  show ?thesis
  proof
    assume all: "\<forall>b \<in> set (cm_scalar_bounds m). 0 \<le> atom_margin (cm_atoms m ! sb_atom b) (map sig (cm_signals m))"
    show "\<forall>c \<in> set ?cs. scalar_enforced sig c"
    proof
      fix c assume c: "c \<in> set ?cs"
      then obtain bs where bs: "bs \<in> set bounds" "scalar_bounds_of ?keys (ordered_atoms (concat raw)) c = Inr bs"
        using rmap_member[OF parts(3)] by blast
      have "set bs \<subseteq> set (cm_scalar_bounds m)"
        using bs(1) parts(6) by auto
      then show "scalar_enforced sig c"
        using all one[OF c bs(2)] by blast
    qed
  next
    assume all: "\<forall>c \<in> set ?cs. scalar_enforced sig c"
    show "\<forall>b \<in> set (cm_scalar_bounds m). 0 \<le> atom_margin (cm_atoms m ! sb_atom b) (map sig (cm_signals m))"
    proof
      fix b assume "b \<in> set (cm_scalar_bounds m)"
      then obtain bs where bs: "bs \<in> set bounds" "b \<in> set bs"
        using parts(6) by auto
      then obtain c where "c \<in> set ?cs" "scalar_bounds_of ?keys (ordered_atoms (concat raw)) c = Inr bs"
        using rmap_image[OF parts(3)] by blast
      then show "0 \<le> atom_margin (cm_atoms m ! sb_atom b) (map sig (cm_signals m))"
        using all one bs(2) by blast
    qed
  qed
qed

lemma compiled_monitor:
  assumes "compile_spec H period spec = Inr m" "c \<in> set (ss_constraints spec)" "sc_kind c = TEMPORAL"
  shows "\<exists>a f. a \<in> set (cm_monitors m) \<and> sc_temporal c = Some f \<and> ma_constraint a = sc_id c
    \<and> ma_on_uncertain a = sc_on_uncertain c \<and> node_valid (ma_root a) \<and> ma_history a = history_window (ma_root a)
    \<and> (\<forall>sig t. node_semantics (model_pred m sig) (ma_root a) t = formula_semantics period sig f t)"
proof -
  let ?keys = "sort (map sig_key (ss_signals spec))" and ?cs = "ss_constraints spec"
  obtain raw monitors where parts: "0 < period" "validate_safety_spec spec = Inr ()"
    "rmap (constraint_atoms ?keys) ?cs = Inr raw"
    "rmap (monitor_of ?keys (ordered_atoms (concat raw)) period) (filter (\<lambda>c. sc_kind c = TEMPORAL) ?cs)
      = Inr monitors"
    "cm_signals m = ?keys"
    "cm_atoms m = map (\<lambda>(ot, si, th). \<lparr>atom_op = ot, atom_signal = si, atom_threshold = th\<rparr>)
      (ordered_atoms (concat raw))"
    "set (cm_monitors m) = set monitors"
    using assms(1) by (rule compile_spec_parts)
  let ?atoms = "ordered_atoms (concat raw)"
  obtain f where f: "sc_temporal c = Some f" "check_formula ?keys f = None"
    using checked_payload(2)[OF compiled_checked[OF parts(2) assms(2)] assms(3)] by auto
  have sub: "set (resolve_atoms ?keys (formula_atoms f)) \<subseteq> set ?atoms"
    using constraint_atoms_covered[OF parts(3) assms(2)] assms(3) f(1)
    by (simp add: constraint_atoms_def temporal_atoms_def asserted_def)
  obtain a where a: "a \<in> set (cm_monitors m)" "monitor_of ?keys ?atoms period c = Inr a"
    using rmap_member[OF parts(4), of c] assms(2,3) parts(7) by auto
  have root: "ma_root a = fst (compile_node ?keys ?atoms period f)"
    using a(2) f(1) by (auto simp: monitor_of_def split: prod.splits)
  have keys: "si < length ?keys" if "(ot, si, th) \<in> set ?atoms" for ot si th
    using compiled_atoms_declared[OF parts(2,3) that] .
  have pred: "model_pred m sig t (position ?atoms a') = Fin (raw_margin ?keys (sig t) a')" if "a' \<in> set ?atoms"
    for sig t a'
  proof (cases a')
    case (fields ot si th)
    then show ?thesis
      using atom_margin_raw[OF parts(6,5), of ot si th "sig t"] keys that by (simp add: model_pred_def raw_margin_def)
  qed
  have "node_semantics (model_pred m sig) (ma_root a) t = formula_semantics period sig f t" for sig t
    unfolding root using compile_node_semantics[OF f(2) sub pred] .
  moreover have "node_valid (ma_root a)"
    unfolding root using compile_node_valid[OF f(2) parts(1)] .
  ultimately show ?thesis
    using a f(1) by (auto simp: monitor_of_def split: prod.splits)
qed

end
