(* ===== verification/Guard_Shield.thy ===== *)
theory Guard_Shield
  imports Guard_Compile
begin

text \<open>
  The correct layer of the trusted core (\<^verbatim>\<open>rust/src/shield.rs\<close>): the keep-out barriers, the
  kinematic envelope, the Dykstra projection and the certification of its result. Doubles are
  reals; a component that may be non-finite is a \<open>real option\<close>. The scratch buffers of the
  solver are rewritten before they are read in every call, so they are local values here. A
  certified command keeps every reviewed keep-out volume at its margin for one step, and a command
  that is already admissible is returned as it is.
\<close>

section \<open>Vectors\<close>

definition vdot :: "real list \<Rightarrow> real list \<Rightarrow> real" where
  "vdot a b = sum_list (map (\<lambda>(x, y). x * y) (zip a b))"

definition vnorm :: "real list \<Rightarrow> real" where
  "vnorm v = sqrt (sum_list (map (\<lambda>x. x * x) v))"

definition clamp :: "real \<Rightarrow> real \<Rightarrow> real \<Rightarrow> real" where
  "clamp x lo hi = (if x < lo then lo else if hi < x then hi else x)"

definition coord_or_zero :: "real list \<Rightarrow> nat \<Rightarrow> real" where
  "coord_or_zero xs i = (if i < length xs then xs ! i else 0)"

text \<open>The first \<open>n\<close> components, when there are that many and all are finite.\<close>

definition finite_prefix :: "nat \<Rightarrow> real option list \<Rightarrow> real list option" where
  "finite_prefix n xs =
    (if length xs < n \<or> \<not> list_all (\<lambda>x. x \<noteq> None) (take n xs) then None else Some (map the (take n xs)))"

section \<open>Barriers\<close>

datatype control_channel = Effort | Velocity | Position

record shield_config =
  cfg_k0 :: real
  cfg_k1 :: real
  cfg_u_max :: real
  cfg_v_max :: real
  cfg_tol :: real
  cfg_max_iter :: nat

datatype barrier = NormBarrier "real list" real | HalfBarrier "real list" real

text \<open>\<^verbatim>\<open>f64::MIN_POSITIVE\<close> and \<^verbatim>\<open>f64::EPSILON\<close>.\<close>

definition f64_min_positive :: real where
  "f64_min_positive = 1 / 2 ^ 1022"

definition f64_epsilon :: real where
  "f64_epsilon = 1 / 2 ^ 52"

definition barrier_of_term :: "nat \<Rightarrow> keep_out_term \<Rightarrow> barrier" where
  "barrier_of_term sd t =
    (case kt_shape t of
       SPHERE \<Rightarrow> NormBarrier (kt_center t) ((case kt_radius t of None \<Rightarrow> 0 | Some r \<Rightarrow> r) + kt_margin t)
     | BOX \<Rightarrow> NormBarrier (kt_center t) (vnorm (kt_half_extents t) + kt_margin t)
     | HALF_SPACE \<Rightarrow>
         (let n = max (vnorm (kt_normal t)) f64_min_positive;
              rhs = (kt_margin t - (case kt_offset t of None \<Rightarrow> 0 | Some x \<Rightarrow> x)) / n;
              unit = map (\<lambda>x. x / n) (kt_normal t)
          in HalfBarrier (take sd (unit @ replicate sd 0)) rhs))"

definition static_h :: "nat \<Rightarrow> barrier \<Rightarrow> (nat \<Rightarrow> real) \<Rightarrow> real" where
  "static_h sd b q =
    (case b of
       NormBarrier c r \<Rightarrow> sqrt (sum_list (map (\<lambda>i. (q i - coord_or_zero c i) * (q i - coord_or_zero c i)) [0..<sd])) - r
     | HalfBarrier n rhs \<Rightarrow> sum_list (map (\<lambda>i. n ! i * q i) [0..<sd]) - rhs)"

section \<open>The kinematic kernels\<close>

definition project_box_axis :: "real \<Rightarrow> real \<Rightarrow> real" where
  "project_box_axis x limit = clamp x (- limit) limit"

definition ball_scale_is_sound :: "real \<Rightarrow> real \<Rightarrow> real \<Rightarrow> bool" where
  "ball_scale_is_sound len radius scale =
    (0 \<le> scale \<and> scale \<le> 1 \<and> len * scale \<le> radius * (1 + 4 * f64_epsilon))"

definition ball_scale :: "real \<Rightarrow> real \<Rightarrow> real" where
  "ball_scale len radius =
    (if \<not> (radius < len \<and> 0 < len) then 1
     else let candidate = radius / len
          in if ball_scale_is_sound len radius candidate then candidate else 0)"

definition tighten :: "real \<Rightarrow> real option \<Rightarrow> real" where
  "tighten configured authored =
    (case authored of
       Some limit \<Rightarrow> if 0 < limit then min configured limit else configured
     | None \<Rightarrow> configured)"

definition narrow :: "string list \<Rightarrow> string list option \<Rightarrow> string list" where
  "narrow configured authored =
    (case authored of None \<Rightarrow> [] | Some grant \<Rightarrow> filter (\<lambda>n. n \<in> set grant) configured)"

section \<open>The shield\<close>

record shield =
  shd_dim :: nat
  shd_barriers :: "barrier list"
  shd_cfg :: shield_config
  shd_dt :: real
  shd_u_max :: real
  shd_v_max :: real
  shd_step_max :: real

definition shield_new :: "keep_out_term list \<Rightarrow> nat \<Rightarrow> shield_config \<Rightarrow> real \<Rightarrow> action_limits \<Rightarrow> shield" where
  "shield_new terms sd cfg dt limits =
    (let dt = (if 0 < dt then dt else 1); v = tighten (cfg_v_max cfg) (lim_velocity limits)
     in \<lparr>shd_dim = sd, shd_barriers = map (barrier_of_term sd) terms, shd_cfg = cfg, shd_dt = dt,
         shd_u_max = tighten (cfg_u_max cfg) (lim_accel limits), shd_v_max = v, shd_step_max = v * dt\<rparr>)"

text \<open>
  \<^verbatim>\<open>eval_barrier\<close>: the normal of the constraint row, its right-hand side, the barrier value, and
  whether the barrier has a normal at all.
\<close>

definition eval_barrier :: "shield \<Rightarrow> control_channel \<Rightarrow> real list \<Rightarrow> real list \<Rightarrow> barrier
    \<Rightarrow> real list \<times> real \<times> real \<times> bool" where
  "eval_barrier s mode p v b =
    (let sd = shd_dim s; cfg = shd_cfg s;
         rel = (\<lambda>c. map (\<lambda>i. p ! i - coord_or_zero c i) [0..<sd]);
         row = (\<lambda>a h curvature.
           (case mode of
              Effort \<Rightarrow> - (curvature (vdot a v) + cfg_k1 cfg * vdot a v + cfg_k0 cfg * h)
            | Velocity \<Rightarrow> - h / shd_dt s
            | Position \<Rightarrow> vdot a p - h))
     in case b of
          NormBarrier c r \<Rightarrow>
            (let d = vnorm (rel c)
             in if d < 1 / 10 ^ 9 then (rel c, 0, - r, False)
                else let a = map (\<lambda>x. x / d) (rel c); h = d - r
                     in (a, row a h (\<lambda>hdot. (vdot v v - hdot * hdot) / d), h, True))
        | HalfBarrier n rhs \<Rightarrow>
            (let a = take sd n; h = vdot n p - rhs in (a, row a h (\<lambda>_. 0), h, True)))"

definition project_kinematic :: "shield \<Rightarrow> control_channel \<Rightarrow> real list \<Rightarrow> real list \<Rightarrow> real list" where
  "project_kinematic s mode p y =
    (case mode of
       Effort \<Rightarrow> map (\<lambda>x. project_box_axis x (shd_u_max s)) y
     | Velocity \<Rightarrow> (let scale = ball_scale (vnorm y) (shd_v_max s) in map (\<lambda>x. x * scale) y)
     | Position \<Rightarrow>
         (let off = map2 (-) y p; scale = ball_scale (vnorm off) (shd_step_max s)
          in map2 (\<lambda>a d. a + d * scale) p off))"

type_synonym row = "real list \<times> real"

definition row_feasible :: "real \<Rightarrow> real list \<Rightarrow> row \<Rightarrow> bool" where
  "row_feasible tol x r = (snd r - tol \<le> vdot (fst r) x)"

text \<open>
  One Dykstra cycle: the kinematic set first, then every half-space, each with its correction
  vector.
\<close>

definition project_row :: "row \<Rightarrow> real list \<Rightarrow> real list \<Rightarrow> real list \<times> real list" where
  "project_row r x corr =
    (case r of (a, b) \<Rightarrow>
       (let y = map2 (+) x corr; ay = vdot a y; nn = vdot a a
        in if ay < b \<and> 0 < nn
           then let t = (b - ay) / nn; proj = map2 (\<lambda>u w. u + t * w) y a in (proj, map2 (-) y proj)
           else (y, map (\<lambda>_. 0) y)))"

fun project_rows :: "row list \<Rightarrow> real list list \<Rightarrow> real list \<Rightarrow> real list \<times> real list list" where
  "project_rows (r # rs) (c # cs) x =
    (case project_row r x c of (x', c') \<Rightarrow>
       (case project_rows rs cs x' of (x'', cs') \<Rightarrow> (x'', c' # cs')))"
| "project_rows _ cs x = (x, cs)"

definition dykstra_cycle :: "shield \<Rightarrow> control_channel \<Rightarrow> real list \<Rightarrow> row list
    \<Rightarrow> real list \<times> real list \<times> real list list \<Rightarrow> real list \<times> real list \<times> real list list" where
  "dykstra_cycle s mode p rows st =
    (case st of (x, c0, cs) \<Rightarrow>
       (let y = map2 (+) x c0; x' = project_kinematic s mode p y
        in case project_rows rows cs x' of (x'', cs') \<Rightarrow> (x'', map2 (-) y x', cs')))"

text \<open>
  The loop stops when the iterate has stopped moving and is feasible, or when the budget is spent.
\<close>

primrec dykstra_loop :: "shield \<Rightarrow> control_channel \<Rightarrow> real list \<Rightarrow> row list \<Rightarrow> nat
    \<Rightarrow> real list \<times> real list \<times> real list list \<Rightarrow> real list" where
  "dykstra_loop s mode p rows 0 st = fst st"
| "dykstra_loop s mode p rows (Suc n) st =
    (let st' = dykstra_cycle s mode p rows st; tol = cfg_tol (shd_cfg s);
         delta = sum_list (map2 (\<lambda>a b. (a - b) ^ 2) (fst st') (fst st))
     in if delta < tol * tol \<and> list_all (row_feasible tol (fst st')) rows then fst st'
        else dykstra_loop s mode p rows n st')"

definition dykstra :: "shield \<Rightarrow> control_channel \<Rightarrow> real list \<Rightarrow> row list \<Rightarrow> real list \<Rightarrow> real list" where
  "dykstra s mode p rows x0 =
    dykstra_loop s mode p rows (cfg_max_iter (shd_cfg s))
      (x0, map (\<lambda>_. 0) x0, map (\<lambda>_. map (\<lambda>_. 0) x0) rows)"

text \<open>\<^verbatim>\<open>certify\<close>: the rows, the kinematic set and the exact next position.\<close>

definition in_envelope :: "shield \<Rightarrow> control_channel \<Rightarrow> real list \<Rightarrow> real list \<Rightarrow> bool" where
  "in_envelope s mode p x =
    (let tol = cfg_tol (shd_cfg s)
     in case mode of
          Effort \<Rightarrow> list_all (\<lambda>u. \<bar>u\<bar> \<le> shd_u_max s + tol) x
        | Velocity \<Rightarrow> vnorm x \<le> shd_v_max s + tol
        | Position \<Rightarrow> sqrt (sum_list (map2 (\<lambda>a b. (a - b) ^ 2) x p)) \<le> shd_step_max s + tol)"

definition next_position :: "shield \<Rightarrow> control_channel \<Rightarrow> real list \<Rightarrow> real list \<Rightarrow> nat \<Rightarrow> real" where
  "next_position s mode p x i =
    (case mode of Velocity \<Rightarrow> p ! i + x ! i * shd_dt s | Position \<Rightarrow> x ! i | Effort \<Rightarrow> p ! i)"

definition certify :: "shield \<Rightarrow> control_channel \<Rightarrow> real list \<Rightarrow> row list \<Rightarrow> real list \<Rightarrow> bool" where
  "certify s mode p rows x =
    (let tol = cfg_tol (shd_cfg s)
     in list_all (row_feasible tol x) rows \<and> in_envelope s mode p x
        \<and> (mode \<noteq> Effort \<longrightarrow>
            list_all (\<lambda>b. - tol \<le> static_h (shd_dim s) b (next_position s mode p x)) (shd_barriers s)))"

record shield_result =
  res_action :: "real option list"
  res_certified :: bool
  res_margin :: robustness

definition solve_mode :: "shield \<Rightarrow> control_channel \<Rightarrow> real option list \<Rightarrow> real option list
    \<Rightarrow> real option list \<Rightarrow> shield_result" where
  "solve_mode s mode p v x0 =
    (let sd = shd_dim s
     in case (finite_prefix sd p, finite_prefix sd v, finite_prefix sd x0) of
          (Some p, Some v, Some x) \<Rightarrow>
            (let evals = map (eval_barrier s mode p v) (shd_barriers s);
                 rows = map (\<lambda>(a, b, h, ok). (a, b)) evals;
                 min_h = least_of (map (\<lambda>(a, b, h, ok). Fin h) evals)
             in if \<not> list_all (\<lambda>(a, b, h, ok). ok) evals
                then \<lparr>res_action = map Some x, res_certified = False, res_margin = min_h\<rparr>
                else let y = dykstra s mode p rows x
                     in \<lparr>res_action = map Some y, res_certified = certify s mode p rows y, res_margin = min_h\<rparr>)
        | _ \<Rightarrow> \<lparr>res_action = take sd x0, res_certified = False, res_margin = MInf\<rparr>)"

section \<open>Geometry\<close>

lemma sum_squares_nonneg: "0 \<le> sum_list (map (\<lambda>x. x * x) v)" for v :: "real list"
  by (induction v) auto

lemma vnorm_nonneg [simp]: "0 \<le> vnorm v"
  by (simp add: vnorm_def sum_squares_nonneg)

lemma vnorm_power2: "(vnorm v)\<^sup>2 = sum_list (map (\<lambda>x. x * x) v)"
  by (simp add: vnorm_def sum_squares_nonneg)

lemma vnorm_Nil [simp]: "vnorm [] = 0"
  by (simp add: vnorm_def)

lemma vnorm_Cons: "vnorm (x # xs) = sqrt (x\<^sup>2 + (vnorm xs)\<^sup>2)"
  by (subst vnorm_power2) (simp add: vnorm_def power2_eq_square)

lemma cauchy_two: "a * b + m * n \<le> sqrt (a\<^sup>2 + m\<^sup>2) * sqrt (b\<^sup>2 + n\<^sup>2)" for a b m n :: real
proof -
  have "(a * b + m * n)\<^sup>2 + (a * n - m * b)\<^sup>2 = (a\<^sup>2 + m\<^sup>2) * (b\<^sup>2 + n\<^sup>2)"
    by algebra
  moreover have "0 \<le> (a * n - m * b)\<^sup>2"
    by simp
  ultimately have "(a * b + m * n)\<^sup>2 \<le> (a\<^sup>2 + m\<^sup>2) * (b\<^sup>2 + n\<^sup>2)"
    by linarith
  then show ?thesis
    by (metis real_le_rsqrt real_sqrt_mult)
qed

lemma cauchy_schwarz: "vdot a b \<le> vnorm a * vnorm b"
proof (induction a b rule: list_induct2')
  case (4 x xs y ys)
  have "vdot (x # xs) (y # ys) = x * y + vdot xs ys"
    by (simp add: vdot_def)
  also have "\<dots> \<le> x * y + vnorm xs * vnorm ys"
    using 4 by simp
  also have "\<dots> \<le> vnorm (x # xs) * vnorm (y # ys)"
    unfolding vnorm_Cons by (rule cauchy_two)
  finally show ?case .
qed (simp_all add: vdot_def)

lemma triangle: "length a = length b \<Longrightarrow> vnorm (map2 (+) a b) \<le> vnorm a + vnorm b"
proof (rule power2_le_imp_le)
  assume len: "length a = length b"
  then have "(vnorm (map2 (+) a b))\<^sup>2 = (vnorm a)\<^sup>2 + 2 * vdot a b + (vnorm b)\<^sup>2"
    by (induction a b rule: list_induct2) (simp_all add: vnorm_power2 vdot_def algebra_simps)
  also have "\<dots> \<le> (vnorm a)\<^sup>2 + 2 * (vnorm a * vnorm b) + (vnorm b)\<^sup>2"
    using cauchy_schwarz[of a b] by simp
  also have "\<dots> = (vnorm a + vnorm b)\<^sup>2"
    by algebra
  finally show "(vnorm (map2 (+) a b))\<^sup>2 \<le> (vnorm a + vnorm b)\<^sup>2" .
qed simp

text \<open>The reviewed keep-out region of a volume, and the distance between two points.\<close>

definition dist3 :: "real3 \<Rightarrow> real3 \<Rightarrow> real" where
  "dist3 a b = vnorm (map2 (-) (vec_list a) (vec_list b))"

definition in_volume :: "keep_out_volume \<Rightarrow> real3 \<Rightarrow> bool" where
  "in_volume v z =
    (case vol_shape v of
       BOX \<Rightarrow>
         (case vol_box v of
            None \<Rightarrow> False
          | Some b \<Rightarrow> list_all2 (\<lambda>d h. \<bar>d\<bar> \<le> h / 2) (map2 (-) (vec_list z) (vec_list (box_center b)))
                       (vec_list (box_dimensions b)))
     | SPHERE \<Rightarrow>
         (case vol_sphere v of
            None \<Rightarrow> False
          | Some s \<Rightarrow> dist3 z (sphere_center s) \<le> sphere_radius s)
     | HALF_SPACE \<Rightarrow>
         (case vol_half_space v of
            None \<Rightarrow> False
          | Some h \<Rightarrow> vdot (vec_list (half_normal h)) (vec_list z) + half_offset h < 0))"

lemma dist3_triangle: "dist3 a c \<le> dist3 a b + dist3 b c"
  using triangle[of "map2 (-) (vec_list a) (vec_list b)" "map2 (-) (vec_list b) (vec_list c)"]
  by (cases a, cases b, cases c) (simp add: dist3_def vec_list_def)

lemma vnorm_mono: "list_all2 (\<lambda>x y. \<bar>x\<bar> \<le> y) xs ys \<Longrightarrow> vnorm xs \<le> vnorm ys"
proof (induction xs ys rule: list_all2_induct)
  case (Cons x xs y ys)
  have "x\<^sup>2 \<le> y\<^sup>2" "(vnorm xs)\<^sup>2 \<le> (vnorm ys)\<^sup>2"
    using Cons power_mono[of "\<bar>x\<bar>" y 2] power_mono[of "vnorm xs" "vnorm ys" 2] by auto
  then show ?case
    unfolding vnorm_Cons by (intro real_sqrt_le_mono add_mono)
qed simp

lemma static_h_norm:
  "static_h 3 (NormBarrier (vec_list c) r) q = dist3 (q 0, q 1, q 2) c - r"
  by (cases c) (simp add: static_h_def dist3_def vec_list_def vnorm_def coord_or_zero_def upt_rec_numeral
      eval_nat_numeral)

subsection \<open>A barrier value is a distance to the reviewed volume\<close>

lemma static_h_half:
  "static_h 3 (HalfBarrier (vec_list n) rhs) q = vdot (vec_list n) [q 0, q 1, q 2] - rhs"
  by (cases n) (simp add: static_h_def vdot_def vec_list_def upt_rec_numeral eval_nat_numeral)

lemma norm3: "vnorm [x, y, z] = sqrt (x ^ 2 + y ^ 2 + z ^ 2)"
  by (simp add: vnorm_def power2_eq_square add.assoc)

lemma vdot_diff: "length a = length n \<Longrightarrow> length b = length n \<Longrightarrow> vdot n (map2 (-) a b) = vdot n a - vdot n b"
proof (induction n arbitrary: a b)
  case (Cons x n)
  then show ?case
    by (cases a; cases b) (simp_all add: vdot_def algebra_simps)
qed (simp add: vdot_def)

lemma vdot_step: "length a = length n \<Longrightarrow> length b = length n \<Longrightarrow>
    vdot n (map2 (\<lambda>x y. x + y * t) a b) = vdot n a + t * vdot n b"
proof (induction n arbitrary: a b)
  case (Cons x n)
  then show ?case
    by (cases a; cases b) (simp_all add: vdot_def algebra_simps)
qed (simp add: vdot_def)

lemma half_space_gap:
  assumes "vnorm n = 1" "- e \<le> vdot n a - r" "vdot n b < r'" "length a = length n" "length b = length n"
  shows "r - r' - e \<le> vnorm (map2 (-) a b)"
proof -
  have "vdot n (map2 (-) a b) = vdot n a - vdot n b"
    using assms(4,5) by (rule vdot_diff)
  moreover have "vdot n (map2 (-) a b) \<le> vnorm (map2 (-) a b)"
    using cauchy_schwarz[of n "map2 (-) a b"] assms(1) by simp
  ultimately show ?thesis
    using assms by linarith
qed

lemma term_clearance:
  assumes "sc_keep_out c = Some k" "keep_out_term_of c = Inr t"
    and "- e \<le> static_h 3 (barrier_of_term 3 t) q" "in_volume (ko_volume k) z"
  shows "ko_margin k - e \<le> dist3 (q 0, q 1, q 2) z"
proof (cases "vol_shape (ko_volume k)")
  case SPHERE
  then obtain s where s: "vol_sphere (ko_volume k) = Some s" "dist3 z (sphere_center s) \<le> sphere_radius s"
    using assms(4) by (auto simp: in_volume_def split: option.splits)
  then have "barrier_of_term 3 t = NormBarrier (vec_list (sphere_center s)) (sphere_radius s + ko_margin k)"
    using assms(1,2) SPHERE by (auto simp: keep_out_term_of_def barrier_of_term_def Let_def)
  then show ?thesis
    using assms(3) s(2) dist3_triangle[of "(q 0, q 1, q 2)" "sphere_center s" z] by (simp add: static_h_norm)
next
  case BOX
  then obtain b where b: "vol_box (ko_volume k) = Some b"
    "list_all2 (\<lambda>d h. \<bar>d\<bar> \<le> h / 2) (map2 (-) (vec_list z) (vec_list (box_center b))) (vec_list (box_dimensions b))"
    using assms(4) by (auto simp: in_volume_def split: option.splits)
  then have "barrier_of_term 3 t = NormBarrier (vec_list (box_center b))
      (vnorm (map (\<lambda>x. x / 2) (vec_list (box_dimensions b))) + ko_margin k)"
    using assms(1,2) BOX by (auto simp: keep_out_term_of_def barrier_of_term_def Let_def)
  moreover have "dist3 z (box_center b) \<le> vnorm (map (\<lambda>x. x / 2) (vec_list (box_dimensions b)))"
    unfolding dist3_def using b(2) by (intro vnorm_mono) (simp add: list_all2_map2)
  ultimately show ?thesis
    using assms(3) dist3_triangle[of "(q 0, q 1, q 2)" "box_center b" z] by (simp add: static_h_norm)
next
  case HALF_SPACE
  then obtain h where h: "vol_half_space (ko_volume k) = Some h"
    "vdot (vec_list (half_normal h)) (vec_list z) + half_offset h < 0"
    using assms(4) by (auto simp: in_volume_def split: option.splits)
  obtain x y w where n: "half_normal h = (x, y, w)"
    by (cases "half_normal h")
  define l where "l = sqrt (x ^ 2 + y ^ 2 + w ^ 2)"
  have l: "0 < l" and t: "t = \<lparr>kt_constraint = sc_id c, kt_on_uncertain = sc_on_uncertain c, kt_shape = HALF_SPACE,
      kt_frame = half_frame h, kt_margin = ko_margin k, kt_center = [], kt_half_extents = [], kt_radius = None,
      kt_normal = [x / l, y / l, w / l], kt_offset = Some (half_offset h / l), kt_pair = ko_pair k,
      kt_frame_ref = half_frame_ref h\<rparr>"
    using assms(1,2) HALF_SPACE h(1) n
    by (auto simp: keep_out_term_of_def Let_def l_def less_le split: if_splits)
  have unit: "vnorm [x / l, y / l, w / l] = 1"
  proof -
    have "(x / l)\<^sup>2 + (y / l)\<^sup>2 + (w / l)\<^sup>2 = (x\<^sup>2 + y\<^sup>2 + w\<^sup>2) / l\<^sup>2"
      by (simp add: power_divide add_divide_distrib)
    also have "\<dots> = 1"
      using l by (simp add: l_def sum_power2_gt_zero_iff less_le)
    finally show ?thesis
      by (simp add: norm3)
  qed
  then have "barrier_of_term 3 t = HalfBarrier (vec_list (x / l, y / l, w / l)) (ko_margin k - half_offset h / l)"
    by (simp add: t barrier_of_term_def f64_min_positive_def Let_def vec_list_def eval_nat_numeral)
  moreover have "vdot [x / l, y / l, w / l] (vec_list z) < - half_offset h / l"
  proof -
    have "vdot [x / l, y / l, w / l] (vec_list z) = vdot (vec_list (half_normal h)) (vec_list z) / l"
      by (cases z) (simp add: n vdot_def vec_list_def add_divide_distrib)
    also have "\<dots> < - half_offset h / l"
      using h(2) l by (intro divide_strict_right_mono) simp_all
    finally show ?thesis .
  qed
  ultimately have "- e \<le> vdot [x / l, y / l, w / l] [q 0, q 1, q 2] - (ko_margin k - half_offset h / l)"
    "vdot [x / l, y / l, w / l] (vec_list z) < - half_offset h / l"
    using assms(3) static_h_half[of "(x / l, y / l, w / l)" "ko_margin k - half_offset h / l" q]
    by (simp_all add: vec_list_def)
  from half_space_gap[OF unit this] show ?thesis
    by (cases z) (simp add: dist3_def vec_list_def)
qed

section \<open>What a certified command satisfies\<close>

lemma finite_prefix_length: "finite_prefix n xs = Some v \<Longrightarrow> length v = n"
  by (auto simp: finite_prefix_def split: if_splits)

definition barrier_rows :: "shield \<Rightarrow> control_channel \<Rightarrow> real list \<Rightarrow> real list \<Rightarrow> row list" where
  "barrier_rows s mode p v = map (\<lambda>(a, b, h, ok). (a, b)) (map (eval_barrier s mode p v) (shd_barriers s))"

lemma solve_mode_certified:
  assumes "solve_mode s mode p v x0 = r" "res_certified r"
  obtains p' v' x y where "finite_prefix (shd_dim s) p = Some p'" "finite_prefix (shd_dim s) v = Some v'"
    "finite_prefix (shd_dim s) x0 = Some x" "y = dykstra s mode p' (barrier_rows s mode p' v') x"
    "res_action r = map Some y" "certify s mode p' (barrier_rows s mode p' v') y"
    "\<forall>b \<in> set (shd_barriers s). snd (snd (snd (eval_barrier s mode p' v' b)))"
proof (cases "\<exists>p' v' x. finite_prefix (shd_dim s) p = Some p' \<and> finite_prefix (shd_dim s) v = Some v'
    \<and> finite_prefix (shd_dim s) x0 = Some x")
  case True
  then obtain p' v' x where fin: "finite_prefix (shd_dim s) p = Some p'" "finite_prefix (shd_dim s) v = Some v'"
    "finite_prefix (shd_dim s) x0 = Some x"
    by blast
  have "list_all (\<lambda>(a, b, h, ok). ok) (map (eval_barrier s mode p' v') (shd_barriers s))"
    using assms fin by (auto simp: solve_mode_def Let_def split: if_splits)
  moreover from this have "res_action r = map Some (dykstra s mode p' (barrier_rows s mode p' v') x)
      \<and> certify s mode p' (barrier_rows s mode p' v') (dykstra s mode p' (barrier_rows s mode p' v') x)"
    using assms fin by (auto simp: solve_mode_def barrier_rows_def Let_def)
  ultimately show ?thesis
    using that[OF fin refl] by (auto simp: list_all_iff case_prod_unfold)
next
  case False
  then show ?thesis
    using assms by (auto simp: solve_mode_def Let_def split: option.splits)
qed

text \<open>The lengths of the vectors are those of the state.\<close>

lemma project_kinematic_length:
  "length y = length p \<Longrightarrow> length (project_kinematic s mode p y) = length p"
  by (simp add: project_kinematic_def Let_def split: control_channel.splits)

lemma project_row_length:
  "length (fst r) = n \<Longrightarrow> length x = n \<Longrightarrow> length c = n \<Longrightarrow> project_row r x c = (x', c') \<Longrightarrow>
    length x' = n \<and> length c' = n"
  by (auto simp: project_row_def Let_def split: prod.splits if_splits)

lemma project_rows_length:
  "\<forall>r \<in> set rows. length (fst r) = n \<Longrightarrow> \<forall>c \<in> set cs. length c = n \<Longrightarrow> length x = n \<Longrightarrow>
    project_rows rows cs x = (x', cs') \<Longrightarrow> length x' = n \<and> (\<forall>c \<in> set cs'. length c = n)"
proof (induction rows arbitrary: cs x x' cs')
  case (Cons r rs)
  show ?case
  proof (cases cs)
    case (Cons c cs1)
    obtain x1 c1 x2 cs2 where one: "project_row r x c = (x1, c1)" and rest: "project_rows rs cs1 x1 = (x2, cs2)"
      by (metis surj_pair)
    have len: "length x1 = n" "length c1 = n"
      using project_row_length[of r n x c x1 c1] one Cons.prems Cons by simp_all
    have "length x2 = n \<and> (\<forall>c \<in> set cs2. length c = n)"
      using Cons.prems Cons by (intro Cons.IH[OF _ _ len(1) rest]) simp_all
    then show ?thesis
      using Cons.prems(4) len Cons by (auto simp: one rest)
  qed (use Cons.prems in simp)
qed simp

lemma dykstra_loop_length:
  "\<forall>r \<in> set rows. length (fst r) = length p \<Longrightarrow> length (fst st) = length p \<Longrightarrow>
    length (fst (snd st)) = length p \<Longrightarrow> \<forall>c \<in> set (snd (snd st)). length c = length p \<Longrightarrow>
    length (dykstra_loop s mode p rows n st) = length p"
proof (induction n arbitrary: st)
  case (Suc n)
  obtain x c0 cs where st: "st = (x, c0, cs)"
    by (cases st)
  let ?y = "map2 (+) x c0"
  obtain x' cs' where cyc: "project_rows rows cs (project_kinematic s mode p ?y) = (x', cs')"
    by (cases "project_rows rows cs (project_kinematic s mode p ?y)")
  let ?st = "dykstra_cycle s mode p rows st"
  have nxt: "?st = (x', map2 (-) ?y (project_kinematic s mode p ?y), cs')"
    by (simp add: st dykstra_cycle_def cyc Let_def)
  have len: "length (project_kinematic s mode p ?y) = length p"
    using Suc.prems st by (intro project_kinematic_length) simp
  have x': "length x' = length p \<and> (\<forall>c \<in> set cs'. length c = length p)"
    using project_rows_length[OF Suc.prems(1) _ len cyc] Suc.prems(4) st by simp
  then have "length (dykstra_loop s mode p rows n ?st) = length p" "length (fst ?st) = length p"
    using Suc.IH[of ?st] Suc.prems(1,2,3) len nxt st by simp_all
  then show ?case
    by (simp only: dykstra_loop.simps Let_def split: if_split) simp
qed simp

lemma barrier_rows_length: "\<forall>b \<in> set (shd_barriers s). (case b of HalfBarrier n _ \<Rightarrow> length n = shd_dim s | _ \<Rightarrow> True) \<Longrightarrow>
    \<forall>r \<in> set (barrier_rows s mode p v). length (fst r) = shd_dim s"
  by (auto simp: barrier_rows_def eval_barrier_def Let_def split: barrier.splits if_splits)

lemma dykstra_length:
  assumes "\<forall>r \<in> set rows. length (fst r) = length p" "length x = length p"
  shows "length (dykstra s mode p rows x) = length p"
  unfolding dykstra_def using assms by (intro dykstra_loop_length) auto

section \<open>An admissible command is left as it is\<close>

definition in_kinematic :: "shield \<Rightarrow> control_channel \<Rightarrow> real list \<Rightarrow> real list \<Rightarrow> bool" where
  "in_kinematic s mode p x =
    (case mode of
       Effort \<Rightarrow> list_all (\<lambda>u. \<bar>u\<bar> \<le> shd_u_max s) x
     | Velocity \<Rightarrow> vnorm x \<le> shd_v_max s
     | Position \<Rightarrow> vnorm (map2 (-) x p) \<le> shd_step_max s)"

lemma map2_add_zero: "length x = length y \<Longrightarrow> map2 (+) x (map (\<lambda>_. 0) y) = x" for x :: "real list"
  by (induction x y rule: list_induct2) simp_all

lemma map2_diff_self: "map2 (-) x x = map (\<lambda>_. 0) x" for x :: "real list"
  by (induction x) simp_all

lemma map2_add_diff: "length x = length p \<Longrightarrow> map2 (+) p (map2 (-) x p) = x" for x :: "real list"
  by (induction x p rule: list_induct2) simp_all

lemma project_kinematic_fixed:
  "in_kinematic s mode p x \<Longrightarrow> length x = length p \<Longrightarrow> project_kinematic s mode p x = x"
proof (cases mode)
  case Effort
  then show "in_kinematic s mode p x \<Longrightarrow> project_kinematic s mode p x = x"
    by (fastforce simp: project_kinematic_def in_kinematic_def project_box_axis_def clamp_def list_all_iff
        intro!: map_idI)
qed (simp_all add: project_kinematic_def in_kinematic_def ball_scale_def map2_add_diff Let_def)

lemma project_row_fixed:
  "snd r \<le> vdot (fst r) x \<Longrightarrow> project_row r x (map (\<lambda>_. 0) x) = (x, map (\<lambda>_. 0) x)"
  by (cases r) (simp add: project_row_def map2_add_zero Let_def)

lemma project_rows_fixed:
  "\<forall>r \<in> set rows. snd r \<le> vdot (fst r) x \<Longrightarrow>
    project_rows rows (map (\<lambda>_. map (\<lambda>_. 0) x) rows) x = (x, map (\<lambda>_. map (\<lambda>_. 0) x) rows)"
proof (induction rows)
  case (Cons r rows)
  then show ?case
    using project_row_fixed[of r x] by simp
qed simp

lemma sum_self_diff: "sum_list (map2 (\<lambda>a b. (a - b) ^ 2) x x) = 0" for x :: "real list"
  by (induction x) simp_all

lemma dykstra_fixed:
  assumes "in_kinematic s mode p x" "length x = length p" "\<forall>r \<in> set rows. snd r \<le> vdot (fst r) x"
    "0 < cfg_tol (shd_cfg s)"
  shows "dykstra s mode p rows x = x"
proof -
  let ?z = "map (\<lambda>_. 0) x :: real list"
  have "dykstra_cycle s mode p rows (x, ?z, map (\<lambda>_. ?z) rows) = (x, ?z, map (\<lambda>_. ?z) rows)"
    using assms
    by (simp add: dykstra_cycle_def map2_add_zero project_kinematic_fixed map2_diff_self Let_def
        project_rows_fixed[of rows x])
  moreover have "list_all (row_feasible (cfg_tol (shd_cfg s)) x) rows"
    using assms(3,4) by (force simp: list_all_iff row_feasible_def)
  ultimately show ?thesis
    using assms(4) by (cases "cfg_max_iter (shd_cfg s)") (simp_all add: dykstra_def sum_self_diff Let_def)
qed

text \<open>
  The supporting half-space of a kinematic row lies outside the keep-out: a command that satisfies
  every row reaches a safe position.
\<close>

definition wellformed_barrier :: "nat \<Rightarrow> barrier \<Rightarrow> bool" where
  "wellformed_barrier n b = (case b of NormBarrier c r \<Rightarrow> length c = n | HalfBarrier a r \<Rightarrow> length a = n)"

definition affine_h :: "shield \<Rightarrow> barrier \<Rightarrow> real list \<Rightarrow> real" where
  "affine_h s b q =
    (case b of NormBarrier c r \<Rightarrow> vnorm (map2 (-) q c) - r | HalfBarrier a r \<Rightarrow> vdot a q - r)"

lemma static_h_affine:
  assumes "wellformed_barrier n b" "length q = n"
  shows "static_h n b (\<lambda>i. q ! i) = affine_h s b q"
proof (cases b)
  case (NormBarrier c r)
  have "map (\<lambda>i. (q ! i - coord_or_zero c i) * (q ! i - coord_or_zero c i)) [0..<n]
      = map (\<lambda>x. x * x) (map2 (-) q c)"
    using assms NormBarrier
    by (intro nth_equalityI) (simp_all add: wellformed_barrier_def coord_or_zero_def)
  then show ?thesis
    by (simp add: NormBarrier static_h_def affine_h_def vnorm_def)
next
  case (HalfBarrier a r)
  have "map (\<lambda>i. a ! i * q ! i) [0..<n] = map2 (*) a q"
    using assms HalfBarrier by (intro nth_equalityI) (simp_all add: wellformed_barrier_def)
  then show ?thesis
    by (simp add: HalfBarrier static_h_def affine_h_def vdot_def case_prod_unfold)
qed

lemma vdot_self: "vdot a a = (vnorm a)\<^sup>2"
proof -
  have "map2 (*) a a = map (\<lambda>x. x * x) a"
    by (induction a) simp_all
  then show ?thesis
    by (simp add: vdot_def vnorm_power2 case_prod_unfold)
qed

lemma vdot_scale: "vdot (map (\<lambda>x. x / d) a) b = vdot a b / d"
  by (induction a b rule: list_induct2') (simp_all add: vdot_def add_divide_distrib)

lemma vnorm_scale: "0 < d \<Longrightarrow> vnorm (map (\<lambda>x. x / d) a) = vnorm a / d"
proof -
  have "sum_list (map (\<lambda>x. x / d * (x / d)) a) = sum_list (map (\<lambda>x. x * x) a) / (d * d)"
    by (induction a) (simp_all add: add_divide_distrib)
  then show "0 < d \<Longrightarrow> ?thesis"
    by (simp add: vnorm_def comp_def real_sqrt_divide)
qed

lemma static_h_cong: "(\<And>i. i < n \<Longrightarrow> f i = g i) \<Longrightarrow> static_h n b f = static_h n b g"
  by (cases b) (auto simp: static_h_def intro!: arg_cong[where f = sum_list])

definition reached :: "shield \<Rightarrow> control_channel \<Rightarrow> real list \<Rightarrow> real list \<Rightarrow> real list" where
  "reached s mode p x =
    (case mode of Velocity \<Rightarrow> map2 (\<lambda>a b. a + b * shd_dt s) p x | Position \<Rightarrow> x | Effort \<Rightarrow> p)"

lemma length_reached: "length x = length p \<Longrightarrow> length (reached s mode p x) = length p"
  by (simp add: reached_def split: control_channel.splits)

lemma static_h_reached:
  assumes "length p = n" "length x = n" "wellformed_barrier n b"
  shows "static_h n b (next_position s mode p x) = affine_h s b (reached s mode p x)"
proof -
  have "static_h n b (next_position s mode p x) = static_h n b (\<lambda>i. reached s mode p x ! i)"
    using assms(1,2)
    by (intro static_h_cong) (simp add: next_position_def reached_def split: control_channel.splits)
  then show ?thesis
    using static_h_affine[OF assms(3), of "reached s mode p x" s] assms(1,2) by (simp add: length_reached)
qed

lemma norm_row:
  assumes "eval_barrier s mode p v (NormBarrier c r) = (a, b, h, True)" "length p = shd_dim s" "length c = shd_dim s"
  shows "0 < vnorm (map2 (-) p c)" "a = map (\<lambda>x. x / vnorm (map2 (-) p c)) (map2 (-) p c)" "h = vnorm (map2 (-) p c) - r"
    and "mode = Velocity \<Longrightarrow> b = - h / shd_dt s" and "mode = Position \<Longrightarrow> b = vdot a p - h"
proof -
  have rel: "map (\<lambda>i. p ! i - coord_or_zero c i) [0..<shd_dim s] = map2 (-) p c"
    using assms(2,3) by (intro nth_equalityI) (simp_all add: coord_or_zero_def)
  show "0 < vnorm (map2 (-) p c)" "a = map (\<lambda>x. x / vnorm (map2 (-) p c)) (map2 (-) p c)"
    "h = vnorm (map2 (-) p c) - r" "mode = Velocity \<Longrightarrow> b = - h / shd_dt s" "mode = Position \<Longrightarrow> b = vdot a p - h"
    using assms(1) by (auto simp: eval_barrier_def rel Let_def split: if_splits)
qed

lemma row_reaches_safe:
  assumes "eval_barrier s mode p v bar = (a, b, h, True)" "b \<le> vdot a x" "mode \<noteq> Effort" "0 < shd_dt s"
    and len: "length p = shd_dim s" "length x = shd_dim s" and wf: "wellformed_barrier (shd_dim s) bar"
  shows "0 \<le> affine_h s bar (reached s mode p x)"
proof -
  have along: "vdot a p - h \<le> vdot a (reached s mode p x)"
    if "length a = shd_dim s" "mode = Velocity \<Longrightarrow> b = - h / shd_dt s" "mode = Position \<Longrightarrow> b = vdot a p - h"
  proof (cases mode)
    case Velocity
    then have "- h \<le> shd_dt s * vdot a x"
      using assms(2,4) that(2) by (simp add: field_simps)
    then show ?thesis
      using Velocity len that(1) by (simp add: reached_def vdot_step)
  qed (use assms(2,3) that(3) in \<open>simp_all add: reached_def\<close>)
  show ?thesis
  proof (cases bar)
    case (HalfBarrier n rhs)
    then have "a = n" "h = vdot n p - rhs" "mode = Velocity \<Longrightarrow> b = - h / shd_dt s"
      "mode = Position \<Longrightarrow> b = vdot a p - h"
      using assms(1) wf by (auto simp: eval_barrier_def wellformed_barrier_def Let_def)
    then show ?thesis
      using along wf HalfBarrier by (simp add: affine_h_def wellformed_barrier_def)
  next
    case (NormBarrier c r)
    let ?rel = "map2 (-) p c" and ?q = "reached s mode p x"
    have c: "length c = shd_dim s"
      using wf NormBarrier by (simp add: wellformed_barrier_def)
    note row = norm_row[OF assms(1)[unfolded NormBarrier] len(1) c]
    have unit: "vnorm a = 1"
      using row(1) by (simp add: row(2) vnorm_scale del: map_map)
    have lens: "length a = shd_dim s" "length ?q = shd_dim s"
      using len c by (simp_all add: row(2) length_reached)
    have "vdot a p - vdot a c = vdot a ?rel"
      using len(1) c lens(1) by (simp add: vdot_diff)
    also have "\<dots> = vnorm ?rel"
      using row(1) by (simp add: row(2) vdot_scale vdot_self power2_eq_square del: map_map)
    finally have "r + vdot a c \<le> vdot a ?q"
      using along[OF lens(1) row(4,5)] by (simp add: row(3))
    then have "r \<le> vdot a (map2 (-) ?q c)"
      using vdot_diff[of ?q a c] lens c by simp
    also have "\<dots> \<le> vnorm (map2 (-) ?q c)"
      using cauchy_schwarz[of a "map2 (-) ?q c"] unit by simp
    finally show ?thesis
      by (simp add: NormBarrier affine_h_def)
  qed
qed

lemma step_length: "sqrt (sum_list (map2 (\<lambda>a b. (a - b)\<^sup>2) x p)) = vnorm (map2 (-) x p)"
proof -
  have "map2 (\<lambda>a b. (a - b)\<^sup>2) x p = map (\<lambda>x. x * x) (map2 (-) x p)"
    by (simp add: power2_eq_square case_prod_unfold)
  then show ?thesis
    unfolding vnorm_def by metis
qed

lemma in_kinematic_envelope:
  "in_kinematic s mode p x \<Longrightarrow> 0 \<le> cfg_tol (shd_cfg s) \<Longrightarrow> in_envelope s mode p x"
  by (cases mode) (fastforce simp: in_kinematic_def in_envelope_def list_all_iff step_length Let_def)+

text \<open>A command is admissible when it satisfies every row and lies in the kinematic set.\<close>

definition admissible_command :: "shield \<Rightarrow> control_channel \<Rightarrow> real list \<Rightarrow> real list \<Rightarrow> real list \<Rightarrow> bool" where
  "admissible_command s mode p v x =
    (in_kinematic s mode p x
     \<and> (\<forall>bar \<in> set (shd_barriers s). \<exists>a b h. eval_barrier s mode p v bar = (a, b, h, True) \<and> b \<le> vdot a x))"

definition wellformed_shield :: "shield \<Rightarrow> bool" where
  "wellformed_shield s =
    (list_all (wellformed_barrier (shd_dim s)) (shd_barriers s) \<and> 0 < cfg_tol (shd_cfg s) \<and> 0 < shd_dt s)"

lemma admissible_rows: "admissible_command s mode p v x \<Longrightarrow> \<forall>r \<in> set (barrier_rows s mode p v). snd r \<le> vdot (fst r) x"
  by (fastforce simp: admissible_command_def barrier_rows_def)

lemma admissible_unchanged:
  assumes "wellformed_shield s" "admissible_command s mode p v x"
    and "length p = shd_dim s" "length v = shd_dim s" "length x = shd_dim s"
  shows "solve_mode s mode (map Some p) (map Some v) (map Some x)
    = \<lparr>res_action = map Some x, res_certified = True,
       res_margin = least_of (map (\<lambda>(a, b, h, ok). Fin h) (map (eval_barrier s mode p v) (shd_barriers s)))\<rparr>"
proof -
  have fin: "finite_prefix (shd_dim s) (map Some q) = Some q" if "length q = shd_dim s" for q :: "real list"
    using that by (simp add: finite_prefix_def list_all_iff)
  have same: "dykstra s mode p (barrier_rows s mode p v) x = x"
    using assms admissible_rows[OF assms(2)]
    by (intro dykstra_fixed) (simp_all add: admissible_command_def wellformed_shield_def)
  have ok: "list_all (\<lambda>(a, b, h, ok). ok) (map (eval_barrier s mode p v) (shd_barriers s))"
    using assms(2) by (fastforce simp: admissible_command_def list_all_iff)
  have "- cfg_tol (shd_cfg s) \<le> static_h (shd_dim s) bar (next_position s mode p x)"
    if "mode \<noteq> Effort" "bar \<in> set (shd_barriers s)" for bar
  proof -
    obtain a b h where "eval_barrier s mode p v bar = (a, b, h, True)" "b \<le> vdot a x"
      using assms(2) \<open>bar \<in> set (shd_barriers s)\<close> by (auto simp: admissible_command_def)
    moreover have "wellformed_barrier (shd_dim s) bar"
      using assms(1) \<open>bar \<in> set (shd_barriers s)\<close> by (simp add: wellformed_shield_def list_all_iff)
    ultimately have "0 \<le> static_h (shd_dim s) bar (next_position s mode p x)"
      using row_reaches_safe[of s mode p v bar a b h x] static_h_reached[OF assms(3,5)] assms \<open>mode \<noteq> Effort\<close>
      by (simp add: wellformed_shield_def)
    then show ?thesis
      using assms(1) by (simp add: wellformed_shield_def)
  qed
  moreover have "list_all (row_feasible (cfg_tol (shd_cfg s)) x) (barrier_rows s mode p v)"
    using admissible_rows[OF assms(2)] assms(1) by (force simp: list_all_iff row_feasible_def wellformed_shield_def)
  moreover have "in_envelope s mode p x"
    using assms(1,2) by (intro in_kinematic_envelope) (simp_all add: admissible_command_def wellformed_shield_def)
  ultimately have "certify s mode p (barrier_rows s mode p v) x"
    by (simp add: certify_def Let_def list_all_iff)
  then show ?thesis
    using ok same by (simp add: solve_mode_def fin[OF assms(3)] fin[OF assms(4)] fin[OF assms(5)] Let_def
        barrier_rows_def del: map_map)
qed

section \<open>The envelope can only be narrowed\<close>

lemma tighten_bounds: "tighten configured authored \<le> configured"
    "authored = Some l \<Longrightarrow> 0 < l \<Longrightarrow> tighten configured authored \<le> l"
    "0 \<le> configured \<Longrightarrow> 0 \<le> tighten configured authored"
  by (auto simp: tighten_def split: option.splits)

lemma narrow_member: "n \<in> set (narrow configured authored) \<longleftrightarrow>
    n \<in> set configured \<and> (\<exists>g. authored = Some g \<and> n \<in> set g)"
  by (auto simp: narrow_def split: option.splits)

lemma ball_scale_bounds:
  assumes "0 \<le> radius" "0 \<le> len"
  shows "0 \<le> ball_scale len radius" "len * ball_scale len radius \<le> radius"
  using assms by (auto simp: ball_scale_def ball_scale_is_sound_def Let_def)

end
