(* ===== verification/Guard_Core.thy ===== *)
theory Guard_Core
  imports Guard_Shield
begin

text \<open>
  The recover layer (\<^verbatim>\<open>rust/src/backup.rs\<close>), the decoder of the compiled model
  (\<^verbatim>\<open>rust/src/model.rs\<close>) and the arbiter (\<^verbatim>\<open>rust/src/arbiter.rs\<close>) that makes every tick one
  decision out of the detect, correct and recover layers. The protobuf bytes of a compiled model are
  parsed by a library; the decoder below runs on the parsed fields, in which a double that the decoder
  tests for finiteness is a \<open>real option\<close>, \<open>None\<close> standing for an infinity or a NaN. The geometry of
  the keep-outs is not tested by the decoder and is finite in the model.
\<close>

section \<open>The recover layer\<close>

datatype backup_kind = BrakeToStop | HoldPose | Retreat

record backup =
  bk_spatial_dim :: nat
  bk_ctrl_dim :: nat
  bk_u_max :: real
  bk_v_max :: real
  bk_step_max :: real
  bk_k_brake :: real
  bk_dt :: real
  bk_k_p :: real
  bk_k_d :: real
  bk_safe_pose :: "real list option"
  bk_barriers :: "barrier list"

definition dist_tol :: real where
  "dist_tol = 1 / 10 ^ 9"

definition set_tol :: real where
  "set_tol = 1 / 10 ^ 7"

definition backup_new :: "nat \<Rightarrow> shield_config \<Rightarrow> real \<Rightarrow> real \<Rightarrow> real list option \<Rightarrow> keep_out_term list
    \<Rightarrow> action_limits \<Rightarrow> backup" where
  "backup_new sd cfg k_brake dt pose terms limits =
    (let dt = (if 0 < dt then dt else 1); v = tighten (cfg_v_max cfg) (lim_velocity limits)
     in \<lparr>bk_spatial_dim = sd, bk_ctrl_dim = max sd 1, bk_u_max = tighten (cfg_u_max cfg) (lim_accel limits),
         bk_v_max = v, bk_step_max = v * dt, bk_k_brake = k_brake, bk_dt = dt,
         bk_k_p = k_brake * k_brake / 4, bk_k_d = k_brake, bk_safe_pose = pose,
         bk_barriers = map (barrier_of_term sd) terms\<rparr>)"

text \<open>\<^verbatim>\<open>finite_at\<close>: a missing or non-finite component reads as zero.\<close>

definition finite_at :: "real option list \<Rightarrow> nat \<Rightarrow> real" where
  "finite_at xs i = (if i < length xs then case xs ! i of None \<Rightarrow> 0 | Some x \<Rightarrow> x else 0)"

definition brake_axis :: "real \<Rightarrow> real \<Rightarrow> real \<Rightarrow> real" where
  "brake_axis v k u = clamp (- k * v) (- u) u"

definition brake :: "backup \<Rightarrow> real option list \<Rightarrow> real list" where
  "brake b v = map (\<lambda>i. brake_axis (finite_at v i) (bk_k_brake b) (bk_u_max b)) [0..<bk_ctrl_dim b]"

definition stop_velocity :: "backup \<Rightarrow> real list" where
  "stop_velocity b = replicate (bk_ctrl_dim b) 0"

definition hold_position :: "backup \<Rightarrow> real option list \<Rightarrow> real list" where
  "hold_position b p = map (finite_at p) [0..<bk_ctrl_dim b]"

definition in_safe_set :: "backup \<Rightarrow> (nat \<Rightarrow> real) \<Rightarrow> bool" where
  "in_safe_set b q = list_all (\<lambda>bar. - set_tol \<le> static_h (bk_spatial_dim b) bar q) (bk_barriers b)"

text \<open>The finite state and target that a guarded law needs.\<close>

definition guarded_velocity :: "backup \<Rightarrow> real list \<Rightarrow> real option list \<Rightarrow> real list" where
  "guarded_velocity b g p =
    (let sd = bk_spatial_dim b
     in case finite_prefix sd p of
          Some p' \<Rightarrow>
            (if sd = 0 \<or> length g < sd then stop_velocity b
             else
               let pull = map (\<lambda>i. bk_k_p b * (g ! i - p' ! i)) [0..<sd];
                   scale = ball_scale (vnorm pull) (bk_v_max b);
                   cmd = map (\<lambda>a. a * scale) pull
               in if in_safe_set b (\<lambda>i. p' ! i + cmd ! i * bk_dt b) then cmd else stop_velocity b)
        | None \<Rightarrow> stop_velocity b)"

definition guarded_position :: "backup \<Rightarrow> real list \<Rightarrow> real option list \<Rightarrow> real list" where
  "guarded_position b g p =
    (let sd = bk_spatial_dim b
     in case finite_prefix sd p of
          Some p' \<Rightarrow>
            (if sd = 0 \<or> length g < sd then hold_position b p
             else
               let step = map (\<lambda>i. g ! i - p' ! i) [0..<sd];
                   scale = ball_scale (vnorm step) (bk_step_max b);
                   cmd = map (\<lambda>i. p' ! i + step ! i * scale) [0..<sd]
               in if in_safe_set b (\<lambda>i. cmd ! i) then cmd else hold_position b p)
        | None \<Rightarrow> hold_position b p)"

text \<open>The energy of the target pull, and the step that the guard predicts.\<close>

definition pull_energy :: "real \<Rightarrow> nat \<Rightarrow> (nat \<Rightarrow> real) \<Rightarrow> (nat \<Rightarrow> real) \<Rightarrow> real list \<Rightarrow> real" where
  "pull_energy k_p sd p v g =
    sum_list (map (\<lambda>i. k_p * (p i - g ! i) ^ 2 / 2 + v i ^ 2 / 2) [0..<sd])"

definition guarded_move :: "backup \<Rightarrow> real list \<Rightarrow> real option list \<Rightarrow> real option list \<Rightarrow> real list" where
  "guarded_move b g p v =
    (let sd = bk_spatial_dim b
     in case (finite_prefix sd p, finite_prefix sd v) of
          (Some p', Some v') \<Rightarrow>
            (if sd = 0 \<or> length g < sd then brake b v
             else
               let cmd = map (\<lambda>i. clamp (bk_k_p b * (g ! i - p' ! i) - bk_k_d b * v' ! i) (- bk_u_max b) (bk_u_max b))
                           [0..<sd];
                   dt = bk_dt b;
                   pn = (\<lambda>i. p' ! i + v' ! i * dt + dt * dt / 2 * cmd ! i);
                   vn = (\<lambda>i. v' ! i + cmd ! i * dt);
                   cur = pull_energy (bk_k_p b) sd (\<lambda>i. p' ! i) (\<lambda>i. v' ! i) g;
                   nxt = pull_energy (bk_k_p b) sd pn vn g
               in if nxt \<le> cur * (1 + dist_tol) + dist_tol \<and> in_safe_set b pn then cmd else brake b v)
        | _ \<Rightarrow> brake b v)"

definition backup_control :: "backup \<Rightarrow> backup_kind \<Rightarrow> control_channel \<Rightarrow> real option list \<Rightarrow> real option list
    \<Rightarrow> real list option \<Rightarrow> real list" where
  "backup_control b kind mode p v hold =
    (let target = (case kind of BrakeToStop \<Rightarrow> None | HoldPose \<Rightarrow> hold | Retreat \<Rightarrow> bk_safe_pose b)
     in case (mode, target) of
          (Effort, None) \<Rightarrow> brake b v
        | (Effort, Some g) \<Rightarrow> guarded_move b g p v
        | (Velocity, None) \<Rightarrow> stop_velocity b
        | (Velocity, Some g) \<Rightarrow> guarded_velocity b g p
        | (Position, None) \<Rightarrow> hold_position b p
        | (Position, Some g) \<Rightarrow> guarded_position b g p)"

section \<open>The decoder\<close>

datatype core_error = BadPeriod | SignalIndexOutOfRange nat | ThresholdNotFinite | AtomIndexOutOfRange nat
  | FrameRefInvalid string | GeometryArity string | SpatialDimensions nat nat | NodeInvalid string
  | HistoryExceeded string nat | SafePoseNotFinite | SafePoseShort nat | LimitNotPositive string | EmptyDirective

text \<open>The parsed fields of the wire (\<^verbatim>\<open>proto::CompiledSafetyModel\<close>).\<close>

record wire_atom =
  wa_op :: PredicateOp
  wa_signal :: nat
  wa_threshold :: "real option"

record wire_limits =
  wl_velocity :: "real option option"
  wl_accel :: "real option option"

record wire_pose =
  wp_frame :: string
  wp_position :: "real option list"
  wp_frame_ref :: "reference_frame option"

record wire_model =
  wm_spec_id :: string
  wm_spec_hash :: string
  wm_period :: "real option"
  wm_signals :: "string list"
  wm_atoms :: "wire_atom list"
  wm_scalar_bounds :: "scalar_bound list"
  wm_keep_outs :: "keep_out_term list"
  wm_monitors :: "monitor_automaton list"
  wm_resources :: resource_bounds
  wm_limits :: wire_limits
  wm_safe_pose :: "wire_pose option"
  wm_directives :: "compiled_directives option"

definition is_token :: "string \<Rightarrow> bool" where
  "is_token s = (s \<noteq> [] \<and> list_all (\<lambda>c. \<not> is_space c) s)"

definition frame_ref_valid :: "reference_frame option \<Rightarrow> bool" where
  "frame_ref_valid r =
    pred_option (\<lambda>f. is_token (frame_name f) \<and> pred_option is_token (frame_center f)) r"

definition geometry_dim :: "keep_out_term \<Rightarrow> core_error + nat" where
  "geometry_dim t =
    rbind (case kt_shape t of
        SPHERE \<Rightarrow> if kt_radius t = None then Inl (GeometryArity (kt_constraint t)) else Inr (length (kt_center t))
      | BOX \<Rightarrow>
          if length (kt_center t) \<noteq> length (kt_half_extents t) then Inl (GeometryArity (kt_constraint t))
          else Inr (length (kt_center t))
      | HALF_SPACE \<Rightarrow>
          if kt_offset t = None then Inl (GeometryArity (kt_constraint t)) else Inr (length (kt_normal t)))
      (\<lambda>d. if d = 0 then Inl (GeometryArity (kt_constraint t)) else Inr d)"

definition decode_atom :: "nat \<Rightarrow> wire_atom \<Rightarrow> core_error + predicate_atom" where
  "decode_atom n a =
    (if n \<le> wa_signal a then Inl (SignalIndexOutOfRange (wa_signal a))
     else case wa_threshold a of
       None \<Rightarrow> Inl ThresholdNotFinite
     | Some x \<Rightarrow> Inr \<lparr>atom_op = wa_op a, atom_signal = wa_signal a, atom_threshold = x\<rparr>)"

definition check_atom :: "nat \<Rightarrow> nat \<Rightarrow> core_error + unit" where
  "check_atom n i = (if n \<le> i then Inl (AtomIndexOutOfRange i) else Inr ())"

definition decode_term :: "keep_out_term \<Rightarrow> core_error + unit" where
  "decode_term t =
    (if \<not> frame_ref_valid (kt_frame_ref t) then Inl (FrameRefInvalid (kt_constraint t))
     else rbind (geometry_dim t) (\<lambda>_. Inr ()))"

text \<open>All terms live in one spatial dimension.\<close>

fun spatial_dim_of :: "nat option \<Rightarrow> keep_out_term list \<Rightarrow> core_error + nat option" where
  "spatial_dim_of acc [] = Inr acc"
| "spatial_dim_of acc (t # ts) =
    rbind (geometry_dim t) (\<lambda>d.
      case acc of
        None \<Rightarrow> spatial_dim_of (Some d) ts
      | Some prev \<Rightarrow> if prev \<noteq> d then Inl (SpatialDimensions prev d) else spatial_dim_of (Some prev) ts)"

definition decode_monitor :: "nat \<Rightarrow> nat \<Rightarrow> monitor_automaton \<Rightarrow> core_error + unit" where
  "decode_monitor cap n a =
    (if \<not> node_valid (ma_root a) then Inl (NodeInvalid (ma_constraint a))
     else if cap < ma_history a then Inl (HistoryExceeded (ma_constraint a) (ma_history a))
     else all_checked (check_atom n) (ma_predicates a))"

definition check_limit :: "real option option \<Rightarrow> string \<Rightarrow> core_error + real option" where
  "check_limit x what =
    (case x of
       None \<Rightarrow> Inr None
     | Some None \<Rightarrow> Inl (LimitNotPositive what)
     | Some (Some l) \<Rightarrow> if 0 < l then Inr (Some l) else Inl (LimitNotPositive what))"

definition decode_limits :: "wire_limits \<Rightarrow> core_error + action_limits" where
  "decode_limits al =
    rbind (check_limit (wl_velocity al) ''max_velocity_mps'') (\<lambda>v.
    rbind (check_limit (wl_accel al) ''max_accel_mps2'') (\<lambda>a. Inr \<lparr>lim_velocity = v, lim_accel = a\<rparr>))"

text \<open>A component list of which no component is \<open>None\<close> (\<^verbatim>\<open>is_finite\<close>).\<close>

definition all_finite :: "real option list \<Rightarrow> bool" where
  "all_finite xs = list_all (\<lambda>x. x \<noteq> None) xs"

definition decode_pose :: "nat option \<Rightarrow> wire_pose option \<Rightarrow> core_error + compiled_pose option" where
  "decode_pose sd pose =
    (case pose of
       None \<Rightarrow> Inr None
     | Some sp \<Rightarrow>
         if \<not> frame_ref_valid (wp_frame_ref sp) then Inl (FrameRefInvalid ''safe_pose'')
         else if \<not> all_finite (wp_position sp) then Inl SafePoseNotFinite
         else
           let decoded = \<lparr>cp_frame = wp_frame sp, cp_position = map the (wp_position sp),
                          cp_frame_ref = wp_frame_ref sp\<rparr>
           in (case sd of
                 None \<Rightarrow> Inr (Some decoded)
               | Some d \<Rightarrow> if length (wp_position sp) < d then Inl (SafePoseShort d) else Inr (Some decoded)))"

definition decode_directives :: "compiled_directives option \<Rightarrow> core_error + compiled_directives option" where
  "decode_directives ad =
    (case ad of
       None \<Rightarrow> Inr None
     | Some d \<Rightarrow> if [] \<in> set (cd_modes d @ cd_tasks d) then Inl EmptyDirective else Inr (Some d))"

text \<open>\<^verbatim>\<open>from_proto\<close>: the decoded model, and the spatial dimension of its keep-outs if it has any.\<close>

definition decode_model :: "nat \<Rightarrow> wire_model \<Rightarrow> core_error + compiled_model \<times> nat option" where
  "decode_model cap w =
    (case wm_period w of
       None \<Rightarrow> Inl BadPeriod
     | Some period \<Rightarrow>
         if \<not> 0 < period then Inl BadPeriod
         else
           rbind (rmap (decode_atom (length (wm_signals w))) (wm_atoms w)) (\<lambda>atoms.
           rbind (all_checked (\<lambda>b. check_atom (length atoms) (sb_atom b)) (wm_scalar_bounds w)) (\<lambda>_.
           rbind (all_checked decode_term (wm_keep_outs w)) (\<lambda>_.
           rbind (spatial_dim_of None (wm_keep_outs w)) (\<lambda>sd.
           rbind (all_checked (decode_monitor cap (length atoms)) (wm_monitors w)) (\<lambda>_.
           rbind (decode_pose sd (wm_safe_pose w)) (\<lambda>pose.
           rbind (decode_limits (wm_limits w)) (\<lambda>limits.
           rbind (decode_directives (wm_directives w)) (\<lambda>directives.
             Inr (\<lparr>cm_spec_id = wm_spec_id w, cm_spec_hash = wm_spec_hash w, cm_period = period,
                   cm_signals = wm_signals w, cm_atoms = atoms, cm_scalar_bounds = wm_scalar_bounds w,
                   cm_keep_outs = wm_keep_outs w, cm_monitors = wm_monitors w, cm_resources = wm_resources w,
                   cm_limits = limits, cm_safe_pose = pose, cm_directives = directives\<rparr>, sd))))))))))"

text \<open>
  \<^verbatim>\<open>to_wire\<close> of the compiler: the numbers of a compiled model are reals here, so the wire carries
  finite doubles. A contract with an infinite or undefined number is outside the contract model; the
  decoder above is also defined on what such a contract puts on the wire.
\<close>

definition to_wire :: "compiled_model \<Rightarrow> wire_model" where
  "to_wire m =
    \<lparr>wm_spec_id = cm_spec_id m, wm_spec_hash = cm_spec_hash m, wm_period = Some (cm_period m),
     wm_signals = cm_signals m,
     wm_atoms = map (\<lambda>a. \<lparr>wa_op = atom_op a, wa_signal = atom_signal a, wa_threshold = Some (atom_threshold a)\<rparr>)
       (cm_atoms m),
     wm_scalar_bounds = cm_scalar_bounds m, wm_keep_outs = cm_keep_outs m, wm_monitors = cm_monitors m,
     wm_resources = cm_resources m,
     wm_limits = \<lparr>wl_velocity = map_option Some (lim_velocity (cm_limits m)),
                  wl_accel = map_option Some (lim_accel (cm_limits m))\<rparr>,
     wm_safe_pose = map_option (\<lambda>sp. \<lparr>wp_frame = cp_frame sp, wp_position = map Some (cp_position sp),
                                       wp_frame_ref = cp_frame_ref sp\<rparr>) (cm_safe_pose m),
     wm_directives = cm_directives m\<rparr>"

subsection \<open>What the decoder returns and refuses\<close>

lemma decode_sent_atoms:
  "rmap (decode_atom n) (map (\<lambda>a. \<lparr>wa_op = atom_op a, wa_signal = atom_signal a,
      wa_threshold = Some (atom_threshold a)\<rparr>) atoms) = Inr atoms'
    \<longleftrightarrow> atoms' = atoms \<and> (\<forall>a \<in> set atoms. atom_signal a < n)"
  by (induction atoms arbitrary: atoms') (auto simp: decode_atom_def rbind_Inr)

lemma check_sent_limit:
  "check_limit (map_option Some x) what = Inr y \<longleftrightarrow> y = x \<and> pred_option (\<lambda>l. 0 < l) x"
  by (cases x) (auto simp: check_limit_def)

lemma decode_sent_limits:
  "decode_limits \<lparr>wl_velocity = map_option Some (lim_velocity l), wl_accel = map_option Some (lim_accel l)\<rparr> = Inr l'
    \<longleftrightarrow> l' = l \<and> pred_option (\<lambda>x. 0 < x) (lim_velocity l) \<and> pred_option (\<lambda>x. 0 < x) (lim_accel l)"
  by (auto simp: decode_limits_def rbind_Inr check_sent_limit)

lemma decode_sent_pose:
  "decode_pose sd (map_option (\<lambda>sp. \<lparr>wp_frame = cp_frame sp, wp_position = map Some (cp_position sp),
      wp_frame_ref = cp_frame_ref sp\<rparr>) pose) = Inr pose'
    \<longleftrightarrow> pose' = pose \<and> pred_option (\<lambda>sp. frame_ref_valid (cp_frame_ref sp)
          \<and> pred_option (\<lambda>d. d \<le> length (cp_position sp)) sd) pose"
  by (cases pose; cases sd)
     (auto simp: decode_pose_def all_finite_def list_all_iff comp_def)

lemma decode_directives_Inr:
  "decode_directives ad = Inr ad' \<longleftrightarrow> ad' = ad \<and> pred_option (\<lambda>d. [] \<notin> set (cd_modes d @ cd_tasks d)) ad"
  by (cases ad) (auto simp: decode_directives_def)

text \<open>A compiled model that is sent with finite numbers is decoded to itself.\<close>

lemma decode_sent:
  assumes "decode_model cap (to_wire m) = Inr (m', sd)"
  shows "m' = m \<and> spatial_dim_of None (cm_keep_outs m) = Inr sd"
  using assms
  by (auto simp: decode_model_def to_wire_def rbind_Inr decode_sent_atoms decode_sent_limits decode_sent_pose
      decode_directives_Inr split: if_splits)

text \<open>Nothing that the decoder lets through has a threshold, a period, a limit or a pose that is not finite.\<close>

lemma decode_refuses_not_finite:
  assumes "wm_period w = None \<or> (\<exists>a \<in> set (wm_atoms w). wa_threshold a = None)
    \<or> wl_velocity (wm_limits w) = Some None \<or> wl_accel (wm_limits w) = Some None
    \<or> (\<exists>sp. wm_safe_pose w = Some sp \<and> None \<in> set (wp_position sp))"
  shows "\<exists>e. decode_model cap w = Inl e"
proof (cases "decode_model cap w")
  case (Inr r)
  then obtain atoms sd pose limits period where parts: "wm_period w = Some period"
    "rmap (decode_atom (length (wm_signals w))) (wm_atoms w) = Inr atoms"
    "decode_pose sd (wm_safe_pose w) = Inr pose" "decode_limits (wm_limits w) = Inr limits"
    by (auto simp: decode_model_def rbind_Inr split: option.splits if_splits)
  have "\<forall>a \<in> set (wm_atoms w). wa_threshold a \<noteq> None"
    using rmap_member[OF parts(2)] by (fastforce simp: decode_atom_def split: if_splits option.splits)
  moreover have "wl_velocity (wm_limits w) \<noteq> Some None" "wl_accel (wm_limits w) \<noteq> Some None"
    using parts(4) by (auto simp: decode_limits_def rbind_Inr check_limit_def)
  moreover have "None \<notin> set (wp_position sp)" if "wm_safe_pose w = Some sp" for sp
    using parts(3) that by (auto simp: decode_pose_def all_finite_def list_all_iff split: if_splits)
  ultimately show ?thesis
    using assms parts(1) by auto
qed auto

section \<open>The arbiter\<close>

datatype core_layer = PrimaryLayer | ShieldLayer | BackupLayer

datatype intervention = NoIntervention | Modified | Fallback

datatype core_reason = Certified | ShieldCorrected | ScalarViolated | MonitorFired | QpUncertifiable | BadInput
  | WatchdogExpired | NotCertifiable

text \<open>A setpoint component that is not finite is \<open>None\<close>.\<close>

datatype proposed = EffortCmd "real option list" | VelocityCmd "real option list" | PositionCmd "real option list"
  | OpaqueCmd | ModeCmd string | TaskCmd string

primrec proposed_channel :: "proposed \<Rightarrow> control_channel option" where
  "proposed_channel (EffortCmd x) = Some Effort"
| "proposed_channel (VelocityCmd x) = Some Velocity"
| "proposed_channel (PositionCmd x) = Some Position"
| "proposed_channel OpaqueCmd = None"
| "proposed_channel (ModeCmd n) = None"
| "proposed_channel (TaskCmd n) = None"

primrec proposed_setpoint :: "proposed \<Rightarrow> real option list" where
  "proposed_setpoint (EffortCmd x) = x"
| "proposed_setpoint (VelocityCmd x) = x"
| "proposed_setpoint (PositionCmd x) = x"
| "proposed_setpoint OpaqueCmd = []"
| "proposed_setpoint (ModeCmd n) = []"
| "proposed_setpoint (TaskCmd n) = []"

record action_policy =
  ap_modes :: "string list"
  ap_tasks :: "string list"
  ap_fallback :: control_channel

definition admits :: "action_policy \<Rightarrow> proposed \<Rightarrow> bool" where
  "admits ap pr =
    (case pr of ModeCmd n \<Rightarrow> n \<in> set (ap_modes ap) | TaskCmd n \<Rightarrow> n \<in> set (ap_tasks ap) | _ \<Rightarrow> False)"

definition narrowed_to :: "action_policy \<Rightarrow> compiled_directives option \<Rightarrow> action_policy" where
  "narrowed_to ap authored =
    \<lparr>ap_modes = narrow (ap_modes ap) (map_option cd_modes authored),
     ap_tasks = narrow (ap_tasks ap) (map_option cd_tasks authored), ap_fallback = ap_fallback ap\<rparr>"

record safety_input =
  in_signals :: "real option list"
  in_position :: "real option list"
  in_velocity :: "real option list"
  in_proposed :: proposed

record safety_verdict =
  vd_action :: "real option list"
  vd_mode :: control_channel
  vd_layer :: core_layer
  vd_intervention :: intervention
  vd_reason :: core_reason
  vd_fired :: "string list"
  vd_backup :: "backup_kind option"
  vd_margin :: robustness

definition backup_kind_of :: "OnUncertain \<Rightarrow> backup_kind" where
  "backup_kind_of u = (case u of FALLBACK \<Rightarrow> BrakeToStop | HOLD \<Rightarrow> HoldPose | SAFE_STATE \<Rightarrow> Retreat)"

text \<open>\<^verbatim>\<open>CoreConfig\<close>; the deadline is the clock's and is the \<open>watchdog\<close> argument of a step.\<close>

record core_config =
  cc_horizon :: nat
  cc_shield :: shield_config
  cc_k_brake :: real
  cc_history_cap :: nat
  cc_unchanged_tol :: real
  cc_policy :: action_policy

record safety_core =
  core_model :: compiled_model
  core_cfg :: core_config
  core_dim :: nat
  core_monitors :: "monitor list"
  core_shield :: "shield option"
  core_backup :: backup
  core_anchor :: "real option list"
  core_holding :: bool

text \<open>
  \<^verbatim>\<open>SafetyCore::from_model\<close> on a decoded model, \<^verbatim>\<open>SafetyCore::from_wire\<close> on the wire, and what the
  Python side does with a model it has compiled.
\<close>

definition core_of_model :: "core_config \<Rightarrow> compiled_model \<Rightarrow> nat option \<Rightarrow> safety_core" where
  "core_of_model cfg m dimension =
    (let sd = (case dimension of None \<Rightarrow> 0 | Some d \<Rightarrow> d)
     in \<lparr>core_model = m, core_cfg = cfg\<lparr>cc_policy := narrowed_to (cc_policy cfg) (cm_directives m)\<rparr>,
         core_dim = sd, core_monitors = map monitor_new (cm_monitors m),
         core_shield =
           (if 0 < sd \<and> cm_keep_outs m \<noteq> []
            then Some (shield_new (cm_keep_outs m) sd (cc_shield cfg) (cm_period m) (cm_limits m))
            else None),
         core_backup = backup_new sd (cc_shield cfg) (cc_k_brake cfg) (cm_period m)
           (map_option cp_position (cm_safe_pose m)) (cm_keep_outs m) (cm_limits m),
         core_anchor = [], core_holding = False\<rparr>)"

definition core_from_wire :: "core_config \<Rightarrow> wire_model \<Rightarrow> core_error + safety_core" where
  "core_from_wire cfg w =
    rbind (decode_model (cc_history_cap cfg) w) (\<lambda>(m, sd). Inr (core_of_model cfg m sd))"

definition core_from_model :: "core_config \<Rightarrow> compiled_model \<Rightarrow> core_error + safety_core" where
  "core_from_model cfg m = core_from_wire cfg (to_wire m)"

lemma core_from_model_Inr:
  assumes "core_from_model cfg m = Inr c0"
  obtains sd where "c0 = core_of_model cfg m sd" "spatial_dim_of None (cm_keep_outs m) = Inr sd"
  using assms decode_sent by (fastforce simp: core_from_model_def core_from_wire_def rbind_Inr)

lemma core_from_model_fields:
  assumes "core_from_model cfg m = Inr c0"
  shows "core_model c0 = m" "core_cfg c0 = cfg\<lparr>cc_policy := narrowed_to (cc_policy cfg) (cm_directives m)\<rparr>"
    "core_monitors c0 = map monitor_new (cm_monitors m)" "\<not> core_holding c0"
  using assms by (auto simp: core_of_model_def Let_def elim: core_from_model_Inr)

definition fallback_channel :: "safety_core \<Rightarrow> safety_input \<Rightarrow> control_channel" where
  "fallback_channel core inp =
    (case proposed_channel (in_proposed inp) of None \<Rightarrow> ap_fallback (cc_policy (core_cfg core)) | Some c \<Rightarrow> c)"

text \<open>
  \<^verbatim>\<open>emit_backup\<close>: the anchor of a hold is latched on its first tick and dropped by any other
  outcome. A latched position is finite, since a bad state never selects a hold.
\<close>

definition anchored :: "safety_core \<Rightarrow> backup_kind \<Rightarrow> safety_input \<Rightarrow> safety_core" where
  "anchored core kind inp =
    (if kind = HoldPose
     then (if \<not> core_holding core \<and> 0 < core_dim core \<and> core_dim core \<le> length (in_position inp)
           then core\<lparr>core_anchor := take (core_dim core) (in_position inp), core_holding := True\<rparr>
           else core)
     else core\<lparr>core_holding := False\<rparr>)"

definition hold_target :: "safety_core \<Rightarrow> backup_kind \<Rightarrow> real list option" where
  "hold_target core kind =
    (if kind = HoldPose \<and> core_holding core then finite_prefix (length (core_anchor core)) (core_anchor core) else None)"

definition emit_backup :: "safety_core \<Rightarrow> safety_input \<Rightarrow> backup_kind \<Rightarrow> core_reason \<Rightarrow> string list \<Rightarrow> robustness
    \<Rightarrow> safety_verdict \<times> safety_core" where
  "emit_backup core inp kind reason fired margin =
    (let core' = anchored core kind inp; mode = fallback_channel core inp;
         cmd = backup_control (core_backup core) kind mode (in_position inp) (in_velocity inp) (hold_target core' kind)
     in (\<lparr>vd_action = map Some cmd, vd_mode = mode, vd_layer = BackupLayer, vd_intervention = Fallback,
          vd_reason = reason, vd_fired = fired, vd_backup = Some kind, vd_margin = margin\<rparr>, core'))"

definition emit_watchdog :: "safety_core \<Rightarrow> safety_input \<Rightarrow> safety_verdict \<times> safety_core" where
  "emit_watchdog core inp =
    (let mode = fallback_channel core inp;
         cmd = backup_control (core_backup core) BrakeToStop mode (in_position inp) (in_velocity inp) None
     in (\<lparr>vd_action = map Some cmd, vd_mode = mode, vd_layer = BackupLayer, vd_intervention = Fallback,
          vd_reason = WatchdogExpired, vd_fired = [], vd_backup = Some BrakeToStop, vd_margin = MInf\<rparr>,
         core\<lparr>core_holding := False\<rparr>))"

text \<open>Input validation.\<close>

definition good_input :: "safety_core \<Rightarrow> safety_input \<Rightarrow> bool" where
  "good_input core inp =
    (length (in_signals inp) = length (cm_signals (core_model core)) \<and> all_finite (in_signals inp)
     \<and> (core_dim core = 0
         \<or> finite_prefix (core_dim core) (in_position inp) \<noteq> None
           \<and> finite_prefix (core_dim core) (in_velocity inp) \<noteq> None)
     \<and> (proposed_channel (in_proposed inp) = None
         \<or> core_dim core \<le> length (proposed_setpoint (in_proposed inp))
           \<and> all_finite (proposed_setpoint (in_proposed inp))))"

definition signal_values :: "safety_input \<Rightarrow> real list" where
  "signal_values inp = map (\<lambda>x. case x of None \<Rightarrow> 0 | Some r \<Rightarrow> r) (in_signals inp)"

definition predicate_values :: "safety_core \<Rightarrow> safety_input \<Rightarrow> nat \<Rightarrow> robustness" where
  "predicate_values core inp i = Fin (atom_margin (cm_atoms (core_model core) ! i) (signal_values inp))"

definition certified_verdict :: "real option list \<Rightarrow> control_channel \<Rightarrow> bool \<Rightarrow> robustness \<Rightarrow> safety_verdict" where
  "certified_verdict act mode modified margin =
    \<lparr>vd_action = act, vd_mode = mode, vd_layer = (if modified then ShieldLayer else PrimaryLayer),
     vd_intervention = (if modified then Modified else NoIntervention),
     vd_reason = (if modified then ShieldCorrected else Certified), vd_fired = [], vd_backup = None,
     vd_margin = margin\<rparr>"

definition perturbed :: "real \<Rightarrow> nat \<Rightarrow> real option list \<Rightarrow> real option list \<Rightarrow> bool" where
  "perturbed tol sd act setpoint =
    list_ex (\<lambda>(c, p). tol < \<bar>the c - the p\<bar>) (zip (take sd act) (take sd setpoint))"

text \<open>
  \<^verbatim>\<open>decide\<close> after the input is known to be good. The monitors have all advanced in \<open>core\<close>; a
  scalar bound has precedence over a monitor, the gate and the shield.
\<close>

definition act_on_proposal :: "safety_core \<Rightarrow> safety_input \<Rightarrow> safety_verdict \<times> safety_core" where
  "act_on_proposal core inp =
    (let ap = cc_policy (core_cfg core); setpoint = proposed_setpoint (in_proposed inp)
     in case proposed_channel (in_proposed inp) of
          None \<Rightarrow>
            (if admits ap (in_proposed inp)
             then (certified_verdict [] (ap_fallback ap) False PInf, core\<lparr>core_holding := False\<rparr>)
             else emit_backup core inp BrakeToStop NotCertifiable [] PInf)
        | Some mode \<Rightarrow>
            (case core_shield core of
               None \<Rightarrow> (certified_verdict setpoint mode False PInf, core\<lparr>core_holding := False\<rparr>)
             | Some s \<Rightarrow>
                 (let r = solve_mode s mode (in_position inp) (in_velocity inp) setpoint
                  in if \<not> res_certified r then emit_backup core inp BrakeToStop QpUncertifiable [] (res_margin r)
                     else (certified_verdict (res_action r) mode
                             (perturbed (cc_unchanged_tol (core_cfg core)) (core_dim core) (res_action r) setpoint)
                             (res_margin r),
                           core\<lparr>core_holding := False\<rparr>))))"

definition step_monitors :: "safety_core \<Rightarrow> safety_input \<Rightarrow> monitor_verdict list \<times> safety_core" where
  "step_monitors core inp =
    (let steps = map (monitor_step (predicate_values core inp) (cc_horizon (core_cfg core))) (core_monitors core)
     in (map fst steps, core\<lparr>core_monitors := map snd steps\<rparr>))"

definition scalar_hit :: "safety_core \<Rightarrow> safety_input \<Rightarrow> scalar_bound option" where
  "scalar_hit core inp =
    find (\<lambda>b. predicate_values core inp (sb_atom b) < Fin 0) (cm_scalar_bounds (core_model core))"

definition monitor_hit :: "monitor_verdict list \<Rightarrow> monitor list \<Rightarrow> monitor option" where
  "monitor_hit vs ms = map_option snd (find (\<lambda>(v, m). monitor_fired v) (zip vs ms))"

definition core_decide :: "safety_core \<Rightarrow> safety_input \<Rightarrow> bool \<Rightarrow> safety_verdict \<times> safety_core" where
  "core_decide core inp force_watchdog =
    (if force_watchdog then emit_watchdog core inp
     else if \<not> good_input core inp then emit_backup core inp BrakeToStop BadInput [] PInf
     else
       case step_monitors core inp of (vs, core') \<Rightarrow>
         (case scalar_hit core inp of
            Some b \<Rightarrow> emit_backup core' inp (backup_kind_of (sb_on_uncertain b)) ScalarViolated [sb_constraint b] PInf
          | None \<Rightarrow>
              (case monitor_hit vs (core_monitors core') of
                 Some mon \<Rightarrow>
                   emit_backup core' inp (backup_kind_of (mon_on_uncertain mon)) MonitorFired [mon_constraint mon] PInf
               | None \<Rightarrow> act_on_proposal core' inp)))"

text \<open>\<^verbatim>\<open>step_guarded\<close>: a decision that overran the deadline is discarded for the safe fallback.\<close>

definition core_step_guarded :: "safety_core \<Rightarrow> safety_input \<Rightarrow> bool \<Rightarrow> safety_verdict \<times> safety_core" where
  "core_step_guarded core inp overran =
    (case core_decide core inp False of (v, core') \<Rightarrow> if overran then emit_watchdog core' inp else (v, core'))"

section \<open>What a tick leaves alone\<close>

definition same_setup :: "safety_core \<Rightarrow> safety_core \<Rightarrow> bool" where
  "same_setup c c' =
    (core_model c' = core_model c \<and> core_cfg c' = core_cfg c \<and> core_dim c' = core_dim c
     \<and> core_shield c' = core_shield c \<and> core_backup c' = core_backup c)"

lemma same_setup_refl [simp]: "same_setup c c"
  by (simp add: same_setup_def)

lemma same_setup_trans: "same_setup a b \<Longrightarrow> same_setup b c \<Longrightarrow> same_setup a c"
  by (simp add: same_setup_def)

lemma emit_backup_setup: "emit_backup core inp kind reason fired margin = (v, core') \<Longrightarrow> same_setup core core'"
  by (auto simp: emit_backup_def anchored_def same_setup_def Let_def)

lemma emit_watchdog_setup: "emit_watchdog core inp = (v, core') \<Longrightarrow> same_setup core core'"
  by (auto simp: emit_watchdog_def same_setup_def Let_def)

lemma act_on_proposal_setup: "act_on_proposal core inp = (v, core') \<Longrightarrow> same_setup core core'"
  by (auto simp: act_on_proposal_def Let_def same_setup_def dest: emit_backup_setup[unfolded same_setup_def]
      split: option.splits if_splits)

lemma step_monitors_setup: "step_monitors core inp = (vs, core') \<Longrightarrow> same_setup core core'"
  by (auto simp: step_monitors_def same_setup_def Let_def)

lemma core_decide_setup: "core_decide core inp wd = (v, core') \<Longrightarrow> same_setup core core'"
  unfolding core_decide_def
  by (auto dest: emit_watchdog_setup emit_backup_setup act_on_proposal_setup step_monitors_setup
      intro: same_setup_trans split: if_splits prod.splits option.splits)

lemma core_step_guarded_setup: "core_step_guarded core inp ov = (v, core') \<Longrightarrow> same_setup core core'"
  unfolding core_step_guarded_def
  by (auto dest: emit_watchdog_setup core_decide_setup intro: same_setup_trans split: if_splits prod.splits)

text \<open>The states a core can reach.\<close>

inductive core_reaches :: "safety_core \<Rightarrow> safety_core \<Rightarrow> bool" for start where
  start: "core_reaches start start"
| decide: "core_reaches start c \<Longrightarrow> core_decide c inp wd = (v, c') \<Longrightarrow> core_reaches start c'"
| guarded: "core_reaches start c \<Longrightarrow> core_step_guarded c inp ov = (v, c') \<Longrightarrow> core_reaches start c'"

lemma core_reaches_setup: "core_reaches start c \<Longrightarrow> same_setup start c"
  by (induction rule: core_reaches.induct)
     (auto dest: core_decide_setup core_step_guarded_setup intro: same_setup_trans)

section \<open>How a verdict comes about\<close>

lemma backup_verdict:
  "emit_backup core inp kind reason fired margin = (v, c') \<Longrightarrow>
    vd_intervention v = Fallback \<and> vd_layer v = BackupLayer \<and> vd_reason v = reason \<and> vd_backup v = Some kind
    \<and> vd_fired v = fired \<and> vd_mode v = fallback_channel core inp
    \<and> vd_action v = map Some (backup_control (core_backup core) kind (fallback_channel core inp)
        (in_position inp) (in_velocity inp) (hold_target c' kind))"
  by (auto simp: emit_backup_def Let_def)

lemma watchdog_verdict:
  "emit_watchdog core inp = (v, c') \<Longrightarrow>
    vd_intervention v = Fallback \<and> vd_layer v = BackupLayer \<and> vd_mode v = fallback_channel core inp
    \<and> vd_backup v = Some BrakeToStop
    \<and> vd_action v = map Some (backup_control (core_backup core) BrakeToStop (fallback_channel core inp)
        (in_position inp) (in_velocity inp) None)"
  by (auto simp: emit_watchdog_def Let_def)

lemma certified_intervention [simp]: "vd_intervention (certified_verdict act mode md margin) \<noteq> Fallback"
  by (simp add: certified_verdict_def)

text \<open>A verdict without fallback has passed every layer before the shield.\<close>

lemma passed_layers:
  assumes "core_decide core inp wd = (v, c')" "vd_intervention v \<noteq> Fallback"
  shows "\<not> wd" "good_input core inp" "scalar_hit core inp = None"
    and "\<exists>vs c1. step_monitors core inp = (vs, c1) \<and> monitor_hit vs (core_monitors c1) = None
      \<and> act_on_proposal c1 inp = (v, c')"
proof -
  have nb: "emit_backup c i k r f g \<noteq> (v, c')" for c i k r f g
    using assms(2) backup_verdict by blast
  have nw: "emit_watchdog c i \<noteq> (v, c')" for c i
    using assms(2) watchdog_verdict by blast
  show "\<not> wd"
    using assms(1) nw by (auto simp: core_decide_def)
  then show "good_input core inp"
    using assms(1) nb by (auto simp: core_decide_def split: if_splits)
  obtain vs c1 where steps: "step_monitors core inp = (vs, c1)"
    by (cases "step_monitors core inp")
  note decide = assms(1)[unfolded core_decide_def steps, simplified]
  show "scalar_hit core inp = None"
    using decide nb nw by (auto split: if_splits option.splits)
  then show "\<exists>vs c1. step_monitors core inp = (vs, c1) \<and> monitor_hit vs (core_monitors c1) = None
      \<and> act_on_proposal c1 inp = (v, c')"
    using decide nb nw steps by (auto split: if_splits option.splits)
qed

lemma certified_directive:
  assumes "act_on_proposal core inp = (v, c')" "vd_intervention v \<noteq> Fallback"
    and "proposed_channel (in_proposed inp) = None"
  shows "admits (cc_policy (core_cfg core)) (in_proposed inp) \<and> vd_action v = [] \<and> vd_intervention v = NoIntervention"
  using assms backup_verdict[of core inp BrakeToStop NotCertifiable "[]" PInf v c']
  by (auto simp: act_on_proposal_def certified_verdict_def Let_def split: if_splits)

lemma certified_command:
  assumes "act_on_proposal core inp = (v, c')" "vd_intervention v \<noteq> Fallback"
    and "proposed_channel (in_proposed inp) = Some mode" "core_shield core = Some s"
  shows "vd_mode v = mode \<and> res_certified (solve_mode s mode (in_position inp) (in_velocity inp)
      (proposed_setpoint (in_proposed inp)))
    \<and> vd_action v = res_action (solve_mode s mode (in_position inp) (in_velocity inp) (proposed_setpoint (in_proposed inp)))"
  using assms backup_verdict[of core inp BrakeToStop QpUncertifiable "[]" _ v c']
  by (auto simp: act_on_proposal_def certified_verdict_def Let_def split: if_splits)

end
