(* ===== verification/Guard_Chain.thy ===== *)
theory Guard_Chain
  imports Guard_Core
begin

text \<open>
  The chain from the reviewed contract to the emitted command: a contract that passes the loader and
  the compiler is accepted by the decoder of the trusted core, and the core certifies nothing that
  the contract does not allow.
\<close>

section \<open>A compiled contract is decoded\<close>

lemma keep_out_term_cases:
  assumes "keep_out_term_of c = Inr t"
  obtains (box) k b where "sc_keep_out c = Some k" "vol_box (ko_volume k) = Some b" "kt_shape t = BOX"
      "kt_margin t = ko_margin k" "kt_center t = vec_list (box_center b)"
      "kt_half_extents t = map (\<lambda>x. x / 2) (vec_list (box_dimensions b))" "kt_frame_ref t = box_frame_ref b"
  | (sphere) k s where "sc_keep_out c = Some k" "vol_sphere (ko_volume k) = Some s" "kt_shape t = SPHERE"
      "kt_margin t = ko_margin k" "kt_center t = vec_list (sphere_center s)"
      "kt_radius t = Some (sphere_radius s)" "kt_frame_ref t = sphere_frame_ref s"
  | (half) k h x y z where "sc_keep_out c = Some k" "vol_half_space (ko_volume k) = Some h" "kt_shape t = HALF_SPACE"
      "kt_margin t = ko_margin k" "kt_normal t = [x, y, z]" "kt_offset t \<noteq> None" "kt_frame_ref t = half_frame_ref h"
proof -
  obtain k where k: "sc_keep_out c = Some k"
    using assms by (auto simp: keep_out_term_of_def)
  show thesis
  proof (cases "vol_shape (ko_volume k)")
    case BOX
    then obtain b where "vol_box (ko_volume k) = Some b"
      using assms k by (auto simp: keep_out_term_of_def Let_def)
    then show thesis
      using assms k BOX by (intro box[of k b]) (auto simp: keep_out_term_of_def Let_def)
  next
    case SPHERE
    then obtain s where "vol_sphere (ko_volume k) = Some s"
      using assms k by (auto simp: keep_out_term_of_def Let_def)
    then show thesis
      using assms k SPHERE by (intro sphere[of k s]) (auto simp: keep_out_term_of_def Let_def)
  next
    case HALF_SPACE
    then obtain h where h: "vol_half_space (ko_volume k) = Some h"
      using assms k by (auto simp: keep_out_term_of_def Let_def)
    obtain x y z where "half_normal h = (x, y, z)"
      by (cases "half_normal h")
    then show thesis
      using assms k h HALF_SPACE by (intro half[of k h]) (auto simp: keep_out_term_of_def Let_def split: if_splits)
  qed
qed

lemma compiled_term_geometry:
  assumes "keep_out_term_of c = Inr t"
  shows "geometry_dim t = Inr 3 \<and> wellformed_barrier 3 (barrier_of_term 3 t)"
  using assms
  by (cases rule: keep_out_term_cases)
     (auto simp: geometry_dim_def barrier_of_term_def wellformed_barrier_def vec_list_def Let_def
       eval_nat_numeral split: prod.splits)

lemma compiled_term_frame:
  assumes "keep_out_term_of c = Inr t"
  shows "\<exists>k. sc_keep_out c = Some k \<and> kt_margin t = ko_margin k
    \<and> (kt_frame_ref t = Option.bind (vol_box (ko_volume k)) box_frame_ref
       \<or> kt_frame_ref t = Option.bind (vol_sphere (ko_volume k)) sphere_frame_ref
       \<or> kt_frame_ref t = Option.bind (vol_half_space (ko_volume k)) half_frame_ref)"
  using assms by (cases rule: keep_out_term_cases) auto

text \<open>
  What the Core model of a reference frame already guarantees of the frames of a contract
  (\<^verbatim>\<open>core/units/model.py\<close>, \<^verbatim>\<open>_validate_token\<close>). The loader says nothing of the names of the modes
  that a contract grants.
\<close>

definition frames_valid :: "safety_spec \<Rightarrow> bool" where
  "frames_valid spec =
    (list_all (\<lambda>c. pred_option (\<lambda>k.
        frame_ref_valid (Option.bind (vol_box (ko_volume k)) box_frame_ref)
        \<and> frame_ref_valid (Option.bind (vol_sphere (ko_volume k)) sphere_frame_ref)
        \<and> frame_ref_valid (Option.bind (vol_half_space (ko_volume k)) half_frame_ref)) (sc_keep_out c))
       (ss_constraints spec)
     \<and> pred_option (\<lambda>p. frame_ref_valid (pose_frame_ref p)) (ss_safe_pose spec))"

definition modes_named :: "safety_spec \<Rightarrow> bool" where
  "modes_named spec = pred_option (\<lambda>d. [] \<notin> set (ad_modes d)) (ss_directives spec)"

lemma spatial_dim_all:
  "\<forall>t \<in> set ts. geometry_dim t = Inr d \<Longrightarrow> spatial_dim_of (Some d) ts = Inr (Some d)"
  by (induction ts) simp_all

lemma spatial_dim_start:
  "\<forall>t \<in> set ts. geometry_dim t = Inr d \<Longrightarrow> spatial_dim_of None ts = Inr (if ts = [] then None else Some d)"
  by (cases ts) (simp_all add: spatial_dim_all)

lemma compile_node_indices:
  "check_formula keys f = None \<Longrightarrow> set (resolve_atoms keys (formula_atoms f)) \<subseteq> set atoms \<Longrightarrow>
    i \<in> set (snd (snd (compile_node keys atoms period f))) \<Longrightarrow> i < length atoms"
proof (induction f)
  case (Formula ot sn cm th iv args)
  have node: "check_node keys (Formula ot sn cm th iv args) = None"
    using Formula.prems(1) by (simp only: check_formula_parts)
  show ?case
  proof (cases "ot = OP_PREDICATE")
    case True
    then obtain k c x where leaf: "sn = Some k" "cm = Some c" "th = Some x"
      using check_predicate[of keys sn cm th iv args] node by auto
    then show ?thesis
      using Formula.prems(2,3) True position_nth[of "(c, position keys k, x)" atoms]
      by (simp add: resolve_atoms_def Let_def)
  next
    case False
    then obtain f where f: "f \<in> set args" "i \<in> set (snd (snd (compile_node keys atoms period f)))"
      using Formula.prems(3) by (auto simp: Let_def)
    moreover have "set (resolve_atoms keys (formula_atoms f)) \<subseteq> set atoms"
      using Formula.prems(2) False f(1) by (fastforce simp: resolve_atoms_def)
    ultimately show ?thesis
      using Formula.IH[OF f(1)] Formula.prems(1) by (auto simp: check_formula_parts simp del: check_formula.simps)
  qed
qed

lemma positive_least:
  "least (positive_bounds sel cs) = Some l \<Longrightarrow> 0 < l"
proof -
  have "0 < x" if "x \<in> set (positive_bounds sel cs)" for x
    using that by (auto simp: positive_bounds_def List.map_filter_def split: if_splits option.splits)
  moreover have "foldl min y ys \<in> set (y # ys)" for y :: real and ys
    by (induction ys arbitrary: y) (auto simp: min_def)
  ultimately show "least (positive_bounds sel cs) = Some l \<Longrightarrow> 0 < l"
    by (auto simp: least_def split: list.splits)
qed

lemma compiled_indices:
  assumes "compile_spec H period spec = Inr m"
  shows "\<forall>a \<in> set (cm_atoms m). atom_signal a < length (cm_signals m)"
    and "\<forall>b \<in> set (cm_scalar_bounds m). sb_atom b < length (cm_atoms m)"
    and "\<forall>a \<in> set (cm_monitors m). node_valid (ma_root a) \<and> (\<forall>i \<in> set (ma_predicates a). i < length (cm_atoms m))"
proof -
  let ?keys = "sort (map sig_key (ss_signals spec))" and ?cs = "ss_constraints spec"
  obtain raw bounds monitors where parts: "0 < period" "validate_safety_spec spec = Inr ()"
    "rmap (constraint_atoms ?keys) ?cs = Inr raw"
    "rmap (scalar_bounds_of ?keys (ordered_atoms (concat raw))) ?cs = Inr bounds"
    "rmap (monitor_of ?keys (ordered_atoms (concat raw)) period) (filter (\<lambda>c. sc_kind c = TEMPORAL) ?cs)
      = Inr monitors"
    "cm_signals m = ?keys"
    "cm_atoms m = map (\<lambda>(ot, si, th). \<lparr>atom_op = ot, atom_signal = si, atom_threshold = th\<rparr>)
      (ordered_atoms (concat raw))"
    "set (cm_scalar_bounds m) = set (concat bounds)" "set (cm_monitors m) = set monitors"
    using assms by (rule compile_spec_parts)
  let ?atoms = "ordered_atoms (concat raw)"
  have len: "length (cm_atoms m) = length ?atoms"
    by (simp add: parts(7))
  show "\<forall>a \<in> set (cm_atoms m). atom_signal a < length (cm_signals m)"
    using compiled_atoms_declared[OF parts(2,3)] by (auto simp: parts(6,7))
  show "\<forall>b \<in> set (cm_scalar_bounds m). sb_atom b < length (cm_atoms m)"
  proof
    fix b assume "b \<in> set (cm_scalar_bounds m)"
    then obtain bs where bs: "bs \<in> set bounds" "b \<in> set bs"
      using parts(8) by auto
    obtain c where c: "c \<in> set ?cs" "scalar_bounds_of ?keys ?atoms c = Inr bs"
      using rmap_image[OF parts(4) bs(1)] by auto
    then have "\<exists>as. constraint_atoms ?keys c = Inr as \<and> (\<exists>a \<in> set as. sb_atom b = position ?atoms a)"
      using bs(2) by (fastforce simp: scalar_bounds_of_def rbind_Inr split: if_splits)
    then obtain as where "constraint_atoms ?keys c = Inr as" "\<exists>a \<in> set as. sb_atom b = position ?atoms a"
      by blast
    then show "sb_atom b < length (cm_atoms m)"
      using constraint_atoms_covered[OF parts(3) c(1)] position_nth len by fastforce
  qed
  show "\<forall>a \<in> set (cm_monitors m). node_valid (ma_root a) \<and> (\<forall>i \<in> set (ma_predicates a). i < length (cm_atoms m))"
  proof
    fix a assume "a \<in> set (cm_monitors m)"
    then obtain c where c: "c \<in> set ?cs" "sc_kind c = TEMPORAL" "monitor_of ?keys ?atoms period c = Inr a"
      using parts(9) rmap_image[OF parts(5)] by auto
    obtain f where f: "sc_temporal c = Some f" "check_formula ?keys f = None"
      using checked_payload(2)[OF compiled_checked[OF parts(2) c(1)] c(2)] by auto
    have sub: "set (resolve_atoms ?keys (formula_atoms f)) \<subseteq> set ?atoms"
      using constraint_atoms_covered[OF parts(3) c(1)] c(2) f(1)
      by (simp add: constraint_atoms_def temporal_atoms_def asserted_def)
    have "ma_root a = fst (compile_node ?keys ?atoms period f)"
      "set (ma_predicates a) = set (snd (snd (compile_node ?keys ?atoms period f)))"
      using c(3) f(1) by (auto simp: monitor_of_def split: prod.splits)
    then show "node_valid (ma_root a) \<and> (\<forall>i \<in> set (ma_predicates a). i < length (cm_atoms m))"
      using compile_node_valid[OF f(2) parts(1)] compile_node_indices[OF f(2) sub] len by auto
  qed
qed

lemma compiled_keep_outs:
  assumes "compile_spec H period spec = Inr m"
  shows "\<forall>t \<in> set (cm_keep_outs m). \<exists>c \<in> set (ss_constraints spec). is_keep_out c \<and> keep_out_term_of c = Inr t"
    and "c \<in> set (ss_constraints spec) \<Longrightarrow> is_keep_out c \<Longrightarrow> \<exists>t \<in> set (cm_keep_outs m). keep_out_term_of c = Inr t"
proof -
  obtain terms where terms: "rmap keep_out_term_of (filter is_keep_out (ss_constraints spec)) = Inr terms"
    "set (cm_keep_outs m) = set terms"
    using assms by (rule compile_spec_parts)
  show "\<forall>t \<in> set (cm_keep_outs m). \<exists>c \<in> set (ss_constraints spec). is_keep_out c \<and> keep_out_term_of c = Inr t"
    using rmap_image[OF terms(1)] terms(2) by fastforce
  show "c \<in> set (ss_constraints spec) \<Longrightarrow> is_keep_out c \<Longrightarrow> \<exists>t \<in> set (cm_keep_outs m). keep_out_term_of c = Inr t"
    using rmap_member[OF terms(1), of c] terms(2) by auto
qed

lemma compiled_geometry:
  assumes "compile_spec H period spec = Inr m" "t \<in> set (cm_keep_outs m)"
  shows "geometry_dim t = Inr 3 \<and> wellformed_barrier 3 (barrier_of_term 3 t)"
  using compiled_keep_outs(1)[OF assms(1)] assms(2) compiled_term_geometry by blast

lemma compiled_dimension:
  assumes "compile_spec H period spec = Inr m"
  shows "spatial_dim_of None (cm_keep_outs m) = Inr (if cm_keep_outs m = [] then None else Some 3)"
  using compiled_geometry[OF assms] by (intro spatial_dim_start) blast

lemma compiled_frames:
  assumes "compile_spec H period spec = Inr m" "frames_valid spec" "t \<in> set (cm_keep_outs m)"
  shows "frame_ref_valid (kt_frame_ref t)"
proof -
  obtain c where c: "c \<in> set (ss_constraints spec)" "keep_out_term_of c = Inr t"
    using compiled_keep_outs(1)[OF assms(1)] assms(3) by blast
  then show ?thesis
    using compiled_term_frame[OF c(2)] assms(2) by (fastforce simp: frames_valid_def list_all_iff)
qed

lemma task_value_named [simp]: "task_value t \<noteq> []" "[] \<noteq> task_value t"
  by (cases t; simp)+

lemma compiled_directives_named:
  "decode_directives (admissible_directives_of spec)
    = (if modes_named spec then Inr (admissible_directives_of spec) else Inl EmptyDirective)"
  by (auto simp: decode_directives_def modes_named_def admissible_directives_of_def split: option.splits)

lemma compiled_decoding:
  assumes "compile_spec H period spec = Inr m" "frames_valid spec"
    and "list_all (\<lambda>a. ma_history a \<le> cc_history_cap cfg) (cm_monitors m)"
  defines "dimension \<equiv> (if cm_keep_outs m = [] then None else Some 3)"
  shows "core_from_model cfg m
    = (if modes_named spec then Inr (core_of_model cfg m dimension) else Inl EmptyDirective)"
proof -
  have parts: "0 < period" "cm_limits m = action_limits_of spec" "cm_directives m = admissible_directives_of spec"
    "cm_period m = period" "cm_safe_pose m = map_option compiled_pose_of (ss_safe_pose spec)"
    using compile_spec_parts[OF assms(1)] by blast+
  note idx = compiled_indices[OF assms(1)]
  have atoms: "rmap (decode_atom (length (cm_signals m))) (wm_atoms (to_wire m)) = Inr (cm_atoms m)"
    using idx(1) by (simp add: to_wire_def decode_sent_atoms)
  have bounds: "all_checked (\<lambda>b. check_atom (length (cm_atoms m)) (sb_atom b)) (cm_scalar_bounds m) = Inr ()"
    using idx(2) by (auto simp: check_atom_def)
  have terms: "all_checked decode_term (cm_keep_outs m) = Inr ()"
    using compiled_frames[OF assms(1,2)] compiled_geometry[OF assms(1)] by (auto simp: decode_term_def)
  have monitors: "all_checked (decode_monitor (cc_history_cap cfg) (length (cm_atoms m))) (cm_monitors m) = Inr ()"
    using idx(3) assms(3) by (fastforce simp: decode_monitor_def check_atom_def list_all_iff)
  have pose: "decode_pose dimension (wm_safe_pose (to_wire m)) = Inr (cm_safe_pose m)"
    using assms(2)
    by (auto simp: to_wire_def decode_sent_pose parts(5) frames_valid_def compiled_pose_of_def vec_list_def
        dimension_def option.pred_map split: option.splits prod.splits elim!: option.pred_mono_strong)
  have limits: "decode_limits (wm_limits (to_wire m)) = Inr (cm_limits m)"
    using decode_sent_limits[of "cm_limits m" "cm_limits m"] positive_least
    by (auto simp: to_wire_def parts(2) action_limits_of_def option.pred_set)
  have directives: "decode_directives (cm_directives m) = (if modes_named spec then Inr (cm_directives m) else Inl EmptyDirective)"
    by (simp add: parts(3) compiled_directives_named)
  have whole: "\<lparr>cm_spec_id = cm_spec_id m, cm_spec_hash = cm_spec_hash m, cm_period = cm_period m,
      cm_signals = cm_signals m, cm_atoms = cm_atoms m, cm_scalar_bounds = cm_scalar_bounds m,
      cm_keep_outs = cm_keep_outs m, cm_monitors = cm_monitors m, cm_resources = cm_resources m,
      cm_limits = cm_limits m, cm_safe_pose = cm_safe_pose m, cm_directives = cm_directives m\<rparr> = m"
    by simp
  have dim: "spatial_dim_of None (cm_keep_outs m) = Inr dimension" "0 < cm_period m"
    using compiled_dimension[OF assms(1)] parts(1,4) by (simp_all add: dimension_def)
  have "decode_model (cc_history_cap cfg) (to_wire m)
    = rbind (decode_directives (cm_directives m)) (\<lambda>directives. Inr (m\<lparr>cm_directives := directives\<rparr>, dimension))"
    unfolding decode_model_def using atoms bounds terms monitors pose limits dim
    by (simp add: to_wire_def del: all_checked_Inr) (subst (4) whole[symmetric], simp)
  then show ?thesis
    by (simp add: core_from_model_def core_from_wire_def directives)
qed

lemma compiled_decodes:
  assumes "compile_spec H period spec = Inr m" "frames_valid spec" "modes_named spec"
    and "list_all (\<lambda>a. ma_history a \<le> cc_history_cap cfg) (cm_monitors m)"
  shows "\<exists>core. core_from_model cfg m = Inr core \<and> core_dim core = (if cm_keep_outs m = [] then 0 else 3)"
  using compiled_decoding[OF assms(1,2,4)] assms(3) by (simp add: core_of_model_def Let_def)

text \<open>The history that the clauses of a contract ask for, read off the formulas.\<close>

fun formula_history :: "real \<Rightarrow> formula \<Rightarrow> nat" where
  "formula_history period (Formula ot sn cm th iv args) =
    (if windowed ot then case iv of None \<Rightarrow> 0 | Some i \<Rightarrow> samples period (snd i) else 0)
    + sum_list (map (formula_history period) args)"

lemma compile_node_history:
  "check_formula declared f = None \<Longrightarrow>
    history_window (fst (compile_node keys atoms period f)) = formula_history period f"
proof (induction f)
  case (Formula ot sn cm th iv args)
  have node: "check_node declared (Formula ot sn cm th iv args) = None"
    using Formula.prems by (simp only: check_formula_parts)
  show ?case
  proof (cases "ot = OP_PREDICATE")
    case True
    then show ?thesis
      using check_predicate[of declared sn cm th iv args] node by (auto simp: windowed_def Let_def)
  next
    case False
    have "map (\<lambda>a. history_window (fst (compile_node keys atoms period a))) args = map (formula_history period) args"
      using Formula.prems
      by (intro map_cong[OF refl] Formula.IH) (auto simp: check_formula_parts simp del: check_formula.simps)
    then show ?thesis
      using False by (auto simp: windowed_def comp_def Let_def cong: map_cong split: option.splits)
  qed
qed

lemma compiled_histories:
  assumes "compile_spec H period spec = Inr m"
    and "list_all (\<lambda>c. pred_option (\<lambda>f. formula_history period f \<le> cap) (sc_temporal c)) (ss_constraints spec)"
  shows "list_all (\<lambda>a. ma_history a \<le> cap) (cm_monitors m)"
proof -
  let ?keys = "sort (map sig_key (ss_signals spec))" and ?cs = "ss_constraints spec"
  obtain raw monitors where parts: "validate_safety_spec spec = Inr ()"
    "rmap (monitor_of ?keys (ordered_atoms (concat raw)) period) (filter (\<lambda>c. sc_kind c = TEMPORAL) ?cs)
      = Inr monitors"
    "set (cm_monitors m) = set monitors"
    using assms(1) by (rule compile_spec_parts)
  have "ma_history a \<le> cap" if a: "a \<in> set (cm_monitors m)" for a
  proof -
    obtain c where c: "c \<in> set ?cs" "sc_kind c = TEMPORAL" "monitor_of ?keys (ordered_atoms (concat raw)) period c = Inr a"
      using rmap_image[OF parts(2)] a parts(3) by auto
    obtain f where f: "sc_temporal c = Some f" "check_formula ?keys f = None"
      using checked_payload(2)[OF compiled_checked[OF parts(1) c(1)] c(2)] by auto
    have "ma_history a = formula_history period f"
      using c(3) f(1) compile_node_history[OF f(2), of ?keys "ordered_atoms (concat raw)" period]
      by (auto simp: monitor_of_def case_prod_unfold)
    then show ?thesis
      using assms(2) c(1) f(1) by (auto simp: list_all_iff)
  qed
  then show ?thesis
    by (simp add: list_all_iff)
qed

lemma compiled_monitor_origin:
  assumes "compile_spec H period spec = Inr m" "a \<in> set (cm_monitors m)"
  shows "\<exists>c \<in> set (ss_constraints spec). sc_kind c = TEMPORAL"
proof -
  obtain monitors keys atoms where "rmap (monitor_of keys atoms period)
      (filter (\<lambda>c. sc_kind c = TEMPORAL) (ss_constraints spec)) = Inr monitors" "set (cm_monitors m) = set monitors"
    using compile_spec_parts[OF assms(1)] by blast
  then show ?thesis
    using rmap_image assms(2) by fastforce
qed

section \<open>The setup of a running core\<close>

lemma running_core:
  assumes "compile_spec H period spec = Inr m" "core_from_model cfg m = Inr c0" "core_reaches c0 core"
  shows "core_model core = m" "cc_policy (core_cfg core) = narrowed_to (cc_policy cfg) (cm_directives m)"
    and "cc_horizon (core_cfg core) = cc_horizon cfg" "core_dim core = (if cm_keep_outs m = [] then 0 else 3)"
    and "core_shield core = (if cm_keep_outs m = [] then None
      else Some (shield_new (cm_keep_outs m) 3 (cc_shield cfg) (cm_period m) (cm_limits m)))"
    and "core_backup core = backup_new (core_dim core) (cc_shield cfg) (cc_k_brake cfg) (cm_period m)
      (map_option cp_position (cm_safe_pose m)) (cm_keep_outs m) (cm_limits m)"
proof -
  obtain sd where sd: "c0 = core_of_model cfg m sd" "spatial_dim_of None (cm_keep_outs m) = Inr sd"
    using assms(2) by (rule core_from_model_Inr)
  then have "sd = (if cm_keep_outs m = [] then None else Some 3)"
    using compiled_dimension[OF assms(1)] by simp
  then have c0: "core_model c0 = m \<and> cc_policy (core_cfg c0) = narrowed_to (cc_policy cfg) (cm_directives m)
    \<and> cc_horizon (core_cfg c0) = cc_horizon cfg \<and> core_dim c0 = (if cm_keep_outs m = [] then 0 else 3)
    \<and> core_shield c0 = (if cm_keep_outs m = [] then None
      else Some (shield_new (cm_keep_outs m) 3 (cc_shield cfg) (cm_period m) (cm_limits m)))
    \<and> core_backup c0 = backup_new (core_dim c0) (cc_shield cfg) (cc_k_brake cfg) (cm_period m)
      (map_option cp_position (cm_safe_pose m)) (cm_keep_outs m) (cm_limits m)"
    using sd by (auto simp: core_of_model_def Let_def)
  then show "core_model core = m" "cc_policy (core_cfg core) = narrowed_to (cc_policy cfg) (cm_directives m)"
    "cc_horizon (core_cfg core) = cc_horizon cfg" "core_dim core = (if cm_keep_outs m = [] then 0 else 3)"
    "core_shield core = (if cm_keep_outs m = [] then None
      else Some (shield_new (cm_keep_outs m) 3 (cc_shield cfg) (cm_period m) (cm_limits m)))"
    "core_backup core = backup_new (core_dim core) (cc_shield cfg) (cc_k_brake cfg) (cm_period m)
      (map_option cp_position (cm_safe_pose m)) (cm_keep_outs m) (cm_limits m)"
    using core_reaches_setup[OF assms(3)] by (simp_all add: same_setup_def)
qed

lemma shield_of_compiled:
  assumes "compile_spec H period spec = Inr m"
    and s_def: "s = shield_new (cm_keep_outs m) 3 cfg (cm_period m) (cm_limits m)"
  shows "shd_dim s = 3" "shd_dt s = period" "shd_cfg s = cfg"
    and "\<forall>b \<in> set (shd_barriers s). wellformed_barrier 3 b"
    and "shd_barriers s = map (barrier_of_term 3) (cm_keep_outs m)"
    and "shd_u_max s = tighten (cfg_u_max cfg) (lim_accel (action_limits_of spec))"
    and "shd_v_max s = tighten (cfg_v_max cfg) (lim_velocity (action_limits_of spec))"
    and "shd_step_max s = shd_v_max s * period"
proof -
  have parts: "0 < period" "cm_limits m = action_limits_of spec" "cm_period m = period"
    using compile_spec_parts[OF assms(1)] by blast+
  show "shd_dim s = 3" "shd_dt s = period" "shd_cfg s = cfg"
    "shd_barriers s = map (barrier_of_term 3) (cm_keep_outs m)"
    "shd_u_max s = tighten (cfg_u_max cfg) (lim_accel (action_limits_of spec))"
    "shd_v_max s = tighten (cfg_v_max cfg) (lim_velocity (action_limits_of spec))"
    "shd_step_max s = shd_v_max s * period"
    using parts by (simp_all add: s_def shield_new_def Let_def)
  then show "\<forall>b \<in> set (shd_barriers s). wellformed_barrier 3 b"
    using compiled_geometry[OF assms(1)] by simp
qed

text \<open>A certified command in the frame of the keep-outs.\<close>

lemma certified_motion:
  assumes "compile_spec H period spec = Inr m" "core_from_model cfg m = Inr c0" "core_reaches c0 core"
    and "core_decide core inp wd = (v, c')" "vd_intervention v \<noteq> Fallback"
    and "proposed_channel (in_proposed inp) = Some mode" "cm_keep_outs m \<noteq> []"
  defines "s \<equiv> shield_new (cm_keep_outs m) 3 (cc_shield cfg) (cm_period m) (cm_limits m)"
  obtains p x y where "finite_prefix 3 (in_position inp) = Some p"
    "finite_prefix 3 (proposed_setpoint (in_proposed inp)) = Some x" "vd_action v = map Some y"
    "length p = 3" "length y = 3" "vd_mode v = mode" "in_envelope s mode p y"
    "mode \<noteq> Effort \<Longrightarrow>
      \<forall>b \<in> set (shd_barriers s). - cfg_tol (cc_shield cfg) \<le> static_h 3 b (next_position s mode p y)"
proof -
  note run = running_core[OF assms(1-3)]
  note shd = shield_of_compiled[OF assms(1) s_def[THEN meta_eq_to_obj_eq]]
  obtain c1 where c1: "act_on_proposal c1 inp = (v, c')" "same_setup core c1"
    using passed_layers(4)[OF assms(4,5)] step_monitors_setup by blast
  have "core_shield c1 = Some s"
    using c1(2) run(5) assms(7) by (simp add: same_setup_def s_def)
  note cmd = certified_command[OF c1(1) assms(5,6) this]
  obtain p v' x y where sol: "finite_prefix (shd_dim s) (in_position inp) = Some p"
    "finite_prefix (shd_dim s) (in_velocity inp) = Some v'"
    "finite_prefix (shd_dim s) (proposed_setpoint (in_proposed inp)) = Some x"
    "y = dykstra s mode p (barrier_rows s mode p v') x" "vd_action v = map Some y"
    "certify s mode p (barrier_rows s mode p v') y"
    using solve_mode_certified[OF refl conjunct1[OF conjunct2[OF cmd]]] cmd by metis
  have len: "length p = 3" "length x = 3"
    using finite_prefix_length[OF sol(1)] finite_prefix_length[OF sol(3)] shd(1) by simp_all
  have "\<forall>b \<in> set (shd_barriers s). case b of HalfBarrier n _ \<Rightarrow> length n = shd_dim s | _ \<Rightarrow> True"
    using shd(1,4) by (auto simp: wellformed_barrier_def split: barrier.splits)
  from dykstra_length[OF _ , of "barrier_rows s mode p v'" p x s mode] barrier_rows_length[OF this, of mode p v']
  have "length y = 3"
    using len shd(1) by (simp add: sol(4))
  then show thesis
    using that[of p x y] sol len cmd shd(1,3) by (auto simp: certify_def Let_def list_all_iff)
qed

end
