(* ===== verification/Guard_Safety.thy ===== *)
theory Guard_Safety
  imports Guard_Chain
begin

text \<open>
  What the trusted core guarantees of the reviewed contract, stated over the loader, the compiler,
  the decoder and the arbiter together: the clearance and the envelope of certified commands, the
  directives, the scalar and temporal clauses, the bounds of the recover layer, and the transparency
  of the core for commands that are safe as they are.
\<close>

section \<open>Certified commands\<close>

definition commanded_position :: "real \<Rightarrow> control_channel \<Rightarrow> real list \<Rightarrow> real list \<Rightarrow> nat \<Rightarrow> real" where
  "commanded_position period mode p y i =
    (case mode of Velocity \<Rightarrow> p ! i + y ! i * period | Position \<Rightarrow> y ! i | Effort \<Rightarrow> p ! i)"

text \<open>
  C6: No certified motion ends near a reviewed keep-out volume. Compile a contract, build a core for
  it under any configuration, and let it run: whenever the core emits a velocity or position command
  other than a fallback, the position the command reaches after one sample period has at least the
  reviewed margin, up to the solver's tolerance, from every point of every keep-out volume of the
  contract (boxes, spheres and half-spaces).
\<close>

theorem certified_motion_is_clear:
  assumes "compile_spec H period spec = Inr m" "core_from_model cfg m = Inr c0" "core_reaches c0 core"
    and "core_decide core inp wd = (v, c')" "vd_intervention v \<noteq> Fallback"
    and "proposed_channel (in_proposed inp) = Some mode" "mode \<noteq> Effort"
    and "c \<in> set (ss_constraints spec)" "sc_kind c = KEEP_OUT" "sc_keep_out c = Some k" "in_volume (ko_volume k) z"
  shows "\<exists>p y. finite_prefix 3 (in_position inp) = Some p \<and> vd_action v = map Some y
    \<and> (let q = commanded_position period mode p y
       in ko_margin k - cfg_tol (cc_shield cfg) \<le> dist3 (q 0, q 1, q 2) z)"
proof -
  obtain t where t: "t \<in> set (cm_keep_outs m)" "keep_out_term_of c = Inr t"
    using compiled_keep_outs(2)[OF assms(1,8)] assms(9) by (auto simp: is_keep_out_def)
  then have ne: "cm_keep_outs m \<noteq> []"
    by auto
  let ?s = "shield_new (cm_keep_outs m) 3 (cc_shield cfg) (cm_period m) (cm_limits m)"
  note shd = shield_of_compiled[OF assms(1), of ?s, OF refl]
  obtain p y where py: "finite_prefix 3 (in_position inp) = Some p" "vd_action v = map Some y"
    "\<forall>b \<in> set (shd_barriers ?s). - cfg_tol (cc_shield cfg) \<le> static_h 3 b (next_position ?s mode p y)"
    using certified_motion[OF assms(1-6) ne] assms(7) by metis
  have "next_position ?s mode p y = commanded_position period mode p y"
    using shd(2) by (auto simp: next_position_def commanded_position_def fun_eq_iff split: control_channel.splits)
  then have "- cfg_tol (cc_shield cfg) \<le> static_h 3 (barrier_of_term 3 t) (commanded_position period mode p y)"
    using py(3) t(1) shd(5) by simp
  then show ?thesis
    using py term_clearance[OF assms(10) t(2) _ assms(11)] by (auto simp: Let_def)
qed

text \<open>The limits that the contract authored on the command.\<close>

lemma least_lower: "least xs = Some l \<Longrightarrow> x \<in> set xs \<Longrightarrow> l \<le> x"
proof -
  have "foldl min y ys \<le> y \<and> (\<forall>x \<in> set ys. foldl min y ys \<le> x)" for y :: real and ys
  proof (induction ys arbitrary: y)
    case (Cons a ys)
    then show ?case
      using Cons.IH[of "min y a"] by auto
  qed simp
  then show "least xs = Some l \<Longrightarrow> x \<in> set xs \<Longrightarrow> l \<le> x"
    by (auto simp: least_def split: list.splits)
qed

lemma authored_limit:
  assumes "c \<in> set cs" "sc_kind c = KINEMATIC_LIMIT" "sc_kinematic_limit c = Some k" "sel k = Some l" "0 < l"
  shows "tighten configured (least (positive_bounds sel cs)) \<le> l"
proof -
  have l: "l \<in> set (positive_bounds sel cs)"
    using assms by (force simp: positive_bounds_def List.map_filter_def)
  then obtain b where "least (positive_bounds sel cs) = Some b"
    by (cases "positive_bounds sel cs") (auto simp: least_def)
  then show ?thesis
    using least_lower[OF _ l] tighten_bounds(2) positive_least by (metis order.trans)
qed

text \<open>
  C10: A certified setpoint stays inside both envelopes, the configured one and the reviewed one. With
  a keep-out in the contract, a certified acceleration is bounded in every axis, a certified velocity
  in its norm, and a certified position in its step, by the configured ceiling and by each positive
  ceiling of its kind that any kinematic clause of the contract authors (whether or not the clause
  authors the other kind too), up to the solver's tolerance. A contract without keep-outs has no
  shield: the core then certifies the setpoint as it was proposed.
\<close>

theorem certified_command_in_envelope:
  assumes "compile_spec H period spec = Inr m" "core_from_model cfg m = Inr c0" "core_reaches c0 core"
    and "core_decide core inp wd = (v, c')" "vd_intervention v \<noteq> Fallback"
    and "proposed_channel (in_proposed inp) = Some mode"
  defines "authored \<equiv> (\<lambda>sel l. \<exists>c \<in> set (ss_constraints spec). \<exists>k. sc_kind c = KINEMATIC_LIMIT
      \<and> sc_kinematic_limit c = Some k \<and> sel k = Some l \<and> 0 < l)"
    and "tol \<equiv> cfg_tol (cc_shield cfg)"
  shows "vd_mode v = mode
    \<and> (if cm_keep_outs m = [] then vd_action v = proposed_setpoint (in_proposed inp)
       else \<exists>p y. finite_prefix 3 (in_position inp) = Some p \<and> vd_action v = map Some y
         \<and> (case mode of
              Effort \<Rightarrow> \<forall>u \<in> set y. \<bar>u\<bar> \<le> cfg_u_max (cc_shield cfg) + tol \<and> (\<forall>l. authored km_accel l \<longrightarrow> \<bar>u\<bar> \<le> l + tol)
            | Velocity \<Rightarrow> vnorm y \<le> cfg_v_max (cc_shield cfg) + tol \<and> (\<forall>l. authored km_velocity l \<longrightarrow> vnorm y \<le> l + tol)
            | Position \<Rightarrow> vnorm (map2 (-) y p) \<le> cfg_v_max (cc_shield cfg) * period + tol
                \<and> (\<forall>l. authored km_velocity l \<longrightarrow> vnorm (map2 (-) y p) \<le> l * period + tol)))"
proof (cases "cm_keep_outs m = []")
  case True
  obtain c1 where c1: "act_on_proposal c1 inp = (v, c')" "same_setup core c1"
    using passed_layers(4)[OF assms(4,5)] step_monitors_setup by blast
  have "core_shield c1 = None"
    using c1(2) running_core(5)[OF assms(1-3)] True by (simp add: same_setup_def)
  then show ?thesis
    using c1(1) assms(6) True by (auto simp: act_on_proposal_def certified_verdict_def Let_def)
next
  case False
  let ?s = "shield_new (cm_keep_outs m) 3 (cc_shield cfg) (cm_period m) (cm_limits m)"
  note shd = shield_of_compiled[OF assms(1), of ?s, OF refl]
  obtain p y where py: "finite_prefix 3 (in_position inp) = Some p" "vd_action v = map Some y"
    "in_envelope ?s mode p y" "vd_mode v = mode"
    using certified_motion[OF assms(1-6) False] by metis
  have period: "0 < period"
    using compile_spec_parts[OF assms(1)] by blast
  have u: "shd_u_max ?s \<le> cfg_u_max (cc_shield cfg)" "authored km_accel l \<Longrightarrow> shd_u_max ?s \<le> l" for l
    using authored_limit[of _ "ss_constraints spec" _ km_accel l] tighten_bounds(1)
    by (auto simp: shd(6) action_limits_of_def authored_def)
  have w: "shd_v_max ?s \<le> cfg_v_max (cc_shield cfg)" "authored km_velocity l \<Longrightarrow> shd_v_max ?s \<le> l" for l
    using authored_limit[of _ "ss_constraints spec" _ km_velocity l] tighten_bounds(1)
    by (auto simp: shd(7) action_limits_of_def authored_def)
  have step: "shd_step_max ?s \<le> cfg_v_max (cc_shield cfg) * period"
    "authored km_velocity l \<Longrightarrow> shd_step_max ?s \<le> l * period" for l
    unfolding shd(8) using w period by (auto intro!: mult_right_mono)
  show ?thesis
  proof (cases mode)
    case Effort
    have "\<bar>x\<bar> \<le> shd_u_max ?s + tol" if "x \<in> set y" for x
      using py(3) that shd(3) Effort by (auto simp: in_envelope_def list_all_iff Let_def tol_def)
    then have "\<bar>x\<bar> \<le> cfg_u_max (cc_shield cfg) + tol \<and> (\<forall>l. authored km_accel l \<longrightarrow> \<bar>x\<bar> \<le> l + tol)" if "x \<in> set y" for x
      using that u by (meson add_right_mono order.trans)
    then show ?thesis
      using py False Effort by auto
  next
    case Velocity
    have "vnorm y \<le> shd_v_max ?s + tol"
      using py(3) shd(3) Velocity by (auto simp: in_envelope_def Let_def tol_def)
    then have "vnorm y \<le> cfg_v_max (cc_shield cfg) + tol \<and> (\<forall>l. authored km_velocity l \<longrightarrow> vnorm y \<le> l + tol)"
      using w by (meson add_right_mono order.trans)
    then show ?thesis
      using py False Velocity by auto
  next
    case Position
    have "vnorm (map2 (-) y p) \<le> shd_step_max ?s + tol"
      using py(3) shd(3) Position by (auto simp: in_envelope_def step_length Let_def tol_def)
    then have "vnorm (map2 (-) y p) \<le> cfg_v_max (cc_shield cfg) * period + tol
        \<and> (\<forall>l. authored km_velocity l \<longrightarrow> vnorm (map2 (-) y p) \<le> l * period + tol)"
      using step by (meson add_right_mono order.trans)
    then show ?thesis
      using py False Position by auto
  qed
qed

text \<open>
  C9: Configuration cannot create a permission. A mode or task directive that the core lets through
  is one that the reviewed contract enumerates and that the configuration repeats; a contract that is
  silent about directives admits none.
\<close>

theorem directive_needs_reviewed_grant:
  assumes "compile_spec H period spec = Inr m" "core_from_model cfg m = Inr c0" "core_reaches c0 core"
    and "core_decide core inp wd = (v, c')" "vd_intervention v \<noteq> Fallback"
    and "proposed_channel (in_proposed inp) = None"
  shows "\<exists>d. ss_directives spec = Some d
    \<and> (case in_proposed inp of
         ModeCmd n \<Rightarrow> n \<in> set (ad_modes d) \<and> n \<in> set (ap_modes (cc_policy cfg))
       | TaskCmd n \<Rightarrow> n \<in> task_value ` set (ad_tasks d) \<and> n \<in> set (ap_tasks (cc_policy cfg))
       | _ \<Rightarrow> False)"
proof -
  obtain c1 where c1: "act_on_proposal c1 inp = (v, c')" "same_setup core c1"
    using passed_layers(4)[OF assms(4,5)] step_monitors_setup by blast
  have "admits (narrowed_to (cc_policy cfg) (cm_directives m)) (in_proposed inp)"
    using certified_directive[OF c1(1) assms(5,6)] c1(2) running_core(2)[OF assms(1-3)]
    by (simp add: same_setup_def)
  moreover have "cm_directives m = admissible_directives_of spec"
    using compile_spec_parts[OF assms(1)] by blast
  ultimately show ?thesis
    by (auto simp: admits_def narrowed_to_def narrow_member admissible_directives_of_def split: proposed.splits)
qed

section \<open>Fallback commands\<close>

lemma emitted_backup:
  assumes "emit_backup c1 inp kind reason fired margin = (v, c')" "same_setup core c1"
  shows "vd_layer v = BackupLayer \<and> vd_mode v = fallback_channel core inp
    \<and> (\<exists>hold. vd_action v = map Some (backup_control (core_backup core) kind (fallback_channel core inp)
        (in_position inp) (in_velocity inp) hold))"
proof -
  have "fallback_channel c1 inp = fallback_channel core inp" "core_backup c1 = core_backup core"
    using assms(2) by (simp_all only: same_setup_def fallback_channel_def)
  then show ?thesis
    using backup_verdict[OF assms(1)] by metis
qed

lemma fallback_command:
  assumes "core_decide core inp wd = (v, c')" "vd_intervention v = Fallback"
  shows "vd_layer v = BackupLayer \<and> vd_mode v = fallback_channel core inp
    \<and> (\<exists>kind hold. vd_action v = map Some (backup_control (core_backup core) kind (fallback_channel core inp)
        (in_position inp) (in_velocity inp) hold))"
proof (cases "wd \<or> \<not> good_input core inp")
  case True
  then show ?thesis
    using assms(1) watchdog_verdict[of core inp v c']
      emitted_backup[of core inp BrakeToStop BadInput "[]" PInf v c', OF _ same_setup_refl]
    by (auto simp: core_decide_def split: if_splits)
next
  case False
  obtain vs c1 where steps: "step_monitors core inp = (vs, c1)"
    by (cases "step_monitors core inp")
  note eb = emitted_backup[OF _ step_monitors_setup[OF steps], of inp _ _ _ _ v c']
  have "vd_layer v = BackupLayer \<and> vd_mode v = fallback_channel core inp
    \<and> (\<exists>kind hold. vd_action v = map Some (backup_control (core_backup core) kind (fallback_channel core inp)
        (in_position inp) (in_velocity inp) hold))" if "act_on_proposal c1 inp = (v, c')"
    using that assms(2) eb
    by (auto simp: act_on_proposal_def Let_def split: option.splits if_splits) blast+
  then show ?thesis
    using False assms(1) eb by (auto simp: core_decide_def steps split: option.splits) blast+
qed

lemma vnorm_mult: "0 \<le> c \<Longrightarrow> vnorm (map (\<lambda>x. x * c) a) = vnorm a * c"
proof -
  have "sum_list (map (\<lambda>x. x * c * (x * c)) a) = sum_list (map (\<lambda>x. x * x) a) * (c * c)"
    by (induction a) (simp_all add: algebra_simps)
  then show "0 \<le> c \<Longrightarrow> ?thesis"
    by (simp add: vnorm_def comp_def real_sqrt_mult)
qed

lemma vnorm_zero [simp]: "vnorm (replicate n 0) = 0"
  by (induction n) (simp_all add: vnorm_Cons)

lemma brake_bounds:
  assumes "0 \<le> u" "0 \<le> k"
  shows "\<bar>brake_axis v k u\<bar> \<le> u" "v * brake_axis v k u \<le> 0"
proof -
  show "\<bar>brake_axis v k u\<bar> \<le> u"
    using assms by (auto simp: brake_axis_def clamp_def)
  show "v * brake_axis v k u \<le> 0"
  proof (cases "0 \<le> v")
    case True
    then have "0 \<le> k * v"
      using assms by simp
    then have "brake_axis v k u \<le> 0"
      using assms by (auto simp: brake_axis_def clamp_def)
    then show ?thesis
      using True by (simp add: mult_nonneg_nonpos)
  next
    case False
    then have "k * v \<le> 0"
      using assms by (simp add: mult_nonneg_nonpos)
    then have "0 \<le> brake_axis v k u"
      using assms by (auto simp: brake_axis_def clamp_def)
    then show ?thesis
      using False by (simp add: mult_nonpos_nonneg)
  qed
qed

text \<open>The recover laws stay in the ceilings of the backup.\<close>

definition stays_clear :: "backup \<Rightarrow> (nat \<Rightarrow> real) \<Rightarrow> bool" where
  "stays_clear b q = (\<forall>bar \<in> set (bk_barriers b). - set_tol \<le> static_h (bk_spatial_dim b) bar q)"

lemma backup_effort:
  assumes "0 \<le> bk_u_max b" "0 \<le> bk_k_brake b" "bk_ctrl_dim b = max (bk_spatial_dim b) 1"
    and y_def: "y = backup_control b kind Effort p v hold"
  shows "list_all (\<lambda>u. \<bar>u\<bar> \<le> bk_u_max b) y \<and> length y = bk_ctrl_dim b
    \<and> (y = brake b v
       \<or> (\<exists>p' v'. finite_prefix (bk_spatial_dim b) p = Some p' \<and> finite_prefix (bk_spatial_dim b) v = Some v'
           \<and> stays_clear b (\<lambda>i. p' ! i + v' ! i * bk_dt b + bk_dt b * bk_dt b / 2 * y ! i)))"
proof -
  have br: "list_all (\<lambda>u. \<bar>u\<bar> \<le> bk_u_max b) (brake b v) \<and> length (brake b v) = bk_ctrl_dim b"
    using brake_bounds(1)[OF assms(1,2)] by (simp add: brake_def list_all_iff)
  have "list_all (\<lambda>u. \<bar>u\<bar> \<le> bk_u_max b) (guarded_move b g p v) \<and> length (guarded_move b g p v) = bk_ctrl_dim b" for g
    using br assms(1,3)
    by (auto simp: guarded_move_def Let_def list_all_iff clamp_def split: option.splits)
  moreover have "guarded_move b g p v = brake b v
    \<or> (\<exists>p' v'. finite_prefix (bk_spatial_dim b) p = Some p' \<and> finite_prefix (bk_spatial_dim b) v = Some v'
        \<and> stays_clear b (\<lambda>i. p' ! i + v' ! i * bk_dt b + bk_dt b * bk_dt b / 2 * guarded_move b g p v ! i))" for g
  proof (cases "guarded_move b g p v = brake b v")
    case False
    then obtain p' v' where pv: "finite_prefix (bk_spatial_dim b) p = Some p'" "finite_prefix (bk_spatial_dim b) v = Some v'"
      by (auto simp: guarded_move_def Let_def split: option.splits)
    define cmd where "cmd = map (\<lambda>i. clamp (bk_k_p b * (g ! i - p' ! i) - bk_k_d b * v' ! i) (- bk_u_max b) (bk_u_max b))
      [0..<bk_spatial_dim b]"
    have "guarded_move b g p v = cmd"
      "in_safe_set b (\<lambda>i. p' ! i + v' ! i * bk_dt b + bk_dt b * bk_dt b / 2 * cmd ! i)"
      using False pv by (auto simp: guarded_move_def Let_def cmd_def split: if_splits)
    then show ?thesis
      using pv by (auto simp: in_safe_set_def stays_clear_def list_all_iff)
  qed simp
  ultimately show ?thesis
    using br by (auto simp: y_def backup_control_def Let_def split: backup_kind.splits option.splits)
qed

lemma backup_velocity:
  assumes "0 \<le> bk_v_max b" "bk_ctrl_dim b = max (bk_spatial_dim b) 1"
    and y_def: "y = backup_control b kind Velocity p v hold"
  shows "vnorm y \<le> bk_v_max b \<and> length y = bk_ctrl_dim b
    \<and> (y = replicate (bk_ctrl_dim b) 0
       \<or> (\<exists>p'. finite_prefix (bk_spatial_dim b) p = Some p' \<and> stays_clear b (\<lambda>i. p' ! i + y ! i * bk_dt b)))"
proof -
  have st: "vnorm (stop_velocity b) \<le> bk_v_max b" "length (stop_velocity b) = bk_ctrl_dim b"
    "stop_velocity b = replicate (bk_ctrl_dim b) 0"
    using assms(1) by (simp_all add: stop_velocity_def)
  have "vnorm (guarded_velocity b g p) \<le> bk_v_max b \<and> length (guarded_velocity b g p) = bk_ctrl_dim b
    \<and> (guarded_velocity b g p = replicate (bk_ctrl_dim b) 0
       \<or> (\<exists>p'. finite_prefix (bk_spatial_dim b) p = Some p'
             \<and> stays_clear b (\<lambda>i. p' ! i + guarded_velocity b g p ! i * bk_dt b)))" for g
  proof (cases "guarded_velocity b g p = stop_velocity b")
    case False
    then obtain p' where p': "finite_prefix (bk_spatial_dim b) p = Some p'"
      by (auto simp: guarded_velocity_def Let_def split: option.splits)
    define pull where "pull = map (\<lambda>i. bk_k_p b * (g ! i - p' ! i)) [0..<bk_spatial_dim b]"
    define scale where "scale = ball_scale (vnorm pull) (bk_v_max b)"
    have cmd: "guarded_velocity b g p = map (\<lambda>a. a * scale) pull" "bk_spatial_dim b \<noteq> 0"
      "in_safe_set b (\<lambda>i. p' ! i + map (\<lambda>a. a * scale) pull ! i * bk_dt b)"
      using False p' by (auto simp: guarded_velocity_def Let_def pull_def scale_def split: if_splits)
    have "vnorm (map (\<lambda>a. a * scale) pull) \<le> bk_v_max b"
      using ball_scale_bounds[OF assms(1) vnorm_nonneg, of pull] by (simp add: vnorm_mult scale_def)
    then show ?thesis
      using cmd p' assms(2) by (auto simp: in_safe_set_def stays_clear_def list_all_iff pull_def)
  qed (use st in simp)
  then show ?thesis
    using st by (auto simp: y_def backup_control_def Let_def split: backup_kind.splits option.splits)
qed

lemma map_nth_prefix: "length p = n \<Longrightarrow> map (\<lambda>i. f (p ! i)) [0..<n] = map f p"
  by (rule nth_equalityI) simp_all

lemma backup_position:
  assumes "0 \<le> bk_step_max b" "bk_ctrl_dim b = max (bk_spatial_dim b) 1" "bk_spatial_dim b \<noteq> 0"
    and "finite_prefix (bk_spatial_dim b) p = Some p'" and y_def: "y = backup_control b kind Position p v hold"
  shows "vnorm (map2 (-) y p') \<le> bk_step_max b \<and> length y = bk_ctrl_dim b
    \<and> (y = p' \<or> stays_clear b (\<lambda>i. y ! i))"
proof -
  let ?n = "bk_spatial_dim b"
  have len: "length p' = ?n"
    using finite_prefix_length[OF assms(4)] .
  have hp: "hold_position b p = p'"
  proof (rule nth_equalityI)
    show "length (hold_position b p) = length p'"
      using assms(2,3) len by (simp add: hold_position_def)
    fix i assume "i < length (hold_position b p)"
    then have "i < ?n" "i < length p" "p ! i \<noteq> None" "p' ! i = the (p ! i)"
      using assms(2-4) len
      by (auto simp: hold_position_def finite_prefix_def list_all_length split: if_splits)
    then show "hold_position b p ! i = p' ! i"
      using assms(2) by (auto simp: hold_position_def finite_at_def)
  qed
  have zero: "vnorm (map2 (-) p' p') \<le> bk_step_max b"
    using assms(1) vnorm_zero[of "length p'"] by (simp add: map2_diff_self map_replicate_const)
  have "vnorm (map2 (-) (guarded_position b g p) p') \<le> bk_step_max b
    \<and> length (guarded_position b g p) = bk_ctrl_dim b
    \<and> (guarded_position b g p = p' \<or> stays_clear b (\<lambda>i. guarded_position b g p ! i))" for g
  proof (cases "guarded_position b g p = p'")
    case True
    then show ?thesis
      using zero len assms(2,3) by simp
  next
    case False
    define step where "step = map (\<lambda>i. g ! i - p' ! i) [0..<?n]"
    define scale where "scale = ball_scale (vnorm step) (bk_step_max b)"
    define cmd where "cmd = map (\<lambda>i. p' ! i + step ! i * scale) [0..<?n]"
    have cmd: "guarded_position b g p = cmd" "in_safe_set b (\<lambda>i. cmd ! i)"
      using False assms(4) hp
      by (auto simp: guarded_position_def Let_def step_def scale_def cmd_def split: if_splits)
    have "map2 (-) cmd p' = map (\<lambda>x. x * scale) step"
      using len by (intro nth_equalityI) (simp_all add: cmd_def step_def)
    then have "vnorm (map2 (-) cmd p') \<le> bk_step_max b"
      using ball_scale_bounds[OF assms(1) vnorm_nonneg, of step] by (simp add: vnorm_mult scale_def)
    then show ?thesis
      using cmd assms(2,3) by (auto simp: in_safe_set_def stays_clear_def list_all_iff cmd_def)
  qed
  then show ?thesis
    using zero hp len assms(2,3)
    by (auto simp: y_def backup_control_def Let_def split: backup_kind.splits option.splits)
qed

text \<open>
  C11: The recover layer stays in the reviewed envelope. When the contract has a keep-out, the
  configured ceilings and the brake gain are not negative, and the measured position is finite, every
  fallback command has one finite component per axis and respects the ceilings that hold after
  tightening: an acceleration in every axis, a velocity in its norm, and a position in its step. It
  also keeps clear of every keep-out, unless it brakes, stops or stays: the position that an
  acceleration other than the brake reaches after one period from the measured state, that a velocity
  other than zero reaches, and any commanded position other than the current one lie in the safe set.
\<close>

theorem fallback_is_bounded:
  assumes "compile_spec H period spec = Inr m" "core_from_model cfg m = Inr c0" "core_reaches c0 core"
    and "core_decide core inp wd = (v, c')" "vd_intervention v = Fallback" "cm_keep_outs m \<noteq> []"
    and "0 \<le> cfg_u_max (cc_shield cfg)" "0 \<le> cfg_v_max (cc_shield cfg)" "0 \<le> cc_k_brake cfg"
    and "finite_prefix 3 (in_position inp) = Some p"
  shows "\<exists>y. vd_action v = map Some y \<and> length y = 3
    \<and> (let clear = (\<lambda>q. \<forall>t \<in> set (cm_keep_outs m). - set_tol \<le> static_h 3 (barrier_of_term 3 t) q);
           u_max = tighten (cfg_u_max (cc_shield cfg)) (lim_accel (cm_limits m));
           ceiling = tighten (cfg_v_max (cc_shield cfg)) (lim_velocity (cm_limits m))
       in case vd_mode v of
            Effort \<Rightarrow> list_all (\<lambda>u. \<bar>u\<bar> \<le> u_max) y
              \<and> (y = map (\<lambda>i. brake_axis (finite_at (in_velocity inp) i) (cc_k_brake cfg) u_max) [0..<3]
                 \<or> (\<exists>w. finite_prefix 3 (in_velocity inp) = Some w
                     \<and> clear (\<lambda>i. p ! i + w ! i * period + period * period / 2 * y ! i)))
          | Velocity \<Rightarrow> vnorm y \<le> ceiling \<and> (y = [0, 0, 0] \<or> clear (\<lambda>i. p ! i + y ! i * period))
          | Position \<Rightarrow> vnorm (map2 (-) y p) \<le> ceiling * period \<and> (y = p \<or> clear (\<lambda>i. y ! i)))"
proof -
  note run = running_core[OF assms(1-3)]
  let ?b = "core_backup core"
  have period: "0 < period" "cm_period m = period"
    using compile_spec_parts[OF assms(1)] by blast+
  have b: "bk_spatial_dim ?b = 3" "bk_ctrl_dim ?b = 3" "bk_dt ?b = period" "bk_k_brake ?b = cc_k_brake cfg"
    "bk_u_max ?b = tighten (cfg_u_max (cc_shield cfg)) (lim_accel (cm_limits m))"
    "bk_v_max ?b = tighten (cfg_v_max (cc_shield cfg)) (lim_velocity (cm_limits m))"
    "bk_step_max ?b = tighten (cfg_v_max (cc_shield cfg)) (lim_velocity (cm_limits m)) * period"
    "bk_barriers ?b = map (barrier_of_term 3) (cm_keep_outs m)"
    using run(4,6) assms(6) period by (simp_all add: backup_new_def Let_def)
  have nn: "0 \<le> bk_u_max ?b" "0 \<le> bk_v_max ?b" "0 \<le> bk_step_max ?b" "0 \<le> bk_k_brake ?b"
    using assms(7-9) tighten_bounds(3) period(1) by (simp_all add: b)
  have cd: "bk_ctrl_dim ?b = max (bk_spatial_dim ?b) 1"
    by (simp add: b)
  have clear: "stays_clear ?b q \<longleftrightarrow> (\<forall>t \<in> set (cm_keep_outs m). - set_tol \<le> static_h 3 (barrier_of_term 3 t) q)" for q
    by (simp add: stays_clear_def b)
  obtain kind hold where cmd: "vd_mode v = fallback_channel core inp"
    "vd_action v = map Some (backup_control ?b kind (vd_mode v) (in_position inp) (in_velocity inp) hold)"
    using fallback_command[OF assms(4,5)] by auto
  show ?thesis
  proof (cases "vd_mode v")
    case Effort
    then show ?thesis
      using backup_effort[OF nn(1,4) cd refl, of kind "in_position inp" "in_velocity inp" hold] cmd(2) assms(10)
      by (simp add: b clear brake_def Let_def)
  next
    case Velocity
    then show ?thesis
      using backup_velocity[OF nn(2) cd refl, of kind "in_position inp" "in_velocity inp" hold] cmd(2) assms(10)
      by (auto simp: b clear Let_def eval_nat_numeral)
  next
    case Position
    have "finite_prefix (bk_spatial_dim ?b) (in_position inp) = Some p" "bk_spatial_dim ?b \<noteq> 0"
      using assms(10) by (simp_all add: b)
    from backup_position[OF nn(3) cd this(2,1) refl, of kind "in_velocity inp" hold] show ?thesis
      using Position cmd(2) by (simp add: b clear Let_def)
  qed
qed

section \<open>Violated clauses\<close>

text \<open>The signals of an input, when all of them are finite and in the order of the table.\<close>

definition carries :: "safety_input \<Rightarrow> compiled_model \<Rightarrow> (string \<Rightarrow> real) \<Rightarrow> bool" where
  "carries inp m sig = (in_signals inp = map (\<lambda>k. Some (sig k)) (cm_signals m))"

lemma carries_values: "carries inp m sig \<Longrightarrow> signal_values inp = map sig (cm_signals m)"
  by (simp add: carries_def signal_values_def comp_def)

text \<open>
  C8: A violated floor or ceiling always ends in the recover layer. Whatever the policy proposes, a
  tick whose measured signals break one of the reviewed power, energy, thermal or torque clauses, or
  whose kinematic signal is above its limit, emits a verified backup command, and never the proposal.
  A kinematic limit bounds the magnitude of its signal, but only a signal that is not negative is
  held to it (hypothesis \<open>kinematic_forward\<close>, which says nothing of the other clauses); what happens
  to the others is \<open>reverse_speed_is_not_detected\<close> below.
\<close>

theorem violated_bound_falls_back:
  assumes "compile_spec H period spec = Inr m" "core_from_model cfg m = Inr c0" "core_reaches c0 core"
    and "carries inp m sig" "c \<in> set (ss_constraints spec)" "\<not> scalar_holds sig c" "kinematic_forward sig c"
    and "core_decide core inp wd = (v, c')"
  shows "vd_intervention v = Fallback \<and> vd_layer v = BackupLayer"
proof -
  have "\<not> scalar_enforced sig c"
    using assms(6,7) scalar_enforced_reviewed(2) by blast
  then obtain b where b: "b \<in> set (cm_scalar_bounds m)"
    "atom_margin (cm_atoms m ! sb_atom b) (map sig (cm_signals m)) < 0"
    using compiled_scalars[OF assms(1), of sig] assms(5) by (meson not_less)
  have "scalar_hit core inp \<noteq> None"
    using b running_core(1)[OF assms(1-3)] carries_values[OF assms(4)]
    by (auto simp: scalar_hit_def find_None_iff predicate_values_def)
  then have "vd_intervention v = Fallback"
    using passed_layers(3)[OF assms(8)] by (meson option.distinct(1))
  then show ?thesis
    using fallback_command[OF assms(8)] by simp
qed

section \<open>Runs\<close>

text \<open>
  A run of the core on one input per tick; \<open>ov\<close> says which ticks overran the deadline of the watchdog.
  The ticks whose input is malformed do not reach the monitors.
\<close>

primrec core_at :: "safety_core \<Rightarrow> (nat \<Rightarrow> safety_input) \<Rightarrow> (nat \<Rightarrow> bool) \<Rightarrow> nat \<Rightarrow> safety_core" where
  "core_at core inp ov 0 = core"
| "core_at core inp ov (Suc t) = snd (core_step_guarded (core_at core inp ov t) (inp t) (ov t))"

definition good_ticks :: "safety_core \<Rightarrow> (nat \<Rightarrow> safety_input) \<Rightarrow> nat \<Rightarrow> nat list" where
  "good_ticks core inp t = filter (\<lambda>u. good_input core (inp u)) [0..<t]"

lemma good_ticks_Suc:
  "good_ticks core inp (Suc t) = good_ticks core inp t @ (if good_input core (inp t) then [t] else [])"
  by (simp add: good_ticks_def)

lemma core_at_reaches: "core_reaches core (core_at core inp ov t)"
proof (induction t)
  case (Suc t)
  then show ?case
    using core_reaches.guarded[of core "core_at core inp ov t" "inp t" "ov t"]
    by (metis core_at.simps(2) prod.collapse)
qed (simp add: core_reaches.start)

text \<open>A tick advances every monitor exactly when its input is good.\<close>

lemma decide_monitors:
  "core_monitors (snd (core_decide core inp False))
    = (if good_input core inp
       then map (\<lambda>a. snd (monitor_step (predicate_values core inp) (cc_horizon (core_cfg core)) a)) (core_monitors core)
       else core_monitors core)"
proof -
  have e: "core_monitors (snd (emit_backup c i k r f g)) = core_monitors c" for c i k r f g
    by (simp add: emit_backup_def anchored_def Let_def)
  have "core_monitors (snd (act_on_proposal c i)) = core_monitors c" for c i
    by (simp add: act_on_proposal_def e Let_def split: option.splits)
  then show ?thesis
    by (simp add: core_decide_def step_monitors_def e Let_def comp_def split: option.splits)
qed

lemma guarded_monitors:
  "core_monitors (snd (core_step_guarded core inp ov)) = core_monitors (snd (core_decide core inp False))"
  by (simp add: core_step_guarded_def emit_watchdog_def Let_def case_prod_unfold)

lemma good_input_reached: "core_reaches c0 core \<Longrightarrow> good_input core inp = good_input c0 inp"
  using core_reaches_setup[of c0 core] by (simp add: good_input_def same_setup_def)

lemma values_of_tick:
  assumes "core_model core = m" "carries inp m (sig t)" "seen n = sig t"
  shows "predicate_values core inp = model_pred m seen n"
  by (rule ext) (simp add: predicate_values_def model_pred_def assms(1,3) carries_values[OF assms(2)])

lemma monitors_of_run:
  assumes "compile_spec H period spec = Inr m" "core_from_model cfg m = Inr c0"
    and "\<And>u. u < t \<Longrightarrow> good_input c0 (inp u) \<Longrightarrow> carries (inp u) m (sig u)"
    and "\<And>k. k < length (good_ticks c0 inp t) \<Longrightarrow> seen k = sig (good_ticks c0 inp t ! k)"
  shows "core_monitors (core_at c0 inp ov t)
    = map (\<lambda>a. monitor_after (model_pred m seen) (cc_horizon cfg) (monitor_new a) (length (good_ticks c0 inp t)))
        (cm_monitors m)"
  using assms(3,4)
proof (induction t)
  case 0
  then show ?case
    using core_from_model_fields(3)[OF assms(2)] by (simp add: good_ticks_def)
next
  case (Suc t)
  note run = running_core[OF assms(1,2) core_at_reaches[of c0 inp ov t]]
  have same: "good_input (core_at c0 inp ov t) (inp t) = good_input c0 (inp t)"
    using good_input_reached[OF core_at_reaches] .
  have "seen k = sig (good_ticks c0 inp t ! k)" if "k < length (good_ticks c0 inp t)" for k
    using Suc.prems(2)[of k] that by (simp add: good_ticks_Suc nth_append)
  then have IH: "core_monitors (core_at c0 inp ov t)
      = map (\<lambda>a. monitor_after (model_pred m seen) (cc_horizon cfg) (monitor_new a) (length (good_ticks c0 inp t)))
        (cm_monitors m)"
    using Suc.IH Suc.prems(1) by simp
  show ?case
  proof (cases "good_input c0 (inp t)")
    case True
    have "seen (length (good_ticks c0 inp t)) = sig t"
      using Suc.prems(2)[of "length (good_ticks c0 inp t)"] True by (simp add: good_ticks_Suc)
    then have "predicate_values (core_at c0 inp ov t) (inp t) = model_pred m seen (length (good_ticks c0 inp t))"
      using Suc.prems(1)[of t] True values_of_tick[OF run(1)] by simp
    then show ?thesis
      using True IH by (simp add: guarded_monitors decide_monitors same run(3) good_ticks_Suc comp_def)
  next
    case False
    then show ?thesis
      using IH by (simp add: guarded_monitors decide_monitors same good_ticks_Suc)
  qed
qed

lemma step_guarded_fallback:
  assumes "vd_intervention (fst (core_decide core inp False)) = Fallback"
  shows "vd_intervention (fst (core_step_guarded core inp ov)) = Fallback"
  using assms by (auto simp: core_step_guarded_def emit_watchdog_def Let_def split: prod.splits)

text \<open>
  C7: A violated temporal clause always ends in the recover layer. Run a fresh core over any inputs
  and deadline overruns, and let the history be the signals it sampled at its good ticks, those whose
  input is well-formed and finite in every signal, in the state and in the setpoint. At every tick at
  which the robustness of a reviewed temporal formula over that history is negative, the core emits a
  verified backup command, although its monitors keep only a bounded window of the past; a tick whose
  input is not good emits one too. When every tick is good, the history is the whole sampled history.
\<close>

theorem violated_formula_falls_back:
  assumes "compile_spec H period spec = Inr m" "core_from_model cfg m = Inr c0"
    and "c \<in> set (ss_constraints spec)" "sc_kind c = TEMPORAL" "sc_temporal c = Some f"
    and "\<And>u. u \<le> t \<Longrightarrow> good_input c0 (inp u) \<Longrightarrow> carries (inp u) m (sig u)"
  defines "ticks \<equiv> good_ticks c0 inp (Suc t)"
  assumes "good_input c0 (inp t) \<Longrightarrow> formula_semantics period (\<lambda>k. sig (ticks ! k)) f (length ticks - 1) < Fin 0"
  shows "vd_intervention (fst (core_step_guarded (core_at c0 inp ov t) (inp t) (ov t))) = Fallback"
proof (rule step_guarded_fallback, rule ccontr)
  let ?core = "core_at c0 inp ov t" and ?n = "length (good_ticks c0 inp t)"
  define seen where "seen k = sig (ticks ! k)" for k
  assume no: "vd_intervention (fst (core_decide ?core (inp t) False)) \<noteq> Fallback"
  then have "good_input ?core (inp t)"
    using passed_layers(2)[of ?core "inp t" False] by (metis prod.collapse)
  then have good: "good_input c0 (inp t)"
    using good_input_reached[OF core_at_reaches] by blast
  obtain vs c1 where steps: "step_monitors ?core (inp t) = (vs, c1)" "monitor_hit vs (core_monitors c1) = None"
    using passed_layers(4)[of ?core "inp t" False] no by (metis prod.collapse)
  note run = running_core[OF assms(1,2) core_at_reaches[of c0 inp ov t]]
  obtain a where a: "a \<in> set (cm_monitors m)" "node_valid (ma_root a)"
    "\<And>n. node_semantics (model_pred m seen) (ma_root a) n = formula_semantics period seen f n"
    using compiled_monitor[OF assms(1,3,4)] assms(5) by auto
  have now: "seen ?n = sig t"
    using good by (simp add: seen_def ticks_def good_ticks_Suc)
  have pred: "predicate_values ?core (inp t) = model_pred m seen ?n"
    using assms(6)[of t] good now values_of_tick[OF run(1)] by simp
  have mons: "core_monitors ?core
      = map (\<lambda>a. monitor_after (model_pred m seen) (cc_horizon cfg) (monitor_new a) ?n) (cm_monitors m)"
    using assms(6) by (intro monitors_of_run[OF assms(1,2)]) (simp_all add: seen_def ticks_def good_ticks_Suc nth_append)
  let ?v = "fst (monitor_step (model_pred m seen ?n) (cc_horizon cfg)
      (monitor_after (model_pred m seen) (cc_horizon cfg) (monitor_new a) ?n))"
  have "?v \<in> set vs"
    using steps(1) a(1) by (auto simp: step_monitors_def mons pred run(3) Let_def)
  moreover have "length vs = length (core_monitors c1)"
    using steps(1) by (auto simp: step_monitors_def Let_def)
  ultimately obtain mon where "(?v, mon) \<in> set (zip vs (core_monitors c1))"
    by (metis in_set_impl_in_set_zip1)
  moreover have "formula_semantics period seen f ?n < Fin 0"
    using assms(8)[OF good] good by (simp add: seen_def[abs_def] ticks_def good_ticks_Suc)
  then have "mv_robustness ?v < Fin 0"
    using monitor_robustness[OF a(2)] a(3) by simp
  then have "monitor_fired ?v"
    by (simp add: monitor_fired_def monitor_step_def Let_def)
  ultimately show False
    using steps(2) by (auto simp: monitor_hit_def find_None_iff)
qed

section \<open>Safe commands are not touched\<close>

text \<open>The detect layer finds nothing in an input.\<close>

definition undetected :: "safety_core \<Rightarrow> safety_input \<Rightarrow> bool" where
  "undetected core inp =
    (good_input core inp \<and> scalar_hit core inp = None
     \<and> list_all (\<lambda>w. \<not> monitor_fired w) (fst (step_monitors core inp)))"

lemma undetected_decide:
  assumes "undetected core inp" "step_monitors core inp = (vs, c1)"
  shows "core_decide core inp False = act_on_proposal c1 inp"
proof -
  have "find (\<lambda>(w, mon). monitor_fired w) (zip vs (core_monitors c1)) = None"
    using assms by (auto simp: undetected_def find_None_iff list_all_iff dest: set_zip_leftD)
  then show ?thesis
    using assms by (simp add: core_decide_def undetected_def monitor_hit_def)
qed

lemma safe_command_kept:
  assumes "compile_spec H period spec = Inr m" "core_from_model cfg m = Inr c0" "core_reaches c0 core"
    and "cm_keep_outs m \<noteq> []" "0 < cfg_tol (cc_shield cfg)" "0 \<le> cc_unchanged_tol (core_cfg core)"
    and "undetected core inp" "in_position inp = map Some p" "in_velocity inp = map Some w"
    and "length p = 3" "length w = 3" "length x = 3"
    and "proposed_channel (in_proposed inp) = Some mode" "proposed_setpoint (in_proposed inp) = map Some x"
    and "admissible_command (shield_new (cm_keep_outs m) 3 (cc_shield cfg) (cm_period m) (cm_limits m)) mode p w x"
  shows "\<exists>margin c'. core_decide core inp False = (certified_verdict (map Some x) mode False margin, c')"
proof -
  let ?s = "shield_new (cm_keep_outs m) 3 (cc_shield cfg) (cm_period m) (cm_limits m)"
  note run = running_core[OF assms(1-3)] and shd = shield_of_compiled[OF assms(1), of ?s, OF refl]
  have period: "0 < period"
    using compile_spec_parts[OF assms(1)] by blast
  obtain vs c1 where steps: "step_monitors core inp = (vs, c1)"
    by (cases "step_monitors core inp")
  have c1: "core_shield c1 = Some ?s" "core_cfg c1 = core_cfg core" "core_dim c1 = 3"
    using step_monitors_setup[OF steps] run(4,5) assms(4) by (simp_all add: same_setup_def)
  have "wellformed_shield ?s"
    using shd assms(5) period by (simp add: wellformed_shield_def list_all_iff)
  from admissible_unchanged[OF this assms(15)] obtain margin where
    "solve_mode ?s mode (map Some p) (map Some w) (map Some x)
      = \<lparr>res_action = map Some x, res_certified = True, res_margin = margin\<rparr>"
    using assms(10-12) shd(1) by auto
  moreover have "\<not> perturbed (cc_unchanged_tol (core_cfg core)) 3 (map Some x) (map Some x)"
    using assms(6) by (auto simp: perturbed_def list_ex_iff set_zip)
  ultimately have "act_on_proposal c1 inp
      = (certified_verdict (map Some x) mode False margin, c1\<lparr>core_holding := False\<rparr>)"
    using assms(8,9,13,14) c1 by (simp add: act_on_proposal_def)
  then show ?thesis
    using undetected_decide[OF assms(7) steps] by auto
qed

text \<open>
  C12: The core is transparent for commands that are safe as they are. When the detect layer finds
  nothing, a command that lies in the tightened kinematic set and satisfies every barrier row is
  emitted exactly as proposed, with no intervention.
\<close>

theorem safe_command_is_kept:
  assumes "compile_spec H period spec = Inr m" "core_from_model cfg m = Inr c0" "core_reaches c0 core"
    and "cm_keep_outs m \<noteq> []" "0 < cfg_tol (cc_shield cfg)" "0 \<le> cc_unchanged_tol (core_cfg core)"
    and "undetected core inp" "in_position inp = map Some p" "in_velocity inp = map Some w"
    and "length p = 3" "length w = 3" "length x = 3"
    and "proposed_channel (in_proposed inp) = Some mode" "proposed_setpoint (in_proposed inp) = map Some x"
    and "admissible_command (shield_new (cm_keep_outs m) 3 (cc_shield cfg) (cm_period m) (cm_limits m)) mode p w x"
  shows "\<exists>margin c'. core_decide core inp False = (certified_verdict (map Some x) mode False margin, c')"
  using assms by (rule safe_command_kept)

section \<open>Bad inputs\<close>

text \<open>
  Bad input fails closed, and leaves a gap in the history. A tick with a missing or non-finite
  signal, state or setpoint emits the brake of the recover layer as bad input, whatever is proposed;
  it does not advance the monitors, so their windows continue at the next good tick as if this tick
  had not been.
\<close>

theorem bad_input_brakes_and_skips_monitors:
  assumes "\<not> good_input core inp" "core_decide core inp False = (v, c')"
  shows "vd_intervention v = Fallback \<and> vd_reason v = BadInput \<and> vd_backup v = Some BrakeToStop
    \<and> core_monitors c' = core_monitors core"
  using assms by (auto simp: core_decide_def emit_backup_def anchored_def Let_def)

text \<open>
  The floor of the position channel is not a stop without a measured position: a coordinate that is
  missing or not finite is commanded to zero, whatever lies there.
\<close>

theorem blind_hold_commands_the_origin:
  assumes "\<not> good_input core inp" "core_decide core inp False = (v, c')" "fallback_channel core inp = Position"
    and "i < bk_ctrl_dim (core_backup core)" "length (in_position inp) \<le> i \<or> in_position inp ! i = None"
  shows "vd_mode v = Position \<and> vd_action v ! i = Some 0"
proof -
  have "vd_mode v = Position" "vd_action v = map Some (hold_position (core_backup core) (in_position inp))"
    using assms(1-3) by (auto simp: core_decide_def emit_backup_def backup_control_def Let_def)
  then show ?thesis
    using assms(4,5) by (auto simp: hold_position_def finite_at_def)
qed

theorem blind_hold_commands_the_origin_witness:
  "vd_action (fst (core_decide
    \<lparr>core_model = \<lparr>cm_spec_id = ''s'', cm_spec_hash = ''h'', cm_period = 1, cm_signals = [], cm_atoms = [],
       cm_scalar_bounds = [], cm_keep_outs = [], cm_monitors = [],
       cm_resources = \<lparr>rb_predicates = 0, rb_scalars = 0, rb_keep_outs = 0, rb_monitors = 0, rb_history = 0, rb_terms = 0\<rparr>,
       cm_limits = \<lparr>lim_velocity = None, lim_accel = None\<rparr>, cm_safe_pose = None, cm_directives = None\<rparr>,
     core_cfg = \<lparr>cc_horizon = 0, cc_shield = \<lparr>cfg_k0 = 9, cfg_k1 = 6, cfg_u_max = 1, cfg_v_max = 1, cfg_tol = 0, cfg_max_iter = 1\<rparr>,
       cc_k_brake = 1, cc_history_cap = 1, cc_unchanged_tol = 0,
       cc_policy = \<lparr>ap_modes = [], ap_tasks = [], ap_fallback = Position\<rparr>\<rparr>,
     core_dim = 1, core_monitors = [], core_shield = None,
     core_backup = \<lparr>bk_spatial_dim = 1, bk_ctrl_dim = 1, bk_u_max = 1, bk_v_max = 1, bk_step_max = 1, bk_k_brake = 1, bk_dt = 1,
       bk_k_p = 1, bk_k_d = 1, bk_safe_pose = None, bk_barriers = []\<rparr>,
     core_anchor = [], core_holding = False\<rparr>
    \<lparr>in_signals = [], in_position = [None], in_velocity = [Some 0], in_proposed = PositionCmd [Some 7]\<rparr> False)) ! 0 = Some 0"
  by (rule conjunct2[OF blind_hold_commands_the_origin[OF _ surjective_pairing]])
     (simp_all add: good_input_def finite_prefix_def fallback_channel_def)

section \<open>Holding\<close>

definition anchor_ok :: "safety_core \<Rightarrow> bool" where
  "anchor_ok core =
    (core_holding core \<longrightarrow> length (core_anchor core) = core_dim core \<and> all_finite (core_anchor core))"

lemma emit_backup_anchor:
  assumes "emit_backup core inp kind reason fired margin = (v, c')"
  shows "vd_backup v = Some kind \<and> (kind \<noteq> HoldPose \<longrightarrow> \<not> core_holding c')
    \<and> (kind = HoldPose \<longrightarrow> core_holding core \<longrightarrow> core_holding c' \<and> core_anchor c' = core_anchor core)
    \<and> (anchor_ok core \<longrightarrow> (kind = HoldPose \<longrightarrow> core_dim core = 0 \<or> finite_prefix (core_dim core) (in_position inp) \<noteq> None)
        \<longrightarrow> anchor_ok c')"
  using assms
  by (auto simp: emit_backup_def anchored_def anchor_ok_def all_finite_def finite_prefix_def Let_def split: if_splits)

lemma emit_watchdog_anchor:
  "emit_watchdog core inp = (v, c') \<Longrightarrow> vd_backup v = Some BrakeToStop \<and> \<not> core_holding c'"
  by (auto simp: emit_watchdog_def Let_def)

lemma act_on_proposal_anchor:
  assumes "act_on_proposal core inp = (v, c')"
  shows "vd_backup v \<noteq> Some HoldPose \<and> \<not> core_holding c'"
  using assms emit_backup_anchor[of core inp BrakeToStop]
  by (auto simp: act_on_proposal_def certified_verdict_def Let_def split: option.splits if_splits)

lemma step_monitors_anchor:
  "step_monitors core inp = (vs, c1) \<Longrightarrow> core_holding c1 = core_holding core \<and> core_anchor c1 = core_anchor core
    \<and> (anchor_ok c1 = anchor_ok core) \<and> core_dim c1 = core_dim core"
  by (auto simp: step_monitors_def anchor_ok_def Let_def)

lemma decide_anchor:
  assumes "core_decide core inp wd = (v, c')" "anchor_ok core"
  shows "anchor_ok c' \<and> (vd_backup v \<noteq> Some HoldPose \<longrightarrow> \<not> core_holding c')
    \<and> (vd_backup v = Some HoldPose \<longrightarrow> core_holding core \<longrightarrow> core_holding c' \<and> core_anchor c' = core_anchor core)"
proof (cases "wd \<or> \<not> good_input core inp")
  case True
  then show ?thesis
    using assms emit_watchdog_anchor[of core inp v c'] emit_backup_anchor[of core inp BrakeToStop BadInput "[]" PInf v c']
    by (auto simp: core_decide_def anchor_ok_def split: if_splits)
next
  case False
  obtain vs c1 where steps: "step_monitors core inp = (vs, c1)"
    by (cases "step_monitors core inp")
  note mon = step_monitors_anchor[OF steps]
  have pos: "core_dim c1 = 0 \<or> finite_prefix (core_dim c1) (in_position inp) \<noteq> None"
    using False mon by (auto simp: good_input_def)
  have eb: "anchor_ok c' \<and> (vd_backup v \<noteq> Some HoldPose \<longrightarrow> \<not> core_holding c')
    \<and> (vd_backup v = Some HoldPose \<longrightarrow> core_holding core \<longrightarrow> core_holding c' \<and> core_anchor c' = core_anchor core)"
    if "emit_backup c1 inp kind reason fired margin = (v, c')" for kind reason fired margin
    using emit_backup_anchor[OF that] mon pos assms(2) by auto
  have ap: "anchor_ok c' \<and> vd_backup v \<noteq> Some HoldPose \<and> \<not> core_holding c'" if "act_on_proposal c1 inp = (v, c')"
    using act_on_proposal_anchor[OF that] by (simp add: anchor_ok_def)
  show ?thesis
    using assms(1) False eb ap by (auto simp: core_decide_def steps split: option.splits)
qed

text \<open>
  A hold keeps its anchor. In every reachable state in which a hold is in progress, the anchor is
  a finite position of the core's dimension; a tick that emits another hold keeps it, and a tick that
  emits anything else ends the hold.
\<close>

theorem hold_keeps_its_anchor:
  assumes "core_from_model cfg m = Inr c0" "core_reaches c0 core" "core_decide core inp wd = (v, c')"
  shows "anchor_ok core \<and> (vd_backup v \<noteq> Some HoldPose \<longrightarrow> \<not> core_holding c')
    \<and> (vd_backup v = Some HoldPose \<longrightarrow> core_holding core \<longrightarrow> core_holding c' \<and> core_anchor c' = core_anchor core)"
proof -
  have "anchor_ok c0"
    using core_from_model_fields(4)[OF assms(1)] by (simp add: anchor_ok_def)
  have "anchor_ok core"
    using assms(2)
  proof (induction rule: core_reaches.induct)
    case (guarded c inp ov v c')
    then show ?case
      using decide_anchor[OF _ guarded.IH] emit_watchdog_anchor
      by (auto simp: core_step_guarded_def anchor_ok_def split: prod.splits if_splits)
  qed (use \<open>anchor_ok c0\<close> decide_anchor in auto)
  then show ?thesis
    using decide_anchor[OF assms(3)] by simp
qed

section \<open>A contract\<close>

text \<open>
  A rover that must stay one metre on the near side of a wall, keep its charge, and move slowly; with
  a temporal clause on the charge when \<open>extra\<close> has one.
\<close>

definition blank_constraint :: "ConstraintKind \<Rightarrow> string \<Rightarrow> safety_constraint" where
  "blank_constraint kind cid = \<lparr>sc_kind = kind, sc_id = cid, sc_on_uncertain = FALLBACK, sc_keep_out = None,
    sc_power_floor = None, sc_energy_floor = None, sc_thermal_ceiling = None, sc_thermal_floor = None,
    sc_torque_ceiling = None, sc_kinematic_limit = None, sc_temporal = None\<rparr>"

definition demo_wall :: keep_out_constraint where
  "demo_wall = \<lparr>ko_volume = \<lparr>vol_shape = HALF_SPACE, vol_box = None, vol_sphere = None,
      vol_half_space = Some \<lparr>half_frame = ''M'', half_normal = (1, 0, 0), half_offset = 0, half_frame_ref = None\<rparr>\<rparr>,
    ko_margin = 1, ko_pair = None\<rparr>"

definition demo_keep_out :: safety_constraint where
  "demo_keep_out = (blank_constraint KEEP_OUT ''wall'')\<lparr>sc_keep_out := Some demo_wall\<rparr>"

definition demo_kinematic :: kinematic_limit where
  "demo_kinematic = \<lparr>km_signal = ''v'', km_velocity = Some 2, km_accel = Some 5\<rparr>"

definition demo_slow :: safety_constraint where
  "demo_slow = (blank_constraint KINEMATIC_LIMIT ''slow'')\<lparr>sc_kinematic_limit := Some demo_kinematic\<rparr>"

definition demo_charge :: safety_constraint where
  "demo_charge = (blank_constraint ENERGY_FLOOR ''charge'')
    \<lparr>sc_energy_floor := Some \<lparr>sl_signal = ''e'', sl_limit = 10\<rparr>\<rparr>"

definition demo_formula :: formula where
  "demo_formula = Formula OP_ALWAYS None None None (Some (Some 0, Some 1))
    [Formula OP_PREDICATE (Some ''e'') (Some OP_GE) (Some 20) None []]"

definition demo_temporal :: safety_constraint where
  "demo_temporal = (blank_constraint TEMPORAL ''reserve'')\<lparr>sc_temporal := Some demo_formula\<rparr>"

definition demo_contract :: "safety_constraint list \<Rightarrow> safety_spec" where
  "demo_contract extra = \<lparr>ss_id = ''s'', ss_name = ''s'',
    ss_signals = [\<lparr>sig_key = ''e'', sig_unit = ''J'', sig_source = FROM_OBSERVATION\<rparr>,
                  \<lparr>sig_key = ''v'', sig_unit = ''m/s'', sig_source = FROM_OBSERVATION\<rparr>],
    ss_constraints = [demo_keep_out, demo_slow, demo_charge] @ extra, ss_safe_pose = None,
    ss_directives = Some \<lparr>ad_modes = [''idle''], ad_tasks = [GOTO]\<rparr>, ss_other = JNull\<rparr>"

lemmas demo_contract_defs = demo_contract_def demo_keep_out_def demo_slow_def demo_charge_def demo_temporal_def
  demo_wall_def demo_kinematic_def demo_formula_def blank_constraint_def

lemma demo_strips:
  "py_strip ''e'' = ''e''" "py_strip ''v'' = ''v''" "py_strip ''J'' = ''J''" "py_strip ''m/s'' = ''m/s''"
  by code_simp+

lemma demo_checks:
  "check_constraint [''e'', ''v''] demo_keep_out = Inr ()" "check_constraint [''e'', ''v''] demo_slow = Inr ()"
  "check_constraint [''e'', ''v''] demo_charge = Inr ()" "check_constraint [''e'', ''v''] demo_temporal = Inr ()"
  by (simp_all add: demo_contract_defs check_constraint_def check_union_def union_fields_def asserted_def
      check_keep_out_def shape_fields_def half_space_normal_ok_def keep_out_frame_and_ref_def check_frame_ref_def
      check_signal_key_def scalar_payload_def check_node_def check_interval_def demo_strips Let_def)

lemma demo_schema: "schema_ok (demo_contract []) \<and> schema_ok (demo_contract [demo_temporal])"
  by (simp add: demo_contract_defs schema_ok_def constraint_schema_ok_def volume_schema_ok_def frame_token_def
      is_space_def interval_schema_ok_def)

lemma demo_parts:
  "map sig_key (ss_signals (demo_contract extra)) = [''e'', ''v'']"
  "ss_constraints (demo_contract extra) = [demo_keep_out, demo_slow, demo_charge] @ extra"
  "list_all (\<lambda>r. check_signal r = Inr ()) (ss_signals (demo_contract extra))"
  "ss_safe_pose (demo_contract extra) = None"
  by (simp_all add: demo_contract_def check_signal_def demo_strips)

lemma demo_payloads:
  "sc_kinematic_limit demo_slow = Some demo_kinematic" "sc_temporal demo_temporal = Some demo_formula"
  "sc_keep_out demo_keep_out = Some demo_wall"
  by (simp_all add: demo_slow_def demo_temporal_def demo_keep_out_def)

lemma demo_ids:
  "sc_id demo_keep_out = ''wall''" "sc_id demo_slow = ''slow''" "sc_id demo_charge = ''charge''"
  "sc_id demo_temporal = ''reserve''" "sc_kind demo_keep_out = KEEP_OUT" "sc_kind demo_slow = KINEMATIC_LIMIT"
  "sc_kind demo_charge = ENERGY_FLOOR" "sc_kind demo_temporal = TEMPORAL"
  by (simp_all add: demo_contract_defs)

lemma demo_duplicates:
  "duplicates [''e'', ''v''] = []" "duplicates [''wall'', ''slow'', ''charge''] = []"
  "duplicates [''wall'', ''slow'', ''charge'', ''reserve''] = []"
  by (simp_all add: duplicates_def)

lemma demo_valid:
  assumes "extra = [] \<or> extra = [demo_temporal]"
  shows "validate_safety_spec (demo_contract extra) = Inr ()"
proof -
  have "duplicates (map sc_id ([demo_keep_out, demo_slow, demo_charge] @ extra)) = []"
    using assms by (auto simp: demo_ids demo_duplicates)
  moreover have "all_checked (check_constraint [''e'', ''v'']) ([demo_keep_out, demo_slow, demo_charge] @ extra) = Inr ()"
    using assms demo_checks by auto
  moreover have "all_checked check_signal (ss_signals (demo_contract extra)) = Inr ()"
    using demo_parts(3)[of extra] by (simp add: list_all_iff)
  moreover have "schema_ok (demo_contract extra)"
    using assms demo_schema by blast
  ultimately show ?thesis
    by (simp only: validate_safety_spec_def check_contract_def demo_parts demo_duplicates Let_def
        rbind_simps option.case simp_thms if_True if_False)
qed

text \<open>The configuration of \<^verbatim>\<open>guard/wrap/shield.py\<close> (\<^verbatim>\<open>CoreConfig\<close>), with one grant of each kind.\<close>

definition demo_guard_config :: core_config where
  "demo_guard_config = \<lparr>cc_horizon = 5,
     cc_shield = \<lparr>cfg_k0 = 9, cfg_k1 = 6, cfg_u_max = 20, cfg_v_max = 2, cfg_tol = 1 / 10 ^ 7, cfg_max_iter = 512\<rparr>,
     cc_k_brake = 4, cc_history_cap = 1048576, cc_unchanged_tol = 1 / 10 ^ 6,
     cc_policy = \<lparr>ap_modes = [''idle''], ap_tasks = [''goto''], ap_fallback = Effort\<rparr>\<rparr>"

lemma demo_core:
  assumes "extra = [] \<or> extra = [demo_temporal]"
  obtains m c0 where "compile_spec H 1 (demo_contract extra) = Inr m" "core_from_model demo_guard_config m = Inr c0"
    "cm_keep_outs m \<noteq> []" "cm_signals m = [''e'', ''v'']"
proof -
  obtain m where m: "compile_spec H 1 (demo_contract extra) = Inr m"
    using compile_total[OF demo_valid[OF assms], of 1 H] by auto
  have "frames_valid (demo_contract extra)"
    using assms by (auto simp: frames_valid_def demo_contract_defs frame_ref_valid_def)
  moreover have "list_all (\<lambda>c. pred_option (\<lambda>f. formula_history 1 f \<le> cc_history_cap demo_guard_config) (sc_temporal c))
      (ss_constraints (demo_contract extra))"
    using assms by (auto simp: demo_contract_defs demo_guard_config_def windowed_def samples_def)
  moreover have "modes_named (demo_contract extra)"
    by (simp add: modes_named_def demo_contract_def)
  ultimately obtain c0 where "core_from_model demo_guard_config m = Inr c0"
    using compiled_decodes[OF m] compiled_histories[OF m] by blast
  moreover have "cm_keep_outs m \<noteq> []"
    using compiled_keep_outs(2)[OF m, of demo_keep_out] by (auto simp: demo_parts demo_ids is_keep_out_def)
  moreover have "cm_signals m = sort (map sig_key (ss_signals (demo_contract extra)))"
    using compile_spec_parts[OF m] by blast
  then have "cm_signals m = [''e'', ''v'']"
    by (simp add: demo_parts)
  ultimately show thesis
    using that m by blast
qed

section \<open>The guarantees on the contract\<close>

definition demo_input :: "real \<Rightarrow> proposed \<Rightarrow> safety_input" where
  "demo_input e pr = \<lparr>in_signals = [Some e, Some 1], in_position = map Some [5, 0, 0],
     in_velocity = map Some [0, 0, 0], in_proposed = pr\<rparr>"

definition demo_signal :: "real \<Rightarrow> string \<Rightarrow> real" where
  "demo_signal e key = (if key = ''e'' then e else 1)"

definition demo_move :: proposed where
  "demo_move = VelocityCmd (map Some [- 1, 0, 0])"

lemma demo_carries: "cm_signals m = [''e'', ''v''] \<Longrightarrow> carries (demo_input e pr) m (demo_signal e)"
  by (simp add: carries_def demo_input_def demo_signal_def)

lemma demo_grant:
  "admissible_directives_of (demo_contract extra) = Some \<lparr>cd_modes = [''idle''], cd_tasks = [''goto'']\<rparr>"
  by (simp add: admissible_directives_of_def demo_contract_def)

lemma demo_limits: "action_limits_of (demo_contract []) = \<lparr>lim_velocity = Some 2, lim_accel = Some 5\<rparr>"
  by (simp add: action_limits_of_def demo_contract_defs positive_bounds_def List.map_filter_def least_def)

lemma demo_term:
  assumes "compile_spec H 1 (demo_contract []) = Inr m" "t \<in> set (cm_keep_outs m)"
  shows "barrier_of_term 3 t = HalfBarrier [1, 0, 0] 1"
proof -
  have "keep_out_term_of demo_keep_out = Inr t"
    using compiled_keep_outs(1)[OF assms(1)] assms(2) by (auto simp: demo_parts demo_ids is_keep_out_def)
  then show ?thesis
    by (auto simp: keep_out_term_of_def demo_contract_defs barrier_of_term_def vnorm_def f64_min_positive_def
        eval_nat_numeral Let_def)
qed

lemma demo_admissible:
  assumes "compile_spec H 1 (demo_contract []) = Inr m"
  shows "admissible_command (shield_new (cm_keep_outs m) 3 (cc_shield demo_guard_config) (cm_period m) (cm_limits m))
    Velocity [5, 0, 0] [0, 0, 0] [- 1, 0, 0]"
proof -
  let ?s = "shield_new (cm_keep_outs m) 3 (cc_shield demo_guard_config) (cm_period m) (cm_limits m)"
  note shd = shield_of_compiled[OF assms, of ?s, OF refl]
  have "eval_barrier ?s Velocity [5, 0, 0] [0, 0, 0] (HalfBarrier [1, 0, 0] 1) = ([1, 0, 0], - 4, 4, True)"
    using shd(1,2) by (simp add: eval_barrier_def vdot_def Let_def)
  moreover have "shd_v_max ?s = 2"
    unfolding shd(7) by (simp add: demo_limits demo_guard_config_def tighten_def)
  then have "vnorm [- 1, 0, 0] \<le> shd_v_max ?s"
    by (simp add: vnorm_def)
  ultimately show ?thesis
    using demo_term[OF assms] by (auto simp: admissible_command_def in_kinematic_def shd(5) vdot_def)
qed

lemma demo_no_monitors: "compile_spec H 1 (demo_contract []) = Inr m \<Longrightarrow> cm_monitors m = []"
  using compiled_monitor_origin by (force simp: demo_parts demo_ids)

lemma fallback_bounds:
  assumes "compile_spec H 1 (demo_contract []) = Inr m" "b \<in> set (cm_scalar_bounds m)"
  shows "sb_on_uncertain b = FALLBACK"
proof -
  obtain keys atoms bounds where bounds: "rmap (scalar_bounds_of keys atoms) (ss_constraints (demo_contract [])) = Inr bounds"
    "set (cm_scalar_bounds m) = set (concat bounds)"
    using compile_spec_parts[OF assms(1)] by metis
  then obtain bs c where "b \<in> set bs" "c \<in> set (ss_constraints (demo_contract []))" "scalar_bounds_of keys atoms c = Inr bs"
    using assms(2) rmap_image[OF bounds(1)] by fastforce
  moreover have "sc_on_uncertain c = FALLBACK" if "c \<in> set (ss_constraints (demo_contract []))" for c
    using that by (auto simp: demo_contract_defs)
  ultimately show ?thesis
    by (auto simp: scalar_bounds_of_def rbind_Inr split: if_splits)
qed

lemma demo_undetected:
  assumes "compile_spec H 1 (demo_contract []) = Inr m" "core_from_model demo_guard_config m = Inr c0"
    and "cm_keep_outs m \<noteq> []" "cm_signals m = [''e'', ''v'']"
    and "pr = demo_move \<or> proposed_channel pr = None"
  shows "undetected c0 (demo_input 50 pr)"
proof -
  note run = running_core[OF assms(1,2) core_reaches.start]
  have "good_input c0 (demo_input 50 pr)"
    using assms(3-5) run(1,4)
    by (auto simp: good_input_def demo_input_def demo_move_def all_finite_def finite_prefix_def list_all_iff)
  moreover have "\<forall>c \<in> set (ss_constraints (demo_contract [])). scalar_enforced (demo_signal 50) c"
    by (simp add: demo_contract_defs scalar_enforced_def demo_signal_def)
  then have "scalar_hit c0 (demo_input 50 pr) = None"
    using compiled_scalars[OF assms(1), of "demo_signal 50"] carries_values[OF demo_carries[OF assms(4)]] run(1)
    by (auto simp: scalar_hit_def find_None_iff predicate_values_def not_less)
  moreover have "core_monitors c0 = []"
    using core_from_model_fields(3)[OF assms(2)] demo_no_monitors[OF assms(1)] by simp
  ultimately show ?thesis
    by (simp add: undetected_def step_monitors_def)
qed

lemma demo_moves:
  obtains m c0 margin c' where "compile_spec H 1 (demo_contract []) = Inr m" "core_from_model demo_guard_config m = Inr c0"
    "cm_keep_outs m \<noteq> []" "cm_signals m = [''e'', ''v'']"
    "core_decide c0 (demo_input 50 demo_move) False = (certified_verdict (map Some [- 1, 0, 0]) Velocity False margin, c')"
proof -
  obtain m c0 where core: "compile_spec H 1 (demo_contract []) = Inr m" "core_from_model demo_guard_config m = Inr c0"
    "cm_keep_outs m \<noteq> []" "cm_signals m = [''e'', ''v'']"
    using demo_core[of "[]" H] by blast
  have "cc_unchanged_tol (core_cfg c0) = 1 / 10 ^ 6"
    using core_from_model_fields(2)[OF core(2)] by (simp add: demo_guard_config_def)
  then have "\<exists>margin c'. core_decide c0 (demo_input 50 demo_move) False
      = (certified_verdict (map Some [- 1, 0, 0]) Velocity False margin, c')"
    using safe_command_kept[OF core(1,2) core_reaches.start core(3) _ _ demo_undetected[OF core] _ _ _ _ _ _ _
        demo_admissible[OF core(1)]]
    by (simp add: demo_guard_config_def demo_input_def demo_move_def)
  then show thesis
    using that core by blast
qed

theorem certified_motion_is_clear_witness:
  "\<exists>m c0 v c' p y. compile_spec (\<lambda>_. ''h'') 1 (demo_contract []) = Inr m \<and> core_from_model demo_guard_config m = Inr c0
    \<and> core_decide c0 (demo_input 50 demo_move) False = (v, c') \<and> vd_action v = map Some y
    \<and> finite_prefix 3 (map Some [5, 0, 0 :: real]) = Some p
    \<and> 1 - 1 / 10 ^ 7 \<le> dist3 (commanded_position 1 Velocity p y 0, commanded_position 1 Velocity p y 1,
        commanded_position 1 Velocity p y 2) (- 1, 0, 0)"
proof -
  obtain m c0 margin c' where d: "compile_spec (\<lambda>_. ''h'') 1 (demo_contract []) = Inr m"
    "core_from_model demo_guard_config m = Inr c0"
    "core_decide c0 (demo_input 50 demo_move) False = (certified_verdict (map Some [- 1, 0, 0]) Velocity False margin, c')"
    using demo_moves by metis
  have "in_volume (ko_volume demo_wall) (- 1, 0, 0)"
    by (simp add: in_volume_def demo_wall_def vec_list_def vdot_def)
  from certified_motion_is_clear[OF d(1,2) core_reaches.start d(3) _ _ _ _ _ _ this, of Velocity demo_keep_out]
  show ?thesis
    using d by (fastforce simp: demo_input_def demo_move_def demo_guard_config_def demo_contract_def demo_keep_out_def
        blank_constraint_def demo_wall_def Let_def)
qed

theorem certified_command_in_envelope_witness:
  "\<exists>m c0 v c' p y. compile_spec (\<lambda>_. ''h'') 1 (demo_contract []) = Inr m \<and> core_from_model demo_guard_config m = Inr c0
    \<and> core_decide c0 (demo_input 50 demo_move) False = (v, c') \<and> vd_action v = map Some y
    \<and> finite_prefix 3 (map Some [5, 0, 0 :: real]) = Some p \<and> vnorm y \<le> 2 + 1 / 10 ^ 7"
proof -
  obtain m c0 margin c' where d: "compile_spec (\<lambda>_. ''h'') 1 (demo_contract []) = Inr m"
    "core_from_model demo_guard_config m = Inr c0" "cm_keep_outs m \<noteq> []"
    "core_decide c0 (demo_input 50 demo_move) False = (certified_verdict (map Some [- 1, 0, 0]) Velocity False margin, c')"
    using demo_moves by metis
  have pr: "vd_intervention (certified_verdict (map Some [- 1, 0, 0]) Velocity False margin) \<noteq> Fallback"
    "proposed_channel (in_proposed (demo_input 50 demo_move)) = Some Velocity"
    by (simp_all add: demo_input_def demo_move_def)
  obtain p y where py: "finite_prefix 3 (in_position (demo_input 50 demo_move)) = Some p"
    "vd_action (certified_verdict (map Some [- 1, 0, 0]) Velocity False margin) = map Some y"
    "\<And>l. \<exists>c \<in> set (ss_constraints (demo_contract [])). \<exists>k. sc_kind c = KINEMATIC_LIMIT
      \<and> sc_kinematic_limit c = Some k \<and> km_velocity k = Some l \<and> 0 < l \<Longrightarrow>
      vnorm y \<le> l + cfg_tol (cc_shield demo_guard_config)"
    using certified_command_in_envelope[OF d(1,2) core_reaches.start d(4) pr] d(3) by auto
  have "vnorm y \<le> 2 + cfg_tol (cc_shield demo_guard_config)"
    by (rule py(3)) (simp add: demo_parts demo_ids demo_payloads demo_kinematic_def)
  then show ?thesis
    using d py(1,2) by (auto simp: demo_input_def demo_guard_config_def)
qed

theorem directive_needs_reviewed_grant_witness:
  "\<exists>m c0 v c' d. compile_spec (\<lambda>_. ''h'') 1 (demo_contract []) = Inr m \<and> core_from_model demo_guard_config m = Inr c0
    \<and> core_decide c0 (demo_input 50 (ModeCmd ''idle'')) False = (v, c') \<and> vd_intervention v = NoIntervention
    \<and> ss_directives (demo_contract []) = Some d \<and> ''idle'' \<in> set (ad_modes d)"
proof -
  obtain m c0 where d: "compile_spec (\<lambda>_. ''h'') 1 (demo_contract []) = Inr m"
    "core_from_model demo_guard_config m = Inr c0" "cm_keep_outs m \<noteq> []" "cm_signals m = [''e'', ''v'']"
    using demo_core[of "[]"] by blast
  let ?inp = "demo_input 50 (ModeCmd ''idle'')"
  obtain vs c1 where steps: "step_monitors c0 ?inp = (vs, c1)"
    by (cases "step_monitors c0 ?inp")
  have "core_decide c0 ?inp False = act_on_proposal c1 ?inp"
    using demo_undetected[OF d] by (intro undetected_decide[OF _ steps]) simp
  moreover have "cm_directives m = admissible_directives_of (demo_contract [])"
    using compile_spec_parts[OF d(1)] by blast
  then have "cm_directives m = Some \<lparr>cd_modes = [''idle''], cd_tasks = [''goto'']\<rparr>"
    by (simp add: demo_grant)
  ultimately obtain v c' where v: "core_decide c0 ?inp False = (v, c')" "vd_intervention v = NoIntervention"
    using step_monitors_setup[OF steps] running_core(2)[OF d(1,2) core_reaches.start]
    by (auto simp: act_on_proposal_def demo_input_def admits_def narrowed_to_def narrow_def demo_guard_config_def
        same_setup_def certified_verdict_def)
  show ?thesis
    using directive_needs_reviewed_grant[OF d(1,2) core_reaches.start v(1)] v d
    by (auto simp: demo_input_def)
qed

theorem violated_bound_falls_back_witness:
  "\<exists>m c0 v c'. compile_spec (\<lambda>_. ''h'') 1 (demo_contract []) = Inr m \<and> core_from_model demo_guard_config m = Inr c0
    \<and> core_decide c0 (demo_input 5 demo_move) False = (v, c') \<and> vd_intervention v = Fallback"
proof -
  obtain m c0 where d: "compile_spec (\<lambda>_. ''h'') 1 (demo_contract []) = Inr m"
    "core_from_model demo_guard_config m = Inr c0" "cm_keep_outs m \<noteq> []" "cm_signals m = [''e'', ''v'']"
    using demo_core[of "[]"] by blast
  obtain v c' where v: "core_decide c0 (demo_input 5 demo_move) False = (v, c')"
    by (cases "core_decide c0 (demo_input 5 demo_move) False")
  have "\<not> scalar_holds (demo_signal 5) demo_charge"
    by (simp add: scalar_holds_def demo_charge_def blank_constraint_def demo_signal_def)
  moreover have "kinematic_forward (demo_signal 5) demo_charge"
    by (simp add: kinematic_forward_def demo_ids)
  ultimately have "vd_intervention v = Fallback \<and> vd_layer v = BackupLayer"
    by (intro violated_bound_falls_back[OF d(1,2) core_reaches.start demo_carries[OF d(4)] _ _ _ v]) (simp_all add: demo_parts)
  then show ?thesis
    using d v by blast
qed

text \<open>Under the charge floor the core stops, whatever velocity is proposed.\<close>

lemma low_charge_stops:
  assumes "compile_spec H 1 (demo_contract []) = Inr m" "core_from_model demo_guard_config m = Inr c0"
    and "cm_keep_outs m \<noteq> []" "cm_signals m = [''e'', ''v'']"
    and "core_decide c0 (demo_input 5 (VelocityCmd [Some x, Some y, Some z])) False = (v, c')"
  shows "vd_intervention v = Fallback \<and> vd_mode v = Velocity \<and> vd_action v = [Some 0, Some 0, Some 0]"
proof -
  let ?inp = "demo_input 5 (VelocityCmd [Some x, Some y, Some z])"
  note run = running_core[OF assms(1,2) core_reaches.start]
  have good: "good_input c0 ?inp"
    using assms(3,4) run(1,4)
    by (auto simp: good_input_def demo_input_def all_finite_def finite_prefix_def list_all_iff)
  have "\<not> scalar_enforced (demo_signal 5) demo_charge"
    by (simp add: scalar_enforced_def demo_charge_def blank_constraint_def demo_signal_def)
  then obtain b where b: "b \<in> set (cm_scalar_bounds m)"
    "atom_margin (cm_atoms m ! sb_atom b) (map (demo_signal 5) (cm_signals m)) < 0"
    using compiled_scalars[OF assms(1), of "demo_signal 5"] by (metis demo_parts(2) append_Cons list.set_intros not_less)
  have "scalar_hit c0 ?inp \<noteq> None"
    using b run(1) carries_values[OF demo_carries[OF assms(4)]]
    by (auto simp: scalar_hit_def find_None_iff predicate_values_def)
  then obtain h where h: "scalar_hit c0 ?inp = Some h"
    by blast
  have uncertain: "sb_on_uncertain h = FALLBACK"
    using fallback_bounds[OF assms(1)] h run(1) by (auto simp: scalar_hit_def find_Some_iff in_set_conv_nth)
  obtain vs c1 where steps: "step_monitors c0 ?inp = (vs, c1)"
    by (cases "step_monitors c0 ?inp")
  have ch: "core_backup c1 = core_backup c0" "fallback_channel c1 ?inp = Velocity"
    using step_monitors_setup[OF steps] by (simp_all add: same_setup_def fallback_channel_def demo_input_def)
  have "bk_ctrl_dim (core_backup c0) = 3"
    using run(4,6) assms(3) by (simp add: backup_new_def Let_def)
  then have stop: "backup_control (core_backup c1) BrakeToStop Velocity p w g = [0, 0, 0]" for p w g
    by (simp add: ch(1) backup_control_def stop_velocity_def eval_nat_numeral Let_def)
  have "emit_backup c1 ?inp BrakeToStop ScalarViolated [sb_constraint h] PInf = (v, c')"
    using assms(5) good by (simp only: core_decide_def steps h uncertain backup_kind_of_def prod.case option.case
        OnUncertain.case if_False simp_thms)
  from backup_verdict[OF this] show ?thesis
    by (simp add: ch(2) stop)
qed

text \<open>
  The speed limit has no other side. On the contract below, whose reviewed limit for the speed is
  2 m/s, the core certifies a command untouched while the measured speed is -100 m/s.
\<close>

definition reversing_signal :: "string \<Rightarrow> real" where
  "reversing_signal key = (if key = ''e'' then 50 else - 100)"

theorem reverse_speed_is_not_detected:
  "\<exists>m c0 margin c'. compile_spec (\<lambda>_. ''h'') 1 (demo_contract []) = Inr m \<and> core_from_model demo_guard_config m = Inr c0
    \<and> demo_slow \<in> set (ss_constraints (demo_contract [])) \<and> \<not> scalar_holds reversing_signal demo_slow
    \<and> carries (demo_input 50 demo_move\<lparr>in_signals := [Some 50, Some (- 100)]\<rparr>) m reversing_signal
    \<and> core_decide c0 (demo_input 50 demo_move\<lparr>in_signals := [Some 50, Some (- 100)]\<rparr>) False
        = (certified_verdict (map Some [- 1, 0, 0]) Velocity False margin, c')"
proof -
  let ?inp = "demo_input 50 demo_move\<lparr>in_signals := [Some 50, Some (- 100)]\<rparr>"
  obtain m c0 where d: "compile_spec (\<lambda>_. ''h'') 1 (demo_contract []) = Inr m"
    "core_from_model demo_guard_config m = Inr c0" "cm_keep_outs m \<noteq> []" "cm_signals m = [''e'', ''v'']"
    using demo_core[of "[]"] by blast
  have car: "carries ?inp m reversing_signal"
    using d(4) by (simp add: carries_def reversing_signal_def)
  have "good_input c0 ?inp"
    using d(3,4) running_core(1,4)[OF d(1,2) core_reaches.start]
    by (auto simp: good_input_def demo_input_def demo_move_def all_finite_def finite_prefix_def list_all_iff)
  moreover have "\<forall>c \<in> set (ss_constraints (demo_contract [])). scalar_enforced reversing_signal c"
    by (simp add: demo_contract_defs scalar_enforced_def reversing_signal_def)
  then have "scalar_hit c0 ?inp = None"
    using compiled_scalars[OF d(1), of reversing_signal] carries_values[OF car] running_core(1)[OF d(1,2) core_reaches.start]
    by (auto simp: scalar_hit_def find_None_iff predicate_values_def not_less)
  moreover have "core_monitors c0 = []"
    using core_from_model_fields(3)[OF d(2)] demo_no_monitors[OF d(1)] by simp
  ultimately have "undetected c0 ?inp"
    by (simp add: undetected_def step_monitors_def)
  moreover have "cc_unchanged_tol (core_cfg c0) = 1 / 10 ^ 6"
    using core_from_model_fields(2)[OF d(2)] by (simp add: demo_guard_config_def)
  ultimately have "\<exists>margin c'. core_decide c0 ?inp False
      = (certified_verdict (map Some [- 1, 0, 0]) Velocity False margin, c')"
    using safe_command_kept[OF d(1,2) core_reaches.start d(3) _ _ _ _ _ _ _ _ _ _ demo_admissible[OF d(1)], of ?inp]
    by (simp add: demo_guard_config_def demo_input_def demo_move_def)
  moreover have "\<not> scalar_holds reversing_signal demo_slow"
    by (simp add: demo_contract_defs scalar_holds_def reversing_signal_def)
  ultimately show ?thesis
    using d(1,2) car by (auto simp: demo_parts)
qed

theorem violated_formula_falls_back_witness:
  "\<exists>m c0. compile_spec (\<lambda>_. ''h'') 1 (demo_contract [demo_temporal]) = Inr m \<and> core_from_model demo_guard_config m = Inr c0
    \<and> good_input c0 (demo_input 15 demo_move)
    \<and> vd_intervention (fst (core_step_guarded (core_at c0 (\<lambda>_. demo_input 15 demo_move) (\<lambda>_. False) 0)
          (demo_input 15 demo_move) False)) = Fallback"
proof -
  obtain m c0 where d: "compile_spec (\<lambda>_. ''h'') 1 (demo_contract [demo_temporal]) = Inr m"
    "core_from_model demo_guard_config m = Inr c0" "cm_keep_outs m \<noteq> []" "cm_signals m = [''e'', ''v'']"
    using demo_core[of "[demo_temporal]"] by blast
  have good: "good_input c0 (demo_input 15 demo_move)"
    using d(3,4) running_core(1,4)[OF d(1,2) core_reaches.start]
    by (auto simp: good_input_def demo_input_def demo_move_def all_finite_def finite_prefix_def list_all_iff)
  have "formula_semantics 1 (\<lambda>_. demo_signal 15) demo_formula 0 < Fin 0"
    by (simp add: demo_formula_def op_semantics_def past_window_def samples_def demo_signal_def least_of_def)
  then have "vd_intervention (fst (core_step_guarded (core_at c0 (\<lambda>_. demo_input 15 demo_move) (\<lambda>_. False) 0)
      ((\<lambda>_. demo_input 15 demo_move) 0) ((\<lambda>_. False) 0))) = Fallback"
    using good demo_carries[OF d(4)]
    by (intro violated_formula_falls_back[OF d(1,2), of demo_temporal]) (auto simp: demo_parts demo_ids demo_payloads
        good_ticks_def)
  then show ?thesis
    using d good by auto
qed

theorem fallback_is_bounded_witness:
  "\<exists>m c0 v c' y. compile_spec (\<lambda>_. ''h'') 1 (demo_contract []) = Inr m \<and> core_from_model demo_guard_config m = Inr c0
    \<and> core_decide c0 (demo_input 50 demo_move) True = (v, c') \<and> vd_action v = map Some y \<and> length y = 3
    \<and> vnorm y \<le> tighten 2 (lim_velocity (cm_limits m))"
proof -
  obtain m c0 where d: "compile_spec (\<lambda>_. ''h'') 1 (demo_contract []) = Inr m"
    "core_from_model demo_guard_config m = Inr c0" "cm_keep_outs m \<noteq> []"
    using demo_core[of "[]"] by blast
  obtain v c' where v: "core_decide c0 (demo_input 50 demo_move) True = (v, c')"
    by (cases "core_decide c0 (demo_input 50 demo_move) True")
  then have fb: "vd_intervention v = Fallback" "vd_mode v = Velocity"
    by (auto simp: core_decide_def emit_watchdog_def fallback_channel_def demo_input_def demo_move_def Let_def)
  have "finite_prefix 3 (in_position (demo_input 50 demo_move)) = Some [5, 0, 0]"
    by (simp add: demo_input_def finite_prefix_def)
  from fallback_is_bounded[OF d(1,2) core_reaches.start v fb(1) d(3) _ _ _ this] show ?thesis
    using d v fb(2) by (auto simp: demo_guard_config_def Let_def)
qed

theorem safe_command_is_kept_witness:
  "\<exists>m c0 margin c'. compile_spec (\<lambda>_. ''h'') 1 (demo_contract []) = Inr m \<and> core_from_model demo_guard_config m = Inr c0
    \<and> core_decide c0 (demo_input 50 demo_move) False
        = (certified_verdict (map Some [- 1, 0, 0]) Velocity False margin, c')"
proof -
  obtain m c0 where core: "compile_spec (\<lambda>_. ''h'') 1 (demo_contract []) = Inr m" "core_from_model demo_guard_config m = Inr c0"
    "cm_keep_outs m \<noteq> []" "cm_signals m = [''e'', ''v'']"
    using demo_core[of "[]"] by blast
  have "cc_unchanged_tol (core_cfg c0) = 1 / 10 ^ 6"
    using core_from_model_fields(2)[OF core(2)] by (simp add: demo_guard_config_def)
  then have "\<exists>margin c'. core_decide c0 (demo_input 50 demo_move) False
      = (certified_verdict (map Some [- 1, 0, 0]) Velocity False margin, c')"
    using safe_command_is_kept[OF core(1,2) core_reaches.start core(3) _ _ demo_undetected[OF core] _ _ _ _ _ _ _
        demo_admissible[OF core(1)]]
    by (simp add: demo_guard_config_def demo_input_def demo_move_def)
  then show ?thesis
    using core by blast
qed

theorem bad_input_brakes_and_skips_monitors_witness:
  "\<exists>m c0 v c'. core_from_model demo_guard_config m = Inr c0
    \<and> core_decide c0 (demo_input 50 demo_move\<lparr>in_signals := [None, Some 1]\<rparr>) False = (v, c') \<and> vd_reason v = BadInput"
proof -
  obtain m c0 where d: "core_from_model demo_guard_config m = Inr c0"
    using demo_core[of "[]"] by blast
  let ?inp = "demo_input 50 demo_move\<lparr>in_signals := [None, Some 1]\<rparr>"
  obtain v c' where v: "core_decide c0 ?inp False = (v, c')"
    by (cases "core_decide c0 ?inp False")
  have "\<not> good_input c0 ?inp"
    by (simp add: good_input_def all_finite_def)
  then show ?thesis
    using bad_input_brakes_and_skips_monitors[OF _ v] d v by blast
qed

theorem hold_keeps_its_anchor_witness:
  "\<exists>m c0 v c'. core_from_model demo_guard_config m = Inr c0 \<and> core_decide c0 (demo_input 50 demo_move) True = (v, c')
    \<and> \<not> core_holding c'"
proof -
  obtain m c0 where d: "core_from_model demo_guard_config m = Inr c0"
    using demo_core[of "[]"] by blast
  obtain v c' where v: "core_decide c0 (demo_input 50 demo_move) True = (v, c')"
    by (cases "core_decide c0 (demo_input 50 demo_move) True")
  then have "vd_backup v \<noteq> Some HoldPose"
    by (auto simp: core_decide_def emit_watchdog_def Let_def)
  then show ?thesis
    using hold_keeps_its_anchor[OF d core_reaches.start v] d v by blast
qed

end
