(* ===== verification/Guard_Contract.thy ===== *)
theory Guard_Contract
  imports Guard_Safety
begin

text \<open>
  The contract and its compiled form: a reviewed contract always runs, its compiled bounds and
  monitors mean what was reviewed, and three places where the trusted core does something else than
  one expects: a delayed formula fires on its first sample, a decoded model may read a predicate that
  does not exist, and the braking law only slows the plant down when the sample period is short.
\<close>

section \<open>A reviewed contract runs\<close>

text \<open>
  C13: Every contract with finite numbers that the loader accepts compiles, when its typed frames are
  tokens and its temporal horizons fit the history cap; and the compiled model passes the fail-closed
  decoder of the trusted core exactly when no mode it grants has the empty name, which the loader
  accepts and the decoder refuses. The core then controls three axes exactly when the contract has a
  keep-out.
\<close>

theorem validated_contract_runs:
  assumes "validate_safety_spec spec = Inr ()" "0 < period" "frames_valid spec"
    and "list_all (\<lambda>c. pred_option (\<lambda>f. formula_history period f \<le> cc_history_cap cfg) (sc_temporal c))
      (ss_constraints spec)"
  shows "\<exists>m. compile_spec H period spec = Inr m
    \<and> (if modes_named spec
       then \<exists>core. core_from_model cfg m = Inr core
              \<and> core_dim core = (if list_ex is_keep_out (ss_constraints spec) then 3 else 0)
       else core_from_model cfg m = Inl EmptyDirective)"
proof -
  obtain m where m: "compile_spec H period spec = Inr m"
    using compile_total[OF assms(1,2)] by blast
  have "cm_keep_outs m = [] \<longleftrightarrow> \<not> list_ex is_keep_out (ss_constraints spec)"
  proof
    assume "cm_keep_outs m = []"
    then show "\<not> list_ex is_keep_out (ss_constraints spec)"
      using compiled_keep_outs(2)[OF m] by (fastforce simp: list_ex_iff)
  next
    assume "\<not> list_ex is_keep_out (ss_constraints spec)"
    then show "cm_keep_outs m = []"
      using compiled_keep_outs(1)[OF m] by (cases "cm_keep_outs m") (fastforce simp: list_ex_iff)+
  qed
  then show ?thesis
    using compiled_decoding[OF m assms(3) compiled_histories[OF m assms(4)]] m
    by (auto simp: core_of_model_def Let_def)
qed

lemma demo_runs:
  "frames_valid (demo_contract [demo_temporal])"
  "list_all (\<lambda>c. pred_option (\<lambda>f. formula_history 1 f \<le> cc_history_cap demo_guard_config) (sc_temporal c))
      (ss_constraints (demo_contract [demo_temporal]))"
  "list_ex is_keep_out (ss_constraints (demo_contract [demo_temporal]))"
  by (simp_all add: frames_valid_def demo_contract_defs frame_ref_valid_def demo_guard_config_def windowed_def
      samples_def is_keep_out_def)

theorem validated_contract_runs_witness:
  "\<exists>m core. compile_spec (\<lambda>_. ''h'') 1 (demo_contract [demo_temporal]) = Inr m
    \<and> core_from_model demo_guard_config m = Inr core \<and> core_dim core = 3"
proof -
  have "modes_named (demo_contract [demo_temporal])"
    by (simp add: modes_named_def demo_contract_def)
  then show ?thesis
    using validated_contract_runs[OF demo_valid _ demo_runs(1,2), of "\<lambda>_. ''h''"] demo_runs(3) by auto
qed

text \<open>The contract of the example with the empty mode granted: validated, compiled, and not decoded.\<close>

definition unnamed_grant :: safety_spec where
  "unnamed_grant = (demo_contract [])\<lparr>ss_directives := Some \<lparr>ad_modes = [[]], ad_tasks = []\<rparr>\<rparr>"

theorem loader_accepts_unnamed_mode:
  "validate_safety_spec unnamed_grant = Inr ()
    \<and> (\<exists>m. compile_spec H 1 unnamed_grant = Inr m \<and> core_from_model demo_guard_config m = Inl EmptyDirective)"
proof -
  have "validate_safety_spec unnamed_grant = validate_safety_spec (demo_contract [])"
    by (simp add: unnamed_grant_def demo_contract_def validate_safety_spec_def check_contract_def schema_ok_def Let_def)
  then have valid: "validate_safety_spec unnamed_grant = Inr ()"
    using demo_valid by simp
  then obtain m where m: "compile_spec H 1 unnamed_grant = Inr m"
    using compile_total[of unnamed_grant 1] by auto
  have "frames_valid unnamed_grant" "\<not> modes_named unnamed_grant"
    by (simp_all add: unnamed_grant_def frames_valid_def modes_named_def demo_contract_defs frame_ref_valid_def)
  moreover have "list_all (\<lambda>c. pred_option (\<lambda>f. formula_history 1 f \<le> cc_history_cap demo_guard_config) (sc_temporal c))
      (ss_constraints unnamed_grant)"
    by (simp add: unnamed_grant_def demo_contract_defs)
  ultimately show ?thesis
    using compiled_decoding[OF m _ compiled_histories[OF m]] valid m by auto
qed

text \<open>
  What a contract with a number that is not finite puts on the wire is refused, wherever the decoder
  reads a threshold, the sample period, a limit of the command envelope or the safe pose.
\<close>

theorem not_finite_is_refused:
  "(\<exists>e. core_from_wire cfg (w\<lparr>wm_period := None\<rparr>) = Inl e)
    \<and> (wa_threshold a = None \<longrightarrow> (\<exists>e. core_from_wire cfg (w\<lparr>wm_atoms := xs @ a # ys\<rparr>) = Inl e))
    \<and> (\<exists>e. core_from_wire cfg (w\<lparr>wm_limits := \<lparr>wl_velocity = Some None, wl_accel = al\<rparr>\<rparr>) = Inl e)
    \<and> (\<exists>e. core_from_wire cfg (w\<lparr>wm_limits := \<lparr>wl_velocity = vl, wl_accel = Some None\<rparr>\<rparr>) = Inl e)
    \<and> (None \<in> set (wp_position sp) \<longrightarrow> (\<exists>e. core_from_wire cfg (w\<lparr>wm_safe_pose := Some sp\<rparr>) = Inl e))"
proof -
  have refused: "\<exists>e. core_from_wire cfg w = Inl e" if "\<exists>e. decode_model (cc_history_cap cfg) w = Inl e" for w
    using that by (auto simp: core_from_wire_def)
  show ?thesis
    by (intro conjI impI refused decode_refuses_not_finite) auto
qed

theorem not_finite_is_refused_witness:
  "\<exists>e. core_from_wire demo_guard_config ((to_wire
      \<lparr>cm_spec_id = ''s'', cm_spec_hash = ''h'', cm_period = 1, cm_signals = [], cm_atoms = [],
       cm_scalar_bounds = [], cm_keep_outs = [], cm_monitors = [],
       cm_resources = \<lparr>rb_predicates = 0, rb_scalars = 0, rb_keep_outs = 0, rb_monitors = 0, rb_history = 0, rb_terms = 0\<rparr>,
       cm_limits = \<lparr>lim_velocity = None, lim_accel = None\<rparr>, cm_safe_pose = None, cm_directives = None\<rparr>)
     \<lparr>wm_safe_pose := Some \<lparr>wp_frame = ''M'', wp_position = [Some 0, None], wp_frame_ref = None\<rparr>\<rparr>) = Inl e"
  using not_finite_is_refused[where sp = "\<lparr>wp_frame = ''M'', wp_position = [Some 0, None], wp_frame_ref = None\<rparr>"]
  by auto

section \<open>The compiled contract means the reviewed one\<close>

text \<open>
  Lowering keeps the meaning of every one-sided clause: over any measured signals, the integer-keyed
  bounds of the compiled model are all met exactly when every reviewed floor and ceiling holds and no
  signal is above its kinematic limit; when no kinematic signal is negative, exactly when every
  reviewed clause holds.
\<close>

theorem compiled_bounds_mean_contract:
  assumes "compile_spec H period spec = Inr m"
  shows "(\<forall>b \<in> set (cm_scalar_bounds m). 0 \<le> atom_margin (cm_atoms m ! sb_atom b) (map sig (cm_signals m)))
      = (\<forall>c \<in> set (ss_constraints spec). scalar_enforced sig c)
    \<and> ((\<forall>c \<in> set (ss_constraints spec). kinematic_forward sig c) \<longrightarrow>
        (\<forall>b \<in> set (cm_scalar_bounds m). 0 \<le> atom_margin (cm_atoms m ! sb_atom b) (map sig (cm_signals m)))
          = (\<forall>c \<in> set (ss_constraints spec). scalar_holds sig c))"
  using compiled_scalars[OF assms] scalar_enforced_reviewed(2) by blast

theorem compiled_bounds_mean_contract_witness:
  "\<exists>m b. compile_spec (\<lambda>_. ''h'') 1 (demo_contract []) = Inr m \<and> b \<in> set (cm_scalar_bounds m)
    \<and> atom_margin (cm_atoms m ! sb_atom b) (map (demo_signal 5) (cm_signals m)) < 0"
proof -
  obtain m where m: "compile_spec (\<lambda>_. ''h'') 1 (demo_contract []) = Inr m"
    using demo_core[of "[]"] by metis
  have "\<not> scalar_enforced (demo_signal 5) demo_charge" "demo_charge \<in> set (ss_constraints (demo_contract []))"
    by (simp_all add: scalar_enforced_def demo_charge_def blank_constraint_def demo_signal_def demo_contract_def)
  then show ?thesis
    using compiled_bounds_mean_contract[OF m, of "demo_signal 5"] m by (meson not_less)
qed

text \<open>
  C14: The compiled monitor of a temporal clause refines its robust semantics with bounded memory: after
  any history, the margin that the monitor reports is the robustness of the reviewed formula over the
  whole history, and it only depends on as many past ticks as the compiler reserved.
\<close>

theorem monitor_refines_formula:
  assumes "compile_spec H period spec = Inr m" "c \<in> set (ss_constraints spec)" "sc_kind c = TEMPORAL"
  shows "\<exists>a f. a \<in> set (cm_monitors m) \<and> ma_constraint a = sc_id c \<and> sc_temporal c = Some f
    \<and> (\<forall>sig t. mv_robustness (fst (monitor_step (model_pred m sig t) horizon
          (monitor_after (model_pred m sig) horizon (monitor_new a) t))) = formula_semantics period sig f t)
    \<and> (\<forall>sig sig' t. (\<forall>k. k \<le> ma_history a \<and> k \<le> t \<longrightarrow> sig (t - k) = sig' (t - k)) \<longrightarrow>
          formula_semantics period sig f t = formula_semantics period sig' f t)"
proof -
  obtain a f where a: "a \<in> set (cm_monitors m)" "sc_temporal c = Some f" "ma_constraint a = sc_id c"
    "node_valid (ma_root a)" "ma_history a = history_window (ma_root a)"
    "\<And>sig t. node_semantics (model_pred m sig) (ma_root a) t = formula_semantics period sig f t"
    using compiled_monitor[OF assms] by blast
  have pred: "sig u = sig' u \<Longrightarrow> model_pred m sig u = model_pred m sig' u" for sig sig' u
    by (rule ext) (simp add: model_pred_def)
  have "formula_semantics period sig f t = formula_semantics period sig' f t"
    if "\<forall>k. k \<le> ma_history a \<and> k \<le> t \<longrightarrow> sig (t - k) = sig' (t - k)" for sig sig' t
  proof -
    have "node_semantics (model_pred m sig) (ma_root a) t = node_semantics (model_pred m sig') (ma_root a) t"
      using that by (intro history_window_enough[OF a(4)] pred) (simp add: a(5))
    then show ?thesis
      by (simp add: a(6))
  qed
  then show ?thesis
    using a monitor_robustness[OF a(4)] by metis
qed

theorem monitor_refines_formula_witness:
  "\<exists>m a. compile_spec (\<lambda>_. ''h'') 1 (demo_contract [demo_temporal]) = Inr m \<and> a \<in> set (cm_monitors m)
    \<and> mv_robustness (fst (monitor_step (model_pred m (\<lambda>_. demo_signal 15) 0) 5
          (monitor_after (model_pred m (\<lambda>_. demo_signal 15)) 5 (monitor_new a) 0))) = Fin (- 5)"
proof -
  obtain m where m: "compile_spec (\<lambda>_. ''h'') 1 (demo_contract [demo_temporal]) = Inr m"
    using demo_core[of "[demo_temporal]"] by metis
  have c: "demo_temporal \<in> set (ss_constraints (demo_contract [demo_temporal]))" "sc_kind demo_temporal = TEMPORAL"
    by (simp_all add: demo_parts demo_ids)
  have "formula_semantics 1 (\<lambda>_. demo_signal 15) demo_formula 0 = Fin (- 5)"
    by (simp add: demo_formula_def op_semantics_def past_window_def samples_def demo_signal_def least_of_def)
  moreover obtain a f where "a \<in> set (cm_monitors m)" "sc_temporal demo_temporal = Some f"
    "mv_robustness (fst (monitor_step (model_pred m (\<lambda>_. demo_signal 15) 0) 5
      (monitor_after (model_pred m (\<lambda>_. demo_signal 15)) 5 (monitor_new a) 0)))
      = formula_semantics 1 (\<lambda>_. demo_signal 15) f 0"
    using monitor_refines_formula[OF m c, of 5] by blast
  ultimately show ?thesis
    using m demo_payloads(2) by auto
qed

section \<open>Where the core surprises\<close>

text \<open>
  C39: A delayed clause trips the core although its margin never moves. The window of an \<^verbatim>\<open>always\<close> with
  a positive lower delay is empty until that delay has passed, so its robustness drops from infinity
  to the first margin it sees; the predictor reads the drop as a violation that is zero ticks away.
  Whatever the horizon, a constant non-negative margin fires the monitor without being violated.
\<close>

theorem delayed_always_fires_spuriously:
  assumes "ma_root a = CompiledNode OP_ALWAYS None (Some lo) (Some hi) [CompiledNode OP_PREDICATE (Some i) None None []]"
    and "0 < lo" "lo \<le> hi" "0 \<le> r" "\<And>t. pred t i = Fin r"
  shows "let v = fst (monitor_step (pred lo) horizon (monitor_after pred horizon (monitor_new a) lo))
    in mv_robustness v = Fin r \<and> \<not> mv_violated v \<and> mv_predicted v \<and> monitor_fired v"
proof -
  define v where "v = fst (monitor_step (pred lo) horizon (monitor_after pred horizon (monitor_new a) lo))"
  have valid: "node_valid (ma_root a)"
    using assms(1,3) by (simp add: interval_required_def)
  obtain t where lo: "lo = Suc t"
    using assms(2) by (cases lo) auto
  have none: "past_window lo hi t = []"
    by (auto simp: past_window_def lo filter_empty_conv)
  have one: "past_window lo hi lo = [lo]"
    using assms(3) by (simp add: past_window_def upt_conv_Cons filter_empty_conv)
  have sem: "node_semantics pred (ma_root a) t = PInf" "node_semantics pred (ma_root a) (Suc t) = Fin r"
    using none one by (simp_all add: assms(1,5) op_semantics_def or_zero_def least_of_def lo)
  have rob: "mv_robustness v = Fin r"
    using monitor_robustness[OF valid, of pred lo horizon] sem(2) by (simp add: v_def lo)
  have "mv_samples v = Some 0"
    using monitor_prediction[OF valid, of pred t horizon] sem assms(4) by (simp add: v_def lo)
  then have "mv_predicted v"
    by (auto simp: v_def monitor_step_def Let_def split: option.splits)
  moreover have "\<not> mv_violated v"
    using rob assms(4) by (simp add: v_def monitor_step_def Let_def)
  ultimately show ?thesis
    using rob by (simp add: monitor_fired_def flip: v_def)
qed

definition demo_delayed :: monitor_automaton where
  "demo_delayed = \<lparr>ma_constraint = ''d'', ma_on_uncertain = FALLBACK,
     ma_root = CompiledNode OP_ALWAYS None (Some 2) (Some 3) [CompiledNode OP_PREDICATE (Some 0) None None []],
     ma_history = 3, ma_nodes = 2, ma_predicates = [0]\<rparr>"

theorem delayed_always_fires_spuriously_witness:
  "monitor_fired (fst (monitor_step (\<lambda>_. Fin 100) 0
    (monitor_after (\<lambda>_ _. Fin 100) 0 (monitor_new demo_delayed) 2)))"
  using delayed_always_fires_spuriously[of demo_delayed 2 3 0 100 "\<lambda>_ _. Fin 100" 0]
  by (simp add: demo_delayed_def Let_def)

text \<open>
  Braking is not monotone at every sample period. Applied for one period of length \<open>dt\<close> to one axis
  of a point mass, the backup deceleration never increases the speed when \<open>k dt\<close> is at most two; when
  it is larger and the ceiling does not bind, the speed strictly grows, by the factor \<open>k dt - 1\<close>.
\<close>

theorem brake_slows_for_short_periods:
  assumes "0 < dt" "0 < k" "0 \<le> u"
  shows "(k * dt \<le> 2 \<longrightarrow> \<bar>v + brake_axis v k u * dt\<bar> \<le> \<bar>v\<bar>)
    \<and> (2 < k * dt \<and> \<bar>k * v\<bar> \<le> u \<and> v \<noteq> 0 \<longrightarrow>
        \<bar>v + brake_axis v k u * dt\<bar> = (k * dt - 1) * \<bar>v\<bar> \<and> \<bar>v\<bar> < \<bar>v + brake_axis v k u * dt\<bar>)"
proof -
  let ?x = "brake_axis v k u"
  have eq: "v + - k * v * dt = (1 - k * dt) * v"
    by (simp add: algebra_simps)
  have free: "?x = - k * v" if "\<bar>k * v\<bar> \<le> u"
    using that by (auto simp: brake_axis_def clamp_def)
  have "\<bar>v + ?x * dt\<bar> \<le> \<bar>v\<bar>" if "k * dt \<le> 2"
  proof -
    have mag: "\<bar>?x\<bar> \<le> \<bar>k * v\<bar>"
      using assms(3) by (auto simp: brake_axis_def clamp_def)
    have opp: "v * ?x \<le> 0"
      using brake_bounds(2)[of u k v] assms by simp
    have "\<bar>?x * dt\<bar> \<le> \<bar>k * v\<bar> * dt"
      using mag assms(1) by (simp add: abs_mult mult_right_mono)
    also have "\<dots> = k * dt * \<bar>v\<bar>"
      using assms(2) by (simp add: abs_mult)
    also have "\<dots> \<le> 2 * \<bar>v\<bar>"
      using that by (intro mult_right_mono) simp_all
    finally have "\<bar>?x * dt\<bar> \<le> 2 * \<bar>v\<bar>" .
    moreover have "v * (?x * dt) \<le> 0"
      using opp assms(1) by (metis mult.assoc mult_nonpos_nonneg less_imp_le)
    ultimately show ?thesis
      by (cases "0 \<le> v"; cases "0 \<le> ?x * dt") (auto simp: mult_le_0_iff)
  qed
  moreover have "\<bar>v + ?x * dt\<bar> = (k * dt - 1) * \<bar>v\<bar> \<and> \<bar>v\<bar> < \<bar>v + ?x * dt\<bar>"
    if "2 < k * dt" "\<bar>k * v\<bar> \<le> u" "v \<noteq> 0"
  proof -
    have "\<bar>v + ?x * dt\<bar> = (k * dt - 1) * \<bar>v\<bar>"
      unfolding free[OF that(2)] eq using that(1) by (simp add: abs_mult)
    moreover have "1 * \<bar>v\<bar> < (k * dt - 1) * \<bar>v\<bar>"
      using that(1,3) by (intro mult_strict_right_mono) simp_all
    ultimately show ?thesis
      by simp
  qed
  ultimately show ?thesis
    by blast
qed

theorem brake_slows_for_short_periods_witness:
  "\<bar>1 + brake_axis 1 4 20 * 1\<bar> = 3 * \<bar>1\<bar>"
  using brake_slows_for_short_periods[of 1 4 20 1] by simp

text \<open>
  The decoder trusts the predicate of a monitor node. A model whose formula reads a predicate beyond
  the table passes every fail-closed check, as only the redundant list beside the formula is checked.
\<close>

definition dangling_model :: compiled_model where
  "dangling_model = \<lparr>cm_spec_id = ''s'', cm_spec_hash = ''h'', cm_period = 1, cm_signals = [''e''],
     cm_atoms = [\<lparr>atom_op = OP_GE, atom_signal = 0, atom_threshold = 1\<rparr>], cm_scalar_bounds = [], cm_keep_outs = [],
     cm_monitors = [\<lparr>ma_constraint = ''m'', ma_on_uncertain = FALLBACK,
       ma_root = CompiledNode OP_PREDICATE (Some 7) None None [], ma_history = 0, ma_nodes = 1, ma_predicates = [0]\<rparr>],
     cm_resources = \<lparr>rb_predicates = 1, rb_scalars = 0, rb_keep_outs = 0, rb_monitors = 1, rb_history = 0, rb_terms = 2\<rparr>,
     cm_limits = \<lparr>lim_velocity = None, lim_accel = None\<rparr>, cm_safe_pose = None, cm_directives = None\<rparr>"

theorem decoder_accepts_dangling_predicate:
  "decode_model cap (to_wire dangling_model) = Inr (dangling_model, None)
    \<and> n_predicate (ma_root (cm_monitors dangling_model ! 0)) = Some 7 \<and> length (cm_atoms dangling_model) = 1"
  by (simp add: dangling_model_def to_wire_def decode_model_def decode_atom_def decode_monitor_def check_atom_def
      decode_pose_def decode_limits_def check_limit_def decode_directives_def)

end
