(* ===== verification/Guard_Wrap.thy ===== *)
theory Guard_Wrap
  imports Guard_Contract
begin

text \<open>
  The Python side of the guard: marshalling between Core messages and the trusted core
  (\<^verbatim>\<open>guard/wrap/shield.py\<close>, \<^verbatim>\<open>rust/src/py.rs\<close>), the signal resolvers
  (\<^verbatim>\<open>guard/models/resolver.py\<close>), the verdict record and its sinks (\<^verbatim>\<open>guard/audit\<close>), and the
  policy shield itself. A float that is not finite is \<open>None\<close>; the compiled wire form carries the
  model unchanged. The state of a shield has one core per agent; whether an armed watchdog
  overran and how long a step took come from a clock, indexed by the number of steps made.
\<close>

section \<open>Configuration\<close>

text \<open>\<^verbatim>\<open>MODELLED_CONTROL_MODES\<close> and \<^verbatim>\<open>_UNIT_OF\<close>.\<close>

primrec modelled_mode :: "ControlMode \<Rightarrow> control_channel option" where
  "modelled_mode EFFORT = Some Effort"
| "modelled_mode VELOCITY = Some Velocity"
| "modelled_mode POSITION = Some Position"
| "modelled_mode IMPEDANCE = None"
| "modelled_mode TRAJECTORY = None"

primrec mode_of_channel :: "control_channel \<Rightarrow> ControlMode" where
  "mode_of_channel Effort = EFFORT"
| "mode_of_channel Velocity = VELOCITY"
| "mode_of_channel Position = POSITION"

primrec unit_of :: "control_channel \<Rightarrow> string" where
  "unit_of Effort = ''m/s^2''"
| "unit_of Velocity = ''m/s''"
| "unit_of Position = ''m''"

lemma modelled_mode_of_channel [simp]: "modelled_mode (mode_of_channel ch) = Some ch"
  by (cases ch) simp_all

lemma modelled_mode_inj: "modelled_mode m = Some ch \<Longrightarrow> m = mode_of_channel ch"
  by (cases m) auto

record wrap_action_policy =
  wp_modes :: "string list"
  wp_tasks :: "string list"
  wp_fallback_mode :: ControlMode
  wp_target :: string

record wrap_config =
  wc_u_max :: real
  wc_v_max :: real
  wc_k0 :: real
  wc_k1 :: real
  wc_k_brake :: real
  wc_horizon :: nat
  wc_deadline :: "nat option"
  wc_history_cap :: nat
  wc_policy :: wrap_action_policy

definition default_action_policy :: wrap_action_policy where
  "default_action_policy = \<lparr>wp_modes = [], wp_tasks = [], wp_fallback_mode = EFFORT, wp_target = ''body''\<rparr>"

definition default_wrap_config :: wrap_config where
  "default_wrap_config = \<lparr>wc_u_max = 20, wc_v_max = 2, wc_k0 = 9, wc_k1 = 6, wc_k_brake = 4, wc_horizon = 5,
     wc_deadline = None, wc_history_cap = 1048576, wc_policy = default_action_policy\<rparr>"

datatype wrap_error = CoreIncompatible compat_error | FallbackModeUnmodelled ControlMode | WireRejected core_error

text \<open>\<^verbatim>\<open>ActionPolicy.__post_init__\<close> returns the channel that the core is configured with.\<close>

definition action_policy_channel :: "wrap_action_policy \<Rightarrow> wrap_error + control_channel" where
  "action_policy_channel ap =
    (case modelled_mode (wp_fallback_mode ap) of
       None \<Rightarrow> Inl (FallbackModeUnmodelled (wp_fallback_mode ap))
     | Some ch \<Rightarrow> Inr ch)"

text \<open>
  \<^verbatim>\<open>CoreConfig.build\<close> and \<^verbatim>\<open>PySafetyCore::from_wire\<close>: the sorted allowlists, the shield's default
  tolerance and iteration budget, and the decoder of the core.
\<close>

definition core_config_of :: "wrap_config \<Rightarrow> control_channel \<Rightarrow> core_config" where
  "core_config_of wc ch =
    \<lparr>cc_horizon = wc_horizon wc,
     cc_shield = \<lparr>cfg_k0 = wc_k0 wc, cfg_k1 = wc_k1 wc, cfg_u_max = wc_u_max wc, cfg_v_max = wc_v_max wc,
       cfg_tol = 1 / 10 ^ 7, cfg_max_iter = 512\<rparr>,
     cc_k_brake = wc_k_brake wc, cc_history_cap = wc_history_cap wc, cc_unchanged_tol = 1 / 10 ^ 6,
     cc_policy = \<lparr>ap_modes = sort (remdups (wp_modes (wc_policy wc))), ap_tasks = sort (remdups (wp_tasks (wc_policy wc))),
       ap_fallback = ch\<rparr>\<rparr>"

definition build_core :: "wrap_config \<Rightarrow> compiled_model \<Rightarrow> wrap_error + safety_core" where
  "build_core wc m =
    rbind (action_policy_channel (wc_policy wc)) (\<lambda>ch.
    rerr WireRejected (core_from_model (core_config_of wc ch) m))"

section \<open>Signals\<close>

type_synonym resolver = "string list \<Rightarrow> observation option \<Rightarrow> real option list"

definition state_scalar :: "state_sample \<Rightarrow> string \<Rightarrow> real option" where
  "state_scalar s key =
    (if key = ''battery_soc_j'' then Option.bind (sample_battery s) (\<lambda>x. x)
     else if key = ''temperature_k'' then Option.bind (sample_temperature s) (\<lambda>x. x)
     else None)"

text \<open>The reading that the dictionary \<^verbatim>\<open>{r.sensor: r}\<close> holds under a name is the last one.\<close>

definition reading_of :: "sensor_sample list \<Rightarrow> string \<Rightarrow> sensor_sample option" where
  "reading_of rs key = List.find (\<lambda>r. sensor_name r = key) (rev rs)"

definition default_resolve_one :: "observation \<Rightarrow> string \<Rightarrow> real option" where
  "default_resolve_one ob key =
    (case reading_of (obs_sensors ob) key of
       Some r \<Rightarrow> (case sensor_values r of x # _ \<Rightarrow> x | [] \<Rightarrow> state_scalar (obs_state ob) key)
     | None \<Rightarrow> state_scalar (obs_state ob) key)"

definition default_resolver :: resolver where
  "default_resolver keys ob =
    (case ob of None \<Rightarrow> replicate (length keys) None | Some x \<Rightarrow> map (default_resolve_one x) keys)"

definition mapping_resolver :: "(string, real option) dict \<Rightarrow> resolver" where
  "mapping_resolver values keys ob = map (\<lambda>k. case dict_get values k of None \<Rightarrow> None | Some x \<Rightarrow> x) keys"

datatype WorldsSignalKind = CHARGING_WINDOW | SLOPE_DEG | SURFACE_TEMPERATURE_K

text \<open>
  \<^verbatim>\<open>WorldsFleetSignalResolver\<close>. The terrain is a parameter: what it answers at a position, or
  \<open>Inl\<close> an exception, which is caught.
\<close>

record 'e fleet_resolver =
  fr_terrain :: "(WorldsSignalKind \<Rightarrow> float3 \<Rightarrow> 'e + real option) option"
  fr_worlds :: "(string, WorldsSignalKind) dict"
  fr_sadf :: "(string, real option) dict"

definition resolve_one :: "'e fleet_resolver \<Rightarrow> string \<Rightarrow> observation option \<Rightarrow> real option" where
  "resolve_one fr key ob =
    (case dict_get (fr_worlds fr) key of
       Some kind \<Rightarrow>
         (case (fr_terrain fr, ob) of
            (Some terrain, Some x) \<Rightarrow>
              (case terrain kind (sample_position (obs_state x)) of Inr y \<Rightarrow> y | Inl e \<Rightarrow> None)
          | _ \<Rightarrow> None)
     | None \<Rightarrow>
         (case dict_get (fr_sadf fr) key of
            Some y \<Rightarrow> y
          | None \<Rightarrow> default_resolver [key] ob ! 0))"

definition fleet_resolver_resolve :: "'e fleet_resolver \<Rightarrow> resolver" where
  "fleet_resolver_resolve fr keys ob = map (\<lambda>k. resolve_one fr k ob) keys"

definition fit_signals :: "real option list \<Rightarrow> nat \<Rightarrow> real option list" where
  "fit_signals xs n = take n xs @ replicate (n - length xs) None"

lemma fit_signals_length [simp]: "length (fit_signals xs n) = n"
  by (simp add: fit_signals_def)

section \<open>The action codec\<close>

definition fit :: "real option list \<Rightarrow> nat \<Rightarrow> real option list" where
  "fit xs n = take n (xs @ replicate n (Some 0))"

definition float3_list :: "float3 \<Rightarrow> real option list" where
  "float3_list v = (case v of (x, y, z) \<Rightarrow> [x, y, z])"

definition read_position :: "observation option \<Rightarrow> nat \<Rightarrow> real option list" where
  "read_position ob n =
    (case ob of None \<Rightarrow> replicate n (Some 0) | Some x \<Rightarrow> fit (float3_list (sample_position (obs_state x))) n)"

definition read_velocity :: "observation option \<Rightarrow> nat \<Rightarrow> real option list" where
  "read_velocity ob n =
    (case Option.bind ob (\<lambda>x. sample_velocity (obs_state x)) of
       None \<Rightarrow> replicate n (Some 0)
     | Some v \<Rightarrow> fit (float3_list v) n)"

primrec channel_command :: "control_channel \<Rightarrow> real option list \<Rightarrow> proposed" where
  "channel_command Effort x = EffortCmd x"
| "channel_command Velocity x = VelocityCmd x"
| "channel_command Position x = PositionCmd x"

text \<open>
  \<^verbatim>\<open>ActionCodec.classify\<close> and the dispatch on its token in \<^verbatim>\<open>PySafetyCore::step\<close>: an action that no
  plant model covers is opaque.
\<close>

definition classify :: "action \<Rightarrow> nat \<Rightarrow> proposed" where
  "classify a n =
    (case (action_kind a, action_actuator a, action_mode a, action_task a) of
       (ACTUATOR_ACTION, Some c, _, _) \<Rightarrow>
         (case modelled_mode (act_mode c) of
            None \<Rightarrow> OpaqueCmd
          | Some ch \<Rightarrow>
              if n = 0 \<or> length (act_setpoint c) \<noteq> n then OpaqueCmd else channel_command ch (act_setpoint c))
     | (MODE_ACTION, _, Some m, _) \<Rightarrow> ModeCmd (mode_name m)
     | (TASK_ACTION, _, _, Some t) \<Rightarrow> TaskCmd (task_value (task_kind t))
     | _ \<Rightarrow> OpaqueCmd)"

definition write_certified_action :: "action \<Rightarrow> real option list \<Rightarrow> action" where
  "write_certified_action a cert =
    a\<lparr>action_actuator := map_option (\<lambda>c. c\<lparr>act_setpoint := cert\<rparr>) (action_actuator a)\<rparr>"

definition write_safe_action :: "action \<Rightarrow> real option list \<Rightarrow> control_channel \<Rightarrow> string \<Rightarrow> action" where
  "write_safe_action a cert ch target =
    \<lparr>action_agent = action_agent a, action_kind = ACTUATOR_ACTION,
     action_actuator = Some
       \<lparr>act_target = (case action_actuator a of Some c \<Rightarrow> act_target c | None \<Rightarrow> target),
        act_mode = mode_of_channel ch, act_setpoint = cert, act_unit = Some (unit_of ch),
        act_feedforward = [], act_other = JNull\<rparr>,
     action_mode = None, action_task = None, action_time = None\<rparr>"

text \<open>\<^verbatim>\<open>_emit_action\<close>: the core's intervention routes what is emitted.\<close>

definition emit_action :: "string \<Rightarrow> action \<Rightarrow> safety_verdict \<Rightarrow> action" where
  "emit_action target a v =
    (if vd_intervention v = Fallback then write_safe_action a (vd_action v) (vd_mode v) target
     else if vd_action v = [] then a
     else write_certified_action a (vd_action v))"

section \<open>Verdict records\<close>

text \<open>
  \<^verbatim>\<open>SafetyVerdict\<close> without the identities of the contract and the compiled model, which are the
  same in every record of a shield; \<open>av_inputs\<close> is what its input hash is computed from.
\<close>

record audit_verdict =
  av_agent :: agent_id
  av_tick :: int
  av_time :: rat
  av_layer :: core_layer
  av_intervention :: intervention
  av_reason :: core_reason
  av_backup :: "backup_kind option"
  av_constraints :: "string list"
  av_action :: "real option list"
  av_margin :: robustness
  av_divergence :: "real option"
  av_inputs :: "real option list \<times> real option list \<times> real option list \<times> real option list"
  av_latency :: real

text \<open>
  Doubles overflow. A difference that rounds to an infinity stays one under \<^verbatim>\<open>** 2\<close>, and so does a sum;
  the square of a finite difference that overflows raises \<^verbatim>\<open>OverflowError\<close>. A distance that is not finite
  is \<open>None\<close>.
\<close>

definition f64_overflow :: "real \<Rightarrow> bool" where
  "f64_overflow x = (2 ^ 1024 - 2 ^ 970 \<le> \<bar>x\<bar>)"

definition square_diff :: "real option \<Rightarrow> real option \<Rightarrow> fault + real option" where
  "square_diff x y =
    (case (x, y) of
       (Some p, Some q) \<Rightarrow>
         if f64_overflow (p - q) then Inr None
         else if f64_overflow ((p - q) ^ 2) then Inl (PluginFault ''OverflowError'')
         else Inr (Some ((p - q) ^ 2))
     | _ \<Rightarrow> Inr None)"

definition l2_distance :: "real option list \<Rightarrow> real option list \<Rightarrow> fault + real option" where
  "l2_distance a b =
    rbind (rmap (\<lambda>(x, y). square_diff x y) (zip a b)) (\<lambda>ds.
      Inr (if None \<in> set ds \<or> f64_overflow (sum_list (map the ds)) then None
           else Some (sqrt (sum_list (map the ds)))))"

section \<open>The policy shield\<close>

text \<open>
  \<^verbatim>\<open>PolicyShield\<close>: \<open>su_core\<close> is the fresh core that \<^verbatim>\<open>_core_for\<close> builds for an agent it has not seen,
  \<open>su_sink\<close> is what writing a record does to the sink, which may raise, and \<open>su_lenient\<close> whether the
  validation library lets a divergence that is not a finite number pass the bound \<^verbatim>\<open>ge=0\<close>.
\<close>

record 's shield_setup =
  su_core :: safety_core
  su_policy :: wrap_action_policy
  su_resolver :: resolver
  su_watchdog :: bool
  su_overran :: "nat \<Rightarrow> bool"
  su_latency :: "nat \<Rightarrow> real"
  su_sink :: "(audit_verdict \<Rightarrow> ('s, fault, unit) st) option"
  su_lenient :: "audit_verdict \<Rightarrow> bool"

record 's shield_state =
  gs_cores :: "(agent_id, safety_core) dict"
  gs_index :: int
  gs_steps :: nat
  gs_sink :: 's

definition shield_core_interfaces :: "(string, string) dict" where
  "shield_core_interfaces = [(''policy'', ''0.1.0''), (''messages'', ''0.1.0'')]"

definition policy_shield :: "(string, string) dict option \<Rightarrow> wrap_config \<Rightarrow> compiled_model \<Rightarrow> resolver option
    \<Rightarrow> bool \<Rightarrow> (nat \<Rightarrow> bool) \<Rightarrow> (nat \<Rightarrow> real) \<Rightarrow> (audit_verdict \<Rightarrow> ('s, fault, unit) st) option
    \<Rightarrow> (audit_verdict \<Rightarrow> bool) \<Rightarrow> wrap_error + 's shield_setup" where
  "policy_shield provided wc m res watchdog slow latency sink lenient =
    rbind (rerr CoreIncompatible (assert_core_compatible shield_core_interfaces provided)) (\<lambda>_.
    rbind (build_core wc m) (\<lambda>core.
    Inr \<lparr>su_core = core, su_policy = wc_policy wc,
         su_resolver = (case res of None \<Rightarrow> default_resolver | Some r \<Rightarrow> r),
         su_watchdog = watchdog, su_overran = (\<lambda>n. wc_deadline wc \<noteq> None \<and> slow n), su_latency = latency,
         su_sink = sink, su_lenient = lenient\<rparr>))"

definition shield_start :: "'s \<Rightarrow> 's shield_state" where
  "shield_start s = \<lparr>gs_cores = [], gs_index = 0, gs_steps = 0, gs_sink = s\<rparr>"

definition core_for :: "'s shield_setup \<Rightarrow> 's shield_state \<Rightarrow> agent_id \<Rightarrow> safety_core" where
  "core_for su gs a = (case dict_get (gs_cores gs) a of None \<Rightarrow> su_core su | Some c \<Rightarrow> c)"

definition shield_signals :: "'s shield_setup \<Rightarrow> observation option \<Rightarrow> real option list" where
  "shield_signals su ob =
    (let keys = cm_signals (core_model (su_core su)) in fit_signals (su_resolver su keys ob) (length keys))"

definition core_input :: "'s shield_setup \<Rightarrow> observation option \<Rightarrow> action \<Rightarrow> safety_input" where
  "core_input su ob a =
    (let n = core_dim (su_core su)
     in \<lparr>in_signals = shield_signals su ob, in_position = read_position ob n, in_velocity = read_velocity ob n,
         in_proposed = classify a n\<rparr>)"

definition core_tick :: "'s shield_setup \<Rightarrow> nat \<Rightarrow> safety_core \<Rightarrow> safety_input \<Rightarrow> safety_verdict \<times> safety_core" where
  "core_tick su n core inp =
    (if su_watchdog su then core_step_guarded core inp (su_overran su n) else core_decide core inp False)"

text \<open>
  The record that \<^verbatim>\<open>_emit\<close> constructs: computing the divergence may overflow, and the verdict model
  rejects a negative tick, latency or divergence.
\<close>

definition record_valid :: "'s shield_setup \<Rightarrow> audit_verdict \<Rightarrow> bool" where
  "record_valid su r =
    (0 \<le> av_tick r \<and> (case av_divergence r of None \<Rightarrow> su_lenient su r | Some d \<Rightarrow> 0 \<le> d) \<and> 0 \<le> av_latency r)"

definition verdict_record :: "'s shield_setup \<Rightarrow> 's shield_state \<Rightarrow> action \<Rightarrow> observation option \<Rightarrow> decision_context
    \<Rightarrow> safety_input \<Rightarrow> safety_verdict \<Rightarrow> fault + audit_verdict" where
  "verdict_record su gs a ob ctx inp v =
    rbind (l2_distance (vd_action v) (proposed_setpoint (in_proposed inp))) (\<lambda>divergence.
      let r = \<lparr>av_agent = action_agent a, av_tick = (case ob of None \<Rightarrow> gs_index gs | Some x \<Rightarrow> obs_tick x),
           av_time = (case ob of None \<Rightarrow> ctx_time ctx | Some x \<Rightarrow> obs_time x),
           av_layer = vd_layer v, av_intervention = vd_intervention v, av_reason = vd_reason v, av_backup = vd_backup v,
           av_constraints = vd_fired v, av_action = vd_action v, av_margin = vd_margin v, av_divergence = divergence,
           av_inputs = (in_signals inp, in_position inp, in_velocity inp, proposed_setpoint (in_proposed inp)),
           av_latency = su_latency su (gs_steps gs)\<rparr>
      in if record_valid su r then Inr r else Inl (PluginFault ''ValidationError''))"

text \<open>
  \<^verbatim>\<open>_emit\<close>: without a sink nothing happens; otherwise the record is constructed and written in a \<^verbatim>\<open>try\<close>,
  and whatever exception that raises is logged and dropped. What the sink changed before it raised stays
  changed.
\<close>

definition emit_record :: "'s shield_setup \<Rightarrow> 's shield_state \<Rightarrow> action \<Rightarrow> observation option \<Rightarrow> decision_context
    \<Rightarrow> safety_input \<Rightarrow> safety_verdict \<Rightarrow> ('s, fault, unit) st" where
  "emit_record su gs a ob ctx inp v =
    (case su_sink su of
       None \<Rightarrow> sret ()
     | Some write \<Rightarrow> scatch (sbind (slift (verdict_record su gs a ob ctx inp v)) write) (\<lambda>e. sret ()))"

definition certify_action :: "'s shield_setup \<Rightarrow> observations \<Rightarrow> decision_context \<Rightarrow> action
    \<Rightarrow> ('s shield_state, fault, action) st" where
  "certify_action su obs ctx a gs =
    (let ob = dict_get obs (action_agent a); inp = core_input su ob a
     in case core_tick su (gs_steps gs) (core_for su gs (action_agent a)) inp of (v, core') \<Rightarrow>
       (case emit_record su gs a ob ctx inp v (gs_sink gs) of (r, s) \<Rightarrow>
          (rbind r (\<lambda>_. Inr (emit_action (wp_target (su_policy su)) a v)),
           gs\<lparr>gs_cores := dict_set (gs_cores gs) (action_agent a) core', gs_steps := Suc (gs_steps gs), gs_sink := s\<rparr>)))"

definition certify_all :: "'s shield_setup \<Rightarrow> observations \<Rightarrow> decision_context \<Rightarrow> action list
    \<Rightarrow> ('s shield_state, fault, action list) st" where
  "certify_all su obs ctx = smap (certify_action su obs ctx)"

definition shield_batch :: "'s shield_setup \<Rightarrow> observations \<Rightarrow> decision_context \<Rightarrow> action list
    \<Rightarrow> ('s shield_state, fault, action list) st" where
  "shield_batch su obs ctx proposed =
    sbind (certify_all su obs ctx proposed) (\<lambda>bs.
    sbind (smodify (\<lambda>gs. gs\<lparr>gs_index := gs_index gs + 1\<rparr>)) (\<lambda>_. sret bs))"

text \<open>\<^verbatim>\<open>PolicyShield.decide\<close> over a wrapped policy; an exception of the wrapped policy escapes.\<close>

definition shield_decide :: "'s shield_setup \<Rightarrow> 'w policy \<Rightarrow> ('s shield_state \<times> 'w) policy" where
  "shield_decide su wrapped obs ctx =
    sbind (\<lambda>(gs, w). case wrapped obs ctx w of (r, w') \<Rightarrow> (r, (gs, w'))) (\<lambda>proposed (gs, w).
      case shield_batch su obs ctx proposed gs of (r, gs') \<Rightarrow> (r, (gs', w)))"

text \<open>The \<^verbatim>\<open>try\<close> of \<^verbatim>\<open>_emit\<close> lets nothing through, so a batch is always answered.\<close>

lemma emit_record_quiet: "\<exists>s'. emit_record su gs a ob ctx inp v s = (Inr (), s')"
  by (auto simp: emit_record_def scatch_def sret_def split: option.splits prod.splits sum.splits)

lemma certify_action_answers:
  obtains v core' s where
    "core_tick su (gs_steps gs) (core_for su gs (action_agent a)) (core_input su (dict_get obs (action_agent a)) a) = (v, core')"
    "emit_record su gs a (dict_get obs (action_agent a)) ctx (core_input su (dict_get obs (action_agent a)) a) v (gs_sink gs)
      = (Inr (), s)"
    "certify_action su obs ctx a gs = (Inr (emit_action (wp_target (su_policy su)) a v),
      gs\<lparr>gs_cores := dict_set (gs_cores gs) (action_agent a) core', gs_steps := Suc (gs_steps gs), gs_sink := s\<rparr>)"
proof -
  let ?ob = "dict_get obs (action_agent a)"
  obtain v core' where tick: "core_tick su (gs_steps gs) (core_for su gs (action_agent a)) (core_input su ?ob a) = (v, core')"
    by force
  obtain s where "emit_record su gs a ?ob ctx (core_input su ?ob a) v (gs_sink gs) = (Inr (), s)"
    using emit_record_quiet[of su gs a ?ob ctx "core_input su ?ob a" v "gs_sink gs"] by (elim exE)
  with tick show thesis
    by (intro that[of v core' s]) (simp_all add: certify_action_def Let_def)
qed

lemma certify_all_answers: "\<exists>bs gs'. certify_all su obs ctx as gs = (Inr bs, gs')"
proof (induction as arbitrary: gs)
  case (Cons a as)
  obtain b g where "certify_action su obs ctx a gs = (Inr b, g)"
    using certify_action_answers by metis
  moreover obtain bs gs' where "certify_all su obs ctx as g = (Inr bs, gs')"
    using Cons by blast
  ultimately show ?case
    by (simp add: certify_all_def sbind_def sret_def)
qed (simp add: certify_all_def sret_def)

lemma certify_all_Cons:
  assumes "certify_all su obs ctx (a # as) gs = (Inr bs, gs')"
  obtains b g bs1 where "certify_action su obs ctx a gs = (Inr b, g)" "certify_all su obs ctx as g = (Inr bs1, gs')"
    "bs = b # bs1"
  using assms by (auto simp: certify_all_def sbind_Inr sret_def)

lemma certify_all_Nil [simp]: "certify_all su obs ctx [] gs = (Inr [], gs)"
  by (simp add: certify_all_def sret_def)

lemma shield_batch_eq:
  "shield_batch su obs ctx as gs = (Inr bs, gs') \<longleftrightarrow>
    (\<exists>g. certify_all su obs ctx as gs = (Inr bs, g) \<and> gs' = g\<lparr>gs_index := gs_index g + 1\<rparr>)"
  by (auto simp: shield_batch_def sbind_Inr sret_def smodify_def)

lemma shield_batch_answers: "\<exists>bs gs'. shield_batch su obs ctx as gs = (Inr bs, gs')"
  using certify_all_answers[of su obs ctx as gs] by (auto simp: shield_batch_eq)

section \<open>What the core makes of an action\<close>

definition cores_ok :: "'s shield_setup \<Rightarrow> 's shield_state \<Rightarrow> bool" where
  "cores_ok su gs = (\<forall>(a, c) \<in> set (gs_cores gs). core_reaches (su_core su) c)"

lemma cores_ok_start [simp]: "cores_ok su (shield_start s)"
  by (simp add: cores_ok_def shield_start_def)

lemma core_for_reaches: "cores_ok su gs \<Longrightarrow> core_reaches (su_core su) (core_for su gs a)"
  by (auto simp: cores_ok_def core_for_def core_reaches.start dest: map_of_SomeD split: option.splits)

lemma dict_set_members: "x \<in> set (dict_set d k y) \<Longrightarrow> x \<in> set d \<or> x = (k, y)"
  by (induction d) (auto split: if_splits)

text \<open>A tick of the core is a decision of a core that the fresh one reaches.\<close>

lemma core_tick_decides:
  assumes "core_reaches c0 core" "core_tick su n core inp = (v, core')"
  shows "core_reaches c0 core' \<and> (\<exists>c1 wd c2. core_reaches c0 c1 \<and> core_decide c1 inp wd = (v, c2))"
proof (cases "su_watchdog su \<and> su_overran su n")
  case True
  then obtain c1 w where c1: "core_decide core inp False = (w, c1)" "emit_watchdog c1 inp = (v, core')"
    using assms(2) by (auto simp: core_tick_def core_step_guarded_def split: prod.splits)
  then have "core_reaches c0 c1" "core_decide c1 inp True = (v, core')"
    using core_reaches.decide[OF assms(1) c1(1)] by (simp_all add: core_decide_def)
  then show ?thesis
    by (blast intro: core_reaches.decide)
next
  case False
  then have "core_decide core inp False = (v, core')"
    using assms(2) by (auto simp: core_tick_def core_step_guarded_def split: prod.splits if_splits)
  then show ?thesis
    using assms(1) by (blast intro: core_reaches.decide)
qed

lemma certify_action_parts:
  assumes "certify_action su obs ctx a gs = (Inr b, gs')" "cores_ok su gs"
  shows "cores_ok su gs' \<and> (\<exists>v c1 wd c2. b = emit_action (wp_target (su_policy su)) a v \<and> core_reaches (su_core su) c1
    \<and> core_decide c1 (core_input su (dict_get obs (action_agent a)) a) wd = (v, c2))"
proof -
  let ?inp = "core_input su (dict_get obs (action_agent a)) a"
  obtain v core' s where tick: "core_tick su (gs_steps gs) (core_for su gs (action_agent a)) ?inp = (v, core')"
    and eq: "certify_action su obs ctx a gs = (Inr (emit_action (wp_target (su_policy su)) a v),
      gs\<lparr>gs_cores := dict_set (gs_cores gs) (action_agent a) core', gs_steps := Suc (gs_steps gs), gs_sink := s\<rparr>)"
    by (rule certify_action_answers)
  note dec = core_tick_decides[OF core_for_reaches[OF assms(2)] tick]
  have "cores_ok su gs'"
    using assms dec eq by (auto simp: cores_ok_def dest!: dict_set_members)
  then show ?thesis
    using dec eq assms(1) by auto
qed

lemma certify_all_ok:
  assumes "cores_ok su gs" "certify_all su obs ctx as gs = (Inr bs, gs')"
    and "\<And>a b g g'. a \<in> set as \<Longrightarrow> cores_ok su g \<Longrightarrow> certify_action su obs ctx a g = (Inr b, g') \<Longrightarrow> P a b"
  shows "cores_ok su gs' \<and> list_all2 P as bs"
  using assms
proof (induction as arbitrary: gs bs)
  case (Cons a as)
  obtain b g1 bs1 where parts: "certify_action su obs ctx a gs = (Inr b, g1)"
    "certify_all su obs ctx as g1 = (Inr bs1, gs')" "bs = b # bs1"
    using certify_all_Cons[OF Cons.prems(2)] .
  moreover have "cores_ok su g1"
    using certify_action_parts[OF parts(1) Cons.prems(1)] by blast
  ultimately show ?case
    using Cons.IH[of g1 bs1] Cons.prems by simp
qed simp

text \<open>\<^verbatim>\<open>decide\<close> keeps the order of the batch and the agent of every action.\<close>

lemma emit_action_agent: "action_agent (emit_action target a v) = action_agent a"
  by (simp add: emit_action_def write_safe_action_def write_certified_action_def)

lemma shield_batch_ok:
  assumes "cores_ok su gs" "shield_batch su obs ctx as gs = (Inr bs, gs')"
    and "\<And>a b g g'. a \<in> set as \<Longrightarrow> cores_ok su g \<Longrightarrow> certify_action su obs ctx a g = (Inr b, g') \<Longrightarrow> P a b"
  shows "cores_ok su gs' \<and> list_all2 P as bs"
proof -
  obtain g1 where g1: "certify_all su obs ctx as gs = (Inr bs, g1)" "gs' = g1\<lparr>gs_index := gs_index g1 + 1\<rparr>"
    using assms(2) by (auto simp: shield_batch_eq)
  then show ?thesis
    using certify_all_ok[OF assms(1) g1(1), of P] assms(3) by (simp add: cores_ok_def)
qed

section \<open>What leaves the shield\<close>

lemma channel_command_simps [simp]:
  "proposed_channel (channel_command ch x) = Some ch" "proposed_setpoint (channel_command ch x) = x"
  "channel_command ch x \<noteq> ModeCmd nm" "channel_command ch x \<noteq> TaskCmd nm" "channel_command ch x \<noteq> OpaqueCmd"
  by (cases ch; simp)+

lemma classify_cases:
  obtains (command) c ch where "action_kind a = ACTUATOR_ACTION" "action_actuator a = Some c"
      "modelled_mode (act_mode c) = Some ch" "n \<noteq> 0" "length (act_setpoint c) = n"
      "classify a n = channel_command ch (act_setpoint c)"
  | (mode) m where "action_kind a = MODE_ACTION" "action_mode a = Some m" "classify a n = ModeCmd (mode_name m)"
  | (task) t where "action_kind a = TASK_ACTION" "action_task a = Some t"
      "classify a n = TaskCmd (task_value (task_kind t))"
  | (opaque) "classify a n = OpaqueCmd"
proof (cases "action_kind a")
  case ACTUATOR_ACTION
  then show thesis
    using command opaque by (fastforce simp: classify_def split: option.splits if_splits)
next
  case MODE_ACTION
  then show thesis
    using mode opaque by (cases "action_mode a") (simp_all add: classify_def split: option.splits)
next
  case TASK_ACTION
  then show thesis
    using task opaque by (cases "action_task a") (simp_all add: classify_def split: option.splits)
qed

end
