(* ===== verification/Guard_Stack.thy ===== *)
theory Guard_Stack
  imports Guard_Wrap Mind_Compose
begin

text \<open>
  The guard inside a stack: what can leave a policy shield, the audit stream and the report
  (\<^verbatim>\<open>guard/mind/plugin.py\<close>, \<^verbatim>\<open>guard/audit/metrics.py\<close>), and the shield as the egress of a composed
  stack that the executive of \<^verbatim>\<open>mind\<close> runs.
\<close>

section \<open>Guarded actions\<close>

text \<open>
  The actions that a contract and a configuration allow past the shield: a directive that both
  enumerate, or an actuator command in a channel that the core models, with one finite component per
  axis inside the tightened ceilings of its channel (a position is bounded against the pose of the
  tick and not here).
\<close>

definition axes :: "safety_spec \<Rightarrow> nat" where
  "axes spec = (if list_ex is_keep_out (ss_constraints spec) then 3 else 1)"

definition in_ceiling :: "safety_spec \<Rightarrow> wrap_config \<Rightarrow> control_channel \<Rightarrow> real list \<Rightarrow> bool" where
  "in_ceiling spec wc ch y =
    (case ch of
       Effort \<Rightarrow> list_all (\<lambda>u. \<bar>u\<bar> \<le> tighten (wc_u_max wc) (lim_accel (action_limits_of spec)) + 1 / 10 ^ 7) y
     | Velocity \<Rightarrow> vnorm y \<le> tighten (wc_v_max wc) (lim_velocity (action_limits_of spec)) + 1 / 10 ^ 7
     | Position \<Rightarrow> True)"

definition guarded_action :: "safety_spec \<Rightarrow> wrap_config \<Rightarrow> action \<Rightarrow> bool" where
  "guarded_action spec wc a =
    (case action_kind a of
       ACTUATOR_ACTION \<Rightarrow>
         (\<exists>c ch y. action_actuator a = Some c \<and> modelled_mode (act_mode c) = Some ch
           \<and> act_setpoint c = map Some y \<and> length y = axes spec \<and> in_ceiling spec wc ch y)
     | MODE_ACTION \<Rightarrow>
         (\<exists>m d. action_mode a = Some m \<and> ss_directives spec = Some d
           \<and> mode_name m \<in> set (ad_modes d) \<and> mode_name m \<in> set (wp_modes (wc_policy wc)))
     | TASK_ACTION \<Rightarrow>
         (\<exists>t d. action_task a = Some t \<and> ss_directives spec = Some d
           \<and> task_kind t \<in> set (ad_tasks d) \<and> task_value (task_kind t) \<in> set (wp_tasks (wc_policy wc))))"

lemma task_value_inj: "task_value a = task_value b \<Longrightarrow> a = b"
  by (cases a; cases b) simp_all

text \<open>The setting of a shield that was built for a compiled contract.\<close>

definition shield_for :: "(safety_spec \<Rightarrow> string) \<Rightarrow> real \<Rightarrow> safety_spec \<Rightarrow> wrap_config \<Rightarrow> compiled_model
    \<Rightarrow> 's shield_setup \<Rightarrow> bool" where
  "shield_for H period spec wc m su =
    (compile_spec H period spec = Inr m
     \<and> (\<exists>res watchdog slow latency sink lenient. policy_shield None wc m res watchdog slow latency sink lenient = Inr su)
     \<and> 0 \<le> wc_u_max wc \<and> 0 \<le> wc_v_max wc \<and> 0 \<le> wc_k_brake wc)"

lemma shield_for_parts:
  assumes "shield_for H period spec wc m su"
  obtains ch where "compile_spec H period spec = Inr m" "core_from_model (core_config_of wc ch) m = Inr (su_core su)"
    "su_policy su = wc_policy wc" "core_dim (su_core su) = (if cm_keep_outs m = [] then 0 else 3)"
proof -
  from assms obtain ch where ch: "compile_spec H period spec = Inr m"
    "core_from_model (core_config_of wc ch) m = Inr (su_core su)" "su_policy su = wc_policy wc"
    by (auto simp: shield_for_def policy_shield_def build_core_def rbind_Inr rerr_Inr)
  then show thesis
    using that running_core(4)[OF ch(1,2) core_reaches.start] by blast
qed

lemma axes_of_model:
  assumes "compile_spec H period spec = Inr m"
  shows "axes spec = (if cm_keep_outs m = [] then 1 else 3)"
proof -
  have "cm_keep_outs m = [] \<longleftrightarrow> \<not> list_ex is_keep_out (ss_constraints spec)"
    using compiled_keep_outs[OF assms] by (cases "cm_keep_outs m") (fastforce simp: list_ex_iff)+
  then show ?thesis
    by (simp add: axes_def)
qed

text \<open>A fallback is a command inside the ceilings.\<close>

lemma fallback_guarded:
  assumes "shield_for H period spec wc m su" "core_reaches (su_core su) c1"
    and "core_decide c1 inp wd = (v, c2)" "vd_intervention v = Fallback"
  shows "guarded_action spec wc (emit_action target a v)"
proof -
  obtain ch where su: "compile_spec H period spec = Inr m" "core_from_model (core_config_of wc ch) m = Inr (su_core su)"
    using shield_for_parts[OF assms(1)] .
  note run = running_core[OF su assms(2)]
  let ?b = "core_backup c1"
  have limits: "cm_limits m = action_limits_of spec"
    using compile_spec_parts[OF su(1)] by blast
  have dims: "bk_ctrl_dim ?b = max (bk_spatial_dim ?b) 1"
    by (simp add: run(6) backup_new_def Let_def)
  have b: "bk_ctrl_dim ?b = axes spec"
    "bk_u_max ?b = tighten (wc_u_max wc) (lim_accel (action_limits_of spec))"
    "bk_v_max ?b = tighten (wc_v_max wc) (lim_velocity (action_limits_of spec))" "bk_k_brake ?b = wc_k_brake wc"
    by (simp_all add: run(6) backup_new_def Let_def run(4) axes_of_model[OF su(1)] core_config_of_def limits)
  have nn: "0 \<le> bk_u_max ?b" "0 \<le> bk_v_max ?b" "0 \<le> bk_k_brake ?b"
    using assms(1) by (simp_all add: b shield_for_def tighten_bounds(3))
  obtain kind hold where v: "vd_mode v = fallback_channel c1 inp"
    "vd_action v = map Some (backup_control ?b kind (vd_mode v) (in_position inp) (in_velocity inp) hold)"
    using fallback_command[OF assms(3,4)] by auto
  let ?y = "backup_control ?b kind (vd_mode v) (in_position inp) (in_velocity inp) hold"
  have "length ?y = axes spec \<and> in_ceiling spec wc (vd_mode v) ?y"
  proof (cases "vd_mode v")
    case Effort
    then show ?thesis
      using backup_effort[OF nn(1,3) dims refl, of kind "in_position inp" "in_velocity inp" hold]
      by (auto simp: in_ceiling_def b list_all_iff simp del: One_nat_def intro: order.trans)
  next
    case Velocity
    then show ?thesis
      using backup_velocity[OF nn(2) dims refl, of kind "in_position inp" "in_velocity inp" hold]
      by (simp add: in_ceiling_def b)
  next
    case Position
    then show ?thesis
      using b(1) dims by (auto simp: in_ceiling_def backup_control_def guarded_position_def hold_position_def Let_def
          split: backup_kind.splits option.splits)
  qed
  then show ?thesis
    using assms(4) v by (auto simp: guarded_action_def emit_action_def write_safe_action_def)
qed

lemma certified_guarded:
  assumes "shield_for H period spec wc m su" "core_reaches (su_core su) c1"
    and "core_decide c1 (core_input su ob a) wd = (v, c2)" "vd_intervention v \<noteq> Fallback"
  shows "guarded_action spec wc (emit_action target a v)"
proof -
  obtain ch0 where su: "compile_spec H period spec = Inr m"
    "core_from_model (core_config_of wc ch0) m = Inr (su_core su)"
    and dim: "core_dim (su_core su) = (if cm_keep_outs m = [] then 0 else 3)"
    using shield_for_parts[OF assms(1)] .
  note run = running_core[OF su assms(2)]
  have cmd: "in_proposed (core_input su ob a) = classify a (core_dim (su_core su))"
    by (simp add: core_input_def Let_def)
  obtain c3 where c3: "act_on_proposal c3 (core_input su ob a) = (v, c2)" "same_setup c1 c3"
    using passed_layers(4)[OF assms(3,4)] step_monitors_setup by blast
  have grant: "cm_directives m = admissible_directives_of spec"
    using compile_spec_parts[OF su(1)] by blast
  have directive: "admits (narrowed_to (cc_policy (core_config_of wc ch0)) (admissible_directives_of spec))
      (in_proposed (core_input su ob a)) \<and> vd_action v = []"
    if "proposed_channel (in_proposed (core_input su ob a)) = None"
    using certified_directive[OF c3(1) assms(4) that] c3(2) run(2) by (simp add: same_setup_def grant)
  show ?thesis
  proof (cases a "core_dim (su_core su)" rule: classify_cases)
    case (command c ch)
    then have ne: "cm_keep_outs m \<noteq> []" "core_dim (su_core su) = 3"
      using dim by (auto split: if_splits)
    have pc: "proposed_channel (in_proposed (core_input su ob a)) = Some ch"
      using cmd command(6) by simp
    define s where "s = shield_new (cm_keep_outs m) 3 (cc_shield (core_config_of wc ch0)) (cm_period m) (cm_limits m)"
    obtain p y where y: "vd_action v = map Some y" "length y = 3" "in_envelope s ch p y"
      unfolding s_def
      using certified_motion[OF su assms(2-4) pc ne(1)] by metis
    note shd = shield_of_compiled[OF su(1) s_def]
    have ceilings: "cfg_tol (shd_cfg s) = 1 / 10 ^ 7" "shd_u_max s = tighten (wc_u_max wc) (lim_accel (action_limits_of spec))"
      "shd_v_max s = tighten (wc_v_max wc) (lim_velocity (action_limits_of spec))"
      by (simp_all add: shd core_config_of_def)
    have "in_ceiling spec wc ch y"
      using y(3) by (auto simp: in_ceiling_def in_envelope_def Let_def ceilings split: control_channel.splits)
    then show ?thesis
      using y command assms(4) ne
      by (auto simp: guarded_action_def emit_action_def write_certified_action_def axes_of_model[OF su(1)])
  next
    case (mode md)
    then have "admits (narrowed_to (cc_policy (core_config_of wc ch0)) (admissible_directives_of spec))
        (ModeCmd (mode_name md))" "vd_action v = []"
      using directive cmd by auto
    then show ?thesis
      using mode assms(4)
      by (auto simp: guarded_action_def emit_action_def admits_def narrowed_to_def narrow_member core_config_of_def
          admissible_directives_of_def)
  next
    case (task t)
    then have "admits (narrowed_to (cc_policy (core_config_of wc ch0)) (admissible_directives_of spec))
        (TaskCmd (task_value (task_kind t)))" "vd_action v = []"
      using directive cmd by auto
    then show ?thesis
      using task assms(4)
      by (auto simp: guarded_action_def emit_action_def admits_def narrowed_to_def narrow_member core_config_of_def
          admissible_directives_of_def dest: task_value_inj)
  next
    case opaque
    then show ?thesis
      using directive cmd by (auto simp: admits_def)
  qed
qed

lemma certify_action_guarded:
  assumes "shield_for H period spec wc m su" "cores_ok su gs" "certify_action su obs ctx a gs = (Inr b, gs')"
  shows "guarded_action spec wc b"
  using certify_action_parts[OF assms(3,2)] fallback_guarded[OF assms(1)] certified_guarded[OF assms(1)] by blast

lemma shield_batch_guarded:
  assumes "shield_for H period spec wc m su" "cores_ok su gs" "shield_batch su obs ctx as gs = (Inr bs, gs')"
  shows "cores_ok su gs' \<and> list_all2 (\<lambda>a b. guarded_action spec wc b \<and> action_agent b = action_agent a) as bs"
proof (rule shield_batch_ok[OF assms(2,3)])
  fix a b g g'
  assume "cores_ok su g" "certify_action su obs ctx a g = (Inr b, g')"
  then show "guarded_action spec wc b \<and> action_agent b = action_agent a"
    using certify_action_guarded[OF assms(1)] certify_action_parts emit_action_agent by metis
qed

section \<open>The audit stream\<close>

text \<open>\<^verbatim>\<open>CollectingSink\<close> and \<^verbatim>\<open>NullSink\<close>.\<close>

definition collect :: "audit_verdict \<Rightarrow> (audit_verdict list, fault, unit) st" where
  "collect v = smodify (\<lambda>vs. vs @ [v])"

definition discard :: "audit_verdict \<Rightarrow> ('s, fault, unit) st" where
  "discard v = sret ()"

record violation_counts =
  vc_total :: nat
  vc_fallbacks :: nat
  vc_by_constraint :: "(string, nat) dict"

definition count_clause :: "string \<Rightarrow> (string, nat) dict \<Rightarrow> (string, nat) dict" where
  "count_clause c d = dict_set d c (case dict_get d c of None \<Rightarrow> 1 | Some n \<Rightarrow> Suc n)"

definition is_violation :: "audit_verdict \<Rightarrow> bool" where
  "is_violation v = (av_reason v \<in> {ScalarViolated, MonitorFired})"

definition violations_per_scenario :: "audit_verdict list \<Rightarrow> violation_counts" where
  "violations_per_scenario vs =
    \<lparr>vc_total = length (filter is_violation vs), vc_fallbacks = length (filter (\<lambda>v. av_intervention v = Fallback) vs),
     vc_by_constraint = fold (\<lambda>v d. fold count_clause (av_constraints v) d) (filter is_violation vs) []\<rparr>"

record shielding_cost =
  co_ticks :: nat
  co_rate :: real
  co_mean_divergence :: real
  co_max_divergence :: real
  co_mean_latency :: real
  co_max_latency :: real

text \<open>\<^verbatim>\<open>shielding_cost\<close> over records whose divergences are finite.\<close>

definition shielding_cost_of :: "audit_verdict list \<Rightarrow> shielding_cost" where
  "shielding_cost_of vs =
    (if vs = [] then \<lparr>co_ticks = 0, co_rate = 0, co_mean_divergence = 0, co_max_divergence = 0, co_mean_latency = 0,
       co_max_latency = 0\<rparr>
     else
       let n = length vs; ds = map (\<lambda>v. the (av_divergence v)) vs; ls = map av_latency vs
       in \<lparr>co_ticks = n, co_rate = real (length (filter (\<lambda>v. av_intervention v \<noteq> NoIntervention) vs)) / real n,
           co_mean_divergence = sum_list ds / real n, co_max_divergence = foldr max (tl ds) (hd ds),
           co_mean_latency = sum_list ls / real n, co_max_latency = foldr max (tl ls) (hd ls)\<rparr>)"

section \<open>The shield plugin\<close>

datatype InterventionKind = SHIELD_EDIT | MONITOR_BREACH | BACKUP_ACTIVATION

primrec kind_value :: "InterventionKind \<Rightarrow> string" where
  "kind_value SHIELD_EDIT = ''shield_edit''"
| "kind_value MONITOR_BREACH = ''monitor_breach''"
| "kind_value BACKUP_ACTIVATION = ''backup_activation''"

primrec severity :: "InterventionKind \<Rightarrow> nat" where
  "severity SHIELD_EDIT = 0"
| "severity MONITOR_BREACH = 1"
| "severity BACKUP_ACTIVATION = 2"

definition kind_of_reason :: "core_reason \<Rightarrow> InterventionKind" where
  "kind_of_reason r =
    (case r of ShieldCorrected \<Rightarrow> SHIELD_EDIT | MonitorFired \<Rightarrow> MONITOR_BREACH | _ \<Rightarrow> BACKUP_ACTIVATION)"

text \<open>\<^verbatim>\<open>max(kinds, key=severity)\<close>: the first kind of the greatest severity.\<close>

definition worst_kind :: "InterventionKind \<Rightarrow> InterventionKind list \<Rightarrow> InterventionKind" where
  "worst_kind k ks = foldl (\<lambda>best x. if severity best < severity x then x else best) k ks"

definition report_of :: "(audit_verdict \<Rightarrow> string) \<Rightarrow> audit_verdict list \<Rightarrow> shield_report" where
  "report_of H vs =
    (case filter (\<lambda>v. av_intervention v \<noteq> NoIntervention) vs of
       [] \<Rightarrow> \<lparr>report_intervened = False, report_kind = None, report_clauses = [], report_certificate = None\<rparr>
     | v # rest \<Rightarrow>
         \<lparr>report_intervened = True,
          report_kind = Some (kind_value (worst_kind (kind_of_reason (av_reason v)) (map (kind_of_reason \<circ> av_reason) rest))),
          report_clauses = sort (remdups (concat (map av_constraints (v # rest)))), report_certificate = Some (H v)\<rparr>)"

record guard_plugin =
  gp_shield :: "audit_verdict list shield_state"
  gp_report :: "shield_report option"

definition upstream_policy :: "'w policy" where
  "upstream_policy obs ctx w = (Inr (initial_upstream ctx), w)"

text \<open>\<^verbatim>\<open>GuardShield.decide\<close> and \<^verbatim>\<open>report\<close>.\<close>

definition guard_shield_policy :: "(audit_verdict \<Rightarrow> string) \<Rightarrow> audit_verdict list shield_setup
    \<Rightarrow> (guard_plugin \<times> 'w) policy" where
  "guard_shield_policy H su obs ctx gw =
    (case gw of (gp, w) \<Rightarrow>
      (let before = length (gs_sink (gp_shield gp))
       in case shield_decide su upstream_policy obs ctx (gp_shield gp, w) of (r, (gs, w')) \<Rightarrow>
            (r, (case r of
                   Inl e \<Rightarrow> gp\<lparr>gp_shield := gs\<rparr>
                 | Inr bs \<Rightarrow> \<lparr>gp_shield = gs, gp_report = Some (report_of H (drop before (gs_sink gs)))\<rparr>, w'))))"

definition guard_shield_node :: "(audit_verdict \<Rightarrow> string) \<Rightarrow> audit_verdict list shield_setup
    \<Rightarrow> (guard_plugin \<times> 'w) shield_node" where
  "guard_shield_node H su = \<lparr>shield_plugin = ''guard.shield'', shield_policy = guard_shield_policy H su,
     shield_reports = Some (\<lambda>(gp, w). gp_report gp)\<rparr>"

definition plugin_start :: guard_plugin where
  "plugin_start = \<lparr>gp_shield = shield_start [], gp_report = None\<rparr>"

lemma guard_shield_policy_eq:
  assumes "shield_batch su obs ctx (initial_upstream ctx) (gp_shield gp) = (Inr bs, gs)"
  shows "guard_shield_policy H su obs ctx (gp, w) =
    (Inr bs, (\<lparr>gp_shield = gs, gp_report = Some (report_of H (drop (length (gs_sink (gp_shield gp))) (gs_sink gs)))\<rparr>, w))"
  using assms by (simp add: guard_shield_policy_def shield_decide_def upstream_policy_def sbind_def Let_def)

lemma guard_shield_policy_batch:
  obtains bs gs where "shield_batch su obs ctx (initial_upstream ctx) (gp_shield gp) = (Inr bs, gs)"
    "guard_shield_policy H su obs ctx (gp, w) =
      (Inr bs, (\<lparr>gp_shield = gs, gp_report = Some (report_of H (drop (length (gs_sink (gp_shield gp))) (gs_sink gs)))\<rparr>, w))"
proof -
  obtain bs gs where batch: "shield_batch su obs ctx (initial_upstream ctx) (gp_shield gp) = (Inr bs, gs)"
    using shield_batch_answers[of su obs ctx "initial_upstream ctx" "gp_shield gp"] by (elim exE)
  show thesis
    by (rule that[OF batch guard_shield_policy_eq[OF batch]])
qed

lemma guard_shield_single:
  assumes "initial_upstream ctx = [a]" "certify_action su obs ctx a (gp_shield gp) = (Inr b, g)"
  obtains gp' where "guard_shield_policy H su obs ctx (gp, w) = (Inr [b], (gp', w))"
proof -
  have "shield_batch su obs ctx (initial_upstream ctx) (gp_shield gp) = (Inr [b], g\<lparr>gs_index := gs_index g + 1\<rparr>)"
    using assms by (simp add: shield_batch_eq certify_all_def sbind_def sret_def)
  then show thesis
    by (rule that[OF guard_shield_policy_eq])
qed

section \<open>The shield in a stack\<close>

text \<open>
  A composed stack whose shield is the guard: the tiers, their fallbacks and the environment act on
  their own part of the world.
\<close>

definition lift_policy :: "'w policy \<Rightarrow> ('x \<times> 'w) policy" where
  "lift_policy p obs ctx = on_world (p obs ctx)"

definition lift_tier :: "'w tier_node \<Rightarrow> ('x \<times> 'w) tier_node" where
  "lift_tier n = \<lparr>node_role = node_role n, node_plugin = node_plugin n, node_policy = lift_policy (node_policy n),
     node_horizon = node_horizon n, node_triggers = node_triggers n,
     node_fallback = map_option lift_policy (node_fallback n), node_fallback_name = node_fallback_name n,
     node_manifest = node_manifest n\<rparr>"

definition lift_environment :: "'w environment \<Rightarrow> ('x \<times> 'w) environment" where
  "lift_environment env = \<lparr>env_reset = (\<lambda>seed options. on_world (env_reset env seed options)),
     env_step = (\<lambda>b. on_world (env_step env b))\<rparr>"

definition guarded_graph :: "(audit_verdict \<Rightarrow> string) \<Rightarrow> audit_verdict list shield_setup \<Rightarrow> 'w hierarchy_graph
    \<Rightarrow> (guard_plugin \<times> 'w) hierarchy_graph" where
  "guarded_graph H su g = \<lparr>graph_stack = graph_stack g, graph_tiers = map lift_tier (graph_tiers g),
     graph_shield = guard_shield_node H su, graph_execution = graph_execution g,
     graph_coordination = graph_coordination g, graph_provenance = graph_provenance g, graph_tree = graph_tree g\<rparr>"

definition guard_inv :: "audit_verdict list shield_setup \<Rightarrow> ('w \<Rightarrow> bool) \<Rightarrow> guard_plugin \<times> 'w \<Rightarrow> bool" where
  "guard_inv su J gw = (cores_ok su (gp_shield (fst gw)) \<and> J (snd gw))"

lemma on_world_guard: "keeps J m \<Longrightarrow> keeps (guard_inv su J) (on_world m)"
  by (auto simp: keeps_def guard_inv_def on_world_def split: prod.splits)

lemma lift_keeps: "policy_keeps J p \<Longrightarrow> policy_keeps (guard_inv su J) (lift_policy p)"
  by (simp add: policy_keeps_def lift_policy_def on_world_guard)

lemma lift_tiers_keep: "tiers_keep J tiers \<Longrightarrow> tiers_keep (guard_inv su J) (map lift_tier tiers)"
  by (auto simp: tiers_keep_def lift_tier_def intro: lift_keeps)

lemma guard_shield_keeps:
  assumes "shield_for Hs period spec wc m su"
  shows "policy_keeps (guard_inv su J) (guard_shield_policy H su)"
  unfolding policy_keeps_def keeps_def
proof (intro allI impI)
  fix obs ctx and gw :: "guard_plugin \<times> 'a"
  assume inv: "guard_inv su J gw"
  obtain gp w where gw: "gw = (gp, w)"
    by force
  obtain bs gs where batch: "shield_batch su obs ctx (initial_upstream ctx) (gp_shield gp) = (Inr bs, gs)"
    using shield_batch_answers by blast
  then show "guard_inv su J (snd (guard_shield_policy H su obs ctx gw))"
    using shield_batch_guarded[OF assms _ batch] inv by (simp add: gw guard_shield_policy_eq[OF batch] guard_inv_def)
qed

lemma guard_shield_answers: "shield_answers (guarded_graph H su g)"
proof -
  have "\<exists>bs w'. guard_shield_policy H su obs ctx gw = (Inr bs, w')" for obs ctx and gw :: "guard_plugin \<times> 'a"
    by (cases gw) (metis guard_shield_policy_batch)
  then show ?thesis
    by (fastforce simp: shield_answers_def answers_def guarded_graph_def guard_shield_node_def)
qed

lemma guarded_contained:
  assumes "shield_for Hs period spec wc m su" "tiers_keep J (graph_tiers g)"
    and "\<forall>seed options. keeps J (env_reset env seed options)"
    and "\<forall>b. list_all (guarded_action spec wc) b \<longrightarrow> keeps J (env_step env b)"
  shows "certified (guarded_graph H su g) (guard_inv su J) (list_all (guarded_action spec wc))
    \<and> contained (guarded_graph H su g) (lift_environment env) (guard_inv su J) (list_all (guarded_action spec wc))"
proof -
  have "list_all (guarded_action spec wc) b"
    if "guard_inv su J gw" "guard_shield_policy H su obs ctx gw = (Inr b, w')" for obs ctx gw b w'
  proof -
    obtain gp w where gw: "gw = (gp, w)"
      by force
    obtain bs gs where batch: "shield_batch su obs ctx (initial_upstream ctx) (gp_shield gp) = (Inr bs, gs)"
      using shield_batch_answers by blast
    then have "list_all2 (\<lambda>a b. guarded_action spec wc b \<and> action_agent b = action_agent a) (initial_upstream ctx) b"
      using shield_batch_guarded[OF assms(1) _ batch] that
      by (simp add: gw guard_shield_policy_eq[OF batch] guard_inv_def)
    then show ?thesis
      by (auto simp: list_all2_conv_all_nth list_all_length)
  qed
  then show ?thesis
    using guard_shield_keeps[OF assms(1)] lift_tiers_keep[OF assms(2)] assms(3,4)
    by (auto simp: certified_def contained_def guarded_graph_def guard_shield_node_def lift_environment_def
        intro: on_world_guard)
qed

text \<open>
  C3: Only what the contract allows leaves a guarded stack. Bind the guard, built for a compiled
  contract, as the shield of any composed stack and run it: whatever the tiers and their fallbacks
  propose or raise, every batch that reaches the environment holds only directives that the
  contract and the configuration enumerate and finite commands inside the tightened ceilings, and any
  invariant of the world that the environment keeps under such batches holds at the end.
\<close>

theorem guarded_stack_emits_only_guarded:
  assumes "shield_for Hs period spec wc m su" "tiers_keep J (graph_tiers g)"
    and "\<forall>seed options. keeps J (env_reset env seed options)"
    and "\<forall>b. list_all (guarded_action spec wc) b \<longrightarrow> keeps J (env_step env b)" "J w"
  shows "case executive_run (guarded_graph H su g) (lift_environment env) max_ticks seed objective options
      (plugin_start, w) of (r, (gp, w')) \<Rightarrow>
    J w' \<and> (case r of Inl e \<Rightarrow> True | Inr res \<Rightarrow>
      list_all (\<lambda>t. list_all (guarded_action spec wc) (tr_batch t)) (trace_ticks (run_trace res)))"
proof -
  note run = run_safe[of "guarded_graph H su g" "guard_inv su J" "list_all (guarded_action spec wc)" "lift_environment env"
      "(plugin_start, w)" max_ticks seed objective options]
  have "guard_inv su J (plugin_start, w)"
    using assms(5) by (simp add: guard_inv_def plugin_start_def)
  then show ?thesis
    using run guarded_contained[OF assms(1-4), of H] by (auto simp: guard_inv_def split: prod.splits sum.splits)
qed

section \<open>Auditing never gates\<close>

lemma audit_irrelevant [simp]:
  "core_input (su\<lparr>su_sink := sink, su_latency := latency, su_lenient := lenient\<rparr>) = core_input su"
  "core_tick (su\<lparr>su_sink := sink, su_latency := latency, su_lenient := lenient\<rparr>) = core_tick su"
  "core_for (su\<lparr>su_sink := sink, su_latency := latency, su_lenient := lenient\<rparr>) (gs\<lparr>gs_sink := s\<rparr>) = core_for su gs"
  by (simp_all add: core_input_def shield_signals_def core_tick_def core_for_def fun_eq_iff
      cong: option.case_cong)

lemma certify_action_audit:
  assumes "su' = su\<lparr>su_sink := sink, su_latency := latency, su_lenient := lenient\<rparr>"
  shows "\<exists>b g s'. certify_action su obs ctx a gs = (Inr b, g)
    \<and> certify_action su' obs ctx a (gs\<lparr>gs_sink := s\<rparr>) = (Inr b, g\<lparr>gs_sink := s'\<rparr>)"
proof -
  let ?ob = "dict_get obs (action_agent a)"
  let ?inp = "core_input su ?ob a"
  obtain v core' s1 where one: "core_tick su (gs_steps gs) (core_for su gs (action_agent a)) ?inp = (v, core')"
    "certify_action su obs ctx a gs = (Inr (emit_action (wp_target (su_policy su)) a v),
      gs\<lparr>gs_cores := dict_set (gs_cores gs) (action_agent a) core', gs_steps := Suc (gs_steps gs), gs_sink := s1\<rparr>)"
    by (rule certify_action_answers)
  obtain s2 where "emit_record su' (gs\<lparr>gs_sink := s\<rparr>) a ?ob ctx ?inp v s = (Inr (), s2)"
    using emit_record_quiet[of su' "gs\<lparr>gs_sink := s\<rparr>" a ?ob ctx ?inp v s] by (elim exE)
  then have "certify_action su' obs ctx a (gs\<lparr>gs_sink := s\<rparr>) = (Inr (emit_action (wp_target (su_policy su)) a v),
      gs\<lparr>gs_cores := dict_set (gs_cores gs) (action_agent a) core', gs_steps := Suc (gs_steps gs), gs_sink := s2\<rparr>)"
    using one(1) by (simp add: certify_action_def assms Let_def)
  then show ?thesis
    using one(2) by (intro exI[of _ "emit_action (wp_target (su_policy su)) a v"]
        exI[of _ "gs\<lparr>gs_cores := dict_set (gs_cores gs) (action_agent a) core', gs_steps := Suc (gs_steps gs), gs_sink := s1\<rparr>"]
        exI[of _ s2]) simp
qed

lemma certify_all_audit:
  assumes "su' = su\<lparr>su_sink := sink, su_latency := latency, su_lenient := lenient\<rparr>"
  shows "\<exists>bs g s'. certify_all su obs ctx as gs = (Inr bs, g)
    \<and> certify_all su' obs ctx as (gs\<lparr>gs_sink := s\<rparr>) = (Inr bs, g\<lparr>gs_sink := s'\<rparr>)"
proof (induction as arbitrary: gs s)
  case (Cons a as)
  obtain b g s1 where "certify_action su obs ctx a gs = (Inr b, g)"
    "certify_action su' obs ctx a (gs\<lparr>gs_sink := s\<rparr>) = (Inr b, g\<lparr>gs_sink := s1\<rparr>)"
    using certify_action_audit[OF assms] by blast
  moreover obtain bs h s2 where "certify_all su obs ctx as g = (Inr bs, h)"
    "certify_all su' obs ctx as (g\<lparr>gs_sink := s1\<rparr>) = (Inr bs, h\<lparr>gs_sink := s2\<rparr>)"
    using Cons by blast
  ultimately show ?case
    by (auto simp: certify_all_def sbind_def sret_def)
qed auto

text \<open>
  C15: The audit stream cannot change what is emitted. Bind any sink, or none, in any state: writing a
  record may raise at any time and change the sink in any way, and constructing a record may raise as
  well (an overflow, a rejected field). The shield still answers with a batch, and it is the same batch,
  with the same cores, as with any other sink and any measured latencies.
\<close>

theorem audit_never_gates:
  "\<exists>bs g s'. shield_batch su obs ctx as gs = (Inr bs, g)
    \<and> shield_batch (su\<lparr>su_sink := sink, su_latency := latency, su_lenient := lenient\<rparr>) obs ctx as (gs\<lparr>gs_sink := s\<rparr>)
        = (Inr bs, g\<lparr>gs_sink := s'\<rparr>)"
proof -
  obtain bs g s' where "certify_all su obs ctx as gs = (Inr bs, g)"
    "certify_all (su\<lparr>su_sink := sink, su_latency := latency, su_lenient := lenient\<rparr>) obs ctx as (gs\<lparr>gs_sink := s\<rparr>)
      = (Inr bs, g\<lparr>gs_sink := s'\<rparr>)"
    using certify_all_audit[OF refl, where su = su and sink = sink and latency = latency and lenient = lenient
        and obs = obs and ctx = ctx and as = as and gs = gs and s = s] by blast
  then show ?thesis
    by (intro exI[of _ bs] exI[of _ "g\<lparr>gs_index := gs_index g + 1\<rparr>"] exI[of _ s']) (simp add: shield_batch_eq)
qed

section \<open>The report\<close>

text \<open>What a collecting shield makes of a batch: one record for each action, or why it has none.\<close>

fun batch_records :: "audit_verdict list shield_setup \<Rightarrow> observations \<Rightarrow> decision_context \<Rightarrow> action list
    \<Rightarrow> audit_verdict list shield_state \<Rightarrow> (fault + audit_verdict) list" where
  "batch_records su obs ctx [] gs = []"
| "batch_records su obs ctx (a # as) gs =
    (let ob = dict_get obs (action_agent a); inp = core_input su ob a;
         v = fst (core_tick su (gs_steps gs) (core_for su gs (action_agent a)) inp)
     in verdict_record su gs a ob ctx inp v # batch_records su obs ctx as (snd (certify_action su obs ctx a gs)))"

definition kept :: "(fault + audit_verdict) list \<Rightarrow> audit_verdict list" where
  "kept rs = concat (map (\<lambda>r. case r of Inl e \<Rightarrow> [] | Inr x \<Rightarrow> [x]) rs)"

lemma kept_Cons: "kept (r # rs) = (case r of Inl e \<Rightarrow> kept rs | Inr x \<Rightarrow> x # kept rs)"
  by (simp add: kept_def split: sum.splits)

lemma kept_member: "x \<in> set (kept rs) \<longleftrightarrow> Inr x \<in> set rs"
  by (fastforce simp: kept_def split: sum.splits)

lemma emit_collects:
  assumes "su_sink su = Some collect"
  shows "emit_record su gs a ob ctx inp v s = (Inr (), s @ kept [verdict_record su gs a ob ctx inp v])"
  by (cases "verdict_record su gs a ob ctx inp v")
     (simp_all add: emit_record_def assms scatch_def collect_def smodify_def sret_def slift_def sbind_def kept_def)

lemma certify_all_sink:
  assumes "su_sink su = Some collect" "certify_all su obs ctx as gs = (Inr bs, gs')"
  shows "gs_sink gs' = gs_sink gs @ kept (batch_records su obs ctx as gs)"
  using assms(2)
proof (induction as arbitrary: gs bs)
  case (Cons a as)
  let ?ob = "dict_get obs (action_agent a)"
  obtain b g bs1 where one: "certify_action su obs ctx a gs = (Inr b, g)" "certify_all su obs ctx as g = (Inr bs1, gs')"
    using certify_all_Cons[OF Cons.prems] .
  have "gs_sink g = gs_sink gs @ kept [verdict_record su gs a ?ob ctx (core_input su ?ob a)
      (fst (core_tick su (gs_steps gs) (core_for su gs (action_agent a)) (core_input su ?ob a)))]"
    using one(1) by (auto simp: certify_action_def emit_collects[OF assms(1)] Let_def split: prod.splits)
  then show ?case
    using Cons.IH[OF one(2)] one(1) by (simp add: Let_def kept_def)
qed (simp add: kept_def)

lemma guard_report:
  assumes "su_sink su = Some collect" "guard_shield_policy H su obs ctx (gp, w) = (Inr bs, (gp', w'))"
  shows "gp_report gp' = Some (report_of H (kept (batch_records su obs ctx (initial_upstream ctx) (gp_shield gp))))"
    and "\<exists>gs'. certify_all su obs ctx (initial_upstream ctx) (gp_shield gp) = (Inr bs, gs')"
proof -
  obtain cs gs where batch: "shield_batch su obs ctx (initial_upstream ctx) (gp_shield gp) = (Inr cs, gs)"
    "guard_shield_policy H su obs ctx (gp, w) =
      (Inr cs, (\<lparr>gp_shield = gs, gp_report = Some (report_of H (drop (length (gs_sink (gp_shield gp))) (gs_sink gs)))\<rparr>, w))"
    by (rule guard_shield_policy_batch)
  then obtain g where g: "certify_all su obs ctx (initial_upstream ctx) (gp_shield gp) = (Inr cs, g)"
    "gs_sink gs = gs_sink g"
    by (auto simp: shield_batch_eq)
  show "gp_report gp' = Some (report_of H (kept (batch_records su obs ctx (initial_upstream ctx) (gp_shield gp))))"
    "\<exists>gs'. certify_all su obs ctx (initial_upstream ctx) (gp_shield gp) = (Inr bs, gs')"
    using certify_all_sink[OF assms(1) g(1)] batch(2) g assms(2) by auto
qed

lemma report_intervened_iff: "report_intervened (report_of H vs) = list_ex (\<lambda>v. av_intervention v \<noteq> NoIntervention) vs"
proof -
  have "list_ex P vs = (filter P vs \<noteq> [])" for P :: "audit_verdict \<Rightarrow> bool"
    by (auto simp: list_ex_iff filter_empty_conv)
  then show ?thesis
    by (simp add: report_of_def split: list.splits)
qed

text \<open>An action that the core did not touch.\<close>

definition untouched :: "action \<Rightarrow> action \<Rightarrow> bool" where
  "untouched a b =
    (b = a \<or> (\<exists>c y. action_actuator a = Some c \<and> b = a\<lparr>action_actuator := Some (c\<lparr>act_setpoint := map Some y\<rparr>)\<rparr>
      \<and> list_all2 (\<lambda>p q. \<exists>x. p = Some x \<and> \<bar>q - x\<bar> \<le> 1 / 10 ^ 6) (act_setpoint c) y))"

lemma core_tolerance: "core_from_model cfg m = Inr c \<Longrightarrow> cc_unchanged_tol (core_cfg c) = cc_unchanged_tol cfg"
  using core_from_model_fields(2) by fastforce

lemma no_intervention_untouched:
  assumes "shield_for Hs period spec wc m su" "core_reaches (su_core su) c1"
    and "core_decide c1 (core_input su ob a) wd = (v, c2)" "vd_intervention v = NoIntervention"
  shows "untouched a (emit_action target a v)"
proof (cases "vd_action v = []")
  case True
  then show ?thesis
    using assms(4) by (simp add: emit_action_def untouched_def)
next
  case False
  obtain ch0 where su: "compile_spec Hs period spec = Inr m"
    "core_from_model (core_config_of wc ch0) m = Inr (su_core su)"
    and dim: "core_dim (su_core su) = (if cm_keep_outs m = [] then 0 else 3)"
    using shield_for_parts[OF assms(1)] .
  have fb: "vd_intervention v \<noteq> Fallback"
    using assms(4) by simp
  obtain c3 where c3: "act_on_proposal c3 (core_input su ob a) = (v, c2)" "same_setup c1 c3"
    using passed_layers(4)[OF assms(3) fb] step_monitors_setup by blast
  have cmd: "in_proposed (core_input su ob a) = classify a (core_dim (su_core su))"
    by (simp add: core_input_def Let_def)
  have "proposed_channel (in_proposed (core_input su ob a)) \<noteq> None"
    using certified_directive[OF c3(1) fb] False by blast
  then obtain c ch where c: "action_actuator a = Some c" "core_dim (su_core su) \<noteq> 0"
    "length (act_setpoint c) = core_dim (su_core su)"
    "classify a (core_dim (su_core su)) = channel_command ch (act_setpoint c)"
    using cmd by (cases a "core_dim (su_core su)" rule: classify_cases) auto
  then have ne: "cm_keep_outs m \<noteq> []" and pc: "proposed_channel (in_proposed (core_input su ob a)) = Some ch"
    and sp: "proposed_setpoint (in_proposed (core_input su ob a)) = act_setpoint c" and len: "length (act_setpoint c) = 3"
    using dim cmd by (auto split: if_splits)
  obtain p x y where y: "finite_prefix 3 (act_setpoint c) = Some x" "vd_action v = map Some y" "length y = 3"
    using certified_motion[OF su assms(2,3) fb pc ne] sp by metis
  note run = running_core[OF su assms(2)]
  have tol: "cc_unchanged_tol (core_cfg (su_core su)) = 1 / 10 ^ 6"
    using core_tolerance[OF su(2)] by (simp add: core_config_of_def)
  have same: "core_cfg c3 = core_cfg (su_core su)" "core_dim c3 = core_dim c1" "core_shield c3 = core_shield c1"
    using c3(2) core_reaches_setup[OF assms(2)] by (simp_all add: same_setup_def)
  have cfg: "cc_unchanged_tol (core_cfg c3) = 1 / 10 ^ 6" "core_dim c3 = 3" "core_shield c3 \<noteq> None"
    using tol run(4,5) ne by (simp_all add: same)
  have "\<not> perturbed (1 / 10 ^ 6) 3 (vd_action v) (act_setpoint c)"
    using c3(1) assms(4) fb pc sp cfg(3) backup_verdict[of c3 "core_input su ob a" BrakeToStop QpUncertifiable "[]" _ v c2]
    by (auto simp: act_on_proposal_def certified_verdict_def Let_def cfg(1,2) split: if_splits)
  then have "list_all2 (\<lambda>p q. \<exists>x. p = Some x \<and> \<bar>q - x\<bar> \<le> 1 / 10 ^ 6) (act_setpoint c) y"
    using y len
    by (auto simp: perturbed_def list_ex_iff set_zip list_all2_conv_all_nth finite_prefix_def list_all_length
        split: if_splits) force+
  then show ?thesis
    using c(1) y(2) False fb by (auto simp: untouched_def emit_action_def write_certified_action_def)
qed

lemma recorded_intervention:
  "verdict_record su gs a ob ctx inp v = Inr r \<Longrightarrow> av_intervention r = vd_intervention v"
  by (auto simp: verdict_record_def rbind_Inr Let_def split: if_splits)

lemma batch_untouched:
  assumes "shield_for Hs period spec wc m su" "cores_ok su gs" "certify_all su obs ctx as gs = (Inr bs, gs')"
    and "\<And>r. Inr r \<in> set (batch_records su obs ctx as gs) \<Longrightarrow> av_intervention r = NoIntervention"
  shows "list_all2 (\<lambda>(a, r) b. untouched a b \<or> (\<exists>e. r = Inl e)) (zip as (batch_records su obs ctx as gs)) bs"
  using assms(2-4)
proof (induction as arbitrary: gs bs)
  case (Cons a as)
  let ?ob = "dict_get obs (action_agent a)"
  let ?inp = "core_input su ?ob a"
  obtain b g bs1 where one: "certify_action su obs ctx a gs = (Inr b, g)" "certify_all su obs ctx as g = (Inr bs1, gs')"
    "bs = b # bs1"
    using certify_all_Cons[OF Cons.prems(2)] .
  obtain v core' s where tick: "core_tick su (gs_steps gs) (core_for su gs (action_agent a)) ?inp = (v, core')"
    "certify_action su obs ctx a gs = (Inr (emit_action (wp_target (su_policy su)) a v),
      gs\<lparr>gs_cores := dict_set (gs_cores gs) (action_agent a) core', gs_steps := Suc (gs_steps gs), gs_sink := s\<rparr>)"
    by (rule certify_action_answers)
  then have b: "b = emit_action (wp_target (su_policy su)) a v"
    using one(1) by simp
  obtain c1 wd c2 where dec: "core_reaches (su_core su) c1" "core_decide c1 ?inp wd = (v, c2)"
    using core_tick_decides[OF core_for_reaches[OF Cons.prems(1)] tick(1)] by blast
  have "untouched a b" if "verdict_record su gs a ?ob ctx ?inp v = Inr r" for r
    unfolding b
    using that Cons.prems(3)[of r] recorded_intervention[OF that] tick(1)
    by (intro no_intervention_untouched[OF assms(1) dec]) (simp add: Let_def)
  then have "untouched a b \<or> (\<exists>e. verdict_record su gs a ?ob ctx ?inp v = Inl e)"
    by (cases "verdict_record su gs a ?ob ctx ?inp v") auto
  moreover have "list_all2 (\<lambda>(a, r) b. untouched a b \<or> (\<exists>e. r = Inl e)) (zip as (batch_records su obs ctx as g)) bs1"
    using Cons.prems(3) one certify_action_parts[OF one(1) Cons.prems(1)]
    by (intro Cons.IH) (simp_all add: Let_def)
  ultimately show ?case
    using one tick(1) by (simp add: Let_def)
qed simp

lemma recorded_tick:
  "verdict_record su gs a (Some ob) ctx inp v = Inr r \<Longrightarrow> 0 \<le> obs_tick ob"
  by (auto simp: verdict_record_def rbind_Inr record_valid_def Let_def split: if_splits)

lemma square_diff_nonneg: "square_diff p q = Inr (Some d) \<Longrightarrow> 0 \<le> d"
  by (auto simp: square_diff_def split: option.splits if_splits)

lemma l2_distance_nonneg:
  assumes "l2_distance a b = Inr (Some d)"
  shows "0 \<le> d"
proof -
  obtain ds where ds: "rmap (\<lambda>(x, y). square_diff x y) (zip a b) = Inr ds" "None \<notin> set ds" "d = sqrt (sum_list (map the ds))"
    using assms by (auto simp: l2_distance_def rbind_Inr split: if_splits)
  have "0 \<le> the x" if "x \<in> set ds" for x
    using rmap_image[OF ds(1) that] ds(2) that square_diff_nonneg by (cases x) auto
  then show ?thesis
    using ds(3) by (auto intro!: sum_list_nonneg)
qed

text \<open>Why a record is lost.\<close>

lemma record_lost:
  assumes "verdict_record su gs a ob ctx inp v = Inl e"
  shows "(\<exists>p q. (p, q) \<in> set (zip (vd_action v) (proposed_setpoint (in_proposed inp))) \<and> square_diff p q = Inl e)
    \<or> (case ob of None \<Rightarrow> gs_index gs | Some x \<Rightarrow> obs_tick x) < 0 \<or> su_latency su (gs_steps gs) < 0
    \<or> l2_distance (vd_action v) (proposed_setpoint (in_proposed inp)) = Inr None"
proof (cases "l2_distance (vd_action v) (proposed_setpoint (in_proposed inp))")
  case (Inl f)
  have "rmap h xs = Inl f \<Longrightarrow> \<exists>x \<in> set xs. h x = Inl f" for h :: "real option \<times> real option \<Rightarrow> fault + real option" and xs
    by (induction xs) (auto simp: rbind_def split: sum.splits)
  then show ?thesis
    using Inl assms by (fastforce simp: verdict_record_def l2_distance_def rbind_def split: sum.splits)
next
  case (Inr d)
  then have "pred_option (\<lambda>x. 0 \<le> x) d"
    using l2_distance_nonneg by (cases d) auto
  then show ?thesis
    using Inr assms by (cases d) (auto simp: verdict_record_def record_valid_def Let_def split: if_splits)
qed

text \<open>
  C16: A quiet report means an untouched batch, as far as the records of the tick were kept. When a
  report says that nothing intervened, every action of the composed proposal left the shield as it was,
  or with a setpoint within the core's tolerance of it, unless the verdict record of that very action
  was lost; and when no record of the tick was lost, all of them did. A record is lost only when its
  tick or its latency is negative, when the distance between the certified and the proposed setpoint
  overflows, or when that distance is not a number and the validation library refuses it (\<open>record_lost\<close>).
\<close>

theorem quiet_report_means_untouched:
  assumes "shield_for Hs period spec wc m su" "su_sink su = Some collect" "cores_ok su (gp_shield gp)"
    and "guard_shield_policy H su obs ctx (gp, w) = (Inr bs, (gp', w'))"
    and "gp_report gp' = Some r" "\<not> report_intervened r"
  defines "records \<equiv> batch_records su obs ctx (initial_upstream ctx) (gp_shield gp)"
  shows "list_all2 (\<lambda>(a, record) b. untouched a b \<or> (\<exists>e. record = Inl e)) (zip (initial_upstream ctx) records) bs
    \<and> ((\<forall>e. Inl e \<notin> set records) \<longrightarrow> list_all2 untouched (initial_upstream ctx) bs)"
proof -
  obtain gs' where run: "certify_all su obs ctx (initial_upstream ctx) (gp_shield gp) = (Inr bs, gs')"
    using guard_report(2)[OF assms(2,4)] by blast
  have "r = report_of H (kept records)"
    using guard_report(1)[OF assms(2,4)] assms(5) by (simp add: records_def)
  then have "av_intervention x = NoIntervention" if "Inr x \<in> set records" for x
    using assms(6) that by (auto simp: report_intervened_iff list_ex_iff kept_member)
  then have all: "list_all2 (\<lambda>(a, record) b. untouched a b \<or> (\<exists>e. record = Inl e)) (zip (initial_upstream ctx) records) bs"
    using batch_untouched[OF assms(1,3) run] by (simp add: records_def)
  have len: "length records = length (initial_upstream ctx)"
  proof -
    have "length (batch_records su obs ctx as gs) = length as" for as gs
      by (induction as arbitrary: gs) (simp_all add: Let_def)
    then show ?thesis
      by (simp add: records_def)
  qed
  have "list_all2 untouched (initial_upstream ctx) bs" if "\<forall>e. Inl e \<notin> set records"
    using all len that by (auto simp: list_all2_conv_all_nth) (metis nth_mem)
  then show ?thesis
    using all by blast
qed

text \<open>
  A lost record hides an intervention: when no record of a tick is kept, the report claims that nothing
  intervened, whatever the core replaced. A negative tick number loses every record that carries it.
\<close>

lemma nothing_kept_is_quiet:
  assumes "su_sink su = Some collect" "guard_shield_policy H su obs ctx (gp, w) = (Inr bs, (gp', w'))"
    and "\<And>r. Inr r \<notin> set (batch_records su obs ctx (initial_upstream ctx) (gp_shield gp))"
  shows "\<exists>r. gp_report gp' = Some r \<and> \<not> report_intervened r"
  using guard_report(1)[OF assms(1,2)] assms(3) by (auto simp: report_intervened_iff list_ex_iff kept_member)

theorem negative_tick_hides_intervention:
  assumes "su_sink su = Some collect" "\<forall>a \<in> set (initial_upstream ctx). \<exists>ob. dict_get obs (action_agent a) = Some ob \<and> obs_tick ob < 0"
    and "guard_shield_policy H su obs ctx (gp, w) = (Inr bs, (gp', w'))"
  shows "\<exists>r. gp_report gp' = Some r \<and> \<not> report_intervened r"
proof (rule nothing_kept_is_quiet[OF assms(1,3)])
  have "Inr r \<notin> set (batch_records su obs ctx as gs)"
    if "\<forall>a \<in> set as. \<exists>ob. dict_get obs (action_agent a) = Some ob \<and> obs_tick ob < 0" for r as gs
    using that
  proof (induction as arbitrary: gs)
    case (Cons a as)
    then obtain ob where ob: "dict_get obs (action_agent a) = Some ob" "obs_tick ob < 0"
      by auto
    then have "verdict_record su gs a (Some ob) ctx inp v \<noteq> Inr r" for inp v
      using recorded_tick by (metis not_less)
    then show ?case
      using Cons ob(1) by (auto simp: Let_def dest: sym)
  qed simp
  then show "Inr r \<notin> set (batch_records su obs ctx (initial_upstream ctx) (gp_shield gp))" for r
    using assms(2) by blast
qed

section \<open>What the core does not read\<close>

definition with_fields :: "string option \<Rightarrow> real option list \<Rightarrow> json \<Rightarrow> actuator_command \<Rightarrow> actuator_command" where
  "with_fields u ff rest c = c\<lparr>act_unit := u, act_feedforward := ff, act_other := rest\<rparr>"

text \<open>
  The unit and the feedforward of an actuator command reach the plant unchecked. The core decides on
  the setpoint alone: whatever a policy writes into the unit, the feedforward and the remaining fields
  of a command, the decision, the state of the cores and the sink stay the same. When the core replaces
  the command the emitted action does not depend on those fields either; when it does not, the emitted
  action is the proposed one with another setpoint, and every one of those fields leaves the shield
  exactly as the policy wrote it.
\<close>

theorem unread_fields_pass:
  assumes "action_kind a = ACTUATOR_ACTION" "action_actuator a = Some c"
    and "certify_action su obs ctx a gs = (Inr b, gs1)"
    and "certify_action su obs ctx (a\<lparr>action_actuator := Some (with_fields u ff rest c)\<rparr>) gs = (Inr b', gs2)"
  defines "verdict \<equiv> fst (core_tick su (gs_steps gs) (core_for su gs (action_agent a))
      (core_input su (dict_get obs (action_agent a)) a))"
  shows "gs_cores gs2 = gs_cores gs1 \<and> gs_sink gs2 = gs_sink gs1
    \<and> (if vd_intervention verdict = Fallback then b' = b
       else \<exists>y. b = a\<lparr>action_actuator := Some (c\<lparr>act_setpoint := y\<rparr>)\<rparr>
          \<and> b' = a\<lparr>action_actuator := Some (with_fields u ff rest (c\<lparr>act_setpoint := y\<rparr>))\<rparr>)"
proof -
  let ?a' = "a\<lparr>action_actuator := Some (with_fields u ff rest c)\<rparr>" and ?ob = "dict_get obs (action_agent a)"
  have same: "core_input su ob ?a' = core_input su ob a" for ob
    using assms(1,2) by (simp add: core_input_def classify_def with_fields_def Let_def split: option.splits)
  have rec: "verdict_record su gs ?a' ob ctx inp v = verdict_record su gs a ob ctx inp v" for ob inp v
    by (simp add: verdict_record_def)
  have rec': "emit_record su gs ?a' ob ctx inp v = emit_record su gs a ob ctx inp v" for ob inp v
    unfolding emit_record_def rec by (rule refl)
  obtain v core' s where tick: "core_tick su (gs_steps gs) (core_for su gs (action_agent a)) (core_input su ?ob a) = (v, core')"
    "emit_record su gs a ?ob ctx (core_input su ?ob a) v (gs_sink gs) = (Inr (), s)"
    by (rule certify_action_answers)
  have eqs: "b = emit_action (wp_target (su_policy su)) a v" "b' = emit_action (wp_target (su_policy su)) ?a' v"
    "gs_cores gs2 = gs_cores gs1" "gs_sink gs2 = gs_sink gs1" "verdict = v"
    using assms(3,4) tick by (auto simp: certify_action_def same rec' verdict_def Let_def)
  have "b' = b" if "vd_intervention v = Fallback"
    using that assms(2) by (simp add: eqs emit_action_def write_safe_action_def with_fields_def)
  moreover have "\<exists>y. b = a\<lparr>action_actuator := Some (c\<lparr>act_setpoint := y\<rparr>)\<rparr>
      \<and> b' = a\<lparr>action_actuator := Some (with_fields u ff rest (c\<lparr>act_setpoint := y\<rparr>))\<rparr>" if "vd_intervention v \<noteq> Fallback"
    using that assms(2)
    by (intro exI[of _ "if vd_action v = [] then act_setpoint c else vd_action v"])
       (auto simp: eqs(1,2) emit_action_def write_certified_action_def with_fields_def)
  ultimately show ?thesis
    using eqs by auto
qed

section \<open>A guarded demonstration stack\<close>

definition demo_wrap :: wrap_config where
  "demo_wrap = default_wrap_config\<lparr>wc_policy := default_action_policy\<lparr>wp_modes := [''idle''], wp_tasks := [''goto'']\<rparr>\<rparr>"

definition charged_shield :: "real \<Rightarrow> safety_core \<Rightarrow> audit_verdict list shield_setup" where
  "charged_shield e core = \<lparr>su_core = core, su_policy = wc_policy demo_wrap,
     su_resolver = mapping_resolver [(''e'', Some e), (''v'', Some 1)], su_watchdog = False, su_overran = (\<lambda>n. False),
     su_latency = (\<lambda>n. 0), su_sink = Some collect, su_lenient = (\<lambda>r. True)\<rparr>"

definition demo_shield_of :: "safety_core \<Rightarrow> audit_verdict list shield_setup" where
  "demo_shield_of = charged_shield 50"

lemma demo_wrap_config: "core_config_of demo_wrap Effort = demo_guard_config"
  by (simp add: core_config_of_def demo_wrap_def default_wrap_config_def default_action_policy_def demo_guard_config_def)

lemma charged_shield_for:
  assumes "compile_spec H 1 (demo_contract []) = Inr m" "core_from_model demo_guard_config m = Inr c0"
  shows "shield_for H 1 (demo_contract []) demo_wrap m (charged_shield e c0)"
proof -
  have "assert_core_compatible shield_core_interfaces None = Inr ()"
    by code_simp
  moreover have "wp_fallback_mode (wc_policy demo_wrap) = EFFORT" "wc_deadline demo_wrap = None"
    by (simp_all add: demo_wrap_def default_wrap_config_def default_action_policy_def)
  ultimately have "policy_shield None demo_wrap m (Some (mapping_resolver [(''e'', Some e), (''v'', Some 1)])) False
      (\<lambda>n. False) (\<lambda>n. 0) (Some collect) (\<lambda>r. True) = Inr (charged_shield e c0)"
    using assms(2)
    by (simp add: policy_shield_def build_core_def action_policy_channel_def demo_wrap_config charged_shield_def)
  moreover have "0 \<le> wc_u_max demo_wrap" "0 \<le> wc_v_max demo_wrap" "0 \<le> wc_k_brake demo_wrap"
    by (simp_all add: demo_wrap_def default_wrap_config_def)
  ultimately show ?thesis
    using assms(1) unfolding shield_for_def by blast
qed

lemmas demo_shield_for = charged_shield_for[where e = 50, folded demo_shield_of_def]

theorem guarded_stack_emits_only_guarded_witness:
  "\<exists>m su. shield_for (\<lambda>_. ''h'') 1 (demo_contract []) demo_wrap m su
    \<and> (case executive_run (guarded_graph (\<lambda>_. ''c'') su demo_graph) (lift_environment demo_environment) 3 (Some 1) None None
        (plugin_start, []) of (r, (gp, sent)) \<Rightarrow> list_all (list_all (guarded_action (demo_contract []) demo_wrap)) sent)"
proof -
  obtain m c0 where d: "compile_spec (\<lambda>_. ''h'') 1 (demo_contract []) = Inr m" "core_from_model demo_guard_config m = Inr c0"
    using demo_core[of "[]"] by metis
  let ?J = "list_all (list_all (guarded_action (demo_contract []) demo_wrap))"
  have "tiers_keep ?J (graph_tiers (demo_graph :: action_batch list hierarchy_graph))"
    by (simp add: tiers_keep_def demo_graph_def demo_wild_keeps) (simp add: demo_wild_tier_def)
  moreover have "\<forall>seed options. keeps ?J (env_reset demo_environment seed options)"
    "\<forall>b. list_all (guarded_action (demo_contract []) demo_wrap) b \<longrightarrow> keeps ?J (env_step demo_environment b)"
    by (simp_all add: demo_environment_def keeps_def sret_def)
  ultimately have run: "case executive_run (guarded_graph (\<lambda>_. ''c'') (demo_shield_of c0) demo_graph)
      (lift_environment demo_environment) 3 (Some 1) None None (plugin_start, []) of (r, (gp, w')) \<Rightarrow>
    ?J w' \<and> (case r of Inl e \<Rightarrow> True | Inr res \<Rightarrow>
      list_all (\<lambda>t. list_all (guarded_action (demo_contract []) demo_wrap) (tr_batch t)) (trace_ticks (run_trace res)))"
    by (intro guarded_stack_emits_only_guarded[OF demo_shield_for[OF d]]) simp_all
  show ?thesis
    using run demo_shield_for[OF d] by (intro exI[of _ m] exI[of _ "demo_shield_of c0"]) (simp split: prod.splits)
qed

definition demo_sighting :: "int \<Rightarrow> observation" where
  "demo_sighting tick = demo_observation\<lparr>obs_tick := tick,
     obs_state := at_rest\<lparr>sample_position := (Some 5, Some 0, Some 0)\<rparr>\<rparr>"

definition demo_drive :: "real option list \<Rightarrow> action" where
  "demo_drive ff = \<lparr>action_agent = ''r1'', action_kind = ACTUATOR_ACTION,
     action_actuator = Some \<lparr>act_target = ''wheels'', act_mode = VELOCITY, act_setpoint = map Some [- 1, 0, 0],
       act_unit = None, act_feedforward = ff, act_other = JNull\<rparr>,
     action_mode = None, action_task = None, action_time = None\<rparr>"

definition demo_upstream :: "action list \<Rightarrow> decision_context" where
  "demo_upstream as = demo_context\<lparr>ctx_upstream := Some as\<rparr>"

lemma charged_core_input:
  assumes "cm_signals (core_model c0) = [''e'', ''v'']" "core_dim c0 = 3"
  shows "core_input (charged_shield e c0) (Some (demo_sighting tick)) a
    = demo_input e (classify a 3)"
  by (simp add: core_input_def shield_signals_def assms charged_shield_def mapping_resolver_def fit_signals_def demo_input_def
      read_position_def read_velocity_def demo_sighting_def at_rest_def fit_def float3_list_def eval_nat_numeral)

lemma demo_classified: "classify (demo_drive ff) 3 = demo_move"
  by (simp add: demo_move_def classify_def demo_drive_def)

lemma no_overflow_small: "\<bar>x\<bar> \<le> 1 \<Longrightarrow> \<not> f64_overflow x"
proof -
  have "(1::real) < 2 ^ 1024 - 2 ^ 970"
    by simp
  then show "\<bar>x\<bar> \<le> 1 \<Longrightarrow> ?thesis"
    unfolding f64_overflow_def by linarith
qed

lemma demo_certify:
  assumes "core_decide c0 (demo_input 50 demo_move) False
      = (certified_verdict (map Some [- 1, 0, 0]) Velocity False margin, c')"
    and "cm_signals (core_model c0) = [''e'', ''v'']" "core_dim c0 = 3"
  defines "su \<equiv> demo_shield_of c0" and "obs \<equiv> [(''r1'', demo_sighting 0)]"
  obtains r where "certify_action su obs ctx (demo_drive ff) (shield_start []) =
      (Inr (demo_drive ff), \<lparr>gs_cores = [(''r1'', c')], gs_index = 0, gs_steps = 1, gs_sink = [r]\<rparr>)"
    "batch_records su obs ctx [demo_drive ff] (shield_start []) = [Inr r]" "av_intervention r = NoIntervention"
proof -
  define v where "v = certified_verdict (map Some [- 1, 0, 0]) Velocity False margin"
  have inp: "core_input su (Some (demo_sighting 0)) (demo_drive ff) = demo_input 50 demo_move"
    using charged_core_input[OF assms(2,3), of 50 0 "demo_drive ff"] by (simp add: su_def demo_shield_of_def demo_classified)
  have tick: "core_tick su 0 (core_for su (shield_start []) ''r1'') (demo_input 50 demo_move) = (v, c')"
    using assms(1) by (simp add: v_def core_tick_def core_for_def shield_start_def su_def demo_shield_of_def charged_shield_def)
  have agent: "action_agent (demo_drive ff) = ''r1''" "dict_get obs ''r1'' = Some (demo_sighting 0)"
    by (simp_all add: demo_drive_def obs_def)
  have "l2_distance (map Some [- 1, 0, 0]) (map Some [- 1, 0, 0]) = Inr (Some 0)"
    by (simp add: l2_distance_def square_diff_def no_overflow_small)
  then obtain r where r: "verdict_record su (shield_start []) (demo_drive ff) (Some (demo_sighting 0)) ctx
      (demo_input 50 demo_move) v = Inr r"
    by (auto simp: verdict_record_def record_valid_def demo_input_def demo_move_def demo_sighting_def su_def
        demo_shield_of_def charged_shield_def v_def certified_verdict_def Let_def)
  have sink: "su_sink su = Some collect"
    by (simp add: su_def demo_shield_of_def charged_shield_def)
  have start: "gs_cores (shield_start []) = []" "gs_index (shield_start []) = 0" "gs_steps (shield_start []) = 0"
    "gs_sink (shield_start []) = []"
    by (simp_all add: shield_start_def)
  have drive: "emit_action t (demo_drive ff) v = demo_drive ff" for t
    by (simp add: emit_action_def v_def certified_verdict_def write_certified_action_def demo_drive_def)
  have whole: "(shield_start [])\<lparr>gs_cores := x, gs_steps := n, gs_sink := s\<rparr>
      = \<lparr>gs_cores = x, gs_index = 0, gs_steps = n, gs_sink = s\<rparr>" for x n and s :: "audit_verdict list"
    by (simp add: shield_start_def)
  show thesis
  proof (rule that)
    show "certify_action su obs ctx (demo_drive ff) (shield_start []) =
      (Inr (demo_drive ff), \<lparr>gs_cores = [(''r1'', c')], gs_index = 0, gs_steps = 1, gs_sink = [r]\<rparr>)"
      unfolding certify_action_def
      by (simp add: agent inp start tick r emit_collects[OF sink] drive kept_def whole Let_def)
    show "batch_records su obs ctx [demo_drive ff] (shield_start []) = [Inr r]"
      by (simp add: agent inp start tick r Let_def)
    show "av_intervention r = NoIntervention"
      using recorded_intervention[OF r] by (simp add: v_def certified_verdict_def)
  qed
qed

theorem quiet_report_means_untouched_witness:
  "\<exists>m su bs gp' r. shield_for (\<lambda>_. ''h'') 1 (demo_contract []) demo_wrap m su
    \<and> guard_shield_policy (\<lambda>_. ''c'') su [(''r1'', demo_sighting 0)] (demo_upstream [demo_drive []]) (plugin_start, ())
        = (Inr bs, (gp', ()))
    \<and> gp_report gp' = Some r \<and> \<not> report_intervened r \<and> list_all2 untouched [demo_drive []] bs"
proof -
  obtain m c0 margin c' where d: "compile_spec (\<lambda>_. ''h'') 1 (demo_contract []) = Inr m"
    "core_from_model demo_guard_config m = Inr c0" "cm_keep_outs m \<noteq> []" "cm_signals m = [''e'', ''v'']"
    "core_decide c0 (demo_input 50 demo_move) False = (certified_verdict (map Some [- 1, 0, 0]) Velocity False margin, c')"
    using demo_moves by metis
  note run = running_core[OF d(1,2) core_reaches.start]
  let ?su = "demo_shield_of c0" and ?obs = "[(''r1'', demo_sighting 0)]" and ?ctx = "demo_upstream [demo_drive []]"
  have up: "initial_upstream ?ctx = [demo_drive []]"
    by (simp add: initial_upstream_def demo_upstream_def)
  have core: "cm_signals (core_model c0) = [''e'', ''v'']" "core_dim c0 = 3"
    using run(1,4) d(3,4) by simp_all
  obtain x where x: "batch_records ?su ?obs ?ctx [demo_drive []] (shield_start []) = [Inr x]" "av_intervention x = NoIntervention"
    using demo_certify[OF d(5) core] by metis
  obtain bs gs where "guard_shield_policy (\<lambda>_. ''c'') ?su ?obs ?ctx (plugin_start, ()) =
      (Inr bs, (\<lparr>gp_shield = gs, gp_report = Some (report_of (\<lambda>_. ''c'') (drop (length (gs_sink (gp_shield plugin_start))) (gs_sink gs)))\<rparr>, ()))"
    by (rule guard_shield_policy_batch)
  then obtain gp' where gp': "guard_shield_policy (\<lambda>_. ''c'') ?su ?obs ?ctx (plugin_start, ()) = (Inr bs, (gp', ()))"
    by blast
  have ok: "cores_ok ?su (gp_shield plugin_start)" "su_sink ?su = Some collect"
    by (simp_all add: demo_shield_of_def charged_shield_def plugin_start_def)
  have rep: "gp_report gp' = Some (report_of (\<lambda>_. ''c'') [x])"
    using guard_report(1)[OF ok(2) gp'] x(1) by (simp add: up plugin_start_def kept_def)
  then have quiet: "\<not> report_intervened (report_of (\<lambda>_. ''c'') [x])"
    using x(2) by (simp add: report_intervened_iff)
  have "list_all2 untouched (initial_upstream ?ctx) bs"
    using quiet_report_means_untouched[OF demo_shield_for[OF d(1,2)] ok(2,1) gp' rep quiet] x(1)
    by (simp add: up plugin_start_def)
  then show ?thesis
    using demo_shield_for[OF d(1,2)] gp' rep quiet up by fastforce
qed

definition demo_refused :: action where
  "demo_refused = standby_action ''r1''"

theorem negative_tick_hides_intervention_witness:
  "\<exists>m su b gp' r. shield_for (\<lambda>_. ''h'') 1 (demo_contract []) demo_wrap m su
    \<and> guard_shield_policy (\<lambda>_. ''c'') su [(''r1'', demo_sighting (- 1))] (demo_upstream [demo_refused]) (plugin_start, ())
        = (Inr [b], (gp', ()))
    \<and> gp_report gp' = Some r \<and> \<not> report_intervened r \<and> b \<noteq> demo_refused"
proof -
  obtain m c0 where d: "compile_spec (\<lambda>_. ''h'') 1 (demo_contract []) = Inr m" "core_from_model demo_guard_config m = Inr c0"
    using demo_core[of "[]"] by metis
  let ?su = "demo_shield_of c0" and ?obs = "[(''r1'', demo_sighting (- 1))]" and ?ctx = "demo_upstream [demo_refused]"
  have up: "initial_upstream ?ctx = [demo_refused]"
    by (simp add: initial_upstream_def demo_upstream_def)
  obtain b gs where one: "certify_action ?su ?obs ?ctx demo_refused (shield_start []) = (Inr b, gs)"
    using certify_action_answers by metis
  have fresh: "gp_shield plugin_start = shield_start []"
    by (simp add: plugin_start_def)
  obtain gp' where gp': "guard_shield_policy (\<lambda>_. ''c'') ?su ?obs ?ctx (plugin_start, ()) = (Inr [b], (gp', ()))"
    using guard_shield_single[OF up, of ?su ?obs plugin_start b gs "\<lambda>_. ''c''" "()"] one(1) unfolding fresh by blast
  have "guarded_action (demo_contract []) demo_wrap b"
    using certify_action_guarded[OF demo_shield_for[OF d] _ one(1)] by simp
  moreover have "\<not> guarded_action (demo_contract []) demo_wrap demo_refused"
    by (simp add: guarded_action_def demo_refused_def standby_action_def demo_contract_def)
  ultimately have "b \<noteq> demo_refused"
    by blast
  moreover have "\<forall>a \<in> set (initial_upstream ?ctx). \<exists>ob. dict_get ?obs (action_agent a) = Some ob \<and> obs_tick ob < 0"
    unfolding up by (simp add: demo_refused_def standby_action_def demo_sighting_def)
  then obtain r where "gp_report gp' = Some r \<and> \<not> report_intervened r"
    using negative_tick_hides_intervention[OF _ _ gp'] by (auto simp: demo_shield_of_def charged_shield_def)
  ultimately show ?thesis
    using demo_shield_for[OF d] gp' by blast
qed

text \<open>
  A huge proposal hides its own replacement. On the contract below, a rover whose charge is under its
  floor proposes a velocity of 1e200 m/s: the core replaces it by a stop, the divergence of the record
  overflows, the record is dropped, and the report of the tick says that nothing intervened.
\<close>

definition huge_drive :: action where
  "huge_drive = \<lparr>action_agent = ''r1'', action_kind = ACTUATOR_ACTION,
     action_actuator = Some \<lparr>act_target = ''wheels'', act_mode = VELOCITY, act_setpoint = map Some [10 ^ 200, 0, 0],
       act_unit = None, act_feedforward = [], act_other = JNull\<rparr>,
     action_mode = None, action_task = None, action_time = None\<rparr>"

theorem huge_proposal_hides_intervention:
  "\<exists>m su b c gp' r. shield_for (\<lambda>_. ''h'') 1 (demo_contract []) demo_wrap m su
    \<and> guard_shield_policy (\<lambda>_. ''c'') su [(''r1'', demo_sighting 0)] (demo_upstream [huge_drive]) (plugin_start, ())
        = (Inr [b], (gp', ()))
    \<and> gp_report gp' = Some r \<and> \<not> report_intervened r
    \<and> action_actuator b = Some c \<and> act_setpoint c = [Some 0, Some 0, Some 0]"
proof -
  obtain m c0 where d: "compile_spec (\<lambda>_. ''h'') 1 (demo_contract []) = Inr m"
    "core_from_model demo_guard_config m = Inr c0" "cm_keep_outs m \<noteq> []" "cm_signals m = [''e'', ''v'']"
    using demo_core[of "[]"] by blast
  note run = running_core[OF d(1,2) core_reaches.start]
  let ?su = "charged_shield 5 c0" and ?obs = "[(''r1'', demo_sighting 0)]" and ?ctx = "demo_upstream [huge_drive]"
  let ?inp = "demo_input 5 (VelocityCmd [Some (10 ^ 200), Some 0, Some 0])"
  have up: "initial_upstream ?ctx = [huge_drive]"
    by (simp add: initial_upstream_def demo_upstream_def)
  have core: "cm_signals (core_model c0) = [''e'', ''v'']" "core_dim c0 = 3"
    using run(1,4) d(3,4) by simp_all
  have agent: "action_agent huge_drive = ''r1''" "dict_get ?obs ''r1'' = Some (demo_sighting 0)"
    by (simp_all add: huge_drive_def)
  have inp: "core_input ?su (Some (demo_sighting 0)) huge_drive = ?inp"
    unfolding charged_core_input[OF core] by (simp add: classify_def huge_drive_def)
  obtain v c1 where dec: "core_decide c0 ?inp False = (v, c1)"
    by (cases "core_decide c0 ?inp False")
  have low: "vd_intervention v = Fallback \<and> vd_mode v = Velocity \<and> vd_action v = [Some 0, Some 0, Some 0]"
    using low_charge_stops[OF d dec] by simp
  have "2 ^ 1024 - 2 ^ 970 \<le> (10 ^ 200 :: real) ^ 2" "(10 ^ 200 :: real) < 2 ^ 1024 - 2 ^ 970"
    by (simp_all flip: power_mult)
  then have "square_diff (Some 0) (Some (10 ^ 200)) = Inl (PluginFault ''OverflowError'')"
    by (simp add: square_diff_def f64_overflow_def)
  then have "verdict_record ?su (shield_start []) huge_drive (Some (demo_sighting 0)) ?ctx ?inp v
      = Inl (PluginFault ''OverflowError'')"
    using low by (simp add: verdict_record_def l2_distance_def demo_input_def)
  moreover have tick: "core_tick ?su 0 (core_for ?su (shield_start []) ''r1'') ?inp = (v, c1)"
    using dec by (simp add: core_tick_def core_for_def shield_start_def charged_shield_def)
  ultimately have lost: "batch_records ?su ?obs ?ctx [huge_drive] (shield_start []) = [Inl (PluginFault ''OverflowError'')]"
    by (simp add: agent inp Let_def) (simp add: shield_start_def)
  obtain b gs where one: "certify_action ?su ?obs ?ctx huge_drive (shield_start []) = (Inr b, gs)"
    "b = emit_action (wp_target (su_policy ?su)) huge_drive v"
  proof (rule certify_action_answers[of ?su "shield_start []" huge_drive ?obs ?ctx])
    fix w core' s
    assume w: "core_tick ?su (gs_steps (shield_start [])) (core_for ?su (shield_start []) (action_agent huge_drive))
        (core_input ?su (dict_get ?obs (action_agent huge_drive)) huge_drive) = (w, core')"
      and act: "certify_action ?su ?obs ?ctx huge_drive (shield_start []) =
        (Inr (emit_action (wp_target (su_policy ?su)) huge_drive w),
         (shield_start [])\<lparr>gs_cores := dict_set (gs_cores (shield_start [])) (action_agent huge_drive) core',
           gs_steps := Suc (gs_steps (shield_start [])), gs_sink := s\<rparr>)"
    have "w = v"
      using w tick unfolding agent inp by (simp add: shield_start_def)
    then show thesis
      using that[OF act] by simp
  qed
  have fresh: "gp_shield plugin_start = shield_start []"
    by (simp add: plugin_start_def)
  obtain gp' where gp': "guard_shield_policy (\<lambda>_. ''c'') ?su ?obs ?ctx (plugin_start, ()) = (Inr [b], (gp', ()))"
    using guard_shield_single[OF up, of ?su ?obs plugin_start b gs "\<lambda>_. ''c''" "()"] one(1) unfolding fresh by blast
  have "su_sink ?su = Some collect"
    by (simp add: charged_shield_def)
  from nothing_kept_is_quiet[OF this gp'] obtain r where "gp_report gp' = Some r" "\<not> report_intervened r"
    using lost by (auto simp: up plugin_start_def)
  moreover obtain c where "action_actuator b = Some c" "act_setpoint c = [Some 0, Some 0, Some 0]"
    using low one(2) by (simp add: emit_action_def write_safe_action_def)
  ultimately show ?thesis
    using charged_shield_for[OF d(1,2)] gp' by blast
qed

theorem unread_fields_pass_witness:
  "\<exists>m (su :: audit_verdict list shield_setup) gs1 gs2 d. shield_for (\<lambda>_. ''h'') 1 (demo_contract []) demo_wrap m su
    \<and> certify_action su [(''r1'', demo_sighting 0)] (demo_upstream []) (demo_drive []) (shield_start []) = (Inr (demo_drive []), gs1)
    \<and> certify_action su [(''r1'', demo_sighting 0)] (demo_upstream []) (demo_drive [Some 1000]) (shield_start [])
        = (Inr (demo_drive [Some 1000]), gs2)
    \<and> gs_cores gs2 = gs_cores gs1 \<and> action_actuator (demo_drive [Some 1000]) = Some d \<and> act_feedforward d = [Some 1000]"
proof -
  obtain m c0 margin c' where d: "compile_spec (\<lambda>_. ''h'') 1 (demo_contract []) = Inr m"
    "core_from_model demo_guard_config m = Inr c0" "cm_keep_outs m \<noteq> []" "cm_signals m = [''e'', ''v'']"
    "core_decide c0 (demo_input 50 demo_move) False = (certified_verdict (map Some [- 1, 0, 0]) Velocity False margin, c')"
    using demo_moves by metis
  note run = running_core[OF d(1,2) core_reaches.start]
  have core: "cm_signals (core_model c0) = [''e'', ''v'']" "core_dim c0 = 3"
    using run(1,4) d(3,4) by simp_all
  let ?su = "demo_shield_of c0" and ?obs = "[(''r1'', demo_sighting 0)]"
  obtain c where c: "action_kind (demo_drive []) = ACTUATOR_ACTION" "action_actuator (demo_drive []) = Some c"
    "demo_drive [Some 1000] = (demo_drive [])\<lparr>action_actuator := Some (with_fields None [Some 1000] JNull c)\<rparr>"
    by (simp add: demo_drive_def with_fields_def)
  obtain gs1 where 1: "certify_action ?su ?obs (demo_upstream []) (demo_drive []) (shield_start []) = (Inr (demo_drive []), gs1)"
    using demo_certify[OF d(5) core, of "demo_upstream []" "[]"] by metis
  obtain gs2 where 2: "certify_action ?su ?obs (demo_upstream []) (demo_drive [Some 1000]) (shield_start [])
      = (Inr (demo_drive [Some 1000]), gs2)"
    using demo_certify[OF d(5) core, of "demo_upstream []" "[Some 1000]"] by metis
  have "gs_cores gs2 = gs_cores gs1"
    using unread_fields_pass[OF c(1,2) 1, of None "[Some 1000]" JNull] 2 by (simp flip: c(3))
  moreover obtain e where ff: "action_actuator (demo_drive [Some 1000]) = Some e" "act_feedforward e = [Some 1000]"
    by (simp add: demo_drive_def)
  ultimately show ?thesis
    using demo_shield_for[OF d(1,2)] 1 2 by blast
qed

end
