(* ===== verification/Link_Windows.thy ===== *)
theory Link_Windows
  imports Bench_Scenario Mind_Model
begin

text \<open>
  Contact windows: the reduction of a visibility predicate to contact intervals
  (\<^verbatim>\<open>link/windows/_search.py\<close>, \<^verbatim>\<open>_window.py\<close>, \<^verbatim>\<open>_relay.py\<close>) over the half-open epoch windows of
  \<^verbatim>\<open>core/units/model.py\<close>. Seconds are exact rationals. The predicate (terrain-occluded line of
  sight, an elevation mask) is an argument and may raise; whether a sampling or bisection loop
  returns is part of the statements, \<open>None\<close> being a loop that does not.
\<close>

section \<open>Errors and epoch windows\<close>

text \<open>
  The exceptions of \<^verbatim>\<open>link\<close>: a \<^verbatim>\<open>ValueError\<close> of the units model, the \<^verbatim>\<open>Link*Error\<close>s, the
  interpreter's own, and whatever a visibility predicate raises.
\<close>

datatype link_error =
    EmptyWindow rat rat
  | BadStep rat
  | BadRefine rat rat
  | NoSample
  | OpenStartMissing
  | PredicateRaised string
  | UndeclaredNodes string string "string list"
  | SchemaViolation string
  | IntervalPrecedes nat rat rat
  | UnknownAgent string
  | NotAuthorized string
  | NotAnEndpoint string string string
  | UnknownEndpoint string string
  | NegativeSize rat
  | NoPredecessor string
  | UnknownPair string
  | EmptyConstellation
  | DuplicateNames "string list"
  | NoCentreBody string
  | UnknownSource string

record epoch_window =
  win_start :: epoch
  win_end :: epoch

abbreviation start_s :: "epoch_window \<Rightarrow> rat" where
  "start_s w \<equiv> tdb_seconds (win_start w)"

abbreviation end_s :: "epoch_window \<Rightarrow> rat" where
  "end_s w \<equiv> tdb_seconds (win_end w)"

definition make_window :: "epoch \<Rightarrow> epoch \<Rightarrow> link_error + epoch_window" where
  "make_window s e =
    (if tdb_seconds e \<le> tdb_seconds s then Inl (EmptyWindow (tdb_seconds s) (tdb_seconds e))
     else Inr \<lparr>win_start = s, win_end = e\<rparr>)"

definition window_ok :: "epoch_window \<Rightarrow> bool" where
  "window_ok w = (start_s w < end_s w)"

lemma make_window_ok [simp]:
  "(make_window s e = Inr w) = (w = \<lparr>win_start = s, win_end = e\<rparr> \<and> window_ok w)"
  by (auto simp: make_window_def window_ok_def)

definition tdb_epoch :: "rat \<Rightarrow> epoch" where
  "tdb_epoch t = \<lparr>tdb_seconds = t, ep_scale = TDB\<rparr>"

lemma tdb_epoch_seconds [simp]: "tdb_seconds (tdb_epoch t) = t"
  by (simp add: tdb_epoch_def)

section \<open>Fallible loops\<close>

text \<open>A loop that may not return and may raise: \<open>None\<close>, \<open>Some (Inl e)\<close> or \<open>Some (Inr x)\<close>.\<close>

definition lbind :: "('e + 'a) option \<Rightarrow> ('a \<Rightarrow> ('e + 'b) option) \<Rightarrow> ('e + 'b) option" where
  "lbind r f = (case r of None \<Rightarrow> None | Some (Inl e) \<Rightarrow> Some (Inl e) | Some (Inr x) \<Rightarrow> f x)"

lemma lbind_simps [result_simps, simp]:
  "lbind None f = None"
  "lbind (Some (Inl e)) f = Some (Inl e)"
  "lbind (Some (Inr x)) f = f x"
  by (simp_all add: lbind_def)

lemma lbind_Inr: "(lbind r f = Some (Inr y)) = (\<exists>x. r = Some (Inr x) \<and> f x = Some (Inr y))"
  by (cases r; cases "the r") auto

section \<open>Sampling\<close>

record contact_window =
  cw_observer :: string
  cw_target :: string
  cw_start :: epoch
  cw_end :: epoch

definition duration_s :: "contact_window \<Rightarrow> rat" where
  "duration_s c = tdb_seconds (cw_end c) - tdb_seconds (cw_start c)"

definition cw_covers :: "contact_window \<Rightarrow> rat \<Rightarrow> bool" where
  "cw_covers c t = (tdb_seconds (cw_start c) \<le> t \<and> t < tdb_seconds (cw_end c))"

type_synonym visibility = "epoch \<Rightarrow> link_error + bool"

partial_function (option) grid_loop ::
    "rat \<Rightarrow> rat \<Rightarrow> rat \<Rightarrow> nat \<Rightarrow> rat \<Rightarrow> rat list \<Rightarrow> rat list option" where
  "grid_loop start stop step_s i t acc =
    (if t < stop
     then grid_loop start stop step_s (Suc i) (start + of_nat (Suc i) * step_s) (acc @ [t])
     else Some acc)"

definition sample_grid :: "epoch_window \<Rightarrow> rat \<Rightarrow> rat list option" where
  "sample_grid w step_s = grid_loop (start_s w) (end_s w) step_s 0 (start_s w) []"

partial_function (option) bisect ::
    "visibility \<Rightarrow> bool \<Rightarrow> rat \<Rightarrow> rat \<Rightarrow> rat \<Rightarrow> (link_error + rat) option" where
  "bisect visible lo_vis refine_s lo hi =
    (if hi - lo > refine_s
     then (case visible (tdb_epoch ((lo + hi) / 2)) of
             Inl e \<Rightarrow> Some (Inl e)
           | Inr v \<Rightarrow> if v = lo_vis then bisect visible lo_vis refine_s ((lo + hi) / 2) hi
                      else bisect visible lo_vis refine_s lo ((lo + hi) / 2))
     else Some (Inr hi))"

definition boundary ::
    "visibility \<Rightarrow> rat \<Rightarrow> rat \<Rightarrow> bool \<Rightarrow> rat option \<Rightarrow> (link_error + rat) option" where
  "boundary visible lo hi lo_vis refine_s =
    (case refine_s of None \<Rightarrow> Some (Inr hi) | Some r \<Rightarrow> bisect visible lo_vis r lo hi)"

section \<open>The window search\<close>

record scan =
  sc_time :: rat
  sc_vis :: bool
  sc_open :: "epoch option"
  sc_windows :: "contact_window list"

definition advance :: "rat \<Rightarrow> bool \<Rightarrow> scan \<Rightarrow> scan" where
  "advance t v s = s\<lparr>sc_time := t, sc_vis := v\<rparr>"

definition open_contact :: "rat \<Rightarrow> scan \<Rightarrow> scan" where
  "open_contact b s = s\<lparr>sc_open := Some (tdb_epoch b)\<rparr>"

definition close_contact :: "string \<times> string \<Rightarrow> epoch \<Rightarrow> epoch \<Rightarrow> scan \<Rightarrow> scan" where
  "close_contact pair st e s =
    s\<lparr>sc_open := None, sc_windows := sc_windows s @
      [\<lparr>cw_observer = fst pair, cw_target = snd pair, cw_start = st, cw_end = e\<rparr>]\<rparr>"

definition scan_step ::
    "string \<times> string \<Rightarrow> visibility \<Rightarrow> rat option \<Rightarrow> rat \<Rightarrow> scan \<Rightarrow> (link_error + scan) option" where
  "scan_step pair visible refine_s t s =
    lbind (Some (visible (tdb_epoch t))) (\<lambda>v.
      if v \<and> \<not> sc_vis s then
        lbind (boundary visible (sc_time s) t (sc_vis s) refine_s) (\<lambda>b.
          Some (Inr (advance t v (open_contact b s))))
      else if \<not> v \<and> sc_vis s then
        (case sc_open s of
           None \<Rightarrow> Some (Inl OpenStartMissing)
         | Some st \<Rightarrow>
             lbind (boundary visible (sc_time s) t (sc_vis s) refine_s) (\<lambda>b.
               Some (Inr (advance t v (close_contact pair st (tdb_epoch b) s)))))
      else Some (Inr (advance t v s)))"

fun scan_all ::
    "string \<times> string \<Rightarrow> visibility \<Rightarrow> rat option \<Rightarrow> rat list \<Rightarrow> scan \<Rightarrow> (link_error + scan) option" where
  "scan_all pair visible refine_s [] s = Some (Inr s)"
| "scan_all pair visible refine_s (t # ts) s =
    lbind (scan_step pair visible refine_s t s) (scan_all pair visible refine_s ts)"

definition finish_scan :: "string \<times> string \<Rightarrow> epoch_window \<Rightarrow> scan \<Rightarrow> contact_window list" where
  "finish_scan pair w s =
    (case sc_open s of
       Some st \<Rightarrow> if sc_vis s then sc_windows (close_contact pair st (win_end w) s) else sc_windows s
     | None \<Rightarrow> sc_windows s)"

definition search_windows ::
    "string \<times> string \<Rightarrow> visibility \<Rightarrow> epoch_window \<Rightarrow> rat \<Rightarrow> rat option
      \<Rightarrow> (link_error + contact_window list) option" where
  "search_windows pair visible w step_s refine_s =
    (if step_s \<le> 0 then Some (Inl (BadStep step_s))
     else if (case refine_s of None \<Rightarrow> False | Some r \<Rightarrow> \<not> (0 < r \<and> r \<le> step_s))
       then Some (Inl (BadRefine (the refine_s) step_s))
     else case sample_grid w step_s of
       None \<Rightarrow> None
     | Some [] \<Rightarrow> Some (Inl NoSample)
     | Some (t # ts) \<Rightarrow>
         lbind (Some (visible (tdb_epoch t))) (\<lambda>v.
           lbind (scan_all pair visible refine_s ts
                   \<lparr>sc_time = t, sc_vis = v, sc_open = (if v then Some (win_start w) else None),
                    sc_windows = []\<rparr>)
             (\<lambda>s. Some (Inr (finish_scan pair w s)))))"

section \<open>The loops return\<close>

lemma grid_loop_appends:
  assumes "0 < step_s" "t = start + of_nat i * step_s"
  shows "\<exists>n\<ge>i. grid_loop start stop step_s i t acc
      = Some (acc @ map (\<lambda>k. start + of_nat k * step_s) [i..<n])
    \<and> (\<forall>k\<ge>i. k < n \<longleftrightarrow> start + of_nat k * step_s < stop)"
  using assms(2)
proof (induction "nat \<lceil>(stop - t) / step_s\<rceil>" arbitrary: i t acc rule: less_induct)
  case less
  show ?case
  proof (cases "t < stop")
    case False
    have "\<not> start + of_nat k * step_s < stop" if "i \<le> k" for k
    proof -
      have "of_nat i * step_s \<le> of_nat k * step_s" using that assms(1) by (simp add: mult_right_mono)
      then show ?thesis using False less.prems by linarith
    qed
    then show ?thesis using False by (intro exI[of _ i]) (auto simp: grid_loop.simps)
  next
    case True
    let ?t = "start + of_nat (Suc i) * step_s"
    have t: "?t = t + step_s" by (simp add: less.prems distrib_right)
    have "(stop - ?t) / step_s = (stop - t) / step_s - 1"
      unfolding t using assms(1) by (simp add: field_simps)
    then have "\<lceil>(stop - ?t) / step_s\<rceil> = \<lceil>(stop - t) / step_s\<rceil> - 1" by simp
    moreover have "0 < \<lceil>(stop - t) / step_s\<rceil>" using True assms(1) by simp
    ultimately have "nat \<lceil>(stop - ?t) / step_s\<rceil> < nat \<lceil>(stop - t) / step_s\<rceil>" by linarith
    from less.hyps[OF this, of "Suc i" "acc @ [t]"] obtain n where n: "Suc i \<le> n"
      "grid_loop start stop step_s (Suc i) ?t (acc @ [t])
        = Some ((acc @ [t]) @ map (\<lambda>k. start + of_nat k * step_s) [Suc i..<n])"
      "\<forall>k\<ge>Suc i. k < n \<longleftrightarrow> start + of_nat k * step_s < stop" by blast
    have "[i..<n] = i # [Suc i..<n]" using n(1) by (simp add: upt_rec)
    then have "grid_loop start stop step_s i t acc
        = Some (acc @ map (\<lambda>k. start + of_nat k * step_s) [i..<n])"
      using n(2) True less.prems by (simp add: grid_loop.simps)
    moreover have "k < n \<longleftrightarrow> start + of_nat k * step_s < stop" if "i \<le> k" for k
      using n(1,3) that True less.prems by (cases "k = i") auto
    ultimately show ?thesis using n(1) by (intro exI[of _ n]) simp
  qed
qed

text \<open>The grid is every multiple of the step that lies in the window, its start first.\<close>

lemma sample_grid_exact:
  assumes "0 < step_s"
  obtains n where "sample_grid w step_s = Some (map (\<lambda>k. start_s w + of_nat k * step_s) [0..<n])"
    "\<And>k. k < n \<longleftrightarrow> start_s w + of_nat k * step_s < end_s w"
  using grid_loop_appends[OF assms, of "start_s w" "start_s w" 0 "end_s w" "[]"]
  unfolding sample_grid_def by auto

text \<open>
  A predicate that answers at every instant decides a set of instants.
  A rise or set that the search reports is sharp: the predicate has the new value there and had the
  old one at an instant at most the tolerance earlier.
\<close>

definition decides :: "visibility \<Rightarrow> (rat \<Rightarrow> bool) \<Rightarrow> bool" where
  "decides visible V = (\<forall>t. visible (tdb_epoch t) = Inr (V t))"

definition sharp :: "(rat \<Rightarrow> bool) \<Rightarrow> rat \<Rightarrow> bool \<Rightarrow> rat \<Rightarrow> bool" where
  "sharp V tol old b = (V b = (\<not> old) \<and> (\<exists>a<b. b - a \<le> tol \<and> V a = old))"

lemma ceiling_half:
  assumes "1 < (x :: rat)" shows "\<lceil>x / 2\<rceil> < \<lceil>x\<rceil> \<and> 0 < \<lceil>x\<rceil>"
proof -
  have two: "2 \<le> \<lceil>x\<rceil>" using assms less_ceiling_iff[of 1 x] by simp
  then have "2 \<le> (of_int \<lceil>x\<rceil> :: rat)" by (metis of_int_le_iff of_int_numeral)
  moreover have "x \<le> of_int \<lceil>x\<rceil>" by (rule le_of_int_ceiling)
  ultimately have "x / 2 \<le> of_int \<lceil>x\<rceil> - 1" by linarith
  then have "x / 2 \<le> of_int (\<lceil>x\<rceil> - 1)" by simp
  then have "\<lceil>x / 2\<rceil> \<le> \<lceil>x\<rceil> - 1" by (simp only: ceiling_le_iff)
  then show ?thesis using two by simp
qed

lemma bisect_sharp:
  assumes total: "decides visible V" and r: "0 < r"
    and "lo < hi" "V lo = old" "V hi = (\<not> old)"
  shows "\<exists>b. bisect visible old r lo hi = Some (Inr b) \<and> lo < b \<and> b \<le> hi \<and> sharp V r old b"
  using assms(3-5)
proof (induction "nat \<lceil>(hi - lo) / r\<rceil>" arbitrary: lo hi rule: less_induct)
  case less
  let ?m = "(lo + hi) / 2"
  show ?case
  proof (cases "hi - lo > r")
    case False
    then show ?thesis using less.prems by (auto simp: bisect.simps sharp_def)
  next
    case True
    have half: "(hi - ?m) / r = (hi - lo) / r / 2" "(?m - lo) / r = (hi - lo) / r / 2"
      by (simp_all add: field_simps)
    have "1 < (hi - lo) / r" using True r by simp
    then have "\<lceil>(hi - lo) / r / 2\<rceil> < \<lceil>(hi - lo) / r\<rceil> \<and> 0 < \<lceil>(hi - lo) / r\<rceil>" by (rule ceiling_half)
    then have dec: "nat \<lceil>(hi - ?m) / r\<rceil> < nat \<lceil>(hi - lo) / r\<rceil>"
      "nat \<lceil>(?m - lo) / r\<rceil> < nat \<lceil>(hi - lo) / r\<rceil>" unfolding half by simp_all
    have mid: "lo < ?m" "?m < hi" using less.prems(1) by simp_all
    show ?thesis
    proof (cases "V ?m = old")
      case eq: True
      from less.hyps[OF dec(1) mid(2) eq less.prems(3)] eq True mid show ?thesis
        by (auto simp: bisect.simps[of _ _ _ lo hi] total[unfolded decides_def] intro: less_trans)
    next
      case ne: False
      then have "V ?m = (\<not> old)" by simp
      from less.hyps[OF dec(2) mid(1) less.prems(2) this] ne True mid show ?thesis
        by (auto simp: bisect.simps[of _ _ _ lo hi] total[unfolded decides_def] intro: order_trans)
    qed
  qed
qed

section \<open>What the search returns\<close>

abbreviation opens :: "contact_window \<Rightarrow> rat" where
  "opens c \<equiv> tdb_seconds (cw_start c)"

abbreviation closes :: "contact_window \<Rightarrow> rat" where
  "closes c \<equiv> tdb_seconds (cw_end c)"

text \<open>Windows follow each other with a gap between them, and none is empty.\<close>

definition ordered_windows :: "contact_window list \<Rightarrow> bool" where
  "ordered_windows ws = (sorted_wrt (\<lambda>c d. closes c < opens d) ws \<and> (\<forall>c \<in> set ws. opens c < closes c))"

lemma ordered_windows_snoc:
  "ordered_windows (ws @ [c]) =
    (ordered_windows ws \<and> (\<forall>d \<in> set ws. closes d < opens c) \<and> opens c < closes c)"
  by (auto simp: ordered_windows_def sorted_wrt_append)

definition tolerance :: "rat option \<Rightarrow> rat \<Rightarrow> rat" where
  "tolerance refine_s step_s = (case refine_s of None \<Rightarrow> step_s | Some r \<Rightarrow> r)"

definition rises_at :: "(rat \<Rightarrow> bool) \<Rightarrow> rat \<Rightarrow> rat \<Rightarrow> rat \<Rightarrow> bool" where
  "rises_at V tol start t = (t = start \<or> sharp V tol False t)"

text \<open>What holds after the samples \<open>seen\<close>; the last of them is the scan's time.\<close>

definition scan_inv :: "string \<times> string \<Rightarrow> (rat \<Rightarrow> bool) \<Rightarrow> rat \<Rightarrow> rat \<Rightarrow> rat set \<Rightarrow> scan \<Rightarrow> bool" where
  "scan_inv pair V start tol seen s =
    (sc_vis s = V (sc_time s) \<and> start \<le> sc_time s \<and> (\<forall>t \<in> seen. t \<le> sc_time s)
     \<and> (sc_open s = None) = (\<not> sc_vis s)
     \<and> ordered_windows (sc_windows s)
     \<and> (\<forall>c \<in> set (sc_windows s). cw_observer c = fst pair \<and> cw_target c = snd pair
          \<and> start \<le> opens c \<and> closes c \<le> sc_time s
          \<and> rises_at V tol start (opens c) \<and> sharp V tol True (closes c))
     \<and> (\<forall>e. sc_open s = Some e \<longrightarrow> start \<le> tdb_seconds e \<and> tdb_seconds e \<le> sc_time s
          \<and> rises_at V tol start (tdb_seconds e)
          \<and> (\<forall>c \<in> set (sc_windows s). closes c < tdb_seconds e))
     \<and> (\<forall>t \<in> seen. V t = ((\<exists>c \<in> set (sc_windows s). cw_covers c t)
          \<or> (\<exists>e. sc_open s = Some e \<and> tdb_seconds e \<le> t))))"

lemma boundary_sharp:
  assumes "decides visible V"
    and "case refine_s of None \<Rightarrow> True | Some r \<Rightarrow> 0 < r"
    and "lo < hi" "hi - lo \<le> step_s" "V lo = old" "V hi = (\<not> old)"
  obtains b where "boundary visible lo hi old refine_s = Some (Inr b)" "lo < b" "b \<le> hi"
    "sharp V (tolerance refine_s step_s) old b"
proof (cases refine_s)
  case None
  have "sharp V step_s old hi" using assms(3-6) by (auto simp: sharp_def)
  then show ?thesis using that[of hi] assms(3) None by (simp add: boundary_def tolerance_def)
next
  case (Some r)
  then show ?thesis
    using bisect_sharp[OF assms(1), of r lo hi old] assms(2-6) that
    by (auto simp: boundary_def tolerance_def)
qed

lemma scan_step_inv:
  assumes total: "decides visible V"
    and refine: "case refine_s of None \<Rightarrow> True | Some r \<Rightarrow> 0 < r"
    and inv: "scan_inv pair V start (tolerance refine_s step_s) seen s"
    and later: "sc_time s < t" "t - sc_time s \<le> step_s"
  shows "\<exists>s'. scan_step pair visible refine_s t s = Some (Inr s') \<and> sc_time s' = t
    \<and> scan_inv pair V start (tolerance refine_s step_s) (insert t seen) s'"
proof -
  note I = inv[unfolded scan_inv_def]
  consider (rise) "V t" "\<not> sc_vis s" | (fall) "\<not> V t" "sc_vis s" | (same) "V t = sc_vis s"
    by blast
  then show ?thesis
  proof cases
    case rise
    with I boundary_sharp[OF total refine later, of False] obtain b where
      b: "boundary visible (sc_time s) t False refine_s = Some (Inr b)" "sc_time s < b" "b \<le> t"
        "sharp V (tolerance refine_s step_s) False b" by auto
    show ?thesis using rise I b later
      by (auto simp: scan_step_def total[unfolded decides_def] scan_inv_def advance_def open_contact_def rises_at_def
          cw_covers_def)
  next
    case fall
    then obtain st where st: "sc_open s = Some st" using I by auto
    from fall I boundary_sharp[OF total refine later, of True] obtain b where
      b: "boundary visible (sc_time s) t True refine_s = Some (Inr b)" "sc_time s < b" "b \<le> t"
        "sharp V (tolerance refine_s step_s) True b" by auto
    show ?thesis using fall I b st later
      by (fastforce simp: scan_step_def total[unfolded decides_def] scan_inv_def advance_def close_contact_def
          ordered_windows_snoc cw_covers_def)
  next
    case same
    show ?thesis using same I later
      by (fastforce simp: scan_step_def total[unfolded decides_def] scan_inv_def advance_def cw_covers_def)
  qed
qed

lemma scan_all_inv:
  assumes "decides visible V"
    and "case refine_s of None \<Rightarrow> True | Some r \<Rightarrow> 0 < r"
    and "scan_inv pair V start (tolerance refine_s step_s) seen s"
    and "successively (\<lambda>t u. t < u \<and> u - t \<le> step_s) (sc_time s # ts)"
  shows "\<exists>s'. scan_all pair visible refine_s ts s = Some (Inr s')
    \<and> scan_inv pair V start (tolerance refine_s step_s) (seen \<union> set ts) s'
    \<and> sc_time s' = last (sc_time s # ts)"
  using assms(3,4)
proof (induction ts arbitrary: s seen)
  case (Cons t ts)
  then have "sc_time s < t" "t - sc_time s \<le> step_s" by auto
  from scan_step_inv[OF assms(1,2) Cons.prems(1) this] obtain s' where
    s': "scan_step pair visible refine_s t s = Some (Inr s')" "sc_time s' = t"
      "scan_inv pair V start (tolerance refine_s step_s) (insert t seen) s'" by blast
  from Cons.IH[OF s'(3)] Cons.prems(2) s' show ?case by (simp add: successively_Cons) 
qed simp

text \<open>
  The windows of a search, as a predicate: in order with gaps, inside the search window, agreeing
  with the predicate on the grid, every edge sharp unless it is clamped to the window's bound.
\<close>

definition exact_windows ::
    "string \<times> string \<Rightarrow> (rat \<Rightarrow> bool) \<Rightarrow> epoch_window \<Rightarrow> rat \<Rightarrow> contact_window list \<Rightarrow> bool" where
  "exact_windows pair V w tol ws =
    (ordered_windows ws \<and> (\<forall>c \<in> set ws. cw_observer c = fst pair \<and> cw_target c = snd pair
       \<and> start_s w \<le> opens c \<and> closes c \<le> end_s w
       \<and> (opens c = start_s w \<or> sharp V tol False (opens c))
       \<and> (closes c = end_s w \<or> sharp V tol True (closes c))))"

lemma finish_scan_exact:
  assumes inv: "scan_inv pair V (start_s w) tol seen s" and "sc_time s < end_s w"
  shows "exact_windows pair V w tol (finish_scan pair w s)
    \<and> (\<forall>t \<in> seen. V t = (\<exists>c \<in> set (finish_scan pair w s). cw_covers c t))"
proof (cases "sc_open s")
  case None
  then show ?thesis using assms
    by (fastforce simp: scan_inv_def exact_windows_def finish_scan_def rises_at_def)
next
  case (Some e)
  have vis: "sc_vis s" using inv Some unfolding scan_inv_def by (metis option.distinct(1))
  have "t < end_s w" if "t \<in> seen" for t
    using assms that unfolding scan_inv_def by (meson le_less_trans)
  then have cover: "V t = ((\<exists>c \<in> set (sc_windows s). cw_covers c t) \<or>
      (tdb_seconds e \<le> t \<and> t < end_s w))" if "t \<in> seen" for t
    using inv that Some unfolding scan_inv_def by auto
  show ?thesis using assms cover Some vis
    by (fastforce simp: scan_inv_def exact_windows_def finish_scan_def close_contact_def
        rises_at_def ordered_windows_snoc cw_covers_def)
qed

lemma grid_successive:
  assumes "0 < (step_s :: rat)"
  shows "successively (\<lambda>t u. t < u \<and> u - t \<le> step_s) (map (\<lambda>k. a + of_nat k * step_s) [i..<n])"
  using assms
proof (induction "n - i" arbitrary: i)
  case (Suc d)
  then have "i < n" by simp
  then have "[i..<n] = i # [Suc i..<n]" by (rule upt_conv_Cons)
  then show ?case using Suc(1)[of "Suc i"] Suc(2,3)
    by (cases "Suc i < n") (auto simp: successively_Cons upt_conv_Cons algebra_simps)
qed simp

lemma search_windows_returns:
  assumes total: "decides visible V"
    and "window_ok w" "0 < step_s"
    and refine: "case refine_s of None \<Rightarrow> True | Some r \<Rightarrow> 0 < r \<and> r \<le> step_s"
  shows "\<exists>ws. search_windows pair visible w step_s refine_s = Some (Inr ws)
    \<and> exact_windows pair V w (tolerance refine_s step_s) ws
    \<and> (\<forall>k. start_s w + of_nat k * step_s < end_s w \<longrightarrow>
          V (start_s w + of_nat k * step_s)
            = (\<exists>c \<in> set ws. cw_covers c (start_s w + of_nat k * step_s)))"
proof -
  let ?f = "\<lambda>k. start_s w + of_nat k * step_s"
  obtain n where grid: "sample_grid w step_s = Some (map ?f [0..<n])"
    and n: "\<And>k. k < n \<longleftrightarrow> ?f k < end_s w" using sample_grid_exact[OF assms(3)] by blast
  have pos: "0 < n" using n[of 0] assms(2) by (simp add: window_ok_def)
  then have split: "map ?f [0..<n] = start_s w # map ?f [Suc 0..<n]" by (simp add: upt_conv_Cons)
  let ?s = "\<lparr>sc_time = start_s w, sc_vis = V (start_s w),
      sc_open = (if V (start_s w) then Some (win_start w) else None), sc_windows = []\<rparr>"
  have refine': "case refine_s of None \<Rightarrow> True | Some r \<Rightarrow> 0 < r"
    using refine by (auto split: option.splits)
  have "scan_inv pair V (start_s w) (tolerance refine_s step_s) {start_s w} ?s"
    by (auto simp: scan_inv_def ordered_windows_def rises_at_def)
  from scan_all_inv[OF total refine' this, of "map ?f [Suc 0..<n]"] obtain s' where
    s': "scan_all pair visible refine_s (map ?f [Suc 0..<n]) ?s = Some (Inr s')"
      "scan_inv pair V (start_s w) (tolerance refine_s step_s)
         ({start_s w} \<union> set (map ?f [Suc 0..<n])) s'"
      "sc_time s' = last (map ?f [0..<n])"
    using grid_successive[OF assms(3), of "start_s w" 0 n] unfolding split by auto
  have seen: "{start_s w} \<union> set (map ?f [Suc 0..<n]) = set (map ?f [0..<n])"
    unfolding split by simp
  have "last (map ?f [0..<n]) = ?f (n - 1)" using pos by (simp add: last_map last_upt)
  then have "sc_time s' < end_s w" using s'(3) n[of "n - 1"] pos by simp
  from finish_scan_exact[OF s'(2)[unfolded seen] this]
  have fin: "exact_windows pair V w (tolerance refine_s step_s) (finish_scan pair w s')"
    "\<forall>t \<in> set (map ?f [0..<n]). V t = (\<exists>c \<in> set (finish_scan pair w s'). cw_covers c t)" by blast+
  have "search_windows pair visible w step_s refine_s = Some (Inr (finish_scan pair w s'))"
    using refine assms(3) s'(1)
    by (cases refine_s) (auto simp: search_windows_def grid split total[unfolded decides_def])
  moreover have "V (?f k) = (\<exists>c \<in> set (finish_scan pair w s'). cw_covers c (?f k))" if "?f k < end_s w" for k
  proof -
    have "k \<in> set [0..<n]" using n[of k] that by simp
    then have "?f k \<in> set (map ?f [0..<n])" unfolding set_map by (rule imageI)
    then show ?thesis using fin(2) by blast
  qed
  ultimately show ?thesis using fin(1) by blast
qed

text \<open>A sample that raises is never read as "no contact".\<close>

lemma scan_all_asks: "scan_all pair visible refine_s ts s = Some (Inr s') \<Longrightarrow> t \<in> set ts
    \<Longrightarrow> \<exists>v. visible (tdb_epoch t) = Inr v"
  by (induction ts arbitrary: s) (auto simp: lbind_Inr scan_step_def)

lemma search_windows_asks:
  assumes "search_windows pair visible w step_s refine_s = Some (Inr ws)"
    and "start_s w + of_nat k * step_s < end_s w"
  shows "\<exists>v. visible (tdb_epoch (start_s w + of_nat k * step_s)) = Inr v"
proof -
  let ?f = "\<lambda>k. start_s w + of_nat k * step_s"
  have pos: "0 < step_s" using assms(1) by (auto simp: search_windows_def split: if_splits)
  obtain n where grid: "sample_grid w step_s = Some (map ?f [0..<n])"
    and n: "\<And>k. k < n \<longleftrightarrow> ?f k < end_s w" using sample_grid_exact[OF pos] by blast
  have k: "k < n" using n assms(2) by blast
  then have split: "map ?f [0..<n] = ?f 0 # map ?f [Suc 0..<n]" by (simp add: upt_conv_Cons)
  obtain v s0 s1 where "visible (tdb_epoch (?f 0)) = Inr v"
    "scan_all pair visible refine_s (map ?f [Suc 0..<n]) s0 = Some (Inr s1)"
    using assms(1) unfolding search_windows_def grid split
    by (auto simp: lbind_Inr split: if_splits)
  then have "\<exists>v. visible (tdb_epoch (?f 0)) = Inr v"
    "\<forall>t \<in> set (map ?f [Suc 0..<n]). \<exists>v. visible (tdb_epoch t) = Inr v"
    using scan_all_asks by blast+
  moreover have "?f k = ?f 0 \<or> ?f k \<in> set (map ?f [Suc 0..<n])"
  proof (cases "k = 0")
    case False
    then have "k \<in> set [Suc 0..<n]" using k by simp
    then show ?thesis unfolding set_map by blast
  qed simp
  ultimately show ?thesis by metis
qed

section \<open>Relay windows\<close>

text \<open>
  \<^verbatim>\<open>relay_contact_windows\<close>: line of sight (\<^verbatim>\<open>compute_los(...).visible\<close> in the given world and
  ephemeris) is an argument, as is the name of a node.
\<close>

definition relay_contact_windows ::
    "('n \<Rightarrow> string) \<Rightarrow> ('n \<Rightarrow> 'n \<Rightarrow> visibility) \<Rightarrow> 'n \<Rightarrow> 'n \<Rightarrow> epoch_window \<Rightarrow> rat \<Rightarrow> rat option
      \<Rightarrow> (link_error + contact_window list) option" where
  "relay_contact_windows node_name los observer orbiter w step_s refine_s =
    search_windows (node_name observer, node_name orbiter) (los observer orbiter) w step_s refine_s"

end
