(* ===== verification/Link_Plan.thy ===== *)
theory Link_Plan
  imports Link_Windows
begin

text \<open>
  The contact plan and the products derived from it: the Core messages of \<^verbatim>\<open>core/messages/model.py\<close>
  with their semantic check (\<^verbatim>\<open>core/messages/loader.py\<close>), the assembly of a plan
  (\<^verbatim>\<open>link/products/_plan.py\<close>), connectivity and comms masks (\<^verbatim>\<open>_sampler.py\<close>), the forward-looking
  Earth-link schedule (\<^verbatim>\<open>_ops.py\<close>) and the values of the planners' latency and bandwidth cube
  (\<^verbatim>\<open>_series.py\<close>). The JSON schema of a plan and the digest of its wire form are arguments.
\<close>

section \<open>Messages\<close>

datatype node_role = SPACE | GROUND

datatype contact_confidence = HIGH | MEDIUM | LOW

record contact_node =
  nd_id :: string
  nd_role :: node_role
  nd_kind :: "string option"

text \<open>The \<^verbatim>\<open>LinkBudget\<close> of \<^verbatim>\<open>link\<close> and its projection in the message catalog.\<close>

record link_budget =
  lb_range :: rat
  lb_frequency :: rat
  lb_eirp :: rat
  lb_fspl :: rat
  lb_gt :: rat
  lb_cn0 :: rat
  lb_feasible :: bool
  lb_modcod :: "string option"
  lb_rate :: rat
  lb_ebn0 :: "rat option"
  lb_margin :: "rat option"
  lb_light_time :: rat
  lb_latency :: rat

record contact_budget =
  cb_eirp :: "rat option"
  cb_path_loss :: "rat option"
  cb_gt :: "rat option"
  cb_required_ebn0 :: "rat option"
  cb_margin :: "rat option"
  cb_modcod :: "string option"

record contact_interval =
  ci_a :: string
  ci_b :: string
  ci_start :: rat
  ci_end :: rat
  ci_rate :: "rat option"
  ci_min_latency :: "rat option"
  ci_mean_latency :: "rat option"
  ci_margin :: "rat option"
  ci_confidence :: contact_confidence
  ci_band :: "string option"
  ci_modcod :: "string option"
  ci_budget :: "contact_budget option"
  ci_window :: "epoch_window option"

record route =
  rt_source :: string
  rt_dest :: string
  rt_hops :: "string list"
  rt_store_forward :: bool
  rt_delivery_s :: "rat option"
  rt_latency :: "rat option"
  rt_delivery :: "epoch option"

record contact_plan =
  pl_nodes :: "contact_node list"
  pl_intervals :: "contact_interval list"
  pl_routes :: "route list"
  pl_start :: "rat option"
  pl_end :: "rat option"
  pl_window :: "epoch_window option"

text \<open>\<^verbatim>\<open>_check_contact_plan_semantics\<close>: the first interval that ends before it starts.\<close>

fun check_intervals :: "nat \<Rightarrow> contact_interval list \<Rightarrow> link_error + unit" where
  "check_intervals i [] = Inr ()"
| "check_intervals i (iv # ivs) =
    (if ci_end iv < ci_start iv then Inl (IntervalPrecedes i (ci_start iv) (ci_end iv))
     else check_intervals (Suc i) ivs)"

text \<open>\<^verbatim>\<open>validate_contact_plan\<close> of a typed plan: the schema (the first complaint), then the order.\<close>

definition validate_contact_plan ::
    "(contact_plan \<Rightarrow> string option) \<Rightarrow> contact_plan \<Rightarrow> link_error + unit" where
  "validate_contact_plan schema plan =
    (case schema plan of Some e \<Rightarrow> Inl (SchemaViolation e)
     | None \<Rightarrow> check_intervals 0 (pl_intervals plan))"

section \<open>Assembling a plan\<close>

definition project_budget :: "link_budget \<Rightarrow> contact_budget" where
  "project_budget b = \<lparr>cb_eirp = Some (lb_eirp b), cb_path_loss = Some (lb_fspl b),
     cb_gt = Some (lb_gt b),
     cb_required_ebn0 = (case (lb_ebn0 b, lb_margin b) of
        (Some e, Some m) \<Rightarrow> Some (e - m) | _ \<Rightarrow> None),
     cb_margin = lb_margin b, cb_modcod = lb_modcod b\<rparr>"

definition bare_interval :: "contact_window \<Rightarrow> epoch_window \<Rightarrow> contact_interval" where
  "bare_interval c whole = \<lparr>ci_a = cw_observer c, ci_b = cw_target c,
     ci_start = tdb_seconds (cw_start c), ci_end = tdb_seconds (cw_end c), ci_rate = None,
     ci_min_latency = None, ci_mean_latency = None, ci_margin = None, ci_confidence = HIGH,
     ci_band = None, ci_modcod = None, ci_budget = None, ci_window = Some whole\<rparr>"

definition annotate :: "link_budget \<Rightarrow> contact_interval \<Rightarrow> contact_interval" where
  "annotate b iv = iv\<lparr>ci_rate := Some (lb_rate b), ci_min_latency := Some (lb_latency b),
     ci_mean_latency := Some (lb_latency b), ci_margin := lb_margin b, ci_modcod := lb_modcod b,
     ci_budget := Some (project_budget b)\<rparr>"

definition interval_of ::
    "contact_window \<Rightarrow> link_budget option \<Rightarrow> link_error + contact_interval" where
  "interval_of c budget = rbind (make_window (cw_start c) (cw_end c)) (\<lambda>whole.
     Inr (case budget of None \<Rightarrow> bare_interval c whole
          | Some b \<Rightarrow> annotate b (bare_interval c whole)))"

type_synonym budgets = "((string \<times> string), link_budget) dict"

fun plan_intervals ::
    "string list \<Rightarrow> budgets \<Rightarrow> contact_window list \<Rightarrow> link_error + contact_interval list" where
  "plan_intervals known budgets [] = Inr []"
| "plan_intervals known budgets (c # cs) =
    (if cw_observer c \<notin> set known \<or> cw_target c \<notin> set known
     then Inl (UndeclaredNodes (cw_observer c) (cw_target c)
            (sort (remdups (filter (\<lambda>n. n \<notin> set known) [cw_observer c, cw_target c]))))
     else rbind (interval_of c (dict_get budgets (cw_observer c, cw_target c))) (\<lambda>iv.
            rbind (plan_intervals known budgets cs) (\<lambda>ivs. Inr (iv # ivs))))"

definition build_contact_plan ::
    "(contact_plan \<Rightarrow> string option) \<Rightarrow> contact_node list \<Rightarrow> contact_window list \<Rightarrow> budgets
      \<Rightarrow> epoch_window option \<Rightarrow> bool \<Rightarrow> link_error + contact_plan" where
  "build_contact_plan schema nodes windows budgets whole validate =
    rbind (plan_intervals (map nd_id nodes) budgets windows) (\<lambda>ivs.
      let plan = \<lparr>pl_nodes = nodes, pl_intervals = ivs, pl_routes = [],
                   pl_start = map_option start_s whole, pl_end = map_option end_s whole,
                   pl_window = whole\<rparr>
      in if validate then rbind (validate_contact_plan schema plan) (\<lambda>_. Inr plan) else Inr plan)"

text \<open>What each window becomes.\<close>

definition carries :: "budgets \<Rightarrow> contact_window \<Rightarrow> contact_interval \<Rightarrow> bool" where
  "carries budgets c iv =
    (ci_a iv = cw_observer c \<and> ci_b iv = cw_target c \<and> ci_start iv = opens c \<and> ci_end iv = closes c
     \<and> ci_window iv = Some \<lparr>win_start = cw_start c, win_end = cw_end c\<rparr> \<and> opens c < closes c
     \<and> ci_rate iv = map_option lb_rate (dict_get budgets (cw_observer c, cw_target c)))"

lemma interval_of_carries:
  "interval_of c (dict_get budgets (cw_observer c, cw_target c)) = Inr iv \<Longrightarrow> carries budgets c iv"
  by (auto simp: interval_of_def rbind_Inr carries_def annotate_def bare_interval_def window_ok_def
      split: option.splits)

lemma plan_intervals_carry:
  "plan_intervals known budgets cs = Inr ivs \<Longrightarrow> list_all2 (carries budgets) cs ivs
    \<and> (\<forall>c \<in> set cs. cw_observer c \<in> set known \<and> cw_target c \<in> set known)"
  by (induction cs arbitrary: ivs) (auto simp: rbind_Inr interval_of_carries split: if_splits)

lemma build_contact_plan_carries:
  assumes "build_contact_plan schema nodes windows budgets whole validate = Inr plan"
  shows "list_all2 (carries budgets) windows (pl_intervals plan)" "pl_nodes plan = nodes"
    "\<forall>c \<in> set windows. cw_observer c \<in> nd_id ` set nodes \<and> cw_target c \<in> nd_id ` set nodes"
  using assms plan_intervals_carry[of "map nd_id nodes" budgets windows]
  by (auto simp: build_contact_plan_def rbind_Inr Let_def split: if_splits)

text \<open>Declared, non-empty windows always make a plan: its own check cannot fail.\<close>

lemma plan_intervals_total:
  "\<forall>c \<in> set cs. cw_observer c \<in> set known \<and> cw_target c \<in> set known \<and> opens c < closes c
    \<Longrightarrow> \<exists>ivs. plan_intervals known budgets cs = Inr ivs"
  by (induction cs) (auto simp: interval_of_def make_window_def)

lemma check_intervals_ok:
  "\<forall>iv \<in> set ivs. ci_start iv \<le> ci_end iv \<Longrightarrow> check_intervals i ivs = Inr ()"
  by (induction ivs arbitrary: i) auto

lemma carried_interval:
  "list_all2 (carries budgets) cs ivs \<Longrightarrow> iv \<in> set ivs \<Longrightarrow> \<exists>c \<in> set cs. carries budgets c iv"
  by (metis in_set_conv_nth list_all2_conv_all_nth)

lemma carried_window:
  "list_all2 (carries budgets) cs ivs \<Longrightarrow> c \<in> set cs \<Longrightarrow> \<exists>iv \<in> set ivs. carries budgets c iv"
  by (metis in_set_conv_nth list_all2_conv_all_nth)

lemma build_contact_plan_total:
  assumes "\<forall>c \<in> set windows. cw_observer c \<in> nd_id ` set nodes \<and> cw_target c \<in> nd_id ` set nodes
      \<and> opens c < closes c"
    and "build_contact_plan schema nodes windows budgets whole validate = Inl e"
  shows "\<exists>plan why. schema plan = Some why \<and> e = SchemaViolation why"
proof -
  obtain ivs where ivs: "plan_intervals (map nd_id nodes) budgets windows = Inr ivs"
    using plan_intervals_total[of windows "map nd_id nodes"] assms(1) by auto
  have "\<forall>iv \<in> set ivs. ci_start iv \<le> ci_end iv"
    using plan_intervals_carry[OF ivs] carried_interval by (fastforce simp: carries_def)
  from check_intervals_ok[OF this] assms(2) show ?thesis
    by (auto simp: build_contact_plan_def ivs validate_contact_plan_def Let_def split: if_splits option.splits)
qed

section \<open>Connectivity\<close>

record link_state =
  ls_reachable :: bool
  ls_rate :: "rat option"
  ls_latency :: "rat option"
  ls_margin :: "rat option"

definition closed_link :: link_state where
  "closed_link = \<lparr>ls_reachable = False, ls_rate = None, ls_latency = None, ls_margin = None\<rparr>"

definition pair_key :: "string \<Rightarrow> string \<Rightarrow> string \<times> string" where
  "pair_key a b = (if a \<le> b then (a, b) else (b, a))"

lemma pair_key_sym: "pair_key a b = pair_key b a"
  by (auto simp: pair_key_def)

lemma pair_key_eq: "(pair_key a b = pair_key c d) = (a = c \<and> b = d \<or> a = d \<and> b = c)"
  by (auto simp: pair_key_def)

definition latency_of :: "contact_interval \<Rightarrow> rat option" where
  "latency_of iv = (case ci_mean_latency iv of Some l \<Rightarrow> Some l | None \<Rightarrow> ci_min_latency iv)"

definition open_link :: "contact_interval \<Rightarrow> link_state" where
  "open_link iv = \<lparr>ls_reachable = True, ls_rate = ci_rate iv, ls_latency = latency_of iv,
     ls_margin = ci_margin iv\<rparr>"

text \<open>\<^verbatim>\<open>d.setdefault(key(x), []).append(x)\<close> over a list.\<close>

fun group_by :: "('x \<Rightarrow> 'k) \<Rightarrow> 'x list \<Rightarrow> ('k, 'x list) dict \<Rightarrow> ('k, 'x list) dict" where
  "group_by key [] d = d"
| "group_by key (x # xs) d =
    group_by key xs (dict_set d (key x) (get_default d (key x) [] @ [x]))"

definition key_of :: "contact_interval \<Rightarrow> string \<times> string" where
  "key_of iv = pair_key (ci_a iv) (ci_b iv)"

record sampler =
  sp_roles :: "(string, node_role) dict"
  sp_by_pair :: "(string \<times> string, contact_interval list) dict"
  sp_starts :: "(string \<times> string, rat list) dict"
  sp_hash :: string

definition sampler_of :: "(contact_plan \<Rightarrow> string) \<Rightarrow> contact_plan \<Rightarrow> sampler" where
  "sampler_of wire_digest plan =
    (let by_pair = map (\<lambda>(k, ivs). (k, sort_key ci_start ivs)) (group_by key_of (pl_intervals plan) [])
     in \<lparr>sp_roles = fold (\<lambda>n d. dict_set d (nd_id n) (nd_role n)) (pl_nodes plan) [],
         sp_by_pair = by_pair,
         sp_starts = map (\<lambda>(k, ivs). (k, map ci_start ivs)) by_pair,
         sp_hash = ''sha256:'' @ wire_digest plan\<rparr>)"

definition sampler_nodes :: "sampler \<Rightarrow> string list" where
  "sampler_nodes s = dict_keys (sp_roles s)"

text \<open>The library's \<^verbatim>\<open>bisect_right\<close>: past the last of the sorted values that is at most \<open>t\<close>.\<close>

definition bisect_right :: "rat list \<Rightarrow> rat \<Rightarrow> nat" where
  "bisect_right xs t = length (takeWhile (\<lambda>x. x \<le> t) xs)"

definition reachable :: "sampler \<Rightarrow> string \<Rightarrow> string \<Rightarrow> epoch \<Rightarrow> link_state" where
  "reachable s a b e =
    (case dict_get (sp_by_pair s) (pair_key a b) of
       None \<Rightarrow> closed_link
     | Some ivs \<Rightarrow>
         (let idx = bisect_right (get_default (sp_starts s) (pair_key a b) []) (tdb_seconds e)
          in if idx = 0 then closed_link
             else if ci_end (ivs ! (idx - 1)) \<le> tdb_seconds e then closed_link
             else open_link (ivs ! (idx - 1))))"

definition connectivity :: "sampler \<Rightarrow> epoch \<Rightarrow> (string \<times> string, link_state) dict" where
  "connectivity s e = map (\<lambda>(k, _). (k, reachable s (fst k) (snd k) e)) (sp_by_pair s)"

definition peer_of :: "sampler \<Rightarrow> string \<Rightarrow> epoch \<Rightarrow> string \<Rightarrow> peer_link" where
  "peer_of s agent e peer = (let st = reachable s agent peer e in
     \<lparr>link_peer = peer, link_reachable = ls_reachable st, link_rate = ls_rate st,
      link_latency = ls_latency st, link_margin = ls_margin st\<rparr>)"

definition comms_mask_of :: "sampler \<Rightarrow> string \<Rightarrow> epoch \<Rightarrow> link_error + comms_mask" where
  "comms_mask_of s agent e =
    (if agent \<notin> set (sampler_nodes s) then Inl (UnknownAgent agent)
     else let peers = filter (\<lambda>p. p \<noteq> agent) (sampler_nodes s)
       in Inr \<lparr>mask_agent = agent, mask_links = map (peer_of s agent e) peers,
               mask_earth_contact = list_ex (\<lambda>p. ls_reachable (reachable s agent p e)
                  \<and> dict_get (sp_roles s) p = Some GROUND) peers\<rparr>)"

text \<open>\<^verbatim>\<open>comms_masks\<close>; \<open>None\<close> asks for every node. A dictionary comprehension keeps the last value of a key.\<close>

fun masks_for :: "sampler \<Rightarrow> epoch \<Rightarrow> string list \<Rightarrow> (string, comms_mask) dict
    \<Rightarrow> link_error + (string, comms_mask) dict" where
  "masks_for s e [] d = Inr d"
| "masks_for s e (a # agents) d =
    rbind (comms_mask_of s a e) (\<lambda>m. masks_for s e agents (dict_set d a m))"

definition comms_masks ::
    "sampler \<Rightarrow> epoch \<Rightarrow> string list option \<Rightarrow> link_error + (string, comms_mask) dict" where
  "comms_masks s e agents =
    masks_for s e (case agents of None \<Rightarrow> sampler_nodes s | Some ags \<Rightarrow> ags) []"

section \<open>The sampler against the plan\<close>

lemma get_default_group:
  "get_default (group_by key xs d) k [] = get_default d k [] @ filter (\<lambda>x. key x = k) xs"
  by (induction xs arbitrary: d) auto

lemma group_by_None:
  "(dict_get (group_by key xs d) k = None) = (dict_get d k = None \<and> k \<notin> key ` set xs)"
  by (induction xs arbitrary: d) auto

lemma dict_get_map_value: "dict_get (map (\<lambda>(k, v). (k, f v)) d) k = map_option f (dict_get d k)"
  by (induction d) auto

lemma dict_get_group:
  "dict_get (group_by key xs []) k =
    (if k \<in> key ` set xs then Some (filter (\<lambda>x. key x = k) xs) else None)"
  using get_default_group[of key xs "[]" k] group_by_None[of key xs "[]" k]
  by (auto simp: get_default_def split: option.splits)

definition pair_intervals :: "contact_plan \<Rightarrow> string \<Rightarrow> string \<Rightarrow> contact_interval list" where
  "pair_intervals plan a b = filter (\<lambda>iv. key_of iv = pair_key a b) (pl_intervals plan)"

definition open_at :: "rat \<Rightarrow> contact_interval \<Rightarrow> bool" where
  "open_at t iv = (ci_start iv \<le> t \<and> t < ci_end iv)"

text \<open>At most one interval of a pair is open at any instant, and none is empty.\<close>

definition exclusive :: "contact_interval list \<Rightarrow> bool" where
  "exclusive ivs = ((\<forall>iv \<in> set ivs. ci_start iv < ci_end iv)
     \<and> (\<forall>t. length (filter (open_at t) ivs) \<le> 1))"

text \<open>The reference: scan every interval of the pair.\<close>

definition scan_link :: "contact_plan \<Rightarrow> string \<Rightarrow> string \<Rightarrow> rat \<Rightarrow> link_state" where
  "scan_link plan a b t =
    (case filter (open_at t) (pair_intervals plan a b) of [] \<Rightarrow> closed_link | iv # _ \<Rightarrow> open_link iv)"

lemma sampler_lookup:
  "dict_get (sp_by_pair (sampler_of dg plan)) k =
    (if k \<in> key_of ` set (pl_intervals plan)
     then Some (sort_key ci_start (filter (\<lambda>iv. key_of iv = k) (pl_intervals plan))) else None)"
  "dict_get (sp_starts (sampler_of dg plan)) k =
    (if k \<in> key_of ` set (pl_intervals plan)
     then Some (map ci_start (sort_key ci_start (filter (\<lambda>iv. key_of iv = k) (pl_intervals plan))))
     else None)"
  by (simp_all add: sampler_of_def Let_def dict_get_map_value dict_get_group del: map_map)

lemma reachable_unfold:
  "reachable (sampler_of dg plan) a b e =
    (let ivs = sort_key ci_start (pair_intervals plan a b);
         idx = bisect_right (map ci_start ivs) (tdb_seconds e)
     in if idx = 0 \<or> ci_end (ivs ! (idx - 1)) \<le> tdb_seconds e then closed_link
        else open_link (ivs ! (idx - 1)))"
proof (cases "pair_key a b \<in> key_of ` set (pl_intervals plan)")
  case True
  then show ?thesis
    by (simp add: reachable_def sampler_lookup get_default_def pair_intervals_def Let_def)
next
  case False
  then have "pair_intervals plan a b = []"
    by (force simp: pair_intervals_def filter_empty_conv)
  then show ?thesis using False
    by (simp add: reachable_def sampler_lookup bisect_right_def Let_def)
qed

lemma bisect_right_last:
  assumes "sorted xs" "0 < bisect_right xs t"
  shows "bisect_right xs t - 1 < length xs" "xs ! (bisect_right xs t - 1) \<le> t"
    "\<And>j. j < length xs \<Longrightarrow> xs ! j \<le> t \<Longrightarrow> j \<le> bisect_right xs t - 1"
proof -
  let ?n = "bisect_right xs t"
  have n: "?n \<le> length xs" unfolding bisect_right_def by (rule length_takeWhile_le)
  then show "?n - 1 < length xs" using assms(2) by linarith
  have "takeWhile (\<lambda>x. x \<le> t) xs ! (?n - 1) \<in> set (takeWhile (\<lambda>x. x \<le> t) xs)"
    using assms(2) unfolding bisect_right_def by (intro nth_mem) linarith
  then show "xs ! (?n - 1) \<le> t"
    using assms(2) takeWhile_nth[of "?n - 1" "\<lambda>x. x \<le> t" xs] set_takeWhileD
    unfolding bisect_right_def by fastforce
  show "j \<le> ?n - 1" if j: "j < length xs" "xs ! j \<le> t" for j
  proof (rule ccontr)
    assume "\<not> j \<le> ?n - 1"
    then have "?n \<le> j" "?n < length xs" using assms(2) j(1) by linarith+
    then have "t < xs ! ?n" using nth_length_takeWhile[of "\<lambda>x. x \<le> t" xs]
      unfolding bisect_right_def by fastforce
    moreover have "xs ! ?n \<le> xs ! j" using assms(1) \<open>?n \<le> j\<close> j(1) by (rule sorted_nth_mono)
    ultimately show False using j(2) by simp
  qed
qed

lemma reachable_sound:
  assumes "ls_reachable (reachable (sampler_of dg plan) a b e)"
  shows "\<exists>iv \<in> set (pair_intervals plan a b). open_at (tdb_seconds e) iv
    \<and> reachable (sampler_of dg plan) a b e = open_link iv"
proof -
  let ?ivs = "sort_key ci_start (pair_intervals plan a b)"
  let ?i = "bisect_right (map ci_start ?ivs) (tdb_seconds e)"
  have i: "?i \<noteq> 0" "\<not> ci_end (?ivs ! (?i - 1)) \<le> tdb_seconds e"
    and eq: "reachable (sampler_of dg plan) a b e = open_link (?ivs ! (?i - 1))"
    using assms by (simp_all add: reachable_unfold Let_def closed_link_def split: if_splits)
  have srt: "sorted (map ci_start ?ivs)" by simp
  have "?i - 1 < length ?ivs" "ci_start (?ivs ! (?i - 1)) \<le> tdb_seconds e"
    using bisect_right_last(1,2)[OF srt] i(1) by auto
  then have "?ivs ! (?i - 1) \<in> set (pair_intervals plan a b)" "open_at (tdb_seconds e) (?ivs ! (?i - 1))"
    using i(2) nth_mem[of "?i - 1" ?ivs] by (auto simp: open_at_def simp del: nth_mem)
  then show ?thesis using eq by blast
qed

lemma filter_two:
  assumes "length (filter P xs) \<le> 1" "i < length xs" "j < length xs" "P (xs ! i)" "P (xs ! j)"
  shows "i = j"
proof -
  have "card {i. i < length xs \<and> P (xs ! i)} \<le> 1" using assms(1) by (simp add: length_filter_conv_card)
  then have "\<And>x y. x \<in> {i. i < length xs \<and> P (xs ! i)} \<Longrightarrow> y \<in> {i. i < length xs \<and> P (xs ! i)} \<Longrightarrow> x = y"
    using card_le_Suc0_iff_eq[of "{i. i < length xs \<and> P (xs ! i)}"] by simp
  then show ?thesis using assms(2-5) by blast
qed

lemma exclusive_sort: "exclusive (sort_key f ivs) = exclusive ivs"
proof -
  have "length (filter P (sort_key f ivs)) = length (filter P ivs)" for P :: "contact_interval \<Rightarrow> bool"
    by (metis mset_filter mset_sort size_mset)
  then show ?thesis by (simp add: exclusive_def)
qed

lemma exclusive_open:
  assumes "exclusive ivs" "iv \<in> set ivs" "open_at t iv"
  shows "filter (open_at t) ivs = [iv]"
proof -
  have "iv \<in> set (filter (open_at t) ivs)" "length (filter (open_at t) ivs) \<le> 1"
    using assms by (auto simp: exclusive_def)
  then show ?thesis by (cases "filter (open_at t) ivs") auto
qed

lemma reachable_complete:
  assumes ex: "exclusive (pair_intervals plan a b)"
    and iv: "iv \<in> set (pair_intervals plan a b)" "open_at (tdb_seconds e) iv"
  shows "ls_reachable (reachable (sampler_of dg plan) a b e)"
proof -
  let ?ivs = "sort_key ci_start (pair_intervals plan a b)"
  let ?t = "tdb_seconds e"
  let ?i = "bisect_right (map ci_start ?ivs) ?t"
  have srt: "sorted (map ci_start ?ivs)" by simp
  obtain j where j: "j < length ?ivs" "?ivs ! j = iv" using iv(1) by (metis in_set_conv_nth set_sort)
  have "bisect_right (map ci_start ?ivs) ?t \<noteq> 0"
  proof
    assume "?i = 0"
    then have "takeWhile (\<lambda>x. x \<le> ?t) (map ci_start ?ivs) = []" by (simp add: bisect_right_def)
    moreover have "map ci_start ?ivs \<noteq> []"
      using j(1) by (metis length_0_conv length_map not_less_zero)
    ultimately have "\<not> map ci_start ?ivs ! 0 \<le> ?t"
      by (cases "map ci_start ?ivs") (auto split: if_splits)
    moreover have "map ci_start ?ivs ! 0 \<le> map ci_start ?ivs ! j"
      by (rule sorted_nth_mono[OF srt]) (use j(1) in simp_all)
    ultimately show False using j iv(2) by (auto simp: open_at_def)
  qed
  then have pos: "0 < ?i" by simp
  note last = bisect_right_last[OF srt pos]
  have i: "?i - 1 < length ?ivs" "ci_start (?ivs ! (?i - 1)) \<le> ?t" using last(1,2) by auto
  have le: "j \<le> ?i - 1" using last(3)[of j] j iv(2) by (simp add: open_at_def)
  have "?t < ci_end (?ivs ! (?i - 1))"
  proof (cases "j = ?i - 1")
    case True
    then show ?thesis using j iv(2) by (simp add: open_at_def)
  next
    case False
    let ?u = "ci_start (?ivs ! (?i - 1))"
    have ex': "exclusive ?ivs" using ex by (simp only: exclusive_sort)
    have "map ci_start ?ivs ! j \<le> map ci_start ?ivs ! (?i - 1)"
      by (rule sorted_nth_mono[OF srt le]) (use i(1) in simp)
    then have "ci_start iv \<le> ?u" using j i(1) by simp
    then have "open_at ?u iv" using i(2) iv(2) by (auto simp: open_at_def)
    moreover have "open_at ?u (?ivs ! (?i - 1))"
      using ex' nth_mem[OF i(1)] by (auto simp: open_at_def exclusive_def)
    ultimately have "j = ?i - 1"
      using filter_two[of "open_at ?u" ?ivs j "?i - 1"] ex' i(1) j by (simp add: exclusive_def)
    then show ?thesis using False by simp
  qed
  then show ?thesis using pos by (simp add: reachable_unfold Let_def open_link_def)
qed

lemma reachable_scans:
  assumes "exclusive (pair_intervals plan a b)"
  shows "reachable (sampler_of dg plan) a b e = scan_link plan a b (tdb_seconds e)"
proof (cases "ls_reachable (reachable (sampler_of dg plan) a b e)")
  case True
  from reachable_sound[OF True] obtain iv where iv: "iv \<in> set (pair_intervals plan a b)"
    "open_at (tdb_seconds e) iv" "reachable (sampler_of dg plan) a b e = open_link iv" by blast
  then show ?thesis using exclusive_open[OF assms iv(1,2)] by (simp add: scan_link_def)
next
  case False
  then have "filter (open_at (tdb_seconds e)) (pair_intervals plan a b) = []"
    using reachable_complete[OF assms] by (auto simp: filter_empty_conv)
  moreover have "reachable (sampler_of dg plan) a b e = closed_link"
    using False by (auto simp: reachable_unfold Let_def open_link_def split: if_splits)
  ultimately show ?thesis by (simp add: scan_link_def)
qed

lemma sampler_nodes_of: "set (sampler_nodes (sampler_of dg plan)) = nd_id ` set (pl_nodes plan)"
proof -
  have "fst ` set (fold (\<lambda>n d. dict_set d (nd_id n) (nd_role n)) ns d) = fst ` set d \<union> nd_id ` set ns"
    for ns and d :: "(string, node_role) dict"
    by (induction ns arbitrary: d) (auto simp: dict_keys_set[simplified])
  from this[of "pl_nodes plan" "[]"] show ?thesis by (simp add: sampler_nodes_def sampler_of_def Let_def)
qed

lemma role_fold:
  fixes d :: "(string, node_role) dict"
  shows "k \<notin> nd_id ` set ns \<Longrightarrow>
      dict_get (fold (\<lambda>n d. dict_set d (nd_id n) (nd_role n)) ns d) k = dict_get d k"
    and "distinct (map nd_id ns) \<Longrightarrow> n \<in> set ns \<Longrightarrow>
      dict_get (fold (\<lambda>n d. dict_set d (nd_id n) (nd_role n)) ns d) (nd_id n) = Some (nd_role n)"
proof -
  show skip: "k \<notin> nd_id ` set ns \<Longrightarrow>
      dict_get (fold (\<lambda>n d. dict_set d (nd_id n) (nd_role n)) ns d) k = dict_get d k"
    for k ns and d :: "(string, node_role) dict"
    by (induction ns arbitrary: d) auto
  show "distinct (map nd_id ns) \<Longrightarrow> n \<in> set ns \<Longrightarrow>
      dict_get (fold (\<lambda>n d. dict_set d (nd_id n) (nd_role n)) ns d) (nd_id n) = Some (nd_role n)"
    by (induction ns arbitrary: d) (auto simp: skip)
qed

lemma role_of:
  assumes "distinct (map nd_id (pl_nodes plan))" "n \<in> set (pl_nodes plan)"
  shows "dict_get (sp_roles (sampler_of dg plan)) (nd_id n) = Some (nd_role n)"
  using role_fold(2)[OF assms] by (simp add: sampler_of_def Let_def)

lemma masks_for_Inr:
  assumes "\<forall>a \<in> set agents. a \<in> set (sampler_nodes s)"
  shows "\<exists>d'. masks_for s e agents d = Inr d' \<and>
    (\<forall>a. dict_get d' a = (if a \<in> set agents then (case comms_mask_of s a e of Inr m \<Rightarrow> Some m | Inl _ \<Rightarrow> None)
       else dict_get d a)) \<and> set (dict_keys d') = set (dict_keys d) \<union> set agents"
  using assms
proof (induction agents arbitrary: d)
  case (Cons a agents)
  obtain m where m: "comms_mask_of s a e = Inr m" using Cons.prems by (simp add: comms_mask_of_def Let_def)
  from Cons.IH[of "dict_set d a m"] Cons.prems obtain d' where
    "masks_for s e agents (dict_set d a m) = Inr d'"
    "\<forall>b. dict_get d' b = (if b \<in> set agents then (case comms_mask_of s b e of Inr m \<Rightarrow> Some m | Inl _ \<Rightarrow> None)
       else dict_get (dict_set d a m) b)" "set (dict_keys d') = set (dict_keys (dict_set d a m)) \<union> set agents"
    by auto
  then show ?case using m dict_keys_set[of a m d] by (intro exI[of _ d']) auto
qed simp

section \<open>The Earth-link schedule\<close>

definition LIVE_MISSION_LINK_PREDICTION :: string where
  "LIVE_MISSION_LINK_PREDICTION = ''comms.live_mission_link_prediction''"

record earth_window =
  ew_station :: string
  ew_target :: string
  ew_window :: epoch_window
  ew_uplink :: "rat option"
  ew_downlink :: "rat option"
  ew_rate :: "rat option"

record earth_schedule =
  es_now :: epoch
  es_windows :: "earth_window list"
  es_horizon :: "rat option"
  es_provenance :: "(string, string) dict"

definition ground_ids :: "contact_plan \<Rightarrow> string list" where
  "ground_ids plan = map nd_id (filter (\<lambda>n. nd_role n = GROUND) (pl_nodes plan))"

text \<open>The typed window when the producer wrote it, else the primitives in the given scale.\<close>

definition interval_window :: "contact_interval \<Rightarrow> time_scale \<Rightarrow> link_error + epoch_window" where
  "interval_window iv scale = (case ci_window iv of Some w \<Rightarrow> Inr w
     | None \<Rightarrow> make_window \<lparr>tdb_seconds = ci_start iv, ep_scale = scale\<rparr>
                 \<lparr>tdb_seconds = ci_end iv, ep_scale = scale\<rparr>)"

definition earth_end :: "string list \<Rightarrow> contact_interval \<Rightarrow> (string \<times> string) option" where
  "earth_end ground iv =
    (if ci_a iv \<in> set ground then Some (ci_a iv, ci_b iv)
     else if ci_b iv \<in> set ground then Some (ci_b iv, ci_a iv)
     else None)"

fun earth_windows ::
    "string list \<Rightarrow> epoch \<Rightarrow> rat option \<Rightarrow> contact_interval list \<Rightarrow> link_error + earth_window list" where
  "earth_windows ground now horizon [] = Inr []"
| "earth_windows ground now horizon (iv # ivs) =
    (case earth_end ground iv of
       None \<Rightarrow> earth_windows ground now horizon ivs
     | Some (station, target) \<Rightarrow>
         if ci_end iv \<le> tdb_seconds now then earth_windows ground now horizon ivs
         else if (case horizon of None \<Rightarrow> False | Some h \<Rightarrow> ci_start iv > tdb_seconds now + h)
           then earth_windows ground now horizon ivs
         else rbind (interval_window iv (ep_scale now)) (\<lambda>w.
           rbind (earth_windows ground now horizon ivs) (\<lambda>ws.
             Inr (\<lparr>ew_station = station, ew_target = target, ew_window = w,
                   ew_uplink = latency_of iv, ew_downlink = latency_of iv,
                   ew_rate = ci_rate iv\<rparr> # ws))))"

definition earth_order :: "earth_window \<Rightarrow> rat \<times> string \<times> string" where
  "earth_order w = (start_s (ew_window w), ew_station w, ew_target w)"

definition earth_link_schedule ::
    "contact_plan \<Rightarrow> epoch \<Rightarrow> rat option \<Rightarrow> bool \<Rightarrow> string list \<Rightarrow> (string, string) dict
      \<Rightarrow> link_error + earth_schedule" where
  "earth_link_schedule plan now horizon live authorized provenance =
    (if live \<and> LIVE_MISSION_LINK_PREDICTION \<notin> set authorized
     then Inl (NotAuthorized LIVE_MISSION_LINK_PREDICTION)
     else rbind (earth_windows (ground_ids plan) now horizon (pl_intervals plan)) (\<lambda>ws.
       Inr \<lparr>es_now = now, es_windows = sort_key earth_order ws, es_horizon = horizon,
            es_provenance = provenance\<rparr>))"

definition schedule_stations :: "earth_schedule \<Rightarrow> string list" where
  "schedule_stations sch = rev (remdups (rev (map ew_station (es_windows sch))))"

definition schedule_active :: "earth_schedule \<Rightarrow> epoch \<Rightarrow> earth_window list" where
  "schedule_active sch e = filter (\<lambda>w. start_s (ew_window w) \<le> tdb_seconds e
     \<and> tdb_seconds e < end_s (ew_window w)) (es_windows sch)"

definition schedule_upcoming :: "earth_schedule \<Rightarrow> epoch \<Rightarrow> earth_window list" where
  "schedule_upcoming sch e = filter (\<lambda>w. start_s (ew_window w) > tdb_seconds e) (es_windows sch)"

text \<open>A plan is faithful when every interval carries a typed window equal to its primitives.\<close>

definition typed_interval :: "contact_interval \<Rightarrow> bool" where
  "typed_interval iv = (\<exists>w. ci_window iv = Some w \<and> start_s w = ci_start iv \<and> end_s w = ci_end iv)"

lemma carried_typed: "carries budgets c iv \<Longrightarrow> typed_interval iv \<and> ci_start iv < ci_end iv"
  by (auto simp: carries_def typed_interval_def)

lemma built_plan_typed:
  assumes "build_contact_plan schema nodes windows budgets whole validate = Inr plan"
    and "iv \<in> set (pl_intervals plan)"
  shows "typed_interval iv \<and> ci_start iv < ci_end iv"
  using carried_interval[OF build_contact_plan_carries(1)[OF assms(1)] assms(2)] carried_typed by blast

lemma earth_windows_of_typed:
  assumes "\<forall>iv \<in> set ivs. typed_interval iv"
  shows "\<exists>ws. earth_windows ground now horizon ivs = Inr ws \<and>
    (\<forall>s g t. (\<exists>w \<in> set ws. ew_station w = s \<and> ew_target w = g
        \<and> start_s (ew_window w) \<le> t \<and> t < end_s (ew_window w)) \<longleftrightarrow>
      (\<exists>iv \<in> set ivs. earth_end ground iv = Some (s, g) \<and> open_at t iv
        \<and> tdb_seconds now < ci_end iv
        \<and> (case horizon of None \<Rightarrow> True | Some h \<Rightarrow> ci_start iv \<le> tdb_seconds now + h)))"
  using assms
proof (induction ivs)
  case (Cons iv ivs)
  then obtain ws where ws: "earth_windows ground now horizon ivs = Inr ws"
    "\<And>s g t. (\<exists>w \<in> set ws. ew_station w = s \<and> ew_target w = g
        \<and> start_s (ew_window w) \<le> t \<and> t < end_s (ew_window w)) \<longleftrightarrow>
      (\<exists>iv \<in> set ivs. earth_end ground iv = Some (s, g) \<and> open_at t iv
        \<and> tdb_seconds now < ci_end iv
        \<and> (case horizon of None \<Rightarrow> True | Some h \<Rightarrow> ci_start iv \<le> tdb_seconds now + h))" by auto
  obtain w where w: "ci_window iv = Some w" "start_s w = ci_start iv" "end_s w = ci_end iv"
    using Cons.prems by (auto simp: typed_interval_def)
  show ?case
  proof (cases "earth_end ground iv")
    case None
    then show ?thesis using ws by auto
  next
    case (Some p)
    then show ?thesis using ws w
      by (cases p; cases horizon) (auto simp: interval_window_def open_at_def not_le not_less)
  qed
qed auto

lemma earth_schedule_of_typed:
  assumes typed: "\<forall>iv \<in> set (pl_intervals plan). typed_interval iv"
    and gate: "live \<Longrightarrow> LIVE_MISSION_LINK_PREDICTION \<in> set authorized"
    and horizon: "case horizon of None \<Rightarrow> True | Some h \<Rightarrow> 0 \<le> h"
  shows "\<exists>sch. earth_link_schedule plan now horizon live authorized prov = Inr sch
    \<and> sorted (map earth_order (es_windows sch))
    \<and> (\<forall>s g. (\<exists>w \<in> set (schedule_active sch now). ew_station w = s \<and> ew_target w = g) \<longleftrightarrow>
        (\<exists>iv \<in> set (pl_intervals plan). earth_end (ground_ids plan) iv = Some (s, g)
          \<and> open_at (tdb_seconds now) iv))"
proof -
  obtain ws where ws: "earth_windows (ground_ids plan) now horizon (pl_intervals plan) = Inr ws"
    "\<And>s g t. (\<exists>w \<in> set ws. ew_station w = s \<and> ew_target w = g
        \<and> start_s (ew_window w) \<le> t \<and> t < end_s (ew_window w)) \<longleftrightarrow>
      (\<exists>iv \<in> set (pl_intervals plan). earth_end (ground_ids plan) iv = Some (s, g) \<and> open_at t iv
        \<and> tdb_seconds now < ci_end iv
        \<and> (case horizon of None \<Rightarrow> True | Some h \<Rightarrow> ci_start iv \<le> tdb_seconds now + h))"
    using earth_windows_of_typed[OF typed] by blast
  have open_now: "(open_at (tdb_seconds now) iv \<and> tdb_seconds now < ci_end iv
      \<and> (case horizon of None \<Rightarrow> True | Some h \<Rightarrow> ci_start iv \<le> tdb_seconds now + h))
    = open_at (tdb_seconds now) iv" for iv
    using horizon by (cases horizon) (auto simp: open_at_def)
  let ?sch = "\<lparr>es_now = now, es_windows = sort_key earth_order ws, es_horizon = horizon,
    es_provenance = prov\<rparr>"
  have "earth_link_schedule plan now horizon live authorized prov = Inr ?sch"
    using ws(1) gate by (auto simp: earth_link_schedule_def)
  moreover have "(\<exists>w \<in> set (schedule_active ?sch now). ew_station w = s \<and> ew_target w = g) =
      (\<exists>w \<in> set ws. ew_station w = s \<and> ew_target w = g
        \<and> start_s (ew_window w) \<le> tdb_seconds now \<and> tdb_seconds now < end_s (ew_window w))" for s g
    by (auto simp: schedule_active_def)
  ultimately show ?thesis using ws(2)[of _ _ "tdb_seconds now", unfolded open_now]
    by (intro exI[of _ ?sch]) simp
qed

section \<open>The latency and bandwidth cube\<close>

text \<open>
  The arrays that \<^verbatim>\<open>emit_time_series\<close> fills and the range reads over them; \<open>None\<close> is a NaN cell.
  The Zarr and Parquet files that carry them are left out.
\<close>

definition plan_time_scale :: "contact_plan \<Rightarrow> time_scale" where
  "plan_time_scale plan = (case pl_window plan of
     Some w \<Rightarrow> ep_scale (win_start w)
   | None \<Rightarrow> (case filter (\<lambda>iv. ci_window iv \<noteq> None) (pl_intervals plan) of
       [] \<Rightarrow> TDB | iv # _ \<Rightarrow> ep_scale (win_start (the (ci_window iv)))))"

definition series_key :: "string \<Rightarrow> string \<Rightarrow> string" where
  "series_key a b = (if a \<le> b then a @ CHR ''|'' # b else b @ CHR ''|'' # a)"

text \<open>\<^verbatim>\<open>tuple(p.split("|", 1))\<close> of a key that has a bar.\<close>

definition series_nodes :: "string \<Rightarrow> string \<times> string" where
  "series_nodes p = (case partition_on CHR ''|'' p of (a, _, b) \<Rightarrow> (a, b))"

definition series_grid :: "epoch_window \<Rightarrow> rat \<Rightarrow> link_error + rat list" where
  "series_grid w step_s =
    (if step_s \<le> 0 then Inl (BadStep step_s)
     else Inr (map (\<lambda>k. start_s w + of_nat k * step_s)
       [0..<nat (max \<lceil>(end_s w - start_s w) / step_s\<rceil> 1)]))"

record cube =
  cu_pairs :: "string list"
  cu_epochs :: "rat list"
  cu_rate :: "rat option list list"
  cu_latency :: "rat option list list"
  cu_reach :: "bool list list"
  cu_step :: rat
  cu_scale :: time_scale
  cu_provenance :: "(string, string) dict"

definition cell :: "sampler \<Rightarrow> rat \<Rightarrow> string \<Rightarrow> link_state" where
  "cell s t p = reachable s (fst (series_nodes p)) (snd (series_nodes p)) (tdb_epoch t)"

definition emit_time_series ::
    "(contact_plan \<Rightarrow> string) \<Rightarrow> contact_plan \<Rightarrow> epoch_window \<Rightarrow> rat \<Rightarrow> (string, string) dict
      \<Rightarrow> link_error + cube" where
  "emit_time_series wire_digest plan w step_s prov =
    (let s = sampler_of wire_digest plan in
     rbind (series_grid w step_s) (\<lambda>grid.
       let pairs = sort (map (\<lambda>(k, _). series_key (fst k) (snd k)) (connectivity s (win_start w)))
       in Inr \<lparr>cu_pairs = pairs, cu_epochs = grid,
            cu_rate = map (\<lambda>t. map (\<lambda>p. ls_rate (cell s t p)) pairs) grid,
            cu_latency = map (\<lambda>t. map (\<lambda>p. ls_latency (cell s t p)) pairs) grid,
            cu_reach = map (\<lambda>t. map (\<lambda>p. ls_reachable (cell s t p)) pairs) grid,
            cu_step = step_s, cu_scale = ep_scale (win_start w), cu_provenance = prov\<rparr>))"

record cube_slice =
  cs_epochs :: "rat list"
  cs_pairs :: "string list"
  cs_rate :: "rat option list list"
  cs_latency :: "rat option list list"
  cs_reach :: "bool list list"

text \<open>\<^verbatim>\<open>np.searchsorted(xs, t, side="left")\<close> of an increasing axis.\<close>

definition search_left :: "rat list \<Rightarrow> rat \<Rightarrow> nat" where
  "search_left xs t = length (takeWhile (\<lambda>x. x < t) xs)"

definition slice :: "nat \<Rightarrow> nat \<Rightarrow> 'a list \<Rightarrow> 'a list" where
  "slice lo hi xs = drop lo (take hi xs)"

definition read_cube_time_window :: "cube \<Rightarrow> epoch_window \<Rightarrow> cube_slice" where
  "read_cube_time_window c w =
    (let lo = search_left (cu_epochs c) (start_s w); hi = search_left (cu_epochs c) (end_s w)
     in \<lparr>cs_epochs = slice lo hi (cu_epochs c), cs_pairs = cu_pairs c,
         cs_rate = slice lo hi (cu_rate c), cs_latency = slice lo hi (cu_latency c),
         cs_reach = slice lo hi (cu_reach c)\<rparr>)"

fun index_of :: "'a \<Rightarrow> 'a list \<Rightarrow> nat" where
  "index_of x [] = 0"
| "index_of x (y # ys) = (if x = y then 0 else Suc (index_of x ys))"

definition column :: "nat \<Rightarrow> 'a list list \<Rightarrow> 'a list list" where
  "column c rows = map (\<lambda>row. [row ! c]) rows"

definition read_cube_pair :: "cube \<Rightarrow> string \<Rightarrow> string \<Rightarrow> link_error + cube_slice" where
  "read_cube_pair c a b =
    (if series_key a b \<notin> set (cu_pairs c) then Inl (UnknownPair (series_key a b))
     else let col = index_of (series_key a b) (cu_pairs c)
       in Inr \<lparr>cs_epochs = cu_epochs c, cs_pairs = [series_key a b],
               cs_rate = column col (cu_rate c), cs_latency = column col (cu_latency c),
               cs_reach = column col (cu_reach c)\<rparr>)"

lemma index_of_nth: "x \<in> set xs \<Longrightarrow> index_of x xs < length xs \<and> xs ! index_of x xs = x"
  by (induction xs) auto

lemma series_nodes_key: "CHR ''|'' \<notin> set a \<Longrightarrow> CHR ''|'' \<notin> set b \<Longrightarrow>
    series_nodes (series_key a b) = pair_key a b"
  by (simp add: series_nodes_def series_key_def pair_key_def partition_on_append)

lemma reachable_key: "reachable s (fst (pair_key a b)) (snd (pair_key a b)) e = reachable s a b e"
proof -
  have "pair_key (fst (pair_key a b)) (snd (pair_key a b)) = pair_key a b"
    by (auto simp: pair_key_def)
  then show ?thesis unfolding reachable_def by (simp only:)
qed

lemma column_map:
  "p \<in> set ps \<Longrightarrow> column (index_of p ps) (map (\<lambda>t. map (\<lambda>q. f t q) ps) ts) = map (\<lambda>t. [f t p]) ts"
  using index_of_nth[of p ps] by (simp add: column_def)

text \<open>The keys of the sampler are the pairs of the plan.\<close>

lemma sampler_pairs: "set (dict_keys (sp_by_pair (sampler_of dg plan))) = key_of ` set (pl_intervals plan)"
proof -
  have "k \<in> set (dict_keys d) \<longleftrightarrow> dict_get d k \<noteq> None" for k and d :: "('x, 'y) dict"
    by (simp add: map_of_eq_None_iff)
  from this[of _ "sp_by_pair (sampler_of dg plan)"] show ?thesis
    unfolding sampler_lookup(1) by (intro set_eqI) (simp split: if_splits)
qed

lemma read_pair_of_emitted:
  assumes emit: "emit_time_series dg plan w step_s prov = Inr c"
    and clean: "CHR ''|'' \<notin> set a" "CHR ''|'' \<notin> set b"
    and known: "pair_intervals plan a b \<noteq> []"
  shows "read_cube_pair c a b = Inr \<lparr>cs_epochs = cu_epochs c, cs_pairs = [series_key a b],
    cs_rate = map (\<lambda>t. [ls_rate (reachable (sampler_of dg plan) a b (tdb_epoch t))]) (cu_epochs c),
    cs_latency = map (\<lambda>t. [ls_latency (reachable (sampler_of dg plan) a b (tdb_epoch t))]) (cu_epochs c),
    cs_reach = map (\<lambda>t. [ls_reachable (reachable (sampler_of dg plan) a b (tdb_epoch t))]) (cu_epochs c)\<rparr>"
proof -
  obtain iv where iv: "iv \<in> set (pl_intervals plan)" "key_of iv = pair_key a b"
    using known by (auto simp: pair_intervals_def filter_empty_conv)
  then have "pair_key a b \<in> set (dict_keys (sp_by_pair (sampler_of dg plan)))"
    unfolding sampler_pairs by (metis imageI)
  moreover have "series_key (fst (pair_key a b)) (snd (pair_key a b)) = series_key a b"
    by (auto simp: series_key_def pair_key_def)
  ultimately have mem: "series_key a b \<in> set (cu_pairs c)"
    using emit by (force simp: emit_time_series_def rbind_Inr Let_def connectivity_def)
  have cell: "cell (sampler_of dg plan) t (series_key a b) = reachable (sampler_of dg plan) a b (tdb_epoch t)" for t
    using clean by (simp add: cell_def series_nodes_key reachable_key)
  show ?thesis using emit mem column_map[OF mem]
    by (auto simp: emit_time_series_def rbind_Inr Let_def read_cube_pair_def cell column_map)
qed

end
