(* ===== verification/Link_Constellation.thy ===== *)
theory Link_Constellation
  imports Link_Plan
begin

text \<open>
  The constellation (\<^verbatim>\<open>link/constellation/_scenario.py\<close>): which node pairs are searched, with which
  geometry, and the contact plan of the whole node set. The geometry itself (line of sight against
  terrain, occultation by the body, the elevation of a target over a station) is an argument that
  answers or raises. The end of the theory follows a plan into the agents' belief: what the
  sampler reports, and when \<^verbatim>\<open>mind\<close> finds its agents out of contact.
\<close>

section \<open>The scenario\<close>

record surface_node =
  sn_name :: string
  sn_position :: vec3

record relay_node =
  rn_name :: string
  rn_target :: string

record ground_station =
  gs_name :: string
  gs_site :: json
  gs_min_elevation :: rat

text \<open>
  \<open>geo_frame\<close> is \<^verbatim>\<open>require_frame(world.frame)\<close>: the frame's name and its centre body.
  \<open>geo_los_earth\<close> is the line of sight to the \<^verbatim>\<open>EphemerisNode\<close> of the given Earth target.
\<close>

record geometry =
  geo_frame :: "link_error + string \<times> string option"
  geo_los_surface :: "surface_node \<Rightarrow> surface_node \<Rightarrow> visibility"
  geo_los_relay :: "surface_node \<Rightarrow> relay_node \<Rightarrow> visibility"
  geo_los_earth :: "surface_node \<Rightarrow> string \<Rightarrow> visibility"
  geo_relay_los :: "string \<Rightarrow> relay_node \<Rightarrow> relay_node \<Rightarrow> visibility"
  geo_elevation :: "string \<Rightarrow> json \<Rightarrow> epoch \<Rightarrow> link_error + rat"

record constellation =
  cst_surface :: "surface_node list"
  cst_relays :: "relay_node list"
  cst_ground :: "ground_station list"
  cst_window :: epoch_window
  cst_step :: rat
  cst_refine :: "rat option"
  cst_earth_target :: string
  cst_direct :: bool

definition constellation_names :: "constellation \<Rightarrow> string list" where
  "constellation_names c = map sn_name (cst_surface c) @ map rn_name (cst_relays c) @ map gs_name (cst_ground c)"

text \<open>\<^verbatim>\<open>__post_init__\<close>.\<close>

definition check_constellation :: "constellation \<Rightarrow> link_error + constellation" where
  "check_constellation c =
    (let names = constellation_names c;
         duplicates = sort (remdups (filter (\<lambda>n. 1 < count_list names n) names))
     in if names = [] then Inl EmptyConstellation
        else if duplicates \<noteq> [] then Inl (DuplicateNames duplicates)
        else Inr c)"

definition contact_nodes :: "constellation \<Rightarrow> contact_node list" where
  "contact_nodes c =
    map (\<lambda>n. \<lparr>nd_id = sn_name n, nd_role = SPACE, nd_kind = Some ''surface_agent''\<rparr>) (cst_surface c)
    @ map (\<lambda>n. \<lparr>nd_id = rn_name n, nd_role = SPACE, nd_kind = Some ''relay_orbiter''\<rparr>) (cst_relays c)
    @ map (\<lambda>g. \<lparr>nd_id = gs_name g, nd_role = GROUND, nd_kind = Some ''ground_station''\<rparr>) (cst_ground c)"

definition expected_pair_count :: "constellation \<Rightarrow> nat" where
  "expected_pair_count c =
    (let ns = length (cst_surface c); nr = length (cst_relays c); ng = length (cst_ground c);
         pairs = ns * (ns - 1) div 2 + ns * nr + nr * (nr - 1) div 2 + nr * ng
     in if cst_direct c then pairs + ns * ng else pairs)"

section \<open>The searches\<close>

text \<open>\<^verbatim>\<open>itertools.combinations(xs, 2)\<close> and the nested loops over two lists.\<close>

fun combinations2 :: "'a list \<Rightarrow> ('a \<times> 'a) list" where
  "combinations2 [] = []"
| "combinations2 (x # xs) = map (Pair x) xs @ combinations2 xs"

type_synonym search = "(string \<times> string) \<times> visibility"

definition surface_surface :: "geometry \<Rightarrow> constellation \<Rightarrow> search list" where
  "surface_surface geo c =
    map (\<lambda>(a, b). ((sn_name a, sn_name b), geo_los_surface geo a b)) (combinations2 (cst_surface c))"

definition surface_relay :: "geometry \<Rightarrow> constellation \<Rightarrow> search list" where
  "surface_relay geo c =
    map (\<lambda>(a, r). ((sn_name a, rn_name r), geo_los_relay geo a r))
      (List.product (cst_surface c) (cst_relays c))"

definition relay_relay :: "geometry \<Rightarrow> string \<Rightarrow> constellation \<Rightarrow> search list" where
  "relay_relay geo frame c =
    map (\<lambda>(a, b). ((rn_name a, rn_name b), geo_relay_los geo frame a b)) (combinations2 (cst_relays c))"

definition above_mask :: "geometry \<Rightarrow> string \<Rightarrow> ground_station \<Rightarrow> visibility" where
  "above_mask geo target g e =
    rbind (geo_elevation geo target (gs_site g) e) (\<lambda>el. Inr (gs_min_elevation g \<le> el))"

definition relay_ground :: "geometry \<Rightarrow> constellation \<Rightarrow> search list" where
  "relay_ground geo c =
    map (\<lambda>(r, g). ((rn_name r, gs_name g), above_mask geo (rn_target r) g))
      (List.product (cst_relays c) (cst_ground c))"

definition sees_earth :: "geometry \<Rightarrow> string \<Rightarrow> string \<Rightarrow> surface_node \<Rightarrow> ground_station \<Rightarrow> visibility" where
  "sees_earth geo body earth a g e =
    rbind (above_mask geo body g e) (\<lambda>up. if up then geo_los_earth geo a earth e else Inr False)"

definition surface_ground :: "geometry \<Rightarrow> string \<Rightarrow> constellation \<Rightarrow> search list" where
  "surface_ground geo body c =
    map (\<lambda>(a, g). ((sn_name a, gs_name g), sees_earth geo body (cst_earth_target c) a g))
      (List.product (cst_surface c) (cst_ground c))"

fun search_all :: "constellation \<Rightarrow> search list \<Rightarrow> (link_error + contact_window list) option" where
  "search_all c [] = Some (Inr [])"
| "search_all c ((pair, visible) # ss) =
    lbind (search_windows pair visible (cst_window c) (cst_step c) (cst_refine c)) (\<lambda>ws.
      lbind (search_all c ss) (\<lambda>rest. Some (Inr (ws @ rest))))"

definition constellation_contact_windows ::
    "geometry \<Rightarrow> constellation \<Rightarrow> (link_error + contact_window list) option" where
  "constellation_contact_windows geo c =
    lbind (search_all c (surface_surface geo c)) (\<lambda>w1.
    lbind (search_all c (surface_relay geo c)) (\<lambda>w2.
    lbind (Some (geo_frame geo)) (\<lambda>(frame, _).
    lbind (search_all c (relay_relay geo frame c)) (\<lambda>w3.
    lbind (search_all c (relay_ground geo c)) (\<lambda>w4.
    if \<not> cst_direct c then Some (Inr (w1 @ w2 @ w3 @ w4))
    else lbind (Some (geo_frame geo)) (\<lambda>(frame, centre).
      case centre of None \<Rightarrow> Some (Inl (NoCentreBody frame))
      | Some body \<Rightarrow> lbind (search_all c (surface_ground geo body c)) (\<lambda>w5.
          Some (Inr (w1 @ w2 @ w3 @ w4 @ w5)))))))))"

text \<open>\<^verbatim>\<open>build_anchor_contact_plan\<close>, with its budgets given.\<close>

definition constellation_plan ::
    "(contact_plan \<Rightarrow> string option) \<Rightarrow> geometry \<Rightarrow> constellation \<Rightarrow> budgets \<Rightarrow> (link_error + contact_plan) option" where
  "constellation_plan schema geo c budgets =
    lbind (constellation_contact_windows geo c) (\<lambda>ws.
      Some (build_contact_plan schema (contact_nodes c) ws budgets (Some (cst_window c)) True))"

section \<open>Every pair is searched once\<close>

definition all_searches :: "geometry \<Rightarrow> string \<Rightarrow> string \<Rightarrow> constellation \<Rightarrow> search list" where
  "all_searches geo frame body c = surface_surface geo c @ surface_relay geo c
    @ relay_relay geo frame c @ relay_ground geo c
    @ (if cst_direct c then surface_ground geo body c else [])"

lemma length_combinations2: "length (combinations2 xs) = length xs * (length xs - 1) div 2"
proof -
  have "2 * length (combinations2 xs) = length xs * (length xs - 1)"
  proof (induction xs)
    case (Cons x xs)
    have "length xs \<le> length xs * length xs" by (rule le_square)
    then show ?case using Cons.IH by (simp add: algebra_simps)
  qed simp
  then show ?thesis by simp
qed

lemma searches_counted: "length (all_searches geo frame body c) = expected_pair_count c"
  by (simp add: all_searches_def surface_surface_def surface_relay_def relay_relay_def
      relay_ground_def surface_ground_def expected_pair_count_def length_combinations2 Let_def)

lemma search_all_append:
  "search_all c (ss @ ss') =
    lbind (search_all c ss) (\<lambda>ws. lbind (search_all c ss') (\<lambda>ws'. Some (Inr (ws @ ws'))))"
proof (induction ss)
  case (Cons s ss)
  have assoc: "lbind (lbind r f) g = lbind r (\<lambda>x. lbind (f x) g)" for r :: "('e + 'x) option" and f g
    by (cases r; cases "the r") auto
  show ?case using Cons.IH by (cases s) (simp add: assoc)
next
  case Nil
  show ?case by (cases "search_all c ss'"; cases "the (search_all c ss')") auto
qed

lemma windows_of_searches:
  assumes "geo_frame geo = Inr (frame, Some body)"
    and "search_all c (all_searches geo frame body c) = Some (Inr ws)"
  shows "constellation_contact_windows geo c = Some (Inr ws)"
  using assms by (auto simp: constellation_contact_windows_def all_searches_def search_all_append
      lbind_Inr split: if_splits)

text \<open>With unique names, no two searches are about the same pair of nodes.\<close>

definition search_key :: "search \<Rightarrow> string \<times> string" where
  "search_key s = pair_key (fst (fst s)) (snd (fst s))"

definition name_key :: "string \<times> string \<Rightarrow> string \<times> string" where
  "name_key p = pair_key (fst p) (snd p)"

lemma combinations2_in: "p \<in> set (combinations2 xs) \<Longrightarrow> fst p \<in> set xs \<and> snd p \<in> set xs"
  by (induction xs) auto

lemma distinct_combinations: "distinct xs \<Longrightarrow> distinct (map name_key (combinations2 xs))"
proof (induction xs)
  case (Cons x xs)
  have "distinct (map (name_key \<circ> Pair x) xs)"
    using Cons.prems by (auto simp: distinct_map inj_on_def pair_key_eq name_key_def)
  moreover have "name_key (x, b) \<noteq> name_key p" if "p \<in> set (combinations2 xs)" for p b
    using combinations2_in[OF that] Cons.prems by (auto simp: name_key_def pair_key_eq)
  ultimately show ?case using Cons by fastforce
qed simp

lemma product_append:
  "mset (List.product (xs @ ys) zs) = mset (List.product xs zs) + mset (List.product ys zs)"
  "mset (List.product xs (ys @ zs)) = mset (List.product xs ys) + mset (List.product xs zs)"
  by (induction xs) auto

lemma combinations2_append:
  "mset (combinations2 (xs @ ys)) = mset (combinations2 xs) + mset (List.product xs ys) + mset (combinations2 ys)"
  by (induction xs) auto

lemma combinations2_map: "combinations2 (map f xs) = map (map_prod f f) (combinations2 xs)"
  by (induction xs) auto

lemma product_map: "List.product (map f xs) (map g ys) = map (map_prod f g) (List.product xs ys)"
  by (induction xs) auto

lemma distinct_submultiset: "distinct ys \<Longrightarrow> mset xs \<subseteq># mset ys \<Longrightarrow> distinct xs"
proof -
  assume d: "distinct ys" and sub: "mset xs \<subseteq># mset ys"
  have "count (mset ys) x = (if x \<in> set ys then 1 else 0)" for x
    using d unfolding distinct_count_atmost_1 by blast
  then have "count (mset ys) x \<le> 1" for x by (metis le_refl zero_le_one)
  then have "count (mset xs) x \<le> 1" for x
    using mset_subset_eq_count[OF sub, of x] by (metis le_trans)
  then have "count (mset xs) x = (if x \<in> set xs then 1 else 0)" for x
    by (metis count_eq_zero_iff le_antisym le_simps(3) not_gr_zero One_nat_def set_mset_mset)
  then show "distinct xs" by (simp add: distinct_count_atmost_1)
qed

lemma searches_distinct:
  assumes "distinct (constellation_names c)"
  shows "distinct (map search_key (all_searches geo frame body c))"
proof (rule distinct_submultiset[OF distinct_combinations[OF assms]])
  have keys: "map search_key (surface_surface geo c)
      = map name_key (combinations2 (map sn_name (cst_surface c)))"
    "map search_key (surface_relay geo c)
      = map name_key (List.product (map sn_name (cst_surface c)) (map rn_name (cst_relays c)))"
    "map search_key (relay_relay geo frame c)
      = map name_key (combinations2 (map rn_name (cst_relays c)))"
    "map search_key (relay_ground geo c)
      = map name_key (List.product (map rn_name (cst_relays c)) (map gs_name (cst_ground c)))"
    "map search_key (surface_ground geo body c)
      = map name_key (List.product (map sn_name (cst_surface c)) (map gs_name (cst_ground c)))"
    unfolding combinations2_map product_map
    by (auto simp: surface_surface_def surface_relay_def relay_relay_def relay_ground_def
        surface_ground_def search_key_def name_key_def)
  show "mset (map search_key (all_searches geo frame body c))
      \<subseteq># mset (map name_key (combinations2 (constellation_names c)))"
    unfolding constellation_names_def all_searches_def map_append if_distrib[of "map search_key"] keys
      mset_append mset_map combinations2_append product_append
    by (cases "cst_direct c") simp_all
qed

section \<open>The plan follows the geometry\<close>

definition refine_ok :: "rat option \<Rightarrow> rat \<Rightarrow> bool" where
  "refine_ok refine_s step_s = (case refine_s of None \<Rightarrow> True | Some r \<Rightarrow> 0 < r \<and> r \<le> step_s)"

definition well_posed :: "constellation \<Rightarrow> bool" where
  "well_posed c = (check_constellation c = Inr c \<and> window_ok (cst_window c) \<and> 0 < cst_step c
     \<and> refine_ok (cst_refine c) (cst_step c))"

text \<open>The geometry answers every question of the searches; \<open>V\<close> is what it answers for a pair.\<close>

definition geometry_decides ::
    "geometry \<Rightarrow> string \<Rightarrow> string \<Rightarrow> constellation \<Rightarrow> (string \<times> string \<Rightarrow> rat \<Rightarrow> bool) \<Rightarrow> bool" where
  "geometry_decides geo frame body c V =
    (geo_frame geo = Inr (frame, Some body)
     \<and> (\<forall>s \<in> set (all_searches geo frame body c). decides (snd s) (V (fst s))))"

definition sampled :: "constellation \<Rightarrow> rat \<Rightarrow> bool" where
  "sampled c t = (\<exists>k. t = start_s (cst_window c) + of_nat k * cst_step c \<and> t < end_s (cst_window c))"

definition window_key :: "contact_window \<Rightarrow> string \<times> string" where
  "window_key w = pair_key (cw_observer w) (cw_target w)"

definition answers :: "constellation \<Rightarrow> (string \<times> string \<Rightarrow> rat \<Rightarrow> bool) \<Rightarrow> contact_window list \<Rightarrow> search \<Rightarrow> bool" where
  "answers c V ws s =
    (let own = filter (\<lambda>w. window_key w = search_key s) ws
     in exact_windows (fst s) (V (fst s)) (cst_window c) (tolerance (cst_refine c) (cst_step c)) own
        \<and> (\<forall>t. sampled c t \<longrightarrow> V (fst s) t = (\<exists>w \<in> set own. cw_covers w t)))"

lemma exact_windows_key:
  "exact_windows p V w tol ws \<Longrightarrow> c \<in> set ws \<Longrightarrow> cw_observer c = fst p \<and> cw_target c = snd p \<and> opens c < closes c"
  by (auto simp: exact_windows_def ordered_windows_def)

lemma search_all_answers:
  assumes "window_ok (cst_window c)" "0 < cst_step c" "refine_ok (cst_refine c) (cst_step c)"
    and "\<forall>s \<in> set ss. decides (snd s) (V (fst s))" "distinct (map search_key ss)"
  shows "\<exists>ws. search_all c ss = Some (Inr ws) \<and> (\<forall>s \<in> set ss. answers c V ws s)
    \<and> (\<forall>w \<in> set ws. (cw_observer w, cw_target w) \<in> fst ` set ss \<and> opens w < closes w)"
  using assms(4,5)
proof (induction ss)
  case (Cons s ss)
  obtain p vis where s: "s = (p, vis)" by (cases s)
  from Cons obtain rest where rest: "search_all c ss = Some (Inr rest)"
    "\<forall>s \<in> set ss. answers c V rest s"
    "\<forall>w \<in> set rest. (cw_observer w, cw_target w) \<in> fst ` set ss \<and> opens w < closes w" by auto
  obtain ws where ws: "search_windows p vis (cst_window c) (cst_step c) (cst_refine c) = Some (Inr ws)"
    "exact_windows p (V p) (cst_window c) (tolerance (cst_refine c) (cst_step c)) ws"
    "\<forall>t. sampled c t \<longrightarrow> V p t = (\<exists>w \<in> set ws. cw_covers w t)"
    using search_windows_returns[of vis "V p" "cst_window c" "cst_step c" "cst_refine c" p] assms(1-3)
      Cons.prems(1) s by (auto simp: refine_ok_def sampled_def)
  have own: "window_key w = search_key s" if "w \<in> set ws" for w
    using exact_windows_key[OF ws(2) that] s by (simp add: window_key_def search_key_def)
  have other: "window_key w \<in> search_key ` set ss" if "w \<in> set rest" for w
    using rest(3) that by (force simp: window_key_def search_key_def)
  have "search_key s \<notin> search_key ` set ss" using Cons.prems(2) by simp
  then have "window_key w \<noteq> search_key s" if "w \<in> set rest" for w
    using other[OF that] by auto
  then have "filter (\<lambda>w. window_key w = search_key s) rest = []" by (simp add: filter_empty_conv)
  moreover have "filter (\<lambda>w. window_key w = search_key s) ws = ws" using own by (simp add: filter_id_conv)
  ultimately have "filter (\<lambda>w. window_key w = search_key s) (ws @ rest) = ws" by simp
  then have "answers c V (ws @ rest) s" using ws(2,3) s by (simp add: answers_def Let_def)
  moreover have "answers c V (ws @ rest) s'" if "s' \<in> set ss" for s'
  proof -
    have "filter (\<lambda>w. window_key w = search_key s') ws = []"
      using own that Cons.prems(2) by (auto simp: filter_empty_conv)
    then show ?thesis using rest(2) that by (simp add: answers_def Let_def)
  qed
  moreover have "search_all c (s # ss) = Some (Inr (ws @ rest))" using s ws(1) rest(1) by simp
  moreover have "(cw_observer w, cw_target w) \<in> fst ` set (s # ss) \<and> opens w < closes w"
    if "w \<in> set (ws @ rest)" for w
    using that rest(3) exact_windows_key[OF ws(2)] s by auto
  ultimately show ?case by (intro exI[of _ "ws @ rest"]) simp
qed simp

lemma ordered_covers: "ordered_windows ws \<Longrightarrow> length (filter (\<lambda>w. cw_covers w t) ws) \<le> 1"
proof (induction ws)
  case (Cons w ws)
  then have later: "\<forall>d \<in> set ws. closes w < opens d" "ordered_windows ws"
    by (auto simp: ordered_windows_def)
  show ?case
  proof (cases "cw_covers w t")
    case True
    then have "filter (\<lambda>w. cw_covers w t) ws = []"
      using later(1) by (fastforce simp: cw_covers_def filter_empty_conv)
    then show ?thesis by simp
  qed (use Cons.IH later(2) in simp)
qed simp

lemma list_all2_filter:
  "list_all2 R xs ys \<Longrightarrow> (\<And>x y. R x y \<Longrightarrow> P x = Q y) \<Longrightarrow> list_all2 R (filter P xs) (filter Q ys)"
  by (induction xs ys rule: list_all2_induct) auto

lemma carried_exclusive:
  assumes "list_all2 (carries budgets) ws ivs" "ordered_windows ws"
  shows "exclusive ivs"
proof -
  have "list_all2 (carries budgets) (filter (\<lambda>w. cw_covers w t) ws) (filter (open_at t) ivs)" for t
    by (rule list_all2_filter[OF assms(1)]) (simp add: carries_def cw_covers_def open_at_def)
  then have "length (filter (open_at t) ivs) \<le> 1" for t
    using ordered_covers[OF assms(2)] by (metis list_all2_lengthD)
  moreover have "\<forall>iv \<in> set ivs. ci_start iv < ci_end iv"
    using carried_interval[OF assms(1)] carried_typed by blast
  ultimately show ?thesis by (simp add: exclusive_def)
qed

text \<open>From the windows of one search to what the sampler of the plan reports.\<close>

lemma plan_answers:
  assumes plan: "build_contact_plan schema nodes ws budgets whole validate = Inr plan"
    and ans: "answers c V ws s" and t: "sampled c t"
  shows "ls_reachable (reachable (sampler_of dg plan) (fst (fst s)) (snd (fst s)) (tdb_epoch t)) = V (fst s) t"
    "exclusive (pair_intervals plan (fst (fst s)) (snd (fst s)))"
proof -
  let ?own = "filter (\<lambda>w. window_key w = search_key s) ws"
  let ?ivs = "pair_intervals plan (fst (fst s)) (snd (fst s))"
  have car: "list_all2 (carries budgets) ?own ?ivs"
    unfolding pair_intervals_def
    by (rule list_all2_filter[OF build_contact_plan_carries(1)[OF plan]])
      (simp add: carries_def window_key_def search_key_def key_of_def)
  show ex: "exclusive ?ivs"
    using carried_exclusive[OF car] ans by (simp add: answers_def exact_windows_def Let_def)
  have "V (fst s) t = (\<exists>w \<in> set ?own. cw_covers w t)" using ans t by (simp add: answers_def Let_def)
  also have "\<dots> = (\<exists>iv \<in> set ?ivs. open_at t iv)"
    using carried_interval[OF car] carried_window[OF car]
    by (auto simp: carries_def cw_covers_def open_at_def simp del: set_filter) metis+
  also have "\<dots> = ls_reachable (reachable (sampler_of dg plan) (fst (fst s)) (snd (fst s)) (tdb_epoch t))"
  proof
    assume "\<exists>iv \<in> set ?ivs. open_at t iv"
    then show "ls_reachable (reachable (sampler_of dg plan) (fst (fst s)) (snd (fst s)) (tdb_epoch t))"
      using reachable_complete[OF ex, of _ "tdb_epoch t"] by auto
  next
    assume "ls_reachable (reachable (sampler_of dg plan) (fst (fst s)) (snd (fst s)) (tdb_epoch t))"
    then show "\<exists>iv \<in> set ?ivs. open_at t iv" using reachable_sound by fastforce
  qed
  finally show "ls_reachable (reachable (sampler_of dg plan) (fst (fst s)) (snd (fst s)) (tdb_epoch t)) = V (fst s) t" ..
qed



lemma distinct_if_counted: "(\<forall>n \<in> set xs. \<not> 1 < count_list xs n) \<Longrightarrow> distinct xs"
proof (induction xs)
  case (Cons x xs)
  have "\<not> 1 < count_list (x # xs) x" using Cons.prems by simp
  then have "x \<notin> set xs" using count_list_0_iff[of xs x] by simp
  moreover have "\<forall>n \<in> set xs. \<not> 1 < count_list xs n"
  proof
    fix n assume "n \<in> set xs"
    then have "\<not> 1 < count_list (x # xs) n" using Cons.prems by simp
    then show "\<not> 1 < count_list xs n" by (simp split: if_splits)
  qed
  ultimately show ?case using Cons.IH by simp
qed simp

lemma check_constellation_distinct:
  assumes "check_constellation c = Inr c" shows "distinct (constellation_names c)"
proof -
  have "set (sort (remdups (filter (\<lambda>n. 1 < count_list (constellation_names c) n)
      (constellation_names c)))) = {}"
    using assms by (auto simp: check_constellation_def Let_def simp del: set_sort split: if_splits)
  then have "\<forall>n \<in> set (constellation_names c). \<not> 1 < count_list (constellation_names c) n"
    by (simp add: filter_empty_conv)
  then show ?thesis by (rule distinct_if_counted)
qed

lemma well_posed_parts:
  assumes "well_posed c"
  shows "window_ok (cst_window c)" "0 < cst_step c" "refine_ok (cst_refine c) (cst_step c)"
    "distinct (constellation_names c)"
  using assms check_constellation_distinct by (auto simp: well_posed_def)

lemma contact_node_ids: "map nd_id (contact_nodes c) = constellation_names c"
  by (simp add: contact_nodes_def constellation_names_def o_def)

lemma search_ends:
  "s \<in> set (all_searches geo frame body c) \<Longrightarrow>
    fst (fst s) \<in> sn_name ` set (cst_surface c) \<union> rn_name ` set (cst_relays c)
    \<and> snd (fst s) \<in> set (constellation_names c)"
  by (auto simp: all_searches_def surface_surface_def surface_relay_def relay_relay_def relay_ground_def
      surface_ground_def constellation_names_def dest!: combinations2_in split: if_splits)

lemma plan_of_searches:
  assumes "well_posed c" "geometry_decides geo frame body c V"
  shows "\<exists>ws. constellation_plan schema geo c budgets
      = Some (build_contact_plan schema (contact_nodes c) ws budgets (Some (cst_window c)) True)
    \<and> (\<forall>e. constellation_plan schema geo c budgets = Some (Inl e)
        \<longrightarrow> (\<exists>p why. schema p = Some why \<and> e = SchemaViolation why))
    \<and> (\<forall>s \<in> set (all_searches geo frame body c). answers c V ws s)
    \<and> (\<forall>w \<in> set ws. (cw_observer w, cw_target w) \<in> fst ` set (all_searches geo frame body c))"
proof -
  note ok = well_posed_parts[OF assms(1)]
  have geo: "geo_frame geo = Inr (frame, Some body)"
    "\<forall>s \<in> set (all_searches geo frame body c). decides (snd s) (V (fst s))"
    using assms(2) by (simp_all add: geometry_decides_def)
  from search_all_answers[OF ok(1-3) geo(2) searches_distinct[OF ok(4)]] obtain ws where ws:
    "search_all c (all_searches geo frame body c) = Some (Inr ws)"
    "\<forall>s \<in> set (all_searches geo frame body c). answers c V ws s"
    "\<forall>w \<in> set ws. (cw_observer w, cw_target w) \<in> fst ` set (all_searches geo frame body c) \<and> opens w < closes w"
    by blast
  have "nd_id ` set (contact_nodes c) = set (constellation_names c)"
    using contact_node_ids[of c] by (metis set_map)
  then have "\<forall>w \<in> set ws. cw_observer w \<in> nd_id ` set (contact_nodes c)
      \<and> cw_target w \<in> nd_id ` set (contact_nodes c) \<and> opens w < closes w"
    using ws(3) search_ends by (fastforce simp: constellation_names_def)
  note refused = build_contact_plan_total[where schema = schema, OF this]
  have "constellation_plan schema geo c budgets
      = Some (build_contact_plan schema (contact_nodes c) ws budgets (Some (cst_window c)) True)"
    using windows_of_searches[OF geo(1) ws(1)] by (simp add: constellation_plan_def)
  with ws refused show ?thesis by (intro exI[of _ ws] conjI) auto
qed

text \<open>The ground stations an agent sees, as far as its searches go.\<close>

definition sees_station ::
    "geometry \<Rightarrow> string \<Rightarrow> string \<Rightarrow> constellation \<Rightarrow> (string \<times> string \<Rightarrow> rat \<Rightarrow> bool) \<Rightarrow> string \<Rightarrow> rat \<Rightarrow> bool" where
  "sees_station geo frame body c V a t = (\<exists>g \<in> set (cst_ground c).
     (a, gs_name g) \<in> fst ` set (all_searches geo frame body c) \<and> V (a, gs_name g) t)"

definition space_names :: "constellation \<Rightarrow> string list" where
  "space_names c = map sn_name (cst_surface c) @ map rn_name (cst_relays c)"

lemma station_reachable:
  assumes "well_posed c"
    and plan: "build_contact_plan schema (contact_nodes c) ws budgets whole validate = Inr plan"
    and ans: "\<forall>s \<in> set (all_searches geo frame body c). answers c V ws s"
    and own: "\<forall>w \<in> set ws. (cw_observer w, cw_target w) \<in> fst ` set (all_searches geo frame body c)"
    and t: "sampled c t" and a: "a \<in> set (space_names c)" and g: "g \<in> set (cst_ground c)"
  shows "ls_reachable (reachable (sampler_of dg plan) a (gs_name g) (tdb_epoch t))
    = ((a, gs_name g) \<in> fst ` set (all_searches geo frame body c) \<and> V (a, gs_name g) t)"
proof (cases "(a, gs_name g) \<in> fst ` set (all_searches geo frame body c)")
  case True
  then obtain s where s: "s \<in> set (all_searches geo frame body c)" "fst s = (a, gs_name g)" by force
  then have "answers c V ws s" using ans by blast
  from plan_answers(1)[OF plan this t] s(2) True show ?thesis by simp
next
  case False
  have "gs_name g \<notin> set (space_names c)"
    using well_posed_parts(4)[OF assms(1)] g by (auto simp: constellation_names_def space_names_def)
  then have "(gs_name g, a) \<notin> fst ` set (all_searches geo frame body c)"
    using search_ends by (fastforce simp: space_names_def)
  then have "window_key w \<noteq> pair_key a (gs_name g)" if "w \<in> set ws" for w
    unfolding window_key_def pair_key_eq using bspec[OF own that] False by metis
  then have "key_of iv \<noteq> pair_key a (gs_name g)" if "iv \<in> set (pl_intervals plan)" for iv
    using carried_interval[OF build_contact_plan_carries(1)[OF plan] that]
    by (auto simp: carries_def key_of_def window_key_def)
  then have "pair_intervals plan a (gs_name g) = []" by (simp add: pair_intervals_def filter_empty_conv)
  then show ?thesis using False reachable_sound[of dg plan a "gs_name g" "tdb_epoch t"] by auto
qed

lemma ground_role:
  assumes "distinct (constellation_names c)" "pl_nodes plan = contact_nodes c" "p \<in> set (constellation_names c)"
  shows "dict_get (sp_roles (sampler_of dg plan)) p = Some GROUND \<longleftrightarrow> p \<in> gs_name ` set (cst_ground c)"
proof -
  have d: "distinct (map nd_id (pl_nodes plan))" using assms(1,2) contact_node_ids by simp
  obtain n where n: "n \<in> set (contact_nodes c)" "nd_id n = p"
    using assms(3) contact_node_ids[of c] by (metis (no_types, lifting) imageE set_map)
  have role: "dict_get (sp_roles (sampler_of dg plan)) p = Some (nd_role n)"
    using role_of[OF d, of n] n assms(2) by simp
  have "nd_role n = GROUND \<longleftrightarrow> p \<in> gs_name ` set (cst_ground c)"
    using n assms(1) by (auto simp: contact_nodes_def constellation_names_def)
  then show ?thesis using role by simp
qed

lemma mask_earth:
  assumes "comms_mask_of s a e = Inr m"
  shows "mask_earth_contact m = list_ex (\<lambda>p. ls_reachable (reachable s a p e)
      \<and> dict_get (sp_roles s) p = Some GROUND) (filter (\<lambda>p. p \<noteq> a) (sampler_nodes s))"
proof -
  have "m = \<lparr>mask_agent = a, mask_links = map (peer_of s a e) (filter (\<lambda>p. p \<noteq> a) (sampler_nodes s)),
      mask_earth_contact = list_ex (\<lambda>p. ls_reachable (reachable s a p e)
        \<and> dict_get (sp_roles s) p = Some GROUND) (filter (\<lambda>p. p \<noteq> a) (sampler_nodes s))\<rparr>"
    using assms unfolding comms_mask_of_def Let_def
    by (cases "a \<in> set (sampler_nodes s)") (simp_all only: if_True if_False not_not simp_thms
        sum.inject sum.simps)
  then show ?thesis by (simp only: comms_mask.select_convs)
qed

lemma mask_sees_station:
  assumes wp: "well_posed c"
    and plan: "build_contact_plan schema (contact_nodes c) ws budgets whole validate = Inr plan"
    and ans: "\<forall>s \<in> set (all_searches geo frame body c). answers c V ws s"
    and own: "\<forall>w \<in> set ws. (cw_observer w, cw_target w) \<in> fst ` set (all_searches geo frame body c)"
    and t: "sampled c t" and a: "a \<in> set (space_names c)"
    and m: "comms_mask_of (sampler_of dg plan) a (tdb_epoch t) = Inr m"
  shows "mask_earth_contact m = sees_station geo frame body c V a t"
proof -
  note d = well_posed_parts(4)[OF wp]
  have nodes: "pl_nodes plan = contact_nodes c" by (rule build_contact_plan_carries(2)[OF plan])
  have ids: "set (sampler_nodes (sampler_of dg plan)) = set (constellation_names c)"
    unfolding sampler_nodes_of nodes using contact_node_ids[of c] by (metis set_map)
  have ground: "p \<in> set (constellation_names c)" "p \<noteq> a" if "p \<in> gs_name ` set (cst_ground c)" for p
    using that d a by (auto simp: constellation_names_def space_names_def)
  have "mask_earth_contact m = list_ex (\<lambda>p. ls_reachable (reachable (sampler_of dg plan) a p (tdb_epoch t))
      \<and> dict_get (sp_roles (sampler_of dg plan)) p = Some GROUND)
      (filter (\<lambda>p. p \<noteq> a) (sampler_nodes (sampler_of dg plan)))"
    by (rule mask_earth[OF m])
  also have "\<dots> = (\<exists>p \<in> set (constellation_names c). p \<noteq> a
      \<and> ls_reachable (reachable (sampler_of dg plan) a p (tdb_epoch t))
      \<and> dict_get (sp_roles (sampler_of dg plan)) p = Some GROUND)"
    unfolding list_ex_iff set_filter ids by blast
  also have "\<dots> = (\<exists>p \<in> gs_name ` set (cst_ground c). ls_reachable (reachable (sampler_of dg plan) a p (tdb_epoch t)))"
  proof -
    have "(p \<in> set (constellation_names c) \<and> p \<noteq> a \<and> R \<and> dict_get (sp_roles (sampler_of dg plan)) p = Some GROUND)
        = (p \<in> gs_name ` set (cst_ground c) \<and> R)" for p R
      using ground[of p] ground_role[OF d nodes, of p dg] by metis
    then show ?thesis unfolding Bex_def by (simp only:)
  qed
  also have "\<dots> = (\<exists>g \<in> set (cst_ground c).
      ls_reachable (reachable (sampler_of dg plan) a (gs_name g) (tdb_epoch t)))" by (rule bex_simps(7))
  also have "\<dots> = sees_station geo frame body c V a t" unfolding sees_station_def
    by (rule bex_cong[OF refl]) (rule station_reachable[OF wp plan ans own t a])
  finally show ?thesis .
qed

section \<open>From geometry to belief\<close>


text \<open>
  A rover in permanent shadow, an orbiter and a station: the orbiter is over the station's mask for
  the first half of the window, and the rover always sees the orbiter and never the Earth.
\<close>

definition demo_constellation :: constellation where
  "demo_constellation = \<lparr>
     cst_surface = [\<lparr>sn_name = ''rover'', sn_position = (0, 0, 0)\<rparr>],
     cst_relays = [\<lparr>rn_name = ''orbiter'', rn_target = ''LRO''\<rparr>],
     cst_ground = [\<lparr>gs_name = ''dsn'', gs_site = JNull, gs_min_elevation = 10\<rparr>],
     cst_window = \<lparr>win_start = tdb_epoch 0, win_end = tdb_epoch 100\<rparr>,
     cst_step = 10, cst_refine = Some 1, cst_earth_target = ''EARTH'', cst_direct = True\<rparr>"

definition demo_geometry :: geometry where
  "demo_geometry = \<lparr>geo_frame = Inr (''MOON_ME'', Some ''MOON''),
     geo_los_surface = (\<lambda>a b e. Inr True), geo_los_relay = (\<lambda>a r e. Inr True),
     geo_los_earth = (\<lambda>a earth e. Inr False), geo_relay_los = (\<lambda>frame a b e. Inr True),
     geo_elevation = (\<lambda>target site e. Inr (if tdb_seconds e < 50 then 20 else 0))\<rparr>"

definition demo_sight :: "string \<times> string \<Rightarrow> rat \<Rightarrow> bool" where
  "demo_sight p t = (if p = (''orbiter'', ''dsn'') then t < 50 else p = (''rover'', ''orbiter''))"

lemma demo_well_posed: "well_posed demo_constellation"
  by (simp add: well_posed_def demo_constellation_def check_constellation_def constellation_names_def
      window_ok_def refine_ok_def Let_def)

lemma demo_searches: "map fst (all_searches demo_geometry ''MOON_ME'' ''MOON'' demo_constellation)
    = [(''rover'', ''orbiter''), (''orbiter'', ''dsn''), (''rover'', ''dsn'')]"
  by (simp add: all_searches_def demo_constellation_def surface_surface_def surface_relay_def
      relay_relay_def relay_ground_def surface_ground_def)

lemma demo_decides: "geometry_decides demo_geometry ''MOON_ME'' ''MOON'' demo_constellation demo_sight"
  by (simp add: geometry_decides_def all_searches_def demo_constellation_def surface_surface_def
      surface_relay_def relay_relay_def relay_ground_def surface_ground_def demo_geometry_def
      decides_def demo_sight_def above_mask_def sees_earth_def)

lemma demo_sampled: "sampled demo_constellation 20" "sampled demo_constellation 70"
  unfolding sampled_def
  by (rule exI[of _ 2], simp add: demo_constellation_def, rule exI[of _ 7], simp add: demo_constellation_def)


lemma earth_contact_of_observations:
  assumes "\<forall>(a, ob) \<in> set obs. \<exists>m. obs_comms ob = Some m \<and> mask_earth_contact m = S a"
  shows "comms_denied (assemble_belief obs tick now) = (obs \<noteq> [] \<and> (\<forall>a \<in> set (dict_keys obs). \<not> S a))"
proof -
  have "belief_earth_contact (assemble_belief obs tick now) a = S a" if a: "a \<in> set (dict_keys obs)" for a
  proof -
    obtain ob where ob: "dict_get obs a = Some ob" using a by (metis map_of_eq_None_iff option.exhaust set_map)
    then have "(a, ob) \<in> set obs" by (rule map_of_SomeD)
    then show ?thesis using ob assms
      by (fastforce simp: belief_earth_contact_def assemble_belief_def dict_get_map_value)
  qed
  then show ?thesis by (auto simp: comms_denied_def assemble_belief_def list_ex_iff)
qed

text \<open>
  The comms denial that \<^verbatim>\<open>mind\<close> acts on is the geometry's: for a well-posed constellation whose
  geometry answers every question of the search, when the observed agents (nodes of the constellation
  that are not stations) all carry the masks that the sampler of the constellation's plan emits at a
  sampled instant, the belief is comms-denied exactly when there is an observed agent and none of them
  sees a ground station at that instant.
\<close>

theorem blackout_is_geometry:
  assumes "well_posed c" "geometry_decides geo frame body c V"
    and "constellation_plan schema geo c budgets = Some (Inr plan)"
    and "sampled c t" "set (dict_keys obs) \<subseteq> set (space_names c)"
    and "\<forall>(a, ob) \<in> set obs.
      \<exists>m. comms_mask_of (sampler_of dg plan) a (tdb_epoch t) = Inr m \<and> obs_comms ob = Some m"
  shows "comms_denied (assemble_belief obs tick now) \<longleftrightarrow>
    obs \<noteq> [] \<and> (\<forall>a \<in> set (dict_keys obs). \<not> sees_station geo frame body c V a t)"
proof -
  obtain ws where same: "constellation_plan schema geo c budgets
      = Some (build_contact_plan schema (contact_nodes c) ws budgets (Some (cst_window c)) True)"
    and ans: "\<forall>s \<in> set (all_searches geo frame body c). answers c V ws s"
    and own: "\<forall>w \<in> set ws. (cw_observer w, cw_target w) \<in> fst ` set (all_searches geo frame body c)"
    using plan_of_searches[where schema = schema, OF assms(1,2)] by blast
  have plan: "build_contact_plan schema (contact_nodes c) ws budgets (Some (cst_window c)) True = Inr plan"
    using same assms(3) by simp
  have "\<exists>m. obs_comms ob = Some m \<and> mask_earth_contact m = sees_station geo frame body c V a t"
    if "(a, ob) \<in> set obs" for a ob
  proof -
    have "a \<in> set (space_names c)" using assms(5) that by force
    moreover have "\<exists>m. comms_mask_of (sampler_of dg plan) a (tdb_epoch t) = Inr m \<and> obs_comms ob = Some m"
      using bspec[OF assms(6) that] by simp
    ultimately show ?thesis using mask_sees_station[OF assms(1) plan ans own assms(4)] by blast
  qed
  then have "\<forall>(a, ob) \<in> set obs.
      \<exists>m. obs_comms ob = Some m \<and> mask_earth_contact m = sees_station geo frame body c V a t"
    by blast
  then show ?thesis by (rule earth_contact_of_observations)
qed

definition demo_observed :: "comms_mask \<Rightarrow> observation" where
  "demo_observed m = \<lparr>obs_tick = 2, obs_time = 20, obs_observable = True, obs_state = at_rest,
     obs_sensors = [], obs_comms = Some m, obs_other = JNull\<rparr>"

lemma demo_masks:
  assumes "constellation_plan (\<lambda>_. None) demo_geometry demo_constellation [] = Some (Inr plan)"
    and "a \<in> {''rover'', ''orbiter''}"
  shows "\<exists>m. comms_mask_of (sampler_of (\<lambda>_. ''ab'') plan) a e = Inr m"
proof -
  have "pl_nodes plan = contact_nodes demo_constellation"
    using assms(1) build_contact_plan_carries(2)
    by (auto simp: constellation_plan_def lbind_def split: option.splits sum.splits)
  then have "a \<in> set (sampler_nodes (sampler_of (\<lambda>_. ''ab'') plan))"
    unfolding sampler_nodes_of using assms(2) by (auto simp: contact_nodes_def demo_constellation_def)
  then show ?thesis by (simp add: comms_mask_of_def Let_def)
qed

lemma blackout_is_geometry_witness:
  "\<exists>plan m n. constellation_plan (\<lambda>_. None) demo_geometry demo_constellation [] = Some (Inr plan)
    \<and> comms_mask_of (sampler_of (\<lambda>_. ''ab'') plan) ''rover'' (tdb_epoch 20) = Inr m
    \<and> comms_denied (assemble_belief [(''rover'', demo_observed m)] 2 20)
    \<and> comms_mask_of (sampler_of (\<lambda>_. ''ab'') plan) ''orbiter'' (tdb_epoch 20) = Inr n
    \<and> \<not> comms_denied (assemble_belief [(''rover'', demo_observed m), (''orbiter'', demo_observed n)] 2 20)"
proof -
  obtain plan where plan: "constellation_plan (\<lambda>_. None) demo_geometry demo_constellation [] = Some (Inr plan)"
    using plan_of_searches[OF demo_well_posed demo_decides, of "\<lambda>_. None" "[]"] by (metis option.distinct(1) sum.exhaust)
  obtain m n where m: "comms_mask_of (sampler_of (\<lambda>_. ''ab'') plan) ''rover'' (tdb_epoch 20) = Inr m"
    and n: "comms_mask_of (sampler_of (\<lambda>_. ''ab'') plan) ''orbiter'' (tdb_epoch 20) = Inr n"
    using demo_masks[OF plan, of "''rover''" "tdb_epoch 20"]
      demo_masks[OF plan, of "''orbiter''" "tdb_epoch 20"] by (simp only: insert_iff) blast
  have names: "set (space_names demo_constellation) = {''rover'', ''orbiter''}"
    by (simp add: space_names_def demo_constellation_def)
  have sees: "\<not> sees_station demo_geometry ''MOON_ME'' ''MOON'' demo_constellation demo_sight ''rover'' 20"
    "sees_station demo_geometry ''MOON_ME'' ''MOON'' demo_constellation demo_sight ''orbiter'' 20"
    unfolding sees_station_def set_map[symmetric] demo_searches
    by (simp_all add: demo_constellation_def demo_sight_def)
  have carry: "obs_comms (demo_observed k) = Some k" for k by (simp add: demo_observed_def)
  note use = blackout_is_geometry[OF demo_well_posed demo_decides plan demo_sampled(1),
      where dg = "\<lambda>_. ''ab''" and tick = 2 and now = 20]
  have "comms_denied (assemble_belief [(''rover'', demo_observed m)] 2 20)"
    using sees(1) m names carry by (subst use) auto
  moreover have "\<not> comms_denied (assemble_belief [(''rover'', demo_observed m), (''orbiter'', demo_observed n)] 2 20)"
    using sees(2) m n names carry by (subst use) auto
  ultimately show ?thesis using plan m n by blast
qed

end
