(* ===== verification/Spec2Isabelle.thy ===== *)
theory Spec2Isabelle
  imports Hub_Client Mind_Compose Bench_Service Guard_Stack Link_Constellation
begin

text \<open>
  A verification library for the astro-mine platform (the Python packages under
  \<^verbatim>\<open>src/src/astro_mine\<close>). Paths below are relative to that directory. Every definition is
  translated from the source it names; each theory opens with what it holds.

  \<^bold>\<open>The program.\<close> The platform lets a community exchange and run plugins for lunar resource
  operations. \<^verbatim>\<open>core\<close> holds the shared contracts (versioned interfaces, plugin manifests, messages,
  scoring input). \<^verbatim>\<open>hub\<close> is the artifact registry: a content-addressed OCI layout, a catalog with
  search and resolution, admission, download policy and curation, and the client SDK. \<^verbatim>\<open>seal\<close> signs
  and attests what the hub stores. \<^verbatim>\<open>mind\<close> composes an autonomy stack out of hub plugins and runs it
  behind a safety shield. \<^verbatim>\<open>guard\<close> is that shield: a reviewed safety contract is validated and
  compiled, and a small trusted core in Rust (\<^verbatim>\<open>src/rust\<close>) certifies, corrects or replaces every
  proposed command. \<^verbatim>\<open>link\<close> computes who can talk to whom and when, and what \<^verbatim>\<open>mind\<close> observes of it.
  \<^verbatim>\<open>bench\<close> evaluates submitted policies on content-addressed scenarios and
  ranks them on a hosted board. They meet at explicit seams: the hub calls seal through the
  attestation store, admission calls the registry and seal, the client calls all of these; the
  composer loads plugins through the registry gate of core; the executive hands every batch to the
  shield; its belief reads the comms masks that link's sampler makes of a contact plan; the
  leaderboard calls the scorer, which calls the sandbox.

  \<^bold>\<open>Theories and sources.\<close>

  \<^item> \<^verbatim>\<open>Platform_Prelude\<close>: Python dictionaries (insertion ordered, as association lists), fallible
    results, state with exceptions, strings, and the collections \<open>dict_simps\<close>, \<open>result_simps\<close>,
    \<open>inv_intros\<close>. \<^verbatim>\<open>Json_Values\<close>: JSON documents and their identification up to key order.
  \<^item> \<^verbatim>\<open>Core_Compat\<close> (\<^verbatim>\<open>core/compat\<close>) and \<^verbatim>\<open>Plugin_Registry\<close> (\<^verbatim>\<open>core/registry\<close>): the version gate,
    manifests and the plugin registry.
  \<^item> \<^verbatim>\<open>Seal_Trust\<close> (\<^verbatim>\<open>seal/_trust.py\<close>, \<^verbatim>\<open>_signing.py\<close>), \<^verbatim>\<open>Seal_Verify\<close> (\<^verbatim>\<open>_attest.py\<close>,
    \<^verbatim>\<open>_supply_chain.py\<close>): keys, signatures, attestations and their fail-closed verification.
  \<^item> \<^verbatim>\<open>Hub_Store\<close> (\<^verbatim>\<open>hub/registry\<close>), \<^verbatim>\<open>Hub_Names\<close>, \<^verbatim>\<open>Hub_Catalog\<close> (\<^verbatim>\<open>hub/index\<close>, \<^verbatim>\<open>hub/search\<close>,
    \<^verbatim>\<open>hub/resolve\<close>), \<^verbatim>\<open>Hub_Supply\<close> (\<^verbatim>\<open>hub/supply_chain\<close>), \<^verbatim>\<open>Hub_Governance\<close> (\<^verbatim>\<open>hub/policy\<close>,
    \<^verbatim>\<open>hub/curation\<close>), \<^verbatim>\<open>Hub_Client\<close> (\<^verbatim>\<open>hub/client\<close>).
  \<^item> \<^verbatim>\<open>Mind_Model\<close>, \<^verbatim>\<open>Behavior_Tree\<close> and \<^verbatim>\<open>BT_Engine\<close> (\<^verbatim>\<open>mind/bt\<close>), \<^verbatim>\<open>Mind_Strategy\<close> (\<^verbatim>\<open>mind/exec\<close>
    strategies, plans, \<^verbatim>\<open>mind/coord\<close>), \<^verbatim>\<open>Mind_Executive\<close> (\<^verbatim>\<open>mind/exec\<close> run loop, shield egress,
    stack policy), \<^verbatim>\<open>Mind_Compose\<close> (\<^verbatim>\<open>mind/registry\<close>, \<^verbatim>\<open>mind/compose\<close>).
  \<^item> \<^verbatim>\<open>Guard_Spec\<close> (\<^verbatim>\<open>guard/spec\<close> model, enums, loader) and \<^verbatim>\<open>Guard_Compile\<close>
    (\<^verbatim>\<open>guard/spec/compiler.py\<close>): the contract, its checks, its compiled form. The trusted core:
    \<^verbatim>\<open>Guard_Monitor\<close> (\<^verbatim>\<open>monitors.rs\<close>), \<^verbatim>\<open>Guard_Shield\<close> (\<^verbatim>\<open>shield.rs\<close>), \<^verbatim>\<open>Guard_Core\<close>
    (\<^verbatim>\<open>backup.rs\<close>, \<^verbatim>\<open>arbiter.rs\<close>, \<^verbatim>\<open>model.rs\<close>). \<^verbatim>\<open>Guard_Chain\<close>, \<^verbatim>\<open>Guard_Safety\<close> and
    \<^verbatim>\<open>Guard_Contract\<close> relate what the core does to the contract before compilation. \<^verbatim>\<open>Guard_Wrap\<close>
    (\<^verbatim>\<open>guard/wrap/shield.py\<close>, \<^verbatim>\<open>guard/models/resolver.py\<close>) and \<^verbatim>\<open>Guard_Stack\<close>
    (\<^verbatim>\<open>guard/audit\<close>, \<^verbatim>\<open>guard/mind\<close>): the policy shield, its audit records and the shield as a stage
    of the executive of \<^verbatim>\<open>Mind_Executive\<close>.
  \<^item> \<^verbatim>\<open>Link_Windows\<close> (\<^verbatim>\<open>link/windows\<close>): the search for contact windows; \<^verbatim>\<open>Link_Plan\<close>
    (\<^verbatim>\<open>link/products\<close>, the contact plan of \<^verbatim>\<open>core/messages\<close>): plans, connectivity, comms masks,
    the Earth-link schedule and the latency cube; \<^verbatim>\<open>Link_Constellation\<close> (\<^verbatim>\<open>link/constellation\<close>,
    \<^verbatim>\<open>link/anchor\<close>): the search over a node set, and the way from its geometry to the belief of \<^verbatim>\<open>mind\<close>.
  \<^item> \<^verbatim>\<open>Bench_Scenario\<close> (\<^verbatim>\<open>bench/scenario\<close>), \<^verbatim>\<open>Bench_Metrics\<close> (\<^verbatim>\<open>bench/metrics\<close>), \<^verbatim>\<open>Bench_Stores\<close>
    (\<^verbatim>\<open>bench/leaderboard\<close>: board, audit trail, objects, jobs, rate limit), \<^verbatim>\<open>Bench_Access\<close>
    (\<^verbatim>\<open>_auth.py\<close>, \<^verbatim>\<open>_authz.py\<close>), \<^verbatim>\<open>Bench_Eval\<close> (\<^verbatim>\<open>bench/sandbox/_score.py\<close>,
    \<^verbatim>\<open>bench/leaderboard/_eval.py\<close>, \<^verbatim>\<open>_provenance.py\<close>), \<^verbatim>\<open>Bench_Service\<close> (\<^verbatim>\<open>_service.py\<close>, \<^verbatim>\<open>_hub.py\<close>,
    \<^verbatim>\<open>_supply_chain.py\<close>): the service that composes all of these with the hub's layout and seal's
    verification.

  \<^bold>\<open>How state and errors are modelled.\<close> A class with state is a record, and a method is a function
  from the state to the result beside the new state (\<open>st\<close> of the prelude), so what was written
  before an exception stays written; an exception is a constructor of the component's error type.
  Interfaces that several operations rely on are locales interpreted on the model's definitions:
  the blob layout, the attestation store, the catalog, the board, the audit log and the object
  store, each on every backend that the source has.

  \<^bold>\<open>Parameters and hypotheses.\<close> What is not in the repository is an argument of the definitions:
  the digest and the canonical encoding (SHA-256 over JSON), the \<^verbatim>\<open>cryptography\<close> package, PyJWT,
  \<^verbatim>\<open>packaging\<close>, the embedding providers, HTTP transports, the sandboxed process, the environment
  and the plugged-in policies; calls with effects act on an explicit world. Hypotheses about them
  (a signature verifies exactly for the key that made it, the digest is injective on what is
  stored) are premises of the properties that need them, and each such property has a witness with
  a concrete instance. Strings are ASCII; floating point numbers are exact rationals or reals, so
  rounding is not covered. In the trusted core a double is a \<open>real option\<close> whose \<open>None\<close> is any
  non-finite value, the clock of its watchdog is an argument, and the configured ceilings are not
  negative (\<^verbatim>\<open>f64::clamp\<close> panics on a negative one). A contract has finite numbers; its decoder runs
  on the parsed fields of the wire, where the numbers it tests may be non-finite (\<open>wire_model\<close>), and
  is shown to refuse them. Overflow is modelled where the code can meet it: in the divergence of an
  audit record, which raises and loses the record. An audit sink is a step that may raise, and the
  \<^verbatim>\<open>try\<close> that keeps it from gating an action is part of the model. The geometry of a
  constellation and the radio budgets are arguments of the link search.

  \<^bold>\<open>What the groups of lemmas show.\<close> Of the supply chain: what is stored is addressed by content and
  never overwritten, what is indexed, resolved, promoted or loaded passed every gate, and what is
  pulled is what was published. Of a stack: only gated plugins run, only the shield reaches the
  environment, faults degrade to fallbacks, and a loss of contact holds and then reconciles. Of the
  guard: what the loader accepts compiles to a model that the core enforces, a violated clause ends
  in a backup, and certified and backup commands stay in their envelopes; where the code falls short
  of its documentation (a speed limit with one side, an unnamed mode, a record lost to an overflow, a
  hold without a position) a theorem on a concrete input says so. Of the contact plans: they answer
  with the geometry they were computed from. Of the benchmark: a board entry was scored as claimed,
  is accounted for, and is ranked by its own score; what becomes of a job is stated for every
  outcome, the ones that leave it open included.

  \<^bold>\<open>Bounds and termination.\<close> The run loop recurses on the remaining ticks of \<^verbatim>\<open>max_ticks\<close>, so it
  returns for every stack; the sampling and bisection loops of the window search are partial
  functions, shown to return for a positive step and tolerance; the mark phase of garbage collection decreases the number of unmarked
  blobs; the solver of the shield runs its fixed number of cycles and the monitors keep the window
  the compiler reserved; resolving a signing key makes at most two attempts, as the code does; every other
  recursion is structural.

  \<^bold>\<open>Not modelled.\<close> Parsing of text (JSON, YAML, XML characters), file permissions and temporary
  files, transports, the isolation mechanisms of the sandbox, numerical simulation, learning and
  planning code. The manifest lists every package with its status and the reason.
\<close>

end
